(* ===== verification/Flux_Prelude.thy ===== *)
theory Flux_Prelude
  imports Main "HOL-Library.Word" "HOL-Library.Char_ord" "HOL-Library.List_Lexorder" "HOL-Library.AList"
begin

text \<open>
  Shared vocabulary of the Flux development: the machine integers, strings and times of the
  Go sources, Go's \<open>sort.Slice\<close>, decimal and hexadecimal formatting, the \<open>for ... range\<close>
  loop that collects issues, and the interface (a locale) under which all validation loops of
  the program are analysed once.
\<close>

named_theorems issue_simps \<open>when a validation step reports no issue\<close>
named_theorems canon_simps \<open>canonical forms leave validated values alone\<close>

section \<open>Types of the Go sources\<close>

text \<open>
  Go strings are byte sequences, so a \<^typ>\<open>string\<close> (a list of 8-bit characters) models them
  exactly, and the order of \<open>List_Lexorder\<close> over \<open>Char_ord\<close> is Go's bytewise \<open><\<close> on strings.
  A \<open>time.Time\<close> is the number of nanoseconds since Go's zero time (1 January, year 1), so that
  \<open>IsZero\<close> is equality with 0; durations are nanoseconds too.
\<close>

type_synonym u8 = "8 word"
type_synonym u16 = "16 word"
type_synonym u32 = "32 word"
type_synonym u64 = "64 word"
type_synonym time = int
type_synonym duration = int

definition IsZero :: "time \<Rightarrow> bool" where
  "IsZero t \<longleftrightarrow> t = 0"

definition Before :: "time \<Rightarrow> time \<Rightarrow> bool" where
  "Before t u \<longleftrightarrow> t < u"

definition Second :: duration where
  "Second = 1000000000"

section \<open>Formatting\<close>

fun show_nat :: "nat \<Rightarrow> string" where
  "show_nat n = (if n < 10 then [char_of (48 + n)] else show_nat (n div 10) @ [char_of (48 + n mod 10)])"

declare show_nat.simps [simp del]

definition hex_digit :: "nat \<Rightarrow> char" where
  "hex_digit n = (if n < 10 then char_of (48 + n) else char_of (87 + n))"

fun show_hex :: "nat \<Rightarrow> string" where
  "show_hex n = (if n < 16 then [hex_digit n] else show_hex (n div 16) @ [hex_digit (n mod 16)])"

declare show_hex.simps [simp del]

fun join :: "string \<Rightarrow> string list \<Rightarrow> string" where
  "join sep [] = []"
| "join sep [x] = x"
| "join sep (x # y # xs) = x @ sep @ join sep (y # xs)"

lemma show_nat_nonempty: "show_nat n \<noteq> []"
  by (subst show_nat.simps) simp

text \<open>The decimal form determines the number: it is read back by Horner's rule.\<close>

definition read_nat :: "string \<Rightarrow> nat" where
  "read_nat s = foldl (\<lambda>n c. 10 * n + (of_char c - 48)) 0 s"

lemma read_show_nat: "read_nat (show_nat n) = n"
proof (induction n rule: show_nat.induct)
  case (1 n)
  show ?case
  proof (cases "n < 10")
    case True
    then show ?thesis by (subst show_nat.simps) (simp add: read_nat_def)
  next
    case False
    then have "read_nat (show_nat (n div 10)) = n div 10" using "1" by simp
    moreover have "n mod 10 < 10" by simp
    ultimately show ?thesis using False
      by (subst show_nat.simps) (simp add: read_nat_def)
  qed
qed

lemma show_nat_inject [simp]: "show_nat m = show_nat n \<longleftrightarrow> m = n"
  by (metis read_show_nat)

section \<open>Go's sort.Slice\<close>

text \<open>
  \<open>sort.Slice(xs, less)\<close> is modelled by an insertion sort over the literal \<open>less\<close> function of
  the call. The library does not promise what happens to elements that \<open>less\<close> cannot tell
  apart; the model keeps their order. \<open>sort_less_cong_perm\<close> below shows that this choice is
  invisible whenever \<open>less\<close> is total on the elements, which is the case for every slice whose
  keys validation has found distinct.
\<close>

fun insert_less :: "('a \<Rightarrow> 'a \<Rightarrow> bool) \<Rightarrow> 'a \<Rightarrow> 'a list \<Rightarrow> 'a list" where
  "insert_less lt x [] = [x]"
| "insert_less lt x (y # ys) = (if lt y x then y # insert_less lt x ys else x # y # ys)"

primrec sort_less :: "('a \<Rightarrow> 'a \<Rightarrow> bool) \<Rightarrow> 'a list \<Rightarrow> 'a list" where
  "sort_less lt [] = []"
| "sort_less lt (x # xs) = insert_less lt x (sort_less lt xs)"

lemma set_insert_less [simp]: "set (insert_less lt x ys) = insert x (set ys)"
  by (induction ys) auto

lemma set_sort_less [simp]: "set (sort_less lt xs) = set xs"
  by (induction xs) auto

lemma length_insert_less [simp]: "length (insert_less lt x ys) = Suc (length ys)"
  by (induction ys) auto

lemma length_sort_less [simp]: "length (sort_less lt xs) = length xs"
  by (induction xs) auto

lemma distinct_insert_less [simp]: "distinct (insert_less lt x ys) \<longleftrightarrow> x \<notin> set ys \<and> distinct ys"
  by (induction ys) auto

lemma distinct_sort_less [simp]: "distinct xs \<Longrightarrow> distinct (sort_less lt xs)"
  by (induction xs) auto

lemma map_insert_less:
  "(\<And>a b. lt' (f a) (f b) = lt a b) \<Longrightarrow> map f (insert_less lt x ys) = insert_less lt' (f x) (map f ys)"
  by (induction ys) auto

lemma map_sort_less:
  "(\<And>a b. lt' (f a) (f b) = lt a b) \<Longrightarrow> map f (sort_less lt xs) = sort_less lt' (map f xs)"
  by (induction xs) (auto simp: map_insert_less [of lt' f lt])

text \<open>
  The contract a comparator has to meet for \<open>sort.Slice\<close> to have a well-defined result: it is
  a strict order, total on the elements that are sorted.
\<close>

locale slice_order =
  fixes lt :: "'a \<Rightarrow> 'a \<Rightarrow> bool"
  assumes irrefl: "\<not> lt x x"
    and trans: "lt x y \<Longrightarrow> lt y z \<Longrightarrow> lt x z"
    and weak: "\<not> lt x y \<Longrightarrow> \<not> lt y z \<Longrightarrow> \<not> lt x z"
begin

lemma asym: "lt x y \<Longrightarrow> \<not> lt y x"
  using irrefl [of x] trans [of x y x] by blast

lemma sorted_insert: "sorted_wrt (\<lambda>a b. \<not> lt b a) ys \<Longrightarrow> sorted_wrt (\<lambda>a b. \<not> lt b a) (insert_less lt x ys)"
proof (induction ys)
  case Nil
  then show ?case by simp
next
  case (Cons y ys)
  have "\<not> lt b x" if "\<not> lt y x" "b \<in> set ys" for b
    using that Cons.prems weak [of b y x] by simp
  with Cons asym [of y x] show ?case by simp
qed

lemma sorted_slice: "sorted_wrt (\<lambda>a b. \<not> lt b a) (sort_less lt xs)"
  by (induction xs) (auto intro: sorted_insert)

lemma insert_sorted_id:
  "sorted_wrt (\<lambda>a b. \<not> lt b a) (x # ys) \<Longrightarrow> insert_less lt x ys = x # ys"
  by (cases ys) auto

lemma sorted_slice_id: "sorted_wrt (\<lambda>a b. \<not> lt b a) xs \<Longrightarrow> sort_less lt xs = xs"
  by (induction xs) (auto simp: insert_sorted_id)

lemma slice_idem: "sort_less lt (sort_less lt xs) = sort_less lt xs"
  by (rule sorted_slice_id [OF sorted_slice])

lemma hd_slice_least:
  assumes "y \<in> set xs"
  shows "\<not> lt y (hd (sort_less lt xs))"
proof (cases "sort_less lt xs")
  case Nil
  then have "set xs = {}" using set_sort_less [of lt xs] by simp
  with assms show ?thesis by simp
next
  case (Cons a as)
  have "y \<in> set (a # as)" using assms set_sort_less [of lt xs] Cons by simp
  then show ?thesis using sorted_slice [of xs] irrefl unfolding Cons by auto
qed

lemma sorted_unique:
  assumes "sorted_wrt lt xs" "sorted_wrt lt ys" "set xs = set ys"
  shows "xs = ys"
  using assms
proof (induction xs arbitrary: ys)
  case Nil
  then show ?case by simp
next
  case (Cons x xs)
  then obtain y ys' where ys: "ys = y # ys'" by (cases ys) auto
  have xy: "x = y" using Cons.prems asym unfolding ys by fastforce
  have "x \<notin> set xs" "y \<notin> set ys'" using Cons.prems irrefl unfolding ys by auto
  then have "set xs = set ys'" using Cons.prems(3) xy unfolding ys by auto
  with Cons.IH [of ys'] Cons.prems xy ys show ?case by simp
qed

lemma slice_strict:
  assumes "distinct xs" and total: "\<And>a b. a \<in> set xs \<Longrightarrow> b \<in> set xs \<Longrightarrow> a \<noteq> b \<Longrightarrow> lt a b \<or> lt b a"
  shows "sorted_wrt lt (sort_less lt xs)"
proof -
  have "sorted_wrt (\<lambda>a b. \<not> lt b a \<and> a \<noteq> b) (sort_less lt xs)"
    using sorted_slice [of xs] distinct_sort_less [OF assms(1), of lt]
    by (simp add: sorted_wrt_iff_nth_less distinct_conv_nth)
  then show ?thesis
    by (rule sorted_wrt_mono_rel [rotated]) (use total in auto)
qed

text \<open>Sorting forgets the order in which the elements arrive: the way a map is ranged over
  before the sort does not matter.\<close>

lemma slice_perm:
  assumes "distinct xs" "distinct ys" "set xs = set ys"
    and "\<And>a b. a \<in> set xs \<Longrightarrow> b \<in> set xs \<Longrightarrow> a \<noteq> b \<Longrightarrow> lt a b \<or> lt b a"
  shows "sort_less lt xs = sort_less lt ys"
  by (rule sorted_unique) (use assms in \<open>auto intro!: slice_strict\<close>)

end

text \<open>Sorting by a key whose type is linearly ordered is the common case.\<close>

lemma slice_order_key: "slice_order (\<lambda>a b. (f a :: 'k :: linorder) < f b)"
  by unfold_locales auto

section \<open>Validation loops\<close>

text \<open>
  \<open>for i, x := range xs { ... issues = append(issues, ...) ... }\<close>: the body may report issues
  and update the bookkeeping (maps of owners, sets of seen keys) it shares with later rounds.
\<close>

fun range_issues :: "(nat \<Rightarrow> 'a \<Rightarrow> 's \<Rightarrow> string list \<times> 's) \<Rightarrow> nat \<Rightarrow> 's \<Rightarrow> 'a list \<Rightarrow> string list \<times> 's" where
  "range_issues body i st [] = ([], st)"
| "range_issues body i st (x # xs) =
     (let (found, st') = body i x st; (more, st'') = range_issues body (Suc i) st' xs
      in (found @ more, st''))"

text \<open>\<open>if cond { issues = append(issues, message) }\<close>\<close>

definition issue_if :: "bool \<Rightarrow> string \<Rightarrow> string list" where
  "issue_if c m = (if c then [m] else [])"

lemma issue_if_Nil [simp, issue_simps]: "issue_if c m = [] \<longleftrightarrow> \<not> c"
  by (simp add: issue_if_def)

text \<open>
  The interface of a validation loop: a round is silent exactly when the element is fine by
  itself (\<open>ok\<close>) and compatible with every element accepted before it (\<open>compat\<close>), and the
  bookkeeping of a silent round describes the accepted elements (\<open>tracks\<close>). The whole loop is
  then silent exactly when all elements are fine and pairwise compatible.
\<close>

locale range_scan =
  fixes body :: "nat \<Rightarrow> 'a \<Rightarrow> 's \<Rightarrow> string list \<times> 's"
    and ok :: "'a \<Rightarrow> bool"
    and compat :: "'a \<Rightarrow> 'a \<Rightarrow> bool"
    and tracks :: "'s \<Rightarrow> 'a list \<Rightarrow> bool"
  assumes silent: "tracks st seen \<Longrightarrow> fst (body i x st) = [] \<longleftrightarrow> ok x \<and> (\<forall>y\<in>set seen. compat y x)"
    and tracks_step: "tracks st seen \<Longrightarrow> fst (body i x st) = [] \<Longrightarrow> tracks (snd (body i x st)) (seen @ [x])"
begin

lemma scan_silent:
  "tracks st seen \<Longrightarrow> fst (range_issues body i st xs) = [] \<longleftrightarrow>
     (\<forall>x\<in>set xs. ok x) \<and> sorted_wrt compat xs \<and> (\<forall>y\<in>set seen. \<forall>x\<in>set xs. compat y x)"
proof (induction xs arbitrary: st seen i)
  case Nil
  then show ?case by simp
next
  case (Cons x xs)
  obtain found st' where body: "body i x st = (found, st')" by (cases "body i x st")
  show ?case
  proof (cases "found = []")
    case True
    have now: "ok x \<and> (\<forall>y\<in>set seen. compat y x)" and next_st: "tracks st' (seen @ [x])"
      using silent [OF Cons.prems, of i x] tracks_step [OF Cons.prems, of i x] True body by auto
    show ?thesis using Cons.IH [OF next_st, of "Suc i"] now True body
      by (auto simp: Let_def split: prod.splits)
  next
    case False
    then have "\<not> (ok x \<and> (\<forall>y\<in>set seen. compat y x))"
      using silent [OF Cons.prems, of i x] body by auto
    with False show ?thesis by (auto simp: body Let_def split: prod.splits)
  qed
qed

lemma scan_tracks:
  "tracks st seen \<Longrightarrow> fst (range_issues body i st xs) = [] \<Longrightarrow>
     tracks (snd (range_issues body i st xs)) (seen @ xs)"
proof (induction xs arbitrary: st seen i)
  case Nil
  then show ?case by simp
next
  case (Cons x xs)
  obtain found st' where body: "body i x st = (found, st')" by (cases "body i x st")
  have silent_x: "found = []" and silent_xs: "fst (range_issues body (Suc i) st' xs) = []"
    using Cons.prems(2) body by (auto simp: Let_def split: prod.splits)
  have "tracks st' (seen @ [x])" using tracks_step [OF Cons.prems(1), of i x] silent_x body by auto
  from Cons.IH [OF this silent_xs] show ?case using body by (auto simp: Let_def split: prod.splits)
qed

end

text \<open>
  \<open>for i, x := range xs { if ... { return err } ... }\<close>: the loop that returns the first error. Its
  interface is the same, and follows from that of the loop that collects issues.
\<close>

fun range_check :: "(nat \<Rightarrow> 'a \<Rightarrow> 's \<Rightarrow> 'e + 's) \<Rightarrow> nat \<Rightarrow> 's \<Rightarrow> 'a list \<Rightarrow> 'e + 's" where
  "range_check body i st [] = Inr st"
| "range_check body i st (x # xs) =
     (case body i x st of Inl e \<Rightarrow> Inl e | Inr st' \<Rightarrow> range_check body (Suc i) st' xs)"

definition issue_body :: "(nat \<Rightarrow> 'a \<Rightarrow> 's \<Rightarrow> 'e + 's) \<Rightarrow> nat \<Rightarrow> 'a \<Rightarrow> 's \<Rightarrow> string list \<times> 's" where
  "issue_body body i x st = (case body i x st of Inl e \<Rightarrow> ([[]], st) | Inr st' \<Rightarrow> ([], st'))"

lemma range_check_issues:
  "(\<exists>st'. range_check body i st xs = Inr st') \<longleftrightarrow> fst (range_issues (issue_body body) i st xs) = []"
  "range_check body i st xs = Inr st' \<Longrightarrow> snd (range_issues (issue_body body) i st xs) = st'"
  by (induction xs arbitrary: i st) (auto simp: issue_body_def Let_def split: sum.splits prod.splits)

locale range_guard =
  fixes body :: "nat \<Rightarrow> 'a \<Rightarrow> 's \<Rightarrow> 'e + 's"
    and ok :: "'a \<Rightarrow> bool"
    and compat :: "'a \<Rightarrow> 'a \<Rightarrow> bool"
    and tracks :: "'s \<Rightarrow> 'a list \<Rightarrow> bool"
  assumes passes: "tracks st seen \<Longrightarrow> (\<exists>st'. body i x st = Inr st') \<longleftrightarrow> ok x \<and> (\<forall>y\<in>set seen. compat y x)"
    and tracks_next: "tracks st seen \<Longrightarrow> body i x st = Inr st' \<Longrightarrow> tracks st' (seen @ [x])"

sublocale range_guard \<subseteq> scan: range_scan "issue_body body" ok compat tracks
proof unfold_locales
  fix st seen i x
  assume tr: "tracks st seen"
  show "fst (issue_body body i x st) = [] \<longleftrightarrow> ok x \<and> (\<forall>y\<in>set seen. compat y x)"
    using passes [OF tr, of i x] by (auto simp: issue_body_def split: sum.splits)
  assume "fst (issue_body body i x st) = []"
  then show "tracks (snd (issue_body body i x st)) (seen @ [x])"
    using tracks_next [OF tr, of i x] by (auto simp: issue_body_def split: sum.splits)
qed

context range_guard
begin

lemma guard_passes:
  "tracks st seen \<Longrightarrow> (\<exists>st'. range_check body i st xs = Inr st') \<longleftrightarrow>
     (\<forall>x\<in>set xs. ok x) \<and> sorted_wrt compat xs \<and> (\<forall>y\<in>set seen. \<forall>x\<in>set xs. compat y x)"
  unfolding range_check_issues(1) by (rule scan.scan_silent)

lemma guard_tracks:
  "tracks st seen \<Longrightarrow> range_check body i st xs = Inr st' \<Longrightarrow> tracks st' (seen @ xs)"
  using scan.scan_tracks [of st seen i xs] range_check_issues [of body i st xs] by blast

end

text \<open>A symmetric pairwise condition does not depend on the order of the list.\<close>

lemma sorted_wrt_sym_iff:
  assumes sym: "\<And>x y. R x y \<Longrightarrow> R y x" and "distinct xs"
  shows "sorted_wrt R xs \<longleftrightarrow> (\<forall>x\<in>set xs. \<forall>y\<in>set xs. x \<noteq> y \<longrightarrow> R x y)"
  using assms(2) by (induction xs) (auto dest: sym)

section \<open>Owner maps\<close>

text \<open>
  Validation loops remember in a map which element has taken a key. \<open>owned f g m seen\<close>: the map
  has an entry for exactly the keys \<open>f\<close> of the elements seen, and the entry relates to each of
  them by \<open>g\<close>.
\<close>

definition owned :: "('a \<Rightarrow> 'k) \<Rightarrow> ('a \<Rightarrow> 'v \<Rightarrow> bool) \<Rightarrow> ('k \<rightharpoonup> 'v) \<Rightarrow> 'a list \<Rightarrow> bool" where
  "owned f g m seen \<longleftrightarrow> dom m = f ` set seen \<and> (\<forall>x\<in>set seen. \<forall>v. m (f x) = Some v \<longrightarrow> g x v)"

lemma owned_empty [simp]: "owned f g Map.empty []"
  by (simp add: owned_def)

lemma owned_None: "owned f g m seen \<Longrightarrow> m k = None \<longleftrightarrow> (\<forall>x\<in>set seen. f x \<noteq> k)"
  by (metis (no_types, lifting) domIff image_iff owned_def)

lemma owned_Some: "owned f g m seen \<Longrightarrow> m k = Some v \<Longrightarrow> x \<in> set seen \<Longrightarrow> f x = k \<Longrightarrow> g x v"
  by (auto simp: owned_def)

lemma owned_Some_ex:
  assumes "owned f g m seen" and "m k = Some v"
  shows "\<exists>x\<in>set seen. f x = k \<and> g x v"
proof -
  have "dom m = f ` set seen" using assms(1) by (simp add: owned_def)
  then have "k \<in> f ` set seen" using domI [of m k, OF assms(2)] by simp
  then obtain x where "x \<in> set seen" "f x = k" by blast
  then show ?thesis using owned_Some [OF assms] by blast
qed

lemma owned_step:
  assumes "owned f g m seen" and "\<And>y. y \<in> set seen \<Longrightarrow> f y = f x \<Longrightarrow> g y v" and "g x v"
  shows "owned f g (m(f x \<mapsto> v)) (seen @ [x])"
  using assms unfolding owned_def by auto

section \<open>Lists\<close>

lemma find_SomeD: "List.find P xs = Some x \<Longrightarrow> x \<in> set xs \<and> P x"
  by (induction xs) (auto split: if_splits)

lemma notin_image_iff: "y \<notin> f ` A \<longleftrightarrow> (\<forall>x\<in>A. f x \<noteq> y)"
  by auto

lemma distinct_sorted_wrt: "distinct xs \<longleftrightarrow> sorted_wrt (\<noteq>) xs"
  by (induction xs) auto

lemma distinct_map_sorted_wrt: "distinct (map f xs) \<longleftrightarrow> sorted_wrt (\<lambda>x y. f x \<noteq> f y) xs"
  by (induction xs) auto

lemma sort_less_Nil [simp]: "sort_less lt xs = [] \<longleftrightarrow> xs = []"
  using length_sort_less [of lt xs] by (metis length_0_conv)

lemma sep_inject: "a @ c # r = b @ c # t \<Longrightarrow> c \<notin> set a \<Longrightarrow> c \<notin> set b \<Longrightarrow> a = b \<and> r = t"
  by (induction a arbitrary: b) (case_tac b; auto)+

lemma show_nat_digits: "c \<in> set (show_nat n) \<Longrightarrow> 48 \<le> (of_char c :: nat) \<and> (of_char c :: nat) \<le> 57"
proof (induction n rule: show_nat.induct)
  case (1 n)
  have "n mod 10 < 10" by simp
  then show ?case using "1" by (subst (asm) (2) show_nat.simps) (auto split: if_splits)
qed

lemma sorted_wrt_insert_less:
  "(\<And>x y. R x y \<Longrightarrow> R y x) \<Longrightarrow> sorted_wrt R (x # ys) \<Longrightarrow> sorted_wrt R (insert_less lt x ys)"
  by (induction ys) auto

lemma sorted_wrt_sort_less:
  "(\<And>x y. R x y \<Longrightarrow> R y x) \<Longrightarrow> sorted_wrt R xs \<Longrightarrow> sorted_wrt R (sort_less lt xs)"
  by (induction xs) (auto intro!: sorted_wrt_insert_less)

lemma pairwise_canonical:
  assumes "sorted_wrt R xs" and "\<And>x y. R x y \<Longrightarrow> R y x"
    and "\<And>x y. x \<in> set xs \<Longrightarrow> y \<in> set xs \<Longrightarrow> R x y \<Longrightarrow> R (f x) (f y)"
  shows "sorted_wrt R (sort_less lt (map f xs))"
proof (rule sorted_wrt_sort_less)
  show "sorted_wrt R (map f xs)"
    unfolding sorted_wrt_map by (rule sorted_wrt_mono_rel [OF _ assms(1)]) (rule assms(3))
qed (rule assms(2))

section \<open>Loop invariants\<close>

text \<open>
  The interface of a loop whose rounds keep an invariant about the elements seen and the state: one
  locale for the loop that collects issues, one for the loop that stops at the first error.
\<close>

locale range_inv =
  fixes body :: "nat \<Rightarrow> 'a \<Rightarrow> 's \<Rightarrow> string list \<times> 's"
    and inv :: "'a list \<Rightarrow> 's \<Rightarrow> bool"
  assumes keeps: "inv seen st \<Longrightarrow> fst (body i x st) = [] \<Longrightarrow> inv (seen @ [x]) (snd (body i x st))"
begin

lemma inv_scan: "inv seen st \<Longrightarrow> fst (range_issues body i st xs) = [] \<Longrightarrow> inv (seen @ xs) (snd (range_issues body i st xs))"
proof (induction xs arbitrary: seen st i)
  case (Cons x xs)
  obtain found st' where b: "body i x st = (found, st')" by (cases "body i x st")
  have "found = []" "fst (range_issues body (Suc i) st' xs) = []"
    using Cons.prems(2) b by (auto simp: Let_def split: prod.splits)
  then show ?case using Cons.IH [of "seen @ [x]" st' "Suc i"] keeps [OF Cons.prems(1), of i x] b
    by (auto simp: Let_def split: prod.splits)
qed simp

end

locale check_inv =
  fixes body :: "nat \<Rightarrow> 'a \<Rightarrow> 's \<Rightarrow> 'e + 's"
    and inv :: "'a list \<Rightarrow> 's \<Rightarrow> bool"
  assumes keeps: "inv seen st \<Longrightarrow> body i x st = Inr st' \<Longrightarrow> inv (seen @ [x]) st'"
begin

lemma inv_check: "inv seen st \<Longrightarrow> range_check body i st xs = Inr st' \<Longrightarrow> inv (seen @ xs) st'"
proof (induction xs arbitrary: seen st i)
  case (Cons x xs)
  then obtain st1 where "body i x st = Inr st1" "range_check body (Suc i) st1 xs = Inr st'" by (auto split: sum.splits)
  then show ?case using Cons.IH [of "seen @ [x]" st1 "Suc i"] keeps [OF Cons.prems(1)] by simp
qed simp

end

text \<open>Comparing by a key first and by another order second is again an order of slices.\<close>

lemma slice_order_lex:
  assumes "slice_order lt"
  shows "slice_order (\<lambda>a b. (f a :: 'k :: linorder) < f b \<or> f a = f b \<and> lt a b)"
proof -
  have laws: "\<not> lt x x" "lt x y \<Longrightarrow> lt y z \<Longrightarrow> lt x z" "\<not> lt x y \<Longrightarrow> \<not> lt y z \<Longrightarrow> \<not> lt x z" for x y z
    using assms unfolding slice_order_def by blast+
  show ?thesis
  proof
    fix a b c
    show "\<not> (f a < f a \<or> f a = f a \<and> lt a a)" using laws(1) by simp
    show "f a < f b \<or> f a = f b \<and> lt a b \<Longrightarrow> f b < f c \<or> f b = f c \<and> lt b c \<Longrightarrow> f a < f c \<or> f a = f c \<and> lt a c"
      using laws(2) [of a b c] by (elim disjE conjE) (simp_all add: order.strict_trans)
    show "\<not> (f a < f c \<or> f a = f c \<and> lt a c)"
      if ab: "\<not> (f a < f b \<or> f a = f b \<and> lt a b)" and bc: "\<not> (f b < f c \<or> f b = f c \<and> lt b c)"
    proof
      have le: "f b \<le> f a" "f c \<le> f b" using ab bc by (simp_all add: not_less)
      assume "f a < f c \<or> f a = f c \<and> lt a c"
      then have eq: "f a = f c" "lt a c" using order.trans [OF le(2,1)] by (simp_all add: not_less [symmetric])
      then have "f a = f b" "f b = f c" using le by (simp_all add: order.antisym)
      then show False using laws(3) [of a b c] ab bc eq(2) by simp
    qed
  qed
qed

lemma insert_less_cong:
  "(\<And>b. b \<in> set ys \<Longrightarrow> lt b x = lt' b x) \<Longrightarrow> insert_less lt x ys = insert_less lt' x ys"
  by (induction ys) auto

lemma sort_less_cong:
  "(\<And>a b. a \<in> set xs \<Longrightarrow> b \<in> set xs \<Longrightarrow> lt a b = lt' a b) \<Longrightarrow> sort_less lt xs = sort_less lt' xs"
proof (induction xs)
  case (Cons x xs)
  then have "sort_less lt xs = sort_less lt' xs" by simp
  then show ?case using Cons.prems by (auto intro: insert_less_cong)
qed simp

text \<open>A loop that cannot fail on the elements it is given: every round succeeds and keeps the
  invariant.\<close>

locale check_total =
  fixes body :: "nat \<Rightarrow> 'a \<Rightarrow> 's \<Rightarrow> 'e + 's"
    and ok :: "'a \<Rightarrow> bool"
    and inv :: "'a list \<Rightarrow> 's \<Rightarrow> bool"
  assumes succeeds: "inv seen st \<Longrightarrow> ok x \<Longrightarrow> \<exists>st'. body i x st = Inr st' \<and> inv (seen @ [x]) st'"
begin

lemma total_check:
  "inv seen st \<Longrightarrow> \<forall>x\<in>set xs. ok x \<Longrightarrow> \<exists>st'. range_check body i st xs = Inr st' \<and> inv (seen @ xs) st'"
proof (induction xs arbitrary: seen st i)
  case (Cons x xs)
  then obtain st1 where "body i x st = Inr st1" "inv (seen @ [x]) st1" using succeeds [of seen st x i] by auto
  then show ?case using Cons.IH [of "seen @ [x]" st1 "Suc i"] Cons.prems(2) by simp
qed simp

end

text \<open>A Go map that collects records under a key of theirs, as an association list: storing a record
  again under the key it already has changes nothing.\<close>

lemma set_update_same:
  "(\<And>w. (k, w) \<in> set al \<Longrightarrow> w = v) \<Longrightarrow> set (AList.update k v al) = insert (k, v) (set al)"
  by (induction al) auto

end
