(* ===== verification/Go_Netip.thy ===== *)
theory Go_Netip
  imports Flux_Prelude
begin

unbundle bit_operations_syntax

text \<open>
  The part of Go's \<open>net/netip\<close> that the program uses: addresses (invalid, IPv4, IPv6 with a
  zone), prefixes (whose length is \<open>-1\<close> when invalid), their predicates, masking, containment
  and textual form.
\<close>

section \<open>Addresses\<close>

datatype Addr = NoAddr | Addr4 u32 | Addr6 "128 word" string

definition IsValid :: "Addr \<Rightarrow> bool" where
  "IsValid a \<longleftrightarrow> a \<noteq> NoAddr"

fun Is4 :: "Addr \<Rightarrow> bool" where
  "Is4 (Addr4 w) = True"
| "Is4 a = False"

fun Is4In6 :: "Addr \<Rightarrow> bool" where
  "Is4In6 (Addr6 w z) = (drop_bit 32 w = 65535)"
| "Is4In6 a = False"

fun Unmap :: "Addr \<Rightarrow> Addr" where
  "Unmap (Addr6 w z) = (if drop_bit 32 w = 65535 then Addr4 (ucast w) else Addr6 w z)"
| "Unmap a = a"

fun BitLen :: "Addr \<Rightarrow> int" where
  "BitLen NoAddr = 0"
| "BitLen (Addr4 w) = 32"
| "BitLen (Addr6 w z) = 128"

definition IsUnspecified :: "Addr \<Rightarrow> bool" where
  "IsUnspecified a \<longleftrightarrow> a = Addr4 0 \<or> a = Addr6 0 []"

text \<open>Since Go 1.22.4 \<open>IsMulticast\<close> looks through an IPv4-mapped IPv6 address.\<close>

definition IsMulticast :: "Addr \<Rightarrow> bool" where
  "IsMulticast a = (case Unmap a of
      NoAddr \<Rightarrow> False
    | Addr4 w \<Rightarrow> drop_bit 28 w = 14
    | Addr6 w z \<Rightarrow> drop_bit 120 w = 255)"

fun withoutZone :: "Addr \<Rightarrow> Addr" where
  "withoutZone (Addr6 w z) = Addr6 w []"
| "withoutZone a = a"

fun hasZone :: "Addr \<Rightarrow> bool" where
  "hasZone (Addr6 w z) = (z \<noteq> [])"
| "hasZone a = False"

definition octet4 :: "u32 \<Rightarrow> nat \<Rightarrow> string" where
  "octet4 w i = show_nat (unat (drop_bit (8 * i) w AND 255))"

definition string4 :: "u32 \<Rightarrow> string" where
  "string4 w = join ''.'' [octet4 w 3, octet4 w 2, octet4 w 1, octet4 w 0]"

definition fields6 :: "128 word \<Rightarrow> nat list" where
  "fields6 w = map (\<lambda>i. unat (drop_bit (16 * (7 - i)) w AND 65535)) [0..<8]"

text \<open>The leftmost longest run of at least two zero fields, as its bounds.\<close>

definition zero_run :: "nat list \<Rightarrow> (nat \<times> nat) option" where
  "zero_run fs = fold (\<lambda>i best.
      let j = i + length (takeWhile (\<lambda>f. f = 0) (drop i fs)) in
      if j - i \<ge> 2 \<and> (case best of None \<Rightarrow> True | Some (s, e) \<Rightarrow> e - s < j - i)
      then Some (i, j) else best) [0..<8] None"

definition string6 :: "128 word \<Rightarrow> string" where
  "string6 w = (let fs = fields6 w in case zero_run fs of
      None \<Rightarrow> join '':'' (map show_hex fs)
    | Some (s, e) \<Rightarrow> join '':'' (map show_hex (take s fs)) @ ''::'' @ join '':'' (map show_hex (drop e fs)))"

definition zone_suffix :: "string \<Rightarrow> string" where
  "zone_suffix z = (if z = [] then [] else ''%'' @ z)"

fun Addr_String :: "Addr \<Rightarrow> string" where
  "Addr_String NoAddr = ''invalid IP''"
| "Addr_String (Addr4 w) = string4 w"
| "Addr_String (Addr6 w z) =
     (if drop_bit 32 w = 65535 then ''::ffff:'' @ string4 (ucast w) @ zone_suffix z
      else string6 w @ zone_suffix z)"

text \<open>\<open>Addr.Less\<close>: by bit length, then numerically, then by zone.\<close>

fun Addr_Less :: "Addr \<Rightarrow> Addr \<Rightarrow> bool" where
  "Addr_Less (Addr4 v) (Addr4 w) = (v < w)"
| "Addr_Less (Addr6 v y) (Addr6 w z) = (v < w \<or> v = w \<and> y < z)"
| "Addr_Less a b = (BitLen a < BitLen b)"

section \<open>Prefixes\<close>

datatype Prefix = Prefix (pfx_Addr: Addr) (pfx_Bits: int)

definition NoPrefix :: Prefix where
  "NoPrefix = Prefix NoAddr (-1)"

definition Prefix_IsValid :: "Prefix \<Rightarrow> bool" where
  "Prefix_IsValid p \<longleftrightarrow> 0 \<le> pfx_Bits p"

definition PrefixFrom :: "Addr \<Rightarrow> int \<Rightarrow> Prefix" where
  "PrefixFrom a b = Prefix (withoutZone a)
     (if a \<noteq> NoAddr \<and> 0 \<le> b \<and> b \<le> BitLen a then b else -1)"

fun mask_addr :: "Addr \<Rightarrow> int \<Rightarrow> Addr" where
  "mask_addr NoAddr b = NoAddr"
| "mask_addr (Addr4 w) b = Addr4 (w AND NOT (mask (nat (32 - b))))"
| "mask_addr (Addr6 w z) b = Addr6 (w AND NOT (mask (nat (128 - b)))) z"

definition Masked :: "Prefix \<Rightarrow> Prefix" where
  "Masked p = (let a = pfx_Addr p; b = pfx_Bits p in
     if b < 0 \<or> a = NoAddr \<or> BitLen a < b then NoPrefix
     else PrefixFrom (mask_addr a b) b)"

fun same_bits :: "int \<Rightarrow> Addr \<Rightarrow> Addr \<Rightarrow> bool" where
  "same_bits b (Addr4 v) (Addr4 w) = (drop_bit (nat (32 - b)) (v XOR w) = 0)"
| "same_bits b (Addr6 v y) (Addr6 w z) = ((v XOR w) AND NOT (mask (nat (128 - b))) = 0)"
| "same_bits b v w = False"

definition Contains :: "Prefix \<Rightarrow> Addr \<Rightarrow> bool" where
  "Contains p a \<longleftrightarrow> Prefix_IsValid p \<and> \<not> hasZone a \<and> same_bits (pfx_Bits p) a (pfx_Addr p)"

definition show_int :: "int \<Rightarrow> string" where
  "show_int i = (if i < 0 then ''-'' @ show_nat (nat (- i)) else show_nat (nat i))"

definition Prefix_String :: "Prefix \<Rightarrow> string" where
  "Prefix_String p = (if Prefix_IsValid p then Addr_String (pfx_Addr p) @ ''/'' @ show_int (pfx_Bits p)
     else ''invalid Prefix'')"

section \<open>Address facts\<close>

lemma Unmap_idem [simp]: "Unmap (Unmap a) = Unmap a"
  by (cases a) auto

lemma Is4_iff: "Is4 a \<longleftrightarrow> (\<exists>w. a = Addr4 w)"
  by (cases a) auto

lemma Unmap_Is4 [simp]: "Is4 a \<Longrightarrow> Unmap a = a"
  by (cases a) auto

lemma Unmap_NoAddr [simp]: "Unmap a = NoAddr \<longleftrightarrow> a = NoAddr"
  by (cases a) auto

lemma IsValid_Unmap [simp]: "IsValid (Unmap a) = IsValid a"
  by (simp add: IsValid_def)

lemma hasZone_Is4 [simp]: "Is4 a \<Longrightarrow> \<not> hasZone a"
  by (cases a) auto

lemma drop_bit_xor_eq_0_iff:
  "drop_bit n (v XOR w) = 0 \<longleftrightarrow> drop_bit n v = drop_bit n (w :: 'a :: len word)"
proof -
  have "v = w" if "v XOR w = 0" for v w :: "'a word"
    by (metis that xor.assoc xor.right_neutral xor_self_eq)
  then show ?thesis by (auto simp: drop_bit_xor)
qed

lemma drop_bit_and_not_mask [simp]: "drop_bit n (w AND NOT (mask n)) = drop_bit n (w :: 'a :: len word)"
  by (rule bit_eqI) (auto simp: bit_simps dest: bit_imp_le_length)

lemma drop_bit_mono_eq:
  "m \<le> n \<Longrightarrow> drop_bit m v = drop_bit m w \<Longrightarrow> drop_bit n v = drop_bit n (w :: 'a :: len word)"
  by (metis drop_bit_drop_bit le_add_diff_inverse2)

text \<open>An IPv4 prefix stands for the addresses that agree with it on its leading bits.\<close>

definition prefix4 :: "u32 \<Rightarrow> nat \<Rightarrow> u32 set" where
  "prefix4 p b = {a. drop_bit (32 - b) a = drop_bit (32 - b) p}"

lemma Contains_prefix4:
  "0 \<le> b \<Longrightarrow> Contains (Prefix (Addr4 p) b) (Addr4 a) \<longleftrightarrow> a \<in> prefix4 p (nat b)"
proof -
  assume b: "0 \<le> b"
  then have "nat (32 - b) = 32 - nat b" by simp
  then show ?thesis
    using b by (simp add: Contains_def Prefix_IsValid_def drop_bit_xor_eq_0_iff prefix4_def del: drop_bit_xor)
qed

lemma Contains_Addr4: "Contains (Prefix (Addr4 p) b) a \<Longrightarrow> Is4 a"
  by (cases a) (auto simp: Contains_def)

lemma Masked_4:
  "0 \<le> b \<Longrightarrow> b \<le> 32 \<Longrightarrow> Masked (Prefix (Addr4 p) b) = Prefix (Addr4 (p AND NOT (mask (nat (32 - b))))) b"
  by (simp add: Masked_def PrefixFrom_def)

lemma prefix4_masked [simp]: "prefix4 (p AND NOT (mask (32 - b))) b = prefix4 p b"
  by (simp only: prefix4_def drop_bit_and_not_mask)

lemma prefix4_self [simp]: "p \<in> prefix4 p b"
  by (simp add: prefix4_def)

text \<open>Two prefixes are nested or disjoint, and testing the two base addresses decides which.\<close>

lemma prefix4_meet_iff:
  "prefix4 p b \<inter> prefix4 q c \<noteq> {} \<longleftrightarrow> q \<in> prefix4 p b \<or> p \<in> prefix4 q c"
proof
  assume "prefix4 p b \<inter> prefix4 q c \<noteq> {}"
  then obtain a where a: "drop_bit (32 - b) a = drop_bit (32 - b) p" "drop_bit (32 - c) a = drop_bit (32 - c) q"
    by (auto simp: prefix4_def)
  show "q \<in> prefix4 p b \<or> p \<in> prefix4 q c"
  proof (cases "b \<le> c")
    case True
    then have "drop_bit (32 - b) a = drop_bit (32 - b) q" using a(2) by (intro drop_bit_mono_eq [OF _ a(2)]) simp
    with a show ?thesis by (simp add: prefix4_def)
  next
    case False
    then have "drop_bit (32 - c) a = drop_bit (32 - c) p" using a(1) by (intro drop_bit_mono_eq [OF _ a(1)]) simp
    with a show ?thesis by (simp add: prefix4_def)
  qed
next
  assume "q \<in> prefix4 p b \<or> p \<in> prefix4 q c"
  then show "prefix4 p b \<inter> prefix4 q c \<noteq> {}" using prefix4_self by blast
qed

end
