(* ===== verification/Spec_Types.thy ===== *)
theory Spec_Types
  imports Go_Netip
begin

text \<open>
  The desired-state data model (\<open>internal/spec/types.go\<close>). Every struct is a record with the
  source's fields; Go's string-typed enumerations stay strings, because the code compares them
  with constants and treats any other value in its own branch; a pointer is an option.
\<close>

section \<open>Schema versions\<close>

abbreviation SchemaVersionV1 :: u32 where "SchemaVersionV1 \<equiv> 1"
abbreviation SchemaVersionV2 :: u32 where "SchemaVersionV2 \<equiv> 2"
abbreviation SchemaVersionV3 :: u32 where "SchemaVersionV3 \<equiv> 3"
abbreviation SchemaVersionV4 :: u32 where "SchemaVersionV4 \<equiv> 4"
abbreviation SchemaVersionV5 :: u32 where "SchemaVersionV5 \<equiv> 5"
abbreviation CurrentSchemaVersion :: u32 where "CurrentSchemaVersion \<equiv> SchemaVersionV5"

definition SupportedSchemaVersion :: "u32 \<Rightarrow> bool" where
  "SupportedSchemaVersion version \<longleftrightarrow>
     version = SchemaVersionV1 \<or> version = SchemaVersionV2 \<or> version = SchemaVersionV3 \<or>
     version = SchemaVersionV4 \<or> version = SchemaVersionV5"

definition SupportedSchemaVersions :: "u32 list" where
  "SupportedSchemaVersions =
     [SchemaVersionV1, SchemaVersionV2, SchemaVersionV3, SchemaVersionV4, SchemaVersionV5]"

section \<open>Enumerations\<close>

type_synonym Protocol = string
type_synonym PathMode = string
type_synonym Lifecycle = string
type_synonym TrafficDirection = string
type_synonym SNATMode = string
type_synonym QuotaPolicy = string
type_synonym FabricTransport = string

abbreviation ProtocolTCP :: Protocol where "ProtocolTCP \<equiv> ''tcp''"
abbreviation ProtocolUDP :: Protocol where "ProtocolUDP \<equiv> ''udp''"
abbreviation PathDirect :: PathMode where "PathDirect \<equiv> ''direct''"
abbreviation PathViaExit :: PathMode where "PathViaExit \<equiv> ''via_exit''"
abbreviation LifecycleActive :: Lifecycle where "LifecycleActive \<equiv> ''active''"
abbreviation LifecyclePaused :: Lifecycle where "LifecyclePaused \<equiv> ''paused''"
abbreviation LifecycleDraining :: Lifecycle where "LifecycleDraining \<equiv> ''draining''"
abbreviation LifecycleForceDeleting :: Lifecycle where "LifecycleForceDeleting \<equiv> ''force_deleting''"
abbreviation DirectionUpload :: TrafficDirection where "DirectionUpload \<equiv> ''upload''"
abbreviation DirectionDownload :: TrafficDirection where "DirectionDownload \<equiv> ''download''"
abbreviation SNATMasquerade :: SNATMode where "SNATMasquerade \<equiv> ''masquerade''"
abbreviation SNATStatic :: SNATMode where "SNATStatic \<equiv> ''static''"
abbreviation QuotaPolicyPause :: QuotaPolicy where "QuotaPolicyPause \<equiv> ''pause''"
abbreviation FabricWireGuard :: FabricTransport where "FabricWireGuard \<equiv> ''wireguard''"
abbreviation FabricDirectL3 :: FabricTransport where "FabricDirectL3 \<equiv> ''direct_l3''"
abbreviation FabricGRE :: FabricTransport where "FabricGRE \<equiv> ''gre''"

section \<open>Structs\<close>

record Endpoint =
  ep_Address :: Addr
  ep_Hostname :: string
  ep_Port :: u16

record SNATSpec =
  snat_Mode :: SNATMode
  snat_Address :: "Addr option"

record RateLimitSpec =
  rl_IngressBitsPerSecond :: u64
  rl_EgressBitsPerSecond :: u64
  rl_BurstBytes :: u64

record TrafficQuotaSpec =
  tq_Bytes :: u64
  tq_Policy :: QuotaPolicy

record WireGuardPeerSpec =
  wg_PeerPublicKey :: string
  wg_Endpoint :: string
  wg_ListenPort :: u16
  wg_PersistentKeepaliveSeconds :: u16

record GRESpec =
  gre_UnderlayLocal :: Addr
  gre_UnderlayRemote :: Addr
  gre_Key :: u32

record FabricLinkSpec =
  fl_ID :: string
  fl_PeerNodeID :: string
  fl_Transport :: FabricTransport
  fl_Interface :: string
  fl_LocalAddress :: Prefix
  fl_PeerAddress :: Addr
  fl_MTU :: u16
  fl_RoutingID :: u16
  fl_Trusted :: bool
  fl_WireGuard :: "WireGuardPeerSpec option"
  fl_GRE :: "GRESpec option"
  fl_ResourceVersion :: u64

record UserPolicySpec =
  up_UserID :: string
  up_TrafficClassID :: u16
  up_RateLimit :: "RateLimitSpec option"
  up_TrafficQuota :: "TrafficQuotaSpec option"
  up_ResourceVersion :: u64

record ProtocolBlockPolicy =
  pb_HTTP :: bool
  pb_HTTPS :: bool
  pb_SOCKS :: bool
  pb_TLS :: bool

definition ProtocolBlockPolicy_Any :: "ProtocolBlockPolicy \<Rightarrow> bool" where
  "ProtocolBlockPolicy_Any p \<longleftrightarrow> pb_HTTP p \<or> pb_HTTPS p \<or> pb_SOCKS p \<or> pb_TLS p"

record HealthCheckSpec =
  hc_PoolID :: string
  hc_BackendID :: string
  hc_Endpoint :: Endpoint
  hc_Protocol :: Protocol
  hc_IntervalSeconds :: u16
  hc_TimeoutMilliseconds :: u16
  hc_FailureThreshold :: u8
  hc_SuccessThreshold :: u8
  hc_ResourceVersion :: u64

record ForwardSpec =
  fw_ID :: string
  fw_UserID :: string
  fw_Protocols :: "Protocol list"
  fw_IngressNodeID :: string
  fw_ExitNodeID :: string
  fw_Listen :: Endpoint
  fw_Target :: Endpoint
  fw_ServiceVIP :: "Addr option"
  fw_FabricLinkID :: string
  fw_PathMode :: PathMode
  fw_SNAT :: SNATSpec
  fw_TrafficClassID :: u16
  fw_RateLimit :: "RateLimitSpec option"
  fw_TrafficQuota :: "TrafficQuotaSpec option"
  fw_ExpiresAt :: "time option"
  fw_DrainDeadline :: "time option"
  fw_Lifecycle :: Lifecycle
  fw_ResourceVersion :: u64

definition EffectiveLifecycle :: "ForwardSpec \<Rightarrow> time \<Rightarrow> Lifecycle" where
  "EffectiveLifecycle f now =
     (if (case fw_ExpiresAt f of Some e \<Rightarrow> \<not> Before now e | None \<Rightarrow> False) then LifecyclePaused
      else if fw_Lifecycle f = LifecycleDraining \<and>
              (case fw_DrainDeadline f of Some d \<Rightarrow> \<not> Before now d | None \<Rightarrow> False) then LifecyclePaused
      else fw_Lifecycle f)"

record DesiredState =
  ds_SchemaVersion :: u32
  ds_NodeID :: string
  ds_Generation :: u64
  ds_ManagementDomain :: string
  ds_ServiceCIDRs :: "Prefix list"
  ds_FabricLinks :: "FabricLinkSpec list"
  ds_HealthChecks :: "HealthCheckSpec list"
  ds_UserPolicies :: "UserPolicySpec list"
  ds_ProtocolBlocks :: "ProtocolBlockPolicy option"
  ds_Forwards :: "ForwardSpec list"

section \<open>Lifecycle over time\<close>

lemma EffectiveLifecycle_values:
  "EffectiveLifecycle f now \<in> {fw_Lifecycle f, LifecyclePaused}"
  by (simp add: EffectiveLifecycle_def)

end
