(* ===== verification/Go_Std.thy ===== *)
theory Go_Std
  imports Go_Netip
begin

unbundle bit_operations_syntax

text \<open>
  Functions of Go's standard library that decide what the program accepts or names: parsing of
  addresses, prefixes, ports and \<open>host:port\<close> pairs, standard base64, SHA-256 with its hexadecimal
  form, and the X25519 function of \<open>crypto/ecdh\<close> (RFC 7748) as far as the low-order check of
  WireGuard keys needs it. A parse error is \<open>None\<close>.
\<close>

section \<open>Characters and numbers\<close>

definition code :: "char \<Rightarrow> nat" where
  "code c = of_char c"

definition is_digit :: "char \<Rightarrow> bool" where
  "is_digit c \<longleftrightarrow> 48 \<le> code c \<and> code c \<le> 57"

definition is_lower :: "char \<Rightarrow> bool" where
  "is_lower c \<longleftrightarrow> 97 \<le> code c \<and> code c \<le> 122"

definition is_upper :: "char \<Rightarrow> bool" where
  "is_upper c \<longleftrightarrow> 65 \<le> code c \<and> code c \<le> 90"

definition is_alnum :: "char \<Rightarrow> bool" where
  "is_alnum c \<longleftrightarrow> is_digit c \<or> is_lower c \<or> is_upper c"

definition hex_value :: "char \<Rightarrow> nat option" where
  "hex_value c = (if is_digit c then Some (code c - 48)
     else if 97 \<le> code c \<and> code c \<le> 102 then Some (code c - 87)
     else if 65 \<le> code c \<and> code c \<le> 70 then Some (code c - 55) else None)"

text \<open>\<open>strconv.ParseUint(s, 10, bits)\<close>: decimal digits only, within the range of the width.\<close>

definition ParseUint :: "nat \<Rightarrow> string \<Rightarrow> nat option" where
  "ParseUint bits s =
     (if s \<noteq> [] \<and> list_all is_digit s \<and> read_nat s < 2 ^ bits then Some (read_nat s) else None)"

fun split_on :: "char \<Rightarrow> string \<Rightarrow> string list" where
  "split_on c [] = [[]]"
| "split_on c (x # xs) = (if x = c then [] # split_on c xs
     else (case split_on c xs of [] \<Rightarrow> [[x]] | y # ys \<Rightarrow> (x # y) # ys))"

section \<open>Addresses\<close>

definition parse_octet :: "string \<Rightarrow> nat option" where
  "parse_octet s = (if s \<noteq> [] \<and> list_all is_digit s \<and> (hd s = CHR ''0'' \<longrightarrow> length s = 1) \<and> read_nat s \<le> 255
     then Some (read_nat s) else None)"

definition word_of_octets :: "nat \<Rightarrow> nat \<Rightarrow> nat \<Rightarrow> nat \<Rightarrow> u32" where
  "word_of_octets a b c d = ((of_nat a * 256 + of_nat b) * 256 + of_nat c) * 256 + of_nat d"

definition parseIPv4 :: "string \<Rightarrow> u32 option" where
  "parseIPv4 s = (case map parse_octet (split_on CHR ''.'' s) of
      [Some a, Some b, Some c, Some d] \<Rightarrow> Some (word_of_octets a b c d)
    | _ \<Rightarrow> None)"

text \<open>
  The group loop of \<open>parseIPv6\<close>: the groups read so far, the position of the ellipsis, and what
  is left. Every round consumes a character, so the length of the text bounds the recursion.
\<close>

fun parse_groups :: "nat \<Rightarrow> nat list \<Rightarrow> nat option \<Rightarrow> string \<Rightarrow> (nat list \<times> nat option) option" where
  "parse_groups 0 gs e s = None"
| "parse_groups (Suc n) gs e s = (if length gs \<ge> 8 then (if s = [] then Some (gs, e) else None) else
     let h = takeWhile (\<lambda>c. hex_value c \<noteq> None) s; r = drop (length h) s;
         g = foldl (\<lambda>a c. 16 * a + the (hex_value c)) 0 h in
     if h = [] \<or> length h > 4 then None
     else case r of
       [] \<Rightarrow> Some (gs @ [g], e)
     | c # r' \<Rightarrow>
         if c = CHR ''.'' then
           (if (e = None \<and> length gs \<noteq> 6) \<or> length gs > 6 then None
            else case parseIPv4 s of None \<Rightarrow> None
              | Some w \<Rightarrow> Some (gs @ [unat (drop_bit 16 w), unat (w AND 65535)], e))
         else if c \<noteq> CHR '':'' \<or> r' = [] then None
         else if hd r' = CHR '':'' then
           (if e \<noteq> None then None
            else if tl r' = [] then Some (gs @ [g], Some (Suc (length gs)))
            else parse_groups n (gs @ [g]) (Some (Suc (length gs))) (tl r'))
         else parse_groups n (gs @ [g]) e r')"

definition fill_groups :: "nat list \<times> nat option \<Rightarrow> nat list option" where
  "fill_groups p = (case p of (gs, e) \<Rightarrow>
     if length gs < 8 then
       (case e of None \<Rightarrow> None
        | Some k \<Rightarrow> Some (take k gs @ replicate (8 - length gs) 0 @ drop k gs))
     else if e \<noteq> None then None else Some gs)"

definition word_of_groups :: "nat list \<Rightarrow> 128 word" where
  "word_of_groups gs = foldl (\<lambda>a g. 65536 * a + of_nat g) 0 gs"

definition parseIPv6 :: "string \<Rightarrow> Addr option" where
  "parseIPv6 addr = (let s = takeWhile (\<lambda>c. c \<noteq> CHR ''%'') addr; z = drop (Suc (length s)) addr in
     if length s < length addr \<and> z = [] then None
     else if s = ''::'' then Some (Addr6 0 z)
     else
       case (if take 2 s = ''::'' then parse_groups (length s) [] (Some 0) (drop 2 s)
             else parse_groups (length s) [] None s) of
         None \<Rightarrow> None
       | Some p \<Rightarrow> map_option (\<lambda>gs. Addr6 (word_of_groups gs) z) (fill_groups p))"

definition ParseAddr :: "string \<Rightarrow> Addr option" where
  "ParseAddr s = (case dropWhile (\<lambda>c. c \<noteq> CHR ''.'' \<and> c \<noteq> CHR '':'' \<and> c \<noteq> CHR ''%'') s of
      [] \<Rightarrow> None
    | c # _ \<Rightarrow> if c = CHR ''.'' then map_option Addr4 (parseIPv4 s)
        else if c = CHR '':'' then parseIPv6 s else None)"

text \<open>\<open>netip.ParsePrefix\<close>: the part after the last slash is a length without sign or leading zero.\<close>

definition ParsePrefix :: "string \<Rightarrow> Prefix option" where
  "ParsePrefix s = (let r = rev s; b = rev (takeWhile (\<lambda>c. c \<noteq> CHR ''/'') r);
       rest = dropWhile (\<lambda>c. c \<noteq> CHR ''/'') r in
     if rest = [] then None
     else case ParseAddr (rev (tl rest)) of None \<Rightarrow> None
       | Some a \<Rightarrow>
           if hasZone a then None
           else if length b > 1 \<and> (hd b = CHR ''0'' \<or> \<not> is_digit (hd b)) then None
           else case ParseUint 16 b of None \<Rightarrow> None
             | Some n \<Rightarrow> if int n > BitLen a then None else Some (PrefixFrom a (int n)))"

definition index_of :: "char \<Rightarrow> string \<Rightarrow> nat option" where
  "index_of c s = (if c \<in> set s then Some (length (takeWhile (\<lambda>d. d \<noteq> c) s)) else None)"

definition last_index_of :: "char \<Rightarrow> string \<Rightarrow> nat option" where
  "last_index_of c s = (case index_of c (rev s) of None \<Rightarrow> None | Some k \<Rightarrow> Some (length s - Suc k))"

definition SplitHostPort :: "string \<Rightarrow> (string \<times> string) option" where
  "SplitHostPort s = (case last_index_of CHR '':'' s of None \<Rightarrow> None
    | Some i \<Rightarrow>
      let hjk = (if hd s = CHR ''['' then
           (case index_of CHR '']'' s of None \<Rightarrow> None
            | Some e \<Rightarrow> if Suc e = i then Some (take (e - 1) (drop 1 s), 1, Suc e) else None)
         else (let h = take i s in if CHR '':'' \<in> set h then None else Some (h, 0, 0))) in
      case hjk of None \<Rightarrow> None
      | Some (h, j, k) \<Rightarrow>
          if CHR ''['' \<in> set (drop j s) \<or> CHR '']'' \<in> set (drop k s) then None
          else Some (h, drop (Suc i) s))"

section \<open>Base64\<close>

definition base64_value :: "char \<Rightarrow> nat option" where
  "base64_value c = (if is_upper c then Some (code c - 65)
     else if is_lower c then Some (code c - 71)
     else if is_digit c then Some (code c + 4)
     else if c = CHR ''+'' then Some 62 else if c = CHR ''/'' then Some 63 else None)"

fun base64_quanta :: "string \<Rightarrow> nat list option" where
  "base64_quanta [] = Some []"
| "base64_quanta (a # b # c # d # r) =
     (case (base64_value a, base64_value b) of
        (Some x, Some y) \<Rightarrow>
          (if c = CHR ''='' \<and> d = CHR ''='' then (if r = [] then Some [4 * x + y div 16] else None)
           else case base64_value c of None \<Rightarrow> None
             | Some z \<Rightarrow>
                 (if d = CHR ''='' then (if r = [] then Some [4 * x + y div 16, 16 * (y mod 16) + z div 4] else None)
                  else case base64_value d of None \<Rightarrow> None
                    | Some w \<Rightarrow> map_option (\<lambda>t. [4 * x + y div 16, 16 * (y mod 16) + z div 4, 64 * (z mod 4) + w] @ t)
                        (base64_quanta r)))
      | _ \<Rightarrow> None)"
| "base64_quanta s = None"

text \<open>\<open>base64.StdEncoding.DecodeString\<close> skips carriage returns and line feeds.\<close>

definition DecodeString :: "string \<Rightarrow> nat list option" where
  "DecodeString s = base64_quanta (filter (\<lambda>c. code c \<noteq> 10 \<and> code c \<noteq> 13) s)"

section \<open>X25519\<close>

definition p25519 :: int where
  "p25519 = 2 ^ 255 - 19"

fun pow_mod :: "int \<Rightarrow> int \<Rightarrow> int \<Rightarrow> int" where
  "pow_mod b e m = (if e \<le> 0 then 1 mod m
     else let h = pow_mod (b * b mod m) (e div 2) m in if odd e then h * b mod m else h)"

declare pow_mod.simps [simp del]

definition ladder_step :: "int \<Rightarrow> bool \<Rightarrow> int \<times> int \<times> int \<times> int \<Rightarrow> int \<times> int \<times> int \<times> int" where
  "ladder_step x1 k st = (let (x2, z2, x3, z3) = (case st of (a, b, c, d) \<Rightarrow> if k then (c, d, a, b) else (a, b, c, d));
       a = (x2 + z2) mod p25519; aa = a * a mod p25519;
       b = (x2 - z2) mod p25519; bb = b * b mod p25519;
       e = (aa - bb) mod p25519;
       da = (x3 - z3) * a mod p25519; cb = (x3 + z3) * b mod p25519;
       nx3 = (da + cb) * (da + cb) mod p25519;
       nz3 = x1 * ((da - cb) * (da - cb)) mod p25519;
       nx2 = aa * bb mod p25519;
       nz2 = e * (aa + 121665 * e) mod p25519
     in if k then (nx3, nz3, nx2, nz2) else (nx2, nz2, nx3, nz3))"

definition X25519 :: "int \<Rightarrow> nat list \<Rightarrow> int" where
  "X25519 k us = (let u = foldr (\<lambda>b n. int b + 256 * n) us 0 mod 2 ^ 255 mod p25519;
       (x, z, _, _) = fold (\<lambda>t. ladder_step u (odd (k div 2 ^ t))) (rev [0..<255]) (1, 0, u, 1)
     in x * pow_mod z (p25519 - 2) p25519 mod p25519)"

text \<open>
  The probe key of \<open>ValidateWireGuardPublicKey\<close> is the scalar with first byte 1, which X25519
  clamps to \<open>2^254\<close>. \<open>ECDH\<close> refuses an all-zero shared secret.
\<close>

definition low_order_point :: "nat list \<Rightarrow> bool" where
  "low_order_point us \<longleftrightarrow> X25519 (2 ^ 254) us = 0"

section \<open>SHA-256\<close>

definition sha_k :: "u32 list" where
  "sha_k = [1116352408, 1899447441, 3049323471, 3921009573, 961987163, 1508970993,
     2453635748, 2870763221, 3624381080, 310598401, 607225278, 1426881987,
     1925078388, 2162078206, 2614888103, 3248222580, 3835390401, 4022224774,
     264347078, 604807628, 770255983, 1249150122, 1555081692, 1996064986,
     2554220882, 2821834349, 2952996808, 3210313671, 3336571891, 3584528711,
     113926993, 338241895, 666307205, 773529912, 1294757372, 1396182291,
     1695183700, 1986661051, 2177026350, 2456956037, 2730485921, 2820302411,
     3259730800, 3345764771, 3516065817, 3600352804, 4094571909, 275423344,
     430227734, 506948616, 659060556, 883997877, 958139571, 1322822218,
     1537002063, 1747873779, 1955562222, 2024104815, 2227730452, 2361852424,
     2428436474, 2756734187, 3204031479, 3329325298]"

definition sha_init :: "u32 list" where
  "sha_init = [1779033703, 3144134277, 1013904242, 2773480762, 1359893119, 2600822924,
     528734635, 1541459225]"

definition rotr :: "nat \<Rightarrow> u32 \<Rightarrow> u32" where
  "rotr n x = drop_bit n x OR push_bit (32 - n) x"

fun sha_schedule :: "nat \<Rightarrow> u32 list \<Rightarrow> u32 list" where
  "sha_schedule 0 w = w"
| "sha_schedule (Suc n) w = (let t = length w; a = w ! (t - 15); b = w ! (t - 2);
       s0 = rotr 7 a XOR rotr 18 a XOR drop_bit 3 a;
       s1 = rotr 17 b XOR rotr 19 b XOR drop_bit 10 b
     in sha_schedule n (w @ [w ! (t - 16) + s0 + w ! (t - 7) + s1]))"

definition sha_round :: "u32 \<times> u32 \<Rightarrow> u32 list \<Rightarrow> u32 list" where
  "sha_round kw st = (case st of [a, b, c, d, e, f, g, h] \<Rightarrow>
      (let t1 = h + (rotr 6 e XOR rotr 11 e XOR rotr 25 e) + ((e AND f) XOR (NOT e AND g)) + fst kw + snd kw;
           t2 = (rotr 2 a XOR rotr 13 a XOR rotr 22 a) + ((a AND b) XOR (a AND c) XOR (b AND c))
       in [t1 + t2, a, b, c, d + t1, e, f, g])
    | _ \<Rightarrow> st)"

definition sha_block :: "u32 list \<Rightarrow> u32 list \<Rightarrow> u32 list" where
  "sha_block h m = map2 (+) h (fold sha_round (zip sha_k (sha_schedule 48 m)) h)"

definition be_bytes :: "nat \<Rightarrow> nat \<Rightarrow> nat list" where
  "be_bytes n v = map (\<lambda>i. v div 256 ^ (n - Suc i) mod 256) [0..<n]"

fun be_words :: "nat list \<Rightarrow> u32 list" where
  "be_words (a # b # c # d # r) = word_of_octets a b c d # be_words r"
| "be_words _ = []"

fun chunks :: "nat \<Rightarrow> 'a list \<Rightarrow> 'a list list" where
  "chunks n xs = (if n = 0 \<or> xs = [] then [] else take n xs # chunks n (drop n xs))"

declare chunks.simps [simp del]

definition sha_pad :: "nat list \<Rightarrow> nat list" where
  "sha_pad m = m @ 128 # replicate ((119 - length m mod 64) mod 64) 0 @ be_bytes 8 (8 * length m)"

definition word_bytes :: "u32 \<Rightarrow> nat list" where
  "word_bytes w = map (\<lambda>i. unat (drop_bit (8 * i) w AND 255)) [3, 2, 1, 0]"

definition Sum256 :: "string \<Rightarrow> nat list" where
  "Sum256 s = concat (map word_bytes
     (fold (\<lambda>m h. sha_block h m) (chunks 16 (be_words (sha_pad (map code s)))) sha_init))"

definition hex_EncodeToString :: "nat list \<Rightarrow> string" where
  "hex_EncodeToString bs = concat (map (\<lambda>b. [hex_digit (b div 16), hex_digit (b mod 16)]) bs)"

end
