(* ===== verification/Spec_Validate.thy ===== *)
theory Spec_Validate
  imports Spec_Types Go_Std
begin

text \<open>
  \<open>internal/spec/validate.go\<close>: the checks that decide whether a desired state may be published
  to a node or applied by it. \<open>Validate\<close> returns the list of issues in the order the code
  reports them; the empty list is the nil error. The loops are \<open>range_issues\<close> over a body that
  is translated statement by statement, with the maps the code fills as the loop's bookkeeping.
\<close>

section \<open>Identifiers and scalar checks\<close>

definition MaxForwardsPerSnapshot :: nat where "MaxForwardsPerSnapshot = 100000"
definition MaxFabricLinksPerSnapshot :: nat where "MaxFabricLinksPerSnapshot = 1024"
definition MaxServiceCIDRsPerSnapshot :: nat where "MaxServiceCIDRsPerSnapshot = 256"
definition MaxHealthChecksPerSnapshot :: nat where "MaxHealthChecksPerSnapshot = 4096"

definition identifier_char :: "char \<Rightarrow> bool" where
  "identifier_char c \<longleftrightarrow> is_alnum c \<or> c = CHR ''_'' \<or> c = CHR ''.'' \<or> c = CHR '':'' \<or> c = CHR ''-''"

text \<open>The pattern \<open>^[A-Za-z0-9][A-Za-z0-9_.:-]{0,127}$\<close>.\<close>

fun validIdentifier :: "string \<Rightarrow> bool" where
  "validIdentifier [] = False"
| "validIdentifier (c # cs) = (is_alnum c \<and> list_all identifier_char cs \<and> length cs \<le> 127)"

text \<open>The pattern \<open>^[A-Za-z0-9_.:-]{1,15}$\<close>.\<close>

definition interfacePattern :: "string \<Rightarrow> bool" where
  "interfacePattern s \<longleftrightarrow> list_all identifier_char s \<and> 1 \<le> length s \<and> length s \<le> 15"

definition ValidateIdentifier :: "string \<Rightarrow> string \<Rightarrow> string option" where
  "ValidateIdentifier name v = (if validIdentifier v then None else Some (name @ '' is invalid''))"

definition validateRateLimit :: "string \<Rightarrow> RateLimitSpec option \<Rightarrow> string list" where
  "validateRateLimit name limit = (case limit of None \<Rightarrow> []
    | Some l \<Rightarrow>
        issue_if (rl_IngressBitsPerSecond l = 0 \<and> rl_EgressBitsPerSecond l = 0)
          (name @ '' must set at least one direction'') @
        issue_if (rl_BurstBytes l = 0) (name @ ''.burst_bytes must be greater than zero''))"

definition validateQuota :: "string \<Rightarrow> TrafficQuotaSpec option \<Rightarrow> string list" where
  "validateQuota name quota = (case quota of None \<Rightarrow> []
    | Some q \<Rightarrow>
        issue_if (tq_Bytes q = 0) (name @ ''.bytes must be greater than zero'') @
        issue_if (tq_Policy q \<noteq> QuotaPolicyPause) (name @ ''.policy is unsupported''))"

section \<open>Addresses and prefixes\<close>

definition validateIPv4 :: "string \<Rightarrow> Addr \<Rightarrow> string list" where
  "validateIPv4 name address =
     (if \<not> IsValid address then [name @ '' is invalid'']
      else let a = Unmap address in
        if \<not> Is4 a then [name @ '' must be IPv4'']
        else if IsUnspecified a then [name @ '' must be a concrete address'']
        else if IsMulticast a then [name @ '' must not be multicast'']
        else [])"

definition validateEndpoint :: "string \<Rightarrow> Endpoint \<Rightarrow> string list" where
  "validateEndpoint name e =
     validateIPv4 (name @ ''.address'') (ep_Address e) @
     issue_if (ep_Hostname e \<noteq> []) (name @ ''.hostname must be resolved by Controller before publication'') @
     issue_if (ep_Port e = 0) (name @ ''.port must be greater than zero'')"

definition canonicalPrefix :: "Prefix \<Rightarrow> Prefix" where
  "canonicalPrefix p =
     (if \<not> Prefix_IsValid p then p
      else let address = Unmap (pfx_Addr p);
               bits = (if Is4In6 (pfx_Addr p) then pfx_Bits p - 96 else pfx_Bits p)
           in Masked (PrefixFrom address bits))"

definition canonicalInterfacePrefix :: "Prefix \<Rightarrow> Prefix" where
  "canonicalInterfacePrefix p =
     (if \<not> Prefix_IsValid p then p
      else let address = Unmap (pfx_Addr p);
               bits = (if Is4In6 (pfx_Addr p) then pfx_Bits p - 96 else pfx_Bits p)
           in PrefixFrom address bits)"

text \<open>These two return a message; the empty string means that nothing is wrong.\<close>

definition validateIPv4Prefix :: "string \<Rightarrow> Prefix \<Rightarrow> string" where
  "validateIPv4Prefix name p =
     (if \<not> Prefix_IsValid p then name @ '' is invalid''
      else let address = Unmap (pfx_Addr p) in
        if \<not> Is4 address then name @ '' must be IPv4''
        else if IsUnspecified address \<or> IsMulticast address then name @ '' must be a concrete unicast prefix''
        else if Unmap (pfx_Addr p) \<noteq> pfx_Addr (canonicalPrefix p) then name @ '' must be network-masked''
        else [])"

definition validateIPv4InterfacePrefix :: "string \<Rightarrow> Prefix \<Rightarrow> string" where
  "validateIPv4InterfacePrefix name p =
     (if \<not> Prefix_IsValid p then name @ '' is invalid''
      else let address = Unmap (pfx_Addr p) in
        if \<not> Is4 address then name @ '' must be IPv4''
        else if IsUnspecified address \<or> IsMulticast address then name @ '' must use a concrete unicast address''
        else let bits = (if Is4In6 (pfx_Addr p) then pfx_Bits p - 96 else pfx_Bits p) in
          if bits < 1 \<or> bits > 32 then name @ '' prefix length is invalid'' else [])"

definition prefixesOverlap :: "Prefix \<Rightarrow> Prefix \<Rightarrow> bool" where
  "prefixesOverlap first second =
     (if \<not> Prefix_IsValid first \<or> \<not> Prefix_IsValid second then False
      else let p = canonicalPrefix first; q = canonicalPrefix second
           in Contains p (pfx_Addr q) \<or> Contains q (pfx_Addr p))"

section \<open>Transport settings\<close>

definition ValidateWireGuardPublicKey :: "string \<Rightarrow> string \<Rightarrow> string option" where
  "ValidateWireGuardPublicKey name encoded = (case DecodeString encoded of
      None \<Rightarrow> Some (name @ '' must be a base64-encoded 32-byte key'')
    | Some decoded \<Rightarrow>
        if length decoded \<noteq> 32 then Some (name @ '' must be a base64-encoded 32-byte key'')
        else if list_all (\<lambda>b. b = 0) decoded then Some (name @ '' must not be all zero'')
        else if low_order_point decoded then Some (name @ '' is a low-order X25519 key'')
        else None)"

definition validateWireGuard :: "string \<Rightarrow> WireGuardPeerSpec \<Rightarrow> string list" where
  "validateWireGuard name peer =
     (case ValidateWireGuardPublicKey (name @ ''.peer_public_key'') (wg_PeerPublicKey peer) of
        None \<Rightarrow> [] | Some e \<Rightarrow> [e]) @
     (case SplitHostPort (wg_Endpoint peer) of
        None \<Rightarrow> [name @ ''.endpoint must be host:port'']
      | Some (host, portText) \<Rightarrow>
          if host = [] then [name @ ''.endpoint must be host:port'']
          else
            (case ParseUint 16 portText of
               None \<Rightarrow> [name @ ''.endpoint port is invalid'']
             | Some port \<Rightarrow> issue_if (port = 0) (name @ ''.endpoint port is invalid'')) @
            (case ParseAddr host of
               None \<Rightarrow> [name @ ''.endpoint host must be a concrete IPv4 address'']
             | Some address \<Rightarrow>
                 issue_if (\<not> Is4 (Unmap address) \<or> IsUnspecified address \<or> IsMulticast address)
                   (name @ ''.endpoint host must be a concrete IPv4 address''))) @
     issue_if (wg_ListenPort peer = 0) (name @ ''.listen_port must be greater than zero'') @
     issue_if (wg_PersistentKeepaliveSeconds peer > 3600)
       (name @ ''.persistent_keepalive_seconds must not exceed 3600'')"

definition validateGRE :: "string \<Rightarrow> GRESpec \<Rightarrow> string list" where
  "validateGRE name gre =
     validateIPv4 (name @ ''.underlay_local'') (gre_UnderlayLocal gre) @
     validateIPv4 (name @ ''.underlay_remote'') (gre_UnderlayRemote gre) @
     issue_if (IsValid (gre_UnderlayLocal gre) \<and> IsValid (gre_UnderlayRemote gre) \<and>
         Unmap (gre_UnderlayLocal gre) = Unmap (gre_UnderlayRemote gre))
       (name @ '' underlay endpoints must differ'') @
     issue_if (gre_Key gre = 0) (name @ ''.key must be greater than zero'')"

section \<open>The state's own fields and the service networks\<close>

definition header_issues :: "DesiredState \<Rightarrow> string list" where
  "header_issues s =
     issue_if (\<not> SupportedSchemaVersion (ds_SchemaVersion s)) ''schema_version must be one of 1, 2, 3, 4 or 5'' @
     issue_if (\<not> validIdentifier (ds_NodeID s)) ''node_id is invalid'' @
     issue_if (ds_Generation s = 0) ''generation must be greater than zero'' @
     (if ds_ManagementDomain s \<noteq> [] then
        issue_if (ds_SchemaVersion s < SchemaVersionV4) ''management_domain requires schema_version 4'' @
        issue_if (\<not> validIdentifier (ds_ManagementDomain s)) ''management_domain is invalid''
      else []) @
     issue_if (length (ds_Forwards s) > MaxForwardsPerSnapshot) ''forwards exceeds limit 100000'' @
     issue_if (length (ds_FabricLinks s) > MaxFabricLinksPerSnapshot) ''fabric_links exceeds limit 1024'' @
     issue_if (length (ds_ServiceCIDRs s) > MaxServiceCIDRsPerSnapshot) ''service_cidrs exceeds limit 256'' @
     issue_if (length (ds_HealthChecks s) > MaxHealthChecksPerSnapshot) ''health_checks exceeds limit 4096''"

definition indexed :: "string \<Rightarrow> nat \<Rightarrow> string" where
  "indexed name i = name @ ''['' @ show_nat i @ '']''"

text \<open>\<open>for j, cidr := range serviceCIDRs { if P(cidr) { issues = append(issues, ...) } }\<close>\<close>

definition cidr_issues :: "(Prefix \<Rightarrow> bool) \<Rightarrow> string \<Rightarrow> Prefix list \<Rightarrow> string list" where
  "cidr_issues P message cidrs =
     concat (map (\<lambda>(j, c). issue_if (P c) (message @ indexed ''service_cidrs'' j)) (enumerate 0 cidrs))"

definition service_cidr_step :: "nat \<Rightarrow> Prefix \<Rightarrow> Prefix list \<Rightarrow> string list \<times> Prefix list" where
  "service_cidr_step i p cidrs =
     (let name = indexed ''service_cidrs'' i; issue = validateIPv4Prefix name p in
      if issue \<noteq> [] then ([issue], cidrs)
      else let c = canonicalPrefix p
           in (cidr_issues (prefixesOverlap c) (name @ '' overlaps '') cidrs, cidrs @ [c]))"

definition version_issues :: "DesiredState \<Rightarrow> string list" where
  "version_issues s =
     issue_if (ds_SchemaVersion s < SchemaVersionV3 \<and> (ds_ServiceCIDRs s \<noteq> [] \<or> ds_FabricLinks s \<noteq> []))
       ''service_cidrs and fabric_links require schema_version 3'' @
     issue_if (ds_SchemaVersion s < SchemaVersionV4 \<and> ds_HealthChecks s \<noteq> [])
       ''health_checks requires schema_version 4'' @
     issue_if (ds_SchemaVersion s < SchemaVersionV5 \<and>
         (case ds_ProtocolBlocks s of None \<Rightarrow> False | Some b \<Rightarrow> ProtocolBlockPolicy_Any b))
       ''protocol_blocks requires schema_version 5''"

section \<open>Fabric links\<close>

record link_books =
  lb_links :: "string \<rightharpoonup> FabricLinkSpec"
  lb_routing :: "u16 \<rightharpoonup> string"
  lb_interfaces :: "string \<rightharpoonup> FabricTransport"
  lb_locals :: "Addr \<rightharpoonup> string \<times> FabricTransport \<times> string"

definition no_links :: link_books where
  "no_links = \<lparr>lb_links = Map.empty, lb_routing = Map.empty, lb_interfaces = Map.empty, lb_locals = Map.empty\<rparr>"

definition link_id_step :: "string \<Rightarrow> FabricLinkSpec \<Rightarrow> link_books \<Rightarrow> string list \<times> link_books" where
  "link_id_step name link b =
     (if \<not> validIdentifier (fl_ID link) then ([name @ ''.id is invalid''], b)
      else if lb_links b (fl_ID link) \<noteq> None then ([name @ ''.id is duplicated''], b)
      else ([], b\<lparr>lb_links := (lb_links b)(fl_ID link \<mapsto> link)\<rparr>))"

definition link_interface_step :: "string \<Rightarrow> FabricLinkSpec \<Rightarrow> link_books \<Rightarrow> string list \<times> link_books" where
  "link_interface_step name link b =
     (if \<not> interfacePattern (fl_Interface link) then ([name @ ''.interface is invalid''], b)
      else if (case lb_interfaces b (fl_Interface link) of None \<Rightarrow> False
               | Some owner \<Rightarrow> owner \<noteq> FabricDirectL3 \<or> fl_Transport link \<noteq> FabricDirectL3)
      then ([name @ ''.interface conflicts with another managed fabric''], b)
      else ([], b\<lparr>lb_interfaces := (lb_interfaces b)(fl_Interface link \<mapsto> fl_Transport link)\<rparr>))"

definition link_local_step :: "Prefix list \<Rightarrow> string \<Rightarrow> FabricLinkSpec \<Rightarrow> link_books \<Rightarrow> string list \<times> link_books" where
  "link_local_step cidrs name link b =
     (let issue = validateIPv4InterfacePrefix (name @ ''.local_address'') (fl_LocalAddress link) in
      if issue \<noteq> [] then ([issue], b)
      else
        let local = Unmap (pfx_Addr (fl_LocalAddress link));
            (found, b') =
              (case lb_locals b local of
                 Some (owner, transport, device) \<Rightarrow>
                   if transport \<noteq> FabricDirectL3 \<or> fl_Transport link \<noteq> FabricDirectL3 \<or> device \<noteq> fl_Interface link
                   then ([name @ ''.local_address conflicts with '' @ owner], b)
                   else ([], b\<lparr>lb_locals := (lb_locals b)(local \<mapsto> (name, fl_Transport link, fl_Interface link))\<rparr>)
               | None \<Rightarrow> ([], b\<lparr>lb_locals := (lb_locals b)(local \<mapsto> (name, fl_Transport link, fl_Interface link))\<rparr>))
        in (found @ cidr_issues (prefixesOverlap (Masked (fl_LocalAddress link)))
              (name @ ''.local_address overlaps '') cidrs, b'))"

definition link_peer_issues :: "Prefix list \<Rightarrow> string \<Rightarrow> FabricLinkSpec \<Rightarrow> string list" where
  "link_peer_issues cidrs name link =
     validateIPv4 (name @ ''.peer_address'') (fl_PeerAddress link) @
     (if Prefix_IsValid (fl_LocalAddress link) \<and> IsValid (fl_PeerAddress link) then
        let localPrefix = Masked (fl_LocalAddress link); peer = Unmap (fl_PeerAddress link) in
          issue_if (\<not> Contains localPrefix peer \<or> peer = Unmap (pfx_Addr (fl_LocalAddress link)))
            (name @ ''.peer_address must be a different address inside local_address prefix'') @
          cidr_issues (\<lambda>c. Contains c peer) (name @ ''.peer_address overlaps '') cidrs
      else []) @
     issue_if (fl_MTU link < 1280 \<or> fl_MTU link > 9000) (name @ ''.mtu must be between 1280 and 9000'')"

definition link_routing_step :: "string \<Rightarrow> FabricLinkSpec \<Rightarrow> link_books \<Rightarrow> string list \<times> link_books" where
  "link_routing_step name link b =
     (if fl_RoutingID link = 0 \<or> fl_RoutingID link = 65535 then ([name @ ''.routing_id is reserved''], b)
      else case lb_routing b (fl_RoutingID link) of
        Some owner \<Rightarrow> ([name @ ''.routing_id conflicts with '' @ owner], b)
      | None \<Rightarrow> ([], b\<lparr>lb_routing := (lb_routing b)(fl_RoutingID link \<mapsto> name)\<rparr>))"

definition link_transport_issues :: "string \<Rightarrow> FabricLinkSpec \<Rightarrow> string list" where
  "link_transport_issues name link =
     (if fl_Transport link = FabricWireGuard then
        (case fl_WireGuard link of None \<Rightarrow> [name @ ''.wireguard is required'']
          | Some peer \<Rightarrow> validateWireGuard (name @ ''.wireguard'') peer) @
        issue_if (fl_GRE link \<noteq> None) (name @ ''.gre must be empty for wireguard'')
      else if fl_Transport link = FabricDirectL3 then
        issue_if (\<not> fl_Trusted link) (name @ '' direct_l3 requires trusted=true'') @
        issue_if (fl_WireGuard link \<noteq> None \<or> fl_GRE link \<noteq> None)
          (name @ '' direct_l3 must not contain wireguard or gre settings'')
      else if fl_Transport link = FabricGRE then
        issue_if (\<not> fl_Trusted link) (name @ '' gre requires trusted=true'') @
        (case fl_GRE link of None \<Rightarrow> [name @ ''.gre is required'']
          | Some gre \<Rightarrow> validateGRE (name @ ''.gre'') gre) @
        issue_if (fl_WireGuard link \<noteq> None) (name @ ''.wireguard must be empty for gre'')
      else [name @ ''.transport is unsupported''])"

definition fabric_link_step :: "DesiredState \<Rightarrow> Prefix list \<Rightarrow> nat \<Rightarrow> FabricLinkSpec \<Rightarrow> link_books \<Rightarrow> string list \<times> link_books" where
  "fabric_link_step s cidrs i link b0 =
     (let name = indexed ''fabric_links'' i;
          (i1, b1) = link_id_step name link b0;
          i2 = issue_if (\<not> validIdentifier (fl_PeerNodeID link) \<or> fl_PeerNodeID link = ds_NodeID s)
                 (name @ ''.peer_node_id is invalid or refers to this node'');
          (i3, b3) = link_interface_step name link b1;
          (i4, b4) = link_local_step cidrs name link b3;
          i5 = link_peer_issues cidrs name link;
          (i6, b6) = link_routing_step name link b4;
          i7 = issue_if (fl_ResourceVersion link = 0) (name @ ''.resource_version must be greater than zero'')
      in (i1 @ i2 @ i3 @ i4 @ i5 @ i6 @ i7 @ link_transport_issues name link, b6))"

section \<open>Health checks\<close>

definition health_check_step :: "Prefix list \<Rightarrow> nat \<Rightarrow> HealthCheckSpec \<Rightarrow> (string \<times> string) set \<Rightarrow> string list \<times> (string \<times> string) set" where
  "health_check_step cidrs i check seen =
     (let name = indexed ''health_checks'' i; key = (hc_PoolID check, hc_BackendID check);
          i1 = issue_if (\<not> validIdentifier (hc_PoolID check)) (name @ ''.pool_id is invalid'');
          i2 = issue_if (\<not> validIdentifier (hc_BackendID check)) (name @ ''.backend_id is invalid'');
          (i3, seen') = (if key \<in> seen then ([name @ '' duplicates a pool/backend probe''], seen)
                         else ([], insert key seen));
          i4 = validateEndpoint (name @ ''.endpoint'') (hc_Endpoint check);
          i5 = issue_if (hc_Protocol check \<noteq> ProtocolTCP) (name @ ''.protocol must be tcp'');
          i6 = issue_if (hc_IntervalSeconds check < 1 \<or> hc_IntervalSeconds check > 300)
                 (name @ ''.interval_seconds must be between 1 and 300'');
          i7 = (if hc_TimeoutMilliseconds check < 100 \<or> hc_TimeoutMilliseconds check > 30000
                then [name @ ''.timeout_milliseconds must be between 100 and 30000'']
                else issue_if (hc_IntervalSeconds check \<noteq> 0 \<and>
                       (ucast (hc_TimeoutMilliseconds check) :: u32) > ucast (hc_IntervalSeconds check) * 1000)
                     (name @ ''.timeout_milliseconds must not exceed interval_seconds''));
          i8 = issue_if (hc_FailureThreshold check < 1 \<or> hc_FailureThreshold check > 10)
                 (name @ ''.failure_threshold must be between 1 and 10'');
          i9 = issue_if (hc_SuccessThreshold check < 1 \<or> hc_SuccessThreshold check > 10)
                 (name @ ''.success_threshold must be between 1 and 10'');
          i10 = issue_if (hc_ResourceVersion check = 0) (name @ ''.resource_version must be greater than zero'');
          i11 = cidr_issues (\<lambda>c. Contains c (Unmap (ep_Address (hc_Endpoint check))))
                  (name @ ''.endpoint.address overlaps '') cidrs
      in (i1 @ i2 @ i3 @ i4 @ i5 @ i6 @ i7 @ i8 @ i9 @ i10 @ i11, seen'))"

section \<open>User policies\<close>

record policy_books =
  ub_users :: "string set"
  ub_classes :: "u16 \<rightharpoonup> string"

definition class_step :: "string \<Rightarrow> u16 \<Rightarrow> (u16 \<rightharpoonup> string) \<Rightarrow> string list \<times> (u16 \<rightharpoonup> string)" where
  "class_step name classID owners =
     (if classID = 0 then ([], owners)
      else if classID = 1 \<or> classID = 65535 then ([name @ ''.traffic_class_id is reserved''], owners)
      else case owners classID of
        Some owner \<Rightarrow> ([name @ ''.traffic_class_id conflicts with '' @ owner], owners)
      | None \<Rightarrow> ([], owners(classID \<mapsto> name)))"

definition user_policy_step :: "nat \<Rightarrow> UserPolicySpec \<Rightarrow> policy_books \<Rightarrow> string list \<times> policy_books" where
  "user_policy_step i policy b =
     (let name = indexed ''user_policies'' i;
          (i1, users) =
            (if \<not> validIdentifier (up_UserID policy) then ([name @ ''.user_id is invalid''], ub_users b)
             else if up_UserID policy \<in> ub_users b then ([name @ ''.user_id is duplicated''], ub_users b)
             else ([], insert (up_UserID policy) (ub_users b)));
          i2 = issue_if (up_ResourceVersion policy = 0) (name @ ''.resource_version must be greater than zero'');
          i3 = issue_if (up_RateLimit policy = None \<and> up_TrafficQuota policy = None)
                 (name @ '' must set rate_limit or traffic_quota'');
          i4 = validateRateLimit (name @ ''.rate_limit'') (up_RateLimit policy);
          i5 = validateQuota (name @ ''.traffic_quota'') (up_TrafficQuota policy);
          (i6, classes) = class_step name (up_TrafficClassID policy) (ub_classes b)
      in (i1 @ i2 @ i3 @ i4 @ i5 @ i6, \<lparr>ub_users = users, ub_classes = classes\<rparr>))"

section \<open>Forwards\<close>

type_synonym listen_key = "Addr \<times> Protocol \<times> u16"

record forward_books =
  vb_ids :: "string set"
  vb_classes :: "u16 \<rightharpoonup> string"
  vb_listeners :: "listen_key \<rightharpoonup> string"
  vb_vips :: "Addr \<rightharpoonup> string"

definition match_address :: "DesiredState \<Rightarrow> ForwardSpec \<Rightarrow> Addr \<times> u16" where
  "match_address s f =
     (case fw_ServiceVIP f of
        Some vip \<Rightarrow>
          if fw_PathMode f = PathViaExit \<and> ds_NodeID s = fw_ExitNodeID f
          then (Unmap vip, ep_Port (fw_Target f))
          else (Unmap (ep_Address (fw_Listen f)), ep_Port (fw_Listen f))
      | None \<Rightarrow> (Unmap (ep_Address (fw_Listen f)), ep_Port (fw_Listen f)))"

text \<open>One round of the protocol loop; the second component is the set of protocols seen and the
  map of listeners.\<close>

definition protocol_step :: "DesiredState \<Rightarrow> string \<Rightarrow> ForwardSpec \<Rightarrow> nat \<Rightarrow> Protocol
    \<Rightarrow> Protocol set \<times> (listen_key \<rightharpoonup> string) \<Rightarrow> string list \<times> (Protocol set \<times> (listen_key \<rightharpoonup> string))" where
  "protocol_step s name f k protocol st =
     (case st of (seen, listeners) \<Rightarrow>
        if protocol \<noteq> ProtocolTCP \<and> protocol \<noteq> ProtocolUDP
        then ([name @ ''.protocols contains unsupported value '' @ protocol], st)
        else if protocol \<in> seen then ([name @ ''.protocols contains duplicate '' @ protocol], st)
        else let (address, port) = match_address s f; key = (address, protocol, port) in
          (case listeners key of
             Some owner \<Rightarrow> ([name @ '' listener conflicts with forward '' @ owner], (insert protocol seen, listeners))
           | None \<Rightarrow> ([], (insert protocol seen, listeners(key \<mapsto> fw_ID f)))))"

definition direct_issues :: "DesiredState \<Rightarrow> string \<Rightarrow> ForwardSpec \<Rightarrow> string list" where
  "direct_issues s name f =
     issue_if (fw_ExitNodeID f \<noteq> []) (name @ ''.exit_node_id must be empty for direct path'') @
     issue_if (fw_ServiceVIP f \<noteq> None) (name @ ''.service_vip must be empty for direct path'') @
     issue_if (fw_FabricLinkID f \<noteq> []) (name @ ''.fabric_link_id must be empty for direct path'') @
     issue_if (fw_IngressNodeID f \<noteq> ds_NodeID s) (name @ '' direct path is not assigned to this node'')"

definition vip_step :: "Prefix list \<Rightarrow> string \<Rightarrow> ForwardSpec \<Rightarrow> (Addr \<rightharpoonup> string) \<Rightarrow> string list \<times> (Addr \<rightharpoonup> string)" where
  "vip_step cidrs name f vips =
     (case fw_ServiceVIP f of
        None \<Rightarrow> ([name @ ''.service_vip is required for via_exit path''], vips)
      | Some address \<Rightarrow>
          let vip = Unmap address;
              i1 = validateIPv4 (name @ ''.service_vip'') address;
              i2 = issue_if (\<not> list_ex (\<lambda>c. Contains c vip) cidrs) (name @ ''.service_vip is outside service_cidrs'')
          in if (case vips vip of None \<Rightarrow> False | Some owner \<Rightarrow> owner \<noteq> fw_ID f)
             then (i1 @ i2 @ [name @ ''.service_vip conflicts with forward '' @ the (vips vip)], vips)
             else (i1 @ i2, vips(vip \<mapsto> fw_ID f)))"

definition forward_link_issues :: "DesiredState \<Rightarrow> (string \<rightharpoonup> FabricLinkSpec) \<Rightarrow> string \<Rightarrow> ForwardSpec \<Rightarrow> string list" where
  "forward_link_issues s links name f =
     (if \<not> validIdentifier (fw_FabricLinkID f) then [name @ ''.fabric_link_id is required for via_exit path'']
      else case links (fw_FabricLinkID f) of
        None \<Rightarrow> [name @ ''.fabric_link_id does not exist'']
      | Some link \<Rightarrow>
          let expectedPeer = (if ds_NodeID s = fw_ExitNodeID f then fw_IngressNodeID f else fw_ExitNodeID f)
          in issue_if (fl_PeerNodeID link \<noteq> expectedPeer)
               (name @ ''.fabric_link_id peer does not match the opposite node''))"

definition path_step :: "DesiredState \<Rightarrow> Prefix list \<Rightarrow> (string \<rightharpoonup> FabricLinkSpec) \<Rightarrow> string \<Rightarrow> ForwardSpec
    \<Rightarrow> (Addr \<rightharpoonup> string) \<Rightarrow> string list \<times> (Addr \<rightharpoonup> string)" where
  "path_step s cidrs links name f vips =
     (if fw_PathMode f = PathDirect then (direct_issues s name f, vips)
      else if fw_PathMode f = PathViaExit then
        let i1 = issue_if (ds_SchemaVersion s < SchemaVersionV3) (name @ '' via_exit path requires schema_version 3'');
            i2 = issue_if (\<not> validIdentifier (fw_ExitNodeID f)) (name @ ''.exit_node_id is required for via_exit path'');
            i3 = issue_if (fw_ExitNodeID f = fw_IngressNodeID f) (name @ ''.exit_node_id must differ from ingress_node_id'');
            i4 = issue_if (ds_NodeID s \<noteq> fw_IngressNodeID f \<and> ds_NodeID s \<noteq> fw_ExitNodeID f)
                   (name @ '' via_exit path is not assigned to this node'');
            (i5, vips') = vip_step cidrs name f vips
        in (i1 @ i2 @ i3 @ i4 @ i5 @ forward_link_issues s links name f, vips')
      else ([name @ ''.path_mode is unsupported''], vips))"

definition snat_issues :: "string \<Rightarrow> SNATSpec \<Rightarrow> string list" where
  "snat_issues name snat =
     (if snat_Mode snat = SNATMasquerade then
        issue_if (snat_Address snat \<noteq> None) (name @ ''.snat.address must be empty for masquerade'')
      else if snat_Mode snat = SNATStatic then
        (case snat_Address snat of None \<Rightarrow> [name @ ''.snat.address is required for static mode'']
          | Some a \<Rightarrow> validateIPv4 (name @ ''.snat.address'') a)
      else [name @ ''.snat.mode is unsupported''])"

text \<open>The overlap loop reports, per service network, the listener, the target and the SNAT address.\<close>

definition forward_cidr_issues :: "string \<Rightarrow> ForwardSpec \<Rightarrow> Prefix list \<Rightarrow> string list" where
  "forward_cidr_issues name f cidrs =
     concat (map (\<lambda>(j, c).
       issue_if (Contains c (Unmap (ep_Address (fw_Listen f)))) (name @ ''.listen.address overlaps '' @ indexed ''service_cidrs'' j) @
       issue_if (Contains c (Unmap (ep_Address (fw_Target f)))) (name @ ''.target.address overlaps '' @ indexed ''service_cidrs'' j) @
       issue_if (case snat_Address (fw_SNAT f) of None \<Rightarrow> False | Some a \<Rightarrow> Contains c (Unmap a))
         (name @ ''.snat.address overlaps '' @ indexed ''service_cidrs'' j)) (enumerate 0 cidrs))"

definition deadline_issues :: "DesiredState \<Rightarrow> string \<Rightarrow> ForwardSpec \<Rightarrow> string list" where
  "deadline_issues s name f =
     issue_if (case fw_ExpiresAt f of None \<Rightarrow> False | Some t \<Rightarrow> IsZero t) (name @ ''.expires_at must not be zero'') @
     (if fw_Lifecycle f = LifecycleDraining then
        issue_if (case fw_DrainDeadline f of None \<Rightarrow> True | Some t \<Rightarrow> IsZero t)
          (name @ ''.drain_deadline is required while draining'')
      else issue_if (fw_DrainDeadline f \<noteq> None) (name @ ''.drain_deadline is only valid while draining'')) @
     issue_if (ds_SchemaVersion s = SchemaVersionV1 \<and>
         (fw_TrafficClassID f \<noteq> 0 \<or> fw_RateLimit f \<noteq> None \<or> fw_TrafficQuota f \<noteq> None \<or>
          fw_ExpiresAt f \<noteq> None \<or> fw_DrainDeadline f \<noteq> None \<or> fw_Lifecycle f = LifecycleForceDeleting))
       (name @ '' uses fields that require schema_version 2'')"

definition forward_step :: "DesiredState \<Rightarrow> Prefix list \<Rightarrow> (string \<rightharpoonup> FabricLinkSpec) \<Rightarrow> nat \<Rightarrow> ForwardSpec
    \<Rightarrow> forward_books \<Rightarrow> string list \<times> forward_books" where
  "forward_step s cidrs links i f b =
     (let name = indexed ''forwards'' i;
          (i1, ids) =
            (if \<not> validIdentifier (fw_ID f) then ([name @ ''.id is invalid''], vb_ids b)
             else if fw_ID f \<in> vb_ids b then ([name @ ''.id is duplicated''], vb_ids b)
             else ([], insert (fw_ID f) (vb_ids b)));
          i2 = issue_if (\<not> validIdentifier (fw_UserID f)) (name @ ''.user_id is invalid'');
          i3 = issue_if (\<not> validIdentifier (fw_IngressNodeID f)) (name @ ''.ingress_node_id is invalid'');
          i4 = issue_if (fw_ResourceVersion f = 0) (name @ ''.resource_version must be greater than zero'');
          (i5, classes) = class_step name (fw_TrafficClassID f) (vb_classes b);
          i6 = validateEndpoint (name @ ''.listen'') (fw_Listen f);
          i7 = validateEndpoint (name @ ''.target'') (fw_Target f);
          i8 = issue_if (fw_Protocols f = []) (name @ ''.protocols must not be empty'');
          (i9, (_, listeners)) = range_issues (protocol_step s name f) 0 ({}, vb_listeners b) (fw_Protocols f);
          (i10, vips) = path_step s cidrs links name f (vb_vips b);
          i11 = issue_if (fw_Lifecycle f \<noteq> LifecycleActive \<and> fw_Lifecycle f \<noteq> LifecyclePaused \<and>
                  fw_Lifecycle f \<noteq> LifecycleDraining \<and> fw_Lifecycle f \<noteq> LifecycleForceDeleting)
                  (name @ ''.lifecycle is unsupported'');
          i12 = snat_issues name (fw_SNAT f);
          i13 = validateRateLimit (name @ ''.rate_limit'') (fw_RateLimit f);
          i14 = validateQuota (name @ ''.traffic_quota'') (fw_TrafficQuota f);
          i15 = forward_cidr_issues name f cidrs;
          i16 = deadline_issues s name f
      in (i1 @ i2 @ i3 @ i4 @ i5 @ i6 @ i7 @ i8 @ i9 @ i10 @ i11 @ i12 @ i13 @ i14 @ i15 @ i16,
          \<lparr>vb_ids = ids, vb_classes = classes, vb_listeners = listeners, vb_vips = vips\<rparr>))"

section \<open>The whole check\<close>

definition Validate :: "DesiredState \<Rightarrow> string list" where
  "Validate s =
     (let i1 = header_issues s;
          (i2, cidrs) = range_issues service_cidr_step 0 [] (ds_ServiceCIDRs s);
          i3 = version_issues s;
          (i4, lb) = range_issues (fabric_link_step s cidrs) 0 no_links (ds_FabricLinks s);
          (i5, _) = range_issues (health_check_step cidrs) 0 {} (ds_HealthChecks s);
          (i6, ub) = range_issues user_policy_step 0 \<lparr>ub_users = {}, ub_classes = Map.empty\<rparr> (ds_UserPolicies s);
          i7 = issue_if (ds_SchemaVersion s = SchemaVersionV1 \<and> ds_UserPolicies s \<noteq> []) ''user_policies requires schema_version 2'';
          (i8, _) = range_issues (forward_step s cidrs (lb_links lb)) 0
             \<lparr>vb_ids = {}, vb_classes = ub_classes ub, vb_listeners = Map.empty, vb_vips = Map.empty\<rparr> (ds_Forwards s)
      in i1 @ i2 @ i3 @ i4 @ i5 @ i6 @ i7 @ i8)"

end
