(* ===== verification/Spec_WellFormed.thy ===== *)
theory Spec_WellFormed
  imports Spec_Validate
begin

text \<open>
  What \<open>Validate\<close> decides, said declaratively: a predicate per kind of object, and a pairwise
  condition per list. Each validation loop is an instance of the \<open>range_scan\<close> interface, whose
  interpretation discharges the two laws of its round; \<open>Validate_iff\<close> puts the loops together.
\<close>

section \<open>Scalars\<close>

definition usable4 :: "Addr \<Rightarrow> bool" where
  "usable4 a \<longleftrightarrow> (\<exists>w. Unmap a = Addr4 w \<and> w \<noteq> 0 \<and> drop_bit 28 w \<noteq> 14)"

lemma usable4_Unmap [simp]: "usable4 (Unmap a) = usable4 a"
  by (simp add: usable4_def)

lemma usable4_Is4: "usable4 a \<Longrightarrow> Is4 (Unmap a)"
  by (auto simp: usable4_def)

lemma usable4_iff:
  "usable4 a \<longleftrightarrow> Is4 (Unmap a) \<and> \<not> IsUnspecified (Unmap a) \<and> \<not> IsMulticast (Unmap a)"
  by (cases "Unmap a") (auto simp: usable4_def IsUnspecified_def IsMulticast_def)

lemma validateIPv4_Nil [issue_simps]: "validateIPv4 name a = [] \<longleftrightarrow> usable4 a"
  by (auto simp: validateIPv4_def Let_def usable4_iff IsValid_def)

definition endpoint_ok :: "Endpoint \<Rightarrow> bool" where
  "endpoint_ok e \<longleftrightarrow> usable4 (ep_Address e) \<and> ep_Hostname e = [] \<and> ep_Port e \<noteq> 0"

lemma validateEndpoint_Nil [issue_simps]: "validateEndpoint name e = [] \<longleftrightarrow> endpoint_ok e"
  by (auto simp: validateEndpoint_def endpoint_ok_def validateIPv4_Nil)

definition rate_ok :: "RateLimitSpec option \<Rightarrow> bool" where
  "rate_ok r \<longleftrightarrow> (\<forall>l. r = Some l \<longrightarrow>
     (rl_IngressBitsPerSecond l \<noteq> 0 \<or> rl_EgressBitsPerSecond l \<noteq> 0) \<and> rl_BurstBytes l \<noteq> 0)"

lemma validateRateLimit_Nil [issue_simps]: "validateRateLimit name r = [] \<longleftrightarrow> rate_ok r"
  by (auto simp: validateRateLimit_def rate_ok_def split: option.splits)

definition quota_ok :: "TrafficQuotaSpec option \<Rightarrow> bool" where
  "quota_ok q \<longleftrightarrow> (\<forall>t. q = Some t \<longrightarrow> tq_Bytes t \<noteq> 0 \<and> tq_Policy t = QuotaPolicyPause)"

lemma validateQuota_Nil [issue_simps]: "validateQuota name q = [] \<longleftrightarrow> quota_ok q"
  by (auto simp: validateQuota_def quota_ok_def split: option.splits)

definition wireguard_key_ok :: "string \<Rightarrow> bool" where
  "wireguard_key_ok k \<longleftrightarrow>
     (\<exists>key. DecodeString k = Some key \<and> length key = 32 \<and> (\<exists>b\<in>set key. b \<noteq> 0) \<and> \<not> low_order_point key)"

lemma ValidateWireGuardPublicKey_None: "ValidateWireGuardPublicKey name k = None \<longleftrightarrow> wireguard_key_ok k"
  by (auto simp: ValidateWireGuardPublicKey_def wireguard_key_ok_def list_all_iff split: option.splits)

definition wireguard_ok :: "WireGuardPeerSpec \<Rightarrow> bool" where
  "wireguard_ok peer \<longleftrightarrow>
     wireguard_key_ok (wg_PeerPublicKey peer) \<and>
     (\<exists>host portText port address. SplitHostPort (wg_Endpoint peer) = Some (host, portText) \<and> host \<noteq> [] \<and>
        ParseUint 16 portText = Some port \<and> port \<noteq> 0 \<and>
        ParseAddr host = Some address \<and> Is4 (Unmap address) \<and> \<not> IsUnspecified address \<and> \<not> IsMulticast address) \<and>
     wg_ListenPort peer \<noteq> 0 \<and> wg_PersistentKeepaliveSeconds peer \<le> 3600"

lemma validateWireGuard_Nil [issue_simps]: "validateWireGuard name peer = [] \<longleftrightarrow> wireguard_ok peer"
proof -
  have "(case ValidateWireGuardPublicKey n k of None \<Rightarrow> [] | Some e \<Rightarrow> [e]) = [] \<longleftrightarrow> wireguard_key_ok k" for n k
    using ValidateWireGuardPublicKey_None [of n k] by (auto split: option.splits)
  then show ?thesis
    by (auto simp: validateWireGuard_def wireguard_ok_def not_less split: option.splits prod.splits)
qed

definition gre_ok :: "GRESpec \<Rightarrow> bool" where
  "gre_ok g \<longleftrightarrow> usable4 (gre_UnderlayLocal g) \<and> usable4 (gre_UnderlayRemote g) \<and>
     Unmap (gre_UnderlayLocal g) \<noteq> Unmap (gre_UnderlayRemote g) \<and> gre_Key g \<noteq> 0"

lemma validateGRE_Nil [issue_simps]: "validateGRE name g = [] \<longleftrightarrow> gre_ok g"
  by (auto simp: validateGRE_def gre_ok_def validateIPv4_Nil usable4_def IsValid_def)

section \<open>Service networks\<close>

text \<open>A service network is accepted when, unmapped, it is a masked unicast IPv4 prefix.\<close>

definition service_net :: "Prefix \<Rightarrow> u32 \<Rightarrow> nat \<Rightarrow> bool" where
  "service_net p w b \<longleftrightarrow> Unmap (pfx_Addr p) = Addr4 w \<and> usable4 (Addr4 w) \<and> 1 \<le> b \<and> b \<le> 32 \<and>
     canonicalPrefix p = Prefix (Addr4 w) (int b)"

definition service_cidr_ok :: "Prefix \<Rightarrow> bool" where
  "service_cidr_ok p \<longleftrightarrow> (\<exists>w b. service_net p w b)"

lemma canonicalPrefix_4:
  assumes "Unmap (pfx_Addr p) = Addr4 w" and "Prefix_IsValid p" and "pfx_Addr (canonicalPrefix p) = Addr4 w"
    and "w \<noteq> 0"
  shows "\<exists>b. 1 \<le> b \<and> b \<le> (32::nat) \<and> canonicalPrefix p = Prefix (Addr4 w) (int b)"
proof -
  define bits where "bits = (if Is4In6 (pfx_Addr p) then pfx_Bits p - 96 else pfx_Bits p)"
  have c: "canonicalPrefix p = Masked (PrefixFrom (Addr4 w) bits)"
    using assms(1,2) by (simp add: canonicalPrefix_def bits_def Let_def)
  have range: "0 \<le> bits \<and> bits \<le> 32"
  proof (rule ccontr)
    assume "\<not> ?thesis"
    then have "canonicalPrefix p = NoPrefix" by (auto simp: c PrefixFrom_def Masked_def)
    with assms(3) show False by (simp add: NoPrefix_def)
  qed
  then have eq: "canonicalPrefix p = Prefix (Addr4 w) bits"
    using assms(3) by (auto simp: c PrefixFrom_def Masked_4)
  have "bits \<noteq> 0"
  proof
    assume z: "bits = 0"
    have "w AND NOT (mask 32) = w"
      using assms(3) z by (simp add: c PrefixFrom_def Masked_4)
    moreover have "w AND NOT (mask 32) = 0"
      by (rule bit_eqI) (auto simp: bit_simps)
    ultimately show False using assms(4) by simp
  qed
  with range eq show ?thesis by (intro exI [of _ "nat bits"]) auto
qed

lemma validateIPv4Prefix_Nil:
  assumes "name \<noteq> []"
  shows "validateIPv4Prefix name p = [] \<longleftrightarrow> service_cidr_ok p"
proof
  assume ok: "validateIPv4Prefix name p = []"
  then have valid: "Prefix_IsValid p" and four: "Is4 (Unmap (pfx_Addr p))"
    and masked: "Unmap (pfx_Addr p) = pfx_Addr (canonicalPrefix p)"
    and usable: "usable4 (Unmap (pfx_Addr p))"
    using assms by (auto simp: validateIPv4Prefix_def Let_def usable4_iff split: if_splits)
  from four obtain w where w: "Unmap (pfx_Addr p) = Addr4 w" by (auto simp: Is4_iff)
  moreover have "w \<noteq> 0" using usable w by (auto simp: usable4_def)
  ultimately show "service_cidr_ok p"
    using canonicalPrefix_4 [of p w] valid masked usable by (fastforce simp: service_cidr_ok_def service_net_def)
next
  assume "service_cidr_ok p"
  then obtain w b where net: "service_net p w b" by (auto simp: service_cidr_ok_def)
  then have "Prefix_IsValid p"
    by (auto simp: service_net_def canonicalPrefix_def Prefix_IsValid_def split: if_splits)
  with net show "validateIPv4Prefix name p = []"
    by (auto simp: validateIPv4Prefix_def service_net_def Let_def usable4_iff)
qed

lemma cidr_issues_Nil [issue_simps]: "cidr_issues P m cidrs = [] \<longleftrightarrow> (\<forall>c\<in>set cidrs. \<not> P c)"
proof -
  have "(\<forall>x\<in>set (enumerate 0 cidrs). \<not> P (snd x)) \<longleftrightarrow> (\<forall>c\<in>set cidrs. \<not> P c)"
    by (metis (no_types, lifting) in_set_conv_nth in_set_enumerate_eq le0 add.left_neutral
        length_map nth_map map_snd_enumerate)
  then show ?thesis by (auto simp: cidr_issues_def split: prod.splits)
qed

lemma indexed_nonempty [simp]: "indexed name i \<noteq> []"
  by (simp add: indexed_def)

interpretation cidr_scan: range_scan service_cidr_step service_cidr_ok
  "\<lambda>p q. \<not> prefixesOverlap (canonicalPrefix q) (canonicalPrefix p)" "\<lambda>st seen. st = map canonicalPrefix seen"
  by unfold_locales
    (auto simp: service_cidr_step_def Let_def validateIPv4Prefix_Nil issue_simps split: if_splits)

section \<open>Fabric links\<close>

definition interface_prefix_ok :: "Prefix \<Rightarrow> bool" where
  "interface_prefix_ok p \<longleftrightarrow> Prefix_IsValid p \<and> usable4 (pfx_Addr p) \<and>
     (let bits = if Is4In6 (pfx_Addr p) then pfx_Bits p - 96 else pfx_Bits p in 1 \<le> bits \<and> bits \<le> 32)"

lemma validateIPv4InterfacePrefix_Nil:
  "name \<noteq> [] \<Longrightarrow> validateIPv4InterfacePrefix name p = [] \<longleftrightarrow> interface_prefix_ok p"
  by (auto simp: validateIPv4InterfacePrefix_def interface_prefix_ok_def Let_def usable4_iff)

definition transport_ok :: "FabricLinkSpec \<Rightarrow> bool" where
  "transport_ok l \<longleftrightarrow>
     fl_Transport l = FabricWireGuard \<and> (\<exists>w. fl_WireGuard l = Some w \<and> wireguard_ok w) \<and> fl_GRE l = None \<or>
     fl_Transport l = FabricDirectL3 \<and> fl_Trusted l \<and> fl_WireGuard l = None \<and> fl_GRE l = None \<or>
     fl_Transport l = FabricGRE \<and> fl_Trusted l \<and> (\<exists>g. fl_GRE l = Some g \<and> gre_ok g) \<and> fl_WireGuard l = None"

lemma link_transport_issues_Nil [issue_simps]: "link_transport_issues name l = [] \<longleftrightarrow> transport_ok l"
  by (auto simp: link_transport_issues_def transport_ok_def issue_simps split: option.splits)

abbreviation fl_local :: "FabricLinkSpec \<Rightarrow> Addr" where
  "fl_local l \<equiv> Unmap (pfx_Addr (fl_LocalAddress l))"

definition link_ok :: "DesiredState \<Rightarrow> Prefix list \<Rightarrow> FabricLinkSpec \<Rightarrow> bool" where
  "link_ok s cidrs l \<longleftrightarrow>
     validIdentifier (fl_ID l) \<and> validIdentifier (fl_PeerNodeID l) \<and> fl_PeerNodeID l \<noteq> ds_NodeID s \<and>
     interfacePattern (fl_Interface l) \<and> interface_prefix_ok (fl_LocalAddress l) \<and>
     usable4 (fl_PeerAddress l) \<and>
     Contains (Masked (fl_LocalAddress l)) (Unmap (fl_PeerAddress l)) \<and> Unmap (fl_PeerAddress l) \<noteq> fl_local l \<and>
     (\<forall>c\<in>set cidrs. \<not> prefixesOverlap (Masked (fl_LocalAddress l)) c \<and> \<not> Contains c (Unmap (fl_PeerAddress l))) \<and>
     1280 \<le> fl_MTU l \<and> fl_MTU l \<le> 9000 \<and> fl_RoutingID l \<noteq> 0 \<and> fl_RoutingID l \<noteq> 65535 \<and>
     fl_ResourceVersion l \<noteq> 0 \<and> transport_ok l"

text \<open>Two links of a node: identifiers and routing IDs differ, and an interface or a local address
  is shared by direct L3 links only.\<close>

definition link_compat :: "FabricLinkSpec \<Rightarrow> FabricLinkSpec \<Rightarrow> bool" where
  "link_compat k l \<longleftrightarrow> fl_ID k \<noteq> fl_ID l \<and> fl_RoutingID k \<noteq> fl_RoutingID l \<and>
     (fl_Interface k = fl_Interface l \<longrightarrow> fl_Transport k = FabricDirectL3 \<and> fl_Transport l = FabricDirectL3) \<and>
     (fl_local k = fl_local l \<longrightarrow> fl_Transport k = FabricDirectL3 \<and> fl_Transport l = FabricDirectL3 \<and>
        fl_Interface k = fl_Interface l)"

text \<open>What the four maps of the loop record of the links accepted so far.\<close>

abbreviation "links_tracks \<equiv> owned fl_ID (\<lambda>l v. v = l)"
abbreviation "routing_tracks \<equiv> owned fl_RoutingID (\<lambda>l v. True)"
abbreviation "interfaces_tracks \<equiv> owned fl_Interface (\<lambda>l v. v = fl_Transport l)"
abbreviation "locals_tracks \<equiv> owned fl_local (\<lambda>l v. snd v = (fl_Transport l, fl_Interface l))"

definition link_tracks :: "link_books \<Rightarrow> FabricLinkSpec list \<Rightarrow> bool" where
  "link_tracks b seen \<longleftrightarrow> links_tracks (lb_links b) seen \<and> routing_tracks (lb_routing b) seen \<and>
     interfaces_tracks (lb_interfaces b) seen \<and> locals_tracks (lb_locals b) seen"

lemma link_peer_issues_Nil:
  "interface_prefix_ok (fl_LocalAddress l) \<Longrightarrow> link_peer_issues cidrs name l = [] \<longleftrightarrow>
     usable4 (fl_PeerAddress l) \<and>
     Contains (Masked (fl_LocalAddress l)) (Unmap (fl_PeerAddress l)) \<and> Unmap (fl_PeerAddress l) \<noteq> fl_local l \<and>
     (\<forall>c\<in>set cidrs. \<not> Contains c (Unmap (fl_PeerAddress l))) \<and> 1280 \<le> fl_MTU l \<and> fl_MTU l \<le> 9000"
  by (auto simp: link_peer_issues_def issue_simps Let_def interface_prefix_ok_def not_less usable4_def IsValid_def)

text \<open>Each sub-step is silent under its own condition, and then makes one entry.\<close>

lemma link_id_step_silent:
  assumes "links_tracks (lb_links b) seen"
  shows "fst (link_id_step name l b) = [] \<longleftrightarrow>
      validIdentifier (fl_ID l) \<and> (\<forall>k\<in>set seen. fl_ID k \<noteq> fl_ID l)"
  by (auto simp: link_id_step_def owned_None [OF assms])

lemma link_id_step_entry:
  "fst (link_id_step name l b) = [] \<Longrightarrow> snd (link_id_step name l b) = b\<lparr>lb_links := (lb_links b)(fl_ID l \<mapsto> l)\<rparr>"
  by (auto simp: link_id_step_def split: if_splits)

lemma link_routing_step_silent:
  assumes "routing_tracks (lb_routing b) seen"
  shows "fst (link_routing_step name l b) = [] \<longleftrightarrow> fl_RoutingID l \<noteq> 0 \<and> fl_RoutingID l \<noteq> 65535 \<and>
      (\<forall>k\<in>set seen. fl_RoutingID k \<noteq> fl_RoutingID l)"
  using owned_None [OF assms, of "fl_RoutingID l"] by (auto simp: link_routing_step_def split: option.splits)

lemma link_routing_step_entry:
  "fst (link_routing_step name l b) = [] \<Longrightarrow>
   snd (link_routing_step name l b) = b\<lparr>lb_routing := (lb_routing b)(fl_RoutingID l \<mapsto> name)\<rparr>"
  by (auto simp: link_routing_step_def split: if_splits option.splits)

lemma link_interface_step_silent:
  assumes "interfaces_tracks (lb_interfaces b) seen"
  shows "fst (link_interface_step name l b) = [] \<longleftrightarrow> interfacePattern (fl_Interface l) \<and>
      (\<forall>k\<in>set seen. fl_Interface k = fl_Interface l \<longrightarrow>
         fl_Transport k = FabricDirectL3 \<and> fl_Transport l = FabricDirectL3)"
proof (cases "lb_interfaces b (fl_Interface l)")
  case None
  have "fl_Interface k \<noteq> fl_Interface l" if "k \<in> set seen" for k
    using that None unfolding owned_None [OF assms] by simp
  with None show ?thesis by (auto simp: link_interface_step_def)
next
  case (Some t)
  obtain k0 where k0: "k0 \<in> set seen" "fl_Interface k0 = fl_Interface l" "t = fl_Transport k0"
    using owned_Some_ex [OF assms Some] by auto
  have same: "fl_Transport k = fl_Transport k0" if "k \<in> set seen" "fl_Interface k = fl_Interface l" for k
    using owned_Some [OF assms Some that] k0 by simp
  have "(\<forall>k\<in>set seen. fl_Interface k = fl_Interface l \<longrightarrow> fl_Transport k = FabricDirectL3 \<and>
      fl_Transport l = FabricDirectL3) \<longleftrightarrow> t = FabricDirectL3 \<and> fl_Transport l = FabricDirectL3"
    using k0 same by metis
  with Some show ?thesis by (simp add: link_interface_step_def)
qed

lemma link_interface_step_entry:
  "fst (link_interface_step name l b) = [] \<Longrightarrow>
   snd (link_interface_step name l b) = b\<lparr>lb_interfaces := (lb_interfaces b)(fl_Interface l \<mapsto> fl_Transport l)\<rparr>"
  by (auto simp: link_interface_step_def split: if_splits)

lemma link_local_step_silent:
  assumes tr: "locals_tracks (lb_locals b) seen" and "name \<noteq> []"
  shows "fst (link_local_step cidrs name l b) = [] \<longleftrightarrow> interface_prefix_ok (fl_LocalAddress l) \<and>
      (\<forall>c\<in>set cidrs. \<not> prefixesOverlap (Masked (fl_LocalAddress l)) c) \<and>
      (\<forall>k\<in>set seen. fl_local k = fl_local l \<longrightarrow> fl_Transport k = FabricDirectL3 \<and> fl_Transport l = FabricDirectL3 \<and>
         fl_Interface k = fl_Interface l)"
proof (cases "lb_locals b (fl_local l)")
  case None
  have "fl_local k \<noteq> fl_local l" if "k \<in> set seen" for k
    using that None unfolding owned_None [OF tr] by simp
  with None show ?thesis using assms(2)
    by (auto simp: link_local_step_def Let_def validateIPv4InterfacePrefix_Nil cidr_issues_Nil)
next
  case (Some v)
  obtain n t d where v: "v = (n, t, d)" by (cases v)
  obtain k0 where k0: "k0 \<in> set seen" "fl_local k0 = fl_local l" "t = fl_Transport k0" "d = fl_Interface k0"
    using owned_Some_ex [OF tr Some] by (auto simp: v)
  have same: "fl_Transport k = fl_Transport k0 \<and> fl_Interface k = fl_Interface k0"
    if "k \<in> set seen" "fl_local k = fl_local l" for k
    using owned_Some [OF tr Some that] k0 by (simp add: v)
  have "(\<forall>k\<in>set seen. fl_local k = fl_local l \<longrightarrow> fl_Transport k = FabricDirectL3 \<and>
      fl_Transport l = FabricDirectL3 \<and> fl_Interface k = fl_Interface l) \<longleftrightarrow>
    t = FabricDirectL3 \<and> fl_Transport l = FabricDirectL3 \<and> d = fl_Interface l"
    using k0 same by metis
  with Some show ?thesis using assms(2)
    by (simp add: link_local_step_def Let_def validateIPv4InterfacePrefix_Nil cidr_issues_Nil v)
qed

lemma link_local_step_entry:
  "fst (link_local_step cidrs name l b) = [] \<Longrightarrow> snd (link_local_step cidrs name l b) =
     b\<lparr>lb_locals := (lb_locals b)(fl_local l \<mapsto> (name, fl_Transport l, fl_Interface l))\<rparr>"
  by (auto simp: link_local_step_def Let_def split: if_splits option.splits prod.splits)

lemmas link_silent = link_id_step_silent link_interface_step_silent link_local_step_silent link_routing_step_silent
lemmas link_entry = link_id_step_entry link_interface_step_entry link_local_step_entry link_routing_step_entry

lemma fabric_link_step_split:
  "fst (fabric_link_step s cidrs i l b) = [] \<longleftrightarrow>
     (let name = indexed ''fabric_links'' i;
          b1 = b\<lparr>lb_links := (lb_links b)(fl_ID l \<mapsto> l)\<rparr>;
          b2 = b1\<lparr>lb_interfaces := (lb_interfaces b)(fl_Interface l \<mapsto> fl_Transport l)\<rparr>;
          b3 = b2\<lparr>lb_locals := (lb_locals b)(fl_local l \<mapsto> (name, fl_Transport l, fl_Interface l))\<rparr>
      in fst (link_id_step name l b) = [] \<and> validIdentifier (fl_PeerNodeID l) \<and> fl_PeerNodeID l \<noteq> ds_NodeID s \<and>
         fst (link_interface_step name l b1) = [] \<and> fst (link_local_step cidrs name l b2) = [] \<and>
         link_peer_issues cidrs name l = [] \<and> fst (link_routing_step name l b3) = [] \<and>
         fl_ResourceVersion l \<noteq> 0 \<and> transport_ok l)"
proof -
  let ?n = "indexed ''fabric_links'' i"
  let ?b1 = "b\<lparr>lb_links := (lb_links b)(fl_ID l \<mapsto> l)\<rparr>"
  let ?b2 = "?b1\<lparr>lb_interfaces := (lb_interfaces b)(fl_Interface l \<mapsto> fl_Transport l)\<rparr>"
  obtain x1 c1 where 1: "link_id_step ?n l b = (x1, c1)" by fastforce
  obtain x3 c3 where 3: "link_interface_step ?n l c1 = (x3, c3)" by fastforce
  obtain x4 c4 where 4: "link_local_step cidrs ?n l c3 = (x4, c4)" by fastforce
  show ?thesis
    using link_id_step_entry [of ?n l b] link_interface_step_entry [of ?n l ?b1]
      link_local_step_entry [of cidrs ?n l ?b2] 1 3 4
    by (cases "x1 = []"; cases "x3 = []"; cases "x4 = []")
      (auto simp: fabric_link_step_def Let_def link_transport_issues_Nil split: prod.splits)
qed

interpretation link_scan: range_scan "fabric_link_step s cidrs" "link_ok s cidrs" link_compat link_tracks
  for s cidrs
proof unfold_locales
  fix b seen i l
  assume tr: "link_tracks b seen"
  then show "fst (fabric_link_step s cidrs i l b) = [] \<longleftrightarrow> link_ok s cidrs l \<and> (\<forall>k\<in>set seen. link_compat k l)"
    unfolding fabric_link_step_split
    by (auto simp: Let_def link_tracks_def link_silent link_peer_issues_Nil link_ok_def link_compat_def)
next
  fix b :: link_books and seen i l
  let ?n = "indexed ''fabric_links'' i"
  let ?b1 = "b\<lparr>lb_links := (lb_links b)(fl_ID l \<mapsto> l)\<rparr>"
  let ?b2 = "?b1\<lparr>lb_interfaces := (lb_interfaces b)(fl_Interface l \<mapsto> fl_Transport l)\<rparr>"
  let ?b3 = "?b2\<lparr>lb_locals := (lb_locals b)(fl_local l \<mapsto> (?n, fl_Transport l, fl_Interface l))\<rparr>"
  assume tr: "link_tracks b seen" and silent: "fst (fabric_link_step s cidrs i l b) = []"
  have steps: "fst (link_id_step ?n l b) = []" "fst (link_interface_step ?n l ?b1) = []"
      "fst (link_local_step cidrs ?n l ?b2) = []" "fst (link_routing_step ?n l ?b3) = []"
    using silent unfolding fabric_link_step_split by (auto simp: Let_def)
  then have "snd (fabric_link_step s cidrs i l b) = ?b3\<lparr>lb_routing := (lb_routing b)(fl_RoutingID l \<mapsto> ?n)\<rparr>"
    using link_entry(1) [OF steps(1)] link_entry(2) [OF steps(2)] link_entry(3) [OF steps(3)] link_entry(4) [OF steps(4)]
    by (auto simp: fabric_link_step_def Let_def split: prod.splits)
  moreover have "fl_ID k \<noteq> fl_ID l" "fl_Interface k = fl_Interface l \<Longrightarrow> fl_Transport k = fl_Transport l"
      "fl_local k = fl_local l \<Longrightarrow> fl_Transport k = fl_Transport l \<and> fl_Interface k = fl_Interface l"
      if "k \<in> set seen" for k
    using steps tr that by (auto simp: link_tracks_def link_silent)
  ultimately show "link_tracks (snd (fabric_link_step s cidrs i l b)) (seen @ [l])"
    using tr by (auto simp: link_tracks_def intro!: owned_step)
qed

section \<open>Health checks\<close>

definition health_ok :: "Prefix list \<Rightarrow> HealthCheckSpec \<Rightarrow> bool" where
  "health_ok cidrs h \<longleftrightarrow>
     validIdentifier (hc_PoolID h) \<and> validIdentifier (hc_BackendID h) \<and> endpoint_ok (hc_Endpoint h) \<and>
     hc_Protocol h = ProtocolTCP \<and> hc_IntervalSeconds h \<noteq> 0 \<and> hc_IntervalSeconds h \<le> 300 \<and>
     100 \<le> hc_TimeoutMilliseconds h \<and> hc_TimeoutMilliseconds h \<le> 30000 \<and>
     unat (hc_TimeoutMilliseconds h) \<le> 1000 * unat (hc_IntervalSeconds h) \<and>
     hc_FailureThreshold h \<noteq> 0 \<and> hc_FailureThreshold h \<le> 10 \<and>
     hc_SuccessThreshold h \<noteq> 0 \<and> hc_SuccessThreshold h \<le> 10 \<and> hc_ResourceVersion h \<noteq> 0 \<and>
     (\<forall>c\<in>set cidrs. \<not> Contains c (Unmap (ep_Address (hc_Endpoint h))))"

text \<open>The 32-bit product of the code does not wrap: both factors come from 16-bit values.\<close>

lemma interval_milliseconds:
  "(ucast (t :: u16) :: u32) > ucast (n :: u16) * 1000 \<longleftrightarrow> unat t > 1000 * unat n"
proof -
  have small: "unat (w :: u16) < 65536" for w
    using unsigned_less [of w, where 'a = nat] by simp
  then have up: "unat (ucast w :: u32) = unat (w :: u16)" for w
    by (simp add: unsigned_ucast_eq take_bit_nat_eq_self less_trans [OF small])
  have "unat (ucast n * 1000 :: u32) = unat n * 1000"
    using small [of n] by (simp add: unat_word_ariths up)
  then show ?thesis by (simp add: word_less_nat_alt up mult.commute)
qed

interpretation health_scan: range_scan "health_check_step cidrs" "health_ok cidrs"
  "\<lambda>g h. (hc_PoolID g, hc_BackendID g) \<noteq> (hc_PoolID h, hc_BackendID h)"
  "\<lambda>b seen. b = (\<lambda>h. (hc_PoolID h, hc_BackendID h)) ` set seen"
  for cidrs
proof unfold_locales
  fix b seen i and h :: HealthCheckSpec
  assume b: "b = (\<lambda>h. (hc_PoolID h, hc_BackendID h)) ` set seen"
  have "(hc_PoolID h, hc_BackendID h) \<in> b \<longleftrightarrow> (\<exists>g\<in>set seen. (hc_PoolID g, hc_BackendID g) = (hc_PoolID h, hc_BackendID h))"
    unfolding b by force
  then show "fst (health_check_step cidrs i h b) = [] \<longleftrightarrow> health_ok cidrs h \<and>
      (\<forall>g\<in>set seen. (hc_PoolID g, hc_BackendID g) \<noteq> (hc_PoolID h, hc_BackendID h))"
    by (auto simp: health_check_step_def health_ok_def Let_def issue_simps not_less interval_milliseconds
        split: if_splits)
qed (auto simp: health_check_step_def Let_def split: if_splits)

section \<open>User policies\<close>

text \<open>Class 0 means that no class is assigned, 1 and 65535 are taken by the data plane.\<close>

definition class_ok :: "u16 \<Rightarrow> bool" where
  "class_ok c \<longleftrightarrow> c \<noteq> 1 \<and> c \<noteq> 65535"

lemma class_step_silent:
  "fst (class_step name c m) = [] \<longleftrightarrow> c = 0 \<or> class_ok c \<and> c \<notin> dom m"
  by (auto simp: class_step_def class_ok_def split: option.splits)

lemma class_step_dom:
  "fst (class_step name c m) = [] \<Longrightarrow> dom (snd (class_step name c m)) = dom m \<union> ({c} - {0})"
  by (auto simp: class_step_def split: if_splits option.splits)

definition policy_ok :: "UserPolicySpec \<Rightarrow> bool" where
  "policy_ok p \<longleftrightarrow> validIdentifier (up_UserID p) \<and> up_ResourceVersion p \<noteq> 0 \<and>
     (up_RateLimit p \<noteq> None \<or> up_TrafficQuota p \<noteq> None) \<and> rate_ok (up_RateLimit p) \<and> quota_ok (up_TrafficQuota p) \<and>
     class_ok (up_TrafficClassID p)"

definition class_compat :: "u16 \<Rightarrow> u16 \<Rightarrow> bool" where
  "class_compat c d \<longleftrightarrow> c = d \<longrightarrow> d = 0"

definition policy_compat :: "UserPolicySpec \<Rightarrow> UserPolicySpec \<Rightarrow> bool" where
  "policy_compat p q \<longleftrightarrow> up_UserID p \<noteq> up_UserID q \<and> class_compat (up_TrafficClassID p) (up_TrafficClassID q)"

definition policy_tracks :: "policy_books \<Rightarrow> UserPolicySpec list \<Rightarrow> bool" where
  "policy_tracks b seen \<longleftrightarrow> ub_users b = up_UserID ` set seen \<and>
     dom (ub_classes b) = up_TrafficClassID ` set seen - {0}"

lemma user_policy_step_split:
  "fst (user_policy_step i p b) = [] \<longleftrightarrow> validIdentifier (up_UserID p) \<and> up_UserID p \<notin> ub_users b \<and>
     up_ResourceVersion p \<noteq> 0 \<and> (up_RateLimit p \<noteq> None \<or> up_TrafficQuota p \<noteq> None) \<and>
     rate_ok (up_RateLimit p) \<and> quota_ok (up_TrafficQuota p) \<and>
     fst (class_step (indexed ''user_policies'' i) (up_TrafficClassID p) (ub_classes b)) = []"
  by (auto simp: user_policy_step_def Let_def issue_simps split: prod.splits)

interpretation policy_scan: range_scan user_policy_step policy_ok policy_compat policy_tracks
proof unfold_locales
  fix b seen i and p :: UserPolicySpec
  assume tr: "policy_tracks b seen"
  have "up_TrafficClassID p \<in> dom (ub_classes b) \<longleftrightarrow>
      up_TrafficClassID p \<noteq> 0 \<and> (\<exists>q\<in>set seen. up_TrafficClassID q = up_TrafficClassID p)"
    using tr unfolding policy_tracks_def by (metis (no_types, lifting) DiffE DiffI imageE imageI singletonD singletonI)
  moreover have "up_UserID p \<notin> ub_users b \<longleftrightarrow> (\<forall>q\<in>set seen. up_UserID q \<noteq> up_UserID p)"
    using tr by (simp add: policy_tracks_def notin_image_iff)
  ultimately show "fst (user_policy_step i p b) = [] \<longleftrightarrow> policy_ok p \<and> (\<forall>q\<in>set seen. policy_compat q p)"
    unfolding user_policy_step_split
    by (auto simp: class_step_silent policy_ok_def policy_compat_def class_compat_def class_ok_def)
next
  fix b seen i and p :: UserPolicySpec
  assume tr: "policy_tracks b seen" and silent: "fst (user_policy_step i p b) = []"
  let ?c = "class_step (indexed ''user_policies'' i) (up_TrafficClassID p) (ub_classes b)"
  have "snd (user_policy_step i p b) = \<lparr>ub_users = insert (up_UserID p) (ub_users b), ub_classes = snd ?c\<rparr>"
    using silent unfolding user_policy_step_split by (auto simp: user_policy_step_def Let_def split: prod.splits)
  moreover have "dom (snd ?c) = dom (ub_classes b) \<union> ({up_TrafficClassID p} - {0})"
    using silent unfolding user_policy_step_split by (intro class_step_dom) simp
  ultimately show "policy_tracks (snd (user_policy_step i p b)) (seen @ [p])"
    using tr by (auto simp: policy_tracks_def simp del: domIff)
qed

section \<open>Forwards\<close>

text \<open>The sockets a forward occupies on the node, and the service address it is reached at.\<close>

definition listen_keys :: "DesiredState \<Rightarrow> ForwardSpec \<Rightarrow> listen_key set" where
  "listen_keys s f = (\<lambda>p. (fst (match_address s f), p, snd (match_address s f))) ` set (fw_Protocols f)"

definition vip_of :: "ForwardSpec \<Rightarrow> Addr option" where
  "vip_of f = (if fw_PathMode f = PathViaExit then map_option Unmap (fw_ServiceVIP f) else None)"

interpretation protocol_scan: range_scan "protocol_step s name f"
  "\<lambda>p. (p = ProtocolTCP \<or> p = ProtocolUDP) \<and> (fst (match_address s f), p, snd (match_address s f)) \<notin> taken"
  "\<lambda>p q. p \<noteq> q"
  "\<lambda>b seen. fst b = set seen \<and>
     dom (snd b) = taken \<union> (\<lambda>p. (fst (match_address s f), p, snd (match_address s f))) ` set seen"
  for s name f taken
proof unfold_locales
  fix b :: "Protocol set \<times> (listen_key \<rightharpoonup> string)" and seen i p
  let ?key = "\<lambda>p. (fst (match_address s f), p, snd (match_address s f))"
  obtain P L where b: "b = (P, L)" by (cases b)
  obtain address port where m: "match_address s f = (address, port)" by (cases "match_address s f")
  assume tr: "fst b = set seen \<and> dom (snd b) = taken \<union> ?key ` set seen"
  then have P: "P = set seen" and L: "dom L = taken \<union> ?key ` set seen" by (simp_all add: b)
  have "(address, p, port) \<in> dom L \<longleftrightarrow> ?key p \<in> taken \<or> p \<in> set seen"
    unfolding L by (auto simp: m)
  then have taken_iff: "L (address, p, port) = None \<longleftrightarrow> ?key p \<notin> taken \<and> p \<notin> set seen"
    unfolding domIff by blast
  have silent_iff: "fst (protocol_step s name f i p b) = [] \<longleftrightarrow>
      (p = ProtocolTCP \<or> p = ProtocolUDP) \<and> p \<notin> P \<and> L (address, p, port) = None"
    by (cases "L (address, p, port)") (auto simp: protocol_step_def b m)
  then show "fst (protocol_step s name f i p b) = [] \<longleftrightarrow>
      ((p = ProtocolTCP \<or> p = ProtocolUDP) \<and> ?key p \<notin> taken) \<and> (\<forall>q\<in>set seen. q \<noteq> p)"
    using taken_iff P by blast
  assume "fst (protocol_step s name f i p b) = []"
  then have "snd (protocol_step s name f i p b) = (insert p P, L((address, p, port) \<mapsto> fw_ID f))"
    unfolding silent_iff by (auto simp: protocol_step_def b m)
  then show "fst (snd (protocol_step s name f i p b)) = set (seen @ [p]) \<and>
      dom (snd (snd (protocol_step s name f i p b))) = taken \<union> ?key ` set (seen @ [p])"
    by (simp add: P L m)
qed

definition path_ok :: "DesiredState \<Rightarrow> Prefix list \<Rightarrow> (string \<rightharpoonup> FabricLinkSpec) \<Rightarrow> ForwardSpec \<Rightarrow> bool" where
  "path_ok s cidrs links f \<longleftrightarrow>
     fw_PathMode f = PathDirect \<and> fw_ExitNodeID f = [] \<and> fw_ServiceVIP f = None \<and> fw_FabricLinkID f = [] \<and>
       fw_IngressNodeID f = ds_NodeID s \<or>
     fw_PathMode f = PathViaExit \<and> SchemaVersionV3 \<le> ds_SchemaVersion s \<and> validIdentifier (fw_ExitNodeID f) \<and>
       fw_ExitNodeID f \<noteq> fw_IngressNodeID f \<and> (ds_NodeID s = fw_IngressNodeID f \<or> ds_NodeID s = fw_ExitNodeID f) \<and>
       (\<exists>v. fw_ServiceVIP f = Some v \<and> usable4 v \<and> (\<exists>c\<in>set cidrs. Contains c (Unmap v))) \<and>
       validIdentifier (fw_FabricLinkID f) \<and>
       (\<exists>l. links (fw_FabricLinkID f) = Some l \<and>
          fl_PeerNodeID l = (if ds_NodeID s = fw_ExitNodeID f then fw_IngressNodeID f else fw_ExitNodeID f))"

definition snat_ok :: "SNATSpec \<Rightarrow> bool" where
  "snat_ok n \<longleftrightarrow> snat_Mode n = SNATMasquerade \<and> snat_Address n = None \<or>
     snat_Mode n = SNATStatic \<and> (\<exists>a. snat_Address n = Some a \<and> usable4 a)"

lemma snat_issues_Nil [issue_simps]: "snat_issues name n = [] \<longleftrightarrow> snat_ok n"
  by (auto simp: snat_issues_def snat_ok_def issue_simps split: option.splits)

definition apart_ok :: "Prefix list \<Rightarrow> ForwardSpec \<Rightarrow> bool" where
  "apart_ok cidrs f \<longleftrightarrow> (\<forall>c\<in>set cidrs. \<not> Contains c (Unmap (ep_Address (fw_Listen f))) \<and>
     \<not> Contains c (Unmap (ep_Address (fw_Target f))) \<and>
     (\<forall>a. snat_Address (fw_SNAT f) = Some a \<longrightarrow> \<not> Contains c (Unmap a)))"

lemma enumerate_ball: "(\<forall>x\<in>set (enumerate n xs). P (snd x)) \<longleftrightarrow> (\<forall>x\<in>set xs. P x)"
  by (metis (no_types, lifting) imageE imageI list.set_map map_snd_enumerate)

lemma forward_cidr_issues_Nil [issue_simps]: "forward_cidr_issues name f cidrs = [] \<longleftrightarrow> apart_ok cidrs f"
  unfolding apart_ok_def enumerate_ball [of 0 cidrs, symmetric]
  by (auto simp: forward_cidr_issues_def split: option.splits)

definition deadline_ok :: "DesiredState \<Rightarrow> ForwardSpec \<Rightarrow> bool" where
  "deadline_ok s f \<longleftrightarrow>
     (\<forall>t. fw_ExpiresAt f = Some t \<longrightarrow> \<not> IsZero t) \<and>
     (if fw_Lifecycle f = LifecycleDraining then \<exists>t. fw_DrainDeadline f = Some t \<and> \<not> IsZero t else fw_DrainDeadline f = None) \<and>
     (ds_SchemaVersion s = SchemaVersionV1 \<longrightarrow> fw_TrafficClassID f = 0 \<and> fw_RateLimit f = None \<and> fw_TrafficQuota f = None \<and>
        fw_ExpiresAt f = None \<and> fw_DrainDeadline f = None \<and> fw_Lifecycle f \<noteq> LifecycleForceDeleting)"

lemma deadline_issues_Nil [issue_simps]: "deadline_issues s name f = [] \<longleftrightarrow> deadline_ok s f"
  by (auto simp: deadline_issues_def deadline_ok_def split: option.splits if_splits)

definition lifecycle_ok :: "Lifecycle \<Rightarrow> bool" where
  "lifecycle_ok l \<longleftrightarrow> l \<in> {LifecycleActive, LifecyclePaused, LifecycleDraining, LifecycleForceDeleting}"

text \<open>A forward by itself, given the service networks, the links and the traffic classes that user
  policies have taken.\<close>

definition forward_ok :: "DesiredState \<Rightarrow> Prefix list \<Rightarrow> (string \<rightharpoonup> FabricLinkSpec) \<Rightarrow> u16 set \<Rightarrow> ForwardSpec \<Rightarrow> bool" where
  "forward_ok s cidrs links classes f \<longleftrightarrow>
     validIdentifier (fw_ID f) \<and> validIdentifier (fw_UserID f) \<and> validIdentifier (fw_IngressNodeID f) \<and>
     fw_ResourceVersion f \<noteq> 0 \<and> class_ok (fw_TrafficClassID f) \<and> fw_TrafficClassID f \<notin> classes \<and>
     endpoint_ok (fw_Listen f) \<and> endpoint_ok (fw_Target f) \<and>
     fw_Protocols f \<noteq> [] \<and> distinct (fw_Protocols f) \<and> set (fw_Protocols f) \<subseteq> {ProtocolTCP, ProtocolUDP} \<and>
     path_ok s cidrs links f \<and> lifecycle_ok (fw_Lifecycle f) \<and> snat_ok (fw_SNAT f) \<and>
     rate_ok (fw_RateLimit f) \<and> quota_ok (fw_TrafficQuota f) \<and> apart_ok cidrs f \<and> deadline_ok s f"

definition forward_compat :: "DesiredState \<Rightarrow> ForwardSpec \<Rightarrow> ForwardSpec \<Rightarrow> bool" where
  "forward_compat s f g \<longleftrightarrow> fw_ID f \<noteq> fw_ID g \<and> class_compat (fw_TrafficClassID f) (fw_TrafficClassID g) \<and>
     listen_keys s f \<inter> listen_keys s g = {} \<and> (vip_of f = None \<or> vip_of f \<noteq> vip_of g)"

definition forward_tracks :: "DesiredState \<Rightarrow> u16 set \<Rightarrow> forward_books \<Rightarrow> ForwardSpec list \<Rightarrow> bool" where
  "forward_tracks s classes b seen \<longleftrightarrow> vb_ids b = fw_ID ` set seen \<and>
     dom (vb_classes b) = classes \<union> (fw_TrafficClassID ` set seen - {0}) \<and>
     dom (vb_listeners b) = (\<Union>f\<in>set seen. listen_keys s f) \<and>
     dom (vb_vips b) = {v. \<exists>f\<in>set seen. vip_of f = Some v} \<and> ran (vb_vips b) \<subseteq> vb_ids b"

lemma path_step_silent:
  assumes "fw_ID f \<notin> ran vips"
  shows "fst (path_step s cidrs links name f vips) = [] \<longleftrightarrow>
     path_ok s cidrs links f \<and> (\<forall>v. vip_of f = Some v \<longrightarrow> vips v = None)"
proof -
  have own: "vips v = Some w \<Longrightarrow> w \<noteq> fw_ID f" for v w using assms by (auto simp: ran_def)
  show ?thesis
    using own
    by (auto simp: path_step_def direct_issues_def vip_step_def forward_link_issues_def path_ok_def vip_of_def
        Let_def issue_simps list_ex_iff not_less split: option.splits if_splits)
qed

lemma path_step_vips:
  assumes "fst (path_step s cidrs links name f vips) = []"
  shows "snd (path_step s cidrs links name f vips) = (case vip_of f of None \<Rightarrow> vips | Some v \<Rightarrow> vips(v \<mapsto> fw_ID f))"
  using assms
  by (auto simp: path_step_def vip_step_def vip_of_def Let_def split: option.splits if_splits)

lemma forward_step_split:
  "fst (forward_step s cidrs links i f b) = [] \<longleftrightarrow>
     (let name = indexed ''forwards'' i in
      validIdentifier (fw_ID f) \<and> fw_ID f \<notin> vb_ids b \<and> validIdentifier (fw_UserID f) \<and> validIdentifier (fw_IngressNodeID f) \<and>
      fw_ResourceVersion f \<noteq> 0 \<and> fst (class_step name (fw_TrafficClassID f) (vb_classes b)) = [] \<and>
      endpoint_ok (fw_Listen f) \<and> endpoint_ok (fw_Target f) \<and> fw_Protocols f \<noteq> [] \<and>
      fst (range_issues (protocol_step s name f) 0 ({}, vb_listeners b) (fw_Protocols f)) = [] \<and>
      fst (path_step s cidrs links name f (vb_vips b)) = [] \<and> lifecycle_ok (fw_Lifecycle f) \<and> snat_ok (fw_SNAT f) \<and>
      rate_ok (fw_RateLimit f) \<and> quota_ok (fw_TrafficQuota f) \<and> apart_ok cidrs f \<and> deadline_ok s f)"
  by (auto simp: forward_step_def Let_def issue_simps lifecycle_ok_def split: prod.splits)

lemma forward_step_books:
  assumes "fst (forward_step s cidrs links i f b) = []"
  shows "snd (forward_step s cidrs links i f b) =
     (let name = indexed ''forwards'' i in
      \<lparr>vb_ids = insert (fw_ID f) (vb_ids b), vb_classes = snd (class_step name (fw_TrafficClassID f) (vb_classes b)),
       vb_listeners = snd (snd (range_issues (protocol_step s name f) 0 ({}, vb_listeners b) (fw_Protocols f))),
       vb_vips = snd (path_step s cidrs links name f (vb_vips b))\<rparr>)"
  using assms unfolding forward_step_split
  by (auto simp: forward_step_def Let_def split: prod.splits)

lemma two_subset: "A \<subseteq> {a, b} \<longleftrightarrow> (\<forall>x\<in>A. x = a \<or> x = b)"
  by auto

lemma protocols_silent:
  "fst (range_issues (protocol_step s name f) 0 ({}, L) (fw_Protocols f)) = [] \<longleftrightarrow>
     set (fw_Protocols f) \<subseteq> {ProtocolTCP, ProtocolUDP} \<and> distinct (fw_Protocols f) \<and> listen_keys s f \<inter> dom L = {}"
proof -
  have "listen_keys s f \<inter> dom L = {} \<longleftrightarrow>
      (\<forall>p\<in>set (fw_Protocols f). (fst (match_address s f), p, snd (match_address s f)) \<notin> dom L)"
    unfolding listen_keys_def by blast
  then show ?thesis
    using protocol_scan.scan_silent [where st = "({}, L)" and seen = "[]" and s = s and f = f and taken = "dom L"
      and name = name and i = 0 and xs = "fw_Protocols f"]
    by (simp add: distinct_sorted_wrt two_subset ball_conj_distrib conj_ac del: domIff)
qed

lemma protocols_tracked:
  "fst (range_issues (protocol_step s name f) 0 ({}, L) (fw_Protocols f)) = [] \<Longrightarrow>
   dom (snd (snd (range_issues (protocol_step s name f) 0 ({}, L) (fw_Protocols f)))) = dom L \<union> listen_keys s f"
  using protocol_scan.scan_tracks [where st = "({}, L)" and seen = "[]" and s = s and f = f and taken = "dom L" and name = name
      and i = 0 and xs = "fw_Protocols f"]
  by (auto simp: listen_keys_def)

interpretation forward_scan: range_scan "forward_step s cidrs links" "forward_ok s cidrs links (classes - {0})"
  "forward_compat s" "forward_tracks s (classes - {0})"
  for s cidrs links classes
proof unfold_locales
  fix b :: forward_books and seen i and f :: ForwardSpec
  let ?n = "indexed ''forwards'' i"
  assume tr: "forward_tracks s (classes - {0}) b seen"
  have ids: "fw_ID f \<notin> vb_ids b \<longleftrightarrow> (\<forall>g\<in>set seen. fw_ID g \<noteq> fw_ID f)"
    using tr by (simp add: forward_tracks_def notin_image_iff)
  have cls: "fst (class_step ?n (fw_TrafficClassID f) (vb_classes b)) = [] \<longleftrightarrow>
      class_ok (fw_TrafficClassID f) \<and> fw_TrafficClassID f \<notin> classes - {0} \<and>
      (\<forall>g\<in>set seen. class_compat (fw_TrafficClassID g) (fw_TrafficClassID f))"
  proof -
    have "dom (vb_classes b) = (classes - {0}) \<union> (fw_TrafficClassID ` set seen - {0})"
      using tr by (simp add: forward_tracks_def)
    then have "fw_TrafficClassID f \<notin> dom (vb_classes b) \<longleftrightarrow> fw_TrafficClassID f \<notin> classes - {0} \<and>
        (fw_TrafficClassID f = 0 \<or> (\<forall>g\<in>set seen. fw_TrafficClassID g \<noteq> fw_TrafficClassID f))"
      by (simp add: notin_image_iff del: domIff) blast
    then show ?thesis unfolding class_step_silent class_compat_def
      by (cases "fw_TrafficClassID f = 0") (auto simp: class_ok_def simp del: domIff)
  qed
  have listen: "listen_keys s f \<inter> dom (vb_listeners b) = {} \<longleftrightarrow> (\<forall>g\<in>set seen. listen_keys s g \<inter> listen_keys s f = {})"
    using tr by (auto simp: forward_tracks_def simp del: domIff)
  have vips: "(\<forall>v. vip_of f = Some v \<longrightarrow> vb_vips b v = None) \<longleftrightarrow>
      (\<forall>g\<in>set seen. vip_of g = None \<or> vip_of g \<noteq> vip_of f)"
  proof -
    have "vb_vips b v = None \<longleftrightarrow> (\<forall>g\<in>set seen. vip_of g \<noteq> Some v)" for v
    proof -
      have "v \<in> dom (vb_vips b) \<longleftrightarrow> (\<exists>g\<in>set seen. vip_of g = Some v)"
        using tr unfolding forward_tracks_def by blast
      then show ?thesis unfolding domIff by blast
    qed
    then show ?thesis by (cases "vip_of f") auto
  qed
  have "fw_ID f \<notin> ran (vb_vips b)" if "fw_ID f \<notin> vb_ids b"
    using that tr by (auto simp: forward_tracks_def)
  then show "fst (forward_step s cidrs links i f b) = [] \<longleftrightarrow>
      forward_ok s cidrs links (classes - {0}) f \<and> (\<forall>g\<in>set seen. forward_compat s g f)"
    unfolding forward_step_split Let_def protocols_silent cls listen
    by (cases "fw_ID f \<in> vb_ids b")
      (use ids vips in \<open>simp_all add: path_step_silent forward_ok_def forward_compat_def, blast+\<close>)
next
  fix b :: forward_books and seen i and f :: ForwardSpec
  assume tr: "forward_tracks s (classes - {0}) b seen" and silent: "fst (forward_step s cidrs links i f b) = []"
  have parts: "fst (class_step (indexed ''forwards'' i) (fw_TrafficClassID f) (vb_classes b)) = []"
    "fst (range_issues (protocol_step s (indexed ''forwards'' i) f) 0 ({}, vb_listeners b) (fw_Protocols f)) = []"
    "fst (path_step s cidrs links (indexed ''forwards'' i) f (vb_vips b)) = []" "fw_ID f \<notin> vb_ids b"
    using silent unfolding forward_step_split Let_def by blast+
  have "ran (vb_vips b) \<subseteq> vb_ids b" using tr unfolding forward_tracks_def by blast
  then have "ran (case vip_of f of None \<Rightarrow> vb_vips b | Some v \<Rightarrow> (vb_vips b)(v \<mapsto> fw_ID f)) \<subseteq> insert (fw_ID f) (vb_ids b)"
    by (auto simp: ran_def split: option.splits if_splits)
  moreover have "dom (case vip_of f of None \<Rightarrow> vb_vips b | Some v \<Rightarrow> (vb_vips b)(v \<mapsto> fw_ID f)) =
      {v. vip_of f = Some v} \<union> dom (vb_vips b)"
    by (auto split: option.splits)
  ultimately show "forward_tracks s (classes - {0}) (snd (forward_step s cidrs links i f b)) (seen @ [f])"
    using tr class_step_dom [OF parts(1)] protocols_tracked [OF parts(2)] path_step_vips [OF parts(3)]
    unfolding forward_tracks_def forward_step_books [OF silent] Let_def
    by (auto simp del: domIff)
qed

section \<open>The whole state\<close>

definition header_ok :: "DesiredState \<Rightarrow> bool" where
  "header_ok s \<longleftrightarrow> SupportedSchemaVersion (ds_SchemaVersion s) \<and> validIdentifier (ds_NodeID s) \<and> ds_Generation s \<noteq> 0 \<and>
     (ds_ManagementDomain s \<noteq> [] \<longrightarrow> SchemaVersionV4 \<le> ds_SchemaVersion s \<and> validIdentifier (ds_ManagementDomain s)) \<and>
     length (ds_Forwards s) \<le> MaxForwardsPerSnapshot \<and> length (ds_FabricLinks s) \<le> MaxFabricLinksPerSnapshot \<and>
     length (ds_ServiceCIDRs s) \<le> MaxServiceCIDRsPerSnapshot \<and> length (ds_HealthChecks s) \<le> MaxHealthChecksPerSnapshot"

lemma header_issues_Nil: "header_issues s = [] \<longleftrightarrow> header_ok s"
  by (auto simp: header_issues_def header_ok_def not_less)

definition version_ok :: "DesiredState \<Rightarrow> bool" where
  "version_ok s \<longleftrightarrow>
     (ds_ServiceCIDRs s \<noteq> [] \<or> ds_FabricLinks s \<noteq> [] \<longrightarrow> SchemaVersionV3 \<le> ds_SchemaVersion s) \<and>
     (ds_HealthChecks s \<noteq> [] \<longrightarrow> SchemaVersionV4 \<le> ds_SchemaVersion s) \<and>
     (\<forall>p. ds_ProtocolBlocks s = Some p \<and> ProtocolBlockPolicy_Any p \<longrightarrow> SchemaVersionV5 \<le> ds_SchemaVersion s) \<and>
     (ds_UserPolicies s \<noteq> [] \<longrightarrow> ds_SchemaVersion s \<noteq> SchemaVersionV1)"

definition service_nets :: "DesiredState \<Rightarrow> Prefix list" where
  "service_nets s = map canonicalPrefix (ds_ServiceCIDRs s)"

definition link_map :: "FabricLinkSpec list \<Rightarrow> string \<rightharpoonup> FabricLinkSpec" where
  "link_map ls = map_of (map (\<lambda>l. (fl_ID l, l)) ls)"

definition policy_classes :: "DesiredState \<Rightarrow> u16 set" where
  "policy_classes s = up_TrafficClassID ` set (ds_UserPolicies s)"

definition well_formed :: "DesiredState \<Rightarrow> bool" where
  "well_formed s \<longleftrightarrow> header_ok s \<and> version_ok s \<and>
     (\<forall>p\<in>set (ds_ServiceCIDRs s). service_cidr_ok p) \<and>
     sorted_wrt (\<lambda>p q. \<not> prefixesOverlap (canonicalPrefix q) (canonicalPrefix p)) (ds_ServiceCIDRs s) \<and>
     (\<forall>l\<in>set (ds_FabricLinks s). link_ok s (service_nets s) l) \<and> sorted_wrt link_compat (ds_FabricLinks s) \<and>
     (\<forall>h\<in>set (ds_HealthChecks s). health_ok (service_nets s) h) \<and>
     distinct (map (\<lambda>h. (hc_PoolID h, hc_BackendID h)) (ds_HealthChecks s)) \<and>
     (\<forall>p\<in>set (ds_UserPolicies s). policy_ok p) \<and> sorted_wrt policy_compat (ds_UserPolicies s) \<and>
     (\<forall>f\<in>set (ds_Forwards s).
        forward_ok s (service_nets s) (link_map (ds_FabricLinks s)) (policy_classes s - {0}) f) \<and>
     sorted_wrt (forward_compat s) (ds_Forwards s)"

lemma links_tracks_link_map:
  assumes "links_tracks m ls" and "sorted_wrt link_compat ls"
  shows "m = link_map ls"
proof
  fix k
  have inj: "distinct (map fst (map (\<lambda>l. (fl_ID l, l)) ls))"
    using assms(2) by (auto simp: distinct_map_sorted_wrt comp_def link_compat_def elim: sorted_wrt_mono_rel [rotated])
  show "m k = link_map ls k"
  proof (cases "m k")
    case None
    then have "\<forall>l\<in>set ls. fl_ID l \<noteq> k" by (simp add: owned_None [OF assms(1)])
    then have "link_map ls k = None" by (auto simp: link_map_def map_of_eq_None_iff)
    with None show ?thesis by simp
  next
    case (Some l)
    then have "l \<in> set ls" "fl_ID l = k" using owned_Some_ex [OF assms(1) Some] by auto
    then have "link_map ls k = Some l" using inj by (auto simp: link_map_def)
    with Some show ?thesis by simp
  qed
qed

text \<open>The issue list of a loop is empty exactly under the loop's condition, and the bookkeeping it
  hands on is the declarative one.\<close>

lemma cidr_loop:
  "fst (range_issues service_cidr_step 0 [] cs) = [] \<longleftrightarrow> (\<forall>p\<in>set cs. service_cidr_ok p) \<and>
     sorted_wrt (\<lambda>p q. \<not> prefixesOverlap (canonicalPrefix q) (canonicalPrefix p)) cs"
  using cidr_scan.scan_silent [of "[]" "[]" 0 cs] by simp

lemma cidr_loop_nets:
  "fst (range_issues service_cidr_step 0 [] (ds_ServiceCIDRs s)) = [] \<Longrightarrow>
   snd (range_issues service_cidr_step 0 [] (ds_ServiceCIDRs s)) = service_nets s"
  using cidr_scan.scan_tracks [of "[]" "[]" 0 "ds_ServiceCIDRs s"] by (simp add: service_nets_def)

lemma no_links_tracks: "link_tracks no_links []"
  by (simp add: link_tracks_def no_links_def)

lemma link_loop:
  "fst (range_issues (fabric_link_step s cidrs) 0 no_links ls) = [] \<longleftrightarrow>
     (\<forall>l\<in>set ls. link_ok s cidrs l) \<and> sorted_wrt link_compat ls"
  using link_scan.scan_silent [OF no_links_tracks, of s cidrs 0 ls] by simp

lemma link_loop_map:
  "fst (range_issues (fabric_link_step s cidrs) 0 no_links ls) = [] \<Longrightarrow>
   lb_links (snd (range_issues (fabric_link_step s cidrs) 0 no_links ls)) = link_map ls"
  using link_scan.scan_tracks [OF no_links_tracks, of s cidrs 0 ls] link_loop [of s cidrs ls]
  by (intro links_tracks_link_map) (simp_all add: link_tracks_def)

lemma health_loop:
  "fst (range_issues (health_check_step cidrs) 0 {} hs) = [] \<longleftrightarrow>
     (\<forall>h\<in>set hs. health_ok cidrs h) \<and> distinct (map (\<lambda>h. (hc_PoolID h, hc_BackendID h)) hs)"
  using health_scan.scan_silent [of "{}" "[]" cidrs 0 hs] by (simp add: distinct_map_sorted_wrt)

abbreviation no_policies :: policy_books where
  "no_policies \<equiv> \<lparr>ub_users = {}, ub_classes = Map.empty\<rparr>"

abbreviation no_forwards :: "(u16 \<rightharpoonup> string) \<Rightarrow> forward_books" where
  "no_forwards m \<equiv> \<lparr>vb_ids = {}, vb_classes = m, vb_listeners = Map.empty, vb_vips = Map.empty\<rparr>"

lemma policy_loop:
  "fst (range_issues user_policy_step 0 no_policies ps) = [] \<longleftrightarrow> (\<forall>p\<in>set ps. policy_ok p) \<and> sorted_wrt policy_compat ps"
  using policy_scan.scan_silent [of no_policies "[]" 0 ps] by (simp add: policy_tracks_def)

lemma policy_loop_classes:
  "fst (range_issues user_policy_step 0 no_policies ps) = [] \<Longrightarrow>
   dom (ub_classes (snd (range_issues user_policy_step 0 no_policies ps))) = up_TrafficClassID ` set ps - {0}"
  using policy_scan.scan_tracks [of no_policies "[]" 0 ps] by (simp add: policy_tracks_def)

lemma forward_loop:
  "dom m = classes - {0} \<Longrightarrow>
   fst (range_issues (forward_step s cidrs links) 0 (no_forwards m) fs) = [] \<longleftrightarrow>
     (\<forall>f\<in>set fs. forward_ok s cidrs links (classes - {0}) f) \<and> sorted_wrt (forward_compat s) fs"
  using forward_scan.scan_silent [of s classes "no_forwards m" "[]" cidrs links 0 fs] by (simp add: forward_tracks_def)

lemma Validate_split:
  "Validate s = [] \<longleftrightarrow> header_ok s \<and> version_ok s \<and>
     (let (i2, cidrs) = range_issues service_cidr_step 0 [] (ds_ServiceCIDRs s);
          (i4, lb) = range_issues (fabric_link_step s cidrs) 0 no_links (ds_FabricLinks s);
          (i6, ub) = range_issues user_policy_step 0 no_policies (ds_UserPolicies s)
      in i2 = [] \<and> i4 = [] \<and> fst (range_issues (health_check_step cidrs) 0 {} (ds_HealthChecks s)) = [] \<and> i6 = [] \<and>
         fst (range_issues (forward_step s cidrs (lb_links lb)) 0 (no_forwards (ub_classes ub)) (ds_Forwards s)) = [])"
  by (auto simp: Validate_def Let_def header_issues_Nil version_issues_def version_ok_def not_less
      split: option.splits prod.splits)

lemma Validate_well_formed: "Validate s = [] \<longleftrightarrow> well_formed s"
proof -
  obtain i2 cidrs where cidr: "range_issues service_cidr_step 0 [] (ds_ServiceCIDRs s) = (i2, cidrs)" by fastforce
  obtain i4 lb where links: "range_issues (fabric_link_step s cidrs) 0 no_links (ds_FabricLinks s) = (i4, lb)" by fastforce
  obtain i6 ub where pol: "range_issues user_policy_step 0 no_policies (ds_UserPolicies s) = (i6, ub)" by fastforce
  have cidrs: "i2 = [] \<Longrightarrow> cidrs = service_nets s" and lmap: "i4 = [] \<Longrightarrow> lb_links lb = link_map (ds_FabricLinks s)"
    and cls: "i6 = [] \<Longrightarrow> dom (ub_classes ub) = policy_classes s - {0}"
    using cidr_loop_nets [of s] link_loop_map [of s cidrs "ds_FabricLinks s"] policy_loop_classes [of "ds_UserPolicies s"]
    by (simp_all add: cidr links pol policy_classes_def)
  have loops: "i2 = [] \<longleftrightarrow> (\<forall>p\<in>set (ds_ServiceCIDRs s). service_cidr_ok p) \<and>
        sorted_wrt (\<lambda>p q. \<not> prefixesOverlap (canonicalPrefix q) (canonicalPrefix p)) (ds_ServiceCIDRs s)"
      "i4 = [] \<longleftrightarrow> (\<forall>l\<in>set (ds_FabricLinks s). link_ok s cidrs l) \<and> sorted_wrt link_compat (ds_FabricLinks s)"
      "i6 = [] \<longleftrightarrow> (\<forall>p\<in>set (ds_UserPolicies s). policy_ok p) \<and> sorted_wrt policy_compat (ds_UserPolicies s)"
    using cidr_loop [of "ds_ServiceCIDRs s"] link_loop [of s cidrs "ds_FabricLinks s"] policy_loop [of "ds_UserPolicies s"]
    by (simp_all add: cidr links pol)
  have split: "Validate s = [] \<longleftrightarrow> header_ok s \<and> version_ok s \<and> i2 = [] \<and> i4 = [] \<and>
      fst (range_issues (health_check_step cidrs) 0 {} (ds_HealthChecks s)) = [] \<and> i6 = [] \<and>
      fst (range_issues (forward_step s cidrs (lb_links lb)) 0 (no_forwards (ub_classes ub)) (ds_Forwards s)) = []"
    unfolding Validate_split by (simp add: cidr links pol)
  show ?thesis
  proof (cases "i2 = [] \<and> i4 = [] \<and> i6 = []")
    case True
    then show ?thesis using loops
      unfolding split well_formed_def health_loop by (simp add: cidrs lmap forward_loop [OF cls])
  next
    case False
    moreover have "i2 = [] \<and> i4 = [] \<and> i6 = []" if "well_formed s"
    proof -
      have i2: "i2 = []" using that unfolding loops(1) well_formed_def by blast
      show ?thesis using i2 that unfolding loops(2,3) cidrs [OF i2] well_formed_def by blast
    qed
    ultimately show ?thesis unfolding split by blast
  qed
qed

end
