(* ===== verification/Spec_Guarantees.thy ===== *)
theory Spec_Guarantees
  imports Spec_WellFormed
begin

text \<open>
  What a node may rely on once \<open>Validate\<close> has accepted a desired state: service networks are
  disjoint sets of addresses, no two forwards share a socket, a traffic class or a service
  address, and a forward over an exit node has a usable link to the opposite node.
\<close>

section \<open>Service networks as sets of addresses\<close>

definition net4 :: "Prefix \<Rightarrow> u32 set" where
  "net4 p = {a. Contains (canonicalPrefix p) (Addr4 a)}"

lemma service_net_canonical:
  assumes "service_net p w b"
  shows "canonicalPrefix (canonicalPrefix p) = canonicalPrefix p"
proof -
  have c: "canonicalPrefix p = Prefix (Addr4 w) (int b)" and b: "b \<le> 32"
    using assms by (auto simp: service_net_def)
  have v: "Prefix_IsValid p"
    using assms by (auto simp: service_net_def canonicalPrefix_def Prefix_IsValid_def split: if_splits)
  define bits where "bits = (if Is4In6 (pfx_Addr p) then pfx_Bits p - 96 else pfx_Bits p)"
  have "Unmap (pfx_Addr p) = Addr4 w" using assms by (simp add: service_net_def)
  then have u: "canonicalPrefix p = Masked (PrefixFrom (Addr4 w) bits)"
    using v by (simp add: canonicalPrefix_def Let_def bits_def)
  have "0 \<le> bits \<and> bits \<le> 32"
  proof (rule ccontr)
    assume "\<not> ?thesis"
    with u c show False by (auto simp: PrefixFrom_def Masked_def NoPrefix_def)
  qed
  with u c have m: "Masked (Prefix (Addr4 w) (int b)) = Prefix (Addr4 w) (int b)"
    by (auto simp: PrefixFrom_def Masked_4)
  show ?thesis
    using b by (simp add: c) (simp add: canonicalPrefix_def Prefix_IsValid_def PrefixFrom_def m)
qed

lemma net4_prefix4: "service_net p w b \<Longrightarrow> net4 p = prefix4 w b"
  by (auto simp: net4_def service_net_def Contains_prefix4)

lemma overlap_net4:
  assumes "service_net p w b" and "service_net q v c"
  shows "prefixesOverlap (canonicalPrefix p) (canonicalPrefix q) \<longleftrightarrow> net4 p \<inter> net4 q \<noteq> {}"
proof -
  have "canonicalPrefix p = Prefix (Addr4 w) (int b)" "canonicalPrefix q = Prefix (Addr4 v) (int c)"
    using assms by (auto simp: service_net_def)
  then show ?thesis
    using service_net_canonical [OF assms(1)] service_net_canonical [OF assms(2)]
    by (simp add: prefixesOverlap_def Prefix_IsValid_def Contains_prefix4 net4_prefix4 [OF assms(1)]
        net4_prefix4 [OF assms(2)] prefix4_meet_iff)
qed

section \<open>A sample state\<close>

text \<open>An ingress node with a direct layer-3 link to its exit node, two service networks, a user
  policy and two relayed forwards; the concrete input of the witnesses.\<close>

definition sample_link :: FabricLinkSpec where
  "sample_link = \<lparr>fl_ID = ''link-a'', fl_PeerNodeID = ''exit-1'', fl_Transport = FabricDirectL3, fl_Interface = ''eth1'',
     fl_LocalAddress = Prefix (Addr4 0x0A000001) 24, fl_PeerAddress = Addr4 0x0A000002, fl_MTU = 1420, fl_RoutingID = 7,
     fl_Trusted = True, fl_WireGuard = None, fl_GRE = None, fl_ResourceVersion = 1\<rparr>"

definition sample_forward :: "string \<Rightarrow> u32 \<Rightarrow> u16 \<Rightarrow> u16 \<Rightarrow> ForwardSpec" where
  "sample_forward name vip port class =
     \<lparr>fw_ID = name, fw_UserID = ''user-1'', fw_Protocols = [ProtocolTCP, ProtocolUDP], fw_IngressNodeID = ''ingress-1'',
      fw_ExitNodeID = ''exit-1'', fw_Listen = \<lparr>ep_Address = Addr4 0xCB007105, ep_Hostname = [], ep_Port = port\<rparr>,
      fw_Target = \<lparr>ep_Address = Addr4 0xC6336407, ep_Hostname = [], ep_Port = 443\<rparr>,
      fw_ServiceVIP = Some (Addr4 vip), fw_FabricLinkID = ''link-a'', fw_PathMode = PathViaExit,
      fw_SNAT = \<lparr>snat_Mode = SNATMasquerade, snat_Address = None\<rparr>, fw_TrafficClassID = class, fw_RateLimit = None,
      fw_TrafficQuota = None, fw_ExpiresAt = None, fw_DrainDeadline = None, fw_Lifecycle = LifecycleActive,
      fw_ResourceVersion = 1\<rparr>"

definition sample_check :: "string \<Rightarrow> HealthCheckSpec" where
  "sample_check backend = \<lparr>hc_PoolID = ''pool'', hc_BackendID = backend,
     hc_Endpoint = \<lparr>ep_Address = Addr4 0xC6336408, ep_Hostname = [], ep_Port = 80\<rparr>, hc_Protocol = ProtocolTCP,
     hc_IntervalSeconds = 10, hc_TimeoutMilliseconds = 1000, hc_FailureThreshold = 3, hc_SuccessThreshold = 2, hc_ResourceVersion = 1\<rparr>"

definition sample_state :: DesiredState where
  "sample_state =
     \<lparr>ds_SchemaVersion = SchemaVersionV5, ds_NodeID = ''ingress-1'', ds_Generation = 1, ds_ManagementDomain = [],
      ds_ServiceCIDRs = [Prefix (Addr4 0x0A4B0000) 16, Prefix (Addr4 0x0A4C0000) 16], ds_FabricLinks = [sample_link],
      ds_HealthChecks = [sample_check ''b1'', sample_check ''b2''],
      ds_UserPolicies = [\<lparr>up_UserID = ''user-1'', up_TrafficClassID = 10,
        up_RateLimit = Some \<lparr>rl_IngressBitsPerSecond = 8000000, rl_EgressBitsPerSecond = 0, rl_BurstBytes = 65536\<rparr>,
        up_TrafficQuota = None, up_ResourceVersion = 1\<rparr>],
      ds_ProtocolBlocks = None,
      ds_Forwards = [sample_forward ''forward-a'' 0x0A4B0001 8443 11, sample_forward ''forward-b'' 0x0A4B0002 9443 12]\<rparr>"

lemma sample_header: "header_ok sample_state"
  by (simp add: header_ok_def sample_state_def MaxForwardsPerSnapshot_def MaxFabricLinksPerSnapshot_def
      MaxServiceCIDRsPerSnapshot_def MaxHealthChecksPerSnapshot_def SupportedSchemaVersion_def) code_simp

lemma sample_version: "version_ok sample_state"
  by (simp add: version_ok_def sample_state_def)

lemma sample_valid: "Validate sample_state = []"
  unfolding Validate_split by (intro conjI sample_header sample_version) code_simp

section \<open>Traffic classes\<close>

lemma well_formed_classes:
  assumes wf: "well_formed s"
  shows "distinct (filter (\<lambda>c. c \<noteq> 0) (map up_TrafficClassID (ds_UserPolicies s) @ map fw_TrafficClassID (ds_Forwards s)))
    \<and> (\<forall>p\<in>set (ds_UserPolicies s). up_TrafficClassID p \<notin> {1, 65535})
    \<and> (\<forall>f\<in>set (ds_Forwards s). fw_TrafficClassID f \<notin> {1, 65535})"
proof -
  have filter_distinct: "distinct (filter (\<lambda>c. c \<noteq> 0) (map g xs))"
    if "sorted_wrt R xs" and "\<And>x y. R x y \<Longrightarrow> class_compat (g x) (g y)" for R g and xs :: "'b list"
    using that(1) by (induction xs) (auto dest!: that(2) simp: class_compat_def)
  have "distinct (filter (\<lambda>c. c \<noteq> 0) (map up_TrafficClassID (ds_UserPolicies s)))"
    using wf by (intro filter_distinct [of policy_compat]) (auto simp: well_formed_def policy_compat_def)
  moreover have "distinct (filter (\<lambda>c. c \<noteq> 0) (map fw_TrafficClassID (ds_Forwards s)))"
    using wf by (intro filter_distinct [of "forward_compat s"]) (auto simp: well_formed_def forward_compat_def)
  moreover have "fw_TrafficClassID f \<notin> {1, 65535}"
    "p \<in> set (ds_UserPolicies s) \<Longrightarrow> up_TrafficClassID p = fw_TrafficClassID f \<Longrightarrow> fw_TrafficClassID f = 0"
    if "f \<in> set (ds_Forwards s)" for f p
  proof -
    have "fw_TrafficClassID f \<notin> policy_classes s - {0}" "class_ok (fw_TrafficClassID f)"
      using wf that by (simp_all add: well_formed_def forward_ok_def)
    then show "fw_TrafficClassID f \<notin> {1, 65535}"
      "p \<in> set (ds_UserPolicies s) \<Longrightarrow> up_TrafficClassID p = fw_TrafficClassID f \<Longrightarrow> fw_TrafficClassID f = 0"
      unfolding class_ok_def policy_classes_def by (blast, metis DiffI imageI singletonD)
  qed
  moreover have "up_TrafficClassID p \<notin> {1, 65535}" if "p \<in> set (ds_UserPolicies s)" for p
    using wf that by (auto simp: well_formed_def policy_ok_def class_ok_def)
  ultimately show ?thesis by auto
qed

section \<open>Properties of accepted states\<close>

text \<open>C3. \<open>Validate\<close> decides well-formedness: it reports no issue exactly for the states that
  satisfy every per-object condition and every pairwise condition, whatever the order in which its
  loops fill their maps.\<close>

theorem Validate_decides: "Validate s = [] \<longleftrightarrow> well_formed s"
  by (rule Validate_well_formed)

text \<open>C27. The service networks of an accepted state are non-empty, pairwise disjoint sets of IPv4
  addresses, so a service address belongs to exactly one of them.\<close>

theorem accepted_networks_disjoint:
  assumes "Validate s = []"
  shows "(\<forall>p\<in>set (ds_ServiceCIDRs s). net4 p \<noteq> {}) \<and>
    (\<forall>i j. i < j \<and> j < length (ds_ServiceCIDRs s) \<longrightarrow> net4 (ds_ServiceCIDRs s ! i) \<inter> net4 (ds_ServiceCIDRs s ! j) = {})"
proof -
  have wf: "well_formed s" using assms by (simp add: Validate_well_formed)
  have net: "\<exists>w b. service_net p w b" if "p \<in> set (ds_ServiceCIDRs s)" for p
    using wf that by (auto simp: well_formed_def service_cidr_ok_def)
  have "net4 (ds_ServiceCIDRs s ! i) \<inter> net4 (ds_ServiceCIDRs s ! j) = {}" if ij: "i < j" "j < length (ds_ServiceCIDRs s)" for i j
  proof -
    let ?p = "ds_ServiceCIDRs s ! i" and ?q = "ds_ServiceCIDRs s ! j"
    obtain w b v c where nets: "service_net ?p w b" "service_net ?q v c" using net [of ?p] net [of ?q] ij by auto
    have "\<not> prefixesOverlap (canonicalPrefix ?q) (canonicalPrefix ?p)"
      using wf ij unfolding well_formed_def by (auto simp: sorted_wrt_iff_nth_less)
    then show ?thesis using overlap_net4 [OF nets(2,1)] by blast
  qed
  moreover have "net4 p \<noteq> {}" if "p \<in> set (ds_ServiceCIDRs s)" for p
    using net [OF that] net4_prefix4 prefix4_self by blast
  ultimately show ?thesis by blast
qed

theorem accepted_networks_disjoint_witness:
  "net4 (ds_ServiceCIDRs sample_state ! 0) \<inter> net4 (ds_ServiceCIDRs sample_state ! 1) = {} \<and> net4 (ds_ServiceCIDRs sample_state ! 1) \<noteq> {}"
proof -
  have "length (ds_ServiceCIDRs sample_state) = 2" by (simp add: sample_state_def)
  with accepted_networks_disjoint [OF sample_valid] show ?thesis by simp
qed

text \<open>C28. No two forwards of an accepted state claim the same socket of the node (address, protocol
  and port, where the exit side of a relayed forward listens on the service address).\<close>

theorem accepted_listeners_distinct:
  assumes "Validate s = []" and "i < j" and "j < length (ds_Forwards s)"
  shows "listen_keys s (ds_Forwards s ! i) \<inter> listen_keys s (ds_Forwards s ! j) = {}"
proof -
  have "sorted_wrt (forward_compat s) (ds_Forwards s)"
    using assms(1) unfolding Validate_well_formed well_formed_def by blast
  then show ?thesis using assms(2,3) by (auto simp: sorted_wrt_iff_nth_less forward_compat_def)
qed

theorem accepted_listeners_distinct_witness:
  "listen_keys sample_state (ds_Forwards sample_state ! 0) \<inter> listen_keys sample_state (ds_Forwards sample_state ! 1) = {}"
  using accepted_listeners_distinct [OF sample_valid, of 0 1] by (simp add: sample_state_def)

text \<open>Over user policies and forwards together, every assigned traffic class is used once, and
  the classes of the data plane (1 and 65535) are never assigned.\<close>

theorem accepted_classes_distinct:
  assumes "Validate s = []"
  shows "distinct (filter (\<lambda>c. c \<noteq> 0) (map up_TrafficClassID (ds_UserPolicies s) @ map fw_TrafficClassID (ds_Forwards s)))
    \<and> (\<forall>p\<in>set (ds_UserPolicies s). up_TrafficClassID p \<notin> {1, 65535})
    \<and> (\<forall>f\<in>set (ds_Forwards s). fw_TrafficClassID f \<notin> {1, 65535})"
  by (rule well_formed_classes) (use assms in \<open>simp add: Validate_well_formed\<close>)

theorem accepted_classes_distinct_witness:
  "distinct (filter (\<lambda>c. c \<noteq> 0) (map up_TrafficClassID (ds_UserPolicies sample_state) @ map fw_TrafficClassID (ds_Forwards sample_state)))"
  using accepted_classes_distinct [OF sample_valid] by simp

text \<open>C29. A relayed (\<open>via_exit\<close>) forward of an accepted state runs over a link of the same state to
  the opposite node of its path, which is not this node, and is reached at a service address that
  lies in one of the service networks and that no other relayed forward uses.\<close>

theorem accepted_via_exit_linked:
  assumes "Validate s = []" and "i < length (ds_Forwards s)" and "fw_PathMode (ds_Forwards s ! i) = PathViaExit"
  shows "\<exists>l\<in>set (ds_FabricLinks s). \<exists>v p a. let f = ds_Forwards s ! i in
    fl_ID l = fw_FabricLinkID f \<and> fl_PeerNodeID l \<noteq> ds_NodeID s \<and>
    {ds_NodeID s, fl_PeerNodeID l} = {fw_IngressNodeID f, fw_ExitNodeID f} \<and>
    fw_ServiceVIP f = Some v \<and> p \<in> set (ds_ServiceCIDRs s) \<and> Unmap v = Addr4 a \<and> a \<in> net4 p \<and>
    (\<forall>j<length (ds_Forwards s). j \<noteq> i \<longrightarrow> vip_of (ds_Forwards s ! j) \<noteq> Some (Addr4 a))"
proof -
  let ?f = "ds_Forwards s ! i"
  have wf: "well_formed s" using assms(1) by (simp add: Validate_well_formed)
  then have ok: "path_ok s (service_nets s) (link_map (ds_FabricLinks s)) ?f"
    using assms(2) by (auto simp: well_formed_def forward_ok_def)
  then obtain v l where v: "fw_ServiceVIP ?f = Some v" "usable4 v" "\<exists>c\<in>set (service_nets s). Contains c (Unmap v)"
    and l: "link_map (ds_FabricLinks s) (fw_FabricLinkID ?f) = Some l"
      "fl_PeerNodeID l = (if ds_NodeID s = fw_ExitNodeID ?f then fw_IngressNodeID ?f else fw_ExitNodeID ?f)"
    and node: "ds_NodeID s = fw_IngressNodeID ?f \<or> ds_NodeID s = fw_ExitNodeID ?f"
    using assms(3) by (auto simp: path_ok_def)
  have in_links: "l \<in> set (ds_FabricLinks s)" "fl_ID l = fw_FabricLinkID ?f"
    using map_of_SomeD [OF l(1) [unfolded link_map_def]] by auto
  then have "fl_PeerNodeID l \<noteq> ds_NodeID s" using wf by (auto simp: well_formed_def link_ok_def)
  moreover obtain a where a: "Unmap v = Addr4 a" using v(2) by (auto simp: usable4_def)
  moreover obtain p where "p \<in> set (ds_ServiceCIDRs s)" "a \<in> net4 p"
    using v(3) a by (auto simp: service_nets_def net4_def)
  moreover have "{ds_NodeID s, fl_PeerNodeID l} = {fw_IngressNodeID ?f, fw_ExitNodeID ?f}" using l(2) node by auto
  moreover have "vip_of (ds_Forwards s ! j) \<noteq> Some (Addr4 a)" if "j < length (ds_Forwards s)" "j \<noteq> i" for j
  proof -
    have "sorted_wrt (forward_compat s) (ds_Forwards s)" using wf by (simp add: well_formed_def)
    then have "j < i \<longrightarrow> forward_compat s (ds_Forwards s ! j) ?f" "i < j \<longrightarrow> forward_compat s ?f (ds_Forwards s ! j)"
      using that assms(2) by (auto simp: sorted_wrt_iff_nth_less)
    moreover have "vip_of ?f = Some (Addr4 a)" using v a assms(3) by (simp add: vip_of_def)
    ultimately show ?thesis using that(2) by (cases "j < i") (auto simp: forward_compat_def)
  qed
  ultimately show ?thesis using in_links v(1) by (auto simp: Let_def)
qed

theorem accepted_via_exit_linked_witness:
  "\<exists>l\<in>set (ds_FabricLinks sample_state). fl_ID l = ''link-a'' \<and> fl_PeerNodeID l \<noteq> ''ingress-1''"
proof -
  have "0 < length (ds_Forwards sample_state)" "fw_PathMode (ds_Forwards sample_state ! 0) = PathViaExit"
    "ds_NodeID sample_state = ''ingress-1''" "fw_FabricLinkID (ds_Forwards sample_state ! 0) = ''link-a''"
    by (simp_all add: sample_state_def sample_forward_def)
  with accepted_via_exit_linked [OF sample_valid, of 0] show ?thesis unfolding Let_def by metis
qed

end
