(* ===== verification/Go_Text.thy ===== *)
theory Go_Text
  imports Go_Std
begin

unbundle bit_operations_syntax

text \<open>
  Round trips of the textual forms: the decimal form of a number, an IPv4 address and an IPv4 prefix
  are read back by the parsers of \<open>Go_Std\<close>, and their texts contain no separator of the formats
  they are embedded in.
\<close>

lemma show_nat_is_digit: "c \<in> set (show_nat n) \<Longrightarrow> is_digit c"
  using show_nat_digits [of c n] by (simp add: is_digit_def code_def)

lemma show_nat_no_sep: "CHR ''.'' \<notin> set (show_nat n)" "CHR ''/'' \<notin> set (show_nat n)" "CHR '':'' \<notin> set (show_nat n)"
    "CHR ''%'' \<notin> set (show_nat n)"
  using show_nat_digits [of "CHR ''.''" n] show_nat_digits [of "CHR ''/''" n] show_nat_digits [of "CHR '':''" n]
    show_nat_digits [of "CHR ''%''" n] by auto

text \<open>Only zero is written with a leading zero.\<close>

lemma show_nat_hd: "hd (show_nat n) = CHR ''0'' \<Longrightarrow> n = 0"
proof (induction n rule: show_nat.induct)
  case (1 n)
  show ?case
  proof (cases "n < 10")
    case True
    then have "show_nat n = [char_of (48 + n)]" by (subst show_nat.simps) simp
    then have "char_of (48 + n) = (CHR ''0'' :: char)" using "1.prems" by simp
    then have "of_char (char_of (48 + n) :: char) = (48 :: nat)" by simp
    with True show ?thesis by simp
  next
    case False
    then have "show_nat n = show_nat (n div 10) @ [char_of (48 + n mod 10)]" by (subst show_nat.simps) simp
    then have "hd (show_nat (n div 10)) = CHR ''0''" using "1.prems" by (simp add: show_nat_nonempty)
    with "1.IH" False have "n div 10 = 0" by simp
    with False show ?thesis by simp
  qed
qed

lemma show_nat_0: "show_nat 0 = ''0''"
  by code_simp

lemma show_nat_lead: "hd (show_nat n) = CHR ''0'' \<Longrightarrow> length (show_nat n) = 1"
  using show_nat_hd [of n] by (simp add: show_nat_0)

lemma ParseUint_show: "n < 2 ^ bits \<Longrightarrow> ParseUint bits (show_nat n) = Some n"
  using show_nat_is_digit by (auto simp: ParseUint_def read_show_nat show_nat_nonempty list_all_iff)

lemma parse_octet_show: "n \<le> 255 \<Longrightarrow> parse_octet (show_nat n) = Some n"
  using show_nat_is_digit show_nat_lead [of n] by (auto simp: parse_octet_def read_show_nat show_nat_nonempty list_all_iff)

lemma split_on_free: "c \<notin> set a \<Longrightarrow> split_on c a = [a]"
  by (induction a) auto

lemma split_on_sep: "c \<notin> set a \<Longrightarrow> split_on c (a @ c # r) = a # split_on c r"
  by (induction a) auto

lemma octet_nat: "unat (drop_bit k w AND 255 :: u32) = unat w div 2 ^ k mod 256"
proof -
  have "drop_bit k w AND 255 = take_bit 8 (drop_bit k w)" by (simp add: take_bit_eq_mask mask_eq_exp_minus_1)
  then have "unat (drop_bit k w AND 255) = take_bit 8 (drop_bit k (unat w))"
    using unsigned_less [of w, where 'a = nat]
    by (simp only: unsigned_take_bit_eq unsigned_drop_bit_eq) (simp add: take_bit_nat_eq_self)
  then show ?thesis by (simp add: take_bit_eq_mod drop_bit_eq_div)
qed

lemma octet_le: "unat (drop_bit k w AND 255 :: u32) \<le> 255"
  unfolding octet_nat by (simp add: less_Suc_eq_le [symmetric])

lemma octets_sum:
  assumes "n < (2 :: nat) ^ 32"
  shows "((n div 2 ^ 24 mod 256 * 256 + n div 2 ^ 16 mod 256) * 256 + n div 2 ^ 8 mod 256) * 256 + n div 2 ^ 0 mod 256 = n"
proof -
  have "n div 16777216 < 256" using assms by simp
  moreover have "n div m div 256 * 256 + n div m mod 256 = n div m" for m by simp
  from this [of 65536] this [of 256] this [of 1]
  have "n div 16777216 * 256 + n div 65536 mod 256 = n div 65536" "n div 65536 * 256 + n div 256 mod 256 = n div 256"
    "n div 256 * 256 + n mod 256 = n"
    by (simp_all only: div_mult2_eq [symmetric]) simp_all
  ultimately show ?thesis by simp
qed

lemma parseIPv4_string4: "parseIPv4 (string4 w) = Some w"
proof -
  let ?o = "\<lambda>k. unat (drop_bit (8 * k) w AND 255)"
  have no_dot: "CHR ''.'' \<notin> set (octet4 w k)" for k by (simp add: octet4_def show_nat_no_sep)
  have spelled: "string4 w = octet4 w 3 @ CHR ''.'' # octet4 w 2 @ CHR ''.'' # octet4 w 1 @ CHR ''.'' # octet4 w 0"
    by (simp add: string4_def)
  have "map parse_octet (split_on CHR ''.'' (string4 w)) = [Some (?o 3), Some (?o 2), Some (?o 1), Some (?o 0)]"
    unfolding spelled by (simp only: split_on_sep [OF no_dot] split_on_free [OF no_dot] list.map) (simp only: octet4_def parse_octet_show octet_le)
  moreover have "word_of_octets (?o 3) (?o 2) (?o 1) (?o 0) = w"
  proof -
    have "unat w < 2 ^ 32" using unsigned_less [of w, where 'a = nat] by simp
    from arg_cong [OF octets_sum [OF this], of "of_nat :: nat \<Rightarrow> u32"]
    show ?thesis unfolding word_of_octets_def octet_nat by simp
  qed
  ultimately show ?thesis by (simp add: parseIPv4_def)
qed

lemma dropWhile_digits:
  "\<forall>x\<in>set a. is_digit x \<Longrightarrow> dropWhile (\<lambda>c. c \<noteq> CHR ''.'' \<and> c \<noteq> CHR '':'' \<and> c \<noteq> CHR ''%'') (a @ CHR ''.'' # r) = CHR ''.'' # r"
  by (induction a) (auto simp: is_digit_def code_def)

lemma ParseAddr_string4: "ParseAddr (string4 w) = Some (Addr4 w)"
proof -
  have digits: "\<forall>x\<in>set (octet4 w 3). is_digit x" unfolding octet4_def using show_nat_is_digit by blast
  have spelled: "string4 w = octet4 w 3 @ CHR ''.'' # octet4 w 2 @ CHR ''.'' # octet4 w 1 @ CHR ''.'' # octet4 w 0"
    by (simp add: string4_def)
  have "dropWhile (\<lambda>c. c \<noteq> CHR ''.'' \<and> c \<noteq> CHR '':'' \<and> c \<noteq> CHR ''%'') (string4 w) =
      CHR ''.'' # octet4 w 2 @ CHR ''.'' # octet4 w 1 @ CHR ''.'' # octet4 w 0"
    unfolding spelled by (rule dropWhile_digits [OF digits])
  then show ?thesis unfolding ParseAddr_def by (simp only: list.case refl if_True parseIPv4_string4 option.map)
qed

lemma Addr_String_inject: "Addr_String (Addr4 v) = Addr_String (Addr4 w) \<Longrightarrow> v = w"
  unfolding Addr_String.simps by (metis ParseAddr_string4 Addr.inject(1) option.inject)

lemma while_sep:
  "c \<notin> set a \<Longrightarrow> takeWhile (\<lambda>x. x \<noteq> c) (a @ c # r) = a \<and> dropWhile (\<lambda>x. x \<noteq> c) (a @ c # r) = c # r"
  by (induction a) auto

lemma while_rev_sep:
  "c \<notin> set b \<Longrightarrow> takeWhile (\<lambda>x. x \<noteq> c) (rev (a @ c # b)) = rev b \<and> dropWhile (\<lambda>x. x \<noteq> c) (rev (a @ c # b)) = c # rev a"
  using while_sep [of c "rev b" "rev a"] by simp

lemma ParsePrefix_String:
  assumes "b \<le> 32"
  shows "ParsePrefix (Prefix_String (Prefix (Addr4 w) (int b))) = Some (Prefix (Addr4 w) (int b))"
proof -
  have spelled: "Prefix_String (Prefix (Addr4 w) (int b)) = string4 w @ CHR ''/'' # show_nat b"
    by (simp add: Prefix_String_def Prefix_IsValid_def show_int_def)
  note sep = while_rev_sep [OF show_nat_no_sep(2) [of b], of "string4 w"]
  have "length (show_nat b) > 1 \<longrightarrow> hd (show_nat b) \<noteq> CHR ''0'' \<and> is_digit (hd (show_nat b))"
    using show_nat_lead [of b] show_nat_is_digit [of "hd (show_nat b)" b] show_nat_nonempty [of b] by auto
  then show ?thesis
    unfolding spelled ParsePrefix_def Let_def conjunct1 [OF sep] conjunct2 [OF sep]
    using assms ParseUint_show [of b 16] by (simp add: ParseAddr_string4 PrefixFrom_def)
qed

end
