(* ===== verification/Spec_Canonical.thy ===== *)
theory Spec_Canonical
  imports Spec_Guarantees Go_Text "HOL-Library.Multiset"
begin

text \<open>
  \<open>internal/spec/canonical.go\<close> and \<open>internal/spec/json.go\<close>: the canonical form of a desired state,
  the checksum taken over it, and the JSON entry points, which validate and canonicalise.
  Canonicalisation is idempotent, keeps a state acceptable, and forgets the order of the lists.
\<close>

section \<open>Canonical form\<close>

definition prefix_string_less :: "Prefix \<Rightarrow> Prefix \<Rightarrow> bool" where
  "prefix_string_less p q \<longleftrightarrow> Prefix_String p < Prefix_String q"

definition canonical_gre :: "GRESpec \<Rightarrow> GRESpec" where
  "canonical_gre g = g\<lparr>gre_UnderlayLocal := Unmap (gre_UnderlayLocal g), gre_UnderlayRemote := Unmap (gre_UnderlayRemote g)\<rparr>"

definition canonical_link :: "FabricLinkSpec \<Rightarrow> FabricLinkSpec" where
  "canonical_link l = l\<lparr>fl_LocalAddress := canonicalInterfacePrefix (fl_LocalAddress l),
     fl_PeerAddress := Unmap (fl_PeerAddress l), fl_GRE := map_option canonical_gre (fl_GRE l)\<rparr>"

definition link_less :: "FabricLinkSpec \<Rightarrow> FabricLinkSpec \<Rightarrow> bool" where
  "link_less k l \<longleftrightarrow> fl_ID k < fl_ID l"

definition canonical_endpoint :: "Endpoint \<Rightarrow> Endpoint" where
  "canonical_endpoint e = e\<lparr>ep_Address := Unmap (ep_Address e), ep_Hostname := []\<rparr>"

definition canonical_health :: "HealthCheckSpec \<Rightarrow> HealthCheckSpec" where
  "canonical_health h = h\<lparr>hc_Endpoint := canonical_endpoint (hc_Endpoint h)\<rparr>"

definition health_less :: "HealthCheckSpec \<Rightarrow> HealthCheckSpec \<Rightarrow> bool" where
  "health_less g h = (if hc_PoolID g = hc_PoolID h then hc_BackendID g < hc_BackendID h else hc_PoolID g < hc_PoolID h)"

definition policy_less :: "UserPolicySpec \<Rightarrow> UserPolicySpec \<Rightarrow> bool" where
  "policy_less p q \<longleftrightarrow> up_UserID p < up_UserID q"

definition protocol_less :: "Protocol \<Rightarrow> Protocol \<Rightarrow> bool" where
  "protocol_less p q \<longleftrightarrow> p < q"

definition canonical_snat :: "SNATSpec \<Rightarrow> SNATSpec" where
  "canonical_snat n = n\<lparr>snat_Address := map_option Unmap (snat_Address n)\<rparr>"

definition canonical_forward :: "ForwardSpec \<Rightarrow> ForwardSpec" where
  "canonical_forward f = f\<lparr>fw_Protocols := sort_less protocol_less (fw_Protocols f),
     fw_Listen := canonical_endpoint (fw_Listen f), fw_Target := canonical_endpoint (fw_Target f),
     fw_ServiceVIP := map_option Unmap (fw_ServiceVIP f), fw_SNAT := canonical_snat (fw_SNAT f)\<rparr>"

definition forward_less :: "ForwardSpec \<Rightarrow> ForwardSpec \<Rightarrow> bool" where
  "forward_less f g \<longleftrightarrow> fw_ID f < fw_ID g"

definition Canonical :: "DesiredState \<Rightarrow> DesiredState" where
  "Canonical s = s\<lparr>
     ds_ProtocolBlocks := (case ds_ProtocolBlocks s of None \<Rightarrow> None
        | Some p \<Rightarrow> if ProtocolBlockPolicy_Any p then Some p else None),
     ds_ServiceCIDRs := sort_less prefix_string_less (map canonicalPrefix (ds_ServiceCIDRs s)),
     ds_FabricLinks := sort_less link_less (map canonical_link (ds_FabricLinks s)),
     ds_HealthChecks := sort_less health_less (map canonical_health (ds_HealthChecks s)),
     ds_UserPolicies := sort_less policy_less (ds_UserPolicies s),
     ds_Forwards := sort_less forward_less (map canonical_forward (ds_Forwards s))\<rparr>"

text \<open>\<open>json.Marshal\<close> and the decoder are the standard library's; \<open>marshal\<close> returns \<open>None\<close> for an error.\<close>

definition Checksum :: "(DesiredState \<Rightarrow> string option) \<Rightarrow> DesiredState \<Rightarrow> string option" where
  "Checksum marshal s = (case marshal (Canonical s) of None \<Rightarrow> None
     | Some encoded \<Rightarrow> Some (hex_EncodeToString (Sum256 encoded)))"

lemma canonical_forward_fields [simp]:
  "fw_ID (canonical_forward f) = fw_ID f" "fw_UserID (canonical_forward f) = fw_UserID f"
  "fw_Protocols (canonical_forward f) = sort_less protocol_less (fw_Protocols f)"
  "fw_IngressNodeID (canonical_forward f) = fw_IngressNodeID f" "fw_ExitNodeID (canonical_forward f) = fw_ExitNodeID f"
  "fw_Listen (canonical_forward f) = canonical_endpoint (fw_Listen f)"
  "fw_Target (canonical_forward f) = canonical_endpoint (fw_Target f)"
  "fw_ServiceVIP (canonical_forward f) = map_option Unmap (fw_ServiceVIP f)"
  "fw_FabricLinkID (canonical_forward f) = fw_FabricLinkID f" "fw_PathMode (canonical_forward f) = fw_PathMode f"
  "fw_SNAT (canonical_forward f) = canonical_snat (fw_SNAT f)" "fw_TrafficClassID (canonical_forward f) = fw_TrafficClassID f"
  "fw_RateLimit (canonical_forward f) = fw_RateLimit f" "fw_TrafficQuota (canonical_forward f) = fw_TrafficQuota f"
  "fw_ExpiresAt (canonical_forward f) = fw_ExpiresAt f" "fw_DrainDeadline (canonical_forward f) = fw_DrainDeadline f"
  "fw_Lifecycle (canonical_forward f) = fw_Lifecycle f" "fw_ResourceVersion (canonical_forward f) = fw_ResourceVersion f"
  by (simp_all add: canonical_forward_def)

section \<open>The comparators\<close>

interpretation prefix_order: slice_order prefix_string_less
  unfolding prefix_string_less_def by (rule slice_order_key)

interpretation link_order: slice_order link_less
  unfolding link_less_def by (rule slice_order_key)

interpretation policy_order: slice_order policy_less
  unfolding policy_less_def by (rule slice_order_key)

interpretation protocol_order: slice_order protocol_less
  unfolding protocol_less_def by (rule slice_order_key)

interpretation forward_order: slice_order forward_less
  unfolding forward_less_def by (rule slice_order_key)

interpretation health_order: slice_order health_less
  by unfold_locales (auto simp: health_less_def split: if_splits)

section \<open>Idempotence\<close>

lemma canonicalInterfacePrefix_idem [simp]:
  "canonicalInterfacePrefix (canonicalInterfacePrefix p) = canonicalInterfacePrefix p"
  by (cases "Unmap (pfx_Addr p)"; cases "pfx_Addr p")
    (auto simp: canonicalInterfacePrefix_def Prefix_IsValid_def Let_def PrefixFrom_def split: if_splits)

text \<open>Clearing the low bits of an IPv6 address does not make it an IPv4-mapped one.\<close>

lemma mask_not_mapped:
  fixes w :: "128 word"
  assumes "drop_bit 32 (w AND NOT (mask n)) = 65535"
  shows "drop_bit 32 w = 65535"
proof (cases "n \<le> 32")
  case True
  then have "drop_bit 32 (w AND NOT (mask n)) = drop_bit 32 w"
    by (intro bit_eqI) (auto simp: bit_simps dest: bit_imp_le_length)
  with assms show ?thesis by simp
next
  case False
  then have "\<not> bit (drop_bit 32 (w AND NOT (mask n))) 0" by (auto simp: bit_simps)
  moreover have "bit (65535 :: 128 word) 0" by simp
  ultimately show ?thesis using assms by simp
qed

lemma and_not_mask_idem: "(w AND NOT (mask n)) AND NOT (mask n) = w AND NOT (mask n :: 'a :: len word)"
  by (simp add: and.assoc)

lemma canonicalPrefix_idem [simp]: "canonicalPrefix (canonicalPrefix p) = canonicalPrefix p"
proof (cases "Prefix_IsValid p")
  case False
  then show ?thesis by (simp add: canonicalPrefix_def)
next
  case True
  define bits where "bits = (if Is4In6 (pfx_Addr p) then pfx_Bits p - 96 else pfx_Bits p)"
  define a where "a = withoutZone (Unmap (pfx_Addr p))"
  have shape: "canonicalPrefix p = Masked (PrefixFrom (Unmap (pfx_Addr p)) bits)"
    using True by (simp add: canonicalPrefix_def Let_def bits_def)
  have "\<not> Is4In6 (mask_addr a bits)"
    by (cases "pfx_Addr p") (auto simp: a_def simp del: drop_bit_and dest: mask_not_mapped)
  moreover have "mask_addr (mask_addr a bits) bits = mask_addr a bits"
    by (cases a) (simp_all add: and_not_mask_idem)
  ultimately show ?thesis unfolding shape
    by (cases "pfx_Addr p") (auto simp: canonicalPrefix_def Masked_def PrefixFrom_def Prefix_IsValid_def NoPrefix_def a_def
        Let_def and_not_mask_idem simp del: drop_bit_and split: if_splits dest: mask_not_mapped)
qed

lemma canonical_gre_idem [simp]: "canonical_gre (canonical_gre g) = canonical_gre g"
  by (simp add: canonical_gre_def)

lemma canonical_link_idem [simp]: "canonical_link (canonical_link l) = canonical_link l"
  by (simp add: canonical_link_def option.map_comp comp_def)

lemma canonical_health_idem [simp]: "canonical_health (canonical_health h) = canonical_health h"
  by (simp add: canonical_health_def canonical_endpoint_def)

lemma canonical_forward_idem [simp]: "canonical_forward (canonical_forward f) = canonical_forward f"
  by (simp add: canonical_forward_def canonical_endpoint_def canonical_snat_def option.map_comp comp_def protocol_order.slice_idem)

lemma map_sort_fixed:
  "(\<And>x. f (f x) = f x) \<Longrightarrow> map f (sort_less lt (map f xs)) = sort_less lt (map f xs)"
  by (rule map_idI) auto

lemma Canonical_fixed: "Canonical (Canonical s) = Canonical s"
  by (auto simp: Canonical_def map_sort_fixed prefix_order.slice_idem link_order.slice_idem health_order.slice_idem
      policy_order.slice_idem forward_order.slice_idem split: option.splits)

section \<open>Acceptance is kept\<close>

text \<open>A link that is fine has an IPv4 local address already: its network contains the peer.\<close>

lemma link_ok_local:
  assumes "link_ok s cidrs l"
  shows "canonicalInterfacePrefix (fl_LocalAddress l) = fl_LocalAddress l"
proof -
  let ?p = "fl_LocalAddress l"
  have c: "Contains (Masked ?p) (Unmap (fl_PeerAddress l))" and u: "usable4 (fl_PeerAddress l)"
    and ok: "interface_prefix_ok ?p"
    using assms by (simp_all add: link_ok_def)
  obtain v where v: "Unmap (fl_PeerAddress l) = Addr4 v" using u by (auto simp: usable4_def)
  obtain w where "pfx_Addr ?p = Addr4 w"
    using c v by (cases "pfx_Addr ?p") (auto simp: Contains_def Masked_def PrefixFrom_def NoPrefix_def Prefix_IsValid_def
        Let_def split: if_splits)
  then show ?thesis
    using ok by (cases ?p) (simp add: canonicalInterfacePrefix_def interface_prefix_ok_def PrefixFrom_def Let_def)
qed

lemma canonical_link_ok:
  assumes ok: "link_ok s cidrs l" and "set cidrs' = set cidrs" and "ds_NodeID s' = ds_NodeID s"
  shows "link_ok s' cidrs' (canonical_link l)"
proof -
  have "gre_ok (canonical_gre g) = gre_ok g" for g by (simp add: gre_ok_def canonical_gre_def)
  then have "transport_ok (canonical_link l) = transport_ok l"
    by (cases "fl_GRE l") (simp_all add: transport_ok_def canonical_link_def)
  with ok link_ok_local [OF ok] assms(2,3) show ?thesis by (simp add: link_ok_def canonical_link_def)
qed

lemma canonical_link_compat:
  "link_ok s cidrs k \<Longrightarrow> link_ok s cidrs l \<Longrightarrow> link_compat k l \<Longrightarrow> link_compat (canonical_link k) (canonical_link l)"
  using link_ok_local [of s cidrs k] link_ok_local [of s cidrs l]
  by (simp add: link_compat_def canonical_link_def)

lemma endpoint_ok_canonical [simp]: "endpoint_ok e \<Longrightarrow> endpoint_ok (canonical_endpoint e)"
  by (simp add: endpoint_ok_def canonical_endpoint_def)

lemma canonical_health_ok:
  "health_ok cidrs h \<Longrightarrow> set cidrs' = set cidrs \<Longrightarrow> health_ok cidrs' (canonical_health h)"
  by (simp add: health_ok_def canonical_health_def endpoint_ok_def canonical_endpoint_def)

lemma link_map_canonical:
  assumes "distinct (map fl_ID ls)"
  shows "link_map (sort_less link_less (map canonical_link ls)) k = map_option canonical_link (link_map ls k)"
proof -
  let ?ms = "sort_less link_less (map canonical_link ls)"
  have ids: "fl_ID (canonical_link l) = fl_ID l" for l by (simp add: canonical_link_def)
  have "sorted_wrt (\<lambda>x y. fl_ID x \<noteq> fl_ID y) ?ms"
    using assms unfolding distinct_map_sorted_wrt by (intro pairwise_canonical) (auto simp: ids)
  then have d: "distinct (map fst (map (\<lambda>l. (fl_ID l, l)) ?ms))" by (simp add: distinct_map_sorted_wrt comp_def)
  show ?thesis
  proof (cases "link_map ls k")
    case None
    then have "\<forall>l\<in>set ls. fl_ID l \<noteq> k" by (simp add: link_map_def map_of_eq_None_iff image_image notin_image_iff)
    then have "link_map ?ms k = None" by (auto simp: link_map_def map_of_eq_None_iff ids)
    with None show ?thesis by simp
  next
    case (Some l)
    then have "l \<in> set ls" "fl_ID l = k" by (auto simp: link_map_def dest: map_of_SomeD)
    then have "(fl_ID (canonical_link l), canonical_link l) \<in> set (map (\<lambda>l. (fl_ID l, l)) ?ms)" by simp
    then have "(k, canonical_link l) \<in> set (map (\<lambda>l. (fl_ID l, l)) ?ms)" unfolding ids \<open>fl_ID l = k\<close> .
    then have "link_map ?ms k = Some (canonical_link l)"
      unfolding link_map_def using d by (simp only: map_of_eq_Some_iff)
    with Some show ?thesis by simp
  qed
qed

lemma canonical_path_ok:
  assumes "path_ok s cidrs links f" and "set cidrs' = set cidrs" and "\<And>k. links' k = map_option canonical_link (links k)"
    and "ds_NodeID s' = ds_NodeID s" and "ds_SchemaVersion s' = ds_SchemaVersion s"
  shows "path_ok s' cidrs' links' (canonical_forward f)"
proof (cases "fw_PathMode f = PathDirect")
  case True
  with assms(1,4) show ?thesis by (simp add: path_ok_def)
next
  case False
  with assms(1) obtain v l where v: "fw_ServiceVIP f = Some v" "usable4 v" "\<exists>c\<in>set cidrs. Contains c (Unmap v)"
    and l: "links (fw_FabricLinkID f) = Some l"
      "fl_PeerNodeID l = (if ds_NodeID s = fw_ExitNodeID f then fw_IngressNodeID f else fw_ExitNodeID f)"
    and rest: "fw_PathMode f = PathViaExit" "SchemaVersionV3 \<le> ds_SchemaVersion s" "validIdentifier (fw_ExitNodeID f)"
      "fw_ExitNodeID f \<noteq> fw_IngressNodeID f" "ds_NodeID s = fw_IngressNodeID f \<or> ds_NodeID s = fw_ExitNodeID f"
      "validIdentifier (fw_FabricLinkID f)"
    unfolding path_ok_def by blast
  have "fl_PeerNodeID (canonical_link l) = fl_PeerNodeID l" by (simp add: canonical_link_def)
  with v l rest assms(2-5) show ?thesis unfolding path_ok_def by simp
qed

lemma canonical_forward_ok:
  assumes ok: "forward_ok s cidrs links classes f" and cong: "set cidrs' = set cidrs"
    "\<And>k. links' k = map_option canonical_link (links k)" "ds_NodeID s' = ds_NodeID s" "ds_SchemaVersion s' = ds_SchemaVersion s"
  shows "forward_ok s' cidrs' links' classes (canonical_forward f)"
proof -
  have "path_ok s' cidrs' links' (canonical_forward f)"
    using ok by (intro canonical_path_ok [OF _ cong]) (simp add: forward_ok_def)
  moreover have "apart_ok cidrs' (canonical_forward f)" "snat_ok (fw_SNAT (canonical_forward f))"
    using ok by (auto simp: forward_ok_def apart_ok_def snat_ok_def canonical_snat_def canonical_endpoint_def cong)
  moreover have "deadline_ok s' (canonical_forward f)"
    using ok by (simp add: forward_ok_def deadline_ok_def cong)
  moreover have "fw_Protocols (canonical_forward f) \<noteq> []"
    using ok by (simp add: forward_ok_def)
  ultimately show ?thesis using ok unfolding forward_ok_def by simp
qed

lemma canonical_match_address:
  "ds_NodeID s' = ds_NodeID s \<Longrightarrow> match_address s' (canonical_forward f) = match_address s f"
  by (cases "fw_ServiceVIP f") (simp_all add: match_address_def canonical_endpoint_def)

lemma canonical_forward_compat:
  assumes "ds_NodeID s' = ds_NodeID s" and "forward_compat s f g"
  shows "forward_compat s' (canonical_forward f) (canonical_forward g)"
proof -
  have "listen_keys s' (canonical_forward h) = listen_keys s h" for h
    unfolding listen_keys_def canonical_match_address [OF assms(1)] by simp
  moreover have "vip_of (canonical_forward h) = vip_of h" for h
    by (simp add: vip_of_def option.map_comp comp_def)
  ultimately show ?thesis using assms(2) by (simp add: forward_compat_def)
qed

lemma overlap_sym: "prefixesOverlap p q = prefixesOverlap q p"
  by (auto simp: prefixesOverlap_def Let_def)

lemma service_cidr_ok_canonical: "service_cidr_ok p \<Longrightarrow> service_cidr_ok (canonicalPrefix p)"
  by (force simp: service_cidr_ok_def service_net_def)

lemma Canonical_networks:
  assumes "well_formed s"
  shows "\<forall>p\<in>set (ds_ServiceCIDRs (Canonical s)). service_cidr_ok p"
    and "sorted_wrt (\<lambda>p q. \<not> prefixesOverlap (canonicalPrefix q) (canonicalPrefix p)) (ds_ServiceCIDRs (Canonical s))"
    and "set (service_nets (Canonical s)) = set (service_nets s)"
proof -
  show "\<forall>p\<in>set (ds_ServiceCIDRs (Canonical s)). service_cidr_ok p"
    using assms by (auto simp: well_formed_def Canonical_def service_cidr_ok_canonical)
  have "sorted_wrt (\<lambda>p q. \<not> prefixesOverlap (canonicalPrefix q) (canonicalPrefix p)) (ds_ServiceCIDRs s)"
    using assms unfolding well_formed_def by blast
  then show "sorted_wrt (\<lambda>p q. \<not> prefixesOverlap (canonicalPrefix q) (canonicalPrefix p)) (ds_ServiceCIDRs (Canonical s))"
    unfolding Canonical_def by (auto intro!: pairwise_canonical simp: overlap_sym)
  show "set (service_nets (Canonical s)) = set (service_nets s)"
    by (auto simp: service_nets_def Canonical_def image_image)
qed

lemma Canonical_well_formed:
  assumes wf: "well_formed s"
  shows "well_formed (Canonical s)"
proof -
  let ?c = "Canonical s"
  note nets = Canonical_networks [OF wf]
  have same: "ds_NodeID ?c = ds_NodeID s" "ds_SchemaVersion ?c = ds_SchemaVersion s" by (simp_all add: Canonical_def)
  have links: "\<forall>l\<in>set (ds_FabricLinks s). link_ok s (service_nets s) l" "sorted_wrt link_compat (ds_FabricLinks s)"
    and fwds: "\<forall>f\<in>set (ds_Forwards s). forward_ok s (service_nets s) (link_map (ds_FabricLinks s)) (policy_classes s - {0}) f"
      "sorted_wrt (forward_compat s) (ds_Forwards s)"
    and pols: "sorted_wrt policy_compat (ds_UserPolicies s)"
    and hcs: "distinct (map (\<lambda>h. (hc_PoolID h, hc_BackendID h)) (ds_HealthChecks s))"
    using wf unfolding well_formed_def by blast+
  have "header_ok ?c" "version_ok ?c"
    using wf by (auto simp: well_formed_def header_ok_def version_ok_def Canonical_def split: option.splits)
  moreover have "\<forall>l\<in>set (ds_FabricLinks ?c). link_ok ?c (service_nets ?c) l"
    using links canonical_link_ok [OF _ nets(3) same(1)] by (auto simp: Canonical_def)
  moreover have "sorted_wrt link_compat (ds_FabricLinks ?c)"
    unfolding Canonical_def using links
    by (auto intro!: pairwise_canonical canonical_link_compat [of s "service_nets s"]) (auto simp: link_compat_def)
  moreover have "\<forall>h\<in>set (ds_HealthChecks ?c). health_ok (service_nets ?c) h"
    using wf canonical_health_ok [OF _ nets(3)] by (auto simp: well_formed_def Canonical_def)
  moreover have "distinct (map (\<lambda>h. (hc_PoolID h, hc_BackendID h)) (ds_HealthChecks ?c))"
    using hcs unfolding Canonical_def distinct_map_sorted_wrt
    by (auto intro!: pairwise_canonical) (auto simp: canonical_health_def)
  moreover have "\<forall>p\<in>set (ds_UserPolicies ?c). policy_ok p" "policy_classes ?c = policy_classes s"
    using wf by (auto simp: well_formed_def Canonical_def policy_classes_def)
  moreover have "sorted_wrt policy_compat (ds_UserPolicies ?c)"
    using pols unfolding Canonical_def
    by (auto intro!: sorted_wrt_sort_less) (auto simp: policy_compat_def class_compat_def)
  moreover have "sorted_wrt (forward_compat ?c) (ds_Forwards ?c)"
  proof -
    have "match_address ?c f = match_address s f" for f
      by (cases "fw_ServiceVIP f") (simp_all add: match_address_def same)
    then have "forward_compat ?c = forward_compat s" by (intro ext) (simp add: forward_compat_def listen_keys_def)
    then have "sorted_wrt (forward_compat ?c) (ds_Forwards s)" using fwds(2) by simp
    then show ?thesis
      using canonical_forward_compat [OF refl, of ?c]
      unfolding Canonical_def by (auto intro!: pairwise_canonical) (auto simp: forward_compat_def class_compat_def)
  qed
  moreover have "forward_ok ?c (service_nets ?c) (link_map (ds_FabricLinks ?c)) (policy_classes s - {0}) f"
    if "f \<in> set (ds_Forwards ?c)" for f
  proof -
    have "distinct (map fl_ID (ds_FabricLinks s))"
      using links(2) unfolding distinct_map_sorted_wrt by (rule sorted_wrt_mono_rel [rotated]) (simp add: link_compat_def)
    then have "link_map (ds_FabricLinks ?c) k = map_option canonical_link (link_map (ds_FabricLinks s) k)" for k
      by (simp add: Canonical_def link_map_canonical)
    then show ?thesis
      using that fwds(1) canonical_forward_ok [OF _ nets(3) _ same] by (auto simp: Canonical_def)
  qed
  ultimately show ?thesis using nets unfolding well_formed_def by simp
qed

section \<open>The order of the lists does not matter\<close>

text \<open>The text of a network determines it, because it is read back.\<close>

lemma prefix_string_inject:
  assumes "b \<le> 32" "c \<le> 32" and "Prefix_String (Prefix (Addr4 v) (int b)) = Prefix_String (Prefix (Addr4 w) (int c))"
  shows "v = w \<and> b = c"
  using ParsePrefix_String [OF assms(1), of v] ParsePrefix_String [OF assms(2), of w] unfolding assms(3) by simp

lemma slice_perm_mset:
  assumes "slice_order lt" and "sorted_wrt R xs" and "mset xs = mset ys"
    and "\<And>x y. R x y \<Longrightarrow> lt x y \<or> lt y x"
  shows "sort_less lt xs = sort_less lt ys"
proof -
  have irrefl: "\<not> lt x x" for x using assms(1) by (rule slice_order.irrefl)
  have "sorted_wrt (\<lambda>x y. x \<noteq> y) xs"
    by (rule sorted_wrt_mono_rel [OF _ assms(2)]) (use assms(4) irrefl in blast)
  then have dx: "distinct xs" by (simp add: distinct_sorted_wrt)
  have dy: "distinct ys" using dx assms(3) by (metis mset_eq_imp_distinct_iff)
  have st: "set xs = set ys" using assms(3) by (rule mset_eq_setD)
  have total: "lt a b \<or> lt b a" if "a \<in> set xs" "b \<in> set xs" "a \<noteq> b" for a b
  proof -
    have "sorted_wrt (\<lambda>x y. lt x y \<or> lt y x) xs" by (rule sorted_wrt_mono_rel [OF _ assms(2)]) (rule assms(4))
    then show ?thesis using that dx by (subst (asm) sorted_wrt_sym_iff) blast+
  qed
  show ?thesis by (rule slice_order.slice_perm [OF assms(1) dx dy st]) (rule total)
qed

definition same_up_to_order :: "DesiredState \<Rightarrow> DesiredState \<Rightarrow> bool" where
  "same_up_to_order s t \<longleftrightarrow>
     ds_SchemaVersion s = ds_SchemaVersion t \<and> ds_NodeID s = ds_NodeID t \<and> ds_Generation s = ds_Generation t \<and>
     ds_ManagementDomain s = ds_ManagementDomain t \<and> ds_ProtocolBlocks s = ds_ProtocolBlocks t \<and>
     mset (ds_ServiceCIDRs s) = mset (ds_ServiceCIDRs t) \<and> mset (ds_FabricLinks s) = mset (ds_FabricLinks t) \<and>
     mset (ds_HealthChecks s) = mset (ds_HealthChecks t) \<and> mset (ds_UserPolicies s) = mset (ds_UserPolicies t) \<and>
     mset (ds_Forwards s) = mset (ds_Forwards t)"

lemma service_nets_order:
  assumes "service_cidr_ok p" "service_cidr_ok q" "\<not> prefixesOverlap (canonicalPrefix q) (canonicalPrefix p)"
  shows "prefix_string_less (canonicalPrefix p) (canonicalPrefix q) \<or> prefix_string_less (canonicalPrefix q) (canonicalPrefix p)"
proof -
  obtain w b v c where nets: "service_net p w b" "service_net q v c" using assms(1,2) by (auto simp: service_cidr_ok_def)
  have "net4 q \<inter> net4 p = {}" using assms(3) overlap_net4 [OF nets(2,1)] by blast
  then have "(w, b) \<noteq> (v, c)" unfolding net4_prefix4 [OF nets(1)] net4_prefix4 [OF nets(2)] using prefix4_self by blast
  then have "Prefix_String (canonicalPrefix p) \<noteq> Prefix_String (canonicalPrefix q)"
    using nets prefix_string_inject [of b c w v] by (auto simp: service_net_def)
  then show ?thesis unfolding prefix_string_less_def neq_iff .
qed

lemma sorted_wrt_ball:
  "sorted_wrt R xs \<Longrightarrow> (\<forall>x\<in>set xs. P x) \<Longrightarrow> sorted_wrt (\<lambda>x y. P x \<and> P y \<and> R x y) xs"
  by (induction xs) auto

lemma Canonical_order:
  assumes wf: "well_formed s" and same: "same_up_to_order s t"
  shows "Canonical s = Canonical t"
proof -
  have nets: "\<forall>p\<in>set (ds_ServiceCIDRs s). service_cidr_ok p"
      "sorted_wrt (\<lambda>p q. \<not> prefixesOverlap (canonicalPrefix q) (canonicalPrefix p)) (ds_ServiceCIDRs s)"
    and lists: "sorted_wrt link_compat (ds_FabricLinks s)" "sorted_wrt policy_compat (ds_UserPolicies s)"
      "sorted_wrt (forward_compat s) (ds_Forwards s)"
      "sorted_wrt (\<lambda>g h. (hc_PoolID g, hc_BackendID g) \<noteq> (hc_PoolID h, hc_BackendID h)) (ds_HealthChecks s)"
    using wf unfolding well_formed_def distinct_map_sorted_wrt by blast+
  have perm: "sort_less lt (map f xs) = sort_less lt (map f ys)"
    if "slice_order lt" "sorted_wrt R xs" "mset xs = mset ys" "\<And>x y. R x y \<Longrightarrow> lt (f x) (f y) \<or> lt (f y) (f x)" for lt f R xs ys
    by (rule slice_perm_mset [OF that(1), of "\<lambda>x y. lt x y \<or> lt y x"])
      (auto simp: that(3) sorted_wrt_map intro: sorted_wrt_mono_rel [OF that(4) that(2)])
  have "sort_less prefix_string_less (map canonicalPrefix (ds_ServiceCIDRs s)) =
      sort_less prefix_string_less (map canonicalPrefix (ds_ServiceCIDRs t))"
    by (rule perm [OF prefix_order.slice_order_axioms sorted_wrt_ball [OF nets(2,1)]])
      (use same service_nets_order in \<open>auto simp: same_up_to_order_def\<close>)
  moreover have "sort_less link_less (map canonical_link (ds_FabricLinks s)) =
      sort_less link_less (map canonical_link (ds_FabricLinks t))"
    by (rule perm [OF link_order.slice_order_axioms lists(1)])
      (use same in \<open>auto simp: same_up_to_order_def link_compat_def link_less_def canonical_link_def neq_iff\<close>)
  moreover have "sort_less health_less (map canonical_health (ds_HealthChecks s)) =
      sort_less health_less (map canonical_health (ds_HealthChecks t))"
    by (rule perm [OF health_order.slice_order_axioms lists(4)])
      (use same in \<open>auto simp: same_up_to_order_def health_less_def canonical_health_def neq_iff\<close>)
  moreover have "sort_less policy_less (ds_UserPolicies s) = sort_less policy_less (ds_UserPolicies t)"
    by (rule slice_perm_mset [OF policy_order.slice_order_axioms lists(2)])
      (use same in \<open>auto simp: same_up_to_order_def policy_compat_def policy_less_def neq_iff\<close>)
  moreover have "sort_less forward_less (map canonical_forward (ds_Forwards s)) =
      sort_less forward_less (map canonical_forward (ds_Forwards t))"
    by (rule perm [OF forward_order.slice_order_axioms lists(3)])
      (use same in \<open>auto simp: same_up_to_order_def forward_compat_def forward_less_def neq_iff\<close>)
  ultimately show ?thesis using same by (simp add: Canonical_def same_up_to_order_def)
qed

section \<open>Properties\<close>

text \<open>Canonicalisation is idempotent.\<close>

theorem Canonical_idempotent: "Canonical (Canonical s) = Canonical s"
  by (rule Canonical_fixed)

text \<open>C30. Canonicalisation keeps acceptance: what the controller publishes after validating a state is
  accepted again by the agent that validates the canonical form.\<close>

theorem Canonical_keeps_valid:
  assumes "Validate s = []"
  shows "Validate (Canonical s) = []"
  using assms Canonical_well_formed by (simp add: Validate_well_formed)

theorem Canonical_keeps_valid_witness: "Validate (Canonical sample_state) = []"
  by (rule Canonical_keeps_valid [OF sample_valid])

text \<open>C31. The checksum identifies an accepted state up to the order of its lists: whatever the JSON
  encoder, two states that list the same networks, links, checks, policies and forwards in different
  orders have the same canonical form and the same checksum.\<close>

theorem Checksum_order_independent:
  assumes "Validate s = []" and "same_up_to_order s t"
  shows "Canonical s = Canonical t \<and> Checksum marshal s = Checksum marshal t"
  using Canonical_order [of s t] assms by (simp add: Validate_well_formed Checksum_def)

theorem Checksum_order_independent_witness:
  "Checksum (\<lambda>d. Some (ds_NodeID d)) sample_state =
   Checksum (\<lambda>d. Some (ds_NodeID d)) (sample_state\<lparr>ds_Forwards := rev (ds_Forwards sample_state)\<rparr>)"
proof -
  have "same_up_to_order sample_state (sample_state\<lparr>ds_Forwards := rev (ds_Forwards sample_state)\<rparr>)"
    by (simp add: same_up_to_order_def)
  from Checksum_order_independent [OF sample_valid this] show ?thesis by simp
qed

end
