(* ===== verification/Spec_Hostname.thy ===== *)
theory Spec_Hostname
  imports Go_Std
begin

text \<open>
  \<open>internal/spec/hostname.go\<close>. \<open>idna.Lookup.ToASCII\<close> belongs to \<open>golang.org/x/net\<close> and is a parameter:
  it returns the ASCII form or an error (\<open>None\<close>).
\<close>

section \<open>Strings of the standard library\<close>

text \<open>\<open>unicode.IsSpace\<close> on UTF-8 text: the encodings of the white space characters.\<close>

definition space_encodings :: "nat list list" where
  "space_encodings = [[9], [10], [11], [12], [13], [32], [194, 133], [194, 160], [225, 154, 128],
     [226, 128, 128], [226, 128, 129], [226, 128, 130], [226, 128, 131], [226, 128, 132], [226, 128, 133], [226, 128, 134],
     [226, 128, 135], [226, 128, 136], [226, 128, 137], [226, 128, 138], [226, 128, 168], [226, 128, 169], [226, 128, 175],
     [226, 129, 159], [227, 128, 128]]"

fun strip_space :: "nat list list \<Rightarrow> string \<Rightarrow> string option" where
  "strip_space [] s = None"
| "strip_space (e # es) s =
     (if map code (take (length e) s) = e \<and> e \<noteq> [] then Some (drop (length e) s) else strip_space es s)"

lemma strip_space_shorter: "strip_space es s = Some t \<Longrightarrow> length t < length s"
proof (induction es)
  case (Cons e es)
  have "length t < length s" if "map code (take (length e) s) = e" "e \<noteq> []" "t = drop (length e) s"
  proof -
    have "length e \<le> length s" using arg_cong [OF that(1), of length] by simp
    then show ?thesis using that by (cases e) auto
  qed
  with Cons show ?case by (auto split: if_splits)
qed simp

function trim_left :: "nat list list \<Rightarrow> string \<Rightarrow> string" where
  "trim_left es s = (case strip_space es s of None \<Rightarrow> s | Some t \<Rightarrow> trim_left es t)"
  by pat_completeness auto
termination
  by (relation "measure (\<lambda>(es, s). length s)") (auto simp: strip_space_shorter)

declare trim_left.simps [simp del]

definition TrimSpace :: "string \<Rightarrow> string" where
  "TrimSpace s = rev (trim_left (map rev space_encodings) (rev (trim_left space_encodings s)))"

definition TrimSuffix_dot :: "string \<Rightarrow> string" where
  "TrimSuffix_dot s = (if s \<noteq> [] \<and> last s = CHR ''.'' then butlast s else s)"

text \<open>\<open>strings.ToLower\<close> on ASCII text, which is what \<open>ToASCII\<close> returns.\<close>

definition lower :: "char \<Rightarrow> char" where
  "lower c = (if is_upper c then char_of (code c + 32) else c)"

definition ToLower :: "string \<Rightarrow> string" where
  "ToLower s = map lower s"

section \<open>Host names\<close>

definition label_error :: "string \<Rightarrow> string option" where
  "label_error label =
     (if length label = 0 \<or> length label > 63 \<or> hd label = CHR ''-'' \<or> last label = CHR ''-''
      then Some ''hostname contains an invalid label''
      else if list_all (\<lambda>c. is_lower c \<or> is_digit c \<or> c = CHR ''-'') label then None
      else Some ''hostname contains an invalid character'')"

fun first_label_error :: "string list \<Rightarrow> string option" where
  "first_label_error [] = None"
| "first_label_error (l # ls) = (case label_error l of None \<Rightarrow> first_label_error ls | Some e \<Rightarrow> Some e)"

definition NormalizeHostname :: "(string \<Rightarrow> string option) \<Rightarrow> string \<Rightarrow> string + string" where
  "NormalizeHostname ToASCII v =
     (let v = TrimSuffix_dot (TrimSpace v) in
      if v = [] then Inl ''hostname must not be empty''
      else case ToASCII v of None \<Rightarrow> Inl ''hostname is invalid''
        | Some v \<Rightarrow>
            let v = ToLower v in
            if length v > 253 then Inl ''hostname exceeds 253 characters''
            else case first_label_error (split_on CHR ''.'' v) of Some e \<Rightarrow> Inl e | None \<Rightarrow> Inr v)"

section \<open>Property\<close>

lemma first_label_error_None: "first_label_error ls = None \<longleftrightarrow> (\<forall>l\<in>set ls. label_error l = None)"
  by (induction ls) (auto split: option.splits)

text \<open>Whatever the IDNA library answers, an accepted host name is a sequence of LDH labels: at most
  253 bytes, labels of 1 to 63 lower-case letters, digits and hyphens, none at either end.\<close>

theorem NormalizeHostname_labels:
  assumes "NormalizeHostname ToASCII v = Inr h"
  shows "length h \<le> 253 \<and> (\<forall>l\<in>set (split_on CHR ''.'' h). 1 \<le> length l \<and> length l \<le> 63 \<and>
    hd l \<noteq> CHR ''-'' \<and> last l \<noteq> CHR ''-'' \<and> (\<forall>c\<in>set l. is_lower c \<or> is_digit c \<or> c = CHR ''-''))"
proof -
  have len: "length h \<le> 253" and labels: "first_label_error (split_on CHR ''.'' h) = None"
    using assms by (auto simp: NormalizeHostname_def Let_def split: if_splits option.splits)
  have "1 \<le> length l \<and> length l \<le> 63 \<and> hd l \<noteq> CHR ''-'' \<and> last l \<noteq> CHR ''-'' \<and>
      (\<forall>c\<in>set l. is_lower c \<or> is_digit c \<or> c = CHR ''-'')" if "label_error l = None" for l
    using that by (auto simp: label_error_def list_all_iff Suc_le_eq split: if_splits)
  with labels len show ?thesis unfolding first_label_error_None by blast
qed

theorem NormalizeHostname_labels_witness:
  "NormalizeHostname Some '' Example.Org. '' = Inr ''example.org'' \<and> length ''example.org'' \<le> 253"
proof -
  have "NormalizeHostname Some '' Example.Org. '' = Inr ''example.org''" by code_simp
  with NormalizeHostname_labels [OF this] show ?thesis by blast
qed

end
