(* ===== verification/Meter.thy ===== *)
theory Meter
  imports Flux_Prelude
begin

text \<open>
  \<open>internal/meter/tracker.go\<close>: the tracker turns absolute kernel counters into deltas. A counter
  that is new, belongs to another epoch, or runs backwards is a reset, whose delta is the whole
  value; the batch sequence advances with every batch that carries traffic.
\<close>

section \<open>Model\<close>

record Sample =
  ms_Name :: string
  ms_Packets :: u64
  ms_Bytes :: u64

record Value =
  mv_Packets :: u64
  mv_Bytes :: u64

record MeterState =
  mt_Epoch :: string
  mt_Sequence :: u64
  mt_Values :: "string \<rightharpoonup> Value"

record MeterDelta =
  md_Name :: string
  md_Packets :: u64
  md_Bytes :: u64
  md_Reset :: bool

record MeterBatch =
  mb_Epoch :: string
  mb_Sequence :: u64
  mb_Deltas :: "MeterDelta list"

definition NewTracker :: "MeterState \<Rightarrow> string + MeterState" where
  "NewTracker state =
     (if mt_Sequence state > 0 \<and> mt_Epoch state = []
      then Inl ''meter state with a sequence must have an epoch'' else Inr state)"

text \<open>The map \<open>current\<close> is an association list in the order of the samples; \<open>range\<close> over it collects
  the names, and sorting them makes the iteration order irrelevant.\<close>

definition sample_step :: "nat \<Rightarrow> Sample \<Rightarrow> (string \<times> Value) list \<Rightarrow> string + (string \<times> Value) list" where
  "sample_step i sample current =
     (if ms_Name sample = [] then Inl ''counter name must not be empty''
      else if map_of current (ms_Name sample) \<noteq> None then Inl (''duplicate counter sample '' @ ms_Name sample)
      else Inr (current @ [(ms_Name sample, \<lparr>mv_Packets = ms_Packets sample, mv_Bytes = ms_Bytes sample\<rparr>)]))"

definition make_delta :: "bool \<Rightarrow> (string \<rightharpoonup> Value) \<Rightarrow> string \<Rightarrow> Value \<Rightarrow> MeterDelta" where
  "make_delta epochChanged values name value =
     (let reset = (epochChanged \<or> (case values name of None \<Rightarrow> True
            | Some previous \<Rightarrow> mv_Packets value < mv_Packets previous \<or> mv_Bytes value < mv_Bytes previous))
      in if reset then \<lparr>md_Name = name, md_Packets = mv_Packets value, md_Bytes = mv_Bytes value, md_Reset = True\<rparr>
         else \<lparr>md_Name = name, md_Packets = mv_Packets value - mv_Packets (the (values name)),
               md_Bytes = mv_Bytes value - mv_Bytes (the (values name)), md_Reset = False\<rparr>)"

definition Observe :: "MeterState \<Rightarrow> string \<Rightarrow> Sample list \<Rightarrow> (string + MeterBatch) \<times> MeterState" where
  "Observe t epoch samples =
     (if epoch = [] then (Inl ''counter epoch must not be empty'', t)
      else case range_check sample_step 0 [] samples of
        Inl e \<Rightarrow> (Inl e, t)
      | Inr current \<Rightarrow>
          let epochChanged = (mt_Epoch t \<noteq> epoch);
              names = sort_less (<) (map fst current);
              deltas = map (\<lambda>name. make_delta epochChanged (mt_Values t) name (the (map_of current name))) names;
              emit = list_ex (\<lambda>d. md_Packets d \<noteq> 0 \<or> md_Bytes d \<noteq> 0) deltas;
              t' = t\<lparr>mt_Epoch := epoch, mt_Values := map_of current\<rparr>
          in if \<not> emit then (Inr \<lparr>mb_Epoch = epoch, mb_Sequence = 0, mb_Deltas = deltas\<rparr>, t')
             else let t'' = t'\<lparr>mt_Sequence := mt_Sequence t' + 1\<rparr>
                  in (Inr \<lparr>mb_Epoch = epoch, mb_Sequence = mt_Sequence t'', mb_Deltas = deltas\<rparr>, t''))"

section \<open>The sample loop\<close>

abbreviation sample_value :: "Sample \<Rightarrow> Value" where
  "sample_value s \<equiv> \<lparr>mv_Packets = ms_Packets s, mv_Bytes = ms_Bytes s\<rparr>"

interpretation sample_guard: range_guard sample_step "\<lambda>s. ms_Name s \<noteq> []" "\<lambda>r s. ms_Name r \<noteq> ms_Name s"
  "\<lambda>current seen. current = map (\<lambda>s. (ms_Name s, sample_value s)) seen"
  by unfold_locales
    (auto simp: sample_step_def map_of_eq_None_iff image_image notin_image_iff split: if_splits)

lemma sample_loop:
  "range_check sample_step 0 [] samples =
     (if (\<forall>s\<in>set samples. ms_Name s \<noteq> []) \<and> distinct (map ms_Name samples)
      then Inr (map (\<lambda>s. (ms_Name s, sample_value s)) samples) else range_check sample_step 0 [] samples)"
  "(\<exists>c. range_check sample_step 0 [] samples = Inr c) \<longleftrightarrow>
     (\<forall>s\<in>set samples. ms_Name s \<noteq> []) \<and> distinct (map ms_Name samples)"
  using sample_guard.guard_passes [of "[]" "[]" 0 samples] sample_guard.guard_tracks [of "[]" "[]" 0 samples]
  by (auto simp: distinct_map_sorted_wrt)

definition samples_ok :: "Sample list \<Rightarrow> bool" where
  "samples_ok samples \<longleftrightarrow> (\<forall>s\<in>set samples. ms_Name s \<noteq> []) \<and> distinct (map ms_Name samples)"

lemma sample_loop_ok:
  "samples_ok samples \<Longrightarrow> range_check sample_step 0 [] samples = Inr (map (\<lambda>s. (ms_Name s, sample_value s)) samples)"
  using sample_loop(1) [of samples] by (simp add: samples_ok_def)

lemma sample_loop_bad: "\<not> samples_ok samples \<Longrightarrow> \<exists>e. range_check sample_step 0 [] samples = Inl e"
  using sample_loop(2) [of samples] by (cases "range_check sample_step 0 [] samples") (auto simp: samples_ok_def)

lemma current_lookup:
  "distinct (map ms_Name samples) \<Longrightarrow> s \<in> set samples \<Longrightarrow>
   map_of (map (\<lambda>s. (ms_Name s, sample_value s)) samples) (ms_Name s) = Some (sample_value s)"
  by (rule map_of_is_SomeI) (auto simp: comp_def)

lemma Observe_eq:
  assumes "epoch \<noteq> []" and "samples_ok samples"
  shows "Observe t epoch samples =
    (let current = map_of (map (\<lambda>s. (ms_Name s, sample_value s)) samples);
         deltas = map (\<lambda>n. make_delta (mt_Epoch t \<noteq> epoch) (mt_Values t) n (the (current n))) (sort_less (<) (map ms_Name samples));
         emit = list_ex (\<lambda>d. md_Packets d \<noteq> 0 \<or> md_Bytes d \<noteq> 0) deltas
     in (Inr \<lparr>mb_Epoch = epoch, mb_Sequence = (if emit then mt_Sequence t + 1 else 0), mb_Deltas = deltas\<rparr>,
         t\<lparr>mt_Epoch := epoch, mt_Values := current, mt_Sequence := (if emit then mt_Sequence t + 1 else mt_Sequence t)\<rparr>))"
proof -
  have m: "map fst (map (\<lambda>s. (ms_Name s, sample_value s)) samples) = map ms_Name samples" by simp
  show ?thesis using assms(1) unfolding Observe_def sample_loop_ok [OF assms(2)] sum.case m Let_def
    by simp
qed

lemma Observe_ok:
  assumes "epoch \<noteq> []" and "samples_ok samples"
  obtains b where "fst (Observe t epoch samples) = Inr b"
    and "mb_Deltas b = map (\<lambda>n. make_delta (mt_Epoch t \<noteq> epoch) (mt_Values t) n
           (the (map_of (map (\<lambda>s. (ms_Name s, sample_value s)) samples) n))) (sort_less (<) (map ms_Name samples))"
    and "mt_Epoch (snd (Observe t epoch samples)) = epoch"
    and "mt_Values (snd (Observe t epoch samples)) = map_of (map (\<lambda>s. (ms_Name s, sample_value s)) samples)"
  unfolding Observe_eq [OF assms] Let_def by simp

text \<open>What a batch reports for a counter, in bytes or in packets.\<close>

definition delta_sum :: "(MeterDelta \<Rightarrow> u64) \<Rightarrow> string \<Rightarrow> MeterBatch \<Rightarrow> nat" where
  "delta_sum get n b = sum_list (map (\<lambda>d. unat (get d)) (filter (\<lambda>d. md_Name d = n) (mb_Deltas b)))"

lemma make_delta_name [simp]: "md_Name (make_delta c vs n v) = n"
  by (simp add: make_delta_def Let_def)

lemma filter_name_singleton:
  "distinct ns \<Longrightarrow> n \<in> set ns \<Longrightarrow> filter (\<lambda>d. md_Name d = n) (map (\<lambda>m. make_delta c vs m (f m)) ns) = [make_delta c vs n (f n)]"
proof (induction ns)
  case (Cons m ns)
  have "filter (\<lambda>d. md_Name d = n) (map (\<lambda>m. make_delta c vs m (f m)) ns) = []" if "n \<notin> set ns"
    using that by (auto simp: filter_empty_conv)
  with Cons show ?case by (cases "m = n") auto
qed simp

lemma Observe_delta_of:
  assumes "epoch \<noteq> []" and "samples_ok samples" and "s \<in> set samples" and "fst (Observe t epoch samples) = Inr b"
  shows "filter (\<lambda>d. md_Name d = ms_Name s) (mb_Deltas b) =
    [make_delta (mt_Epoch t \<noteq> epoch) (mt_Values t) (ms_Name s) (sample_value s)]"
proof -
  have d: "distinct (map ms_Name samples)" using assms(2) by (simp add: samples_ok_def)
  show ?thesis
    by (rule Observe_ok [OF assms(1,2), of t])
      (use assms d in \<open>auto simp: filter_name_singleton current_lookup\<close>)
qed

lemma unat_le_minus: "w \<le> v \<Longrightarrow> unat (v - w) = unat v - unat (w :: 'a :: len word)"
  by (simp add: unat_sub_if_size word_le_nat_alt)

fun observe_all :: "MeterState \<Rightarrow> string \<Rightarrow> Sample list list \<Rightarrow> string + (MeterBatch list \<times> MeterState)" where
  "observe_all t epoch [] = Inr ([], t)"
| "observe_all t epoch (samples # rest) =
     (case Observe t epoch samples of
        (Inl e, _) \<Rightarrow> Inl e
      | (Inr b, t') \<Rightarrow> (case observe_all t' epoch rest of Inl e \<Rightarrow> Inl e | Inr (bs, t'') \<Rightarrow> Inr (b # bs, t'')))"

definition value_le :: "Value \<Rightarrow> Value \<Rightarrow> bool" where
  "value_le v w \<longleftrightarrow> mv_Packets v \<le> mv_Packets w \<and> mv_Bytes v \<le> mv_Bytes w"

text \<open>What a round shows of a counter, and what the tracker remembers of it for an epoch.\<close>

definition shown :: "string \<Rightarrow> Sample list \<Rightarrow> Value option" where
  "shown n samples = map_of (map (\<lambda>s. (ms_Name s, sample_value s)) samples) n"

definition remembered :: "MeterState \<Rightarrow> string \<Rightarrow> string \<Rightarrow> Value option" where
  "remembered t epoch n = (if mt_Epoch t = epoch then mt_Values t n else None)"

text \<open>The traffic behind a sequence of readings: a fall of packets or bytes, or a round without the counter, ends a run of the counter, and a run stands for its
  last reading.\<close>

fun run_total :: "(Value \<Rightarrow> u64) \<Rightarrow> Value option list \<Rightarrow> nat" where
  "run_total get [] = 0"
| "run_total get (None # vs) = run_total get vs"
| "run_total get [Some v] = unat (get v)"
| "run_total get (Some v # None # vs) = unat (get v) + run_total get vs"
| "run_total get (Some v # Some w # vs) = (if value_le v w then 0 else unat (get v)) + run_total get (Some w # vs)"

abbreviation reading :: "(Value \<Rightarrow> u64) \<Rightarrow> Value option \<Rightarrow> nat" where
  "reading get v \<equiv> (case v of None \<Rightarrow> 0 | Some v \<Rightarrow> unat (get v))"

lemma run_total_rising: "sorted_wrt value_le (v # vs) \<Longrightarrow> run_total get (map Some (v # vs)) = unat (get (last (v # vs)))"
  by (induction vs arbitrary: v) simp_all

lemma Observe_reports:
  assumes "epoch \<noteq> []" and ok: "samples_ok samples" and run: "Observe t epoch samples = (Inr b, t')"
  shows "filter (\<lambda>d. md_Name d = n) (mb_Deltas b) =
      (case shown n samples of None \<Rightarrow> [] | Some v \<Rightarrow> [make_delta (mt_Epoch t \<noteq> epoch) (mt_Values t) n v])"
    and "remembered t' epoch n = shown n samples"
proof -
  have b: "fst (Observe t epoch samples) = Inr b" using run by simp
  show "remembered t' epoch n = shown n samples"
    by (rule Observe_ok [OF assms(1,2), of t]) (use run in \<open>simp add: remembered_def shown_def\<close>)
  show "filter (\<lambda>d. md_Name d = n) (mb_Deltas b) = (case shown n samples of None \<Rightarrow> [] | Some v \<Rightarrow> [make_delta (mt_Epoch t \<noteq> epoch) (mt_Values t) n v])"
  proof (cases "n \<in> ms_Name ` set samples")
    case True
    then obtain s where s: "s \<in> set samples" "ms_Name s = n" by blast
    then have "shown n samples = Some (sample_value s)" using current_lookup [OF _ s(1)] ok by (auto simp: shown_def samples_ok_def)
    then show ?thesis using Observe_delta_of [OF assms(1,2) s(1) b] s(2) by simp
  next
    case False
    then have "shown n samples = None" unfolding shown_def map_of_eq_None_iff by (auto simp: image_image)
    moreover have "filter (\<lambda>d. md_Name d = n) (mb_Deltas b) = []"
      by (rule Observe_ok [OF assms(1,2), of t]) (use b False in \<open>auto simp: filter_empty_conv\<close>)
    ultimately show ?thesis by simp
  qed
qed

lemma make_delta_total:
  assumes "(sel, get) = (md_Bytes, mv_Bytes) \<or> (sel, get) = (md_Packets, mv_Packets)"
  shows "unat (sel (make_delta (mt_Epoch t \<noteq> epoch) (mt_Values t) n v)) + reading get (remembered t epoch n) + run_total get (Some v # vs) =
    run_total get (remembered t epoch n # Some v # vs) + unat (get v)"
  using assms
  by (cases "mt_Epoch t = epoch"; cases "mt_Values t n")
    (auto simp: remembered_def make_delta_def value_le_def unat_le_minus word_le_nat_alt word_less_nat_alt)

lemma observe_all_total:
  assumes "epoch \<noteq> []" and "\<forall>samples\<in>set rounds. samples_ok samples"
    and "(sel, get) = (md_Bytes, mv_Bytes) \<or> (sel, get) = (md_Packets, mv_Packets)"
  shows "\<exists>bs t'. observe_all t epoch rounds = Inr (bs, t') \<and>
    sum_list (map (delta_sum sel n) bs) + reading get (remembered t epoch n) = run_total get (remembered t epoch n # map (shown n) rounds)"
  using assms(2)
proof (induction rounds arbitrary: t)
  case Nil
  then show ?case by (cases "remembered t epoch n") simp_all
next
  case (Cons samples rounds)
  have ok: "samples_ok samples" using Cons.prems by simp
  obtain b t1 where step: "Observe t epoch samples = (Inr b, t1)"
    using Observe_ok [OF assms(1) ok, of t] by (metis prod.collapse)
  note now = Observe_reports [OF assms(1) ok step, of n]
  obtain bs t' where rest: "observe_all t1 epoch rounds = Inr (bs, t')"
    "sum_list (map (delta_sum sel n) bs) + reading get (shown n samples) = run_total get (shown n samples # map (shown n) rounds)"
    using Cons.IH [of t1] Cons.prems now(2) by auto
  have "delta_sum sel n b + sum_list (map (delta_sum sel n) bs) + reading get (remembered t epoch n) =
      run_total get (remembered t epoch n # shown n samples # map (shown n) rounds)"
  proof (cases "shown n samples")
    case None
    then show ?thesis using rest(2) now(1) by (cases "remembered t epoch n") (simp_all add: delta_sum_def)
  next
    case (Some v)
    then show ?thesis
      using rest(2) now(1) make_delta_total [OF assms(3), of t epoch n v "map (shown n) rounds"] by (simp add: delta_sum_def)
  qed
  then show ?case using step rest(1) by simp
qed

lemma Observe_fails:
  "epoch = [] \<or> \<not> samples_ok samples \<Longrightarrow> \<exists>e. Observe t epoch samples = (Inl e, t)"
  using sample_loop_bad [of samples] by (cases "epoch = []") (auto simp: Observe_def)

section \<open>Properties\<close>

text \<open>The tracker fails only for an empty epoch, an unnamed counter or a duplicate, and a failed
  observation leaves the durable state as it was.\<close>

theorem Observe_errors:
  "((\<exists>e. fst (Observe t epoch samples) = Inl e) \<longleftrightarrow> epoch = [] \<or> \<not> samples_ok samples) \<and>
   (\<forall>e. fst (Observe t epoch samples) = Inl e \<longrightarrow> snd (Observe t epoch samples) = t)"
proof (cases "epoch = [] \<or> \<not> samples_ok samples")
  case True
  then show ?thesis using Observe_fails [OF True, of t] by auto
next
  case False
  then have ok: "epoch \<noteq> []" "samples_ok samples" by auto
  obtain b where "fst (Observe t epoch samples) = Inr b" by (rule Observe_ok [OF ok, of t])
  with ok show ?thesis by simp
qed

definition sample_meter :: MeterState where
  "sample_meter = \<lparr>mt_Epoch = ''boot-1'', mt_Sequence = 4, mt_Values = [''a'' \<mapsto> \<lparr>mv_Packets = 2, mv_Bytes = 100\<rparr>]\<rparr>"

theorem Observe_errors_witness: "snd (Observe sample_meter [] []) = sample_meter"
  using Observe_errors [of sample_meter "[]" "[]"] by blast

text \<open>C17. Traffic is conserved: over any number of observations of one epoch, the deltas reported for a counter add up, in bytes and in packets and with no
  wrap-around, to the traffic behind its readings: each run of the counter stands for its last reading, where a run ends when packets or bytes fall or when a round
  does not show the counter, and what the tracker had already reported of the first run is not reported again. For a new counter that is shown in every round and
  never falls, this is the final reading.\<close>

theorem Observe_conserves_traffic:
  assumes "epoch \<noteq> []" and "\<forall>samples\<in>set rounds. samples_ok samples"
  shows "\<exists>bs t'. observe_all t epoch rounds = Inr (bs, t') \<and>
    sum_list (map (delta_sum md_Bytes n) bs) + reading mv_Bytes (remembered t epoch n) = run_total mv_Bytes (remembered t epoch n # map (shown n) rounds) \<and>
    sum_list (map (delta_sum md_Packets n) bs) + reading mv_Packets (remembered t epoch n) = run_total mv_Packets (remembered t epoch n # map (shown n) rounds)"
  using observe_all_total [OF assms, where sel = md_Bytes and get = mv_Bytes and t = t and n = n]
    observe_all_total [OF assms, where sel = md_Packets and get = mv_Packets and t = t and n = n] by auto

theorem Observe_conserves_traffic_witness:
  "\<exists>bs t'. observe_all sample_meter ''boot-1''
       [[\<lparr>ms_Name = ''a'', ms_Packets = 5, ms_Bytes = 160\<rparr>], [\<lparr>ms_Name = ''a'', ms_Packets = 6, ms_Bytes = 90\<rparr>], [],
        [\<lparr>ms_Name = ''a'', ms_Packets = 7, ms_Bytes = 95\<rparr>]] = Inr (bs, t') \<and>
     sum_list (map (delta_sum md_Bytes ''a'') bs) = 60 + 90 + 95 \<and> sum_list (map (delta_sum md_Packets ''a'') bs) = 3 + 6 + 7"
  using Observe_conserves_traffic [of "''boot-1''" "[[\<lparr>ms_Name = ''a'', ms_Packets = 5, ms_Bytes = 160\<rparr>], [\<lparr>ms_Name = ''a'', ms_Packets = 6, ms_Bytes = 90\<rparr>], [],
        [\<lparr>ms_Name = ''a'', ms_Packets = 7, ms_Bytes = 95\<rparr>]]" sample_meter "''a''"]
  by (simp add: samples_ok_def value_le_def sample_meter_def remembered_def shown_def)

text \<open>The batch sequence advances by one exactly when some delta is non-zero, and the batch then
  carries the new number; a silent batch carries no number and keeps the sequence.\<close>

theorem Observe_sequence:
  assumes "fst (Observe t epoch samples) = Inr b"
  shows "if \<exists>d\<in>set (mb_Deltas b). md_Packets d \<noteq> 0 \<or> md_Bytes d \<noteq> 0
    then mt_Sequence (snd (Observe t epoch samples)) = mt_Sequence t + 1 \<and> mb_Sequence b = mt_Sequence t + 1
    else mt_Sequence (snd (Observe t epoch samples)) = mt_Sequence t \<and> mb_Sequence b = 0"
proof -
  have "epoch \<noteq> []" "samples_ok samples" using assms Observe_fails [of epoch samples t] by fastforce+
  note eq = Observe_eq [OF this, of t, unfolded Let_def]
  obtain D E vs where "Observe t epoch samples =
      (Inr \<lparr>mb_Epoch = epoch, mb_Sequence = (if E then mt_Sequence t + 1 else 0), mb_Deltas = D\<rparr>,
       t\<lparr>mt_Epoch := epoch, mt_Values := vs, mt_Sequence := (if E then mt_Sequence t + 1 else mt_Sequence t)\<rparr>)"
    and "E \<longleftrightarrow> (\<exists>d\<in>set D. md_Packets d \<noteq> 0 \<or> md_Bytes d \<noteq> 0)"
    using eq unfolding list_ex_iff by blast
  then show ?thesis using assms by (cases E) auto
qed

theorem Observe_sequence_witness:
  "mt_Sequence (snd (Observe sample_meter ''boot-1'' [\<lparr>ms_Name = ''a'', ms_Packets = 3, ms_Bytes = 160\<rparr>])) = 5"
proof -
  let ?s = "[\<lparr>ms_Name = ''a'', ms_Packets = 3, ms_Bytes = 160\<rparr>]"
  obtain b where b: "fst (Observe sample_meter ''boot-1'' ?s) = Inr b"
    "b = \<lparr>mb_Epoch = ''boot-1'', mb_Sequence = 5, mb_Deltas = [\<lparr>md_Name = ''a'', md_Packets = 1, md_Bytes = 60, md_Reset = False\<rparr>]\<rparr>"
    by (simp add: Observe_def sample_step_def make_delta_def sample_meter_def)
  show ?thesis using Observe_sequence [OF b(1)] by (simp add: b(2) sample_meter_def)
qed

end
