(* ===== verification/Usage.thy ===== *)
theory Usage
  imports Spec_Validate
begin

text \<open>
  \<open>internal/usage/types.go\<close>: the batch of traffic deltas an agent reports, and the check both
  sides apply to it. The duplicate check compares formatted keys; because identifiers contain no
  slash, equal keys mean equal deltas keys.
\<close>

section \<open>Model\<close>

record UsageDelta =
  ud_ForwardID :: string
  ud_Protocol :: Protocol
  ud_Direction :: TrafficDirection
  ud_ResourceVersion :: u64
  ud_Packets :: u64
  ud_Bytes :: u64
  ud_Reset :: bool

record UsageBatch =
  ub_NodeID :: string
  ub_Epoch :: string
  ub_Sequence :: u64
  ub_Generation :: u64
  ub_ObservedAt :: time
  ub_Deltas :: "UsageDelta list"

definition validChecksum :: "string \<Rightarrow> bool" where
  "validChecksum value \<longleftrightarrow> length value = 64 \<and>
     list_all (\<lambda>c. \<not> (c < CHR ''0'' \<or> c > CHR ''9'' \<and> c < CHR ''a'' \<or> c > CHR ''f'')) value"

definition usage_key :: "UsageDelta \<Rightarrow> string" where
  "usage_key d = ud_ForwardID d @ ''/'' @ ud_Protocol d @ ''/'' @ ud_Direction d @ ''/'' @ show_nat (unat (ud_ResourceVersion d))"

definition usage_delta_step :: "nat \<Rightarrow> UsageDelta \<Rightarrow> string set \<Rightarrow> string + string set" where
  "usage_delta_step i delta seen =
     (case ValidateIdentifier ''usage.forward_id'' (ud_ForwardID delta) of
        Some e \<Rightarrow> Inl e
      | None \<Rightarrow>
          if ud_Protocol delta \<noteq> ProtocolTCP \<and> ud_Protocol delta \<noteq> ProtocolUDP
          then Inl (''usage delta '' @ show_nat i @ '' protocol is invalid'')
          else if ud_Direction delta \<noteq> DirectionUpload \<and> ud_Direction delta \<noteq> DirectionDownload
          then Inl (''usage delta '' @ show_nat i @ '' direction is invalid'')
          else if ud_ResourceVersion delta = 0
          then Inl (''usage delta '' @ show_nat i @ '' resource_version is invalid'')
          else if usage_key delta \<in> seen then Inl (''usage delta '' @ show_nat i @ '' is duplicated'')
          else Inr (insert (usage_key delta) seen))"

definition UsageBatch_Validate :: "UsageBatch \<Rightarrow> string option" where
  "UsageBatch_Validate b =
     (case ValidateIdentifier ''usage.node_id'' (ub_NodeID b) of
        Some e \<Rightarrow> Some e
      | None \<Rightarrow>
          if \<not> validChecksum (ub_Epoch b) \<or> ub_Sequence b = 0 \<or> ub_Generation b = 0 \<or> IsZero (ub_ObservedAt b)
          then Some ''usage batch epoch, sequence, generation, or observed_at is invalid''
          else case range_check usage_delta_step 0 {} (ub_Deltas b) of Inl e \<Rightarrow> Some e | Inr _ \<Rightarrow> None)"

section \<open>The duplicate check\<close>

definition usage_delta_ok :: "UsageDelta \<Rightarrow> bool" where
  "usage_delta_ok d \<longleftrightarrow> validIdentifier (ud_ForwardID d) \<and> ud_Protocol d \<in> {ProtocolTCP, ProtocolUDP} \<and>
     ud_Direction d \<in> {DirectionUpload, DirectionDownload} \<and> ud_ResourceVersion d \<noteq> 0"

lemma ValidateIdentifier_None [simp]: "ValidateIdentifier n v = None \<longleftrightarrow> validIdentifier v"
  by (simp add: ValidateIdentifier_def)

interpretation usage_guard: range_guard usage_delta_step usage_delta_ok "\<lambda>c d. usage_key c \<noteq> usage_key d"
  "\<lambda>keys seen. keys = usage_key ` set seen"
proof unfold_locales
  fix keys seen i and d :: UsageDelta
  assume keys: "keys = usage_key ` set seen"
  have free: "usage_key d \<notin> keys \<longleftrightarrow> (\<forall>c\<in>set seen. usage_key c \<noteq> usage_key d)"
    unfolding keys by (rule notin_image_iff)
  have "(\<exists>k. usage_delta_step i d keys = Inr k) \<longleftrightarrow> usage_delta_ok d \<and> usage_key d \<notin> keys"
    by (auto simp: usage_delta_step_def usage_delta_ok_def ValidateIdentifier_def)
  then show "(\<exists>k. usage_delta_step i d keys = Inr k) \<longleftrightarrow>
      usage_delta_ok d \<and> (\<forall>c\<in>set seen. usage_key c \<noteq> usage_key d)" unfolding free .
  show "keys' = usage_key ` set (seen @ [d])" if "usage_delta_step i d keys = Inr keys'" for keys'
    using that by (auto simp: usage_delta_step_def keys split: option.splits if_splits)
qed

lemma identifier_no_slash: "validIdentifier s \<Longrightarrow> CHR ''/'' \<notin> set s"
  by (cases s) (auto simp: list_all_iff identifier_char_def is_alnum_def is_digit_def is_lower_def is_upper_def code_def)

lemma usage_key_inject:
  assumes "usage_delta_ok c" and "usage_delta_ok d" and "usage_key c = usage_key d"
  shows "ud_ForwardID c = ud_ForwardID d \<and> ud_Protocol c = ud_Protocol d \<and> ud_Direction c = ud_Direction d \<and>
    ud_ResourceVersion c = ud_ResourceVersion d"
proof -
  have slash: "CHR ''/'' \<notin> set (ud_ForwardID x)" "CHR ''/'' \<notin> set (ud_Protocol x)" "CHR ''/'' \<notin> set (ud_Direction x)"
    if "usage_delta_ok x" for x
    using that identifier_no_slash by (auto simp: usage_delta_ok_def)
  note s = slash [OF assms(1)] slash [OF assms(2)]
  have 1: "ud_ForwardID c = ud_ForwardID d \<and> ud_Protocol c @ CHR ''/'' # ud_Direction c @ CHR ''/'' # show_nat (unat (ud_ResourceVersion c)) =
      ud_Protocol d @ CHR ''/'' # ud_Direction d @ CHR ''/'' # show_nat (unat (ud_ResourceVersion d))"
    using assms(3) s by (intro sep_inject [of _ "CHR ''/''"]) (simp_all add: usage_key_def)
  note 2 = sep_inject [OF conjunct2 [OF 1] s(2) s(5)]
  note 3 = sep_inject [OF conjunct2 [OF 2] s(3) s(6)]
  show ?thesis using 1 2 3 by (simp add: word_unat_eq_iff)
qed

lemma usage_key_iff:
  assumes "usage_delta_ok c" and "usage_delta_ok d"
  shows "usage_key c = usage_key d \<longleftrightarrow>
    (ud_ForwardID c, ud_Protocol c, ud_Direction c, ud_ResourceVersion c) =
    (ud_ForwardID d, ud_Protocol d, ud_Direction d, ud_ResourceVersion d)"
  using usage_key_inject [OF assms] by (auto simp: usage_key_def)

lemma distinct_map_same_kernel:
  assumes "\<And>x y. x \<in> set xs \<Longrightarrow> y \<in> set xs \<Longrightarrow> f x = f y \<longleftrightarrow> g x = g y"
  shows "distinct (map f xs) \<longleftrightarrow> distinct (map g xs)"
  using assms by (induction xs) (auto simp: image_iff)

section \<open>Property\<close>

text \<open>A batch is accepted exactly when its header is complete, every delta is well-formed, and no
  two deltas are about the same forward, protocol, direction and resource version: the formatted key
  of the code is as good as the tuple.\<close>

theorem UsageBatch_Validate_iff:
  "UsageBatch_Validate b = None \<longleftrightarrow>
     validIdentifier (ub_NodeID b) \<and> validChecksum (ub_Epoch b) \<and> ub_Sequence b \<noteq> 0 \<and> ub_Generation b \<noteq> 0 \<and>
     \<not> IsZero (ub_ObservedAt b) \<and> (\<forall>d\<in>set (ub_Deltas b). usage_delta_ok d) \<and>
     distinct (map (\<lambda>d. (ud_ForwardID d, ud_Protocol d, ud_Direction d, ud_ResourceVersion d)) (ub_Deltas b))"
proof -
  have pass: "(\<exists>st. range_check usage_delta_step 0 {} (ub_Deltas b) = Inr st) \<longleftrightarrow>
      (\<forall>d\<in>set (ub_Deltas b). usage_delta_ok d) \<and> distinct (map usage_key (ub_Deltas b))"
    using usage_guard.guard_passes [of "{}" "[]" 0 "ub_Deltas b"] by (simp add: distinct_map_sorted_wrt)
  have keys: "distinct (map usage_key ds) \<longleftrightarrow>
      distinct (map (\<lambda>d. (ud_ForwardID d, ud_Protocol d, ud_Direction d, ud_ResourceVersion d)) ds)"
    if "\<forall>d\<in>set ds. usage_delta_ok d" for ds
    using that by (intro distinct_map_same_kernel usage_key_iff) simp_all
  have "UsageBatch_Validate b = None \<longleftrightarrow> validIdentifier (ub_NodeID b) \<and> validChecksum (ub_Epoch b) \<and>
      ub_Sequence b \<noteq> 0 \<and> ub_Generation b \<noteq> 0 \<and> \<not> IsZero (ub_ObservedAt b) \<and>
      (\<exists>st. range_check usage_delta_step 0 {} (ub_Deltas b) = Inr st)"
    by (auto simp: UsageBatch_Validate_def ValidateIdentifier_def split: sum.splits)
  then show ?thesis unfolding pass using keys [of "ub_Deltas b"] by blast
qed

theorem UsageBatch_Validate_iff_witness:
  "UsageBatch_Validate \<lparr>ub_NodeID = ''n1'', ub_Epoch = replicate 64 CHR ''a'', ub_Sequence = 1, ub_Generation = 3, ub_ObservedAt = 5,
     ub_Deltas = [\<lparr>ud_ForwardID = ''f1'', ud_Protocol = ProtocolTCP, ud_Direction = DirectionUpload, ud_ResourceVersion = 2,
       ud_Packets = 1, ud_Bytes = 40, ud_Reset = False\<rparr>]\<rparr> = None"
proof -
  have "validIdentifier ''n1''" "validIdentifier ''f1''" "validChecksum (replicate 64 CHR ''a'')" by code_simp+
  then show ?thesis unfolding UsageBatch_Validate_iff by (simp add: usage_delta_ok_def IsZero_def)
qed

end
