(* ===== verification/Health.thy ===== *)
theory Health
  imports Spec_Guarantees "HOL-Library.Multiset"
begin

text \<open>
  \<open>internal/health/engine.go\<close>: the agent's health engine. A round selects the checks whose interval
  has elapsed, probes them concurrently, and folds the outcomes into per-backend hysteresis
  counters. What a probe returns is a parameter; the order in which concurrent probes finish is a
  parameter too, and is shown not to matter.
\<close>

section \<open>Model\<close>

type_synonym Status = string

abbreviation StatusUnknown :: Status where "StatusUnknown \<equiv> ''unknown''"
abbreviation StatusHealthy :: Status where "StatusHealthy \<equiv> ''healthy''"
abbreviation StatusUnhealthy :: Status where "StatusUnhealthy \<equiv> ''unhealthy''"

record HealthReport =
  hr_NodeID :: string
  hr_Generation :: u64
  hr_PoolID :: string
  hr_BackendID :: string
  hr_ResourceVersion :: u64
  hr_Status :: Status
  hr_Latency :: duration
  hr_Error :: string
  hr_ObservedAt :: time

type_synonym probeKey = "string \<times> string"

record probeState =
  ps_lastAttempt :: time
  ps_status :: Status
  ps_consecutiveSuccess :: u8
  ps_consecutiveFailure :: u8
  ps_resourceVersion :: u64

definition noProbe :: probeState where
  "noProbe = \<lparr>ps_lastAttempt = 0, ps_status = [], ps_consecutiveSuccess = 0, ps_consecutiveFailure = 0, ps_resourceVersion = 0\<rparr>"

text \<open>The engine's state is the map from probe keys to probe states; a missing key reads as the zero
  state.\<close>

type_synonym probe_states = "probeKey \<rightharpoonup> probeState"

definition probe_key :: "HealthCheckSpec \<Rightarrow> probeKey" where
  "probe_key check = (hc_PoolID check, hc_BackendID check)"

definition state_at :: "probe_states \<Rightarrow> probeKey \<Rightarrow> probeState" where
  "state_at states key = (case states key of None \<Rightarrow> noProbe | Some st \<Rightarrow> st)"

definition select_step :: "time \<Rightarrow> HealthCheckSpec \<Rightarrow> probe_states \<times> HealthCheckSpec list \<Rightarrow> probe_states \<times> HealthCheckSpec list" where
  "select_step now check acc = (case acc of (states, due) \<Rightarrow>
     let key = probe_key check;
         state = state_at states key;
         (state, states) =
           (if ps_resourceVersion state \<noteq> hc_ResourceVersion check
            then let fresh = noProbe\<lparr>ps_resourceVersion := hc_ResourceVersion check\<rparr> in (fresh, states(key \<mapsto> fresh))
            else (state, states));
         due = (if IsZero (ps_lastAttempt state) \<or>
                   \<not> Before now (ps_lastAttempt state + int (unat (hc_IntervalSeconds check)) * Second)
                then due @ [check] else due)
     in (states, due))"

text \<open>An outcome is a check with the latency and the error, if any, of its probe.\<close>

type_synonym outcome = "HealthCheckSpec \<times> duration \<times> string option"

definition truncate :: "string \<Rightarrow> nat \<Rightarrow> string" where
  "truncate value limit = take limit value"

definition attempt :: "time \<Rightarrow> HealthCheckSpec \<Rightarrow> string option \<Rightarrow> probeState \<Rightarrow> probeState" where
  "attempt now check err state =
     (let state = state\<lparr>ps_resourceVersion := hc_ResourceVersion check, ps_lastAttempt := now\<rparr>;
          state =
            (if err = None then
               let st = state\<lparr>ps_consecutiveFailure := 0\<rparr>;
                   st = (if ps_consecutiveSuccess st < hc_SuccessThreshold check
                         then st\<lparr>ps_consecutiveSuccess := ps_consecutiveSuccess st + 1\<rparr> else st)
               in (if ps_consecutiveSuccess st \<ge> hc_SuccessThreshold check then st\<lparr>ps_status := StatusHealthy\<rparr> else st)
             else
               let st = state\<lparr>ps_consecutiveSuccess := 0\<rparr>;
                   st = (if ps_consecutiveFailure st < hc_FailureThreshold check
                         then st\<lparr>ps_consecutiveFailure := ps_consecutiveFailure st + 1\<rparr> else st)
               in (if ps_consecutiveFailure st \<ge> hc_FailureThreshold check then st\<lparr>ps_status := StatusUnhealthy\<rparr> else st))
      in if ps_status state = [] then state\<lparr>ps_status := StatusUnknown\<rparr> else state)"

definition result_step :: "DesiredState \<Rightarrow> time \<Rightarrow> outcome \<Rightarrow> probe_states \<times> HealthReport list \<Rightarrow> probe_states \<times> HealthReport list" where
  "result_step desired now result acc = (case (result, acc) of ((check, latency, err), (states, reports)) \<Rightarrow>
     let key = probe_key check;
         state = attempt now check err (state_at states key);
         report = \<lparr>hr_NodeID = ds_NodeID desired, hr_Generation = ds_Generation desired, hr_PoolID = hc_PoolID check,
           hr_BackendID = hc_BackendID check, hr_ResourceVersion = hc_ResourceVersion check, hr_Status = ps_status state,
           hr_Latency = latency, hr_Error = (case err of None \<Rightarrow> [] | Some e \<Rightarrow> truncate e 512), hr_ObservedAt = now\<rparr>
     in (states(key \<mapsto> state), reports @ [report]))"

definition report_less :: "HealthReport \<Rightarrow> HealthReport \<Rightarrow> bool" where
  "report_less q r = (if hr_PoolID q = hr_PoolID r then hr_BackendID q < hr_BackendID r else hr_PoolID q < hr_PoolID r)"

text \<open>\<open>arrive\<close> is the order in which the results are received from the channel.\<close>

definition RunDue :: "(HealthCheckSpec \<Rightarrow> duration \<times> string option) \<Rightarrow> (outcome list \<Rightarrow> outcome list)
    \<Rightarrow> probe_states \<Rightarrow> DesiredState \<Rightarrow> time \<Rightarrow> HealthReport list \<times> probe_states" where
  "RunDue probe arrive states desired now =
     (let (states, due) = fold (select_step now) (ds_HealthChecks desired) (states, []);
          active = probe_key ` set (ds_HealthChecks desired);
          states = states |` active;
          results = arrive (map (\<lambda>check. (check, probe check)) due);
          (states, reports) = fold (result_step desired now) results (states, [])
      in (sort_less report_less reports, states))"

section \<open>Hysteresis\<close>

text \<open>The counters after a sequence of attempts of one check, from the zero state of its version.\<close>

definition attempts :: "HealthCheckSpec \<Rightarrow> (time \<times> string option) list \<Rightarrow> probeState \<Rightarrow> probeState" where
  "attempts check os st = fold (\<lambda>(now, err). attempt now check err) os st"

definition trailing :: "('a \<Rightarrow> bool) \<Rightarrow> 'a list \<Rightarrow> nat" where
  "trailing P xs = length (takeWhile P (rev xs))"

lemma trailing_snoc [simp]: "trailing P (xs @ [x]) = (if P x then Suc (trailing P xs) else 0)"
  by (simp add: trailing_def)

lemma trailing_Nil [simp]: "trailing P [] = 0"
  by (simp add: trailing_def)

abbreviation succeeded :: "time \<times> string option \<Rightarrow> bool" where "succeeded o' \<equiv> snd o' = None"
abbreviation failed :: "time \<times> string option \<Rightarrow> bool" where "failed o' \<equiv> snd o' \<noteq> None"

lemma unat_succ_below: "(w :: u8) < t \<Longrightarrow> unat (w + 1) = Suc (unat w)"
proof -
  assume "w < t"
  moreover have "unat t < 256" using unsigned_less [of t, where 'a = nat] by simp
  ultimately have "Suc (unat w) < 256" by (simp add: word_less_nat_alt)
  then show ?thesis by (simp add: unat_word_ariths)
qed

lemma attempt_success:
  "ps_consecutiveFailure (attempt now check None st) = 0"
  "unat (ps_consecutiveSuccess (attempt now check None st)) =
     (if ps_consecutiveSuccess st < hc_SuccessThreshold check then Suc (unat (ps_consecutiveSuccess st)) else unat (ps_consecutiveSuccess st))"
  "ps_status (attempt now check None st) =
     (if hc_SuccessThreshold check \<le> ps_consecutiveSuccess (attempt now check None st) then StatusHealthy
      else if ps_status st = [] then StatusUnknown else ps_status st)"
  by (auto simp: attempt_def Let_def unat_succ_below)

lemma attempt_failure:
  "ps_consecutiveSuccess (attempt now check (Some e) st) = 0"
  "unat (ps_consecutiveFailure (attempt now check (Some e) st)) =
     (if ps_consecutiveFailure st < hc_FailureThreshold check then Suc (unat (ps_consecutiveFailure st)) else unat (ps_consecutiveFailure st))"
  "ps_status (attempt now check (Some e) st) =
     (if hc_FailureThreshold check \<le> ps_consecutiveFailure (attempt now check (Some e) st) then StatusUnhealthy
      else if ps_status st = [] then StatusUnknown else ps_status st)"
  by (auto simp: attempt_def Let_def unat_succ_below)

lemma attempts_snoc: "attempts check (os @ [(now, err)]) st = attempt now check err (attempts check os st)"
  by (simp add: attempts_def)

lemma attempts_counters:
  "unat (ps_consecutiveSuccess (attempts check os noProbe)) = min (unat (hc_SuccessThreshold check)) (trailing succeeded os) \<and>
   unat (ps_consecutiveFailure (attempts check os noProbe)) = min (unat (hc_FailureThreshold check)) (trailing failed os)"
proof (induction os rule: rev_induct)
  case Nil
  then show ?case by (simp add: attempts_def noProbe_def)
next
  case (snoc x xs)
  obtain now err where x: "x = (now, err)" by (cases x)
  show ?case
  proof (cases err)
    case None
    then show ?thesis using snoc
      by (simp add: x attempts_snoc attempt_success word_less_nat_alt del: not_None_eq)
  next
    case (Some e)
    then show ?thesis using snoc
      by (simp add: x attempts_snoc attempt_failure word_less_nat_alt del: not_None_eq)
  qed
qed

lemma attempts_status_nonempty: "ps_status (attempts check os noProbe) = [] \<longleftrightarrow> os = []"
proof (cases os rule: rev_cases)
  case Nil
  then show ?thesis by (simp add: attempts_def noProbe_def)
next
  case (snoc xs x)
  obtain now err where "x = (now, err)" by (cases x)
  with snoc show ?thesis by (cases err) (simp_all add: attempts_snoc attempt_success attempt_failure)
qed

section \<open>Concurrency\<close>

text \<open>Results touch the entry of their own key only, so results for different keys commute.\<close>

interpretation report_order: slice_order report_less
  by unfold_locales (auto simp: report_less_def split: if_splits)

definition result_state :: "time \<Rightarrow> outcome \<Rightarrow> probe_states \<Rightarrow> probe_states" where
  "result_state now r states = (case r of (check, latency, err) \<Rightarrow>
     states(probe_key check \<mapsto> attempt now check err (state_at states (probe_key check))))"

definition result_report :: "DesiredState \<Rightarrow> time \<Rightarrow> outcome \<Rightarrow> probeState \<Rightarrow> HealthReport" where
  "result_report desired now r st = (case r of (check, latency, err) \<Rightarrow>
     \<lparr>hr_NodeID = ds_NodeID desired, hr_Generation = ds_Generation desired, hr_PoolID = hc_PoolID check,
      hr_BackendID = hc_BackendID check, hr_ResourceVersion = hc_ResourceVersion check,
      hr_Status = ps_status (attempt now check err st), hr_Latency = latency,
      hr_Error = (case err of None \<Rightarrow> [] | Some e \<Rightarrow> truncate e 512), hr_ObservedAt = now\<rparr>)"

lemma result_step_split:
  "result_step desired now r (states, reports) =
     (result_state now r states, reports @ [result_report desired now r (state_at states (probe_key (fst r)))])"
  by (cases r) (simp add: result_step_def result_state_def result_report_def Let_def)

lemma result_state_other:
  "probe_key (fst r) \<noteq> k \<Longrightarrow> result_state now r states k = states k"
  by (cases r) (simp add: result_state_def)

lemma result_fold:
  assumes "distinct (map (\<lambda>r. probe_key (fst r)) rs)"
  shows "fold (result_step desired now) rs (states, reports) =
    (\<lambda>k. case find (\<lambda>r. probe_key (fst r) = k) rs of
        None \<Rightarrow> states k
      | Some (check, latency, err) \<Rightarrow> Some (attempt now check err (state_at states k)),
     reports @ map (\<lambda>r. result_report desired now r (state_at states (probe_key (fst r)))) rs)"
  using assms
proof (induction rs arbitrary: states reports)
  case Nil
  then show ?case by simp
next
  case (Cons r rs)
  obtain check latency err where r: "r = (check, latency, err)" by (cases r)
  let ?st = "result_state now r states"
  have other: "state_at ?st (probe_key (fst q)) = state_at states (probe_key (fst q))" if "q \<in> set rs" for q
  proof -
    have "probe_key (fst r) \<noteq> probe_key (fst q)" using Cons.prems that by auto
    then show ?thesis by (simp add: state_at_def result_state_other)
  qed
  have miss: "find (\<lambda>q. probe_key (fst q) = probe_key check) rs = None"
    using Cons.prems by (auto simp: find_None_iff r image_iff)
  have "(case find (\<lambda>q. probe_key (fst q) = k) rs of None \<Rightarrow> ?st k
        | Some (check, latency, err) \<Rightarrow> Some (attempt now check err (state_at ?st k))) =
      (case find (\<lambda>q. probe_key (fst q) = k) (r # rs) of None \<Rightarrow> states k
        | Some (check, latency, err) \<Rightarrow> Some (attempt now check err (state_at states k)))" for k
    using miss by (cases "probe_key check = k") (auto simp: r result_state_def state_at_def split: option.splits)
  moreover have "map (\<lambda>q. result_report desired now q (state_at ?st (probe_key (fst q)))) rs =
      map (\<lambda>q. result_report desired now q (state_at states (probe_key (fst q)))) rs"
    using other by simp
  ultimately show ?case
    using Cons by (simp add: result_step_split del: find.simps)
qed

lemma find_key_perm:
  assumes "distinct (map f xs)" and "mset xs = mset ys"
  shows "find (\<lambda>x. f x = k) xs = find (\<lambda>x. f x = k) ys"
proof -
  have dy: "distinct (map f ys)" using assms by (metis mset_eq_imp_distinct_iff mset_map)
  have st: "set xs = set ys" using assms(2) by (rule mset_eq_setD)
  have one: "find (\<lambda>x. f x = k) zs = Some z" if "distinct (map f zs)" "z \<in> set zs" "f z = k" for zs z
    using that by (induction zs) (auto simp: image_iff)
  show ?thesis
  proof (cases "\<exists>x\<in>set xs. f x = k")
    case True
    then show ?thesis using one [OF assms(1)] one [OF dy] st by metis
  next
    case False
    then have "find (\<lambda>x. f x = k) xs = None" "find (\<lambda>x. f x = k) ys = None" using st by (simp_all add: find_None_iff)
    then show ?thesis by simp
  qed
qed

lemma select_due_keys:
  "distinct (map probe_key (due @ cs)) \<Longrightarrow> distinct (map probe_key (snd (fold (select_step now) cs (states, due))))"
proof (induction cs arbitrary: states due)
  case Nil
  then show ?case by simp
next
  case (Cons c cs)
  obtain st due' where step: "select_step now c (states, due) = (st, due')" by (cases "select_step now c (states, due)")
  then have "due' = due \<or> due' = due @ [c]" by (auto simp: select_step_def Let_def split: if_splits)
  then have "distinct (map probe_key (due' @ cs))"
  proof
    assume "due' = due @ [c]"
    then have "due' @ cs = due @ c # cs" by simp
    then show ?thesis using Cons.prems by metis
  qed (use Cons.prems in simp)
  from Cons.IH [OF this, of st] show ?case by (simp add: step)
qed

lemma RunDue_arrival:
  assumes "distinct (map probe_key (ds_HealthChecks desired))" and "\<And>rs. mset (arrive rs) = mset rs"
  shows "RunDue probe arrive states desired now = RunDue probe (\<lambda>rs. rs) states desired now"
proof -
  obtain st due where sel: "fold (select_step now) (ds_HealthChecks desired) (states, []) = (st, due)" by fastforce
  have "distinct (map probe_key due)"
    using select_due_keys [of "[]" "ds_HealthChecks desired" now states] assms(1) sel by simp
  let ?rs = "map (\<lambda>check. (check, probe check)) due" and ?states = "st |` (probe_key ` set (ds_HealthChecks desired))"
  have d: "distinct (map (\<lambda>r. probe_key (fst r)) ?rs)" using \<open>distinct (map probe_key due)\<close> by (simp add: comp_def)
  have ms: "mset ?rs = mset (arrive ?rs)" by (simp only: assms(2))
  have "mset (map (\<lambda>r. probe_key (fst r)) ?rs) = mset (map (\<lambda>r. probe_key (fst r)) (arrive ?rs))"
    by (simp only: mset_map assms(2))
  from d [unfolded mset_eq_imp_distinct_iff [OF this]]
  have d': "distinct (map (\<lambda>r. probe_key (fst r)) (arrive ?rs))" .
  let ?rep = "\<lambda>r. result_report desired now r (state_at ?states (probe_key (fst r)))"
  have "sort_less report_less (map ?rep (arrive ?rs)) = sort_less report_less (map ?rep ?rs)"
  proof (rule report_order.slice_perm)
    have key: "(hr_PoolID (?rep r), hr_BackendID (?rep r)) = probe_key (fst r)" for r
      by (cases r) (simp add: result_report_def probe_key_def)
    have rep: "distinct (map ?rep rs)" if "distinct (map (\<lambda>r. probe_key (fst r)) rs)" for rs
    proof -
      have "distinct (map (\<lambda>q. (hr_PoolID q, hr_BackendID q)) (map ?rep rs))"
        using that by (simp only: map_map comp_def key)
      then show ?thesis unfolding distinct_map [of _ "map ?rep rs"] by blast
    qed
    show "distinct (map ?rep (arrive ?rs))" "distinct (map ?rep ?rs)" using rep d d' by blast+
    show "set (map ?rep (arrive ?rs)) = set (map ?rep ?rs)" 
      by (simp only: list.set_map [of ?rep] mset_eq_setD [OF ms, symmetric])
    show "report_less a b \<or> report_less b a"
      if mem: "a \<in> set (map ?rep (arrive ?rs))" "b \<in> set (map ?rep (arrive ?rs))" and "a \<noteq> b" for a b
    proof -
      obtain q r where qr: "a = ?rep q" "b = ?rep r" "q \<in> set (arrive ?rs)" "r \<in> set (arrive ?rs)"
        using mem unfolding list.set_map [of ?rep] by blast
      then have "probe_key (fst q) \<noteq> probe_key (fst r)" using \<open>a \<noteq> b\<close> d' by (auto simp: distinct_map inj_on_def)
      then have "(hr_PoolID a, hr_BackendID a) \<noteq> (hr_PoolID b, hr_BackendID b)" using key qr by simp
      then show ?thesis by (auto simp: report_less_def)
    qed
  qed
  then show ?thesis
    by (simp add: RunDue_def sel result_fold [OF d] result_fold [OF d'] find_key_perm [OF d ms])
qed

section \<open>Properties\<close>

text \<open>Hysteresis: a backend is declared healthy exactly when its last \<open>SuccessThreshold\<close> attempts
  succeeded, unhealthy exactly when its last \<open>FailureThreshold\<close> attempts failed, and keeps its status
  in between (\<open>unknown\<close> before the first decision), with no overflow of the 8-bit counters.\<close>

theorem health_hysteresis:
  assumes "hc_SuccessThreshold check \<noteq> 0" and "hc_FailureThreshold check \<noteq> 0"
  shows "ps_status (attempts check (os @ [r]) noProbe) =
    (if unat (hc_SuccessThreshold check) \<le> trailing succeeded (os @ [r]) then StatusHealthy
     else if unat (hc_FailureThreshold check) \<le> trailing failed (os @ [r]) then StatusUnhealthy
     else if os = [] then StatusUnknown else ps_status (attempts check os noProbe))"
proof -
  obtain now err where r: "r = (now, err)" by (cases r)
  have pos: "0 < unat (hc_SuccessThreshold check)" "0 < unat (hc_FailureThreshold check)"
    using assms by (simp_all add: unat_gt_0)
  show ?thesis
  proof (cases err)
    case None
    then show ?thesis using attempts_counters [of check os] pos
      by (simp add: r attempts_snoc attempt_success word_le_nat_alt word_less_nat_alt attempts_status_nonempty del: not_None_eq)
  next
    case (Some e)
    then show ?thesis using attempts_counters [of check os] pos
      by (simp add: r attempts_snoc attempt_failure word_le_nat_alt word_less_nat_alt attempts_status_nonempty del: not_None_eq)
  qed
qed

theorem health_hysteresis_witness:
  "ps_status (attempts (sample_check ''b1'') [(1, Some ''refused''), (2, Some ''refused''), (3, Some ''refused'')] noProbe) = StatusUnhealthy"
  using health_hysteresis [of "sample_check ''b1''" "[(1, Some ''refused''), (2, Some ''refused'')]" "(3, Some ''refused'')"]
  by (simp add: sample_check_def trailing_def)

text \<open>Probes run concurrently, but the reports and the new engine state do not depend on the order
  in which they finish.\<close>

theorem health_round_deterministic:
  assumes "Validate desired = []" and "\<And>rs. mset (arrive rs) = mset rs"
  shows "RunDue probe arrive states desired now = RunDue probe (\<lambda>rs. rs) states desired now"
proof (rule RunDue_arrival [OF _ assms(2)])
  show "distinct (map probe_key (ds_HealthChecks desired))"
    using assms(1) unfolding Validate_well_formed well_formed_def probe_key_def [abs_def] by blast
qed

theorem health_round_deterministic_witness:
  "RunDue (\<lambda>c. (7, None)) rev Map.empty sample_state 100 = RunDue (\<lambda>c. (7, None)) (\<lambda>rs. rs) Map.empty sample_state 100"
  by (rule health_round_deterministic [OF sample_valid]) simp

end
