(* ===== verification/IAM.thy ===== *)
theory IAM
  imports Spec_Guarantees Go_Text
begin

text \<open>
  \<open>internal/controller/iam\<close>: accounts, tenant policies and the decision whether a tenant may create
  a forward. An error keeps the format and the arguments of the \<open>fmt.Errorf\<close> call (rendering them
  plays no role); \<open>None\<close> is the nil error. Errors made by \<open>violation\<close> wrap \<open>ErrForbidden\<close>.
\<close>

section \<open>Accounts\<close>

datatype iam_error =
    Errorf string "string list"
  | ErrForbidden string
  | ErrUnauthenticated

abbreviation (input) violation :: "string \<Rightarrow> iam_error option" where
  "violation message \<equiv> Some (ErrForbidden message)"

type_synonym Role = string
type_synonym AccountStatus = string

abbreviation RoleOwner :: Role where "RoleOwner \<equiv> ''owner''"
abbreviation RoleTenant :: Role where "RoleTenant \<equiv> ''tenant''"
abbreviation StatusActive :: AccountStatus where "StatusActive \<equiv> ''active''"
abbreviation StatusDisabled :: AccountStatus where "StatusDisabled \<equiv> ''disabled''"

record Tenant =
  tn_ID :: string
  tn_Name :: string
  tn_Status :: AccountStatus
  tn_ExpiresAt :: "time option"
  tn_ResourceVersion :: u64
  tn_CreatedAt :: time
  tn_UpdatedAt :: time

record Account =
  ac_ID :: string
  ac_TenantID :: string
  ac_Username :: string
  ac_DisplayName :: string
  ac_Role :: Role
  ac_Status :: AccountStatus
  ac_PasswordHash :: string
  ac_FailedLoginCount :: u32
  ac_LockedUntil :: "time option"
  ac_ExpiresAt :: "time option"
  ac_ResourceVersion :: u64
  ac_LastLoginAt :: "time option"
  ac_CreatedAt :: time
  ac_UpdatedAt :: time

definition Account_Available :: "Account \<Rightarrow> time \<Rightarrow> iam_error option" where
  "Account_Available a now =
     (if ac_Status a \<noteq> StatusActive then Some ErrUnauthenticated
      else if (case ac_ExpiresAt a of None \<Rightarrow> False | Some t \<Rightarrow> \<not> Before now t) then Some ErrUnauthenticated
      else if (case ac_LockedUntil a of None \<Rightarrow> False | Some t \<Rightarrow> Before now t) then Some ErrUnauthenticated
      else None)"

section \<open>Policies\<close>

record PortRange =
  pr_Start :: u16
  pr_End :: u16

record Policy =
  po_TenantID :: string
  po_AllowedIngressNodes :: "string list"
  po_AllowedExitNodes :: "string list"
  po_AllowedListenIPs :: "string list"
  po_AllowedPortRanges :: "PortRange list"
  po_AllowedProtocols :: "Protocol list"
  po_AllowViaExit :: bool
  po_MaxForwards :: u32
  po_IngressRateLimitBPS :: u64
  po_EgressRateLimitBPS :: u64
  po_TrafficQuotaBytes :: u64
  po_AllowedTargetCIDRs :: "string list"
  po_DeniedTargetCIDRs :: "string list"
  po_ResourceVersion :: u64
  po_CreatedAt :: time
  po_UpdatedAt :: time

definition EmptyPolicy :: "string \<Rightarrow> Policy" where
  "EmptyPolicy tenantID =
     \<lparr>po_TenantID = tenantID, po_AllowedIngressNodes = [], po_AllowedExitNodes = [], po_AllowedListenIPs = [],
      po_AllowedPortRanges = [], po_AllowedProtocols = [], po_AllowViaExit = False, po_MaxForwards = 0,
      po_IngressRateLimitBPS = 0, po_EgressRateLimitBPS = 0, po_TrafficQuotaBytes = 0, po_AllowedTargetCIDRs = [],
      po_DeniedTargetCIDRs = [], po_ResourceVersion = 1, po_CreatedAt = 0, po_UpdatedAt = 0\<rparr>"

definition ValidateInternalID :: "string \<Rightarrow> string \<Rightarrow> iam_error option" where
  "ValidateInternalID name v = (if validIdentifier v then None else Some (Errorf ''%s is invalid'' [name]))"

definition identifier_step :: "string \<Rightarrow> nat \<Rightarrow> string \<Rightarrow> string set \<Rightarrow> iam_error + string set" where
  "identifier_step name index v seen =
     (case ValidateInternalID (indexed name index) v of
        Some e \<Rightarrow> Inl e
      | None \<Rightarrow> if v \<in> seen then Inl (Errorf ''%s contains duplicate %q'' [name, v]) else Inr (insert v seen))"

definition validateIdentifiers :: "string \<Rightarrow> string list \<Rightarrow> iam_error option" where
  "validateIdentifiers name values =
     (case range_check (identifier_step name) 0 {} values of Inl e \<Rightarrow> Some e | Inr _ \<Rightarrow> None)"

definition listen_ip_step :: "nat \<Rightarrow> string \<Rightarrow> Addr set \<Rightarrow> iam_error + Addr set" where
  "listen_ip_step index v seen =
     (case ParseAddr v of
        None \<Rightarrow> Inl (Errorf ''allowed_listen_ips[%d] is not a usable IPv4 address'' [show_nat index])
      | Some address \<Rightarrow>
          if \<not> Is4 address \<or> IsUnspecified address \<or> IsMulticast address
          then Inl (Errorf ''allowed_listen_ips[%d] is not a usable IPv4 address'' [show_nat index])
          else if address \<in> seen then Inl (Errorf ''allowed_listen_ips contains duplicate %q'' [v])
          else Inr (insert address seen))"

definition validateListenIPs :: "string list \<Rightarrow> iam_error option" where
  "validateListenIPs values = (case range_check listen_ip_step 0 {} values of Inl e \<Rightarrow> Some e | Inr _ \<Rightarrow> None)"

definition prefix_step :: "string \<Rightarrow> nat \<Rightarrow> string \<Rightarrow> Prefix list \<Rightarrow> iam_error + Prefix list" where
  "prefix_step name index v prefixes =
     (case ParsePrefix v of
        None \<Rightarrow> Inl (Errorf ''%s[%d] is not an IPv4 CIDR'' [name, show_nat index])
      | Some prefix \<Rightarrow>
          if \<not> Is4 (pfx_Addr prefix) then Inl (Errorf ''%s[%d] is not an IPv4 CIDR'' [name, show_nat index])
          else let prefix = Masked prefix in
            if prefix \<in> set prefixes then Inl (Errorf ''%s contains duplicate %q'' [name, Prefix_String prefix])
            else Inr (prefixes @ [prefix]))"

definition parsePrefixes :: "string \<Rightarrow> string list \<Rightarrow> iam_error + Prefix list" where
  "parsePrefixes name values = range_check (prefix_step name) 0 [] values"

definition port_range_step :: "nat \<Rightarrow> PortRange \<Rightarrow> unit \<Rightarrow> iam_error + unit" where
  "port_range_step index r u =
     (if pr_Start r = 0 \<or> pr_End r = 0 \<or> pr_Start r > pr_End r
      then Inl (Errorf ''allowed_port_ranges[%d] is invalid'' [show_nat index]) else Inr u)"

definition policy_protocol_step :: "nat \<Rightarrow> Protocol \<Rightarrow> Protocol set \<Rightarrow> iam_error + Protocol set" where
  "policy_protocol_step index protocol seen =
     (if protocol \<noteq> ProtocolTCP \<and> protocol \<noteq> ProtocolUDP then Inl (Errorf ''allowed protocol %q is unsupported'' [protocol])
      else if protocol \<in> seen then Inl (Errorf ''allowed protocol %q is duplicated'' [protocol])
      else Inr (insert protocol seen))"

definition MaxInt64 :: u64 where "MaxInt64 = 9223372036854775807"

text \<open>The two identifier lists come from a map literal, whose iteration order is unspecified; only the
  choice of the error that is reported first depends on it.\<close>

definition Policy_Validate :: "Policy \<Rightarrow> iam_error option" where
  "Policy_Validate p =
     (case ValidateInternalID ''tenant_id'' (po_TenantID p) of Some e \<Rightarrow> Some e | None \<Rightarrow>
      if po_ResourceVersion p = 0 then Some (Errorf ''policy resource_version must be greater than zero'' [])
      else if po_MaxForwards p > 1000000 then Some (Errorf ''max_forwards exceeds the supported limit'' [])
      else if po_IngressRateLimitBPS p > MaxInt64 \<or> po_EgressRateLimitBPS p > MaxInt64 \<or> po_TrafficQuotaBytes p > MaxInt64
      then Some (Errorf ''policy numeric limit exceeds SQLite integer range'' [])
      else case validateIdentifiers ''allowed_ingress_nodes'' (po_AllowedIngressNodes p) of Some e \<Rightarrow> Some e | None \<Rightarrow>
      (case validateIdentifiers ''allowed_exit_nodes'' (po_AllowedExitNodes p) of Some e \<Rightarrow> Some e | None \<Rightarrow>
      (case validateListenIPs (po_AllowedListenIPs p) of Some e \<Rightarrow> Some e | None \<Rightarrow>
      (case range_check port_range_step 0 () (po_AllowedPortRanges p) of Inl e \<Rightarrow> Some e | Inr _ \<Rightarrow>
      (case range_check policy_protocol_step 0 {} (po_AllowedProtocols p) of Inl e \<Rightarrow> Some e | Inr _ \<Rightarrow>
      (case parsePrefixes ''allowed_target_cidrs'' (po_AllowedTargetCIDRs p) of Inl e \<Rightarrow> Some e | Inr _ \<Rightarrow>
      (case parsePrefixes ''denied_target_cidrs'' (po_DeniedTargetCIDRs p) of Inl e \<Rightarrow> Some e | Inr _ \<Rightarrow> None)))))))"

text \<open>\<open>mustPrefixes\<close> of 0.0.0.0/8, 127.0.0.0/8, 169.254.0.0/16, 224.0.0.0/4 and 240.0.0.0/4.\<close>

definition protectedTargetCIDRs :: "Prefix list" where
  "protectedTargetCIDRs = map (\<lambda>v. the (ParsePrefix v)) [''0.0.0.0/8'', ''127.0.0.0/8'', ''169.254.0.0/16'', ''224.0.0.0/4'', ''240.0.0.0/4'']"

definition ProtectedTargetCIDRs :: "string list" where
  "ProtectedTargetCIDRs = map Prefix_String protectedTargetCIDRs"

text \<open>The prefixes of a failed parse are nil.\<close>

definition parsed :: "string \<Rightarrow> string list \<Rightarrow> Prefix list" where
  "parsed name values = (case parsePrefixes name values of Inl _ \<Rightarrow> [] | Inr ps \<Rightarrow> ps)"

definition AuthorizeTarget :: "Policy \<Rightarrow> Addr \<Rightarrow> iam_error option" where
  "AuthorizeTarget p address =
     (if \<not> Is4 address then violation ''only IPv4 targets are supported''
      else if list_ex (\<lambda>prefix. Contains prefix address) protectedTargetCIDRs
      then violation ''target is in a protected system network''
      else if list_ex (\<lambda>prefix. Contains prefix address) (parsed ''denied_target_cidrs'' (po_DeniedTargetCIDRs p))
      then violation ''target is explicitly denied by the tenant policy''
      else if list_ex (\<lambda>prefix. Contains prefix address) (parsed ''allowed_target_cidrs'' (po_AllowedTargetCIDRs p)) then None
      else violation ''target is outside the assigned target networks'')"

definition portAllowed :: "PortRange list \<Rightarrow> u16 \<Rightarrow> bool" where
  "portAllowed ranges port = (if port = 0 then False else list_ex (\<lambda>r. port \<ge> pr_Start r \<and> port \<le> pr_End r) ranges)"

definition protocolAllowed :: "Protocol list \<Rightarrow> Protocol \<Rightarrow> bool" where
  "protocolAllowed allowed candidate = list_ex (\<lambda>p. p = candidate) allowed"

definition contains :: "string list \<Rightarrow> string \<Rightarrow> bool" where
  "contains values candidate = list_ex (\<lambda>v. v = candidate) values"

definition authorize_path :: "Policy \<Rightarrow> ForwardSpec \<Rightarrow> iam_error option" where
  "authorize_path p forward =
     (if fw_PathMode forward = PathViaExit then
        (if \<not> po_AllowViaExit p then violation ''cross-node forwarding is not allowed''
         else if fw_ExitNodeID forward = [] \<or> \<not> contains (po_AllowedExitNodes p) (fw_ExitNodeID forward)
         then violation ''exit node is not assigned to this tenant'' else None)
      else if fw_PathMode forward \<noteq> PathDirect then violation ''forward path mode is unsupported'' else None)"

definition authorize_limits :: "Policy \<Rightarrow> ForwardSpec \<Rightarrow> iam_error option" where
  "authorize_limits p forward =
     (if (case fw_RateLimit forward of None \<Rightarrow> False
          | Some l \<Rightarrow> po_IngressRateLimitBPS p > 0 \<and> rl_IngressBitsPerSecond l > po_IngressRateLimitBPS p)
      then violation ''upload rate exceeds the tenant policy''
      else if (case fw_RateLimit forward of None \<Rightarrow> False
          | Some l \<Rightarrow> po_EgressRateLimitBPS p > 0 \<and> rl_EgressBitsPerSecond l > po_EgressRateLimitBPS p)
      then violation ''download rate exceeds the tenant policy''
      else if (case fw_TrafficQuota forward of None \<Rightarrow> False
          | Some q \<Rightarrow> po_TrafficQuotaBytes p > 0 \<and> tq_Bytes q > po_TrafficQuotaBytes p)
      then violation ''traffic quota exceeds the tenant policy'' else None)"

definition authorize_expiry :: "ForwardSpec \<Rightarrow> time option \<Rightarrow> time \<Rightarrow> iam_error option" where
  "authorize_expiry forward tenantExpiresAt now =
     (if (case fw_ExpiresAt forward of None \<Rightarrow> False | Some e \<Rightarrow> \<not> Before now e)
      then violation ''forward expiry must be in the future''
      else case tenantExpiresAt of None \<Rightarrow> None
        | Some t \<Rightarrow>
            if \<not> Before now t then violation ''tenant has expired''
            else if (case fw_ExpiresAt forward of None \<Rightarrow> True | Some e \<Rightarrow> Before t e)
            then violation ''forward expiry must not exceed tenant expiry'' else None)"

definition AuthorizeForward :: "Policy \<Rightarrow> ForwardSpec \<Rightarrow> u32 \<Rightarrow> time option \<Rightarrow> time \<Rightarrow> iam_error option" where
  "AuthorizeForward p forward currentForwardCount tenantExpiresAt now =
     (case Policy_Validate p of Some e \<Rightarrow> Some e | None \<Rightarrow>
      if fw_UserID forward \<noteq> po_TenantID p then violation ''forward does not belong to the authenticated tenant''
      else if po_MaxForwards p = 0 \<or> currentForwardCount \<ge> po_MaxForwards p then violation ''forward limit has been reached''
      else if \<not> contains (po_AllowedIngressNodes p) (fw_IngressNodeID forward)
      then violation ''ingress node is not assigned to this tenant''
      else case authorize_path p forward of Some e \<Rightarrow> Some e | None \<Rightarrow>
      (let listenIP = ep_Address (fw_Listen forward) in
       if \<not> Is4 listenIP \<or> \<not> contains (po_AllowedListenIPs p) (Addr_String listenIP)
       then violation ''listen IP is not assigned to this tenant''
       else if \<not> portAllowed (po_AllowedPortRanges p) (ep_Port (fw_Listen forward))
       then violation ''listen port is outside the assigned ranges''
       else if fw_Protocols forward = [] then violation ''at least one protocol is required''
       else if list_ex (\<lambda>protocol. \<not> protocolAllowed (po_AllowedProtocols p) protocol) (fw_Protocols forward)
       then violation ''protocol is not assigned to this tenant''
       else case AuthorizeTarget p (ep_Address (fw_Target forward)) of Some e \<Rightarrow> Some e | None \<Rightarrow>
       (case authorize_limits p forward of Some e \<Rightarrow> Some e | None \<Rightarrow>
        authorize_expiry forward tenantExpiresAt now)))"

definition burst_bytes :: "u64 \<Rightarrow> u64 \<Rightarrow> u64" where
  "burst_bytes ingress egress =
     (let maximumRate = (if egress > ingress then egress else ingress);
          burstBytes = maximumRate div 80;
          burstBytes = (if maximumRate mod 80 \<noteq> 0 then burstBytes + 1 else burstBytes)
      in if burstBytes < 64 * 1024 then 64 * 1024 else burstBytes)"

definition DataPlanePolicy :: "Policy \<Rightarrow> iam_error + UserPolicySpec option" where
  "DataPlanePolicy p =
     (case Policy_Validate p of Some e \<Rightarrow> Inl e | None \<Rightarrow>
      let rateLimit = (if po_IngressRateLimitBPS p > 0 \<or> po_EgressRateLimitBPS p > 0
            then Some \<lparr>rl_IngressBitsPerSecond = po_IngressRateLimitBPS p, rl_EgressBitsPerSecond = po_EgressRateLimitBPS p,
                       rl_BurstBytes = burst_bytes (po_IngressRateLimitBPS p) (po_EgressRateLimitBPS p)\<rparr>
            else None);
          trafficQuota = (if po_TrafficQuotaBytes p > 0
            then Some \<lparr>tq_Bytes = po_TrafficQuotaBytes p, tq_Policy = QuotaPolicyPause\<rparr> else None)
      in if rateLimit = None \<and> trafficQuota = None then Inr None
         else Inr (Some \<lparr>up_UserID = po_TenantID p, up_TrafficClassID = 0, up_RateLimit = rateLimit,
                         up_TrafficQuota = trafficQuota, up_ResourceVersion = po_ResourceVersion p\<rparr>))"

section \<open>Canonical policies\<close>

text \<open>The compaction loop of \<open>uniqueSorted\<close>: \<open>written\<close> is the part of the slice up to \<open>write\<close>.\<close>

definition uniqueSorted :: "string list \<Rightarrow> string list" where
  "uniqueSorted values =
     fold (\<lambda>v written. if written = [] \<or> last written \<noteq> v then written @ [v] else written) (sort_less (<) values) []"

definition canonicalCIDRs :: "string list \<Rightarrow> string list" where
  "canonicalCIDRs values = (case parsePrefixes ''cidrs'' values of
      Inl _ \<Rightarrow> values
    | Inr prefixes \<Rightarrow> sort_less (<) (map Prefix_String prefixes))"

definition port_range_less :: "PortRange \<Rightarrow> PortRange \<Rightarrow> bool" where
  "port_range_less r s = (if pr_Start r = pr_Start s then pr_End r < pr_End s else pr_Start r < pr_Start s)"

definition CanonicalizePolicy :: "Policy \<Rightarrow> Policy" where
  "CanonicalizePolicy policy = policy\<lparr>
     po_AllowedIngressNodes := uniqueSorted (po_AllowedIngressNodes policy),
     po_AllowedExitNodes := uniqueSorted (po_AllowedExitNodes policy),
     po_AllowedListenIPs := uniqueSorted (po_AllowedListenIPs policy),
     po_AllowedTargetCIDRs := canonicalCIDRs (po_AllowedTargetCIDRs policy),
     po_DeniedTargetCIDRs := canonicalCIDRs (po_DeniedTargetCIDRs policy),
     po_AllowedPortRanges := sort_less port_range_less (po_AllowedPortRanges policy),
     po_AllowedProtocols := sort_less (<) (po_AllowedProtocols policy)\<rparr>"

section \<open>What validation accepts\<close>

interpretation identifier_guard: range_guard "identifier_step name" validIdentifier "\<lambda>u v. u \<noteq> v" "\<lambda>st seen. st = set seen"
  for name
  by unfold_locales (auto simp: identifier_step_def ValidateInternalID_def split: if_splits)

lemma validateIdentifiers_None:
  "validateIdentifiers name vs = None \<longleftrightarrow> (\<forall>v\<in>set vs. validIdentifier v) \<and> distinct vs"
  using identifier_guard.guard_passes [of "{}" "[]" name 0 vs]
  by (auto simp: validateIdentifiers_def distinct_sorted_wrt split: sum.splits)

definition listen_ip_ok :: "string \<Rightarrow> bool" where
  "listen_ip_ok v \<longleftrightarrow> (\<exists>w. ParseAddr v = Some (Addr4 w) \<and> usable4 (Addr4 w))"

interpretation listen_guard: range_guard listen_ip_step listen_ip_ok "\<lambda>u v. ParseAddr u \<noteq> ParseAddr v"
  "\<lambda>st seen. st = (\<lambda>v. the (ParseAddr v)) ` set seen \<and> (\<forall>v\<in>set seen. listen_ip_ok v)"
proof unfold_locales
  fix st seen i v
  assume tr: "st = (\<lambda>v. the (ParseAddr v)) ` set seen \<and> (\<forall>v\<in>set seen. listen_ip_ok v)"
  have ok: "(\<exists>st'. listen_ip_step i v st = Inr st') \<longleftrightarrow> listen_ip_ok v \<and> the (ParseAddr v) \<notin> st"
    by (cases "ParseAddr v"; cases "the (ParseAddr v)")
      (auto simp: listen_ip_step_def listen_ip_ok_def usable4_def IsUnspecified_def IsMulticast_def)
  have "the (ParseAddr v) \<notin> st \<longleftrightarrow> (\<forall>u\<in>set seen. ParseAddr u \<noteq> ParseAddr v)" if "listen_ip_ok v"
  proof -
    have "the (ParseAddr u) = the (ParseAddr v) \<longleftrightarrow> ParseAddr u = ParseAddr v" if "u \<in> set seen" for u
      using tr that \<open>listen_ip_ok v\<close> by (auto simp: listen_ip_ok_def)
    then show ?thesis using tr by (simp add: notin_image_iff)
  qed
  with ok show "(\<exists>st'. listen_ip_step i v st = Inr st') \<longleftrightarrow> listen_ip_ok v \<and> (\<forall>u\<in>set seen. ParseAddr u \<noteq> ParseAddr v)" by blast
  fix st'
  assume step: "listen_ip_step i v st = Inr st'"
  then have "st' = insert (the (ParseAddr v)) st" by (auto simp: listen_ip_step_def split: option.splits if_splits)
  moreover have "listen_ip_ok v" using ok step by blast
  ultimately show "st' = (\<lambda>v. the (ParseAddr v)) ` set (seen @ [v]) \<and> (\<forall>u\<in>set (seen @ [v]). listen_ip_ok u)" using tr by simp
qed

lemma validateListenIPs_None:
  "validateListenIPs vs = None \<longleftrightarrow> (\<forall>v\<in>set vs. listen_ip_ok v) \<and> distinct (map ParseAddr vs)"
  using listen_guard.guard_passes [of "{}" "[]" 0 vs]
  by (auto simp: validateListenIPs_def distinct_map_sorted_wrt split: sum.splits)

definition cidr_ok :: "string \<Rightarrow> bool" where
  "cidr_ok v \<longleftrightarrow> (\<exists>p. ParsePrefix v = Some p \<and> Is4 (pfx_Addr p))"

definition cidr :: "string \<Rightarrow> Prefix" where
  "cidr v = Masked (the (ParsePrefix v))"

interpretation prefix_guard: range_guard "prefix_step name" cidr_ok "\<lambda>u v. cidr u \<noteq> cidr v" "\<lambda>st seen. st = map cidr seen"
  for name
  by unfold_locales
    (auto simp: prefix_step_def cidr_ok_def cidr_def Let_def image_iff split: option.splits if_splits)

lemma parsePrefixes_iff:
  "(\<exists>ps. parsePrefixes name vs = Inr ps) \<longleftrightarrow> (\<forall>v\<in>set vs. cidr_ok v) \<and> distinct (map cidr vs)"
  "parsePrefixes name vs = Inr ps \<Longrightarrow> ps = map cidr vs"
  using prefix_guard.guard_passes [of "[]" "[]" name 0 vs] prefix_guard.guard_tracks [of "[]" "[]" name 0 vs ps]
  by (auto simp: parsePrefixes_def distinct_map_sorted_wrt)

lemma parsePrefixes_ok:
  "\<forall>v\<in>set vs. cidr_ok v \<Longrightarrow> distinct (map cidr vs) \<Longrightarrow> parsePrefixes name vs = Inr (map cidr vs)"
  using parsePrefixes_iff [of name vs] by blast

definition port_range_ok :: "PortRange \<Rightarrow> bool" where
  "port_range_ok r \<longleftrightarrow> pr_Start r \<noteq> 0 \<and> pr_End r \<noteq> 0 \<and> pr_Start r \<le> pr_End r"

interpretation port_guard: range_guard port_range_step port_range_ok "\<lambda>_ _. True" "\<lambda>_ _. True"
  by unfold_locales (auto simp: port_range_step_def port_range_ok_def)

interpretation policy_protocol_guard: range_guard policy_protocol_step "\<lambda>p. p \<in> {ProtocolTCP, ProtocolUDP}" "\<lambda>p q. p \<noteq> q"
  "\<lambda>st seen. st = set seen"
  by unfold_locales (auto simp: policy_protocol_step_def split: if_splits)

definition policy_valid :: "Policy \<Rightarrow> bool" where
  "policy_valid p \<longleftrightarrow> validIdentifier (po_TenantID p) \<and> po_ResourceVersion p \<noteq> 0 \<and> po_MaxForwards p \<le> 1000000 \<and>
     po_IngressRateLimitBPS p \<le> MaxInt64 \<and> po_EgressRateLimitBPS p \<le> MaxInt64 \<and> po_TrafficQuotaBytes p \<le> MaxInt64 \<and>
     (\<forall>v\<in>set (po_AllowedIngressNodes p). validIdentifier v) \<and> distinct (po_AllowedIngressNodes p) \<and>
     (\<forall>v\<in>set (po_AllowedExitNodes p). validIdentifier v) \<and> distinct (po_AllowedExitNodes p) \<and>
     (\<forall>v\<in>set (po_AllowedListenIPs p). listen_ip_ok v) \<and> distinct (map ParseAddr (po_AllowedListenIPs p)) \<and>
     (\<forall>r\<in>set (po_AllowedPortRanges p). port_range_ok r) \<and>
     (\<forall>q\<in>set (po_AllowedProtocols p). q \<in> {ProtocolTCP, ProtocolUDP}) \<and> distinct (po_AllowedProtocols p) \<and>
     (\<forall>v\<in>set (po_AllowedTargetCIDRs p). cidr_ok v) \<and> distinct (map cidr (po_AllowedTargetCIDRs p)) \<and>
     (\<forall>v\<in>set (po_DeniedTargetCIDRs p). cidr_ok v) \<and> distinct (map cidr (po_DeniedTargetCIDRs p))"

lemma policy_validD:
  assumes "policy_valid p"
  shows "validIdentifier (po_TenantID p)" "po_ResourceVersion p \<noteq> 0" "po_MaxForwards p \<le> 1000000"
    "po_IngressRateLimitBPS p \<le> MaxInt64" "po_EgressRateLimitBPS p \<le> MaxInt64" "po_TrafficQuotaBytes p \<le> MaxInt64"
    "\<forall>v\<in>set (po_AllowedIngressNodes p). validIdentifier v" "distinct (po_AllowedIngressNodes p)"
    "\<forall>v\<in>set (po_AllowedExitNodes p). validIdentifier v" "distinct (po_AllowedExitNodes p)"
    "\<forall>v\<in>set (po_AllowedListenIPs p). listen_ip_ok v" "distinct (map ParseAddr (po_AllowedListenIPs p))"
    "\<forall>r\<in>set (po_AllowedPortRanges p). port_range_ok r"
    "\<forall>q\<in>set (po_AllowedProtocols p). q \<in> {ProtocolTCP, ProtocolUDP}" "distinct (po_AllowedProtocols p)"
    "\<forall>v\<in>set (po_AllowedTargetCIDRs p). cidr_ok v" "distinct (map cidr (po_AllowedTargetCIDRs p))"
    "\<forall>v\<in>set (po_DeniedTargetCIDRs p). cidr_ok v" "distinct (map cidr (po_DeniedTargetCIDRs p))"
  using assms unfolding policy_valid_def by - (elim conjE, assumption)+

lemma sum_ok_iff: "(case r of Inl e \<Rightarrow> Some e | Inr _ \<Rightarrow> k) = None \<longleftrightarrow> (\<exists>x. r = Inr x) \<and> k = None"
  by (cases r) auto

lemma option_ok_iff: "(case r of Some e \<Rightarrow> Some e | None \<Rightarrow> k) = None \<longleftrightarrow> r = None \<and> k = None"
  by (cases r) auto

lemma if_some_ok_iff: "(if c then Some e else k) = None \<longleftrightarrow> \<not> c \<and> k = None"
  by simp

lemmas early_returns = sum_ok_iff option_ok_iff if_some_ok_iff

lemma Policy_Validate_None: "Policy_Validate p = None \<longleftrightarrow> policy_valid p"
proof -
  have ports: "(\<exists>x. range_check port_range_step 0 () rs = Inr x) \<longleftrightarrow> (\<forall>r\<in>set rs. port_range_ok r)" for rs
  proof -
    have "sorted_wrt (\<lambda>_ _. True) rs" by (induction rs) auto
    then show ?thesis using port_guard.guard_passes [where st = "()" and seen = "[]" and i = 0 and xs = rs] by simp
  qed
  have protocols: "(\<exists>x. range_check policy_protocol_step 0 {} qs = Inr x) \<longleftrightarrow>
      (\<forall>q\<in>set qs. q \<in> {ProtocolTCP, ProtocolUDP}) \<and> distinct qs" for qs
    using policy_protocol_guard.guard_passes [of "{}" "[]" 0 qs] by (simp add: distinct_sorted_wrt)
  have "ValidateInternalID n v = None \<longleftrightarrow> validIdentifier v" for n v by (simp add: ValidateInternalID_def)
  then show ?thesis
    unfolding Policy_Validate_def early_returns validateIdentifiers_None validateListenIPs_None ports protocols
      parsePrefixes_iff(1) policy_valid_def de_Morgan_disj not_less by (simp only: simp_thms conj_assoc)
qed

section \<open>Which targets a policy reaches\<close>

definition cidr_set :: "string \<Rightarrow> u32 set" where
  "cidr_set v = {a. Contains (cidr v) (Addr4 a)}"

text \<open>The addresses no tenant may target: this host, loopback, link-local, multicast and reserved.\<close>

definition protected_set :: "u32 set" where
  "protected_set = prefix4 0 8 \<union> prefix4 0x7F000000 8 \<union> prefix4 0xA9FE0000 16 \<union> prefix4 0xE0000000 4 \<union> prefix4 0xF0000000 4"

definition target_permitted :: "Policy \<Rightarrow> Addr \<Rightarrow> bool" where
  "target_permitted p address \<longleftrightarrow> (\<exists>a. address = Addr4 a \<and> a \<notin> protected_set \<and>
     (\<forall>v\<in>set (po_DeniedTargetCIDRs p). a \<notin> cidr_set v) \<and> (\<exists>v\<in>set (po_AllowedTargetCIDRs p). a \<in> cidr_set v))"

lemma Contains_prefix4_numeral:
  "Contains (Prefix (Addr4 p) (numeral k)) (Addr4 a) \<longleftrightarrow> a \<in> prefix4 p (numeral k)"
  by (simp add: Contains_prefix4)

lemma protected_prefixes:
  "protectedTargetCIDRs = [Prefix (Addr4 0) 8, Prefix (Addr4 0x7F000000) 8, Prefix (Addr4 0xA9FE0000) 16,
     Prefix (Addr4 0xE0000000) 4, Prefix (Addr4 0xF0000000) 4]"
proof -
  have "Prefix_String (Prefix (Addr4 0) (int 8)) = ''0.0.0.0/8''" "Prefix_String (Prefix (Addr4 0x7F000000) (int 8)) = ''127.0.0.0/8''"
    "Prefix_String (Prefix (Addr4 0xA9FE0000) (int 16)) = ''169.254.0.0/16''"
    "Prefix_String (Prefix (Addr4 0xE0000000) (int 4)) = ''224.0.0.0/4''"
    "Prefix_String (Prefix (Addr4 0xF0000000) (int 4)) = ''240.0.0.0/4''"
    by code_simp+
  then show ?thesis
    unfolding protectedTargetCIDRs_def
    using ParsePrefix_String [of 8 0] ParsePrefix_String [of 8 "0x7F000000"] ParsePrefix_String [of 16 "0xA9FE0000"]
      ParsePrefix_String [of 4 "0xE0000000"] ParsePrefix_String [of 4 "0xF0000000"] by simp
qed

lemma protected_iff: "list_ex (\<lambda>prefix. Contains prefix (Addr4 a)) protectedTargetCIDRs \<longleftrightarrow> a \<in> protected_set"
  unfolding protected_prefixes protected_set_def list_ex_iff Un_iff
  by (simp only: list.set bex_simps Contains_prefix4_numeral disj_assoc simp_thms)

lemma AuthorizeTarget_None:
  assumes "policy_valid p"
  shows "AuthorizeTarget p address = None \<longleftrightarrow> target_permitted p address"
proof (cases address)
  case (Addr4 a)
  have "parsed ''denied_target_cidrs'' (po_DeniedTargetCIDRs p) = map cidr (po_DeniedTargetCIDRs p)"
      "parsed ''allowed_target_cidrs'' (po_AllowedTargetCIDRs p) = map cidr (po_AllowedTargetCIDRs p)"
    using assms unfolding policy_valid_def parsed_def by (simp_all add: parsePrefixes_ok)
  then show ?thesis
    unfolding AuthorizeTarget_def target_permitted_def Addr4 protected_iff by (simp add: list_ex_iff cidr_set_def)
qed (simp_all add: AuthorizeTarget_def target_permitted_def)

definition path_permitted :: "Policy \<Rightarrow> ForwardSpec \<Rightarrow> bool" where
  "path_permitted p f \<longleftrightarrow> fw_PathMode f = PathDirect \<or>
     fw_PathMode f = PathViaExit \<and> po_AllowViaExit p \<and> fw_ExitNodeID f \<noteq> [] \<and> fw_ExitNodeID f \<in> set (po_AllowedExitNodes p)"

definition limits_permitted :: "Policy \<Rightarrow> ForwardSpec \<Rightarrow> bool" where
  "limits_permitted p f \<longleftrightarrow>
     (\<forall>l. fw_RateLimit f = Some l \<longrightarrow> (po_IngressRateLimitBPS p \<noteq> 0 \<longrightarrow> rl_IngressBitsPerSecond l \<le> po_IngressRateLimitBPS p) \<and>
        (po_EgressRateLimitBPS p \<noteq> 0 \<longrightarrow> rl_EgressBitsPerSecond l \<le> po_EgressRateLimitBPS p)) \<and>
     (\<forall>q. fw_TrafficQuota f = Some q \<longrightarrow> po_TrafficQuotaBytes p \<noteq> 0 \<longrightarrow> tq_Bytes q \<le> po_TrafficQuotaBytes p)"

definition expiry_permitted :: "ForwardSpec \<Rightarrow> time option \<Rightarrow> time \<Rightarrow> bool" where
  "expiry_permitted f tenantExpiresAt now \<longleftrightarrow>
     (\<forall>e. fw_ExpiresAt f = Some e \<longrightarrow> now < e) \<and>
     (\<forall>t. tenantExpiresAt = Some t \<longrightarrow> now < t \<and> (\<exists>e. fw_ExpiresAt f = Some e \<and> e \<le> t))"

text \<open>What a policy permits. The listen address is compared as text by the code; the text of an
  address is read back as that address, so this is equality of addresses.\<close>

definition permits :: "Policy \<Rightarrow> ForwardSpec \<Rightarrow> u32 \<Rightarrow> time option \<Rightarrow> time \<Rightarrow> bool" where
  "permits p f count tenantExpiresAt now \<longleftrightarrow> policy_valid p \<and> fw_UserID f = po_TenantID p \<and> count < po_MaxForwards p \<and>
     fw_IngressNodeID f \<in> set (po_AllowedIngressNodes p) \<and> path_permitted p f \<and>
     (\<exists>a. ep_Address (fw_Listen f) = Addr4 a \<and> string4 a \<in> set (po_AllowedListenIPs p)) \<and>
     ep_Port (fw_Listen f) \<noteq> 0 \<and>
     (\<exists>r\<in>set (po_AllowedPortRanges p). pr_Start r \<le> ep_Port (fw_Listen f) \<and> ep_Port (fw_Listen f) \<le> pr_End r) \<and>
     fw_Protocols f \<noteq> [] \<and> set (fw_Protocols f) \<subseteq> set (po_AllowedProtocols p) \<and>
     target_permitted p (ep_Address (fw_Target f)) \<and> limits_permitted p f \<and> expiry_permitted f tenantExpiresAt now"

lemma contains_iff [simp]: "contains vs v \<longleftrightarrow> v \<in> set vs"
  by (auto simp: contains_def list_ex_iff)

lemma protocolAllowed_iff [simp]: "protocolAllowed vs v \<longleftrightarrow> v \<in> set vs"
  by (auto simp: protocolAllowed_def list_ex_iff)

lemma authorize_path_None: "authorize_path p f = None \<longleftrightarrow> path_permitted p f"
  by (simp add: authorize_path_def path_permitted_def)

lemma authorize_limits_None: "authorize_limits p f = None \<longleftrightarrow> limits_permitted p f"
  by (cases "fw_RateLimit f"; cases "fw_TrafficQuota f")
    (auto simp: authorize_limits_def limits_permitted_def not_less word_gt_0)

lemma authorize_expiry_None: "authorize_expiry f t now = None \<longleftrightarrow> expiry_permitted f t now"
  by (cases "fw_ExpiresAt f"; cases t) (auto simp: authorize_expiry_def expiry_permitted_def Before_def)

lemma AuthorizeForward_permits: "AuthorizeForward p f count t now = None \<longleftrightarrow> permits p f count t now"
proof (cases "policy_valid p")
  case True
  have "po_MaxForwards p = 0 \<or> po_MaxForwards p \<le> count \<longleftrightarrow> \<not> count < po_MaxForwards p"
    by (auto simp: not_less)
  moreover have "portAllowed (po_AllowedPortRanges p) q \<longleftrightarrow> q \<noteq> 0 \<and>
      (\<exists>r\<in>set (po_AllowedPortRanges p). pr_Start r \<le> q \<and> q \<le> pr_End r)" for q
    by (auto simp: portAllowed_def list_ex_iff)
  moreover have "Is4 a \<and> Addr_String a \<in> S \<longleftrightarrow> (\<exists>w. a = Addr4 w \<and> string4 w \<in> S)" for a S
    by (cases a) auto
  moreover have "list_ex (\<lambda>q. q \<notin> S) qs \<longleftrightarrow> \<not> set qs \<subseteq> S" for qs and S :: "string set"
    by (auto simp: list_ex_iff)
  moreover have "Policy_Validate p = None" using True by (simp add: Policy_Validate_None)
  ultimately show ?thesis using True
    unfolding AuthorizeForward_def Let_def early_returns permits_def AuthorizeTarget_None [OF True]
      authorize_path_None authorize_limits_None authorize_expiry_None contains_iff protocolAllowed_iff by simp
next
  case False
  then have "Policy_Validate p \<noteq> None" by (simp add: Policy_Validate_None)
  with False show ?thesis by (auto simp: AuthorizeForward_def permits_def)
qed

section \<open>Canonical policies decide the same\<close>

lemma CanonicalizePolicy_select [simp]:
  "po_TenantID (CanonicalizePolicy p) = po_TenantID p"
  "po_AllowedIngressNodes (CanonicalizePolicy p) = uniqueSorted (po_AllowedIngressNodes p)"
  "po_AllowedExitNodes (CanonicalizePolicy p) = uniqueSorted (po_AllowedExitNodes p)"
  "po_AllowedListenIPs (CanonicalizePolicy p) = uniqueSorted (po_AllowedListenIPs p)"
  "po_AllowedPortRanges (CanonicalizePolicy p) = sort_less port_range_less (po_AllowedPortRanges p)"
  "po_AllowedProtocols (CanonicalizePolicy p) = sort_less (<) (po_AllowedProtocols p)"
  "po_AllowViaExit (CanonicalizePolicy p) = po_AllowViaExit p" "po_MaxForwards (CanonicalizePolicy p) = po_MaxForwards p"
  "po_IngressRateLimitBPS (CanonicalizePolicy p) = po_IngressRateLimitBPS p"
  "po_EgressRateLimitBPS (CanonicalizePolicy p) = po_EgressRateLimitBPS p"
  "po_TrafficQuotaBytes (CanonicalizePolicy p) = po_TrafficQuotaBytes p"
  "po_AllowedTargetCIDRs (CanonicalizePolicy p) = canonicalCIDRs (po_AllowedTargetCIDRs p)"
  "po_DeniedTargetCIDRs (CanonicalizePolicy p) = canonicalCIDRs (po_DeniedTargetCIDRs p)"
  "po_ResourceVersion (CanonicalizePolicy p) = po_ResourceVersion p"
  by (simp_all add: CanonicalizePolicy_def)

lemma unique_adjacent_id:
  "distinct (written @ vs) \<Longrightarrow>
   fold (\<lambda>v written. if written = [] \<or> last written \<noteq> v then written @ [v] else written) vs written = written @ vs"
proof (induction vs arbitrary: written)
  case (Cons v vs)
  then have "written = [] \<or> last written \<noteq> v" using last_in_set by fastforce
  then show ?case using Cons.prems by (simp add: Cons.IH)
qed simp

lemma uniqueSorted_distinct: "distinct vs \<Longrightarrow> uniqueSorted vs = sort_less (<) vs"
  using unique_adjacent_id [of "[]" "sort_less (<) vs"] by (simp add: uniqueSorted_def)

lemma ParsePrefix_shape:
  assumes "ParsePrefix v = Some p" and "Is4 (pfx_Addr p)"
  obtains w b where "p = Prefix (Addr4 w) (int b)" "b \<le> 32"
proof -
  obtain a n where p: "p = PrefixFrom a (int n)" "int n \<le> BitLen a"
    using assms(1) by (auto simp: ParsePrefix_def Let_def split: if_splits option.splits)
  with assms(2) obtain w where "a = Addr4 w" by (cases a) (auto simp: PrefixFrom_def)
  with p show ?thesis using that [of w n] by (simp add: PrefixFrom_def)
qed

lemma cidr_shape:
  assumes "cidr_ok v"
  obtains w b where "cidr v = Prefix (Addr4 w) (int b)" "b \<le> 32" "Masked (cidr v) = cidr v"
proof -
  obtain p where p: "ParsePrefix v = Some p" "Is4 (pfx_Addr p)" using assms by (auto simp: cidr_ok_def)
  obtain w b where "p = Prefix (Addr4 w) (int b)" "b \<le> 32" by (rule ParsePrefix_shape [OF p])
  then show ?thesis
    using that [of "w AND NOT (mask (nat (32 - int b)))" b] p by (simp add: cidr_def Masked_4 and.assoc)
qed

lemma cidr_canonical:
  assumes "cidr_ok v"
  shows "cidr_ok (Prefix_String (cidr v))" and "cidr (Prefix_String (cidr v)) = cidr v"
proof -
  obtain w b where c: "cidr v = Prefix (Addr4 w) (int b)" "b \<le> 32" "Masked (cidr v) = cidr v" by (rule cidr_shape [OF assms])
  then have "ParsePrefix (Prefix_String (cidr v)) = Some (cidr v)" by (simp add: ParsePrefix_String)
  with c show "cidr_ok (Prefix_String (cidr v))" "cidr (Prefix_String (cidr v)) = cidr v"
    by (simp_all add: cidr_ok_def cidr_def)
qed

lemma canonicalCIDRs_keep:
  assumes "\<forall>v\<in>set vs. cidr_ok v" and "distinct (map cidr vs)"
  shows "\<forall>v\<in>set (canonicalCIDRs vs). cidr_ok v" and "distinct (map cidr (canonicalCIDRs vs))"
    and "cidr ` set (canonicalCIDRs vs) = cidr ` set vs"
proof -
  have c: "canonicalCIDRs vs = sort_less (<) (map (\<lambda>v. Prefix_String (cidr v)) vs)"
    by (simp add: canonicalCIDRs_def parsePrefixes_ok [OF assms] comp_def)
  show "\<forall>v\<in>set (canonicalCIDRs vs). cidr_ok v" using assms(1) by (auto simp: c cidr_canonical)
  show "cidr ` set (canonicalCIDRs vs) = cidr ` set vs" using assms(1) by (auto simp: c cidr_canonical image_image)
  show "distinct (map cidr (canonicalCIDRs vs))"
    unfolding c distinct_map_sorted_wrt
    by (rule pairwise_canonical) (use assms in \<open>auto simp: distinct_map_sorted_wrt cidr_canonical\<close>)
qed

lemma distinct_map_sort: "distinct (map f vs) \<Longrightarrow> distinct (map f (sort_less lt vs))"
  unfolding distinct_map_sorted_wrt by (rule sorted_wrt_sort_less) auto

lemma distinct_of_map: "distinct (map f vs) \<Longrightarrow> distinct vs"
  by (simp add: distinct_map)

lemma Canonicalize_lists:
  assumes v: "policy_valid p"
  shows "uniqueSorted (po_AllowedIngressNodes p) = sort_less (<) (po_AllowedIngressNodes p)"
    "uniqueSorted (po_AllowedExitNodes p) = sort_less (<) (po_AllowedExitNodes p)"
    "uniqueSorted (po_AllowedListenIPs p) = sort_less (<) (po_AllowedListenIPs p)"
  by (rule uniqueSorted_distinct, rule policy_validD [OF v] distinct_of_map [OF policy_validD(12) [OF v]])+

lemma Canonicalize_valid:
  assumes v: "policy_valid p"
  shows "policy_valid (CanonicalizePolicy p)"
  unfolding policy_valid_def CanonicalizePolicy_select Canonicalize_lists [OF v] set_sort_less
  by (intro conjI policy_validD [OF v] distinct_sort_less distinct_map_sort canonicalCIDRs_keep(1,2))

lemma Canonicalize_fields:
  assumes v: "policy_valid p"
  shows "set (po_AllowedIngressNodes (CanonicalizePolicy p)) = set (po_AllowedIngressNodes p)"
    "set (po_AllowedExitNodes (CanonicalizePolicy p)) = set (po_AllowedExitNodes p)"
    "set (po_AllowedListenIPs (CanonicalizePolicy p)) = set (po_AllowedListenIPs p)"
    "set (po_AllowedPortRanges (CanonicalizePolicy p)) = set (po_AllowedPortRanges p)"
    "set (po_AllowedProtocols (CanonicalizePolicy p)) = set (po_AllowedProtocols p)"
    "cidr ` set (po_AllowedTargetCIDRs (CanonicalizePolicy p)) = cidr ` set (po_AllowedTargetCIDRs p)"
    "cidr ` set (po_DeniedTargetCIDRs (CanonicalizePolicy p)) = cidr ` set (po_DeniedTargetCIDRs p)"
  unfolding CanonicalizePolicy_select Canonicalize_lists [OF v] set_sort_less
  by (rule refl canonicalCIDRs_keep(3) [OF policy_validD(16,17) [OF v]] canonicalCIDRs_keep(3) [OF policy_validD(18,19) [OF v]])+

lemma Canonicalize_target:
  assumes v: "policy_valid p"
  shows "target_permitted (CanonicalizePolicy p) a = target_permitted p a"
proof -
  have member: "(\<exists>v\<in>S. x \<in> cidr_set v) \<longleftrightarrow> (\<exists>c\<in>cidr ` S. Contains c (Addr4 x))" for S x by (auto simp: cidr_set_def)
  have "(\<forall>v\<in>S. x \<notin> cidr_set v) \<longleftrightarrow> \<not> (\<exists>v\<in>S. x \<in> cidr_set v)" for S x by blast
  then show ?thesis unfolding target_permitted_def member by (simp only: Canonicalize_fields [OF v] member)
qed

lemma burst_bytes_nat:
  assumes "unat i < 2 ^ 63" and "unat e < 2 ^ 63"
  shows "unat (burst_bytes i e) = max 65536 ((max (unat i) (unat e) + 79) div 80)"
proof -
  define m where "m = (if e > i then e else i)"
  have um: "unat m = max (unat i) (unat e)" by (simp add: m_def word_less_nat_alt max_def)
  then have small: "unat m < 2 ^ 63" using assms by simp
  have "unat (m div 80) = unat m div 80" "unat (m mod 80) = unat m mod 80" by (simp_all add: unat_div unat_mod)
  moreover have "unat (m div 80 + 1) = unat m div 80 + 1"
    using small by (simp add: unat_word_ariths unat_div)
  moreover have "(m mod 80 \<noteq> 0) = (unat m mod 80 \<noteq> 0)" by (simp add: word_unat_eq_iff unat_mod)
  moreover have "(n + 79) div 80 = (if n mod 80 \<noteq> 0 then n div 80 + 1 else n div 80)" for n :: nat
  proof -
    have "(n mod 80 + 79) div 80 = (if n mod 80 \<noteq> 0 then 1 else 0)"
      using mod_less_divisor [of 80 n] by (cases "n mod 80 = 0") (auto intro!: div_nat_eqI)
    then show ?thesis using div_add1_eq [of n 79 80] by simp
  qed
  ultimately have c: "unat (if m mod 80 \<noteq> 0 then m div 80 + 1 else m div 80) = (unat m + 79) div 80" by simp
  have "unat (if w < 64 * 1024 then 64 * 1024 else w :: u64) = max 65536 (unat w)" for w
    by (simp add: word_less_nat_alt max_def)
  then show ?thesis unfolding burst_bytes_def Let_def m_def [symmetric] by (simp only: c um)
qed

section \<open>A sample policy\<close>

definition sample_policy :: Policy where
  "sample_policy = (EmptyPolicy ''user-1'')\<lparr>po_AllowedIngressNodes := [''ingress-1''], po_AllowedExitNodes := [''exit-1''],
     po_AllowedListenIPs := [string4 0xCB007105], po_AllowedPortRanges := [\<lparr>pr_Start = 8000, pr_End = 9000\<rparr>],
     po_AllowedProtocols := [ProtocolUDP, ProtocolTCP], po_AllowViaExit := True, po_MaxForwards := 5,
     po_IngressRateLimitBPS := 8000000,
     po_AllowedTargetCIDRs := [Prefix_String (Prefix (Addr4 0xC6336400) (int 24))]\<rparr>"

lemma sample_cidr: "cidr_ok (Prefix_String (Prefix (Addr4 0xC6336400) (int 24)))"
    "cidr (Prefix_String (Prefix (Addr4 0xC6336400) (int 24))) = Prefix (Addr4 0xC6336400) 24"
proof -
  have "(0xC6336400 :: u32) AND NOT (mask 8) = 0xC6336400" by code_simp
  then show "cidr_ok (Prefix_String (Prefix (Addr4 0xC6336400) (int 24)))"
    "cidr (Prefix_String (Prefix (Addr4 0xC6336400) (int 24))) = Prefix (Addr4 0xC6336400) 24"
    using ParsePrefix_String [of 24 "0xC6336400"] by (simp_all add: cidr_ok_def cidr_def Masked_4)
qed

lemma sample_policy_valid: "policy_valid sample_policy"
proof -
  have "validIdentifier ''user-1''" "validIdentifier ''ingress-1''" "validIdentifier ''exit-1''" by code_simp+
  moreover have "listen_ip_ok (string4 0xCB007105)" by (simp add: listen_ip_ok_def ParseAddr_string4 usable4_def)
  ultimately show ?thesis
    using sample_cidr(1) by (simp add: policy_valid_def sample_policy_def EmptyPolicy_def MaxInt64_def port_range_ok_def)
qed

lemma sample_authorized: "AuthorizeForward sample_policy (sample_forward ''f1'' 0x0A4B0001 8443 11) 2 None 100 = None"
proof -
  have "target_permitted sample_policy (Addr4 0xC6336407)"
  proof -
    have "(0xC6336407 :: u32) \<notin> protected_set" by (simp add: protected_set_def prefix4_def)
    moreover have "0xC6336407 \<in> cidr_set (Prefix_String (Prefix (Addr4 0xC6336400) (int 24)))"
      unfolding cidr_set_def sample_cidr(2) mem_Collect_eq Contains_prefix4_numeral by (simp add: prefix4_def)
    ultimately show ?thesis by (simp add: target_permitted_def sample_policy_def EmptyPolicy_def del: of_nat_numeral)
  qed
  then show ?thesis
    unfolding AuthorizeForward_permits permits_def
    using sample_policy_valid
    by (simp add: sample_forward_def path_permitted_def limits_permitted_def expiry_permitted_def)
      (simp add: sample_policy_def EmptyPolicy_def)
qed

section \<open>Properties\<close>

text \<open>C13. The decision about a new forward is the declarative policy: the request is granted exactly
  when every clause of \<open>permits\<close> holds (ownership, count, nodes, path, listen address and port,
  protocols, target networks, limits and expiry).\<close>

theorem AuthorizeForward_decides: "AuthorizeForward p f count t now = None \<longleftrightarrow> permits p f count t now"
  by (rule AuthorizeForward_permits)

text \<open>C32. Isolation: a granted forward listens on an address that the policy lists, and its target is
  an IPv4 address outside the protected system networks and every denied network, and inside an
  allowed one, whatever else the policy says.\<close>

theorem AuthorizeForward_isolates:
  assumes "AuthorizeForward p f count t now = None"
  shows "\<exists>l a. ep_Address (fw_Listen f) = Addr4 l \<and> (\<exists>v\<in>set (po_AllowedListenIPs p). ParseAddr v = Some (Addr4 l)) \<and>
    ep_Address (fw_Target f) = Addr4 a \<and> a \<notin> protected_set \<and>
    a \<notin> \<Union> (cidr_set ` set (po_DeniedTargetCIDRs p)) \<and> a \<in> \<Union> (cidr_set ` set (po_AllowedTargetCIDRs p))"
proof -
  have p: "permits p f count t now" using assms by (simp add: AuthorizeForward_permits)
  then obtain l where "ep_Address (fw_Listen f) = Addr4 l" "string4 l \<in> set (po_AllowedListenIPs p)"
    unfolding permits_def by blast
  moreover obtain a where "ep_Address (fw_Target f) = Addr4 a" "a \<notin> protected_set"
      "a \<notin> \<Union> (cidr_set ` set (po_DeniedTargetCIDRs p))" "a \<in> \<Union> (cidr_set ` set (po_AllowedTargetCIDRs p))"
    using p unfolding permits_def target_permitted_def by blast
  ultimately show ?thesis using ParseAddr_string4 by blast
qed

theorem AuthorizeForward_isolates_witness:
  "\<exists>a. ep_Address (fw_Target (sample_forward ''f1'' 0x0A4B0001 8443 11)) = Addr4 a \<and> a \<notin> protected_set"
  using AuthorizeForward_isolates [OF sample_authorized] by blast

text \<open>The limits a tenant policy sends to the data plane are accepted by state validation: the
  derived user policy is well-formed, names the tenant, and its burst is the rate over 80, rounded
  up, but at least 64 KiB, with no overflow.\<close>

theorem DataPlanePolicy_well_formed:
  assumes "DataPlanePolicy p = Inr (Some u)"
  shows "policy_ok u \<and> up_UserID u = po_TenantID p \<and>
    (\<forall>l. up_RateLimit u = Some l \<longrightarrow>
       unat (rl_BurstBytes l) = max 65536 ((max (unat (po_IngressRateLimitBPS p)) (unat (po_EgressRateLimitBPS p)) + 79) div 80))"
proof -
  let ?i = "po_IngressRateLimitBPS p" and ?e = "po_EgressRateLimitBPS p"
  have ok: "Policy_Validate p = None" using assms by (cases "Policy_Validate p") (auto simp: DataPlanePolicy_def)
  then have v: "policy_valid p" by (simp only: Policy_Validate_None)
  have "unat MaxInt64 < 2 ^ 63" by (simp add: MaxInt64_def)
  then have small: "unat ?i < 2 ^ 63" "unat ?e < 2 ^ 63"
    using policy_validD(4,5) [OF v] unfolding word_le_nat_alt by linarith+
  have burst: "unat (burst_bytes ?i ?e) = max 65536 ((max (unat ?i) (unat ?e) + 79) div 80)"
    by (rule burst_bytes_nat [OF small])
  then have "burst_bytes ?i ?e \<noteq> 0" by (metis max.cobounded1 not_numeral_le_zero unat_0)
  with assms ok burst policy_validD(1,2) [OF v] show ?thesis
    by (auto simp: DataPlanePolicy_def Let_def policy_ok_def rate_ok_def quota_ok_def class_ok_def split: if_splits)
qed

theorem DataPlanePolicy_well_formed_witness:
  "\<exists>u. DataPlanePolicy sample_policy = Inr (Some u) \<and> policy_ok u"
proof -
  have "Policy_Validate sample_policy = None" using sample_policy_valid by (simp add: Policy_Validate_None)
  then obtain u where "DataPlanePolicy sample_policy = Inr (Some u)"
    by (simp add: DataPlanePolicy_def Let_def) (simp add: sample_policy_def EmptyPolicy_def)
  with DataPlanePolicy_well_formed [of sample_policy u] show ?thesis by blast
qed

text \<open>Storing a policy in canonical form changes no decision: it is accepted when the original is,
  and grants exactly the same forwards.\<close>

theorem CanonicalizePolicy_same_decisions:
  assumes "Policy_Validate p = None"
  shows "Policy_Validate (CanonicalizePolicy p) = None \<and>
    (AuthorizeForward (CanonicalizePolicy p) f count t now = None \<longleftrightarrow> AuthorizeForward p f count t now = None)"
proof -
  have v: "policy_valid p" using assms by (simp add: Policy_Validate_None)
  have "permits (CanonicalizePolicy p) f count t now = permits p f count t now"
    unfolding permits_def path_permitted_def limits_permitted_def Canonicalize_target [OF v] Canonicalize_fields [OF v]
    using v Canonicalize_valid [OF v] by simp
  then show ?thesis using Canonicalize_valid [OF v] by (simp add: Policy_Validate_None AuthorizeForward_permits)
qed

theorem CanonicalizePolicy_same_decisions_witness: "Policy_Validate (CanonicalizePolicy sample_policy) = None"
  using CanonicalizePolicy_same_decisions [of sample_policy] sample_policy_valid by (simp add: Policy_Validate_None)

end
