(* ===== verification/Cluster_Types.thy ===== *)
theory Cluster_Types
  imports Spec_Validate Health
begin

text \<open>
  \<open>internal/cluster/types.go\<close>: the cluster plan an operator writes and the placements the scheduler
  computes, with the small selectors of \<open>scheduler.go\<close> that validation, scheduling and compilation
  share. Label maps are association lists with distinct keys; a missing label reads as the empty
  string.
\<close>

section \<open>Data\<close>

abbreviation PlanSchemaVersionV1 :: u32 where "PlanSchemaVersionV1 \<equiv> 1"

type_synonym NodeRole = string
abbreviation RoleIngress :: NodeRole where "RoleIngress \<equiv> ''ingress''"
abbreviation RoleExit :: NodeRole where "RoleExit \<equiv> ''exit''"

type_synonym FailureDomainPolicy = string
abbreviation FailureDomainDistinct :: FailureDomainPolicy where "FailureDomainDistinct \<equiv> ''distinct''"
abbreviation FailureDomainPrefer :: FailureDomainPolicy where "FailureDomainPrefer \<equiv> ''prefer_distinct''"
abbreviation FailureDomainAny :: FailureDomainPolicy where "FailureDomainAny \<equiv> ''any''"

record Capacity =
  cap_MaxForwards :: u32
  cap_IngressBitsPerSecond :: u64
  cap_EgressBitsPerSecond :: u64

record Reservation =
  rv_IngressBitsPerSecond :: u64
  rv_EgressBitsPerSecond :: u64

record RolloutStrategy =
  rs_CanaryPercent :: u8
  rs_BakeSeconds :: u32

record NodeSelector =
  ns_NodeIDs :: "string list"
  ns_MatchLabels :: "(string \<times> string) list"

record WireGuardLink =
  wl_Endpoint :: string
  wl_ListenPort :: u16
  wl_PersistentKeepaliveSeconds :: u16

record FabricLink =
  cl_ID :: string
  cl_PeerNodeID :: string
  cl_Transport :: FabricTransport
  cl_Interface :: string
  cl_LocalAddress :: Prefix
  cl_PeerAddress :: Addr
  cl_MTU :: u16
  cl_RoutingID :: u16
  cl_Trusted :: bool
  cl_WireGuard :: "WireGuardLink option"
  cl_GRE :: "GRESpec option"
  cl_ResourceVersion :: u64

record Node =
  nd_ID :: string
  nd_Enabled :: bool
  nd_Roles :: "NodeRole list"
  nd_Labels :: "(string \<times> string) list"
  nd_ListenIPs :: "Addr list"
  nd_FailureDomain :: string
  nd_Capacity :: Capacity
  nd_FabricLinks :: "FabricLink list"
  nd_ProtocolBlocks :: "ProtocolBlockPolicy option"

record HealthPolicy =
  hp_IntervalSeconds :: u16
  hp_TimeoutMilliseconds :: u16
  hp_FailureThreshold :: u8
  hp_SuccessThreshold :: u8
  hp_StaleAfterSeconds :: u16

record Backend =
  be_ID :: string
  be_Target :: Endpoint
  be_ProbeEndpoint :: "Endpoint option"
  be_Priority :: u16
  be_ResourceVersion :: u64

record BackendPool =
  bp_ID :: string
  bp_Backends :: "Backend list"
  bp_Health :: "HealthPolicy option"
  bp_ResourceVersion :: u64

record Forward =
  cf_ID :: string
  cf_UserID :: string
  cf_Protocols :: "Protocol list"
  cf_Listen :: Endpoint
  cf_PathMode :: PathMode
  cf_Ingress :: NodeSelector
  cf_Exit :: "NodeSelector option"
  cf_FailureDomainPolicy :: FailureDomainPolicy
  cf_BackendPoolID :: string
  cf_SNAT :: SNATSpec
  cf_Reservation :: Reservation
  cf_RateLimit :: "RateLimitSpec option"
  cf_TrafficQuota :: "TrafficQuotaSpec option"
  cf_ExpiresAt :: "time option"
  cf_DrainDeadline :: "time option"
  cf_Lifecycle :: Lifecycle
  cf_ResourceVersion :: u64

record Plan =
  pl_SchemaVersion :: u32
  pl_ID :: string
  pl_Revision :: u64
  pl_NodeOfflineAfterSeconds :: u16
  pl_Rollout :: "RolloutStrategy option"
  pl_ServiceCIDRs :: "Prefix list"
  pl_Nodes :: "Node list"
  pl_UserPolicies :: "UserPolicySpec list"
  pl_BackendPools :: "BackendPool list"
  pl_Forwards :: "Forward list"

record NodeRuntime =
  rt_ID :: string
  rt_Available :: bool
  rt_LastSeen :: time
  rt_Capabilities :: "string \<rightharpoonup> u32"
  rt_WireGuardPublicKey :: string

type_synonym HealthKey = "string \<times> string \<times> string"

record HealthObservation =
  ho_Status :: Status
  ho_ResourceVersion :: u64
  ho_ObservedAt :: time

record Placement =
  pm_ForwardID :: string
  pm_IngressID :: string
  pm_ExitID :: string
  pm_BackendID :: string
  pm_Target :: Endpoint
  pm_PathMode :: PathMode
  pm_FabricInID :: string
  pm_FabricOutID :: string

record Alert =
  al_Code :: string
  al_ForwardID :: string
  al_PoolID :: string
  al_Detail :: string

record Result =
  rs_Placements :: "Placement list"
  rs_Alerts :: "Alert list"

definition EffectiveCanaryPercent :: "RolloutStrategy \<Rightarrow> u8" where
  "EffectiveCanaryPercent s = (if rs_CanaryPercent s = 0 then 100 else rs_CanaryPercent s)"

definition noRollout :: RolloutStrategy where
  "noRollout = \<lparr>rs_CanaryPercent = 0, rs_BakeSeconds = 0\<rparr>"

definition EffectiveRolloutStrategy :: "Plan \<Rightarrow> RolloutStrategy" where
  "EffectiveRolloutStrategy p = (case pl_Rollout p of None \<Rightarrow> noRollout | Some r \<Rightarrow> r)"

section \<open>Selectors\<close>

definition effectiveFailurePolicy :: "FailureDomainPolicy \<Rightarrow> FailureDomainPolicy" where
  "effectiveFailurePolicy policy = (if policy = [] then FailureDomainDistinct else policy)"

definition label :: "Node \<Rightarrow> string \<Rightarrow> string" where
  "label node key = (case map_of (nd_Labels node) key of None \<Rightarrow> [] | Some v \<Rightarrow> v)"

definition selectorMatches :: "NodeSelector \<Rightarrow> Node \<Rightarrow> bool" where
  "selectorMatches selector node =
     (if ns_NodeIDs selector \<noteq> [] \<and> \<not> list_ex (\<lambda>i. i = nd_ID node) (ns_NodeIDs selector) then False
      else list_all (\<lambda>(key, v). label node key = v) (ns_MatchLabels selector))"

definition nodeHasRole :: "Node \<Rightarrow> NodeRole \<Rightarrow> bool" where
  "nodeHasRole node role = list_ex (\<lambda>r. r = role) (nd_Roles node)"

definition fabric_less :: "FabricLink \<Rightarrow> FabricLink \<Rightarrow> bool" where
  "fabric_less k l \<longleftrightarrow> cl_ID k < cl_ID l"

definition reciprocalLink :: "Node \<Rightarrow> string \<Rightarrow> FabricTransport \<Rightarrow> FabricLink option" where
  "reciprocalLink node peerID transport =
     find (\<lambda>link. cl_PeerNodeID link = peerID \<and> cl_Transport link = transport) (sort_less fabric_less (nd_FabricLinks node))"

fun matching_scan :: "Node \<Rightarrow> Node \<Rightarrow> FabricLink list \<Rightarrow> (FabricLink \<times> FabricLink) option" where
  "matching_scan first second [] = None"
| "matching_scan first second (firstLink # links) =
     (if cl_PeerNodeID firstLink \<noteq> nd_ID second then matching_scan first second links
      else case reciprocalLink second (nd_ID first) (cl_Transport firstLink) of
        None \<Rightarrow> matching_scan first second links
      | Some secondLink \<Rightarrow>
          if Unmap (cl_PeerAddress firstLink) \<noteq> Unmap (pfx_Addr (cl_LocalAddress secondLink)) \<or>
             Unmap (cl_PeerAddress secondLink) \<noteq> Unmap (pfx_Addr (cl_LocalAddress firstLink))
          then matching_scan first second links
          else Some (firstLink, secondLink))"

definition matchingLinks :: "Node \<Rightarrow> Node \<Rightarrow> (FabricLink \<times> FabricLink) option" where
  "matchingLinks first second = matching_scan first second (sort_less fabric_less (nd_FabricLinks first))"

definition compileLink :: "FabricLink \<Rightarrow> (string \<rightharpoonup> NodeRuntime) \<Rightarrow> string + FabricLinkSpec" where
  "compileLink link runtimes =
     (let compiled = \<lparr>fl_ID = cl_ID link, fl_PeerNodeID = cl_PeerNodeID link, fl_Transport = cl_Transport link,
            fl_Interface = cl_Interface link, fl_LocalAddress = cl_LocalAddress link, fl_PeerAddress = cl_PeerAddress link,
            fl_MTU = cl_MTU link, fl_RoutingID = cl_RoutingID link, fl_Trusted = cl_Trusted link, fl_WireGuard = None,
            fl_GRE = cl_GRE link, fl_ResourceVersion = cl_ResourceVersion link\<rparr>
      in if cl_Transport link = FabricWireGuard then
           case cl_WireGuard link of
             None \<Rightarrow> Inl ''wireguard settings are missing''
           | Some wg \<Rightarrow>
               (case runtimes (cl_PeerNodeID link) of
                  None \<Rightarrow> Inl ''peer WireGuard public key is unavailable''
                | Some peer \<Rightarrow>
                    if rt_WireGuardPublicKey peer = [] then Inl ''peer WireGuard public key is unavailable''
                    else Inr (compiled\<lparr>fl_WireGuard := Some \<lparr>wg_PeerPublicKey = rt_WireGuardPublicKey peer,
                           wg_Endpoint = wl_Endpoint wg, wg_ListenPort = wl_ListenPort wg,
                           wg_PersistentKeepaliveSeconds = wl_PersistentKeepaliveSeconds wg\<rparr>\<rparr>))
         else Inr compiled)"

definition backendByID :: "Backend list \<Rightarrow> string \<Rightarrow> Backend option" where
  "backendByID backends backendID = find (\<lambda>b. be_ID b = backendID) backends"

section \<open>Links between two nodes\<close>

lemma matching_scan_sound:
  "matching_scan first second links = Some (k, l) \<Longrightarrow>
     k \<in> set links \<and> l \<in> set (nd_FabricLinks second) \<and> cl_PeerNodeID k = nd_ID second \<and> cl_PeerNodeID l = nd_ID first \<and>
     cl_Transport k = cl_Transport l \<and> Unmap (cl_PeerAddress k) = Unmap (pfx_Addr (cl_LocalAddress l)) \<and>
     Unmap (cl_PeerAddress l) = Unmap (pfx_Addr (cl_LocalAddress k))"
proof (induction links)
  case (Cons m links)
  have "l' \<in> set (nd_FabricLinks second)" if "reciprocalLink second i t = Some l'" for l' i t
    using that by (auto simp: reciprocalLink_def find_Some_iff dest: nth_mem) (metis length_sort_less nth_mem set_sort_less)
  moreover have "cl_PeerNodeID l' = i \<and> cl_Transport l' = t" if "reciprocalLink second i t = Some l'" for l' i t
    using that by (auto simp: reciprocalLink_def find_Some_iff)
  ultimately show ?case using Cons by (auto split: if_splits option.splits)
qed simp

lemma matchingLinks_sound:
  "matchingLinks first second = Some (k, l) \<Longrightarrow>
     k \<in> set (nd_FabricLinks first) \<and> l \<in> set (nd_FabricLinks second) \<and> cl_PeerNodeID k = nd_ID second \<and>
     cl_PeerNodeID l = nd_ID first \<and> cl_Transport k = cl_Transport l \<and>
     Unmap (cl_PeerAddress k) = Unmap (pfx_Addr (cl_LocalAddress l)) \<and>
     Unmap (cl_PeerAddress l) = Unmap (pfx_Addr (cl_LocalAddress k))"
  unfolding matchingLinks_def by (drule matching_scan_sound) simp

end
