(* ===== verification/Cluster_Validate.thy ===== *)
theory Cluster_Validate
  imports Cluster_Types Spec_Hostname Spec_Canonical
begin

text \<open>
  \<open>internal/cluster/validate.go\<close> and \<open>internal/cluster/canonical.go\<close>: the checks on a cluster plan and
  its canonical form. The plan's checks reuse those of the desired state: every node's fabric is
  compiled against placeholder keys and validated as a state of its own.
\<close>

section \<open>Scalar checks\<close>

definition maxPlanNodes :: nat where "maxPlanNodes = 10000"
definition maxPlanBackendPools :: nat where "maxPlanBackendPools = 10000"
definition maxBackendsPerPool :: nat where "maxBackendsPerPool = 128"

definition validIPv4Address :: "Addr \<Rightarrow> bool" where
  "validIPv4Address address \<longleftrightarrow>
     IsValid address \<and> Is4 (Unmap address) \<and> \<not> IsUnspecified (Unmap address) \<and> \<not> IsMulticast (Unmap address)"

definition validIPv4Prefix :: "Prefix \<Rightarrow> bool" where
  "validIPv4Prefix p \<longleftrightarrow>
     Prefix_IsValid p \<and> Is4 (pfx_Addr p) \<and> pfx_Bits p \<ge> 0 \<and> pfx_Bits p \<le> 32 \<and> p = Masked p"

definition validIPv4InterfacePrefix :: "Prefix \<Rightarrow> bool" where
  "validIPv4InterfacePrefix p \<longleftrightarrow> Prefix_IsValid p \<and> Is4 (pfx_Addr p) \<and> pfx_Bits p \<ge> 1 \<and> pfx_Bits p \<le> 32"

definition plan_prefixesOverlap :: "Prefix \<Rightarrow> Prefix \<Rightarrow> bool" where
  "plan_prefixesOverlap p q \<longleftrightarrow> Contains p (pfx_Addr q) \<or> Contains q (pfx_Addr p)"

definition validListenEndpoint :: "Endpoint \<Rightarrow> bool" where
  "validListenEndpoint e \<longleftrightarrow> ep_Hostname e = [] \<and> validIPv4Address (ep_Address e) \<and> ep_Port e \<noteq> 0"

definition validTargetEndpoint :: "(string \<Rightarrow> string option) \<Rightarrow> Endpoint \<Rightarrow> bool" where
  "validTargetEndpoint idna e =
     (if \<not> validIPv4Address (ep_Address e) \<or> ep_Port e = 0 then False
      else if ep_Hostname e = [] then True
      else case NormalizeHostname idna (ep_Hostname e) of Inl _ \<Rightarrow> False | Inr _ \<Rightarrow> True)"

definition id_issue :: "string \<Rightarrow> string \<Rightarrow> string list" where
  "id_issue name v = (case ValidateIdentifier name v of None \<Rightarrow> [] | Some e \<Rightarrow> [e])"

section \<open>The plan's own fields\<close>

definition plan_header_issues :: "Plan \<Rightarrow> string list" where
  "plan_header_issues p =
     (let rollout = EffectiveRolloutStrategy p; canaryPercent = EffectiveCanaryPercent rollout in
      issue_if (pl_SchemaVersion p \<noteq> PlanSchemaVersionV1) ''schema_version must be 1'' @
      id_issue ''id'' (pl_ID p) @
      issue_if (length (pl_ID p) > 120) ''id must not exceed 120 characters so its management domain remains valid'' @
      issue_if (pl_Revision p = 0) ''revision must be greater than zero'' @
      issue_if (pl_NodeOfflineAfterSeconds p < 10 \<or> pl_NodeOfflineAfterSeconds p > 600)
        ''node_offline_after_seconds must be between 10 and 600'' @
      issue_if (canaryPercent < 1 \<or> canaryPercent > 100)
        ''rollout.canary_percent must be between 1 and 100, or zero for the 100% default'' @
      (if canaryPercent < 100 then
         issue_if (rs_BakeSeconds rollout < 1 \<or> rs_BakeSeconds rollout > 86400)
           ''rollout.bake_seconds must be between 1 and 86400 when canary_percent is below 100''
       else issue_if (rs_BakeSeconds rollout \<noteq> 0) ''rollout.bake_seconds requires canary_percent below 100'') @
      issue_if (length (pl_Nodes p) > maxPlanNodes) ''nodes must not exceed 10000 entries'' @
      (if length (pl_BackendPools p) > maxPlanBackendPools then [''backend_pools must not exceed 10000 entries'']
       else issue_if (pl_BackendPools p = [] \<and> pl_Forwards p \<noteq> [])
         ''backend_pools must not be empty when forwards are configured'') @
      issue_if (length (pl_Forwards p) > MaxForwardsPerSnapshot) ''forwards exceeds limit 100000'')"

definition plan_cidr_step :: "nat \<Rightarrow> Prefix \<Rightarrow> Prefix list \<Rightarrow> string list \<times> Prefix list" where
  "plan_cidr_step i p cidrs =
     (let name = indexed ''service_cidrs'' i in
      if \<not> validIPv4Prefix p then ([name @ '' must be a masked IPv4 prefix''], cidrs)
      else let p = Masked p in (cidr_issues (plan_prefixesOverlap p) (name @ '' overlaps '') cidrs, cidrs @ [p]))"

section \<open>Nodes and their links\<close>

text \<open>The maps of accepted nodes and pools are association lists in insertion order.\<close>

definition role_step :: "string \<Rightarrow> nat \<Rightarrow> NodeRole \<Rightarrow> NodeRole set \<Rightarrow> string list \<times> NodeRole set" where
  "role_step name i role seen =
     (issue_if (role \<noteq> RoleIngress \<and> role \<noteq> RoleExit) (name @ ''.roles contains an unsupported value'') @
      issue_if (role \<in> seen) (name @ ''.roles contains a duplicate''), insert role seen)"

definition listen_address_step :: "string \<Rightarrow> nat \<Rightarrow> Addr \<Rightarrow> Addr set \<Rightarrow> string list \<times> Addr set" where
  "listen_address_step name j address seen =
     (let address = Unmap address in
      if \<not> validIPv4Address address
      then ([name @ ''.listen_ips['' @ show_nat j @ ''] is not a usable IPv4 address''], seen)
      else (issue_if (address \<in> seen) (name @ ''.listen_ips contains a duplicate''), insert address seen))"

definition label_issues :: "string \<Rightarrow> (string \<times> string) list \<Rightarrow> string list" where
  "label_issues name labels =
     concat (map (\<lambda>(key, v). id_issue (name @ ''.labels key'') key @ id_issue (name @ ''.labels value'') v) labels)"

record plan_link_books =
  kb_links :: "string set"
  kb_routing :: "u16 set"

definition plan_link_step :: "Node \<Rightarrow> string \<Rightarrow> nat \<Rightarrow> FabricLink \<Rightarrow> plan_link_books \<Rightarrow> string list \<times> plan_link_books" where
  "plan_link_step node name j link b =
     (let linkName = name @ ''.'' @ indexed ''fabric_links'' j;
          (i1, links) =
            (case ValidateIdentifier (linkName @ ''.id'') (cl_ID link) of
               Some e \<Rightarrow> ([e], kb_links b)
             | None \<Rightarrow> if cl_ID link \<in> kb_links b then ([linkName @ ''.id is duplicated''], kb_links b)
                 else ([], insert (cl_ID link) (kb_links b)));
          i2 = issue_if (\<not> validIdentifier (cl_PeerNodeID link) \<or> cl_PeerNodeID link = nd_ID node)
                 (linkName @ ''.peer_node_id is invalid'');
          i3 = issue_if (length (cl_Interface link) = 0 \<or> length (cl_Interface link) > 15) (linkName @ ''.interface is invalid'');
          i4 = issue_if (\<not> validIPv4InterfacePrefix (cl_LocalAddress link) \<or> \<not> validIPv4Address (cl_PeerAddress link) \<or>
                 \<not> Contains (Masked (cl_LocalAddress link)) (Unmap (cl_PeerAddress link)) \<or>
                 Unmap (pfx_Addr (cl_LocalAddress link)) = Unmap (cl_PeerAddress link))
                 (linkName @ '' has an invalid local/peer address pair'');
          i5 = issue_if (cl_MTU link < 1280 \<or> cl_MTU link > 9000) (linkName @ ''.mtu must be between 1280 and 9000'');
          (i6, routing) =
            (if cl_RoutingID link = 0 \<or> cl_RoutingID link = 65535 then ([linkName @ ''.routing_id is reserved''], kb_routing b)
             else if cl_RoutingID link \<in> kb_routing b then ([linkName @ ''.routing_id is duplicated''], kb_routing b)
             else ([], insert (cl_RoutingID link) (kb_routing b)));
          i7 = issue_if (cl_ResourceVersion link = 0) (linkName @ ''.resource_version must be greater than zero'');
          i8 = (if cl_Transport link = FabricWireGuard then
                  issue_if (case cl_WireGuard link of None \<Rightarrow> True
                            | Some wg \<Rightarrow> wl_Endpoint wg = [] \<or> wl_ListenPort wg = 0 \<or> cl_GRE link \<noteq> None)
                    (linkName @ '' wireguard settings are incomplete'')
                else if cl_Transport link = FabricDirectL3 then
                  issue_if (\<not> cl_Trusted link \<or> cl_WireGuard link \<noteq> None \<or> cl_GRE link \<noteq> None)
                    (linkName @ '' direct_l3 requires trusted=true and no encapsulation settings'')
                else if cl_Transport link = FabricGRE then
                  issue_if (\<not> cl_Trusted link \<or> cl_GRE link = None \<or> cl_WireGuard link \<noteq> None)
                    (linkName @ '' gre requires trusted=true and GRE settings'')
                else [linkName @ ''.transport is unsupported''])
      in (i1 @ i2 @ i3 @ i4 @ i5 @ i6 @ i7 @ i8, \<lparr>kb_links = links, kb_routing = routing\<rparr>))"

definition node_step :: "nat \<Rightarrow> Node \<Rightarrow> (string \<times> Node) list \<Rightarrow> string list \<times> (string \<times> Node) list" where
  "node_step i node nodes =
     (let name = indexed ''nodes'' i;
          (i1, nodes') =
            (case ValidateIdentifier (name @ ''.id'') (nd_ID node) of
               Some e \<Rightarrow> ([e], nodes)
             | None \<Rightarrow> if map_of nodes (nd_ID node) \<noteq> None then ([name @ ''.id is duplicated''], nodes)
                 else ([], nodes @ [(nd_ID node, node)]));
          i2 = id_issue (name @ ''.failure_domain'') (nd_FailureDomain node);
          i3 = issue_if (cap_MaxForwards (nd_Capacity node) = 0 \<or> cap_MaxForwards (nd_Capacity node) > 100000)
                 (name @ ''.capacity.max_forwards must be between 1 and 100000'');
          i4 = issue_if (nd_Roles node = []) (name @ ''.roles must not be empty'');
          i5 = fst (range_issues (role_step name) 0 {} (nd_Roles node));
          i6 = issue_if (length (nd_Labels node) > 64) (name @ ''.labels exceeds 64 entries'');
          i7 = label_issues name (nd_Labels node);
          i8 = issue_if (length (nd_ListenIPs node) > 64) (name @ ''.listen_ips exceeds 64 entries'');
          i9 = fst (range_issues (listen_address_step name) 0 {} (nd_ListenIPs node));
          i10 = fst (range_issues (plan_link_step node name) 0 \<lparr>kb_links = {}, kb_routing = {}\<rparr> (nd_FabricLinks node))
      in (i1 @ i2 @ i3 @ i4 @ i5 @ i6 @ i7 @ i8 @ i9 @ i10, nodes'))"

definition peer_issues :: "(string \<times> Node) list \<Rightarrow> Node list \<Rightarrow> string list" where
  "peer_issues nodes ns =
     concat (map (\<lambda>node. concat (map (\<lambda>link.
       case map_of nodes (cl_PeerNodeID link) of
         None \<Rightarrow> [''node '' @ nd_ID node @ '' fabric '' @ cl_ID link @ '' references an unknown peer'']
       | Some peer \<Rightarrow>
           issue_if (matchingLinks node peer = None)
             (''node '' @ nd_ID node @ '' fabric '' @ cl_ID link @ '' has no reciprocal peer link''))
       (nd_FabricLinks node))) ns)"

definition dummyRuntimes :: "(string \<times> Node) list \<Rightarrow> string \<rightharpoonup> NodeRuntime" where
  "dummyRuntimes nodes nodeID = (case map_of nodes nodeID of None \<Rightarrow> None
     | Some _ \<Rightarrow> Some \<lparr>rt_ID = nodeID, rt_Available = False, rt_LastSeen = 0, rt_Capabilities = Map.empty,
         rt_WireGuardPublicKey = ''AQIDBAUGBwgJCgsMDQ4PEBESExQVFhcYGRobHB0eHyA=''\<rparr>)"

text \<open>\<open>ValidationError.Error\<close> of the desired state.\<close>

definition desired_error :: "string list \<Rightarrow> string" where
  "desired_error issues = ''invalid desired state: '' @ join ''; '' issues"

definition emptyState :: "string \<Rightarrow> DesiredState" where
  "emptyState nodeID = \<lparr>ds_SchemaVersion = CurrentSchemaVersion, ds_NodeID = nodeID, ds_Generation = 1, ds_ManagementDomain = [],
     ds_ServiceCIDRs = [], ds_FabricLinks = [], ds_HealthChecks = [], ds_UserPolicies = [], ds_ProtocolBlocks = None, ds_Forwards = []\<rparr>"

definition template_issues :: "Plan \<Rightarrow> (string \<rightharpoonup> NodeRuntime) \<Rightarrow> Node \<Rightarrow> string list" where
  "template_issues p runtimes node =
     (let compiled = map (\<lambda>link. (link, compileLink link runtimes)) (nd_FabricLinks node);
          bad = concat (map (\<lambda>(link, c). case c of Inl e \<Rightarrow>
            [''node '' @ nd_ID node @ '' fabric '' @ cl_ID link @ '' is invalid: '' @ e] | Inr _ \<Rightarrow> []) compiled);
          good = concat (map (\<lambda>(link, c). case c of Inl _ \<Rightarrow> [] | Inr l \<Rightarrow> [l]) compiled);
          state = (emptyState (nd_ID node))\<lparr>ds_ServiceCIDRs := pl_ServiceCIDRs p, ds_FabricLinks := good\<rparr>;
          issues = Validate state
      in bad @ issue_if (issues \<noteq> []) (''node '' @ nd_ID node @ '' fabric template is invalid: '' @ desired_error issues))"

section \<open>Backend pools and user policies\<close>

definition backend_step :: "(string \<Rightarrow> string option) \<Rightarrow> string \<Rightarrow> nat \<Rightarrow> Backend \<Rightarrow> string set \<Rightarrow> string list \<times> string set" where
  "backend_step idna name j backend seen =
     (let backendName = name @ ''.'' @ indexed ''backends'' j;
          (i1, seen') =
            (case ValidateIdentifier (backendName @ ''.id'') (be_ID backend) of
               Some e \<Rightarrow> ([e], seen)
             | None \<Rightarrow> if be_ID backend \<in> seen then ([backendName @ ''.id is duplicated''], seen) else ([], insert (be_ID backend) seen));
          i2 = issue_if (\<not> validTargetEndpoint idna (be_Target backend)) (backendName @ ''.target is invalid'');
          i3 = issue_if (case be_ProbeEndpoint backend of None \<Rightarrow> False | Some e \<Rightarrow> \<not> validTargetEndpoint idna e)
                 (backendName @ ''.probe_endpoint is invalid'');
          i4 = issue_if (be_ResourceVersion backend = 0) (backendName @ ''.resource_version must be greater than zero'')
      in (i1 @ i2 @ i3 @ i4, seen'))"

definition health_policy_issues :: "string \<Rightarrow> HealthPolicy option \<Rightarrow> string list" where
  "health_policy_issues name policy = (case policy of None \<Rightarrow> []
    | Some health \<Rightarrow>
        issue_if (hp_IntervalSeconds health < 1 \<or> hp_IntervalSeconds health > 300 \<or> hp_TimeoutMilliseconds health < 100 \<or>
            hp_TimeoutMilliseconds health > 30000 \<or>
            (ucast (hp_TimeoutMilliseconds health) :: u32) > ucast (hp_IntervalSeconds health) * 1000)
          (name @ ''.health interval or timeout is invalid'') @
        issue_if (hp_FailureThreshold health < 1 \<or> hp_FailureThreshold health > 10 \<or> hp_SuccessThreshold health < 1 \<or>
            hp_SuccessThreshold health > 10)
          (name @ ''.health thresholds must be between 1 and 10'') @
        issue_if (hp_StaleAfterSeconds health < hp_IntervalSeconds health \<or> hp_StaleAfterSeconds health > 3600)
          (name @ ''.health.stale_after_seconds must be at least one interval and at most 3600''))"

definition pool_step :: "(string \<Rightarrow> string option) \<Rightarrow> nat \<Rightarrow> BackendPool \<Rightarrow> (string \<times> BackendPool) list
    \<Rightarrow> string list \<times> (string \<times> BackendPool) list" where
  "pool_step idna i pool pools =
     (let name = indexed ''backend_pools'' i;
          (i1, pools') =
            (case ValidateIdentifier (name @ ''.id'') (bp_ID pool) of
               Some e \<Rightarrow> ([e], pools)
             | None \<Rightarrow> if map_of pools (bp_ID pool) \<noteq> None then ([name @ ''.id is duplicated''], pools)
                 else ([], pools @ [(bp_ID pool, pool)]));
          i2 = issue_if (bp_ResourceVersion pool = 0) (name @ ''.resource_version must be greater than zero'');
          i3 = issue_if (bp_Backends pool = [] \<or> length (bp_Backends pool) > maxBackendsPerPool)
                 (name @ ''.backends must contain between 1 and 128 entries'');
          i4 = fst (range_issues (backend_step idna name) 0 {} (bp_Backends pool));
          i5 = health_policy_issues name (bp_Health pool)
      in (i1 @ i2 @ i3 @ i4 @ i5, pools'))"

definition plan_policy_issues :: "Plan \<Rightarrow> string list" where
  "plan_policy_issues p =
     concat (map (\<lambda>(i, policy). issue_if (up_TrafficClassID policy \<noteq> 0)
       (indexed ''user_policies'' i @ ''.traffic_class_id must be zero; Controller allocates it'')) (enumerate 0 (pl_UserPolicies p))) @
     (if pl_UserPolicies p \<noteq> [] then
        let policyNodeID = (case pl_Nodes p of [] \<Rightarrow> ''policy-validation'' | node # _ \<Rightarrow> nd_ID node);
            issues = Validate ((emptyState policyNodeID)\<lparr>ds_UserPolicies := pl_UserPolicies p\<rparr>)
        in issue_if (issues \<noteq> []) (''user_policies are invalid: '' @ desired_error issues)
      else [])"

section \<open>Forwards\<close>

definition selector_id_step :: "string \<Rightarrow> (string \<times> Node) list \<Rightarrow> nat \<Rightarrow> string \<Rightarrow> string set \<Rightarrow> string list \<times> string set" where
  "selector_id_step name nodes i nodeID seen =
     (issue_if (nodeID \<in> seen) (name @ ''.node_ids contains a duplicate'') @
      issue_if (map_of nodes nodeID = None) (name @ ''.node_ids references an unknown node''), insert nodeID seen)"

definition validateSelector :: "string \<Rightarrow> NodeSelector \<Rightarrow> (string \<times> Node) list \<Rightarrow> NodeRole \<Rightarrow> string list" where
  "validateSelector name selector nodes role =
     (if ns_NodeIDs selector = [] \<and> ns_MatchLabels selector = [] then [name @ '' must constrain node_ids or match_labels'']
      else
        fst (range_issues (selector_id_step name nodes) 0 {} (ns_NodeIDs selector)) @
        concat (map (\<lambda>(key, v). issue_if (\<not> validIdentifier key \<or> \<not> validIdentifier v)
          (name @ ''.match_labels contains an invalid key or value'')) (ns_MatchLabels selector)) @
        issue_if (\<not> list_ex (\<lambda>(_, node). selectorMatches selector node \<and> nodeHasRole node role) nodes)
          (name @ '' matches no node with the required role''))"

record plan_forward_books =
  gb_ids :: "string set"
  gb_listeners :: "string \<rightharpoonup> string"

definition listener_text :: "Forward \<Rightarrow> Protocol \<Rightarrow> string" where
  "listener_text forward protocol =
     Addr_String (Unmap (ep_Address (cf_Listen forward))) @ ''/'' @ protocol @ ''/'' @ show_nat (unat (ep_Port (cf_Listen forward)))"

definition plan_protocol_step :: "string \<Rightarrow> Forward \<Rightarrow> nat \<Rightarrow> Protocol \<Rightarrow> Protocol set \<times> (string \<rightharpoonup> string)
    \<Rightarrow> string list \<times> (Protocol set \<times> (string \<rightharpoonup> string))" where
  "plan_protocol_step name forward k protocol st = (case st of (seen, listeners) \<Rightarrow>
     let i1 = issue_if (protocol \<noteq> ProtocolTCP \<and> protocol \<noteq> ProtocolUDP) (name @ ''.protocols contains an unsupported value'');
         i2 = issue_if (protocol \<in> seen) (name @ ''.protocols contains a duplicate'');
         key = listener_text forward protocol
     in (case listeners key of
           Some owner \<Rightarrow> (i1 @ i2 @ [name @ '' listener conflicts with forward '' @ owner], (insert protocol seen, listeners))
         | None \<Rightarrow> (i1 @ i2, (insert protocol seen, listeners(key \<mapsto> cf_ID forward)))))"

definition plan_path_issues :: "string \<Rightarrow> Forward \<Rightarrow> (string \<times> Node) list \<Rightarrow> (string \<times> BackendPool) list \<Rightarrow> Prefix list \<Rightarrow> string list" where
  "plan_path_issues name forward nodes pools cidrs =
     (if cf_PathMode forward = PathDirect then
        issue_if (cf_Exit forward \<noteq> None) (name @ ''.exit must be empty for direct path'')
      else if cf_PathMode forward = PathViaExit then
        (case cf_Exit forward of None \<Rightarrow> [name @ ''.exit is required for via_exit path'']
          | Some selector \<Rightarrow> validateSelector (name @ ''.exit'') selector nodes RoleExit) @
        (let policy = effectiveFailurePolicy (cf_FailureDomainPolicy forward) in
         issue_if (policy \<noteq> FailureDomainDistinct \<and> policy \<noteq> FailureDomainPrefer \<and> policy \<noteq> FailureDomainAny)
           (name @ ''.failure_domain_policy is unsupported'')) @
        issue_if (cidrs = []) (name @ '' via_exit requires service_cidrs'') @
        (case map_of pools (cf_BackendPoolID forward) of None \<Rightarrow> []
          | Some pool \<Rightarrow>
              (case bp_Backends pool of [] \<Rightarrow> []
               | first # rest \<Rightarrow>
                   issue_if (list_ex (\<lambda>b. ep_Port (be_Target b) \<noteq> ep_Port (be_Target first)) rest)
                     (name @ '' via_exit backend pool must use one stable target port for safe exit-first rollout'')))
      else [name @ ''.path_mode is unsupported''])"

definition plan_limit_issues :: "string \<Rightarrow> Forward \<Rightarrow> string list" where
  "plan_limit_issues name forward =
     issue_if (cf_ResourceVersion forward = 0) (name @ ''.resource_version must be greater than zero'') @
     issue_if (case cf_RateLimit forward of None \<Rightarrow> False
               | Some l \<Rightarrow> rl_IngressBitsPerSecond l = 0 \<and> rl_EgressBitsPerSecond l = 0 \<or> rl_BurstBytes l = 0)
       (name @ ''.rate_limit is invalid'') @
     issue_if (case cf_TrafficQuota forward of None \<Rightarrow> False | Some q \<Rightarrow> tq_Bytes q = 0 \<or> tq_Policy q \<noteq> QuotaPolicyPause)
       (name @ ''.traffic_quota is invalid'') @
     issue_if (cf_Lifecycle forward \<noteq> LifecycleActive \<and> cf_Lifecycle forward \<noteq> LifecyclePaused \<and>
         cf_Lifecycle forward \<noteq> LifecycleDraining \<and> cf_Lifecycle forward \<noteq> LifecycleForceDeleting)
       (name @ ''.lifecycle is unsupported'') @
     issue_if (cf_Lifecycle forward = LifecycleDraining \<and> (case cf_DrainDeadline forward of None \<Rightarrow> True | Some t \<Rightarrow> IsZero t) \<or>
         cf_Lifecycle forward \<noteq> LifecycleDraining \<and> cf_DrainDeadline forward \<noteq> None)
       (name @ ''.drain_deadline does not match lifecycle'') @
     issue_if (case cf_ExpiresAt forward of None \<Rightarrow> False | Some t \<Rightarrow> IsZero t) (name @ ''.expires_at must not be zero'') @
     (if snat_Mode (cf_SNAT forward) = SNATMasquerade then
        issue_if (snat_Address (cf_SNAT forward) \<noteq> None) (name @ ''.snat.address must be empty for masquerade'')
      else if snat_Mode (cf_SNAT forward) = SNATStatic then
        issue_if (case snat_Address (cf_SNAT forward) of None \<Rightarrow> True | Some a \<Rightarrow> \<not> validIPv4Address a)
          (name @ ''.snat.address is required and must be IPv4 for static mode'')
      else [name @ ''.snat.mode is unsupported''])"

definition plan_forward_step :: "(string \<times> Node) list \<Rightarrow> (string \<times> BackendPool) list \<Rightarrow> Prefix list \<Rightarrow> nat \<Rightarrow> Forward
    \<Rightarrow> plan_forward_books \<Rightarrow> string list \<times> plan_forward_books" where
  "plan_forward_step nodes pools cidrs i forward b =
     (let name = indexed ''forwards'' i;
          (i1, ids) =
            (case ValidateIdentifier (name @ ''.id'') (cf_ID forward) of
               Some e \<Rightarrow> ([e], gb_ids b)
             | None \<Rightarrow> if cf_ID forward \<in> gb_ids b then ([name @ ''.id is duplicated''], gb_ids b)
                 else ([], insert (cf_ID forward) (gb_ids b)));
          i2 = id_issue (name @ ''.user_id'') (cf_UserID forward);
          i3 = issue_if (map_of pools (cf_BackendPoolID forward) = None) (name @ ''.backend_pool_id does not exist'');
          i4 = issue_if (\<not> validListenEndpoint (cf_Listen forward)) (name @ ''.listen is invalid'');
          i5 = issue_if (cf_Protocols forward = []) (name @ ''.protocols must not be empty'');
          (i6, (_, listeners)) = range_issues (plan_protocol_step name forward) 0 ({}, gb_listeners b) (cf_Protocols forward);
          i7 = validateSelector (name @ ''.ingress'') (cf_Ingress forward) nodes RoleIngress;
          i8 = plan_path_issues name forward nodes pools cidrs;
          i9 = plan_limit_issues name forward
      in (i1 @ i2 @ i3 @ i4 @ i5 @ i6 @ i7 @ i8 @ i9, \<lparr>gb_ids = ids, gb_listeners = listeners\<rparr>))"

text \<open>\<open>Plan.Validate\<close>; the issues are reported sorted, so the iteration order of the maps is not
  visible.\<close>

definition Plan_Validate :: "(string \<Rightarrow> string option) \<Rightarrow> Plan \<Rightarrow> string list" where
  "Plan_Validate idna p =
     (let i1 = plan_header_issues p;
          (i2, cidrs) = range_issues plan_cidr_step 0 [] (pl_ServiceCIDRs p);
          (i3, nodes) = range_issues node_step 0 [] (pl_Nodes p);
          i4 = peer_issues nodes (pl_Nodes p);
          i5 = concat (map (template_issues p (dummyRuntimes nodes)) (pl_Nodes p));
          (i6, pools) = range_issues (pool_step idna) 0 [] (pl_BackendPools p);
          i7 = plan_policy_issues p;
          (i8, _) = range_issues (plan_forward_step nodes pools cidrs) 0 \<lparr>gb_ids = {}, gb_listeners = Map.empty\<rparr> (pl_Forwards p)
      in sort_less (<) (i1 @ i2 @ i3 @ i4 @ i5 @ i6 @ i7 @ i8))"

section \<open>Canonical plan\<close>

definition canonicalTargetEndpoint :: "(string \<Rightarrow> string option) \<Rightarrow> Endpoint \<Rightarrow> Endpoint" where
  "canonicalTargetEndpoint idna e =
     (let e = e\<lparr>ep_Address := Unmap (ep_Address e)\<rparr> in
      if ep_Hostname e \<noteq> [] then
        (case NormalizeHostname idna (ep_Hostname e) of Inl _ \<Rightarrow> e | Inr h \<Rightarrow> e\<lparr>ep_Hostname := h\<rparr>)
      else e)"

definition canonicalSelector :: "NodeSelector \<Rightarrow> NodeSelector" where
  "canonicalSelector selector = selector\<lparr>ns_NodeIDs := sort_less (<) (ns_NodeIDs selector)\<rparr>"

definition canonical_node :: "Node \<Rightarrow> Node" where
  "canonical_node node = node\<lparr>
     nd_ProtocolBlocks := (case nd_ProtocolBlocks node of None \<Rightarrow> None | Some p \<Rightarrow> if ProtocolBlockPolicy_Any p then Some p else None),
     nd_Roles := sort_less (<) (nd_Roles node),
     nd_ListenIPs := sort_less Addr_Less (map Unmap (nd_ListenIPs node)),
     nd_FabricLinks := sort_less fabric_less (nd_FabricLinks node)\<rparr>"

definition backend_less :: "Backend \<Rightarrow> Backend \<Rightarrow> bool" where
  "backend_less a b = (if be_Priority a = be_Priority b then be_ID a < be_ID b else be_Priority a < be_Priority b)"

definition canonical_backend :: "(string \<Rightarrow> string option) \<Rightarrow> Backend \<Rightarrow> Backend" where
  "canonical_backend idna b = b\<lparr>be_Target := canonicalTargetEndpoint idna (be_Target b),
     be_ProbeEndpoint := map_option (canonicalTargetEndpoint idna) (be_ProbeEndpoint b)\<rparr>"

definition canonical_pool :: "(string \<Rightarrow> string option) \<Rightarrow> BackendPool \<Rightarrow> BackendPool" where
  "canonical_pool idna pool = pool\<lparr>bp_Backends := sort_less backend_less (map (canonical_backend idna) (bp_Backends pool))\<rparr>"

definition canonical_plan_forward :: "Forward \<Rightarrow> Forward" where
  "canonical_plan_forward f = f\<lparr>cf_Protocols := sort_less (<) (cf_Protocols f), cf_Ingress := canonicalSelector (cf_Ingress f),
     cf_Exit := map_option canonicalSelector (cf_Exit f),
     cf_FailureDomainPolicy := (if cf_PathMode f = PathViaExit then effectiveFailurePolicy (cf_FailureDomainPolicy f)
       else cf_FailureDomainPolicy f)\<rparr>"

definition Plan_Canonical :: "(string \<Rightarrow> string option) \<Rightarrow> Plan \<Rightarrow> Plan" where
  "Plan_Canonical idna p =
     (let rollout = EffectiveRolloutStrategy p;
          rollout = (if EffectiveCanaryPercent rollout = 100 then rollout\<lparr>rs_CanaryPercent := 0\<rparr> else rollout)
      in p\<lparr>pl_Rollout := (if rollout = noRollout then None else Some rollout),
           pl_ServiceCIDRs := sort_less prefix_string_less (map Masked (pl_ServiceCIDRs p)),
           pl_Nodes := sort_less (\<lambda>m n. nd_ID m < nd_ID n) (map canonical_node (pl_Nodes p)),
           pl_UserPolicies := sort_less policy_less (pl_UserPolicies p),
           pl_BackendPools := sort_less (\<lambda>a b. bp_ID a < bp_ID b) (map (canonical_pool idna) (pl_BackendPools p)),
           pl_Forwards := sort_less (\<lambda>f g. cf_ID f < cf_ID g) (map canonical_plan_forward (pl_Forwards p))\<rparr>)"

definition Plan_Checksum :: "(Plan \<Rightarrow> string option) \<Rightarrow> (string \<Rightarrow> string option) \<Rightarrow> Plan \<Rightarrow> string option" where
  "Plan_Checksum marshal idna p = (case marshal (Plan_Canonical idna p) of None \<Rightarrow> None
     | Some encoded \<Rightarrow> Some (hex_EncodeToString (Sum256 encoded)))"

end
