(* ===== verification/Cluster_Scheduler.thy ===== *)
theory Cluster_Scheduler
  imports Cluster_Validate
begin

text \<open>
  \<open>internal/cluster/scheduler.go\<close>: the scheduler. It walks the forwards of the canonical plan, picks
  for each an ingress node, for a relayed one an exit node, and a backend, and charges the chosen
  nodes. The map of nodes is ranged over in an unspecified order: the model takes the nodes as a
  list, and the choice is shown not to depend on its order.
\<close>

section \<open>Capacity\<close>

record nodeUsage =
  nu_forwards :: u32
  nu_ingress :: u64
  nu_egress :: u64

definition noUsage :: nodeUsage where
  "noUsage = \<lparr>nu_forwards = 0, nu_ingress = 0, nu_egress = 0\<rparr>"

definition effectiveReservation :: "Forward \<Rightarrow> Reservation" where
  "effectiveReservation forward =
     (let reservation = cf_Reservation forward in
      case cf_RateLimit forward of
        None \<Rightarrow> reservation
      | Some l \<Rightarrow>
          let reservation = (if rv_IngressBitsPerSecond reservation = 0
                then reservation\<lparr>rv_IngressBitsPerSecond := rl_IngressBitsPerSecond l\<rparr> else reservation)
          in (if rv_EgressBitsPerSecond reservation = 0
              then reservation\<lparr>rv_EgressBitsPerSecond := rl_EgressBitsPerSecond l\<rparr> else reservation))"

definition fits :: "Node \<Rightarrow> nodeUsage \<Rightarrow> Reservation \<Rightarrow> bool" where
  "fits node current reservation =
     (if nu_forwards current \<ge> cap_MaxForwards (nd_Capacity node) then False
      else if cap_IngressBitsPerSecond (nd_Capacity node) \<noteq> 0 \<and>
              rv_IngressBitsPerSecond reservation > cap_IngressBitsPerSecond (nd_Capacity node) - nu_ingress current then False
      else if cap_EgressBitsPerSecond (nd_Capacity node) \<noteq> 0 \<and>
              rv_EgressBitsPerSecond reservation > cap_EgressBitsPerSecond (nd_Capacity node) - nu_egress current then False
      else True)"

text \<open>A missing usage entry reads as the zero usage, so the map is a function.\<close>

type_synonym usages = "string \<Rightarrow> nodeUsage"

definition consume :: "usages \<Rightarrow> Node \<Rightarrow> Reservation \<Rightarrow> usages" where
  "consume usages node reservation =
     (let current = usages (nd_ID node) in
      usages(nd_ID node := \<lparr>nu_forwards = nu_forwards current + 1,
        nu_ingress = nu_ingress current + rv_IngressBitsPerSecond reservation,
        nu_egress = nu_egress current + rv_EgressBitsPerSecond reservation\<rparr>))"

section \<open>Capabilities\<close>

definition capability :: "NodeRuntime \<Rightarrow> string \<Rightarrow> u32" where
  "capability runtime name = (case rt_Capabilities runtime name of None \<Rightarrow> 0 | Some v \<Rightarrow> v)"

definition supportsFabric :: "NodeRuntime \<Rightarrow> FabricTransport \<Rightarrow> bool" where
  "supportsFabric runtime transport =
     (if capability runtime ''fabric.policy-routing'' < 1 \<or> capability runtime ''fabric.mss-clamp'' < 1 then False
      else if transport = FabricWireGuard then capability runtime ''fabric.wireguard'' \<ge> 1 \<and> rt_WireGuardPublicKey runtime \<noteq> []
      else if transport = FabricDirectL3 then capability runtime ''fabric.direct-l3'' \<ge> 1
      else if transport = FabricGRE then capability runtime ''fabric.gre'' \<ge> 1
      else False)"

text \<open>The required versions; a name that is set twice is set to the same version.\<close>

definition required_capabilities :: "Plan \<Rightarrow> Forward \<Rightarrow> NodeRole \<Rightarrow> BackendPool \<Rightarrow> (string \<times> u32) list" where
  "required_capabilities plan forward role pool =
     (if cf_PathMode forward = PathDirect then [(''nft.direct'', 2)]
      else [(''nft.via-exit'', 1), (''fabric.policy-routing'', 1), (''fabric.mss-clamp'', 1)]) @
     (if role = RoleIngress \<and> cf_RateLimit forward \<noteq> None then [(''tc.rate-limit'', 1)] else []) @
     (if role = RoleIngress \<and> cf_TrafficQuota forward \<noteq> None then [(''usage.l3'', 1), (''nft.directional-counters'', 1)] else []) @
     (if snat_Mode (cf_SNAT forward) = SNATStatic then [(''nft.static-snat'', 1)] else []) @
     (if cf_ExpiresAt forward \<noteq> None \<or> cf_DrainDeadline forward \<noteq> None then [(''policy.local-deadline'', 1)] else []) @
     (if cf_Lifecycle forward = LifecycleDraining then [(''nft.drain'', 1)] else []) @
     (if cf_Lifecycle forward = LifecycleForceDeleting then [(''nft.force-delete'', 1)] else []) @
     (if role = RoleIngress then
        concat (map (\<lambda>policy.
          if up_UserID policy \<noteq> cf_UserID forward then []
          else (if up_RateLimit policy \<noteq> None then [(''tc.rate-limit'', 1)] else []) @
               (if up_TrafficQuota policy \<noteq> None then [(''usage.l3'', 1), (''nft.directional-counters'', 1)] else []))
          (pl_UserPolicies plan))
      else []) @
     (if bp_Health pool \<noteq> None \<and> (cf_PathMode forward = PathDirect \<and> role = RoleIngress \<or>
          cf_PathMode forward = PathViaExit \<and> role = RoleExit)
      then [(''health.tcp-connect'', 1)] else [])"

definition supports :: "NodeRuntime \<Rightarrow> Plan \<Rightarrow> Forward \<Rightarrow> NodeRole \<Rightarrow> BackendPool \<Rightarrow> bool" where
  "supports runtime plan forward role pool =
     list_all (\<lambda>(name, version). \<not> capability runtime name < version) (required_capabilities plan forward role pool)"

section \<open>Choosing a node\<close>

text \<open>The code passes the identifier of the node at the other end and looks it up in the map of nodes;
  the empty identifier means that there is none. Here the node itself is passed.\<close>

definition candidate :: "Plan \<Rightarrow> Forward \<Rightarrow> NodeRole \<Rightarrow> NodeSelector \<Rightarrow> Node option \<Rightarrow> (string \<rightharpoonup> NodeRuntime) \<Rightarrow> usages
    \<Rightarrow> BackendPool \<Rightarrow> Node \<Rightarrow> bool" where
  "candidate plan forward role selector opposite runtimes usage pool node =
     (if (case opposite of None \<Rightarrow> False | Some o' \<Rightarrow> nd_ID node = nd_ID o') \<or> \<not> nd_Enabled node \<or> \<not> nodeHasRole node role \<or>
         \<not> selectorMatches selector node \<or> \<not> fits node (usage (nd_ID node)) (effectiveReservation forward) then False
      else case runtimes (nd_ID node) of
        None \<Rightarrow> False
      | Some runtime \<Rightarrow>
          if \<not> rt_Available runtime \<or> \<not> supports runtime plan forward role pool then False
          else (case opposite of
              None \<Rightarrow> True
            | Some o' \<Rightarrow>
                (case matchingLinks o' node of
                   None \<Rightarrow> False
                 | Some (firstLink, secondLink) \<Rightarrow>
                     (case runtimes (nd_ID o') of None \<Rightarrow> False
                      | Some oppositeRuntime \<Rightarrow>
                          if \<not> supportsFabric oppositeRuntime (cl_Transport firstLink) \<or>
                             \<not> supportsFabric runtime (cl_Transport secondLink) then False
                          else \<not> (effectiveFailurePolicy (cf_FailureDomainPolicy forward) = FailureDomainDistinct \<and>
                                  nd_FailureDomain node = nd_FailureDomain o')))))"

text \<open>The comparator: prefer another failure domain where the policy asks for it, then the smaller
  relative load (compared by cross-multiplication in 64 bits), then the identifier.\<close>

definition node_less :: "Forward \<Rightarrow> Node option \<Rightarrow> usages \<Rightarrow> Node \<Rightarrow> Node \<Rightarrow> bool" where
  "node_less forward opposite usage m n =
     (let iDistinct = (case opposite of None \<Rightarrow> False | Some o' \<Rightarrow> nd_FailureDomain m \<noteq> nd_FailureDomain o');
          jDistinct = (case opposite of None \<Rightarrow> False | Some o' \<Rightarrow> nd_FailureDomain n \<noteq> nd_FailureDomain o');
          left = (ucast (nu_forwards (usage (nd_ID m))) :: u64) * ucast (cap_MaxForwards (nd_Capacity n));
          right = (ucast (nu_forwards (usage (nd_ID n))) :: u64) * ucast (cap_MaxForwards (nd_Capacity m))
      in if opposite \<noteq> None \<and> effectiveFailurePolicy (cf_FailureDomainPolicy forward) = FailureDomainPrefer \<and> iDistinct \<noteq> jDistinct
         then iDistinct
         else if left = right then nd_ID m < nd_ID n else left < right)"

definition no_candidate :: string where
  "no_candidate = ''selector, health, capability, fabric, failure-domain, or capacity constraints rejected every node''"

definition chooseNode :: "Plan \<Rightarrow> Forward \<Rightarrow> NodeRole \<Rightarrow> NodeSelector \<Rightarrow> Node option \<Rightarrow> string \<Rightarrow> Node list
    \<Rightarrow> (string \<rightharpoonup> NodeRuntime) \<Rightarrow> usages \<Rightarrow> BackendPool \<Rightarrow> string + Node" where
  "chooseNode plan forward role selector opposite previousID nodes runtimes usage pool =
     (let candidates = filter (candidate plan forward role selector opposite runtimes usage pool) nodes in
      if candidates = [] then Inl no_candidate
      else case (if previousID \<noteq> [] then find (\<lambda>node. nd_ID node = previousID) candidates else None) of
        Some node \<Rightarrow> Inr node
      | None \<Rightarrow> Inr (hd (sort_less (node_less forward opposite usage) candidates)))"

section \<open>Choosing a backend\<close>

definition preferredBackend :: "Backend list \<Rightarrow> string \<Rightarrow> Backend" where
  "preferredBackend backends previousID =
     (let candidates = sort_less backend_less backends; minimumPriority = be_Priority (hd candidates) in
      case find (\<lambda>b. be_Priority b = minimumPriority \<and> be_ID b = previousID) candidates of
        Some b \<Rightarrow> b
      | None \<Rightarrow> hd candidates)"

definition fresh_observation :: "(HealthKey \<rightharpoonup> HealthObservation) \<Rightarrow> BackendPool \<Rightarrow> HealthPolicy \<Rightarrow> string \<Rightarrow> time \<Rightarrow> Backend
    \<Rightarrow> HealthObservation option" where
  "fresh_observation observations pool policy nodeID now backend =
     (case observations (nodeID, bp_ID pool, be_ID backend) of
        None \<Rightarrow> None
      | Some o' \<Rightarrow>
          if ho_ResourceVersion o' = be_ResourceVersion backend \<and> \<not> IsZero (ho_ObservedAt o') \<and>
             \<not> Before now (ho_ObservedAt o' - 5 * 60 * Second) \<and>
             now - ho_ObservedAt o' \<le> int (unat (hp_StaleAfterSeconds policy)) * Second
          then Some o' else None)"

definition pool_alert :: "string \<Rightarrow> BackendPool \<Rightarrow> string \<Rightarrow> Alert" where
  "pool_alert alertCode pool detail = \<lparr>al_Code = alertCode, al_ForwardID = [], al_PoolID = bp_ID pool, al_Detail = detail\<rparr>"

definition chooseBackend :: "BackendPool \<Rightarrow> string \<Rightarrow> string \<Rightarrow> (HealthKey \<rightharpoonup> HealthObservation) \<Rightarrow> time \<Rightarrow> Backend \<times> Alert option" where
  "chooseBackend pool nodeID previousID observations now =
     (case bp_Health pool of
        None \<Rightarrow> (preferredBackend (bp_Backends pool) previousID, None)
      | Some policy \<Rightarrow>
          let observed = fresh_observation observations pool policy nodeID now;
              unknown = filter (\<lambda>b. case observed b of None \<Rightarrow> True | Some o' \<Rightarrow> ho_Status o' = StatusUnknown) (bp_Backends pool);
              healthy = filter (\<lambda>b. case observed b of None \<Rightarrow> False
                | Some o' \<Rightarrow> ho_Status o' \<noteq> StatusUnknown \<and> ho_Status o' = StatusHealthy) (bp_Backends pool)
          in if healthy \<noteq> [] then (preferredBackend healthy previousID, None)
             else if unknown \<noteq> [] then
               (case backendByID unknown previousID of
                  Some previous \<Rightarrow> (previous, Some (pool_alert ''backend_health_unknown'' pool
                    ''no fresh healthy observation; retaining the previous unknown backend''))
                | None \<Rightarrow> (preferredBackend unknown [], Some (pool_alert ''backend_health_unknown'' pool
                    ''no fresh healthy observation; using an unknown backend'')))
             else
               ((case backendByID (bp_Backends pool) previousID of Some b \<Rightarrow> b | None \<Rightarrow> preferredBackend (bp_Backends pool) []),
                Some (pool_alert ''backend_pool_exhausted'' pool
                  ''all backends are unhealthy; retaining a deterministic last-resort target'')))"

section \<open>Placement\<close>

datatype place_error =
    InvalidPlan "string list"
  | ErrNoPlacement string string string

definition noPlacement :: Placement where
  "noPlacement = \<lparr>pm_ForwardID = [], pm_IngressID = [], pm_ExitID = [], pm_BackendID = [],
     pm_Target = \<lparr>ep_Address = NoAddr, ep_Hostname = [], ep_Port = 0\<rparr>, pm_PathMode = [], pm_FabricInID = [], pm_FabricOutID = []\<rparr>"

definition noPool :: BackendPool where
  "noPool = \<lparr>bp_ID = [], bp_Backends = [], bp_Health = None, bp_ResourceVersion = 0\<rparr>"

text \<open>Later entries of a list win in the maps the code builds from it; a missing entry of such a map
  reads as the zero value.\<close>

definition last_by :: "('a \<Rightarrow> string) \<Rightarrow> 'a list \<Rightarrow> string \<rightharpoonup> 'a" where
  "last_by key xs k = find (\<lambda>x. key x = k) (rev xs)"

text \<open>The exit part: the placement so far, the node that probes the backend, and the usages.\<close>

definition place_exit :: "Plan \<Rightarrow> Forward \<Rightarrow> Placement \<Rightarrow> Node \<Rightarrow> Node list \<Rightarrow> (string \<rightharpoonup> NodeRuntime) \<Rightarrow> usages \<Rightarrow> BackendPool
    \<Rightarrow> Placement \<Rightarrow> place_error + Placement \<times> string \<times> usages" where
  "place_exit plan forward prior ingress nodes runtimes usage pool placement =
     (if cf_PathMode forward = PathViaExit then
        (case chooseNode plan forward RoleExit (the (cf_Exit forward)) (Some ingress) (pm_ExitID prior) nodes runtimes usage pool of
           Inl e \<Rightarrow> Inl (ErrNoPlacement (cf_ID forward) ''exit'' e)
         | Inr exit \<Rightarrow>
             (case matchingLinks ingress exit of
                None \<Rightarrow> Inl (ErrNoPlacement (cf_ID forward) [] (nd_ID ingress @ '' '' @ nd_ID exit))
              | Some (inLink, outLink) \<Rightarrow>
                  Inr (placement\<lparr>pm_ExitID := nd_ID exit, pm_FabricInID := cl_ID inLink, pm_FabricOutID := cl_ID outLink\<rparr>,
                       nd_ID exit, consume usage exit (effectiveReservation forward))))
      else Inr (placement, nd_ID ingress, usage))"

definition place_step :: "Plan \<Rightarrow> Node list \<Rightarrow> (string \<rightharpoonup> BackendPool) \<Rightarrow> (string \<rightharpoonup> Placement) \<Rightarrow> (string \<rightharpoonup> NodeRuntime)
    \<Rightarrow> (HealthKey \<rightharpoonup> HealthObservation) \<Rightarrow> time \<Rightarrow> nat \<Rightarrow> Forward \<Rightarrow> Result \<times> usages \<Rightarrow> place_error + Result \<times> usages" where
  "place_step plan nodes pools previous runtimes observations now i forward st = (case st of (result, usage) \<Rightarrow>
     let pool = (case pools (cf_BackendPoolID forward) of None \<Rightarrow> noPool | Some p \<Rightarrow> p);
         prior = (case previous (cf_ID forward) of None \<Rightarrow> noPlacement | Some p \<Rightarrow> p)
     in case chooseNode plan forward RoleIngress (cf_Ingress forward) None (pm_IngressID prior) nodes runtimes usage pool of
          Inl e \<Rightarrow> Inl (ErrNoPlacement (cf_ID forward) ''ingress'' e)
        | Inr ingress \<Rightarrow>
            let placement = noPlacement\<lparr>pm_ForwardID := cf_ID forward, pm_IngressID := nd_ID ingress, pm_PathMode := cf_PathMode forward\<rparr>
            in case place_exit plan forward prior ingress nodes runtimes usage pool placement of
                 Inl e \<Rightarrow> Inl e
               | Inr (placement, probeNodeID, usage) \<Rightarrow>
                   let (backend, alert) = chooseBackend pool probeNodeID (pm_BackendID prior) observations now;
                       placement = placement\<lparr>pm_BackendID := be_ID backend, pm_Target := be_Target backend\<rparr>;
                       usage = consume usage ingress (effectiveReservation forward)
                   in Inr (result\<lparr>rs_Placements := rs_Placements result @ [placement],
                        rs_Alerts := rs_Alerts result @
                          (case alert of None \<Rightarrow> [] | Some a \<Rightarrow> [a\<lparr>al_ForwardID := cf_ID forward\<rparr>])\<rparr>, usage))"

text \<open>\<open>order\<close> is the iteration order of the node map.\<close>

definition Place :: "(string \<Rightarrow> string option) \<Rightarrow> (Node list \<Rightarrow> Node list) \<Rightarrow> Plan \<Rightarrow> (string \<rightharpoonup> NodeRuntime)
    \<Rightarrow> (HealthKey \<rightharpoonup> HealthObservation) \<Rightarrow> Placement list \<Rightarrow> time \<Rightarrow> place_error + Result" where
  "Place idna order plan runtimes observations previous now =
     (if Plan_Validate idna plan \<noteq> [] then Inl (InvalidPlan (Plan_Validate idna plan))
      else let plan = Plan_Canonical idna plan in
        map_sum id fst (range_check
          (place_step plan (order (pl_Nodes plan)) (last_by bp_ID (pl_BackendPools plan)) (last_by pm_ForwardID previous)
             runtimes observations now)
          0 (\<lparr>rs_Placements = [], rs_Alerts = []\<rparr>, \<lambda>_. noUsage) (pl_Forwards plan)))"

end
