(* ===== verification/Cluster_Plan.thy ===== *)
theory Cluster_Plan
  imports Cluster_Scheduler
begin

text \<open>
  What an accepted cluster plan satisfies, as far as the scheduler and the compiler rely on it:
  identifiers are distinct, capacities are not zero, every forward names an existing pool with a
  backend, and a relayed forward has an exit selector. The canonical plan keeps all of it.
\<close>

section \<open>The parts of an accepted plan\<close>

lemma Plan_Validate_split:
  "Plan_Validate idna p = [] \<longleftrightarrow>
     (let cidrs = snd (range_issues plan_cidr_step 0 [] (pl_ServiceCIDRs p)); nodes = snd (range_issues node_step 0 [] (pl_Nodes p));
          pools = snd (range_issues (pool_step idna) 0 [] (pl_BackendPools p))
      in plan_header_issues p = [] \<and> fst (range_issues plan_cidr_step 0 [] (pl_ServiceCIDRs p)) = [] \<and>
         fst (range_issues node_step 0 [] (pl_Nodes p)) = [] \<and> peer_issues nodes (pl_Nodes p) = [] \<and>
         (\<forall>node\<in>set (pl_Nodes p). template_issues p (dummyRuntimes nodes) node = []) \<and>
         fst (range_issues (pool_step idna) 0 [] (pl_BackendPools p)) = [] \<and> plan_policy_issues p = [] \<and>
         fst (range_issues (plan_forward_step nodes pools cidrs) 0 \<lparr>gb_ids = {}, gb_listeners = Map.empty\<rparr> (pl_Forwards p)) = [])"
  unfolding Plan_Validate_def Let_def by (simp add: split_beta)

lemma Plan_Validate_parts:
  assumes "Plan_Validate idna p = []"
  shows "plan_header_issues p = []"
    and "fst (range_issues plan_cidr_step 0 [] (pl_ServiceCIDRs p)) = []"
    and "fst (range_issues node_step 0 [] (pl_Nodes p)) = []"
    and "peer_issues (snd (range_issues node_step 0 [] (pl_Nodes p))) (pl_Nodes p) = []"
    and "fst (range_issues (pool_step idna) 0 [] (pl_BackendPools p)) = []"
    and "plan_policy_issues p = []"
    and "fst (range_issues (plan_forward_step (snd (range_issues node_step 0 [] (pl_Nodes p)))
           (snd (range_issues (pool_step idna) 0 [] (pl_BackendPools p))) (snd (range_issues plan_cidr_step 0 [] (pl_ServiceCIDRs p))))
           0 \<lparr>gb_ids = {}, gb_listeners = Map.empty\<rparr> (pl_Forwards p)) = []"
    and "\<forall>node\<in>set (pl_Nodes p). template_issues p (dummyRuntimes (snd (range_issues node_step 0 [] (pl_Nodes p)))) node = []"
  using assms unfolding Plan_Validate_split Let_def by simp_all

definition keyed :: "('a \<Rightarrow> string) \<Rightarrow> 'a list \<Rightarrow> (string \<times> 'a) list" where
  "keyed key xs = map (\<lambda>x. (key x, x)) xs"

lemma keyed_Nil [simp]: "keyed key [] = []"
  by (simp add: keyed_def)

lemma map_of_keyed_None: "map_of (keyed key xs) k = None \<longleftrightarrow> k \<notin> key ` set xs"
  by (induction xs) (auto simp: keyed_def)

lemma map_of_keyed_Some: "map_of (keyed key xs) k = Some x \<Longrightarrow> x \<in> set xs \<and> key x = k"
  by (auto simp: keyed_def dest!: map_of_SomeD)

lemma map_of_keyed_distinct: "distinct (map key xs) \<Longrightarrow> x \<in> set xs \<Longrightarrow> map_of (keyed key xs) (key x) = Some x"
  by (rule map_of_is_SomeI) (auto simp: keyed_def comp_def)

lemma plan_identifier_ok: "ValidateIdentifier name v = None \<longleftrightarrow> validIdentifier v"
  by (simp add: ValidateIdentifier_def)

definition node_valid :: "Node \<Rightarrow> bool" where
  "node_valid node \<longleftrightarrow> validIdentifier (nd_ID node) \<and> cap_MaxForwards (nd_Capacity node) \<noteq> 0"

interpretation node_loop: range_inv node_step
  "\<lambda>seen nodes. nodes = keyed nd_ID seen \<and> distinct (map nd_ID seen) \<and> (\<forall>n\<in>set seen. node_valid n)"
proof
  fix seen nodes i node
  let ?inv = "\<lambda>seen nodes. nodes = keyed nd_ID seen \<and> distinct (map nd_ID seen) \<and> (\<forall>n\<in>set seen. node_valid n)"
  assume inv: "?inv seen nodes" and silent: "fst (node_step i node nodes) = []"
  have "validIdentifier (nd_ID node)" "map_of nodes (nd_ID node) = None" "cap_MaxForwards (nd_Capacity node) \<noteq> 0"
      "snd (node_step i node nodes) = nodes @ [(nd_ID node, node)]"
    using silent by (auto simp: node_step_def Let_def plan_identifier_ok split: option.splits if_splits)
  with inv show "?inv (seen @ [node]) (snd (node_step i node nodes))"
    by (auto simp: map_of_keyed_None node_valid_def) (simp_all add: keyed_def)
qed

definition pool_valid :: "BackendPool \<Rightarrow> bool" where
  "pool_valid pool \<longleftrightarrow> bp_Backends pool \<noteq> [] \<and> distinct (map be_ID (bp_Backends pool))"

interpretation backend_loop: range_inv "backend_step idna name" "\<lambda>seen ids. ids = be_ID ` set seen \<and> distinct (map be_ID seen)"
  by unfold_locales (auto simp: backend_step_def Let_def split: option.splits if_splits)

interpretation pool_loop: range_inv "pool_step idna"
  "\<lambda>seen pools. pools = keyed bp_ID seen \<and> distinct (map bp_ID seen) \<and> (\<forall>p\<in>set seen. pool_valid p)"
proof
  fix seen pools i pool
  let ?inv = "\<lambda>seen pools. pools = keyed bp_ID seen \<and> distinct (map bp_ID seen) \<and> (\<forall>p\<in>set seen. pool_valid p)"
  assume inv: "?inv seen pools" and silent: "fst (pool_step idna i pool pools) = []"
  have step: "map_of pools (bp_ID pool) = None" "snd (pool_step idna i pool pools) = pools @ [(bp_ID pool, pool)]" "bp_Backends pool \<noteq> []"
    and loop: "fst (range_issues (backend_step idna (indexed ''backend_pools'' i)) 0 {} (bp_Backends pool)) = []"
    using silent by (auto simp: pool_step_def Let_def split: option.splits if_splits)
  have "distinct (map be_ID (bp_Backends pool))"
    using backend_loop.inv_scan [where seen = "[]", OF _ loop] by simp
  with step inv show "?inv (seen @ [pool]) (snd (pool_step idna i pool pools))"
    by (auto simp: map_of_keyed_None pool_valid_def) (simp_all add: keyed_def)
qed

definition forward_valid :: "(string \<rightharpoonup> BackendPool) \<Rightarrow> Forward \<Rightarrow> bool" where
  "forward_valid pools forward \<longleftrightarrow> pools (cf_BackendPoolID forward) \<noteq> None \<and>
     (cf_PathMode forward = PathDirect \<or> cf_PathMode forward = PathViaExit \<and> cf_Exit forward \<noteq> None)"

lemma plan_forward_silent:
  assumes "fst (plan_forward_step nodes pools cidrs i forward b) = []"
  shows "forward_valid (map_of pools) forward" and "cf_ID forward \<notin> gb_ids b"
    and "gb_ids (snd (plan_forward_step nodes pools cidrs i forward b)) = insert (cf_ID forward) (gb_ids b)"
proof -
  have "map_of pools (cf_BackendPoolID forward) \<noteq> None" "plan_path_issues (indexed ''forwards'' i) forward nodes pools cidrs = []"
    and ids: "cf_ID forward \<notin> gb_ids b"
      "gb_ids (snd (plan_forward_step nodes pools cidrs i forward b)) = insert (cf_ID forward) (gb_ids b)"
    using assms by (auto simp: plan_forward_step_def Let_def split_beta split: option.splits if_splits)
  then show "forward_valid (map_of pools) forward"
    by (auto simp: forward_valid_def plan_path_issues_def split: if_splits option.splits)
  show "cf_ID forward \<notin> gb_ids b"
    "gb_ids (snd (plan_forward_step nodes pools cidrs i forward b)) = insert (cf_ID forward) (gb_ids b)"
    by (fact ids)+
qed

interpretation plan_forward_loop: range_inv "plan_forward_step nodes pools cidrs"
  "\<lambda>seen b. gb_ids b = cf_ID ` set seen \<and> distinct (map cf_ID seen) \<and> (\<forall>f\<in>set seen. forward_valid (map_of pools) f)"
  by unfold_locales (auto simp: plan_forward_silent(1,3) dest: plan_forward_silent(2))

section \<open>Accepted plans\<close>

definition plan_ok :: "Plan \<Rightarrow> bool" where
  "plan_ok p \<longleftrightarrow> distinct (map nd_ID (pl_Nodes p)) \<and> (\<forall>n\<in>set (pl_Nodes p). node_valid n) \<and>
     distinct (map bp_ID (pl_BackendPools p)) \<and> (\<forall>b\<in>set (pl_BackendPools p). pool_valid b) \<and>
     distinct (map cf_ID (pl_Forwards p)) \<and>
     (\<forall>f\<in>set (pl_Forwards p). cf_BackendPoolID f \<in> bp_ID ` set (pl_BackendPools p) \<and>
        (cf_PathMode f = PathDirect \<or> cf_PathMode f = PathViaExit \<and> cf_Exit f \<noteq> None))"

lemma Plan_Validate_ok:
  assumes "Plan_Validate idna p = []"
  shows "plan_ok p"
proof -
  note parts = Plan_Validate_parts [OF assms]
  have nodes: "distinct (map nd_ID (pl_Nodes p)) \<and> (\<forall>n\<in>set (pl_Nodes p). node_valid n)"
    using node_loop.inv_scan [where seen = "[]", OF _ parts(3)] by simp
  have pools: "snd (range_issues (pool_step idna) 0 [] (pl_BackendPools p)) = keyed bp_ID (pl_BackendPools p) \<and>
      distinct (map bp_ID (pl_BackendPools p)) \<and> (\<forall>b\<in>set (pl_BackendPools p). pool_valid b)"
    using pool_loop.inv_scan [where seen = "[]", OF _ parts(5)] by simp
  have "distinct (map cf_ID (pl_Forwards p)) \<and> (\<forall>f\<in>set (pl_Forwards p). forward_valid (map_of (keyed bp_ID (pl_BackendPools p))) f)"
    using plan_forward_loop.inv_scan [where seen = "[]", OF _ parts(7)] pools by simp
  with nodes pools show ?thesis
    unfolding plan_ok_def forward_valid_def map_of_keyed_None not_not by blast
qed

lemma canonical_same [simp]:
  "nd_ID (canonical_node n) = nd_ID n" "nd_Capacity (canonical_node n) = nd_Capacity n"
  "bp_ID (canonical_pool idna b) = bp_ID b"
  "cf_ID (canonical_plan_forward f) = cf_ID f" "cf_BackendPoolID (canonical_plan_forward f) = cf_BackendPoolID f"
  "cf_PathMode (canonical_plan_forward f) = cf_PathMode f" "cf_Exit (canonical_plan_forward f) = map_option canonicalSelector (cf_Exit f)"
  "be_ID (canonical_backend idna e) = be_ID e"
  by (simp_all add: canonical_node_def canonical_pool_def canonical_plan_forward_def canonical_backend_def)

lemma distinct_key_sorted: "distinct (map key (sort_less lt xs)) \<longleftrightarrow> distinct (map key xs)"
  if "distinct (map key xs)"
  using that sorted_wrt_sort_less [of "\<lambda>x y. key x \<noteq> key y" xs lt] unfolding distinct_map_sorted_wrt by simp

lemma canonical_distinct:
  assumes "distinct (map key xs)" and "\<And>x. key (f x) = key x"
  shows "distinct (map key (sort_less lt (map f xs)))"
proof -
  have "distinct (map key (map f xs))" using assms by (simp add: comp_def)
  then show ?thesis by (simp add: distinct_key_sorted)
qed

lemma canonical_pool_valid: "pool_valid b \<Longrightarrow> pool_valid (canonical_pool idna b)"
  unfolding pool_valid_def canonical_pool_def by (auto intro: canonical_distinct)

lemma Plan_Canonical_lists:
  "pl_Nodes (Plan_Canonical idna p) = sort_less (\<lambda>m n. nd_ID m < nd_ID n) (map canonical_node (pl_Nodes p))"
  "pl_BackendPools (Plan_Canonical idna p) = sort_less (\<lambda>a b. bp_ID a < bp_ID b) (map (canonical_pool idna) (pl_BackendPools p))"
  "pl_Forwards (Plan_Canonical idna p) = sort_less (\<lambda>f g. cf_ID f < cf_ID g) (map canonical_plan_forward (pl_Forwards p))"
  by (simp_all add: Plan_Canonical_def Let_def)

lemma Plan_Canonical_ok:
  assumes "plan_ok p"
  shows "plan_ok (Plan_Canonical idna p)"
  unfolding plan_ok_def Plan_Canonical_lists
proof (intro conjI)
  show "distinct (map nd_ID (sort_less (\<lambda>m n. nd_ID m < nd_ID n) (map canonical_node (pl_Nodes p))))"
    "distinct (map bp_ID (sort_less (\<lambda>a b. bp_ID a < bp_ID b) (map (canonical_pool idna) (pl_BackendPools p))))"
    "distinct (map cf_ID (sort_less (\<lambda>f g. cf_ID f < cf_ID g) (map canonical_plan_forward (pl_Forwards p))))"
    using assms unfolding plan_ok_def by (simp_all add: canonical_distinct)
qed (use assms in \<open>auto simp: plan_ok_def node_valid_def canonical_pool_valid image_image\<close>)

section \<open>A sample plan\<close>

text \<open>Two nodes in different racks with a direct layer-3 link, a pool with one backend, a direct and a
  relayed forward; the concrete input of the witnesses.\<close>

definition sample_node_link :: "string \<Rightarrow> u32 \<Rightarrow> u32 \<Rightarrow> FabricLink" where
  "sample_node_link peer local remote = \<lparr>cl_ID = ''l1'', cl_PeerNodeID = peer, cl_Transport = FabricDirectL3, cl_Interface = ''eth1'',
     cl_LocalAddress = Prefix (Addr4 local) 24, cl_PeerAddress = Addr4 remote, cl_MTU = 1500, cl_RoutingID = 7, cl_Trusted = True,
     cl_WireGuard = None, cl_GRE = None, cl_ResourceVersion = 1\<rparr>"

definition sample_node :: "string \<Rightarrow> NodeRole \<Rightarrow> string \<Rightarrow> FabricLink \<Rightarrow> Node" where
  "sample_node name role rack link = \<lparr>nd_ID = name, nd_Enabled = True, nd_Roles = [role], nd_Labels = [], nd_ListenIPs = [],
     nd_FailureDomain = rack, nd_Capacity = \<lparr>cap_MaxForwards = 2, cap_IngressBitsPerSecond = 1000, cap_EgressBitsPerSecond = 0\<rparr>,
     nd_FabricLinks = [link], nd_ProtocolBlocks = None\<rparr>"

definition sample_plan_forward :: "string \<Rightarrow> u16 \<Rightarrow> PathMode \<Rightarrow> NodeSelector option \<Rightarrow> Forward" where
  "sample_plan_forward name port path exit = \<lparr>cf_ID = name, cf_UserID = ''u1'', cf_Protocols = [ProtocolTCP],
     cf_Listen = \<lparr>ep_Address = Addr4 0x0A000001, ep_Hostname = [], ep_Port = port\<rparr>, cf_PathMode = path,
     cf_Ingress = \<lparr>ns_NodeIDs = [''n1''], ns_MatchLabels = []\<rparr>, cf_Exit = exit, cf_FailureDomainPolicy = [], cf_BackendPoolID = ''p1'',
     cf_SNAT = \<lparr>snat_Mode = SNATMasquerade, snat_Address = None\<rparr>,
     cf_Reservation = \<lparr>rv_IngressBitsPerSecond = 400, rv_EgressBitsPerSecond = 0\<rparr>, cf_RateLimit = None, cf_TrafficQuota = None,
     cf_ExpiresAt = None, cf_DrainDeadline = None, cf_Lifecycle = LifecycleActive, cf_ResourceVersion = 1\<rparr>"

definition sample_plan :: Plan where
  "sample_plan = \<lparr>pl_SchemaVersion = 1, pl_ID = ''c1'', pl_Revision = 1, pl_NodeOfflineAfterSeconds = 60, pl_Rollout = None,
     pl_ServiceCIDRs = [Prefix (Addr4 0x0A4B0000) 16],
     pl_Nodes = [sample_node ''n1'' RoleIngress ''rack-a'' (sample_node_link ''n2'' 0xAC100001 0xAC100002),
                 sample_node ''n2'' RoleExit ''rack-b'' (sample_node_link ''n1'' 0xAC100002 0xAC100001)],
     pl_UserPolicies = [],
     pl_BackendPools = [\<lparr>bp_ID = ''p1'', bp_Backends = [\<lparr>be_ID = ''b1'',
       be_Target = \<lparr>ep_Address = Addr4 0xC6336401, ep_Hostname = [], ep_Port = 443\<rparr>, be_ProbeEndpoint = None, be_Priority = 1,
       be_ResourceVersion = 1\<rparr>], bp_Health = None, bp_ResourceVersion = 1\<rparr>],
     pl_Forwards = [sample_plan_forward ''f1'' 80 PathDirect None,
       sample_plan_forward ''f2'' 81 PathViaExit (Some \<lparr>ns_NodeIDs = [''n2''], ns_MatchLabels = []\<rparr>)]\<rparr>"

definition sample_runtimes :: "string \<rightharpoonup> NodeRuntime" where
  "sample_runtimes i = (if i = ''n1'' \<or> i = ''n2'' then Some \<lparr>rt_ID = i, rt_Available = True, rt_LastSeen = 0,
     rt_Capabilities = map_of [(''nft.direct'', 2), (''nft.via-exit'', 1), (''fabric.policy-routing'', 1), (''fabric.mss-clamp'', 1),
       (''fabric.direct-l3'', 1)], rt_WireGuardPublicKey = []\<rparr> else None)"

lemma sample_plan_header: "plan_header_issues sample_plan = []"
  by (simp add: plan_header_issues_def sample_plan_def EffectiveRolloutStrategy_def EffectiveCanaryPercent_def noRollout_def id_issue_def
      ValidateIdentifier_def maxPlanNodes_def maxPlanBackendPools_def MaxForwardsPerSnapshot_def Let_def) code_simp


lemma sample_plan_loops:
  "fst (range_issues plan_cidr_step 0 [] (pl_ServiceCIDRs sample_plan)) = []"
  "fst (range_issues node_step 0 [] (pl_Nodes sample_plan)) = []"
  "peer_issues (snd (range_issues node_step 0 [] (pl_Nodes sample_plan))) (pl_Nodes sample_plan) = []"
  "fst (range_issues (pool_step Some) 0 [] (pl_BackendPools sample_plan)) = []"
  "plan_policy_issues sample_plan = []"
  "fst (range_issues (plan_forward_step (snd (range_issues node_step 0 [] (pl_Nodes sample_plan)))
     (snd (range_issues (pool_step Some) 0 [] (pl_BackendPools sample_plan))) (snd (range_issues plan_cidr_step 0 [] (pl_ServiceCIDRs sample_plan))))
     0 \<lparr>gb_ids = {}, gb_listeners = Map.empty\<rparr> (pl_Forwards sample_plan)) = []"
  by code_simp+

definition sample_template :: "string \<Rightarrow> string \<Rightarrow> u32 \<Rightarrow> u32 \<Rightarrow> DesiredState" where
  "sample_template name peer local remote = (emptyState name)\<lparr>ds_ServiceCIDRs := [Prefix (Addr4 0x0A4B0000) 16],
     ds_FabricLinks := [case compileLink (sample_node_link peer local remote) Map.empty of Inr l \<Rightarrow> l]\<rparr>"

lemma sample_template_header: "validIdentifier name \<Longrightarrow> header_ok (sample_template name peer local remote)"
  by (simp add: header_ok_def sample_template_def emptyState_def MaxForwardsPerSnapshot_def MaxFabricLinksPerSnapshot_def
      MaxServiceCIDRsPerSnapshot_def MaxHealthChecksPerSnapshot_def SupportedSchemaVersion_def)

lemma sample_template_version: "version_ok (sample_template name peer local remote)"
  by (simp add: version_ok_def sample_template_def emptyState_def)

lemma sample_template_valid:
  "Validate (sample_template ''n1'' ''n2'' 0xAC100001 0xAC100002) = []" "Validate (sample_template ''n2'' ''n1'' 0xAC100002 0xAC100001) = []"
  unfolding Validate_split by (intro conjI sample_template_header sample_template_version; code_simp)+

lemma sample_plan_template: "node \<in> set (pl_Nodes sample_plan) \<Longrightarrow> template_issues sample_plan runtimes node = []"
  using sample_template_valid
  by (auto simp: sample_plan_def sample_node_def template_issues_def sample_template_def compileLink_def sample_node_link_def Let_def)

lemma sample_plan_valid: "Plan_Validate Some sample_plan = []"
  unfolding Plan_Validate_split Let_def using sample_plan_header sample_plan_loops sample_plan_template by simp

end
