(* ===== verification/Cluster_Placement.thy ===== *)
theory Cluster_Placement
  imports Cluster_Plan Complex_Main "HOL-Library.Multiset"
begin

text \<open>
  The scheduler is deterministic, never overbooks a node, keeps the constraints of every forward,
  and picks backends by health and priority. The comparator of the candidates is related to an
  order on exact fractions, so that the cross-multiplication in 64 bits is shown to be harmless.
\<close>

section \<open>The comparator of the candidates\<close>

text \<open>The load of a node, and the rank by failure domain.\<close>

definition load :: "usages \<Rightarrow> Node \<Rightarrow> rat" where
  "load usage n = of_nat (unat (nu_forwards (usage (nd_ID n)))) / of_nat (unat (cap_MaxForwards (nd_Capacity n)))"

definition domain_rank :: "Forward \<Rightarrow> Node option \<Rightarrow> Node \<Rightarrow> nat" where
  "domain_rank forward opposite n = (case opposite of None \<Rightarrow> 0
     | Some o' \<Rightarrow> if effectiveFailurePolicy (cf_FailureDomainPolicy forward) = FailureDomainPrefer \<and> nd_FailureDomain n = nd_FailureDomain o'
         then 1 else 0)"

definition node_before :: "Forward \<Rightarrow> Node option \<Rightarrow> usages \<Rightarrow> Node \<Rightarrow> Node \<Rightarrow> bool" where
  "node_before forward opposite usage = (\<lambda>m n. domain_rank forward opposite m < domain_rank forward opposite n \<or>
     domain_rank forward opposite m = domain_rank forward opposite n \<and>
       (load usage m < load usage n \<or> load usage m = load usage n \<and> nd_ID m < nd_ID n))"

interpretation node_order: slice_order "node_before forward opposite usage"
  unfolding node_before_def by (intro slice_order_lex slice_order_key)

lemma cross_product:
  fixes a b :: u32
  shows "unat ((ucast a :: u64) * ucast b) = unat a * unat b"
proof -
  have small: "unat a < 2 ^ 32" "unat b < 2 ^ 32" using unsigned_less [of a] unsigned_less [of b] by simp_all
  then have "unat a * unat b < 2 ^ 32 * 2 ^ 32" by (rule mult_strict_mono') simp_all
  moreover have "unat (ucast a :: u64) = unat a" "unat (ucast b :: u64) = unat b"
    using small by (simp_all add: unsigned_ucast_eq take_bit_nat_eq_self_iff)
  ultimately show ?thesis by (simp add: unat_word_ariths)
qed

lemma load_compare:
  fixes a b c d :: nat
  assumes "0 < c" "0 < d"
  shows "(of_nat a / of_nat c :: rat) < of_nat b / of_nat d \<longleftrightarrow> a * d < b * c"
    and "(of_nat a / of_nat c :: rat) = of_nat b / of_nat d \<longleftrightarrow> a * d = b * c"
proof -
  show "(of_nat a / of_nat c :: rat) < of_nat b / of_nat d \<longleftrightarrow> a * d < b * c"
    using assms by (simp add: divide_less_eq pos_less_divide_eq field_simps flip: of_nat_mult)
  show "(of_nat a / of_nat c :: rat) = of_nat b / of_nat d \<longleftrightarrow> a * d = b * c"
    using assms by (simp add: frac_eq_eq flip: of_nat_mult)
qed

lemma node_less_before:
  assumes "cap_MaxForwards (nd_Capacity m) \<noteq> 0" "cap_MaxForwards (nd_Capacity n) \<noteq> 0"
  shows "node_less forward opposite usage m n = node_before forward opposite usage m n"
proof -
  have pos: "0 < unat (cap_MaxForwards (nd_Capacity m))" "0 < unat (cap_MaxForwards (nd_Capacity n))"
    using assms by (simp_all add: unat_gt_0)
  show ?thesis
    unfolding node_less_def node_before_def Let_def load_def load_compare [OF pos] word_less_nat_alt word_unat_eq_iff cross_product
    by (cases opposite) (auto simp: domain_rank_def)
qed

section \<open>Choosing a node\<close>

lemma find_key_cong:
  assumes "distinct (map key xs)" "distinct (map key ys)" "set xs = set ys"
  shows "find (\<lambda>x. key x = k) xs = find (\<lambda>x. key x = k) ys"
proof (cases "find (\<lambda>x. key x = k) xs")
  case None
  then have "\<forall>x\<in>set ys. key x \<noteq> k" using assms(3) by (auto simp: find_None_iff)
  then have "find (\<lambda>x. key x = k) ys = None" by (simp add: find_None_iff)
  then show ?thesis using None by simp
next
  case (Some x)
  then have x: "x \<in> set ys" "key x = k" using assms(3) by (auto dest: find_SomeD)
  then obtain y where y: "find (\<lambda>x. key x = k) ys = Some y" by (cases "find (\<lambda>x. key x = k) ys") (auto simp: find_None_iff)
  then have "y \<in> set ys" "key y = k" by (auto dest: find_SomeD)
  then have "x = y" using x assms(2) by (auto simp: distinct_map dest: inj_onD)
  with Some y show ?thesis by simp
qed

lemma chooseNode_order:
  assumes "distinct (map nd_ID ns)" "distinct (map nd_ID ms)" "set ns = set ms" and "\<forall>n\<in>set ms. cap_MaxForwards (nd_Capacity n) \<noteq> 0"
  shows "chooseNode plan forward role selector opposite prior ns runtimes usage pool =
    chooseNode plan forward role selector opposite prior ms runtimes usage pool"
proof -
  let ?c = "candidate plan forward role selector opposite runtimes usage pool"
  let ?xs = "filter ?c ns" and ?ys = "filter ?c ms"
  have d: "distinct (map nd_ID ?xs)" "distinct (map nd_ID ?ys)" and set: "set ?xs = set ?ys"
    using assms by (simp_all add: distinct_map_filter)
  have cap: "\<forall>n\<in>set ?ys. cap_MaxForwards (nd_Capacity n) \<noteq> 0" using assms(4) by simp
  have "sort_less (node_less forward opposite usage) zs = sort_less (node_before forward opposite usage) zs"
    if "set zs = set ?ys" for zs
    by (rule sort_less_cong, rule node_less_before) (use cap that in simp_all)
  moreover have "sort_less (node_before forward opposite usage) ?xs = sort_less (node_before forward opposite usage) ?ys"
  proof (rule node_order.slice_perm)
    fix a b
    assume ab: "a \<in> set ?xs" "b \<in> set ?xs" "a \<noteq> b"
    then have "nd_ID a \<noteq> nd_ID b" using d(1) by (auto simp: distinct_map dest: inj_onD)
    then show "node_before forward opposite usage a b \<or> node_before forward opposite usage b a"
      unfolding node_before_def by (metis linorder_less_linear)
  qed (use d set in \<open>auto simp: distinct_map\<close>)
  ultimately have sort: "sort_less (node_less forward opposite usage) ?xs = sort_less (node_less forward opposite usage) ?ys"
    using set by simp
  have nil: "?xs = [] \<longleftrightarrow> ?ys = []" using set by (metis set_empty)
  show ?thesis unfolding chooseNode_def Let_def find_key_cong [OF d set] sort nil ..
qed

lemma chooseNode_candidate:
  assumes "chooseNode plan forward role selector opposite prior ns runtimes usage pool = Inr n"
  shows "n \<in> set ns \<and> candidate plan forward role selector opposite runtimes usage pool n"
proof -
  define cs where "cs = filter (candidate plan forward role selector opposite runtimes usage pool) ns"
  have eq: "(if cs = [] then Inl no_candidate
      else case (if prior \<noteq> [] then find (\<lambda>node. nd_ID node = prior) cs else None) of
        Some node \<Rightarrow> Inr node
      | None \<Rightarrow> Inr (hd (sort_less (node_less forward opposite usage) cs))) = Inr n"
    using assms unfolding chooseNode_def Let_def cs_def .
  have head: "cs \<noteq> [] \<Longrightarrow> hd (sort_less lt cs) \<in> set cs" for lt
    using hd_in_set [of "sort_less lt cs"] by simp
  have "n \<in> set cs"
    using eq by (auto simp: head split: if_splits option.splits dest!: find_SomeD)
  then show ?thesis by (simp add: cs_def)
qed

text \<open>What makes a node eligible, apart from capacity and links.\<close>

definition serves :: "Plan \<Rightarrow> (string \<rightharpoonup> NodeRuntime) \<Rightarrow> BackendPool \<Rightarrow> Forward \<Rightarrow> NodeRole \<Rightarrow> NodeSelector \<Rightarrow> Node \<Rightarrow> bool" where
  "serves plan runtimes pool forward role selector n \<longleftrightarrow> nd_Enabled n \<and> nodeHasRole n role \<and> selectorMatches selector n \<and>
     (\<exists>rt. runtimes (nd_ID n) = Some rt \<and> rt_Available rt \<and> supports rt plan forward role pool)"

lemma candidate_serves:
  assumes "candidate plan forward role selector opposite runtimes usage pool n"
  shows "serves plan runtimes pool forward role selector n" and "fits n (usage (nd_ID n)) (effectiveReservation forward)"
    and "opposite = Some m \<Longrightarrow> nd_ID n \<noteq> nd_ID m \<and> matchingLinks m n \<noteq> None \<and>
      (effectiveFailurePolicy (cf_FailureDomainPolicy forward) = FailureDomainDistinct \<longrightarrow> nd_FailureDomain n \<noteq> nd_FailureDomain m)"
  using assms unfolding candidate_def serves_def by (auto split: if_splits option.splits)

lemma chooseNode_best:
  assumes "chooseNode plan forward role selector opposite prior ns runtimes usage pool = Inr n"
    and "\<forall>c\<in>set ns. cap_MaxForwards (nd_Capacity c) \<noteq> 0"
  shows "if prior \<noteq> [] \<and> (\<exists>c\<in>set ns. candidate plan forward role selector opposite runtimes usage pool c \<and> nd_ID c = prior)
    then nd_ID n = prior
    else \<forall>c\<in>set ns. candidate plan forward role selector opposite runtimes usage pool c \<longrightarrow> \<not> node_before forward opposite usage c n"
proof -
  define cs where "cs = filter (candidate plan forward role selector opposite runtimes usage pool) ns"
  have eq: "(if cs = [] then Inl no_candidate
      else case (if prior \<noteq> [] then find (\<lambda>node. nd_ID node = prior) cs else None) of
        Some node \<Rightarrow> Inr node
      | None \<Rightarrow> Inr (hd (sort_less (node_less forward opposite usage) cs))) = Inr n"
    using assms(1) unfolding chooseNode_def Let_def cs_def .
  have sort: "sort_less (node_less forward opposite usage) cs = sort_less (node_before forward opposite usage) cs"
    by (rule sort_less_cong, rule node_less_before) (use assms(2) in \<open>simp_all add: cs_def\<close>)
  have "if prior \<noteq> [] \<and> (\<exists>c\<in>set cs. nd_ID c = prior) then nd_ID n = prior else \<forall>c\<in>set cs. \<not> node_before forward opposite usage c n"
  proof (cases "if prior \<noteq> [] then find (\<lambda>node. nd_ID node = prior) cs else None")
    case None
    then have "n = hd (sort_less (node_before forward opposite usage) cs)" using eq sort by (simp split: if_splits)
    moreover have "\<not> (prior \<noteq> [] \<and> (\<exists>c\<in>set cs. nd_ID c = prior))" using None by (auto simp: find_None_iff split: if_splits)
    ultimately show ?thesis using node_order.hd_slice_least by auto
  next
    case (Some m)
    then show ?thesis using eq by (auto split: if_splits dest!: find_SomeD)
  qed
  then show ?thesis by (simp add: cs_def Bex_def Ball_def conj_ac)
qed

section \<open>Choosing a backend\<close>

interpretation backend_order: slice_order backend_less
  by unfold_locales (auto simp: backend_less_def split: if_splits)

lemma preferredBackend_best:
  assumes "bs \<noteq> []"
  shows "preferredBackend bs prior \<in> set bs" and "\<forall>b\<in>set bs. be_Priority (preferredBackend bs prior) \<le> be_Priority b"
    and "b \<in> set bs \<Longrightarrow> be_ID b = prior \<Longrightarrow> \<forall>c\<in>set bs. be_Priority b \<le> be_Priority c \<Longrightarrow> be_ID (preferredBackend bs prior) = prior"
proof -
  let ?s = "sort_less backend_less bs"
  have hd: "hd ?s \<in> set bs" using assms hd_in_set [of ?s] by simp
  have least: "be_Priority (hd ?s) \<le> be_Priority b" if "b \<in> set bs" for b
    using backend_order.hd_slice_least [OF that] by (auto simp: backend_less_def split: if_splits)
  show "preferredBackend bs prior \<in> set bs"
    using hd by (auto simp: preferredBackend_def Let_def split: option.splits dest!: find_SomeD)
  show "\<forall>b\<in>set bs. be_Priority (preferredBackend bs prior) \<le> be_Priority b"
    using least by (auto simp: preferredBackend_def Let_def split: option.splits dest!: find_SomeD)
  assume b: "b \<in> set bs" "be_ID b = prior" "\<forall>c\<in>set bs. be_Priority b \<le> be_Priority c"
  then have "be_Priority b = be_Priority (hd ?s)" using least [OF b(1)] hd by (auto intro: order.antisym)
  then show "be_ID (preferredBackend bs prior) = prior"
    using b by (auto simp: preferredBackend_def Let_def find_None_iff split: option.splits dest!: find_SomeD)
qed

lemma backendByID_SomeD: "backendByID bs i = Some b \<Longrightarrow> b \<in> set bs \<and> be_ID b = i"
  unfolding backendByID_def by (drule find_SomeD) simp

text \<open>A backend with a fresh observation of the given status, as the probing node sees it.\<close>

definition seen_as :: "(Status \<Rightarrow> bool) \<Rightarrow> BackendPool \<Rightarrow> HealthPolicy \<Rightarrow> string \<Rightarrow> (HealthKey \<rightharpoonup> HealthObservation) \<Rightarrow> time \<Rightarrow> Backend \<Rightarrow> bool" where
  "seen_as P pool policy nodeID observations now b \<longleftrightarrow>
     (\<exists>ob. fresh_observation observations pool policy nodeID now b = Some ob \<and> P (ho_Status ob))"

lemma chooseBackend_member:
  assumes "bp_Backends pool \<noteq> []" and "chooseBackend pool nodeID prior observations now = (b, alert)"
  shows "b \<in> set (bp_Backends pool)"
proof -
  have "preferredBackend bs i \<in> set (bp_Backends pool)" if "bs \<noteq> []" "set bs \<subseteq> set (bp_Backends pool)" for bs i
    using preferredBackend_best(1) [OF that(1), of i] that(2) by blast
  moreover have "c \<in> set (bp_Backends pool)" if "backendByID bs i = Some c" "set bs \<subseteq> set (bp_Backends pool)" for bs i c
    using backendByID_SomeD [OF that(1)] that(2) by blast
  ultimately show ?thesis
    using assms by (auto simp: chooseBackend_def Let_def split: option.splits if_splits)
qed

lemma chooseBackend_cases:
  fixes nodeID :: string and observations :: "HealthKey \<rightharpoonup> HealthObservation" and now :: time
  assumes "bp_Health pool = Some policy"
  defines "healthy \<equiv> filter (seen_as (\<lambda>st. st = StatusHealthy) pool policy nodeID observations now) (bp_Backends pool)"
    and "unknown \<equiv> filter (\<lambda>b. \<not> seen_as (\<lambda>st. st \<noteq> StatusUnknown) pool policy nodeID observations now b) (bp_Backends pool)"
  shows "healthy \<noteq> [] \<Longrightarrow> chooseBackend pool nodeID prior observations now = (preferredBackend healthy prior, None)"
    and "healthy = [] \<Longrightarrow> unknown \<noteq> [] \<Longrightarrow> \<exists>b a. chooseBackend pool nodeID prior observations now = (b, Some a) \<and>
      b \<in> set unknown \<and> al_Code a = ''backend_health_unknown''"
    and "healthy = [] \<Longrightarrow> unknown = [] \<Longrightarrow> \<exists>b a. chooseBackend pool nodeID prior observations now = (b, Some a) \<and>
      al_Code a = ''backend_pool_exhausted''"
proof -
  let ?o = "fresh_observation observations pool policy nodeID now"
  have h: "filter (\<lambda>b. case ?o b of None \<Rightarrow> False | Some o' \<Rightarrow> ho_Status o' \<noteq> StatusUnknown \<and> ho_Status o' = StatusHealthy)
      (bp_Backends pool) = healthy"
    unfolding healthy_def by (rule filter_cong) (auto simp: seen_as_def split: option.splits)
  have u: "filter (\<lambda>b. case ?o b of None \<Rightarrow> True | Some o' \<Rightarrow> ho_Status o' = StatusUnknown) (bp_Backends pool) = unknown"
    unfolding unknown_def by (rule filter_cong) (auto simp: seen_as_def split: option.splits)
  note eq = chooseBackend_def [of pool nodeID prior observations now, unfolded assms(1) option.case(2) Let_def h u]
  show "healthy \<noteq> [] \<Longrightarrow> chooseBackend pool nodeID prior observations now = (preferredBackend healthy prior, None)"
    by (simp add: eq)
  show "\<exists>b a. chooseBackend pool nodeID prior observations now = (b, Some a) \<and> b \<in> set unknown \<and> al_Code a = ''backend_health_unknown''"
    if "healthy = []" "unknown \<noteq> []"
    using that preferredBackend_best(1) [OF that(2), of "[]"] backendByID_SomeD [of unknown prior]
    by (cases "backendByID unknown prior") (simp_all add: eq pool_alert_def)
  show "\<exists>b a. chooseBackend pool nodeID prior observations now = (b, Some a) \<and> al_Code a = ''backend_pool_exhausted''"
    if "healthy = []" "unknown = []"
    using that by (simp add: eq pool_alert_def)
qed

section \<open>Capacity\<close>

text \<open>The forwards charged to a node, and what its usage record says of them.\<close>

definition charged :: "Node \<Rightarrow> Forward list \<Rightarrow> Placement list \<Rightarrow> Forward list" where
  "charged n fs pms = map fst (filter (\<lambda>(f, pm). pm_IngressID pm = nd_ID n \<or> pm_ExitID pm = nd_ID n) (zip fs pms))"

definition total :: "(Reservation \<Rightarrow> u64) \<Rightarrow> Forward list \<Rightarrow> nat" where
  "total bits fs = (\<Sum>f\<leftarrow>fs. unat (bits (effectiveReservation f)))"

definition tally :: "Node \<Rightarrow> usages \<Rightarrow> Forward list \<Rightarrow> bool" where
  "tally n usage cs \<longleftrightarrow> (let u = usage (nd_ID n); c = nd_Capacity n in
     unat (nu_forwards u) = length cs \<and> length cs \<le> unat (cap_MaxForwards c) \<and>
     (cap_IngressBitsPerSecond c \<noteq> 0 \<longrightarrow>
        unat (nu_ingress u) = total rv_IngressBitsPerSecond cs \<and> nu_ingress u \<le> cap_IngressBitsPerSecond c) \<and>
     (cap_EgressBitsPerSecond c \<noteq> 0 \<longrightarrow>
        unat (nu_egress u) = total rv_EgressBitsPerSecond cs \<and> nu_egress u \<le> cap_EgressBitsPerSecond c))"

lemma charge_fits:
  fixes cap used need :: u64
  assumes "used \<le> cap" "\<not> need > cap - used"
  shows "unat (used + need) = unat used + unat need" and "used + need \<le> cap"
proof -
  have "unat need \<le> unat cap - unat used" using assms by (simp add: not_less word_le_nat_alt unat_sub)
  moreover have "unat used \<le> unat cap" using assms(1) by (simp add: word_le_nat_alt)
  ultimately have le: "unat used + unat need \<le> unat cap" by linarith
  moreover have "unat cap < 2 ^ 64" using unsigned_less [of cap] by simp
  ultimately have "unat used + unat need < 2 ^ 64" by linarith
  then show "unat (used + need) = unat used + unat need" by (simp add: unat_word_ariths)
  with le show "used + need \<le> cap" by (simp add: word_le_nat_alt)
qed

lemma tally_consume:
  assumes "tally n usage cs" and fits: "fits n (usage (nd_ID n)) (effectiveReservation f)"
  shows "tally n (consume usage n (effectiveReservation f)) (cs @ [f])"
proof -
  let ?u = "usage (nd_ID n)" and ?c = "nd_Capacity n" and ?r = "effectiveReservation f"
  have f: "nu_forwards ?u < cap_MaxForwards ?c"
      "cap_IngressBitsPerSecond ?c \<noteq> 0 \<Longrightarrow> \<not> rv_IngressBitsPerSecond ?r > cap_IngressBitsPerSecond ?c - nu_ingress ?u"
      "cap_EgressBitsPerSecond ?c \<noteq> 0 \<Longrightarrow> \<not> rv_EgressBitsPerSecond ?r > cap_EgressBitsPerSecond ?c - nu_egress ?u"
    using fits by (auto simp: fits_def not_le split: if_splits)
  have t: "unat (nu_forwards ?u) = length cs"
      "cap_IngressBitsPerSecond ?c \<noteq> 0 \<Longrightarrow> unat (nu_ingress ?u) = total rv_IngressBitsPerSecond cs \<and> nu_ingress ?u \<le> cap_IngressBitsPerSecond ?c"
      "cap_EgressBitsPerSecond ?c \<noteq> 0 \<Longrightarrow> unat (nu_egress ?u) = total rv_EgressBitsPerSecond cs \<and> nu_egress ?u \<le> cap_EgressBitsPerSecond ?c"
    using assms(1) by (auto simp: tally_def Let_def)
  have "unat (nu_forwards ?u) < unat (cap_MaxForwards ?c)" using f(1) by (simp add: word_less_nat_alt)
  moreover have "unat (cap_MaxForwards ?c) < 2 ^ 32" using unsigned_less [of "cap_MaxForwards ?c"] by simp
  ultimately have "unat (nu_forwards ?u + 1) = length cs + 1" "length cs + 1 \<le> unat (cap_MaxForwards ?c)"
    using t(1) by (simp_all add: unat_word_ariths)
  then show ?thesis
    unfolding tally_def Let_def consume_def
    using charge_fits [OF _ f(2)] t(2) charge_fits [OF _ f(3)] t(3) by (simp add: total_def)
qed

lemma tally_other: "nd_ID m \<noteq> nd_ID n \<Longrightarrow> tally n (consume usage m r) cs \<longleftrightarrow> tally n usage cs"
  by (simp add: tally_def consume_def Let_def)

lemma tally_start: "tally n (\<lambda>_. noUsage) []"
  by (simp add: tally_def noUsage_def total_def)

section \<open>One forward\<close>

text \<open>Two links that carry traffic between two nodes.\<close>

definition reciprocal :: "Node \<Rightarrow> Node \<Rightarrow> FabricLink \<Rightarrow> FabricLink \<Rightarrow> bool" where
  "reciprocal m n k l \<longleftrightarrow> k \<in> set (nd_FabricLinks m) \<and> l \<in> set (nd_FabricLinks n) \<and>
     cl_PeerNodeID k = nd_ID n \<and> cl_PeerNodeID l = nd_ID m \<and> cl_Transport k = cl_Transport l \<and>
     Unmap (cl_PeerAddress k) = Unmap (pfx_Addr (cl_LocalAddress l)) \<and> Unmap (cl_PeerAddress l) = Unmap (pfx_Addr (cl_LocalAddress k))"

definition relayed :: "Plan \<Rightarrow> Node list \<Rightarrow> (string \<rightharpoonup> NodeRuntime) \<Rightarrow> BackendPool \<Rightarrow> Forward \<Rightarrow> Node \<Rightarrow> Placement \<Rightarrow> bool" where
  "relayed plan nodes runtimes pool f n pm \<longleftrightarrow> (\<exists>e\<in>set nodes. pm_ExitID pm = nd_ID e \<and> nd_ID e \<noteq> nd_ID n \<and>
     serves plan runtimes pool f RoleExit (the (cf_Exit f)) e \<and>
     (\<exists>k l. reciprocal n e k l \<and> pm_FabricInID pm = cl_ID k \<and> pm_FabricOutID pm = cl_ID l) \<and>
     (effectiveFailurePolicy (cf_FailureDomainPolicy f) = FailureDomainDistinct \<longrightarrow> nd_FailureDomain e \<noteq> nd_FailureDomain n))"

definition placed :: "Plan \<Rightarrow> Node list \<Rightarrow> (string \<rightharpoonup> BackendPool) \<Rightarrow> (string \<rightharpoonup> NodeRuntime) \<Rightarrow> Forward \<Rightarrow> Placement \<Rightarrow> bool" where
  "placed plan nodes pools runtimes f pm \<longleftrightarrow> pm_ForwardID pm = cf_ID f \<and> pm_PathMode pm = cf_PathMode f \<and>
     (\<forall>pool. pools (cf_BackendPoolID f) = Some pool \<longrightarrow>
        (\<exists>b\<in>set (bp_Backends pool). pm_BackendID pm = be_ID b \<and> pm_Target pm = be_Target b) \<and>
        (\<exists>n\<in>set nodes. pm_IngressID pm = nd_ID n \<and> serves plan runtimes pool f RoleIngress (cf_Ingress f) n \<and>
           (if cf_PathMode f = PathViaExit then relayed plan nodes runtimes pool f n pm else pm_ExitID pm = [])))"

lemma place_exit_result:
  assumes "place_exit plan f prior n nodes runtimes usage pool pm = Inr (pm', probe, usage')"
  shows "pm_ForwardID pm' = pm_ForwardID pm \<and> pm_PathMode pm' = pm_PathMode pm \<and> pm_IngressID pm' = pm_IngressID pm"
    and "if cf_PathMode f = PathViaExit
      then relayed plan nodes runtimes pool f n pm' \<and> (\<exists>e\<in>set nodes. pm_ExitID pm' = nd_ID e \<and> nd_ID e \<noteq> nd_ID n \<and>
        fits e (usage (nd_ID e)) (effectiveReservation f) \<and> usage' = consume usage e (effectiveReservation f))
      else pm_ExitID pm' = pm_ExitID pm \<and> usage' = usage"
proof -
  show "pm_ForwardID pm' = pm_ForwardID pm \<and> pm_PathMode pm' = pm_PathMode pm \<and> pm_IngressID pm' = pm_IngressID pm"
    using assms by (auto simp: place_exit_def split: if_splits sum.splits option.splits)
  show "if cf_PathMode f = PathViaExit
      then relayed plan nodes runtimes pool f n pm' \<and> (\<exists>e\<in>set nodes. pm_ExitID pm' = nd_ID e \<and> nd_ID e \<noteq> nd_ID n \<and>
        fits e (usage (nd_ID e)) (effectiveReservation f) \<and> usage' = consume usage e (effectiveReservation f))
      else pm_ExitID pm' = pm_ExitID pm \<and> usage' = usage"
  proof (cases "cf_PathMode f = PathViaExit")
    case True
    then obtain e k l where e: "chooseNode plan f RoleExit (the (cf_Exit f)) (Some n) (pm_ExitID prior) nodes runtimes usage pool = Inr e"
      and links: "matchingLinks n e = Some (k, l)"
      and pm': "pm' = pm\<lparr>pm_ExitID := nd_ID e, pm_FabricInID := cl_ID k, pm_FabricOutID := cl_ID l\<rparr>"
      and usage': "usage' = consume usage e (effectiveReservation f)"
      using assms by (auto simp: place_exit_def split: sum.splits option.splits)
    have e_in: "e \<in> set nodes" and c: "candidate plan f RoleExit (the (cf_Exit f)) (Some n) runtimes usage pool e"
      using chooseNode_candidate [OF e] by blast+
    have "reciprocal n e k l" using matchingLinks_sound [OF links] unfolding reciprocal_def by blast
    then have "relayed plan nodes runtimes pool f n pm'"
      using e_in candidate_serves [OF c] candidate_serves(3) [OF c refl] unfolding relayed_def pm' by auto
    moreover have "pm_ExitID pm' = nd_ID e" by (simp add: pm')
    ultimately show ?thesis using True e_in candidate_serves(2) [OF c] candidate_serves(3) [OF c refl] usage' by auto
  next
    case False
    then show ?thesis using assms by (simp add: place_exit_def)
  qed
qed

lemma place_step_result:
  assumes "place_step plan nodes pools previous runtimes observations now i f (result, usage) = Inr (result', usage')"
  obtains pm1 b n usage1 probe pool where
    "rs_Placements result' = rs_Placements result @ [pm1\<lparr>pm_BackendID := be_ID (b :: Backend), pm_Target := be_Target b\<rparr>]"
    and "pool = (case pools (cf_BackendPoolID f) of None \<Rightarrow> noPool | Some p \<Rightarrow> p)"
    and "n \<in> set nodes" and "candidate plan f RoleIngress (cf_Ingress f) None runtimes usage pool n"
    and "place_exit plan f (case previous (cf_ID f) of None \<Rightarrow> noPlacement | Some p \<Rightarrow> p) n nodes runtimes usage pool
      (noPlacement\<lparr>pm_ForwardID := cf_ID f, pm_IngressID := nd_ID n, pm_PathMode := cf_PathMode f\<rparr>) = Inr (pm1, probe, usage1)"
    and "bp_Backends pool \<noteq> [] \<longrightarrow> b \<in> set (bp_Backends pool)"
    and "usage' = consume usage1 n (effectiveReservation f)"
proof -
  define pool where "pool = (case pools (cf_BackendPoolID f) of None \<Rightarrow> noPool | Some p \<Rightarrow> p)"
  define prior where "prior = (case previous (cf_ID f) of None \<Rightarrow> noPlacement | Some p \<Rightarrow> p)"
  note step = assms [unfolded place_step_def prod.case Let_def, folded pool_def prior_def]
  then obtain n where n: "chooseNode plan f RoleIngress (cf_Ingress f) None (pm_IngressID prior) nodes runtimes usage pool = Inr n"
    by (auto split: sum.splits)
  then obtain pm1 probe usage1 where e: "place_exit plan f prior n nodes runtimes usage pool
      (noPlacement\<lparr>pm_ForwardID := cf_ID f, pm_IngressID := nd_ID n, pm_PathMode := cf_PathMode f\<rparr>) = Inr (pm1, probe, usage1)"
    using step by (auto split: sum.splits)
  obtain b alert where b: "chooseBackend pool probe (pm_BackendID prior) observations now = (b, alert)"
    by (cases "chooseBackend pool probe (pm_BackendID prior) observations now")
  have r: "rs_Placements result' = rs_Placements result @ [pm1\<lparr>pm_BackendID := be_ID b, pm_Target := be_Target b\<rparr>]"
      "usage' = consume usage1 n (effectiveReservation f)"
    using step n e b by auto
  show ?thesis
    by (rule that [OF r(1) pool_def _ _ e [unfolded prior_def] _ r(2)])
      (use chooseNode_candidate [OF n] chooseBackend_member [OF _ b] in simp_all)
qed

text \<open>How the usages of a node change when a forward is charged to its exit and then to its ingress.\<close>

lemma tally_relayed:
  assumes nodes: "distinct (map nd_ID nodes)" "m \<in> set nodes" "n \<in> set nodes" "e \<in> set nodes"
    and e: "nd_ID e \<noteq> nd_ID n" "fits e (usage (nd_ID e)) (effectiveReservation f)"
    and n: "fits n (usage (nd_ID n)) (effectiveReservation f)" and "tally m usage cs"
  shows "tally m (consume (consume usage e (effectiveReservation f)) n (effectiveReservation f))
    (cs @ (if nd_ID n = nd_ID m \<or> nd_ID e = nd_ID m then [f] else []))"
proof -
  let ?r = "effectiveReservation f" and ?u = "consume usage e (effectiveReservation f)"
  have same: "m = n'" if "nd_ID m = nd_ID n'" "n' \<in> set nodes" for n'
    using that nodes(1,2) by (auto simp: distinct_map dest: inj_onD)
  have fit: "fits n (?u (nd_ID n)) ?r" using n e(1) by (simp add: consume_def Let_def)
  consider "m = n" | "m = e" "nd_ID m \<noteq> nd_ID n" | "nd_ID m \<noteq> nd_ID n" "nd_ID m \<noteq> nd_ID e"
    using same nodes(3,4) by blast
  then show ?thesis
  proof cases
    case 1
    then have "tally n ?u cs" using assms(8) e(1) by (simp add: tally_other)
    then show ?thesis using tally_consume [of n ?u cs f, OF _ fit] 1 by simp
  next
    case 2
    then show ?thesis using tally_consume [of e usage cs f, OF _ e(2)] assms(8) e(1) by (simp add: tally_other)
  next
    case 3
    then show ?thesis using assms(8) by (auto simp: tally_other)
  qed
qed

lemma tally_direct:
  assumes "distinct (map nd_ID nodes)" "m \<in> set nodes" "n \<in> set nodes"
    and "fits n (usage (nd_ID n)) (effectiveReservation f)" and "tally m usage cs"
  shows "tally m (consume usage n (effectiveReservation f)) (cs @ (if nd_ID n = nd_ID m then [f] else []))"
proof (cases "nd_ID n = nd_ID m")
  case True
  then have "m = n" using assms(1-3) by (auto simp: distinct_map dest: inj_onD)
  then show ?thesis using tally_consume [OF assms(5)] assms(4) by simp
qed (use assms(5) in \<open>simp add: tally_other\<close>)

lemma place_step_placed:
  assumes step: "place_step plan nodes pools previous runtimes observations now i f (result, usage) = Inr (result', usage')"
    and nodes: "distinct (map nd_ID nodes)" "\<forall>n\<in>set nodes. nd_ID n \<noteq> []" and pools: "\<forall>pool\<in>ran pools. bp_Backends pool \<noteq> []"
  obtains pm where "rs_Placements result' = rs_Placements result @ [pm]" and "placed plan nodes pools runtimes f pm"
    and "\<forall>n\<in>set nodes. \<forall>cs. tally n usage cs \<longrightarrow>
      tally n usage' (cs @ (if pm_IngressID pm = nd_ID n \<or> pm_ExitID pm = nd_ID n then [f] else []))"
proof -
  obtain pm1 b n usage1 probe pool where
    new: "rs_Placements result' = rs_Placements result @ [pm1\<lparr>pm_BackendID := be_ID (b :: Backend), pm_Target := be_Target b\<rparr>]"
    and pool: "pool = (case pools (cf_BackendPoolID f) of None \<Rightarrow> noPool | Some p \<Rightarrow> p)"
    and n: "n \<in> set nodes" "candidate plan f RoleIngress (cf_Ingress f) None runtimes usage pool n"
    and ex: "place_exit plan f (case previous (cf_ID f) of None \<Rightarrow> noPlacement | Some p \<Rightarrow> p) n nodes runtimes usage pool
      (noPlacement\<lparr>pm_ForwardID := cf_ID f, pm_IngressID := nd_ID n, pm_PathMode := cf_PathMode f\<rparr>) = Inr (pm1, probe, usage1)"
    and b: "bp_Backends pool \<noteq> [] \<longrightarrow> b \<in> set (bp_Backends pool)"
    and usage': "usage' = consume usage1 n (effectiveReservation f)"
    by (rule place_step_result [OF step])
  let ?pm = "pm1\<lparr>pm_BackendID := be_ID b, pm_Target := be_Target b\<rparr>"
  note exit = place_exit_result [OF ex]
  have fields: "pm_ForwardID pm1 = cf_ID f" "pm_PathMode pm1 = cf_PathMode f" "pm_IngressID pm1 = nd_ID n"
    using exit(1) by auto
  have direct: "cf_PathMode f \<noteq> PathViaExit \<Longrightarrow> pm_ExitID pm1 = [] \<and> usage1 = usage"
    using exit(2) by (simp add: noPlacement_def)
  have "relayed plan nodes runtimes pool f n ?pm" if "cf_PathMode f = PathViaExit"
    using exit(2) that unfolding relayed_def by simp
  then have "placed plan nodes pools runtimes f ?pm"
    unfolding placed_def using fields direct n(1) candidate_serves(1) [OF n(2)] pools b pool by (auto simp: ran_def)
  moreover have "tally m usage' (cs @ (if pm_IngressID ?pm = nd_ID m \<or> pm_ExitID ?pm = nd_ID m then [f] else []))"
    if m: "m \<in> set nodes" "tally m usage cs" for m cs
  proof (cases "cf_PathMode f = PathViaExit")
    case True
    then obtain e where e: "e \<in> set nodes" "pm_ExitID pm1 = nd_ID e" "nd_ID e \<noteq> nd_ID n"
        "fits e (usage (nd_ID e)) (effectiveReservation f)" "usage1 = consume usage e (effectiveReservation f)"
      using exit(2) by auto
    show ?thesis
      using tally_relayed [OF nodes(1) m(1) n(1) e(1,3,4) candidate_serves(2) [OF n(2)] m(2)] usage' e(2,5) fields(3) by simp
  next
    case False
    then show ?thesis
      using direct fields(3) usage' nodes(2) tally_direct [OF nodes(1) m(1) n(1) candidate_serves(2) [OF n(2)] m(2)] m(1) by auto
  qed
  ultimately show ?thesis by (intro that [OF new]) blast+
qed

section \<open>The whole plan\<close>

definition place_inv :: "Plan \<Rightarrow> Node list \<Rightarrow> (string \<rightharpoonup> BackendPool) \<Rightarrow> (string \<rightharpoonup> NodeRuntime) \<Rightarrow> Forward list \<Rightarrow> Result \<times> usages \<Rightarrow> bool" where
  "place_inv plan nodes pools runtimes fs st \<longleftrightarrow>
     distinct (map nd_ID nodes) \<and> (\<forall>n\<in>set nodes. nd_ID n \<noteq> []) \<and> (\<forall>pool\<in>ran pools. bp_Backends pool \<noteq> []) \<and>
     list_all2 (placed plan nodes pools runtimes) fs (rs_Placements (fst st)) \<and>
     (\<forall>n\<in>set nodes. tally n (snd st) (charged n fs (rs_Placements (fst st))))"

lemma charged_snoc:
  assumes "length fs = length pms"
  shows "charged n (fs @ [f]) (pms @ [pm]) = charged n fs pms @ (if pm_IngressID pm = nd_ID n \<or> pm_ExitID pm = nd_ID n then [f] else [])"
  using assms by (simp add: charged_def)

interpretation placing: check_inv "place_step plan nodes pools previous runtimes observations now" "place_inv plan nodes pools runtimes"
proof
  fix seen i f and st st' :: "Result \<times> usages"
  obtain result usage result' usage' where st: "st = (result, usage)" "st' = (result', usage')" by (cases st, cases st')
  assume inv: "place_inv plan nodes pools runtimes seen st"
    and step: "place_step plan nodes pools previous runtimes observations now i f st = Inr st'"
  obtain pm where new: "rs_Placements result' = rs_Placements result @ [pm]" "placed plan nodes pools runtimes f pm"
    and tally: "\<forall>n\<in>set nodes. \<forall>cs. tally n usage cs \<longrightarrow>
      tally n usage' (cs @ (if pm_IngressID pm = nd_ID n \<or> pm_ExitID pm = nd_ID n then [f] else []))"
    by (rule place_step_placed [OF step [unfolded st]]) (use inv in \<open>auto simp: place_inv_def\<close>)
  have len: "length seen = length (rs_Placements result)"
    using inv st by (auto simp: place_inv_def dest: list_all2_lengthD)
  show "place_inv plan nodes pools runtimes (seen @ [f]) st'"
    using inv new tally unfolding place_inv_def st by (simp add: charged_snoc [OF len] list_all2_appendI)
qed

lemma last_by_Some: "last_by key xs k = Some x \<Longrightarrow> x \<in> set xs \<and> key x = k"
  unfolding last_by_def by (drule find_SomeD) simp

lemma last_by_in: "k \<in> key ` set xs \<Longrightarrow> \<exists>x. last_by key xs k = Some x"
  unfolding last_by_def by (cases "find (\<lambda>x. key x = k) (rev xs)") (auto simp: find_None_iff)

lemma validIdentifier_nonempty: "validIdentifier v \<Longrightarrow> v \<noteq> []"
  by (cases v) simp_all

lemma Place_inv:
  assumes place: "Place idna order plan runtimes observations previous now = Inr result"
    and order: "\<And>xs. mset (order xs) = mset xs"
  defines "p \<equiv> Plan_Canonical idna plan"
  obtains usage where "plan_ok p" "set (order (pl_Nodes p)) = set (pl_Nodes p)"
    "place_inv p (order (pl_Nodes p)) (last_by bp_ID (pl_BackendPools p)) runtimes (pl_Forwards p) (result, usage)"
proof -
  have valid: "Plan_Validate idna plan = []" using place by (auto simp: Place_def split: if_splits)
  have ok: "plan_ok p" unfolding p_def by (rule Plan_Canonical_ok [OF Plan_Validate_ok [OF valid]])
  let ?ns = "order (pl_Nodes p)" and ?pools = "last_by bp_ID (pl_BackendPools p)"
  obtain usage where run: "range_check (place_step p ?ns ?pools (last_by pm_ForwardID previous) runtimes observations now)
      0 (\<lparr>rs_Placements = [], rs_Alerts = []\<rparr>, \<lambda>_. noUsage) (pl_Forwards p) = Inr (result, usage)"
    using place valid unfolding Place_def p_def [symmetric] Let_def
    by (cases "range_check (place_step p ?ns ?pools (last_by pm_ForwardID previous) runtimes observations now)
      0 (\<lparr>rs_Placements = [], rs_Alerts = []\<rparr>, \<lambda>_. noUsage) (pl_Forwards p)") auto
  have set: "set ?ns = set (pl_Nodes p)" using order by (metis set_mset_mset)
  have "distinct (map nd_ID ?ns)"
    using ok order [of "pl_Nodes p"] unfolding plan_ok_def by (metis mset_eq_imp_distinct_iff mset_map)
  moreover have "\<forall>n\<in>set ?ns. nd_ID n \<noteq> []"
    using ok set unfolding plan_ok_def node_valid_def by (blast dest: validIdentifier_nonempty)
  moreover have "\<forall>pool\<in>ran ?pools. bp_Backends pool \<noteq> []"
    using ok unfolding plan_ok_def pool_valid_def by (auto simp: ran_def dest!: last_by_Some)
  ultimately have "place_inv p ?ns ?pools runtimes [] (\<lparr>rs_Placements = [], rs_Alerts = []\<rparr>, \<lambda>_. noUsage)"
    by (simp add: place_inv_def charged_def tally_start)
  from placing.inv_check [OF this run] show ?thesis using that ok set by simp
qed

text \<open>A forward's placement, read off the canonical plan.\<close>

definition placement_ok :: "Plan \<Rightarrow> (string \<rightharpoonup> NodeRuntime) \<Rightarrow> Forward \<Rightarrow> Placement \<Rightarrow> bool" where
  "placement_ok p runtimes f pm \<longleftrightarrow> pm_ForwardID pm = cf_ID f \<and> pm_PathMode pm = cf_PathMode f \<and>
     (\<exists>pool\<in>set (pl_BackendPools p). bp_ID pool = cf_BackendPoolID f \<and>
        (\<exists>b\<in>set (bp_Backends pool). pm_BackendID pm = be_ID b \<and> pm_Target pm = be_Target b) \<and>
        (\<exists>n\<in>set (pl_Nodes p). pm_IngressID pm = nd_ID n \<and> serves p runtimes pool f RoleIngress (cf_Ingress f) n \<and>
           (if cf_PathMode f = PathViaExit then relayed p (pl_Nodes p) runtimes pool f n pm else pm_ExitID pm = [])))"

lemma placed_ok:
  assumes ok: "plan_ok p" and set: "set nodes = set (pl_Nodes p)" and "f \<in> set (pl_Forwards p)"
    and pl: "placed p nodes (last_by bp_ID (pl_BackendPools p)) runtimes f pm"
  shows "placement_ok p runtimes f pm"
proof -
  have "cf_BackendPoolID f \<in> bp_ID ` set (pl_BackendPools p)" using ok assms(3) unfolding plan_ok_def by blast
  from last_by_in [OF this] obtain pool where pool: "last_by bp_ID (pl_BackendPools p) (cf_BackendPoolID f) = Some pool" ..
  have in_plan: "pool \<in> set (pl_BackendPools p)" "bp_ID pool = cf_BackendPoolID f" using last_by_Some [OF pool] by simp_all
  have rel: "relayed p nodes runtimes pool f n pm = relayed p (pl_Nodes p) runtimes pool f n pm" for n pool
    unfolding relayed_def set ..
  have "(\<exists>b\<in>set (bp_Backends pool). pm_BackendID pm = be_ID b \<and> pm_Target pm = be_Target b) \<and>
      (\<exists>n\<in>set (pl_Nodes p). pm_IngressID pm = nd_ID n \<and> serves p runtimes pool f RoleIngress (cf_Ingress f) n \<and>
        (if cf_PathMode f = PathViaExit then relayed p (pl_Nodes p) runtimes pool f n pm else pm_ExitID pm = []))"
    using pl pool unfolding placed_def set rel by simp
  then show ?thesis
    unfolding placement_ok_def using pl in_plan unfolding placed_def by blast
qed

lemma sample_placed:
  "Place Some rev sample_plan sample_runtimes Map.empty [] 0 =
     Inr \<lparr>rs_Placements =
       [noPlacement\<lparr>pm_ForwardID := ''f1'', pm_IngressID := ''n1'', pm_BackendID := ''b1'',
          pm_Target := \<lparr>ep_Address = Addr4 0xC6336401, ep_Hostname = [], ep_Port = 443\<rparr>, pm_PathMode := PathDirect\<rparr>,
        \<lparr>pm_ForwardID = ''f2'', pm_IngressID = ''n1'', pm_ExitID = ''n2'', pm_BackendID = ''b1'',
          pm_Target = \<lparr>ep_Address = Addr4 0xC6336401, ep_Hostname = [], ep_Port = 443\<rparr>, pm_PathMode = PathViaExit,
          pm_FabricInID = ''l1'', pm_FabricOutID = ''l1''\<rparr>], rs_Alerts = []\<rparr>"
  unfolding Place_def by (simp only: sample_plan_valid simp_thms if_False) code_simp

section \<open>Properties\<close>

text \<open>C34. The placement does not depend on the order in which the map of nodes is ranged over: sorting
  the candidates with the cross-multiplied comparator and the search for the previous node give the
  same node for every order.\<close>

theorem Place_order_independent:
  assumes "\<And>xs. mset (order xs) = mset xs"
  shows "Place idna order plan runtimes observations previous now = Place idna (\<lambda>xs. xs) plan runtimes observations previous now"
proof (cases "Plan_Validate idna plan = []")
  case True
  let ?p = "Plan_Canonical idna plan"
  have ok: "plan_ok ?p" by (rule Plan_Canonical_ok [OF Plan_Validate_ok [OF True]])
  have nodes: "distinct (map nd_ID (order (pl_Nodes ?p)))" "distinct (map nd_ID (pl_Nodes ?p))"
      "set (order (pl_Nodes ?p)) = set (pl_Nodes ?p)" "\<forall>n\<in>set (pl_Nodes ?p). cap_MaxForwards (nd_Capacity n) \<noteq> 0"
    using ok assms [of "pl_Nodes ?p"] unfolding plan_ok_def node_valid_def
    by (metis mset_eq_imp_distinct_iff mset_map, blast, metis set_mset_mset, blast)
  have "place_step ?p (order (pl_Nodes ?p)) pools prev runtimes observations now =
      place_step ?p (pl_Nodes ?p) pools prev runtimes observations now" for pools prev
    unfolding place_step_def [abs_def] place_exit_def [abs_def] chooseNode_order [OF nodes] ..
  with True show ?thesis by (simp add: Place_def Let_def)
qed (simp add: Place_def)

theorem Place_order_independent_witness:
  "Place Some rev sample_plan sample_runtimes Map.empty [] 0 = Place Some (\<lambda>xs. xs) sample_plan sample_runtimes Map.empty [] 0"
  by (rule Place_order_independent) simp

text \<open>C33. Every forward of the plan is placed, in order, on an enabled, available and capable node that
  its selector admits; a relayed forward also on a different exit node of this kind that a pair of
  reciprocal links connects, in another failure domain where the policy demands it, and the target is
  that of a backend of the forward's pool.\<close>

theorem Place_sound:
  assumes "Place idna order plan runtimes observations previous now = Inr result" and "\<And>xs. mset (order xs) = mset xs"
  shows "list_all2 (placement_ok (Plan_Canonical idna plan) runtimes) (pl_Forwards (Plan_Canonical idna plan)) (rs_Placements result)"
proof -
  let ?p = "Plan_Canonical idna plan" and ?pools = "last_by bp_ID (pl_BackendPools (Plan_Canonical idna plan))"
  obtain usage where ok: "plan_ok ?p" and set: "set (order (pl_Nodes ?p)) = set (pl_Nodes ?p)"
    and inv: "place_inv ?p (order (pl_Nodes ?p)) ?pools runtimes (pl_Forwards ?p) (result, usage)"
    by (rule Place_inv [OF assms])
  have all: "list_all2 (placed ?p (order (pl_Nodes ?p)) ?pools runtimes) (pl_Forwards ?p) (rs_Placements result)"
    using inv by (simp add: place_inv_def)
  show ?thesis
    by (rule list.rel_mono_strong [OF all]) (rule placed_ok [OF ok set])
qed

theorem Place_sound_witness:
  "\<exists>result. Place Some rev sample_plan sample_runtimes Map.empty [] 0 = Inr result \<and>
     list_all2 (placement_ok (Plan_Canonical Some sample_plan) sample_runtimes) (pl_Forwards (Plan_Canonical Some sample_plan)) (rs_Placements result)"
  using Place_sound [OF sample_placed] sample_placed by force

text \<open>C6. No node is overbooked: the forwards charged to a node are at most its maximum, and their
  reservations sum up (in exact arithmetic) to at most its bandwidth in each direction, unless the
  plan leaves that bandwidth open.\<close>

theorem Place_capacity:
  assumes "Place idna order plan runtimes observations previous now = Inr result" and "\<And>xs. mset (order xs) = mset xs"
    and "n \<in> set (pl_Nodes plan)"
  shows "length (charged n (pl_Forwards (Plan_Canonical idna plan)) (rs_Placements result)) \<le> unat (cap_MaxForwards (nd_Capacity n)) \<and>
    (cap_IngressBitsPerSecond (nd_Capacity n) \<noteq> 0 \<longrightarrow>
       total rv_IngressBitsPerSecond (charged n (pl_Forwards (Plan_Canonical idna plan)) (rs_Placements result))
         \<le> unat (cap_IngressBitsPerSecond (nd_Capacity n))) \<and>
    (cap_EgressBitsPerSecond (nd_Capacity n) \<noteq> 0 \<longrightarrow>
       total rv_EgressBitsPerSecond (charged n (pl_Forwards (Plan_Canonical idna plan)) (rs_Placements result))
         \<le> unat (cap_EgressBitsPerSecond (nd_Capacity n)))"
proof -
  let ?p = "Plan_Canonical idna plan"
  obtain usage where "set (order (pl_Nodes ?p)) = set (pl_Nodes ?p)"
    and inv: "place_inv ?p (order (pl_Nodes ?p)) (last_by bp_ID (pl_BackendPools ?p)) runtimes (pl_Forwards ?p) (result, usage)"
    by (rule Place_inv [OF assms(1,2)])
  moreover have "canonical_node n \<in> set (pl_Nodes ?p)" using assms(3) by (simp add: Plan_Canonical_lists)
  ultimately have t: "tally (canonical_node n) usage (charged (canonical_node n) (pl_Forwards ?p) (rs_Placements result))"
    by (simp add: place_inv_def)
  have c: "charged (canonical_node n) fs pms = charged n fs pms" for fs pms by (simp add: charged_def)
  show ?thesis using t [unfolded c] by (auto simp: tally_def Let_def word_le_nat_alt)
qed

theorem Place_capacity_witness:
  "length (charged (hd (pl_Nodes sample_plan)) (pl_Forwards (Plan_Canonical Some sample_plan))
     (case Place Some rev sample_plan sample_runtimes Map.empty [] 0 of Inr r \<Rightarrow> rs_Placements r)) \<le> 2"
proof -
  have "hd (pl_Nodes sample_plan) \<in> set (pl_Nodes sample_plan)" "cap_MaxForwards (nd_Capacity (hd (pl_Nodes sample_plan))) = 2"
    by (simp_all add: sample_plan_def sample_node_def)
  then show ?thesis using Place_capacity [OF sample_placed, of "hd (pl_Nodes sample_plan)"] by (simp add: sample_placed)
qed

text \<open>A node that served the forward before is kept while it is eligible; otherwise no eligible node
  ranks before the chosen one: none in another failure domain when that is preferred and the chosen
  one is not, and among equals none with a smaller load, compared as exact fractions.\<close>

theorem chooseNode_balanced:
  assumes "chooseNode plan forward role selector opposite prior ns runtimes usage pool = Inr n"
    and "\<forall>c\<in>set ns. cap_MaxForwards (nd_Capacity c) \<noteq> 0"
  shows "if prior \<noteq> [] \<and> (\<exists>c\<in>set ns. candidate plan forward role selector opposite runtimes usage pool c \<and> nd_ID c = prior)
    then nd_ID n = prior
    else \<forall>c\<in>set ns. candidate plan forward role selector opposite runtimes usage pool c \<longrightarrow>
      domain_rank forward opposite n \<le> domain_rank forward opposite c \<and>
      (domain_rank forward opposite n = domain_rank forward opposite c \<longrightarrow> load usage n \<le> load usage c)"
  using chooseNode_best [OF assms] unfolding node_before_def by (auto simp: not_less split: if_splits)

theorem chooseNode_balanced_witness:
  "\<exists>n. chooseNode sample_plan (hd (pl_Forwards sample_plan)) RoleIngress (cf_Ingress (hd (pl_Forwards sample_plan))) None ''n1''
     (pl_Nodes sample_plan) sample_runtimes (\<lambda>_. noUsage) noPool = Inr n \<and> nd_ID n = ''n1''"
proof -
  let ?f = "hd (pl_Forwards sample_plan)"
  have c: "chooseNode sample_plan ?f RoleIngress (cf_Ingress ?f) None ''n1'' (pl_Nodes sample_plan) sample_runtimes (\<lambda>_. noUsage) noPool
      = Inr (hd (pl_Nodes sample_plan))" by code_simp
  have "candidate sample_plan ?f RoleIngress (cf_Ingress ?f) None sample_runtimes (\<lambda>_. noUsage) noPool (hd (pl_Nodes sample_plan))"
    "nd_ID (hd (pl_Nodes sample_plan)) = ''n1''" "hd (pl_Nodes sample_plan) \<in> set (pl_Nodes sample_plan)"
    "\<forall>c\<in>set (pl_Nodes sample_plan). cap_MaxForwards (nd_Capacity c) \<noteq> 0" by code_simp+
  then show ?thesis using chooseNode_balanced [OF c] c by auto
qed

text \<open>With a health policy, a backend with a fresh healthy observation is chosen whenever there is
  one, of least priority value among them, and the previous one when it is among the best; without
  one the choice raises an alert, which reports the pool exhausted exactly when every backend is
  freshly known to be unhealthy, and otherwise a backend of unknown health is used.\<close>

theorem chooseBackend_health:
  assumes "bp_Health pool = Some policy" and "bp_Backends pool \<noteq> []"
    and "chooseBackend pool nodeID prior observations now = (b, alert)"
  shows "if \<exists>c\<in>set (bp_Backends pool). seen_as (\<lambda>st. st = StatusHealthy) pool policy nodeID observations now c
    then alert = None \<and> b \<in> set (bp_Backends pool) \<and> seen_as (\<lambda>st. st = StatusHealthy) pool policy nodeID observations now b \<and>
      (\<forall>c\<in>set (bp_Backends pool). seen_as (\<lambda>st. st = StatusHealthy) pool policy nodeID observations now c \<longrightarrow>
         be_Priority b \<le> be_Priority c \<and> (be_ID c = prior \<and> be_Priority c = be_Priority b \<longrightarrow> be_ID b = prior))
    else \<exists>a. alert = Some a \<and> b \<in> set (bp_Backends pool) \<and>
      (if \<forall>c\<in>set (bp_Backends pool). seen_as (\<lambda>st. st \<noteq> StatusUnknown) pool policy nodeID observations now c
       then al_Code a = ''backend_pool_exhausted''
       else al_Code a = ''backend_health_unknown'' \<and> \<not> seen_as (\<lambda>st. st \<noteq> StatusUnknown) pool policy nodeID observations now b)"
proof -
  define H where "H = filter (seen_as (\<lambda>st. st = StatusHealthy) pool policy nodeID observations now) (bp_Backends pool)"
  define U where "U = filter (\<lambda>b. \<not> seen_as (\<lambda>st. st \<noteq> StatusUnknown) pool policy nodeID observations now b) (bp_Backends pool)"
  note cases = chooseBackend_cases [OF assms(1), of nodeID observations now, folded H_def U_def]
  have member: "b \<in> set (bp_Backends pool)" by (rule chooseBackend_member [OF assms(2,3)])
  have sets: "c \<in> set H \<longleftrightarrow> c \<in> set (bp_Backends pool) \<and> seen_as (\<lambda>st. st = StatusHealthy) pool policy nodeID observations now c"
      "c \<in> set U \<longleftrightarrow> c \<in> set (bp_Backends pool) \<and> \<not> seen_as (\<lambda>st. st \<noteq> StatusUnknown) pool policy nodeID observations now c" for c
    by (simp_all add: H_def U_def)
  consider "H \<noteq> []" | "H = []" "U \<noteq> []" | "H = []" "U = []" by blast
  then show ?thesis
  proof cases
    case 1
    then have b: "b = preferredBackend H prior" "alert = None" using cases(1) [OF 1, of prior] assms(3) by simp_all
    have best: "b \<in> set H" "\<forall>c\<in>set H. be_Priority b \<le> be_Priority c" unfolding b by (rule preferredBackend_best [OF 1])+
    moreover have "be_ID b = prior" if "c \<in> set H" "be_ID c = prior" "be_Priority c = be_Priority b" for c
      using preferredBackend_best(3) [OF 1 that(1,2)] that(3) best(2) b(1) by simp
    ultimately show ?thesis using b(2) unfolding Ball_def Bex_def sets by auto
  next
    case 2
    then have "\<And>c. c \<notin> set H" "\<exists>c. c \<in> set U" by (auto simp: neq_Nil_conv)
    then show ?thesis using cases(2) [OF 2, of prior] assms(3) member unfolding sets by auto
  next
    case 3
    then have "\<And>c. c \<notin> set H" "\<And>c. c \<notin> set U" by simp_all
    then show ?thesis using cases(3) [OF 3, of prior] assms(3) member unfolding sets by auto
  qed
qed

definition sample_backend :: "string \<Rightarrow> u16 \<Rightarrow> Backend" where
  "sample_backend name priority = \<lparr>be_ID = name, be_Target = \<lparr>ep_Address = Addr4 0xC6336401, ep_Hostname = [], ep_Port = 443\<rparr>,
     be_ProbeEndpoint = None, be_Priority = priority, be_ResourceVersion = 1\<rparr>"

definition sample_pool :: BackendPool where
  "sample_pool = \<lparr>bp_ID = ''p1'', bp_Backends = [sample_backend ''b1'' 1, sample_backend ''b2'' 2],
     bp_Health = Some \<lparr>hp_IntervalSeconds = 10, hp_TimeoutMilliseconds = 1000, hp_FailureThreshold = 3, hp_SuccessThreshold = 2,
       hp_StaleAfterSeconds = 30\<rparr>, bp_ResourceVersion = 1\<rparr>"

definition sample_observations :: "HealthKey \<rightharpoonup> HealthObservation" where
  "sample_observations = map_of [((''n1'', ''p1'', ''b1''), \<lparr>ho_Status = StatusUnhealthy, ho_ResourceVersion = 1, ho_ObservedAt = 5\<rparr>),
     ((''n1'', ''p1'', ''b2''), \<lparr>ho_Status = StatusHealthy, ho_ResourceVersion = 1, ho_ObservedAt = 6\<rparr>)]"

theorem chooseBackend_health_witness:
  "chooseBackend sample_pool ''n1'' ''b1'' sample_observations 7 = (sample_backend ''b2'' 2, None) \<and>
   seen_as (\<lambda>st. st = StatusHealthy) sample_pool (the (bp_Health sample_pool)) ''n1'' sample_observations 7 (sample_backend ''b2'' 2)"
proof -
  have c: "chooseBackend sample_pool ''n1'' ''b1'' sample_observations 7 = (sample_backend ''b2'' 2, None)" by code_simp
  have p: "bp_Health sample_pool = Some (the (bp_Health sample_pool))" "bp_Backends sample_pool \<noteq> []"
    by (simp_all add: sample_pool_def)
  show ?thesis using chooseBackend_health [OF p c] c by (auto split: if_splits)
qed

end
