(* ===== verification/Cluster_Compile.thy ===== *)
theory Cluster_Compile
  imports Cluster_Placement "HOL-Library.AList"
begin

text \<open>
  \<open>Compile\<close> of \<open>internal/cluster/scheduler.go\<close>: the placements of a plan become one desired state per
  node. The map of states is an association list in insertion order; the last loop ranges over it in
  an unspecified order, a parameter of the model.
\<close>

section \<open>Definitions\<close>

datatype compile_error =
    PlanRejected "string list"
  | UnknownForward string
  | StaleBackend string
  | NoServiceVIP string
  | LinkFailed string string string
  | StateRejected string "string list"

record compile_state =
  co_desired :: "(string \<times> DesiredState) list"
  co_links :: "string \<Rightarrow> string set"
  co_users :: "string \<Rightarrow> string set"
  co_checks :: "string \<Rightarrow> string set"

definition noState :: DesiredState where
  "noState = \<lparr>ds_SchemaVersion = 0, ds_NodeID = [], ds_Generation = 0, ds_ManagementDomain = [],
     ds_ServiceCIDRs = [], ds_FabricLinks = [], ds_HealthChecks = [], ds_UserPolicies = [], ds_ProtocolBlocks = None, ds_Forwards = []\<rparr>"

definition desired_at :: "(string \<times> DesiredState) list \<Rightarrow> string \<Rightarrow> DesiredState" where
  "desired_at desired k = (case map_of desired k of None \<Rightarrow> noState | Some s \<Rightarrow> s)"

definition initial_state :: "Plan \<Rightarrow> Node \<Rightarrow> DesiredState" where
  "initial_state plan node = (emptyState (nd_ID node))\<lparr>ds_ManagementDomain := ''cluster:'' @ pl_ID plan,
     ds_ServiceCIDRs := pl_ServiceCIDRs plan,
     ds_ProtocolBlocks := (case nd_ProtocolBlocks node of None \<Rightarrow> None
       | Some policy \<Rightarrow> if ProtocolBlockPolicy_Any policy then Some policy else None)\<rparr>"

definition initial_states :: "Plan \<Rightarrow> (string \<times> DesiredState) list" where
  "initial_states plan = foldl (\<lambda>desired node. AList.update (nd_ID node) (initial_state plan node) desired) [] (pl_Nodes plan)"

definition base_forward :: "Forward \<Rightarrow> Placement \<Rightarrow> ForwardSpec" where
  "base_forward forward placement =
     \<lparr>fw_ID = cf_ID forward, fw_UserID = cf_UserID forward, fw_Protocols = cf_Protocols forward,
      fw_IngressNodeID = pm_IngressID placement, fw_ExitNodeID = pm_ExitID placement, fw_Listen = cf_Listen forward,
      fw_Target = (pm_Target placement)\<lparr>ep_Hostname := []\<rparr>, fw_ServiceVIP = None, fw_FabricLinkID = [],
      fw_PathMode = cf_PathMode forward, fw_SNAT = cf_SNAT forward, fw_TrafficClassID = 0, fw_RateLimit = cf_RateLimit forward,
      fw_TrafficQuota = cf_TrafficQuota forward, fw_ExpiresAt = cf_ExpiresAt forward, fw_DrainDeadline = cf_DrainDeadline forward,
      fw_Lifecycle = cf_Lifecycle forward, fw_ResourceVersion = cf_ResourceVersion forward\<rparr>"

definition append_forward :: "string \<Rightarrow> ForwardSpec \<Rightarrow> (string \<times> DesiredState) list \<Rightarrow> (string \<times> DesiredState) list" where
  "append_forward node f desired =
     (let state = desired_at desired node in AList.update node (state\<lparr>ds_Forwards := ds_Forwards state @ [f]\<rparr>) desired)"

definition mark :: "string \<Rightarrow> string \<Rightarrow> (string \<Rightarrow> string set) \<Rightarrow> string \<Rightarrow> string set" where
  "mark k v m = m(k := insert v (m k))"

definition health_check :: "BackendPool \<Rightarrow> HealthPolicy \<Rightarrow> Backend \<Rightarrow> HealthCheckSpec" where
  "health_check pool health backend =
     (let endpoint = (case be_ProbeEndpoint backend of None \<Rightarrow> be_Target backend | Some e \<Rightarrow> e) in
      \<lparr>hc_PoolID = bp_ID pool, hc_BackendID = be_ID backend, hc_Endpoint = endpoint\<lparr>ep_Hostname := []\<rparr>, hc_Protocol = ProtocolTCP,
       hc_IntervalSeconds = hp_IntervalSeconds health, hc_TimeoutMilliseconds = hp_TimeoutMilliseconds health,
       hc_FailureThreshold = hp_FailureThreshold health, hc_SuccessThreshold = hp_SuccessThreshold health,
       hc_ResourceVersion = be_ResourceVersion backend\<rparr>)"

definition check_step :: "BackendPool \<Rightarrow> HealthPolicy \<Rightarrow> Backend \<Rightarrow> string set \<times> HealthCheckSpec list \<Rightarrow> string set \<times> HealthCheckSpec list" where
  "check_step pool health backend st = (case st of (keys, checks) \<Rightarrow>
     let key = bp_ID pool @ [CHR 0x00] @ be_ID backend in
     if key \<in> keys then (keys, checks) else (insert key keys, checks @ [health_check pool health backend]))"

definition add_checks :: "BackendPool \<Rightarrow> Placement \<Rightarrow> compile_state \<Rightarrow> compile_state" where
  "add_checks pool placement st = (case bp_Health pool of None \<Rightarrow> st
    | Some health \<Rightarrow>
        let probeNode = (if pm_PathMode placement = PathViaExit then pm_ExitID placement else pm_IngressID placement);
            state = desired_at (co_desired st) probeNode;
            (keys, checks) = fold (check_step pool health) (bp_Backends pool) (co_checks st probeNode, ds_HealthChecks state)
        in st\<lparr>co_desired := AList.update probeNode (state\<lparr>ds_HealthChecks := checks\<rparr>) (co_desired st),
              co_checks := (co_checks st)(probeNode := keys)\<rparr>)"

definition compile_step :: "(string \<rightharpoonup> Forward) \<Rightarrow> (string \<rightharpoonup> BackendPool) \<Rightarrow> (string \<rightharpoonup> Addr) \<Rightarrow> nat \<Rightarrow> Placement
    \<Rightarrow> compile_state \<Rightarrow> compile_error + compile_state" where
  "compile_step forwards pools serviceVIPs i placement st =
     (case forwards (pm_ForwardID placement) of
        None \<Rightarrow> Inl (UnknownForward (pm_ForwardID placement))
      | Some forward \<Rightarrow>
          let pool = (case pools (cf_BackendPoolID forward) of None \<Rightarrow> noPool | Some p \<Rightarrow> p) in
          case backendByID (bp_Backends pool) (pm_BackendID placement) of
            None \<Rightarrow> Inl (StaleBackend (pm_ForwardID placement))
          | Some backend \<Rightarrow>
              if be_Target backend \<noteq> pm_Target placement then Inl (StaleBackend (pm_ForwardID placement))
              else
                let base = base_forward forward placement;
                    st = st\<lparr>co_users := mark (pm_IngressID placement) (cf_UserID forward) (co_users st)\<rparr>
                in if pm_PathMode placement = PathDirect then
                     Inr (add_checks pool placement (st\<lparr>co_desired := append_forward (pm_IngressID placement) base (co_desired st)\<rparr>))
                   else case serviceVIPs (pm_ForwardID placement) of
                     None \<Rightarrow> Inl (NoServiceVIP (pm_ForwardID placement))
                   | Some vip \<Rightarrow>
                       if \<not> validIPv4Address vip then Inl (NoServiceVIP (pm_ForwardID placement))
                       else
                         let base = base\<lparr>fw_ServiceVIP := Some (Unmap vip)\<rparr>;
                             desired = append_forward (pm_IngressID placement) (base\<lparr>fw_FabricLinkID := pm_FabricInID placement\<rparr>) (co_desired st);
                             desired = append_forward (pm_ExitID placement) (base\<lparr>fw_FabricLinkID := pm_FabricOutID placement\<rparr>) desired;
                             links = mark (pm_ExitID placement) (pm_FabricOutID placement)
                               (mark (pm_IngressID placement) (pm_FabricInID placement) (co_links st))
                         in Inr (add_checks pool placement (st\<lparr>co_desired := desired, co_links := links\<rparr>)))"

text \<open>The last loop completes the state of a node.\<close>

definition link_step :: "string \<Rightarrow> string set \<Rightarrow> (string \<rightharpoonup> NodeRuntime) \<Rightarrow> nat \<Rightarrow> FabricLink \<Rightarrow> FabricLinkSpec list
    \<Rightarrow> compile_error + FabricLinkSpec list" where
  "link_step nodeID needed runtimes i link done =
     (if cl_ID link \<notin> needed then Inr done
      else case compileLink link runtimes of
        Inl e \<Rightarrow> Inl (LinkFailed nodeID (cl_ID link) e)
      | Inr compiled \<Rightarrow> Inr (done @ [compiled]))"

definition complete_state :: "Plan \<Rightarrow> compile_state \<Rightarrow> (string \<rightharpoonup> NodeRuntime) \<Rightarrow> string \<Rightarrow> DesiredState \<Rightarrow> compile_error + DesiredState" where
  "complete_state plan st runtimes nodeID state =
     (let state = state\<lparr>ds_UserPolicies := ds_UserPolicies state @
            filter (\<lambda>policy. up_UserID policy \<in> co_users st nodeID) (pl_UserPolicies plan)\<rparr>;
          links = (case last_by nd_ID (pl_Nodes plan) nodeID of None \<Rightarrow> [] | Some node \<Rightarrow> nd_FabricLinks node)
      in case range_check (link_step nodeID (co_links st nodeID) runtimes) 0 (ds_FabricLinks state) links of
           Inl e \<Rightarrow> Inl e
         | Inr compiled \<Rightarrow> Inr (Canonical (state\<lparr>ds_FabricLinks := compiled\<rparr>)))"

definition finish_state :: "Plan \<Rightarrow> compile_state \<Rightarrow> (string \<rightharpoonup> NodeRuntime) \<Rightarrow> string \<Rightarrow> DesiredState \<Rightarrow> compile_error + DesiredState" where
  "finish_state plan st runtimes nodeID state =
     (case complete_state plan st runtimes nodeID state of
        Inl e \<Rightarrow> Inl e
      | Inr state \<Rightarrow> if Validate state \<noteq> [] then Inl (StateRejected nodeID (Validate state)) else Inr state)"

definition finish_step :: "Plan \<Rightarrow> compile_state \<Rightarrow> (string \<rightharpoonup> NodeRuntime) \<Rightarrow> nat \<Rightarrow> string \<times> DesiredState
    \<Rightarrow> (string \<rightharpoonup> DesiredState) \<Rightarrow> compile_error + (string \<rightharpoonup> DesiredState)" where
  "finish_step plan st runtimes i entry desired = (case entry of (nodeID, state) \<Rightarrow>
     (case finish_state plan st runtimes nodeID state of Inl e \<Rightarrow> Inl e | Inr state \<Rightarrow> Inr (desired(nodeID \<mapsto> state))))"

definition Compile :: "(string \<Rightarrow> string option) \<Rightarrow> ((string \<times> DesiredState) list \<Rightarrow> (string \<times> DesiredState) list) \<Rightarrow> Plan \<Rightarrow> Result
    \<Rightarrow> (string \<rightharpoonup> Addr) \<Rightarrow> (string \<rightharpoonup> NodeRuntime) \<Rightarrow> compile_error + (string \<rightharpoonup> DesiredState)" where
  "Compile idna order plan result serviceVIPs runtimes =
     (if Plan_Validate idna plan \<noteq> [] then Inl (PlanRejected (Plan_Validate idna plan))
      else let plan = Plan_Canonical idna plan;
               start = \<lparr>co_desired = initial_states plan, co_links = (\<lambda>_. {}), co_users = (\<lambda>_. {}), co_checks = (\<lambda>_. {})\<rparr>
        in case range_check (compile_step (last_by cf_ID (pl_Forwards plan)) (last_by bp_ID (pl_BackendPools plan)) serviceVIPs)
               0 start (rs_Placements result) of
             Inl e \<Rightarrow> Inl e
           | Inr st \<Rightarrow> range_check (finish_step plan st runtimes) 0 Map.empty (order (co_desired st)))"

section \<open>The last loop\<close>

lemma finish_state_result:
  assumes "finish_state plan st runtimes nodeID state = Inr s"
  shows "Validate s = []" and "Canonical s = s" and "ds_NodeID s = ds_NodeID state"
    and "ds_Forwards s = sort_less forward_less (map canonical_forward (ds_Forwards state))"
    and "ds_UserPolicies s = sort_less policy_less (ds_UserPolicies state @
      filter (\<lambda>policy. up_UserID policy \<in> co_users st nodeID) (pl_UserPolicies plan))"
proof -
  let ?state = "state\<lparr>ds_UserPolicies := ds_UserPolicies state @
      filter (\<lambda>policy. up_UserID policy \<in> co_users st nodeID) (pl_UserPolicies plan)\<rparr>"
  obtain compiled where s: "s = Canonical (?state\<lparr>ds_FabricLinks := compiled\<rparr>)" and "Validate s = []"
    using assms by (auto simp: finish_state_def complete_state_def Let_def split: sum.splits if_splits)
  then show "Validate s = []" by simp
  show "Canonical s = s" unfolding s by (rule Canonical_fixed)
  show "ds_NodeID s = ds_NodeID state" "ds_Forwards s = sort_less forward_less (map canonical_forward (ds_Forwards state))"
    "ds_UserPolicies s = sort_less policy_less (ds_UserPolicies state @
      filter (\<lambda>policy. up_UserID policy \<in> co_users st nodeID) (pl_UserPolicies plan))"
    unfolding s by (simp_all add: Canonical_def)
qed

text \<open>It succeeds when every state can be completed, and the result does not depend on the order.\<close>

lemma finish_loop:
  assumes "distinct (map fst xs)"
  shows "range_check (finish_step plan st runtimes) i m xs = Inr d \<longleftrightarrow>
    (\<forall>(k, s)\<in>set xs. \<not> isl (finish_state plan st runtimes k s)) \<and>
    d = (\<lambda>k. case map_of xs k of None \<Rightarrow> m k | Some s \<Rightarrow> Some (projr (finish_state plan st runtimes k s)))"
  using assms
proof (induction xs arbitrary: i m)
  case (Cons x xs)
  obtain k s where x: "x = (k, s)" by (cases x)
  show ?case
  proof (cases "finish_state plan st runtimes k s")
    case (Inl e)
    then show ?thesis by (simp add: x finish_step_def)
  next
    case (Inr s')
    have "map_of xs k = None" using Cons.prems x by (simp add: map_of_eq_None_iff)
    then have "(\<lambda>j. case map_of xs j of None \<Rightarrow> (m(k \<mapsto> s')) j | Some s \<Rightarrow> Some (projr (finish_state plan st runtimes j s))) =
        (\<lambda>j. case map_of (x # xs) j of None \<Rightarrow> m j | Some s \<Rightarrow> Some (projr (finish_state plan st runtimes j s)))"
      using Inr x by (auto split: option.splits)
    moreover have "finish_step plan st runtimes i x m = Inr (m(k \<mapsto> s'))" by (simp add: x Inr finish_step_def)
    ultimately show ?thesis using Cons.IH [of "Suc i" "m(k \<mapsto> s')"] Cons.prems Inr x
      by (simp del: map_of.simps fun_upd_apply)
  qed
qed auto

section \<open>The loop over the placements\<close>

text \<open>What a placement adds to the forwards of a node.\<close>

definition contribution :: "(string \<rightharpoonup> Forward) \<Rightarrow> (string \<rightharpoonup> Addr) \<Rightarrow> string \<Rightarrow> Placement \<Rightarrow> ForwardSpec list" where
  "contribution forwards serviceVIPs node pm =
     (case forwards (pm_ForwardID pm) of None \<Rightarrow> []
      | Some f \<Rightarrow>
          if pm_PathMode pm = PathDirect then (if pm_IngressID pm = node then [base_forward f pm] else [])
          else case serviceVIPs (pm_ForwardID pm) of None \<Rightarrow> []
            | Some vip \<Rightarrow>
                let base = (base_forward f pm)\<lparr>fw_ServiceVIP := Some (Unmap vip)\<rparr>
                in (if pm_IngressID pm = node then [base\<lparr>fw_FabricLinkID := pm_FabricInID pm\<rparr>] else []) @
                   (if pm_ExitID pm = node then [base\<lparr>fw_FabricLinkID := pm_FabricOutID pm\<rparr>] else []))"

definition handled :: "(string \<rightharpoonup> Forward) \<Rightarrow> (string \<rightharpoonup> Addr) \<Rightarrow> string set \<Rightarrow> Placement \<Rightarrow> bool" where
  "handled forwards serviceVIPs keys pm \<longleftrightarrow> forwards (pm_ForwardID pm) \<noteq> None \<and> pm_IngressID pm \<in> keys \<and>
     (pm_PathMode pm \<noteq> PathDirect \<longrightarrow> serviceVIPs (pm_ForwardID pm) \<noteq> None \<and> pm_ExitID pm \<in> keys)"

lemma handled_mono: "handled forwards serviceVIPs keys pm \<Longrightarrow> keys \<subseteq> keys' \<Longrightarrow> handled forwards serviceVIPs keys' pm"
  unfolding handled_def by blast

definition compile_inv :: "(string \<rightharpoonup> Forward) \<Rightarrow> (string \<rightharpoonup> Addr) \<Rightarrow> string set \<Rightarrow> Placement list \<Rightarrow> compile_state \<Rightarrow> bool" where
  "compile_inv forwards serviceVIPs ids pms st \<longleftrightarrow> distinct (map fst (co_desired st)) \<and> ids \<subseteq> fst ` set (co_desired st) \<and>
     (\<forall>pm\<in>set pms. handled forwards serviceVIPs (fst ` set (co_desired st)) pm) \<and>
     (\<forall>k. ds_Forwards (desired_at (co_desired st) k) = concat (map (contribution forwards serviceVIPs k) pms)) \<and>
     (\<forall>k. ds_NodeID (desired_at (co_desired st) k) = (if k \<in> ids then k else []))"

lemma desired_at_update: "desired_at (AList.update k s xs) j = (if j = k then s else desired_at xs j)"
  by (simp add: desired_at_def update_conv')

lemma append_forward_at:
  "ds_Forwards (desired_at (append_forward k f xs) j) = ds_Forwards (desired_at xs j) @ (if j = k then [f] else [])"
  "ds_NodeID (desired_at (append_forward k f xs) j) = ds_NodeID (desired_at xs j)"
  by (simp_all add: append_forward_def Let_def desired_at_update)

lemma append_forward_keys:
  "distinct (map fst xs) \<Longrightarrow> distinct (map fst (append_forward k f xs))"
  "fst ` set xs \<subseteq> fst ` set (append_forward k f xs)" "k \<in> fst ` set (append_forward k f xs)"
  by (auto simp: append_forward_def Let_def distinct_update dom_update)

lemma add_checks_same:
  "ds_Forwards (desired_at (co_desired (add_checks pool pm st)) j) = ds_Forwards (desired_at (co_desired st) j)"
  "ds_NodeID (desired_at (co_desired (add_checks pool pm st)) j) = ds_NodeID (desired_at (co_desired st) j)"
  "distinct (map fst (co_desired st)) \<Longrightarrow> distinct (map fst (co_desired (add_checks pool pm st)))"
  "fst ` set (co_desired st) \<subseteq> fst ` set (co_desired (add_checks pool pm st))"
  by (auto simp: add_checks_def Let_def desired_at_update distinct_update dom_update split: option.splits prod.splits)

lemma compile_inv_step:
  assumes inv: "compile_inv forwards serviceVIPs ids seen st" and step: "compile_step forwards pools serviceVIPs i pm st = Inr st'"
  shows "compile_inv forwards serviceVIPs ids (seen @ [pm]) st'"
proof -
  obtain f where f: "forwards (pm_ForwardID pm) = Some f" using step by (cases "forwards (pm_ForwardID pm)") (auto simp: compile_step_def)
  define pool where "pool = (case pools (cf_BackendPoolID f) of None \<Rightarrow> noPool | Some p \<Rightarrow> p)"
  let ?xs = "co_desired st"
  obtain st1 where st': "st' = add_checks pool pm st1"
    and at: "\<And>k. ds_Forwards (desired_at (co_desired st1) k) = ds_Forwards (desired_at ?xs k) @ contribution forwards serviceVIPs k pm"
      "\<And>k. ds_NodeID (desired_at (co_desired st1) k) = ds_NodeID (desired_at ?xs k)"
    and keys: "distinct (map fst ?xs) \<Longrightarrow> distinct (map fst (co_desired st1))" "fst ` set ?xs \<subseteq> fst ` set (co_desired st1)"
      "handled forwards serviceVIPs (fst ` set (co_desired st1)) pm"
  proof (cases "pm_PathMode pm = PathDirect")
    case True
    then have "st' = add_checks pool pm (st\<lparr>co_users := mark (pm_IngressID pm) (cf_UserID f) (co_users st),
        co_desired := append_forward (pm_IngressID pm) (base_forward f pm) ?xs\<rparr>)"
      using step f by (auto simp: compile_step_def pool_def Let_def split: option.splits if_splits)
    then show ?thesis
      by (rule that) (use True f in \<open>simp_all add: append_forward_at contribution_def append_forward_keys handled_def\<close>)
  next
    case False
    then obtain vip where vip: "serviceVIPs (pm_ForwardID pm) = Some vip"
      using step f by (auto simp: compile_step_def Let_def split: option.splits if_splits)
    define base where "base = (base_forward f pm)\<lparr>fw_ServiceVIP := Some (Unmap vip)\<rparr>"
    let ?ys = "append_forward (pm_ExitID pm) (base\<lparr>fw_FabricLinkID := pm_FabricOutID pm\<rparr>)
        (append_forward (pm_IngressID pm) (base\<lparr>fw_FabricLinkID := pm_FabricInID pm\<rparr>) ?xs)"
    obtain users links where "st' = add_checks pool pm (st\<lparr>co_users := users, co_desired := ?ys, co_links := links\<rparr>)"
      using step f vip False unfolding base_def by (auto simp: compile_step_def pool_def Let_def split: option.splits if_splits)
    then show ?thesis
      by (rule that) (use False f vip order.trans [OF append_forward_keys(2) append_forward_keys(2)] subsetD [OF append_forward_keys(2)]
        in \<open>simp_all add: append_forward_at contribution_def base_def append_forward_keys handled_def Let_def\<close>)
  qed
  have "distinct (map fst ?xs)" "ids \<subseteq> fst ` set ?xs" using inv by (simp_all add: compile_inv_def)
  moreover have grow: "fst ` set ?xs \<subseteq> fst ` set (co_desired st')" "fst ` set (co_desired st1) \<subseteq> fst ` set (co_desired st')"
    using keys(2) add_checks_same(4) [of st1 pool pm] unfolding st' by (blast intro: order.trans)+
  ultimately have "distinct (map fst (co_desired st'))" "ids \<subseteq> fst ` set (co_desired st')"
    using keys(1) add_checks_same(3) [of st1 pool pm] unfolding st' by (simp, meson order.trans)
  moreover have "\<forall>q\<in>set (seen @ [pm]). handled forwards serviceVIPs (fst ` set (co_desired st')) q"
    using inv keys(3) handled_mono [OF _ grow(1)] handled_mono [OF _ grow(2)] by (simp add: compile_inv_def)
  moreover have "ds_Forwards (desired_at (co_desired st') k) = concat (map (contribution forwards serviceVIPs k) (seen @ [pm]))"
    "ds_NodeID (desired_at (co_desired st') k) = (if k \<in> ids then k else [])" for k
    using inv unfolding compile_inv_def st' by (simp_all add: add_checks_same(1,2) at)
  ultimately show ?thesis unfolding compile_inv_def by blast
qed

interpretation compiling: check_inv "compile_step forwards pools serviceVIPs" "compile_inv forwards serviceVIPs ids"
  by unfold_locales (rule compile_inv_step)

section \<open>The whole compilation\<close>

lemma initial_states_inv:
  defines "init \<equiv> \<lambda>plan. foldl (\<lambda>desired node. AList.update (nd_ID node) (initial_state plan node) desired) []"
  shows "distinct (map fst (init plan ns))" and "fst ` set (init plan ns) = nd_ID ` set ns"
    and "ds_Forwards (desired_at (init plan ns) k) = []" and "ds_NodeID (desired_at (init plan ns) k) = (if k \<in> nd_ID ` set ns then k else [])"
proof (induction ns rule: rev_induct)
  case Nil
  {
    case 1 show ?case by (simp add: init_def)
    case 2 show ?case by (simp add: init_def)
    case 3 show ?case by (simp add: init_def desired_at_def noState_def)
    case 4 show ?case by (simp add: init_def desired_at_def noState_def)
  }
next
  case (snoc n ns)
  have step: "init plan (ns @ [n]) = AList.update (nd_ID n) (initial_state plan n) (init plan ns)" by (simp add: init_def)
  {
    case 1 show ?case using snoc.IH(1) by (simp add: step distinct_update)
    case 2 show ?case using snoc.IH(2) by (simp add: step dom_update)
    case 3 show ?case using snoc.IH(3) by (simp add: step desired_at_update initial_state_def emptyState_def)
    case 4 show ?case using snoc.IH(4) by (simp add: step desired_at_update initial_state_def emptyState_def)
  }
qed

lemma Compile_result:
  assumes compile: "Compile idna order plan result serviceVIPs runtimes = Inr d" and order: "\<And>xs. mset (order xs) = mset xs"
  defines "p \<equiv> Plan_Canonical idna plan"
  obtains st where "compile_inv (last_by cf_ID (pl_Forwards p)) serviceVIPs (nd_ID ` set (pl_Nodes p)) (rs_Placements result) st"
    and "\<forall>k s. d k = Some s \<longrightarrow> finish_state p st runtimes k (desired_at (co_desired st) k) = Inr s"
    and "dom d = fst ` set (co_desired st)"
proof -
  let ?start = "\<lparr>co_desired = initial_states p, co_links = (\<lambda>_. {}), co_users = (\<lambda>_. {}), co_checks = (\<lambda>_. {})\<rparr>"
  let ?body = "compile_step (last_by cf_ID (pl_Forwards p)) (last_by bp_ID (pl_BackendPools p)) serviceVIPs"
  obtain st where run: "range_check ?body 0 ?start (rs_Placements result) = Inr st"
    and fin: "range_check (finish_step p st runtimes) 0 Map.empty (order (co_desired st)) = Inr d"
    using compile unfolding Compile_def p_def by (auto simp: Let_def split: if_splits sum.splits)
  have "compile_inv (last_by cf_ID (pl_Forwards p)) serviceVIPs (nd_ID ` set (pl_Nodes p)) [] ?start"
    unfolding compile_inv_def initial_states_def by (simp add: initial_states_inv)
  from compiling.inv_check [OF this run]
  have inv: "compile_inv (last_by cf_ID (pl_Forwards p)) serviceVIPs (nd_ID ` set (pl_Nodes p)) (rs_Placements result) st" by simp
  let ?xs = "co_desired st"
  have dist: "distinct (map fst ?xs)" using inv by (simp add: compile_inv_def)
  have dist': "distinct (map fst (order ?xs))" using dist order [of ?xs] by (metis mset_eq_imp_distinct_iff mset_map)
  have "set (order ?xs) = set ?xs" using order by (metis set_mset_mset)
  then have same: "map_of (order ?xs) = map_of ?xs" using map_of_inject_set [OF dist' dist] by simp
  have all: "\<forall>(k, s)\<in>set (order ?xs). \<not> isl (finish_state p st runtimes k s)"
    and at: "d k = (case map_of ?xs k of None \<Rightarrow> None | Some s \<Rightarrow> Some (projr (finish_state p st runtimes k s)))" for k
    using fin unfolding finish_loop [OF dist'] same by auto
  show ?thesis
  proof (rule that [OF inv])
    show "\<forall>k s. d k = Some s \<longrightarrow> finish_state p st runtimes k (desired_at ?xs k) = Inr s"
    proof (intro allI impI)
      fix k s
      assume dk: "d k = Some s"
      obtain state where state: "map_of ?xs k = Some state" using dk by (cases "map_of ?xs k") (simp_all add: at)
      then have "(k, state) \<in> set (order ?xs)" using same map_of_SomeD by metis
      then have "\<not> isl (finish_state p st runtimes k state)" using all by blast
      then show "finish_state p st runtimes k (desired_at ?xs k) = Inr s"
        using dk state by (simp add: desired_at_def at) (metis sum.collapse(2))
    qed
    show "dom d = fst ` set ?xs" unfolding dom_map_of_conv_image_fst [symmetric] by (auto simp: dom_def at split: option.splits)
  qed
qed

lemma compiled_node:
  assumes "compile_inv forwards serviceVIPs ids pms st" and "finish_state p st runtimes k (desired_at (co_desired st) k) = Inr s"
  shows "k \<in> ids" and "ds_NodeID s = k"
    and "ds_Forwards s = sort_less forward_less (map canonical_forward (concat (map (contribution forwards serviceVIPs k) pms)))"
proof -
  note fin = finish_state_result [OF assms(2)]
  have id: "ds_NodeID s = (if k \<in> ids then k else [])" using fin(3) assms(1) by (simp add: compile_inv_def)
  have "header_ok s" using fin(1) unfolding Validate_split by blast
  then have "ds_NodeID s \<noteq> []" unfolding header_ok_def by (blast dest: validIdentifier_nonempty)
  with id show "k \<in> ids" "ds_NodeID s = k" by (auto split: if_splits)
  show "ds_Forwards s = sort_less forward_less (map canonical_forward (concat (map (contribution forwards serviceVIPs k) pms)))"
    using fin(4) assms(1) by (simp add: compile_inv_def)
qed

lemma Compiled_forwards:
  assumes "Compile idna order plan result serviceVIPs runtimes = Inr d" and "\<And>xs. mset (order xs) = mset xs" and "d k = Some s"
  shows "ds_Forwards s = sort_less forward_less (map canonical_forward
    (concat (map (contribution (last_by cf_ID (pl_Forwards (Plan_Canonical idna plan))) serviceVIPs k) (rs_Placements result))))"
proof -
  let ?p = "Plan_Canonical idna plan"
  obtain st where inv: "compile_inv (last_by cf_ID (pl_Forwards ?p)) serviceVIPs (nd_ID ` set (pl_Nodes ?p)) (rs_Placements result) st"
    and fin: "\<forall>k s. d k = Some s \<longrightarrow> finish_state ?p st runtimes k (desired_at (co_desired st) k) = Inr s"
    and "dom d = fst ` set (co_desired st)"
    by (rule Compile_result [OF assms(1,2)])
  show ?thesis by (rule compiled_node(3) [OF inv fin [rule_format, OF assms(3)]])
qed

lemma Compile_placement:
  assumes "Compile idna order plan result serviceVIPs runtimes = Inr d" and "\<And>xs. mset (order xs) = mset xs" and "pm \<in> set (rs_Placements result)"
  shows "handled (last_by cf_ID (pl_Forwards (Plan_Canonical idna plan))) serviceVIPs (dom d) pm"
proof -
  let ?p = "Plan_Canonical idna plan"
  obtain st where inv: "compile_inv (last_by cf_ID (pl_Forwards ?p)) serviceVIPs (nd_ID ` set (pl_Nodes ?p)) (rs_Placements result) st"
    and "\<forall>k s. d k = Some s \<longrightarrow> finish_state ?p st runtimes k (desired_at (co_desired st) k) = Inr s"
    and dom: "dom d = fst ` set (co_desired st)"
    by (rule Compile_result [OF assms(1,2)])
  show ?thesis using inv assms(3) unfolding dom by (simp add: compile_inv_def)
qed

section \<open>The sample plan, placed and compiled\<close>

definition sample_vips :: "string \<rightharpoonup> Addr" where
  "sample_vips = [''f2'' \<mapsto> Addr4 0x0A4B0001]"

definition sample_spec :: "string \<Rightarrow> u16 \<Rightarrow> PathMode \<Rightarrow> string \<Rightarrow> Addr option \<Rightarrow> string \<Rightarrow> ForwardSpec" where
  "sample_spec name port path exit vip link =
     \<lparr>fw_ID = name, fw_UserID = ''u1'', fw_Protocols = [ProtocolTCP], fw_IngressNodeID = ''n1'', fw_ExitNodeID = exit,
      fw_Listen = \<lparr>ep_Address = Addr4 0x0A000001, ep_Hostname = [], ep_Port = port\<rparr>,
      fw_Target = \<lparr>ep_Address = Addr4 0xC6336401, ep_Hostname = [], ep_Port = 443\<rparr>, fw_ServiceVIP = vip, fw_FabricLinkID = link,
      fw_PathMode = path, fw_SNAT = \<lparr>snat_Mode = SNATMasquerade, snat_Address = None\<rparr>, fw_TrafficClassID = 0, fw_RateLimit = None,
      fw_TrafficQuota = None, fw_ExpiresAt = None, fw_DrainDeadline = None, fw_Lifecycle = LifecycleActive, fw_ResourceVersion = 1\<rparr>"

definition sample_ingress_state :: DesiredState where
  "sample_ingress_state = (sample_template ''n1'' ''n2'' 0xAC100001 0xAC100002)\<lparr>ds_ManagementDomain := ''cluster:c1'',
     ds_Forwards := [sample_spec ''f1'' 80 PathDirect [] None [],
       sample_spec ''f2'' 81 PathViaExit ''n2'' (Some (Addr4 0x0A4B0001)) ''l1'']\<rparr>"

definition sample_exit_state :: DesiredState where
  "sample_exit_state = (sample_template ''n2'' ''n1'' 0xAC100002 0xAC100001)\<lparr>ds_ManagementDomain := ''cluster:c1'',
     ds_Forwards := [sample_spec ''f2'' 81 PathViaExit ''n2'' (Some (Addr4 0x0A4B0001)) ''l1'']\<rparr>"

lemma sample_states_header: "header_ok sample_ingress_state" "header_ok sample_exit_state"
  by (simp_all add: header_ok_def sample_ingress_state_def sample_exit_state_def sample_template_def emptyState_def MaxForwardsPerSnapshot_def
      MaxFabricLinksPerSnapshot_def MaxServiceCIDRsPerSnapshot_def MaxHealthChecksPerSnapshot_def SupportedSchemaVersion_def) code_simp+

lemma sample_states_version: "version_ok sample_ingress_state" "version_ok sample_exit_state"
  by (simp_all add: version_ok_def sample_ingress_state_def sample_exit_state_def sample_template_def emptyState_def)

lemma sample_states_valid: "Validate sample_ingress_state = []" "Validate sample_exit_state = []"
  unfolding Validate_split by (intro conjI sample_states_header sample_states_version; code_simp)+

definition sample_result :: Result where
  "sample_result = \<lparr>rs_Placements =
       [noPlacement\<lparr>pm_ForwardID := ''f1'', pm_IngressID := ''n1'', pm_BackendID := ''b1'',
          pm_Target := \<lparr>ep_Address = Addr4 0xC6336401, ep_Hostname = [], ep_Port = 443\<rparr>, pm_PathMode := PathDirect\<rparr>,
        \<lparr>pm_ForwardID = ''f2'', pm_IngressID = ''n1'', pm_ExitID = ''n2'', pm_BackendID = ''b1'',
          pm_Target = \<lparr>ep_Address = Addr4 0xC6336401, ep_Hostname = [], ep_Port = 443\<rparr>, pm_PathMode = PathViaExit,
          pm_FabricInID = ''l1'', pm_FabricOutID = ''l1''\<rparr>], rs_Alerts = []\<rparr>"

definition sample_compile_run :: "compile_error + compile_state" where
  "sample_compile_run = (let plan = Plan_Canonical Some sample_plan in
     range_check (compile_step (last_by cf_ID (pl_Forwards plan)) (last_by bp_ID (pl_BackendPools plan)) sample_vips) 0
       \<lparr>co_desired = initial_states plan, co_links = (\<lambda>_. {}), co_users = (\<lambda>_. {}), co_checks = (\<lambda>_. {})\<rparr> (rs_Placements sample_result))"

lemma sample_compile_completed:
  "\<not> isl sample_compile_run"
  "map fst (co_desired (projr sample_compile_run)) = [''n1'', ''n2'']"
  "list_all (\<lambda>(k, s). complete_state (Plan_Canonical Some sample_plan) (projr sample_compile_run) sample_runtimes k s =
     Inr (if k = ''n1'' then sample_ingress_state else sample_exit_state)) (co_desired (projr sample_compile_run))"
  by code_simp+

lemma sample_compiled:
  obtains d where "Compile Some (\<lambda>xs. xs) sample_plan sample_result sample_vips sample_runtimes = Inr d"
proof -
  let ?p = "Plan_Canonical Some sample_plan"
  obtain st where st: "sample_compile_run = Inr st" using sample_compile_completed(1) by (metis sum.collapse(2))
  have "\<not> isl (finish_state ?p st sample_runtimes k s)" if "(k, s) \<in> set (co_desired st)" for k s
  proof -
    have "complete_state ?p st sample_runtimes k s = Inr (if k = ''n1'' then sample_ingress_state else sample_exit_state)"
      using sample_compile_completed(3) that unfolding list_all_iff st by (drule_tac bspec) auto
    then show ?thesis using sample_states_valid by (simp add: finish_state_def)
  qed
  moreover have "distinct (map fst (co_desired st))" using sample_compile_completed(2) unfolding st sum.sel by simp
  ultimately obtain d where fin: "range_check (finish_step ?p st sample_runtimes) 0 Map.empty (co_desired st) = Inr d"
    using finish_loop [of "co_desired st" ?p st sample_runtimes 0 Map.empty] by blast
  show ?thesis
    by (rule that [of d]) (simp add: Compile_def sample_plan_valid Let_def st [unfolded sample_compile_run_def Let_def] fin)
qed

section \<open>Properties\<close>

text \<open>C35. A compilation that succeeds yields exactly one state for each node of the plan; it is
  addressed to that node, in canonical form and accepted by the checks of the agent.\<close>

theorem Compile_valid:
  assumes "Compile idna order plan result serviceVIPs runtimes = Inr d" and "\<And>xs. mset (order xs) = mset xs"
  shows "dom d = nd_ID ` set (pl_Nodes plan) \<and> (\<forall>k s. d k = Some s \<longrightarrow> ds_NodeID s = k \<and> Canonical s = s \<and> Validate s = [])"
proof -
  let ?p = "Plan_Canonical idna plan"
  obtain st where inv: "compile_inv (last_by cf_ID (pl_Forwards ?p)) serviceVIPs (nd_ID ` set (pl_Nodes ?p)) (rs_Placements result) st"
    and fin: "\<forall>k s. d k = Some s \<longrightarrow> finish_state ?p st runtimes k (desired_at (co_desired st) k) = Inr s"
    and dom: "dom d = fst ` set (co_desired st)"
    by (rule Compile_result [OF assms])
  have ids: "nd_ID ` set (pl_Nodes ?p) = nd_ID ` set (pl_Nodes plan)" by (simp add: Plan_Canonical_lists image_image)
  have "dom d \<subseteq> nd_ID ` set (pl_Nodes ?p)" using compiled_node(1) [OF inv fin [rule_format]] by (auto simp: dom_def)
  moreover have "nd_ID ` set (pl_Nodes ?p) \<subseteq> dom d" using inv unfolding dom by (simp add: compile_inv_def)
  ultimately have "dom d = nd_ID ` set (pl_Nodes plan)" unfolding ids by (rule equalityI)
  moreover have "ds_NodeID s = k \<and> Canonical s = s \<and> Validate s = []" if "d k = Some s" for k s
    using compiled_node(2) [OF inv fin [rule_format, OF that]] finish_state_result(1,2) [OF fin [rule_format, OF that]] by simp
  ultimately show ?thesis by simp
qed

theorem Compile_valid_witness:
  "\<exists>d. Compile Some (\<lambda>xs. xs) sample_plan sample_result sample_vips sample_runtimes = Inr d \<and> dom d = {''n1'', ''n2''}"
proof -
  obtain d where d: "Compile Some (\<lambda>xs. xs) sample_plan sample_result sample_vips sample_runtimes = Inr d" by (rule sample_compiled)
  moreover have "nd_ID ` set (pl_Nodes sample_plan) = {''n1'', ''n2''}" by (simp add: sample_plan_def sample_node_def)
  ultimately show ?thesis using Compile_valid [OF d] by simp
qed

text \<open>The state of a node carries exactly the forwards placed on it as ingress or exit, with the
  address of the chosen backend, in canonical form.\<close>

theorem Compile_forwards:
  assumes "Compile idna order plan result serviceVIPs runtimes = Inr d" and "\<And>xs. mset (order xs) = mset xs" and "d k = Some s"
  shows "ds_Forwards s = sort_less forward_less (map canonical_forward
    (concat (map (contribution (last_by cf_ID (pl_Forwards (Plan_Canonical idna plan))) serviceVIPs k) (rs_Placements result))))"
  using assms by (rule Compiled_forwards)

theorem Compile_forwards_witness:
  "\<exists>d s. Compile Some (\<lambda>xs. xs) sample_plan sample_result sample_vips sample_runtimes = Inr d \<and> d ''n2'' = Some s \<and>
     map fw_ID (ds_Forwards s) = [''f2'']"
proof -
  obtain d where d: "Compile Some (\<lambda>xs. xs) sample_plan sample_result sample_vips sample_runtimes = Inr d" by (rule sample_compiled)
  have "handled (last_by cf_ID (pl_Forwards (Plan_Canonical Some sample_plan))) sample_vips (dom d) (last (rs_Placements sample_result))"
    by (rule Compile_placement [OF d]) (simp_all add: sample_result_def)
  then obtain s where s: "d ''n2'' = Some s" by (auto simp: handled_def sample_result_def)
  have "map fw_ID (sort_less forward_less (map canonical_forward (concat (map
      (contribution (last_by cf_ID (pl_Forwards (Plan_Canonical Some sample_plan))) sample_vips ''n2'') (rs_Placements sample_result))))) = [''f2'']"
    by code_simp
  then show ?thesis using Compile_forwards [OF d _ s] d s by auto
qed

text \<open>C36. Both ends of a relayed forward are told the same: the states of the ingress and of the exit
  node carry the forward with equal listener, target, service address and limits, each with its own
  link.\<close>

theorem Compile_both_ends:
  assumes "Compile idna order plan result serviceVIPs runtimes = Inr d" and "\<And>xs. mset (order xs) = mset xs"
    and "pm \<in> set (rs_Placements result)" and "pm_PathMode pm \<noteq> PathDirect"
  shows "\<exists>si se f. d (pm_IngressID pm) = Some si \<and> d (pm_ExitID pm) = Some se \<and> f \<in> set (ds_Forwards si) \<and>
    fw_ID f = pm_ForwardID pm \<and> fw_FabricLinkID f = pm_FabricInID pm \<and> f\<lparr>fw_FabricLinkID := pm_FabricOutID pm\<rparr> \<in> set (ds_Forwards se)"
proof -
  let ?p = "Plan_Canonical idna plan" and ?fs = "last_by cf_ID (pl_Forwards (Plan_Canonical idna plan))"
  obtain f vip where f: "?fs (pm_ForwardID pm) = Some f" and vip: "serviceVIPs (pm_ForwardID pm) = Some vip"
    and ends: "pm_IngressID pm \<in> dom d" "pm_ExitID pm \<in> dom d"
    using Compile_placement [OF assms(1-3)] assms(4) unfolding handled_def by blast
  then obtain si se where s: "d (pm_IngressID pm) = Some si" "d (pm_ExitID pm) = Some se" by blast
  let ?base = "(base_forward f pm)\<lparr>fw_ServiceVIP := Some (Unmap vip)\<rparr>"
  have "contribution ?fs serviceVIPs k pm = (if pm_IngressID pm = k then [?base\<lparr>fw_FabricLinkID := pm_FabricInID pm\<rparr>] else []) @
      (if pm_ExitID pm = k then [?base\<lparr>fw_FabricLinkID := pm_FabricOutID pm\<rparr>] else [])" for k
    using f vip assms(4) by (simp add: contribution_def Let_def)
  then have "?base\<lparr>fw_FabricLinkID := pm_FabricInID pm\<rparr> \<in> set (contribution ?fs serviceVIPs (pm_IngressID pm) pm)"
    "?base\<lparr>fw_FabricLinkID := pm_FabricOutID pm\<rparr> \<in> set (contribution ?fs serviceVIPs (pm_ExitID pm) pm)"
    by simp_all
  then have "canonical_forward (?base\<lparr>fw_FabricLinkID := pm_FabricInID pm\<rparr>) \<in> set (ds_Forwards si)"
    "canonical_forward (?base\<lparr>fw_FabricLinkID := pm_FabricOutID pm\<rparr>) \<in> set (ds_Forwards se)"
    using assms(3) Compiled_forwards [OF assms(1,2) s(1)] Compiled_forwards [OF assms(1,2) s(2)] by (simp_all, blast+)
  moreover have "canonical_forward (?base\<lparr>fw_FabricLinkID := l\<rparr>) = (canonical_forward ?base)\<lparr>fw_FabricLinkID := l\<rparr>" for l
    by (simp add: canonical_forward_def)
  moreover have "fw_ID (canonical_forward ?base) = pm_ForwardID pm" using last_by_Some [OF f] by (simp add: base_forward_def)
  ultimately show ?thesis using s
    by (intro exI [of _ si] exI [of _ se] exI [of _ "(canonical_forward ?base)\<lparr>fw_FabricLinkID := pm_FabricInID pm\<rparr>"]) simp
qed

theorem Compile_both_ends_witness:
  "\<exists>d si se f. Compile Some (\<lambda>xs. xs) sample_plan sample_result sample_vips sample_runtimes = Inr d \<and> d ''n1'' = Some si \<and>
     d ''n2'' = Some se \<and> f \<in> set (ds_Forwards si) \<and> fw_ID f = ''f2'' \<and> f\<lparr>fw_FabricLinkID := ''l1''\<rparr> \<in> set (ds_Forwards se)"
proof -
  obtain d where d: "Compile Some (\<lambda>xs. xs) sample_plan sample_result sample_vips sample_runtimes = Inr d" by (rule sample_compiled)
  have pm: "last (rs_Placements sample_result) \<in> set (rs_Placements sample_result)"
      "pm_PathMode (last (rs_Placements sample_result)) \<noteq> PathDirect" by (simp_all add: sample_result_def)
  show ?thesis using Compile_both_ends [OF d _ pm] d by (force simp: sample_result_def)
qed

end
