(* ===== verification/Cluster_Rollout.thy ===== *)
theory Cluster_Rollout
  imports Cluster_Compile
begin

text \<open>
  \<open>internal/cluster/rollout.go\<close>: the publication of a new cluster state in stages, exits first. Maps
  from nodes to states are association lists; a loop over such a map follows the list, so that a
  theorem about arbitrary lists covers every iteration order. The set of selected forwards is ranged
  over in the order of the selected list.
\<close>

section \<open>Data\<close>

type_synonym states = "(string \<times> DesiredState) list"

type_synonym RolloutWave = string
abbreviation RolloutWaveCanary :: RolloutWave where "RolloutWaveCanary \<equiv> ''canary''"
abbreviation RolloutWaveFull :: RolloutWave where "RolloutWaveFull \<equiv> ''full''"
abbreviation RolloutWaveCompensation :: RolloutWave where "RolloutWaveCompensation \<equiv> ''compensation''"

type_synonym RolloutPhase = string
abbreviation RolloutPhasePrepare :: RolloutPhase where "RolloutPhasePrepare \<equiv> ''prepare''"
abbreviation RolloutPhasePromote :: RolloutPhase where "RolloutPhasePromote \<equiv> ''promote''"
abbreviation RolloutPhaseCleanup :: RolloutPhase where "RolloutPhaseCleanup \<equiv> ''cleanup''"
abbreviation RolloutPhaseBake :: RolloutPhase where "RolloutPhaseBake \<equiv> ''bake''"
abbreviation RolloutPhaseCompensate :: RolloutPhase where "RolloutPhaseCompensate \<equiv> ''compensate''"

record RolloutStage =
  ro_Wave :: RolloutWave
  ro_Phase :: RolloutPhase
  ro_BakeSeconds :: u32
  ro_Desired :: states

text \<open>The reasons behind \<open>ErrUnsafeRollout\<close>.\<close>

datatype rollout_error =
    InvalidStage RolloutWave RolloutPhase string "string list"
  | RoleChange string string string string
  | IngressChange string string
  | LinkChange string string

section \<open>Maps of states\<close>

definition canonicalStageState :: "DesiredState \<Rightarrow> string \<Rightarrow> DesiredState" where
  "canonicalStageState state nodeID =
     (let state = state\<lparr>ds_NodeID := nodeID, ds_Generation := 1\<rparr>
      in Canonical (if ds_SchemaVersion state = 0 then state\<lparr>ds_SchemaVersion := CurrentSchemaVersion\<rparr> else state))"

text \<open>\<open>emptyStageState\<close> is the \<open>emptyState\<close> of plan validation.\<close>

definition completeStateMap :: "states \<Rightarrow> states \<Rightarrow> states" where
  "completeStateMap primary secondary =
     fold (\<lambda>(k, s) m. AList.update k (canonicalStageState s k) m) primary
       (fold (\<lambda>(k, _) m. AList.update k (emptyState k) m) secondary [])"

definition cloneStateMap :: "states \<Rightarrow> states" where
  "cloneStateMap source = map (\<lambda>(k, s). (k, canonicalStageState s k)) source"

definition normalize :: "DesiredState \<Rightarrow> DesiredState" where
  "normalize state =
     (let state = canonicalStageState state (ds_NodeID state)
      in state\<lparr>ds_UserPolicies := map (\<lambda>p. p\<lparr>up_TrafficClassID := 0\<rparr>) (ds_UserPolicies state),
               ds_Forwards := map (\<lambda>f. f\<lparr>fw_TrafficClassID := 0\<rparr>) (ds_Forwards state)\<rparr>)"

definition desiredStatesEqual :: "DesiredState \<Rightarrow> DesiredState \<Rightarrow> bool" where
  "desiredStatesEqual left right \<longleftrightarrow> normalize left = normalize right"

definition changedStates :: "states \<Rightarrow> states \<Rightarrow> states" where
  "changedStates current next' =
     concat (map (\<lambda>nodeID.
       let left = desired_at current nodeID;
           right = (case map_of next' nodeID of None \<Rightarrow> emptyState nodeID | Some s \<Rightarrow> s)
       in if \<not> desiredStatesEqual left right then [(nodeID, canonicalStageState right nodeID)] else [])
     (remdups (map fst current @ map fst next')))"

section \<open>Where a forward lives\<close>

text \<open>\<open>indexForwards\<close>: the nodes that carry a forward, with what they carry.\<close>

definition locations :: "states \<Rightarrow> string \<Rightarrow> (string \<times> ForwardSpec) list" where
  "locations states forwardID =
     concat (map (\<lambda>(k, s). case last_by fw_ID (ds_Forwards s) forwardID of None \<Rightarrow> [] | Some f \<Rightarrow> [(k, f)]) states)"

definition forward_ids :: "states \<Rightarrow> string list" where
  "forward_ids states = concat (map (\<lambda>(_, s). map fw_ID (ds_Forwards s)) states)"

definition forwardLocationsEqual :: "(string \<times> ForwardSpec) list \<Rightarrow> (string \<times> ForwardSpec) list \<Rightarrow> bool" where
  "forwardLocationsEqual left right =
     (if length left \<noteq> length right then False
      else list_all (\<lambda>(k, first). case map_of right k of None \<Rightarrow> False
        | Some second \<Rightarrow> first\<lparr>fw_TrafficClassID := 0\<rparr> = second\<lparr>fw_TrafficClassID := 0\<rparr>) left)"

definition changedForwardIDs :: "states \<Rightarrow> states \<Rightarrow> string list" where
  "changedForwardIDs current final =
     sort_less (<) (filter (\<lambda>i. \<not> forwardLocationsEqual (locations current i) (locations final i))
       (remdups (forward_ids current @ forward_ids final)))"

fun upsert_scan :: "ForwardSpec \<Rightarrow> bool \<Rightarrow> ForwardSpec list \<Rightarrow> ForwardSpec list" where
  "upsert_scan target replaced [] = (if replaced then [] else [target])"
| "upsert_scan target replaced (f # fs) =
     (if fw_ID f = fw_ID target then (if replaced then upsert_scan target replaced fs else target # upsert_scan target True fs)
      else f # upsert_scan target replaced fs)"

definition upsertForward :: "ForwardSpec list \<Rightarrow> ForwardSpec \<Rightarrow> ForwardSpec list" where
  "upsertForward forwards target = upsert_scan target False forwards"

definition removeForward :: "ForwardSpec list \<Rightarrow> string \<Rightarrow> ForwardSpec list" where
  "removeForward forwards forwardID = filter (\<lambda>f. fw_ID f \<noteq> forwardID) forwards"

section \<open>Resources kept during a stage\<close>

definition merge_by :: "('a \<Rightarrow> 'k) \<Rightarrow> 'a list \<Rightarrow> 'a list \<Rightarrow> 'a list" where
  "merge_by key current final = map snd (fold (\<lambda>x m. AList.update (key x) x m) (current @ final) [])"

definition withConservativeResources :: "DesiredState \<Rightarrow> DesiredState \<Rightarrow> DesiredState" where
  "withConservativeResources state final =
     (let state = (if ds_SchemaVersion final > ds_SchemaVersion state then state\<lparr>ds_SchemaVersion := ds_SchemaVersion final\<rparr> else state);
          state = (if ds_SchemaVersion state = 0 then state\<lparr>ds_SchemaVersion := CurrentSchemaVersion\<rparr> else state);
          state = (if ds_ManagementDomain state = [] then state\<lparr>ds_ManagementDomain := ds_ManagementDomain final\<rparr> else state)
      in Canonical (state\<lparr>
           ds_ServiceCIDRs := merge_by Prefix_String (map Masked (ds_ServiceCIDRs state)) (map Masked (ds_ServiceCIDRs final)),
           ds_FabricLinks := merge_by fl_ID (ds_FabricLinks state) (ds_FabricLinks final),
           ds_HealthChecks := merge_by (\<lambda>c. hc_PoolID c @ [CHR 0x00] @ hc_BackendID c) (ds_HealthChecks state) (ds_HealthChecks final),
           ds_UserPolicies := merge_by up_UserID (ds_UserPolicies state) (ds_UserPolicies final),
           ds_ProtocolBlocks := (case ds_ProtocolBlocks final of None \<Rightarrow> None | Some p \<Rightarrow> if ProtocolBlockPolicy_Any p then Some p else None)\<rparr>))"

section \<open>Transitions that are refused\<close>

definition forwardNodeRole :: "ForwardSpec \<Rightarrow> string \<Rightarrow> string" where
  "forwardNodeRole forward nodeID =
     (if nodeID = fw_IngressNodeID forward then ''ingress''
      else if fw_PathMode forward = PathViaExit \<and> nodeID = fw_ExitNodeID forward then ''exit''
      else ''unassigned'')"

text \<open>The first entry the iteration meets; the entries of one forward agree on these fields.\<close>

definition placementFromLocations :: "(string \<times> ForwardSpec) list \<Rightarrow> string \<times> string \<times> bool" where
  "placementFromLocations locs = (case locs of [] \<Rightarrow> ([], [], False)
     | (_, f) # _ \<Rightarrow> (fw_IngressNodeID f, fw_ExitNodeID f, fw_PathMode f = PathViaExit))"

definition role_change :: "string \<Rightarrow> (string \<times> ForwardSpec) list \<Rightarrow> string \<times> ForwardSpec \<Rightarrow> rollout_error option" where
  "role_change forwardID finalNodes entry = (case entry of (k, before) \<Rightarrow>
     (case map_of finalNodes k of None \<Rightarrow> None
      | Some after \<Rightarrow>
          if forwardNodeRole before k \<noteq> forwardNodeRole after k
          then Some (RoleChange forwardID k (forwardNodeRole before k) (forwardNodeRole after k)) else None))"

definition role_transition :: "states \<Rightarrow> states \<Rightarrow> string \<Rightarrow> rollout_error option" where
  "role_transition current final forwardID =
     (let currentNodes = locations current forwardID; finalNodes = locations final forwardID in
      case List.map_filter (role_change forwardID finalNodes) currentNodes of
        e # _ \<Rightarrow> Some e
      | [] \<Rightarrow>
          let (beforeIngress, beforeExit, beforeVia) = placementFromLocations currentNodes;
              (afterIngress, afterExit, afterVia) = placementFromLocations finalNodes
          in if beforeVia \<and> afterVia \<and> beforeExit = afterExit \<and> beforeIngress \<noteq> afterIngress
             then Some (IngressChange forwardID beforeExit) else None)"

definition validateRoleTransitions :: "states \<Rightarrow> states \<Rightarrow> rollout_error option" where
  "validateRoleTransitions current final =
     (case List.map_filter (role_transition current final) (remdups (forward_ids current)) of [] \<Rightarrow> None | e # _ \<Rightarrow> Some e)"

definition link_change :: "DesiredState \<Rightarrow> DesiredState \<Rightarrow> string \<Rightarrow> FabricLinkSpec \<Rightarrow> rollout_error option" where
  "link_change before after nodeID link =
     (case last_by fl_ID (ds_FabricLinks before) (fl_ID link) of None \<Rightarrow> None
      | Some previous \<Rightarrow>
          if previous = link then None
          else if fl_ID link \<in> set (filter (\<lambda>i. i \<noteq> []) (map fw_FabricLinkID (ds_Forwards before @ ds_Forwards after)))
          then Some (LinkChange nodeID (fl_ID link)) else None)"

definition validateFabricTransitions :: "states \<Rightarrow> states \<Rightarrow> rollout_error option" where
  "validateFabricTransitions current final =
     (case concat (map (\<lambda>(k, before). List.map_filter (link_change before (desired_at final k) k) (ds_FabricLinks (desired_at final k))) current) of
        [] \<Rightarrow> None
      | e # _ \<Rightarrow> Some e)"

section \<open>Canary\<close>

definition canary_less :: "(string \<times> nat list) \<Rightarrow> (string \<times> nat list) \<Rightarrow> bool" where
  "canary_less a b = (if snd a = snd b then fst a < fst b else snd a < snd b)"

definition selectCanary :: "string \<Rightarrow> string list \<Rightarrow> u8 \<Rightarrow> string list \<times> string list" where
  "selectCanary planID forwardIDs percent =
     (if percent \<ge> 100 \<or> length forwardIDs < 2 then ([], forwardIDs)
      else let candidates = sort_less canary_less (map (\<lambda>i. (i, Sum256 (planID @ [CHR 0x00] @ i))) forwardIDs);
               count = (length candidates * unat percent + 99) div 100
           in if count = 0 \<or> count \<ge> length candidates then ([], forwardIDs)
              else (sort_less (<) (map fst (take count candidates)), sort_less (<) (map fst (drop count candidates))))"

section \<open>Stages\<close>

definition stage_upsert :: "states \<Rightarrow> string \<Rightarrow> ForwardSpec \<Rightarrow> states \<Rightarrow> states" where
  "stage_upsert final nodeID forward next' =
     (let state = withConservativeResources (desired_at next' nodeID) (desired_at final nodeID);
          state = state\<lparr>ds_Forwards := upsertForward (ds_Forwards state) forward\<rparr>
      in AList.update nodeID (canonicalStageState state nodeID) next')"

definition stage_remove :: "states \<Rightarrow> string \<Rightarrow> string \<Rightarrow> states \<Rightarrow> states" where
  "stage_remove final nodeID forwardID next' =
     (let state = withConservativeResources (desired_at next' nodeID) (desired_at final nodeID);
          state = state\<lparr>ds_Forwards := removeForward (ds_Forwards state) forwardID\<rparr>
      in AList.update nodeID (canonicalStageState state nodeID) next')"

definition is_exit :: "string \<times> ForwardSpec \<Rightarrow> bool" where
  "is_exit entry = (case entry of (k, f) \<Rightarrow> \<not> (fw_PathMode f \<noteq> PathViaExit \<or> k \<noteq> fw_ExitNodeID f))"

definition is_ingress :: "string \<times> ForwardSpec \<Rightarrow> bool" where
  "is_ingress entry = (case entry of (k, f) \<Rightarrow> \<not> k \<noteq> fw_IngressNodeID f)"

definition upsert_all :: "(string \<times> ForwardSpec \<Rightarrow> bool) \<Rightarrow> states \<Rightarrow> string \<Rightarrow> states \<Rightarrow> states" where
  "upsert_all role final forwardID next' =
     fold (\<lambda>(k, f) n. if \<not> role (k, f) then n else stage_upsert final k f n) (locations final forwardID) next'"

definition remove_all :: "(string \<times> ForwardSpec \<Rightarrow> bool) \<Rightarrow> states \<Rightarrow> states \<Rightarrow> string \<Rightarrow> states \<Rightarrow> states" where
  "remove_all role working final forwardID next' =
     fold (\<lambda>(k, f) n. if \<not> role (k, f) then n else stage_remove final k forwardID n) (locations working forwardID) next'"

definition prepare :: "states \<Rightarrow> string list \<Rightarrow> states \<Rightarrow> states" where
  "prepare final selected next' = fold (upsert_all is_exit final) selected next'"

definition promote :: "states \<Rightarrow> states \<Rightarrow> string list \<Rightarrow> states \<Rightarrow> states" where
  "promote working final selected next' =
     fold (\<lambda>i n. upsert_all is_ingress final i (remove_all is_ingress working final i n)) selected next'"

definition cleanup :: "states \<Rightarrow> states \<Rightarrow> string list \<Rightarrow> states \<Rightarrow> states" where
  "cleanup working final selected next' =
     fold (\<lambda>i n. upsert_all is_exit final i (remove_all is_exit working final i n)) selected next'"

text \<open>\<open>apply\<close>: one barrier. Its result is the new working map and the stages so far.\<close>

definition apply_phase :: "states \<Rightarrow> RolloutWave \<Rightarrow> bool \<Rightarrow> RolloutPhase \<Rightarrow> (states \<Rightarrow> states) \<Rightarrow> states \<times> RolloutStage list
    \<Rightarrow> rollout_error + states \<times> RolloutStage list" where
  "apply_phase final wave exactFinal phase mutate st = (case st of (working, stages) \<Rightarrow>
     let next' = mutate (cloneStateMap working);
         next' = (if phase = RolloutPhaseCleanup \<and> exactFinal then cloneStateMap final else next');
         desired = changedStates working next'
     in case List.map_filter (\<lambda>(k, state). if Validate state \<noteq> [] then Some (InvalidStage wave phase k (Validate state)) else None) desired of
          e # _ \<Rightarrow> Inl e
        | [] \<Rightarrow> Inr (next', if desired \<noteq> []
            then stages @ [\<lparr>ro_Wave = wave, ro_Phase = phase, ro_BakeSeconds = 0, ro_Desired = desired\<rparr>] else stages))"

text \<open>The indexes of the current forwards are taken once, before the first barrier of the wave.\<close>

definition appendWaveStages :: "states \<Rightarrow> states \<Rightarrow> string list \<Rightarrow> RolloutWave \<Rightarrow> bool \<Rightarrow> RolloutStage list
    \<Rightarrow> rollout_error + states \<times> RolloutStage list" where
  "appendWaveStages working final selected wave exactFinal stages =
     (case apply_phase final wave exactFinal RolloutPhasePrepare (prepare final selected) (working, stages) of
        Inl e \<Rightarrow> Inl e
      | Inr st \<Rightarrow>
          (case apply_phase final wave exactFinal RolloutPhasePromote (promote working final selected) st of
             Inl e \<Rightarrow> Inl e
           | Inr st \<Rightarrow> apply_phase final wave exactFinal RolloutPhaseCleanup (cleanup working final selected) st))"

definition BuildRolloutStages :: "string \<Rightarrow> RolloutStrategy \<Rightarrow> states \<Rightarrow> states \<Rightarrow> rollout_error + RolloutStage list \<times> string list" where
  "BuildRolloutStages planID strategy current target =
     (let working = completeStateMap current target; final = completeStateMap target current in
      case validateFabricTransitions working final of Some e \<Rightarrow> Inl e | None \<Rightarrow>
      case validateRoleTransitions working final of Some e \<Rightarrow> Inl e | None \<Rightarrow>
      let changedForwards = changedForwardIDs working final in
      if changedForwards = [] then
        let desired = changedStates working final in
        if desired = [] then Inr ([], [])
        else Inr ([\<lparr>ro_Wave = RolloutWaveFull, ro_Phase = RolloutPhasePromote, ro_BakeSeconds = 0, ro_Desired = desired\<rparr>], [])
      else
        let (canary, remainder) = selectCanary planID changedForwards (EffectiveCanaryPercent strategy) in
        if canary \<noteq> [] \<and> remainder \<noteq> [] then
          (case appendWaveStages working final canary RolloutWaveCanary False [] of
             Inl e \<Rightarrow> Inl e
           | Inr (working, stages) \<Rightarrow>
               let stages = stages @ [\<lparr>ro_Wave = RolloutWaveCanary, ro_Phase = RolloutPhaseBake,
                     ro_BakeSeconds = rs_BakeSeconds strategy, ro_Desired = []\<rparr>]
               in (case appendWaveStages working final remainder RolloutWaveFull True stages of
                     Inl e \<Rightarrow> Inl e
                   | Inr (_, stages) \<Rightarrow> Inr (stages, canary)))
        else
          (case appendWaveStages working final changedForwards RolloutWaveFull True [] of
             Inl e \<Rightarrow> Inl e
           | Inr (_, stages) \<Rightarrow> Inr (stages, [])))"

section \<open>Canonical maps\<close>

lemma Canonical_fields [simp]:
  "ds_NodeID (Canonical s) = ds_NodeID s" "ds_Generation (Canonical s) = ds_Generation s"
  "ds_SchemaVersion (Canonical s) = ds_SchemaVersion s"
  "ds_Forwards (Canonical s) = sort_less forward_less (map canonical_forward (ds_Forwards s))"
  by (simp_all add: Canonical_def)

lemma Canonical_header: "ds_NodeID c = k \<Longrightarrow> ds_Generation c = 1 \<Longrightarrow> (Canonical c)\<lparr>ds_NodeID := k, ds_Generation := 1\<rparr> = Canonical c"
  by (auto simp: Canonical_def)

lemma canonicalStageState_idem: "canonicalStageState (canonicalStageState s k) k = canonicalStageState s k"
  by (simp add: canonicalStageState_def Let_def Canonical_fixed Canonical_header)

lemma canonicalStageState_empty: "canonicalStageState (emptyState k) k = emptyState k"
  by (simp add: canonicalStageState_def emptyState_def Let_def Canonical_def)

text \<open>\<open>good K m\<close>: the map has an entry for exactly the nodes of \<open>K\<close>, each in canonical form.\<close>

definition good :: "string set \<Rightarrow> states \<Rightarrow> bool" where
  "good K m \<longleftrightarrow> distinct (map fst m) \<and> fst ` set m = K \<and> (\<forall>(k, s)\<in>set m. canonicalStageState s k = s)"

lemma goodD:
  assumes "good K m"
  shows "distinct (map fst m)" "fst ` set m = K" "(k, s) \<in> set m \<Longrightarrow> canonicalStageState s k = s"
  using assms unfolding good_def by auto

lemma set_update_subset: "set (AList.update k v m) \<subseteq> insert (k, v) (set m)"
  by (induction m) auto

lemma good_update:
  assumes "good K m" and "canonicalStageState s k = s"
  shows "good (insert k K) (AList.update k s m)"
proof -
  have "canonicalStageState s' j = s'" if "(j, s') \<in> set (AList.update k s m)" for j s'
    using subsetD [OF set_update_subset that] goodD(3) [OF assms(1)] assms(2) by auto
  then show ?thesis
    unfolding good_def using goodD(1,2) [OF assms(1)] by (auto simp: distinct_update dom_update)
qed

lemma good_updates:
  "good K m \<Longrightarrow> (\<And>k s. canonicalStageState (g k s) k = g k s) \<Longrightarrow>
     good (fst ` set xs \<union> K) (fold (\<lambda>(k, s) m. AList.update k (g k s) m) xs m)"
proof (induction xs arbitrary: K m)
  case (Cons x xs)
  obtain k s where x: "x = (k, s)" by (cases x)
  have "good (fst ` set xs \<union> insert k K) (fold (\<lambda>(k, s) m. AList.update k (g k s) m) xs (AList.update k (g k s) m))"
    by (rule Cons.IH [OF good_update [OF Cons.prems(1)]]) (rule Cons.prems(2))+
  then show ?case by (simp add: x)
qed simp

lemma good_complete: "good (fst ` set primary \<union> fst ` set secondary) (completeStateMap primary secondary)"
proof -
  have "good {} []" by (simp add: good_def)
  then have "good (fst ` set secondary \<union> {}) (fold (\<lambda>(k, _) m. AList.update k (emptyState k) m) secondary [])"
    by (rule good_updates) (rule canonicalStageState_empty)
  then have "good (fst ` set primary \<union> (fst ` set secondary \<union> {})) (completeStateMap primary secondary)"
    unfolding completeStateMap_def by (rule good_updates) (rule canonicalStageState_idem)
  then show ?thesis by simp
qed

lemma good_clone: "good K m \<Longrightarrow> cloneStateMap m = m"
  unfolding good_def cloneStateMap_def by (rule map_idI) auto

lemma good_stage:
  assumes "good K n" "k \<in> K"
  shows "good K (stage_upsert final k f n)" "good K (stage_remove final k i n)"
  unfolding stage_upsert_def stage_remove_def Let_def
  using good_update [OF assms(1), of _ k] assms(2) by (simp_all add: insert_absorb canonicalStageState_idem)

lemma locations_in: "(k, f) \<in> set (locations m i) \<longleftrightarrow> (\<exists>s. (k, s) \<in> set m \<and> last_by fw_ID (ds_Forwards s) i = Some f)"
  unfolding locations_def by (force split: option.splits)

lemma locations_key: "(k, f) \<in> set (locations m i) \<Longrightarrow> k \<in> fst ` set m"
  unfolding locations_in by force

lemma good_fold:
  assumes "good K n" and "\<And>x n. x \<in> set xs \<Longrightarrow> good K n \<Longrightarrow> good K (g x n)"
  shows "good K (fold g xs n)"
  by (rule fold_invariant [of xs "\<lambda>x. x \<in> set xs"]) (use assms in auto)

lemma good_all:
  assumes "good K n" "good K final" "good K working"
  shows "good K (upsert_all role final i n)" "good K (remove_all role working final i n)"
proof -
  have "(k, f) \<in> set (locations final i) \<Longrightarrow> k \<in> K" "(k, f) \<in> set (locations working i) \<Longrightarrow> k \<in> K" for k f
    using goodD(2) [OF assms(2)] goodD(2) [OF assms(3)] locations_key by metis+
  then show "good K (upsert_all role final i n)" "good K (remove_all role working final i n)"
    unfolding upsert_all_def remove_all_def by (auto intro!: good_fold [OF assms(1)] good_stage)
qed

lemma good_phases:
  assumes "good K n" "good K final" "good K working"
  shows "good K (prepare final selected n)" "good K (promote working final selected n)" "good K (cleanup working final selected n)"
  unfolding prepare_def promote_def cleanup_def
  by (rule good_fold [OF assms(1)]; use assms in \<open>simp add: good_all\<close>)+

section \<open>Publication\<close>

text \<open>What the nodes have been sent after a stage, and agreement up to traffic classes, which the
  controller assigns later.\<close>

definition publish :: "states \<Rightarrow> RolloutStage \<Rightarrow> states" where
  "publish m stage = fold (\<lambda>(k, s) m. AList.update k s m) (ro_Desired stage) m"

definition similar :: "states \<Rightarrow> states \<Rightarrow> bool" where
  "similar m n \<longleftrightarrow> (\<forall>k. desiredStatesEqual (desired_at m k) (desired_at n k))"

lemma publish_at:
  assumes "distinct (map fst xs)"
  shows "desired_at (fold (\<lambda>(k, s) m. AList.update k s m) xs m) k = (case map_of xs k of None \<Rightarrow> desired_at m k | Some s \<Rightarrow> s)"
  using assms
proof (induction xs arbitrary: m)
  case (Cons x xs)
  obtain j s where x: "x = (j, s)" by (cases x)
  have "map_of xs j = None" using Cons.prems x by (simp add: map_of_eq_None_iff)
  then show ?case using Cons x by (auto simp: desired_at_update split: option.splits)
qed simp

lemma map_of_concat_filter:
  assumes "distinct ks"
  shows "map_of (concat (map (\<lambda>k. if P k then [(k, v k)] else []) ks)) k = (if k \<in> set ks \<and> P k then Some (v k) else None)"
    and "distinct (map fst (concat (map (\<lambda>k. if P k then [(k, v k)] else []) ks)))"
proof -
  have keys: "fst ` set (concat (map (\<lambda>k. if P k then [(k, v k)] else []) ks)) = {k \<in> set ks. P k}" for ks by force
  show "map_of (concat (map (\<lambda>k. if P k then [(k, v k)] else []) ks)) k = (if k \<in> set ks \<and> P k then Some (v k) else None)"
    by (induction ks) auto
  show "distinct (map fst (concat (map (\<lambda>k. if P k then [(k, v k)] else []) ks)))"
    using assms by (induction ks) (auto simp: keys)
qed

lemma changedStates_at:
  "map_of (changedStates m n) k =
     (let right = (case map_of n k of None \<Rightarrow> emptyState k | Some s \<Rightarrow> s) in
      if k \<in> fst ` set m \<union> fst ` set n \<and> \<not> desiredStatesEqual (desired_at m k) right then Some (canonicalStageState right k) else None)"
  "distinct (map fst (changedStates m n))"
  using map_of_concat_filter [of "remdups (map fst m @ map fst n)"
      "\<lambda>k. \<not> desiredStatesEqual (desired_at m k) (case map_of n k of None \<Rightarrow> emptyState k | Some s \<Rightarrow> s)"
      "\<lambda>k. canonicalStageState (case map_of n k of None \<Rightarrow> emptyState k | Some s \<Rightarrow> s) k"]
  unfolding changedStates_def Let_def by simp_all

lemma good_at:
  assumes "good K m"
  shows "k \<in> K \<Longrightarrow> \<exists>s. map_of m k = Some s \<and> desired_at m k = s \<and> canonicalStageState s k = s" and "k \<notin> K \<Longrightarrow> desired_at m k = noState"
proof -
  note d = goodD [OF assms]
  show "\<exists>s. map_of m k = Some s \<and> desired_at m k = s \<and> canonicalStageState s k = s" if "k \<in> K"
  proof -
    have "k \<in> fst ` set m" using that by (simp add: d(2))
    then obtain s where "(k, s) \<in> set m" by auto
    then show ?thesis using d(1,3) by (simp add: desired_at_def)
  qed
  show "desired_at m k = noState" if "k \<notin> K"
  proof -
    have "map_of m k = None" using that unfolding map_of_eq_None_iff d(2) .
    then show ?thesis by (simp add: desired_at_def)
  qed
qed

lemma publish_changed:
  assumes "similar m w" "good K w" "good K n" and "ro_Desired stage = changedStates w n"
  shows "similar (publish m stage) n"
  unfolding similar_def
proof
  fix k
  show "desiredStatesEqual (desired_at (publish m stage) k) (desired_at n k)"
  proof (cases "k \<in> K")
    case True
    obtain s where s: "map_of n k = Some s" "desired_at n k = s" "canonicalStageState s k = s" using good_at(1) [OF assms(3) True] by blast
    have "k \<in> fst ` set w" using goodD(2) [OF assms(2)] True by simp
    then show ?thesis
      using assms(1) s changedStates_at [of w n] publish_at [OF changedStates_at(2), of w n m k]
      unfolding publish_def assms(4) similar_def desiredStatesEqual_def Let_def by auto
  next
    case False
    then have "map_of (changedStates w n) k = None"
      unfolding changedStates_at Let_def using goodD(2) [OF assms(2)] goodD(2) [OF assms(3)] by simp
    then show ?thesis
      using assms(1) good_at(2) [OF assms(2) False] good_at(2) [OF assms(3) False] publish_at [OF changedStates_at(2), of w n m k]
      unfolding publish_def assms(4) similar_def by (metis option.case(1))
  qed
qed

section \<open>The waves\<close>

text \<open>What holds between two barriers: the working map is complete and canonical, what has been
  published agrees with it, and every published state is accepted.\<close>

definition stages_inv :: "string set \<Rightarrow> states \<Rightarrow> states \<times> RolloutStage list \<Rightarrow> bool" where
  "stages_inv K start st \<longleftrightarrow> good K (fst st) \<and> similar (foldl publish start (snd st)) (fst st) \<and>
     (\<forall>stage\<in>set (snd st). \<forall>(k, s)\<in>set (ro_Desired stage). Validate s = [])"

lemma map_filter_Nil: "List.map_filter g xs = [] \<longleftrightarrow> (\<forall>x\<in>set xs. g x = None)"
  by (induction xs) (auto simp: List.map_filter_simps split: option.splits)

lemma publish_nothing: "similar m w \<Longrightarrow> good K w \<Longrightarrow> good K n \<Longrightarrow> changedStates w n = [] \<Longrightarrow> similar m n"
  using publish_changed [of m w K n "\<lparr>ro_Wave = [], ro_Phase = [], ro_BakeSeconds = 0, ro_Desired = []\<rparr>"] by (simp add: publish_def)

lemma apply_phase_inv:
  assumes inv: "stages_inv K start st" and final: "good K final" and mutate: "\<And>n. good K n \<Longrightarrow> good K (mutate n)"
    and step: "apply_phase final wave exactFinal phase mutate st = Inr st'"
  shows "stages_inv K start st'" and "phase = RolloutPhaseCleanup \<and> exactFinal \<Longrightarrow> fst st' = final"
proof -
  obtain w stages where st: "st = (w, stages)" by (cases st)
  have w: "good K w" and sim: "similar (foldl publish start stages) w" using inv by (auto simp: stages_inv_def st)
  define n where "n = (if phase = RolloutPhaseCleanup \<and> exactFinal then cloneStateMap final else mutate (cloneStateMap w))"
  have n: "good K n" using w final mutate [OF w] by (simp add: n_def good_clone)
  have valid: "\<forall>(k, s)\<in>set (changedStates w n). Validate s = []"
    and st': "st' = (n, if changedStates w n \<noteq> []
      then stages @ [\<lparr>ro_Wave = wave, ro_Phase = phase, ro_BakeSeconds = 0, ro_Desired = changedStates w n\<rparr>] else stages)"
    using step unfolding apply_phase_def st Let_def prod.case n_def [symmetric]
    by (auto simp: map_filter_Nil split: list.splits if_splits)
  show "stages_inv K start st'"
    using inv n valid publish_changed [OF sim w n] publish_nothing [OF sim w n] unfolding st' st stages_inv_def by simp
  show "fst st' = final" if "phase = RolloutPhaseCleanup \<and> exactFinal"
    unfolding st' fst_conv n_def using that good_clone [OF final] by simp
qed

lemma appendWaveStages_inv:
  assumes inv: "stages_inv K start (working, stages)" and final: "good K final"
    and wave: "appendWaveStages working final selected wave exactFinal stages = Inr st'"
  shows "stages_inv K start st'" and "exactFinal \<Longrightarrow> fst st' = final"
proof -
  have w: "good K working" using inv by (simp add: stages_inv_def)
  obtain st1 st2 where s1: "apply_phase final wave exactFinal RolloutPhasePrepare (prepare final selected) (working, stages) = Inr st1"
    and s2: "apply_phase final wave exactFinal RolloutPhasePromote (promote working final selected) st1 = Inr st2"
    and s3: "apply_phase final wave exactFinal RolloutPhaseCleanup (cleanup working final selected) st2 = Inr st'"
    using wave unfolding appendWaveStages_def by (auto split: sum.splits)
  have "stages_inv K start st1" by (rule apply_phase_inv(1) [OF inv final good_phases(1) [OF _ final w] s1])
  then have i2: "stages_inv K start st2" by (rule apply_phase_inv(1) [OF _ final good_phases(2) [OF _ final w] s2])
  show "stages_inv K start st'" by (rule apply_phase_inv(1) [OF i2 final good_phases(3) [OF _ final w] s3])
  show "exactFinal \<Longrightarrow> fst st' = final" by (rule apply_phase_inv(2) [OF i2 final good_phases(3) [OF _ final w] s3]) simp_all
qed

lemma stages_inv_bake:
  "stages_inv K start (w, stages) \<Longrightarrow> ro_Desired stage = [] \<Longrightarrow> stages_inv K start (w, stages @ [stage])"
  by (auto simp: stages_inv_def publish_def)

section \<open>The whole rollout\<close>

lemma similar_refl [simp]: "similar m m"
  by (simp add: similar_def desiredStatesEqual_def)

lemma BuildRolloutStages_cases:
  assumes "BuildRolloutStages planID strategy current target = Inr (stages, canary)"
  defines "working \<equiv> completeStateMap current target" and "final \<equiv> completeStateMap target current"
  shows "similar (foldl publish working stages) final"
    and "(\<forall>stage\<in>set stages. \<forall>(k, s)\<in>set (ro_Desired stage). Validate s = []) \<or> (\<forall>stage\<in>set stages. ro_Desired stage = changedStates working final)"
proof -
  let ?K = "fst ` set current \<union> fst ` set target"
  have w: "good ?K working" unfolding working_def by (rule good_complete)
  have fin: "good ?K final" unfolding final_def using good_complete [of target current] by (simp add: Un_commute)
  have start: "stages_inv ?K working (working, [])" by (simp add: stages_inv_def w)
  note build = assms(1) [unfolded BuildRolloutStages_def Let_def, folded working_def final_def]
  let ?goal = "\<lambda>stages. similar (foldl publish working stages) final \<and>
    ((\<forall>stage\<in>set stages. \<forall>(k, s)\<in>set (ro_Desired stage). Validate s = []) \<or> (\<forall>stage\<in>set stages. ro_Desired stage = changedStates working final))"
  have finish: "?goal ss" if "stages_inv ?K working (w', ss)" "w' = final" for w' ss
    using that unfolding stages_inv_def by simp
  have "?goal stages"
  proof (cases "changedForwardIDs working final = []")
    case True
    then have stages: "stages = (if changedStates working final = [] then []
        else [\<lparr>ro_Wave = RolloutWaveFull, ro_Phase = RolloutPhasePromote, ro_BakeSeconds = 0, ro_Desired = changedStates working final\<rparr>])"
      using build by (auto split: option.splits if_splits)
    then show ?thesis
      using publish_changed [OF similar_refl w fin] publish_nothing [OF similar_refl w fin] by simp
  next
    case False
    obtain c r where sel: "selectCanary planID (changedForwardIDs working final) (EffectiveCanaryPercent strategy) = (c, r)" by fastforce
    show ?thesis
    proof (cases "c \<noteq> [] \<and> r \<noteq> []")
      case True
      let ?bake = "\<lparr>ro_Wave = RolloutWaveCanary, ro_Phase = RolloutPhaseBake, ro_BakeSeconds = rs_BakeSeconds strategy, ro_Desired = []\<rparr>"
      obtain w1 s1 w2 where one: "appendWaveStages working final c RolloutWaveCanary False [] = Inr (w1, s1)"
        and two: "appendWaveStages w1 final r RolloutWaveFull True (s1 @ [?bake]) = Inr (w2, stages)"
        using build False sel True by (auto split: option.splits sum.splits)
      have "stages_inv ?K working (w1, s1 @ [?bake])"
        by (rule stages_inv_bake [OF appendWaveStages_inv(1) [OF start fin one]]) simp
      from appendWaveStages_inv [OF this fin two] show ?thesis by (intro finish) simp_all
    next
      case no: False
      obtain w2 where two: "appendWaveStages working final (changedForwardIDs working final) RolloutWaveFull True [] = Inr (w2, stages)"
        using build False sel no by (auto split: option.splits sum.splits if_splits)
      from appendWaveStages_inv [OF start fin two] show ?thesis by (intro finish) simp_all
    qed
  qed
  then show "similar (foldl publish working stages) final"
    and "(\<forall>stage\<in>set stages. \<forall>(k, s)\<in>set (ro_Desired stage). Validate s = []) \<or> (\<forall>stage\<in>set stages. ro_Desired stage = changedStates working final)"
    by blast+
qed

lemma Generation_irrelevant:
  assumes "g \<noteq> 0"
  shows "well_formed s \<Longrightarrow> well_formed (s\<lparr>ds_Generation := g\<rparr>)"
proof -
  let ?s = "s\<lparr>ds_Generation := g\<rparr>"
  have "link_ok ?s = link_ok s" "service_nets ?s = service_nets s" "policy_classes ?s = policy_classes s"
    by (simp_all add: fun_eq_iff link_ok_def service_nets_def policy_classes_def)
  moreover have "path_ok ?s = path_ok s" "deadline_ok ?s = deadline_ok s" by (simp_all add: fun_eq_iff path_ok_def deadline_ok_def)
  then have "forward_ok ?s = forward_ok s" by (simp add: fun_eq_iff forward_ok_def)
  moreover have "match_address ?s = match_address s" unfolding match_address_def [abs_def] by (simp cong: option.case_cong)
  then have "forward_compat ?s = forward_compat s" unfolding forward_compat_def [abs_def] listen_keys_def [abs_def] by simp
  moreover have "header_ok s \<Longrightarrow> header_ok ?s" "version_ok ?s = version_ok s" using assms by (simp_all add: header_ok_def version_ok_def)
  ultimately show "well_formed s \<Longrightarrow> well_formed ?s" unfolding well_formed_def by simp
qed

lemma stage_valid:
  assumes "Validate s = []" and "ds_NodeID s = k"
  shows "Validate (canonicalStageState s k) = []"
proof -
  have wf: "well_formed s" using assms(1) by (simp only: Validate_well_formed)
  then have "ds_SchemaVersion s \<noteq> 0" by (auto simp: well_formed_def header_ok_def SupportedSchemaVersion_def)
  moreover have "s\<lparr>ds_NodeID := k, ds_Generation := 1\<rparr> = s\<lparr>ds_Generation := 1\<rparr>" using assms(2) by (cases s) simp
  ultimately have "canonicalStageState s k = Canonical (s\<lparr>ds_Generation := 1\<rparr>)" by (simp add: canonicalStageState_def)
  moreover have "well_formed (s\<lparr>ds_Generation := 1\<rparr>)" using wf by (rule Generation_irrelevant [rotated]) simp
  ultimately show ?thesis by (simp only: Validate_well_formed Canonical_well_formed)
qed

lemma final_states_valid:
  assumes target: "\<forall>(k, s)\<in>set target. Validate s = [] \<and> ds_NodeID s = k" and current: "\<forall>k\<in>fst ` set current. validIdentifier k"
  shows "\<forall>(k, s)\<in>set (completeStateMap target current). Validate s = []"
proof -
  have header: "header_ok (emptyState k)" if "validIdentifier k" for k
    using that by (simp add: header_ok_def emptyState_def SupportedSchemaVersion_def)
  have empty: "Validate (emptyState k) = []" if "validIdentifier k" for k
    unfolding Validate_split using header [OF that] by (simp add: version_ok_def emptyState_def Let_def)
  have base: "\<forall>(k, s)\<in>set (fold (\<lambda>(k, _) m. AList.update k (emptyState k) m) current []). Validate s = []"
    by (rule fold_invariant [of current "\<lambda>x. x \<in> set current" "\<lambda>m. \<forall>(k, s)\<in>set m. Validate s = []"])
      (use current empty set_update_subset in \<open>fastforce+\<close>)
  show ?thesis
    unfolding completeStateMap_def
    by (rule fold_invariant [of target "\<lambda>x. x \<in> set target" "\<lambda>m. \<forall>(k, s)\<in>set m. Validate s = []"])
      (use base target stage_valid set_update_subset in \<open>fastforce+\<close>)
qed

lemma changedStates_in:
  assumes "good K w" "good K n" "(k, s) \<in> set (changedStates w n)"
  shows "(k, s) \<in> set n"
proof -
  have "map_of (changedStates w n) k = Some s" using assms(3) changedStates_at(2) [of w n] by simp
  then have "k \<in> K" and s: "s = canonicalStageState (case map_of n k of None \<Rightarrow> emptyState k | Some s \<Rightarrow> s) k"
    unfolding changedStates_at Let_def goodD(2) [OF assms(1)] goodD(2) [OF assms(2)] by (auto split: if_splits)
  obtain t where "map_of n k = Some t" "canonicalStageState t k = t" using good_at(1) [OF assms(2) \<open>k \<in> K\<close>] by blast
  then show ?thesis using s by (simp add: map_of_SomeD)
qed

section \<open>Exits first\<close>

lemma set_upsertForward: "set (upsertForward fs f) = insert f {g \<in> set fs. fw_ID g \<noteq> fw_ID f}"
proof -
  have "set (upsert_scan f r fs) = (if r then {} else {f}) \<union> {g \<in> set fs. fw_ID g \<noteq> fw_ID f}" for r
    by (induction fs arbitrary: r) auto
  then show ?thesis by (simp add: upsertForward_def)
qed

lemma canonicalStageState_forwards:
  "set (ds_Forwards (canonicalStageState s k)) = canonical_forward ` set (ds_Forwards s)"
  by (simp add: canonicalStageState_def Let_def)

lemma withConservative_forwards: "set (ds_Forwards (withConservativeResources s final)) = canonical_forward ` set (ds_Forwards s)"
  by (simp add: withConservativeResources_def Let_def)

lemma stage_forwards:
  "set (ds_Forwards (desired_at (stage_upsert final j g n) k)) = (if k = j
     then insert (canonical_forward g) (canonical_forward ` {f \<in> canonical_forward ` set (ds_Forwards (desired_at n k)). fw_ID f \<noteq> fw_ID g})
     else set (ds_Forwards (desired_at n k)))"
  "set (ds_Forwards (desired_at (stage_remove final j i n) k)) = (if k = j
     then canonical_forward ` {f \<in> canonical_forward ` set (ds_Forwards (desired_at n k)). fw_ID f \<noteq> i}
     else set (ds_Forwards (desired_at n k)))"
  by (auto simp: stage_upsert_def stage_remove_def Let_def desired_at_update canonicalStageState_forwards set_upsertForward
      withConservative_forwards removeForward_def)

definition ready :: "ForwardSpec \<Rightarrow> string \<Rightarrow> states \<Rightarrow> bool" where
  "ready f k n \<longleftrightarrow> f \<in> set (ds_Forwards (desired_at n k))"

lemma ready_stage:
  assumes "canonical_forward f = f"
  shows "ready f k (stage_upsert final k f n)"
    and "ready f k n \<Longrightarrow> j \<noteq> k \<or> fw_ID g \<noteq> fw_ID f \<or> g = f \<Longrightarrow> ready f k (stage_upsert final j g n)"
    and "ready f k n \<Longrightarrow> j \<noteq> k \<or> i \<noteq> fw_ID f \<Longrightarrow> ready f k (stage_remove final j i n)"
proof -
  have keep: "f \<in> canonical_forward ` {h \<in> canonical_forward ` S. P h}" if "f \<in> S" "P f" for S P
    using that assms by (intro image_eqI [of _ _ f]) (auto intro: image_eqI [of _ _ f])
  show "ready f k (stage_upsert final k f n)" by (simp add: ready_def stage_forwards assms)
  show "ready f k (stage_upsert final j g n)" if "ready f k n" "j \<noteq> k \<or> fw_ID g \<noteq> fw_ID f \<or> g = f"
    using that keep [of "set (ds_Forwards (desired_at n k))" "\<lambda>h. fw_ID h \<noteq> fw_ID g"] assms by (auto simp: ready_def stage_forwards)
  show "ready f k (stage_remove final j i n)" if "ready f k n" "j \<noteq> k \<or> i \<noteq> fw_ID f"
    using that keep [of "set (ds_Forwards (desired_at n k))" "\<lambda>h. fw_ID h \<noteq> i"] by (auto simp: ready_def stage_forwards)
qed

lemma fold_establish:
  assumes "x \<in> set xs" and "\<And>s. P (g x s)" and "\<And>y s. y \<in> set xs \<Longrightarrow> P s \<Longrightarrow> P (g y s)"
  shows "P (fold g xs s)"
proof -
  obtain ys zs where xs: "xs = ys @ x # zs" using split_list [OF assms(1)] by blast
  have "P (fold g zs (g x (fold g ys s)))"
    by (rule fold_invariant [of zs "\<lambda>y. y \<in> set xs"]) (use assms xs in auto)
  then show ?thesis by (simp add: xs)
qed

lemma location_facts:
  assumes "good K m" and "(k, f) \<in> set (locations m i)"
  shows "fw_ID f = i" and "canonical_forward f = f" and "map_of (locations m i) k = Some f"
    and "(k, g) \<in> set (locations m j) \<Longrightarrow> fw_ID g = i \<Longrightarrow> g = f"
proof -
  note d = goodD [OF assms(1)]
  obtain s where s: "(k, s) \<in> set m" "last_by fw_ID (ds_Forwards s) i = Some f" using assms(2) unfolding locations_in by blast
  then have f: "f \<in> set (ds_Forwards s)" "fw_ID f = i" using last_by_Some by metis+
  show "fw_ID f = i" by (fact f(2))
  have "ds_Forwards s = ds_Forwards (canonicalStageState s k)" using d(3) [OF s(1)] by simp
  then have "f \<in> canonical_forward ` set (ds_Forwards s)" using f(1) canonicalStageState_forwards by metis
  then show "canonical_forward f = f" by auto
  have same: "t = s" if "(k, t) \<in> set m" for t using d(1) s(1) that by (metis map_of_is_SomeI option.inject)
  have keys: "distinct (map fst (locations m i))"
    using d(1) unfolding locations_def by (induction m) (force split: option.splits prod.splits)+
  show "map_of (locations m i) k = Some f" by (rule map_of_is_SomeI [OF keys assms(2)])
  assume g: "(k, g) \<in> set (locations m j)" "fw_ID g = i"
  then obtain t where "(k, t) \<in> set m" "last_by fw_ID (ds_Forwards t) j = Some g" unfolding locations_in by blast
  moreover have "fw_ID g = j" using calculation(2) last_by_Some by metis
  ultimately show "g = f" using same s(2) g(2) by auto
qed

lemma roles_kept:
  assumes "validateRoleTransitions working final = None" and "(k, f') \<in> set (locations working i)" and "map_of (locations final i) k = Some f"
  shows "forwardNodeRole f' k = forwardNodeRole f k"
proof -
  obtain s where s: "(k, s) \<in> set working" "last_by fw_ID (ds_Forwards s) i = Some f'" using assms(2) unfolding locations_in by blast
  then have "i \<in> set (map fw_ID (ds_Forwards s))" using last_by_Some [OF s(2)] by force
  then have "i \<in> set (forward_ids working)" using s(1) unfolding forward_ids_def by force
  then have "role_transition working final i = None"
    using assms(1) unfolding validateRoleTransitions_def by (auto simp: map_filter_Nil split: list.splits)
  then have "List.map_filter (role_change i (locations final i)) (locations working i) = []"
    unfolding role_transition_def Let_def by (auto split: list.splits)
  then have "role_change i (locations final i) (k, f') = None" using assms(2) unfolding map_filter_Nil by blast
  then show ?thesis using assms(3) by (auto simp: role_change_def split: if_splits)
qed

lemma upsert_all_ready:
  assumes "good K final" and "(k, f) \<in> set (locations final i)"
  shows "ready f k n \<Longrightarrow> ready f k (upsert_all role final j n)" and "role (k, f) \<Longrightarrow> ready f k (upsert_all role final i n)"
proof -
  note loc = location_facts [OF assms]
  have keep: "ready f k (stage_upsert final j' g m)"
    if "(j', g) \<in> set (locations final j)" "ready f k m" for j j' g m
    using that ready_stage(2) [OF loc(2)] loc(1,4) by (cases "j' = k") auto
  show "ready f k (upsert_all role final j n)" if "ready f k n"
    unfolding upsert_all_def
    by (rule fold_invariant [of _ "\<lambda>x. x \<in> set (locations final j)"]) (use that keep in \<open>auto split: prod.splits\<close>)
  show "ready f k (upsert_all role final i n)" if "role (k, f)"
    unfolding upsert_all_def
    by (rule fold_establish [OF assms(2)]) (use that keep ready_stage(1) [OF loc(2)] in \<open>auto split: prod.splits\<close>)
qed

lemma remove_all_ready:
  assumes "canonical_forward f = f" and "\<And>k' f'. (k', f') \<in> set (locations working j) \<Longrightarrow> role (k', f') \<Longrightarrow> k' \<noteq> k \<or> j \<noteq> fw_ID f"
    and "ready f k n"
  shows "ready f k (remove_all role working final j n)"
  unfolding remove_all_def
  by (rule fold_invariant [of _ "\<lambda>x. x \<in> set (locations working j)"])
    (use assms(2,3) in \<open>auto split: prod.splits intro!: ready_stage(3) [OF assms(1)]\<close>)

lemma prepare_ready:
  assumes "good K final" "i \<in> set selected" "(k, f) \<in> set (locations final i)" "is_exit (k, f)"
  shows "ready f k (prepare final selected n)"
  unfolding prepare_def
  by (rule fold_establish [OF assms(2)]) (use upsert_all_ready [OF assms(1,3)] assms(4) in auto)

lemma promote_ready:
  assumes final: "good K final" and loc: "(k, f) \<in> set (locations final i)"
    and roles: "\<And>f'. (k, f') \<in> set (locations working i) \<Longrightarrow> forwardNodeRole f' k = forwardNodeRole f k" and n: "ready f k n"
  shows "ready f k (promote working final selected n)"
proof -
  note facts = location_facts [OF final loc]
  have "ready f k (upsert_all is_ingress final j (remove_all is_ingress working final j m))" if m: "ready f k m" for j m
  proof (cases "j = i \<and> is_ingress (k, f)")
    case True
    then show ?thesis using upsert_all_ready(2) [OF final loc] by blast
  next
    case False
    have "k' \<noteq> k \<or> j \<noteq> fw_ID f" if l: "(k', f') \<in> set (locations working j)" and ing: "is_ingress (k', f')" for k' f'
    proof (rule ccontr)
      assume "\<not> (k' \<noteq> k \<or> j \<noteq> fw_ID f)"
      then have eq: "k' = k" "j = i" using facts(1) by auto
      then have "forwardNodeRole f' k = forwardNodeRole f k" using roles l by simp
      moreover have "forwardNodeRole f' k = ''ingress''" using ing eq by (simp add: is_ingress_def forwardNodeRole_def)
      ultimately have "k = fw_IngressNodeID f" by (auto simp: forwardNodeRole_def split: if_splits)
      then show False using False eq by (simp add: is_ingress_def)
    qed
    then show ?thesis by (intro upsert_all_ready(1) [OF final loc] remove_all_ready [OF facts(2) _ m])
  qed
  then show ?thesis
    unfolding promote_def by (intro fold_invariant [of selected "\<lambda>_. True" "ready f k", OF _ n]) simp_all
qed

section \<open>The canary\<close>

interpretation canary_order: slice_order canary_less
  by unfold_locales (auto simp: canary_less_def split: if_splits)

lemma mset_insert_less: "mset (insert_less lt x xs) = add_mset x (mset xs)"
  by (induction xs) auto

lemma mset_sort_less [simp]: "mset (sort_less lt xs) = mset xs"
  by (induction xs) (auto simp: mset_insert_less)

definition canary_key :: "string \<Rightarrow> string \<Rightarrow> string \<times> nat list" where
  "canary_key planID forwardID = (forwardID, Sum256 (planID @ [CHR 0x00] @ forwardID))"

lemma selectCanary_mset:
  assumes "selectCanary planID forwardIDs percent = (canary, remainder)"
  shows "mset canary + mset remainder = mset forwardIDs"
proof -
  let ?c = "sort_less canary_less (map (canary_key planID) forwardIDs)"
  have ids: "mset (map fst ?c) = mset forwardIDs" by (simp add: multiset.map_comp comp_def canary_key_def)
  have "mset (map fst (take n ?c)) + mset (map fst (drop n ?c)) = mset forwardIDs" for n
    unfolding ids [symmetric] mset_append [symmetric] map_append [symmetric] append_take_drop_id ..
  then show ?thesis using assms by (auto simp: selectCanary_def Let_def canary_key_def [abs_def] split: if_splits)
qed

lemma least_share: "(LEAST c. (x :: nat) \<le> 100 * c) = (x + 99) div 100"
  by (rule Least_equality) linarith+

section \<open>Properties\<close>

text \<open>C12. A rollout ends at its target: after all of its stages have been published, every node has
  been sent its final state, up to the traffic classes that the controller allocates.\<close>

theorem rollout_reaches_target:
  assumes "BuildRolloutStages planID strategy current target = Inr (stages, canary)"
  shows "desiredStatesEqual (desired_at (foldl publish (completeStateMap current target) stages) k) (desired_at (completeStateMap target current) k)"
  using BuildRolloutStages_cases(1) [OF assms] by (simp add: similar_def)

definition sample_target :: states where
  "sample_target = [(''n1'', (emptyState ''n1'')\<lparr>ds_ManagementDomain := ''cluster:c1''\<rparr>)]"

lemma sample_rollout:
  "BuildRolloutStages ''c1'' noRollout [] sample_target = Inr ([\<lparr>ro_Wave = RolloutWaveFull, ro_Phase = RolloutPhasePromote,
     ro_BakeSeconds = 0, ro_Desired = sample_target\<rparr>], [])"
  by code_simp

theorem rollout_reaches_target_witness:
  "desiredStatesEqual (desired_at (foldl publish (completeStateMap [] sample_target) [\<lparr>ro_Wave = RolloutWaveFull, ro_Phase = RolloutPhasePromote,
     ro_BakeSeconds = 0, ro_Desired = sample_target\<rparr>]) ''n1'') (desired_at (completeStateMap sample_target []) ''n1'')"
  by (rule rollout_reaches_target [OF sample_rollout])

text \<open>C37. Every snapshot of every stage is accepted by the agent's checks, so that the sequence can be
  stopped and resumed anywhere, when the target states are accepted and addressed to their nodes.\<close>

theorem rollout_stages_valid:
  assumes "BuildRolloutStages planID strategy current target = Inr (stages, canary)"
    and "\<forall>(k, s)\<in>set target. Validate s = [] \<and> ds_NodeID s = k" and "\<forall>k\<in>fst ` set current. validIdentifier k"
    and "stage \<in> set stages" and "(k, s) \<in> set (ro_Desired stage)"
  shows "Validate s = []"
proof -
  have "good (fst ` set current \<union> fst ` set target) (completeStateMap current target)"
    "good (fst ` set current \<union> fst ` set target) (completeStateMap target current)"
    using good_complete [of current target] good_complete [of target current] by (simp_all add: Un_commute)
  note changed = changedStates_in [OF this]
  show ?thesis
    using BuildRolloutStages_cases(2) [OF assms(1)] changed [of k s] final_states_valid [OF assms(2,3)] assms(4,5) by auto
qed

theorem rollout_stages_valid_witness: "Validate ((emptyState ''n1'')\<lparr>ds_ManagementDomain := ''cluster:c1''\<rparr>) = []"
proof -
  have "Validate ((emptyState ''n1'')\<lparr>ds_ManagementDomain := ''cluster:c1''\<rparr>) = []"
    unfolding Validate_split by (simp add: header_ok_def version_ok_def emptyState_def SupportedSchemaVersion_def Let_def) code_simp
  then have "\<forall>(k, s)\<in>set sample_target. Validate s = [] \<and> ds_NodeID s = k" by (simp add: sample_target_def emptyState_def)
  from rollout_stages_valid [OF sample_rollout this] show ?thesis by (simp add: sample_target_def)
qed

text \<open>C38. Canary and remainder split the changed forwards. The canary is the least number of forwards that reaches the asked percentage, if that leaves
  any forward for the remainder, and empty otherwise; it consists of the forwards whose hash with the plan's name is smallest.\<close>

theorem selectCanary_split:
  assumes "selectCanary planID forwardIDs percent = (canary, remainder)"
  shows "mset canary + mset remainder = mset forwardIDs \<and>
    length canary = (let least = (LEAST c. length forwardIDs * unat percent \<le> 100 * c) in if least < length forwardIDs then least else 0) \<and>
    (\<forall>a\<in>set canary. \<forall>b\<in>set remainder. \<not> canary_less (canary_key planID b) (canary_key planID a))"
proof -
  let ?c = "sort_less canary_less (map (canary_key planID) forwardIDs)" and ?least = "(length forwardIDs * unat percent + 99) div 100"
  note split = selectCanary_mset [OF assms]
  have order: "\<not> canary_less (canary_key planID (fst y)) (canary_key planID (fst x))" if "x \<in> set (take n ?c)" "y \<in> set (drop n ?c)" for n x y
  proof -
    have "x \<in> set ?c" "y \<in> set ?c" using that by (auto dest: in_set_takeD in_set_dropD)
    then have "canary_key planID (fst x) = x" "canary_key planID (fst y) = y" by (auto simp: canary_key_def)
    moreover have "sorted_wrt (\<lambda>a b. \<not> canary_less b a) (take n ?c @ drop n ?c)" using canary_order.sorted_slice by simp
    ultimately show ?thesis using that unfolding sorted_wrt_append by simp
  qed
  have small: "\<not> ?least < length forwardIDs" if "100 \<le> percent"
  proof -
    have "length forwardIDs * 100 \<le> length forwardIDs * unat percent" using that by (simp add: word_le_nat_alt)
    then show ?thesis by linarith
  qed
  have few: "2 \<le> length forwardIDs" if "?least < length forwardIDs" "?least \<noteq> 0" using that by linarith
  show ?thesis
  proof (cases "?least < length forwardIDs \<and> ?least \<noteq> 0")
    case True
    then have "\<not> 100 \<le> percent" "\<not> length forwardIDs < 2" using small few by (blast, simp)
    then have "canary = sort_less (<) (map fst (take ?least ?c))" "remainder = sort_less (<) (map fst (drop ?least ?c))"
      using assms True by (simp_all add: selectCanary_def Let_def canary_key_def [abs_def])
    with True split order [of _ ?least] show ?thesis by (auto simp: least_share)
  next
    case False
    then have "canary = []" "remainder = forwardIDs" using assms
      by (auto simp: selectCanary_def Let_def split: if_splits)
    with False show ?thesis by (auto simp: least_share Let_def)
  qed
qed

theorem selectCanary_split_witness:
  "\<exists>canary remainder. selectCanary ''c1'' [''a'', ''b''] 50 = (canary, remainder) \<and> length canary = 1 \<and> length remainder = 1"
proof -
  obtain c r where c: "selectCanary ''c1'' [''a'', ''b''] 50 = (c, r)" by fastforce
  note split = selectCanary_split [OF c]
  have "(LEAST c. length [''a'', ''b''] * unat (50 :: u8) \<le> 100 * c) = 1" unfolding least_share by simp
  with split have "length c = 1" by (simp del: One_nat_def)
  moreover have "length c + length r = 2" using arg_cong [OF conjunct1 [OF split], of size] by simp
  ultimately show ?thesis using c by simp
qed

end
