(* ===== verification/Cluster_Exits.thy ===== *)
theory Cluster_Exits
  imports Cluster_Rollout
begin

text \<open>
  The order of a rollout's stages: a relayed forward reaches its exit node in an earlier stage than any other node, over both waves, and stays there.
\<close>

section \<open>What a node carries\<close>

text \<open>A node carries a forward, up to the canonical form and to the traffic class that the controller assigns.\<close>

definition carries :: "states \<Rightarrow> string \<Rightarrow> ForwardSpec \<Rightarrow> bool" where
  "carries m k f \<longleftrightarrow> (\<exists>g\<in>set (ds_Forwards (desired_at m k)).
     canonical_forward (g\<lparr>fw_TrafficClassID := 0\<rparr>) = canonical_forward (f\<lparr>fw_TrafficClassID := 0\<rparr>))"

text \<open>What the nodes have been sent after the first \<open>j\<close> stages.\<close>

definition published :: "states \<Rightarrow> RolloutStage list \<Rightarrow> nat \<Rightarrow> states" where
  "published start stages j = foldl publish start (take j stages)"

lemma canonical_forward_class: "(canonical_forward f)\<lparr>fw_TrafficClassID := c\<rparr> = canonical_forward (f\<lparr>fw_TrafficClassID := c\<rparr>)"
  by (simp add: canonical_forward_def)

lemma canonical_forward_ID [simp]: "fw_ID (canonical_forward f) = fw_ID f"
  by (simp add: canonical_forward_def)

lemma carries_normal: "carries m k f \<longleftrightarrow> canonical_forward (f\<lparr>fw_TrafficClassID := 0\<rparr>) \<in> set (ds_Forwards (normalize (desired_at m k)))"
proof -
  have "set (ds_Forwards (normalize s)) = (\<lambda>g. canonical_forward (g\<lparr>fw_TrafficClassID := 0\<rparr>)) ` set (ds_Forwards s)" for s
    by (simp add: normalize_def Let_def canonicalStageState_forwards canonical_forward_class image_image)
  moreover have "(\<exists>g\<in>S. h g = x) \<longleftrightarrow> x \<in> h ` S" for S and h :: "ForwardSpec \<Rightarrow> ForwardSpec" and x by auto
  ultimately show ?thesis unfolding carries_def by simp
qed

lemma carries_similar: "similar m n \<Longrightarrow> carries m k f = carries n k f"
  by (simp add: carries_normal similar_def desiredStatesEqual_def)

lemma ready_carries: "ready f k m \<Longrightarrow> carries m k f"
  by (auto simp: carries_def ready_def)

lemma location_carries:
  assumes "good K m" "(k, f) \<in> set (locations m i)"
  shows "carries m k f"
proof -
  obtain s where s: "(k, s) \<in> set m" "last_by fw_ID (ds_Forwards s) i = Some f" using assms(2) unfolding locations_in by blast
  have "desired_at m k = s" using map_of_is_SomeI [OF goodD(1) [OF assms(1)] s(1)] by (simp add: desired_at_def)
  then show ?thesis using last_by_Some [OF s(2)] by (auto simp: carries_def)
qed

section \<open>Entries of one forward\<close>

definition entries :: "states \<Rightarrow> string \<Rightarrow> string \<Rightarrow> ForwardSpec list" where
  "entries m k i = filter (\<lambda>f. fw_ID f = i) (ds_Forwards (desired_at m k))"

lemma carries_entries: "carries m k f \<longleftrightarrow>
    (\<exists>g\<in>set (entries m k (fw_ID f)). canonical_forward (g\<lparr>fw_TrafficClassID := 0\<rparr>) = canonical_forward (f\<lparr>fw_TrafficClassID := 0\<rparr>))"
proof -
  have "fw_ID g = fw_ID f" if "canonical_forward (g\<lparr>fw_TrafficClassID := 0\<rparr>) = canonical_forward (f\<lparr>fw_TrafficClassID := 0\<rparr>)" for g
    using arg_cong [OF that, of fw_ID] by simp
  then show ?thesis unfolding carries_def entries_def set_filter by blast
qed

lemma filter_insert_less: "filter (\<lambda>f. fw_ID f = i) (insert_less forward_less f fs) = filter (\<lambda>f. fw_ID f = i) (f # fs)"
  by (induction fs) (auto simp: forward_less_def)

lemma filter_sort_less: "filter (\<lambda>f. fw_ID f = i) (sort_less forward_less fs) = filter (\<lambda>f. fw_ID f = i) fs"
  by (induction fs) (simp_all add: filter_insert_less)

lemma filter_canonical: "filter (\<lambda>f. fw_ID f = i) (map canonical_forward fs) = map canonical_forward (filter (\<lambda>f. fw_ID f = i) fs)"
  by (induction fs) simp_all

lemma filter_upsert: "fw_ID f \<noteq> i \<Longrightarrow> filter (\<lambda>f. fw_ID f = i) (upsertForward fs f) = filter (\<lambda>f. fw_ID f = i) fs"
proof -
  assume "fw_ID f \<noteq> i"
  then have "filter (\<lambda>f. fw_ID f = i) (upsert_scan f r fs) = filter (\<lambda>f. fw_ID f = i) fs" for r by (induction fs arbitrary: r) auto
  then show ?thesis by (simp add: upsertForward_def)
qed

lemma filter_remove: "j \<noteq> i \<Longrightarrow> filter (\<lambda>f. fw_ID f = i) (removeForward fs j) = filter (\<lambda>f. fw_ID f = i) fs"
  unfolding removeForward_def filter_filter by (rule filter_cong) auto

lemma canonical_entries:
  assumes "good K m"
  shows "map canonical_forward (entries m k i) = entries m k i"
proof (cases "k \<in> K")
  case True
  then obtain s where s: "desired_at m k = s" "canonicalStageState s k = s" using good_at(1) [OF assms] by blast
  then have "f \<in> canonical_forward ` set (ds_Forwards s)" if "f \<in> set (ds_Forwards s)" for f using that canonicalStageState_forwards [of s k] by simp
  then have "canonical_forward f = f" if "f \<in> set (ds_Forwards s)" for f using that by fastforce
  then show ?thesis unfolding entries_def s(1) by (intro map_idI) simp
next
  case False
  then show ?thesis using good_at(2) [OF assms False] by (simp add: entries_def noState_def)
qed

lemma stage_entries:
  assumes "good K n"
  shows "j \<noteq> k \<or> fw_ID g \<noteq> i \<Longrightarrow> entries (stage_upsert final j g n) k i = entries n k i"
    and "j \<noteq> k \<or> h \<noteq> i \<Longrightarrow> entries (stage_remove final j h n) k i = entries n k i"
proof -
  have twice: "map canonical_forward (map canonical_forward (entries n k i)) = entries n k i" using canonical_entries [OF assms] by simp
  have list: "ds_Forwards (canonicalStageState s k) = sort_less forward_less (map canonical_forward (ds_Forwards s))" for s k
    by (simp add: canonicalStageState_def Let_def)
  have kept: "ds_Forwards (withConservativeResources s f) = sort_less forward_less (map canonical_forward (ds_Forwards s))" for s f
    by (simp add: withConservativeResources_def Let_def)
  show "entries (stage_upsert final j g n) k i = entries n k i" if "j \<noteq> k \<or> fw_ID g \<noteq> i"
    using that twice
    by (auto simp: entries_def stage_upsert_def Let_def desired_at_update list kept filter_sort_less filter_canonical filter_upsert)
  show "entries (stage_remove final j h n) k i = entries n k i" if "j \<noteq> k \<or> h \<noteq> i"
    using that twice
    by (auto simp: entries_def stage_remove_def Let_def desired_at_update list kept filter_sort_less filter_canonical filter_remove)
qed

lemma last_by_entries: "last_by fw_ID (fs :: ForwardSpec list) i = last_by fw_ID (filter (\<lambda>f. fw_ID f = i) fs) i"
proof -
  have "find P xs = find P (filter P xs)" for P and xs :: "ForwardSpec list" by (induction xs) auto
  then show ?thesis unfolding last_by_def rev_filter by blast
qed

lemma locations_entries:
  assumes "good K m"
  shows "(k, f) \<in> set (locations m i) \<longleftrightarrow> k \<in> K \<and> last_by fw_ID (entries m k i) i = Some f"
proof -
  have "(k, s) \<in> set m \<longleftrightarrow> k \<in> K \<and> desired_at m k = s" for s
  proof
    assume "(k, s) \<in> set m"
    then show "k \<in> K \<and> desired_at m k = s" using goodD(1,2) [OF assms] map_of_is_SomeI [OF goodD(1) [OF assms]] by (force simp: desired_at_def)
  next
    assume "k \<in> K \<and> desired_at m k = s"
    then show "(k, s) \<in> set m" using good_at(1) [OF assms] by (metis map_of_SomeD)
  qed
  then show ?thesis unfolding locations_in entries_def by (simp add: last_by_entries [symmetric])
qed

section \<open>The phases and other forwards\<close>

lemma upsert_all_entries:
  assumes "good K n" "good K final" and "\<And>f. (k, f) \<in> set (locations final j) \<Longrightarrow> role (k, f) \<Longrightarrow> j \<noteq> i"
  shows "entries (upsert_all role final j n) k i = entries n k i"
proof -
  have "(\<lambda>m. good K m \<and> entries m k i = entries n k i) (upsert_all role final j n)"
    unfolding upsert_all_def
  proof (rule fold_invariant [of _ "\<lambda>x. x \<in> set (locations final j)"])
    fix x m assume x: "x \<in> set (locations final j)" and m: "good K m \<and> entries m k i = entries n k i"
    obtain k' f where kf: "x = (k', f)" by fastforce
    have "k' \<in> K" "fw_ID f = j" using locations_key x kf goodD(2) [OF assms(2)] location_facts(1) [OF assms(2)] by blast+
    then show "good K ((case x of (k, f) \<Rightarrow> \<lambda>n. if \<not> role (k, f) then n else stage_upsert final k f n) m) \<and>
        entries ((case x of (k, f) \<Rightarrow> \<lambda>n. if \<not> role (k, f) then n else stage_upsert final k f n) m) k i = entries n k i"
      using m x kf assms(3) good_stage(1) stage_entries(1) by (cases "k' = k") auto
  qed (use assms(1) in simp_all)
  then show ?thesis by simp
qed

lemma remove_all_entries:
  assumes "good K n" "good K working" and "j \<noteq> i"
  shows "entries (remove_all role working final j n) k i = entries n k i"
proof -
  have "(\<lambda>m. good K m \<and> entries m k i = entries n k i) (remove_all role working final j n)"
    unfolding remove_all_def
  proof (rule fold_invariant [of _ "\<lambda>x. x \<in> set (locations working j)"])
    fix x m assume x: "x \<in> set (locations working j)" and m: "good K m \<and> entries m k i = entries n k i"
    obtain k' f where kf: "x = (k', f)" by fastforce
    have "k' \<in> K" using locations_key x kf goodD(2) [OF assms(2)] by blast
    then show "good K ((case x of (k, f) \<Rightarrow> \<lambda>n. if \<not> role (k, f) then n else stage_remove final k j n) m) \<and>
        entries ((case x of (k, f) \<Rightarrow> \<lambda>n. if \<not> role (k, f) then n else stage_remove final k j n) m) k i = entries n k i"
      using m kf assms(3) good_stage(2) stage_entries(2) by auto
  qed (use assms(1) in simp_all)
  then show ?thesis by simp
qed

lemma prepare_entries:
  assumes "good K n" "good K final" and "\<And>f. i \<in> set selected \<Longrightarrow> (k, f) \<in> set (locations final i) \<Longrightarrow> \<not> is_exit (k, f)"
  shows "entries (prepare final selected n) k i = entries n k i"
proof -
  have "(\<lambda>m. good K m \<and> entries m k i = entries n k i) (prepare final selected n)"
    unfolding prepare_def
  proof (rule fold_invariant [of _ "\<lambda>j. j \<in> set selected"])
    fix j m assume j: "j \<in> set selected" and m: "good K m \<and> entries m k i = entries n k i"
    have "entries (upsert_all is_exit final j m) k i = entries m k i"
      by (rule upsert_all_entries [OF conjunct1 [OF m] assms(2)]) (use j assms(3) in blast)
    then show "good K (upsert_all is_exit final j m) \<and> entries (upsert_all is_exit final j m) k i = entries n k i"
      using good_all(1) [OF _ assms(2,2)] m by simp
  qed (use assms(1) in simp_all)
  then show ?thesis by simp
qed

lemma switch_entries:
  assumes "good K n" "good K final" "good K working" and "i \<notin> set selected"
  shows "entries (fold (\<lambda>j n. upsert_all role final j (remove_all role working final j n)) selected n) k i = entries n k i"
proof -
  have "(\<lambda>m. good K m \<and> entries m k i = entries n k i) (fold (\<lambda>j n. upsert_all role final j (remove_all role working final j n)) selected n)"
  proof (rule fold_invariant [of _ "\<lambda>j. j \<in> set selected"])
    fix j m assume j: "j \<in> set selected" and m: "good K m \<and> entries m k i = entries n k i"
    have "j \<noteq> i" using j assms(4) by blast
    let ?r = "remove_all role working final j m"
    have r: "good K ?r" "entries ?r k i = entries n k i" using m good_all(2) [OF _ assms(2,3)] remove_all_entries [OF _ assms(3) \<open>j \<noteq> i\<close>] by simp_all
    then show "good K (upsert_all role final j ?r) \<and> entries (upsert_all role final j ?r) k i = entries n k i"
      using good_all(1) [OF r(1) assms(2,2)] upsert_all_entries [OF r(1) assms(2), of k j role i] \<open>j \<noteq> i\<close> by simp
  qed (use assms(1) in simp_all)
  then show ?thesis by simp
qed

lemmas phase_entries = prepare_entries switch_entries [of _ _ _ _ _ _ is_ingress, folded promote_def] switch_entries [of _ _ _ _ _ _ is_exit, folded cleanup_def]

lemma cleanup_ready:
  assumes "good K final" "i \<in> set selected" "(k, f) \<in> set (locations final i)" "is_exit (k, f)"
  shows "ready f k (cleanup working final selected n)"
  unfolding cleanup_def
proof (rule fold_establish [OF assms(2)])
  show "ready f k (upsert_all is_exit final i (remove_all is_exit working final i m))" for m
    by (rule upsert_all_ready(2) [where role = is_exit, OF assms(1,3,4)])
  note facts = location_facts [OF assms(1,3)]
  fix j m assume m: "ready f k m"
  show "ready f k (upsert_all is_exit final j (remove_all is_exit working final j m))"
  proof (cases "j = i")
    case True
    then show ?thesis using upsert_all_ready(2) [where role = is_exit, OF assms(1,3,4)] by simp
  next
    case False
    then show ?thesis using facts(1) by (intro upsert_all_ready(1) [OF assms(1,3)] remove_all_ready [OF facts(2) _ m]) simp
  qed
qed

section \<open>The waves\<close>

text \<open>No stage brings the forward to the node \<open>n\<close> before its exit \<open>x\<close> has been sent it, and the exit keeps it then.\<close>

definition exits_lead :: "states \<Rightarrow> string \<times> ForwardSpec \<Rightarrow> string \<times> ForwardSpec \<Rightarrow> RolloutStage list \<Rightarrow> bool" where
  "exits_lead start here exit stages \<longleftrightarrow> (case (here, exit) of ((n, f), (x, g)) \<Rightarrow> \<forall>j<length stages.
     carries (published start stages (Suc j)) n f \<longrightarrow> carries (published start stages j) x g \<and> carries (published start stages (Suc j)) x g)"

lemma exits_lead_Nil [simp]: "exits_lead start here exit []"
  by (simp add: exits_lead_def split: prod.splits)

lemma exits_lead_snoc:
  assumes "exits_lead start (n, f) (x, g) stages"
    and "carries (foldl publish start (stages @ [stage])) n f \<Longrightarrow> carries (foldl publish start stages) x g \<and> carries (foldl publish start (stages @ [stage])) x g"
  shows "exits_lead start (n, f) (x, g) (stages @ [stage])"
  unfolding exits_lead_def prod.case
proof (intro allI impI)
  fix j assume j: "j < length (stages @ [stage])"
    and at: "carries (published start (stages @ [stage]) (Suc j)) n f"
  show "carries (published start (stages @ [stage]) j) x g \<and> carries (published start (stages @ [stage]) (Suc j)) x g"
  proof (cases "j < length stages")
    case True
    then show ?thesis using assms(1) at by (simp add: exits_lead_def published_def)
  next
    case False
    then have "j = length stages" using j by simp
    then show ?thesis using assms(2) at by (simp add: published_def)
  qed
qed

lemma apply_phase_next:
  assumes "good K (fst st)" "good K final" and "apply_phase final wave exactFinal phase mutate st = Inr st'"
  shows "fst st' = (if phase = RolloutPhaseCleanup \<and> exactFinal then final else mutate (fst st))"
    and "snd st' = snd st \<or> (\<exists>stage. snd st' = snd st @ [stage])"
proof -
  obtain w stages where st: "st = (w, stages)" by (cases st)
  have "cloneStateMap w = w" using good_clone assms(1) st by simp
  then show "fst st' = (if phase = RolloutPhaseCleanup \<and> exactFinal then final else mutate (fst st))"
    "snd st' = snd st \<or> (\<exists>stage. snd st' = snd st @ [stage])"
    using assms(3) unfolding apply_phase_def Let_def st by (auto simp: good_clone [OF assms(2)] split: list.splits if_splits)
qed

lemma apply_phase_leads:
  assumes inv: "stages_inv K start st" "stages_inv K start st'" and final: "good K final"
    and step: "apply_phase final wave exactFinal phase mutate st = Inr st'" and lead: "exits_lead start (n, f) (x, g) (snd st)"
    and order: "carries (fst st') n f \<Longrightarrow> carries (fst st) x g \<and> carries (fst st') x g"
  shows "exits_lead start (n, f) (x, g) (snd st')"
proof -
  have good: "good K (fst st)" and sim: "similar (foldl publish start (snd st)) (fst st)" "similar (foldl publish start (snd st')) (fst st')"
    using inv by (simp_all add: stages_inv_def)
  from apply_phase_next(2) [OF good final step] show ?thesis
  proof
    assume "\<exists>stage. snd st' = snd st @ [stage]"
    then obtain stage where st': "snd st' = snd st @ [stage]" by blast
    show ?thesis unfolding st'
      by (rule exits_lead_snoc [OF lead]) (use order carries_similar [OF sim(1)] carries_similar [OF sim(2), unfolded st'] in simp)
  qed (use lead in simp)
qed

lemma wave_leads:
  assumes inv: "stages_inv K start (w, stages)" and final: "good K final"
    and wave: "appendWaveStages w final selected wave exactFinal stages = Inr (w', stages')"
    and here: "(n, f) \<in> set (locations final i)" "\<not> is_exit (n, f)" and exit: "(x, g) \<in> set (locations final i)" "is_exit (x, g)"
    and lead: "exits_lead start (n, f) (x, g) stages" and both: "carries w n f \<Longrightarrow> carries w x g"
    and roles: "\<And>g'. i \<in> set selected \<Longrightarrow> (x, g') \<in> set (locations w i) \<Longrightarrow> forwardNodeRole g' x = forwardNodeRole g x"
    and before: "i \<notin> set selected \<Longrightarrow> exactFinal \<Longrightarrow> carries w x g"
  shows "exits_lead start (n, f) (x, g) stages'" and "carries w' n f \<Longrightarrow> carries w' x g"
    and "i \<in> set selected \<or> carries w x g \<Longrightarrow> carries w' x g"
    and "i \<notin> set selected \<Longrightarrow> \<not> exactFinal \<Longrightarrow> entries w' k i = entries w k i"
proof -
  have w: "good K w" using inv by (simp add: stages_inv_def)
  have ids: "fw_ID f = i" "fw_ID g = i" using location_facts(1) [OF final] here(1) exit(1) by blast+
  obtain st1 st2 where s1: "apply_phase final wave exactFinal RolloutPhasePrepare (prepare final selected) (w, stages) = Inr st1"
    and s2: "apply_phase final wave exactFinal RolloutPhasePromote (promote w final selected) st1 = Inr st2"
    and s3: "apply_phase final wave exactFinal RolloutPhaseCleanup (cleanup w final selected) st2 = Inr (w', stages')"
    using wave unfolding appendWaveStages_def by (auto split: sum.splits)
  have i1: "stages_inv K start st1" by (rule apply_phase_inv(1) [OF inv final good_phases(1) [OF _ final w] s1])
  have i2: "stages_inv K start st2" by (rule apply_phase_inv(1) [OF i1 final good_phases(2) [OF _ final w] s2])
  have i3: "stages_inv K start (w', stages')" by (rule apply_phase_inv(1) [OF i2 final good_phases(3) [OF _ final w] s3])
  have good: "good K (fst st1)" "good K (fst st2)" using i1 i2 by (simp_all add: stages_inv_def)
  have n1: "fst st1 = prepare final selected w" using apply_phase_next(1) [OF _ final s1] w by simp
  have n2: "fst st2 = promote w final selected (fst st1)" using apply_phase_next(1) [OF good(1) final s2] by simp
  have n3: "w' = (if exactFinal then final else cleanup w final selected (fst st2))" using apply_phase_next(1) [OF good(2) final s3] by simp
  have kept1: "carries (fst st1) n f = carries w n f"
    unfolding carries_entries n1 ids(1) using phase_entries(1) [OF w final, of i selected n] here location_facts(4) [OF final here(1)] location_facts(1) [OF final] by metis
  have at_exit: "carries (fst st1) x g \<and> carries (fst st2) x g \<and> carries w' x g" if "i \<in> set selected \<or> carries w x g"
  proof (cases "i \<in> set selected")
    case True
    have r1: "ready g x (fst st1)" unfolding n1 by (rule prepare_ready [OF final True exit])
    have "ready g x (fst st2)" unfolding n2 by (rule promote_ready [OF final exit(1) roles [OF True] r1])
    moreover have "carries w' x g"
      unfolding n3 using location_carries [OF final exit(1)] ready_carries [OF cleanup_ready [OF final True exit]] by simp
    ultimately show ?thesis using r1 ready_carries by blast
  next
    case False
    then have "entries (fst st1) x i = entries w x i" "entries (fst st2) x i = entries w x i" "\<not> exactFinal \<Longrightarrow> entries w' x i = entries w x i"
      using phase_entries(1) [OF w final, of i selected x] phase_entries(2) [OF good(1) final w False] phase_entries(3) [OF good(2) final w False] n1 n2 n3 by simp_all
    then show ?thesis using False that location_carries [OF final exit(1)] n3 unfolding carries_entries ids(2) by (cases exactFinal) simp_all
  qed
  have some: "i \<in> set selected \<or> carries w x g" if "carries w' n f \<or> carries (fst st2) n f \<or> carries (fst st1) n f"
  proof (rule ccontr)
    assume no: "\<not> (i \<in> set selected \<or> carries w x g)"
    then have "\<not> exactFinal" using before by blast
    then have "entries (fst st1) n i = entries w n i" "entries (fst st2) n i = entries w n i" "entries w' n i = entries w n i"
      using no phase_entries(1) [OF w final, of i selected n] phase_entries(2) [OF good(1) final w, of i selected] phase_entries(3) [OF good(2) final w, of i selected] n1 n2 n3 by simp_all
    then have "carries w n f" using that unfolding carries_entries ids(1) by simp
    with both no show False by blast
  qed
  have "exits_lead start (n, f) (x, g) (snd st1)"
    by (rule apply_phase_leads [OF inv i1 final s1]) (use lead both kept1 at_exit in auto)
  then have "exits_lead start (n, f) (x, g) (snd st2)"
    by (rule apply_phase_leads [OF i1 i2 final s2]) (use some at_exit in auto)
  then have "exits_lead start (n, f) (x, g) (snd (w', stages'))"
    by (rule apply_phase_leads [OF i2 i3 final s3]) (use some at_exit in auto)
  then show "exits_lead start (n, f) (x, g) stages'" by simp
  show "carries w' n f \<Longrightarrow> carries w' x g" using some at_exit by blast
  show "i \<in> set selected \<or> carries w x g \<Longrightarrow> carries w' x g" using at_exit by blast
  show "entries w' k i = entries w k i" if "i \<notin> set selected" "\<not> exactFinal"
    using that phase_entries(1) [OF w final, of i selected k] phase_entries(2) [OF good(1) final w that(1)] phase_entries(3) [OF good(2) final w that(1)] n1 n2 n3 by simp
qed

section \<open>The whole rollout\<close>

lemma forward_ids_location: "(k, f) \<in> set (locations m i) \<Longrightarrow> i \<in> set (forward_ids m)"
  unfolding locations_in forward_ids_def by (force dest: last_by_Some)

lemma unchanged_carries:
  assumes "good K start" "good K final" and "(x, g) \<in> set (locations final i)" and "i \<notin> set (changedForwardIDs start final)"
  shows "carries start x g"
proof -
  let ?l = "locations start i" and ?r = "locations final i"
  have keys: "distinct (map fst (locations m i))" if "good K m" for m
    using goodD(1) [OF that] unfolding locations_def by (induction m) (force split: option.splits prod.splits)+
  have "forwardLocationsEqual ?l ?r"
    using assms(4) forward_ids_location [OF assms(3)] by (auto simp: changedForwardIDs_def)
  then have len: "length ?l = length ?r" and all: "\<And>k h. (k, h) \<in> set ?l \<Longrightarrow> \<exists>h'. map_of ?r k = Some h' \<and> h\<lparr>fw_TrafficClassID := 0\<rparr> = h'\<lparr>fw_TrafficClassID := 0\<rparr>"
    by (auto simp: forwardLocationsEqual_def list_all_iff split: if_splits option.splits)
  have "fst ` set ?l \<subseteq> fst ` set ?r"
  proof
    fix k assume "k \<in> fst ` set ?l"
    then obtain h h' where "(k, h) \<in> set ?l" "map_of ?r k = Some h'" using all by fastforce
    then show "k \<in> fst ` set ?r" using map_of_SomeD by force
  qed
  moreover have "card (fst ` set ?l) = card (fst ` set ?r)" using distinct_card [OF keys [OF assms(1)]] distinct_card [OF keys [OF assms(2)]] len by simp
  ultimately have "fst ` set ?l = fst ` set ?r" by (intro card_subset_eq) simp_all
  then obtain h where h: "(x, h) \<in> set ?l" using assms(3) by force
  then have "h\<lparr>fw_TrafficClassID := 0\<rparr> = g\<lparr>fw_TrafficClassID := 0\<rparr>" using all [OF h] map_of_is_SomeI [OF keys [OF assms(2)] assms(3)] by auto
  with location_carries [OF assms(1) h] show ?thesis by (simp add: carries_def)
qed

lemma build_leads:
  assumes build: "BuildRolloutStages planID strategy current target = Inr (stages, canary)"
    and start: "start = completeStateMap current target" and final: "final = completeStateMap target current"
    and here: "(n, f) \<in> set (locations final i)" "\<not> is_exit (n, f)" and exit: "(x, g) \<in> set (locations final i)" "is_exit (x, g)"
    and both: "carries start n f \<Longrightarrow> carries start x g"
  shows "exits_lead start (n, f) (x, g) stages"
proof -
  let ?K = "fst ` set current \<union> fst ` set target" and ?changed = "changedForwardIDs start final"
  have w: "good ?K start" unfolding start by (rule good_complete)
  have fin: "good ?K final" unfolding final using good_complete [of target current] by (simp add: Un_commute)
  have inv: "stages_inv ?K start (start, [])" by (simp add: stages_inv_def w)
  note build' = build [unfolded BuildRolloutStages_def Let_def, folded start final]
  have valid: "validateRoleTransitions start final = None" using build' by (auto split: option.splits)
  have roles: "forwardNodeRole g' x = forwardNodeRole g x" if "(x, g') \<in> set (locations start i)" for g'
    by (rule roles_kept [OF valid that location_facts(3) [OF fin exit(1)]])
  note unchanged = unchanged_carries [OF w fin exit(1)]
  show ?thesis
  proof (cases "?changed = []")
    case True
    then have "stages = [] \<or> (\<exists>stage. stages = [stage])" using build' by (auto split: option.splits if_splits)
    moreover have "carries (foldl publish start stages) x g"
      using carries_similar [OF BuildRolloutStages_cases(1) [OF build, folded start final]] location_carries [OF fin exit(1)] by simp
    ultimately show ?thesis using exits_lead_snoc [OF exits_lead_Nil, of start _ n f x g] unchanged True by auto
  next
    case False
    obtain c r where sel: "selectCanary planID ?changed (EffectiveCanaryPercent strategy) = (c, r)" by fastforce
    note parts = selectCanary_mset [OF sel]
    then have sets: "set ?changed = set c \<union> set r" by (metis set_mset_mset set_mset_union)
    have "distinct (c @ r)" using parts by (metis changedForwardIDs_def distinct_filter distinct_remdups distinct_sort_less mset_append mset_eq_imp_distinct_iff)
    then have apart: "set c \<inter> set r = {}" by simp
    show ?thesis
    proof (cases "c \<noteq> [] \<and> r \<noteq> []")
      case True
      let ?bake = "\<lparr>ro_Wave = RolloutWaveCanary, ro_Phase = RolloutPhaseBake, ro_BakeSeconds = rs_BakeSeconds strategy, ro_Desired = []\<rparr>"
      obtain w1 s1 w2 where one: "appendWaveStages start final c RolloutWaveCanary False [] = Inr (w1, s1)"
        and two: "appendWaveStages w1 final r RolloutWaveFull True (s1 @ [?bake]) = Inr (w2, stages)"
        using build' False sel True by (auto split: option.splits sum.splits)
      note first = wave_leads [OF inv fin one here exit exits_lead_Nil both roles, simplified]
      have i1: "stages_inv ?K start (w1, s1)" by (rule appendWaveStages_inv(1) [OF inv fin one])
      then have sim: "similar (foldl publish start s1) w1" and w1: "good ?K w1" by (simp_all add: stages_inv_def)
      have i1': "stages_inv ?K start (w1, s1 @ [?bake])" by (rule stages_inv_bake [OF i1]) simp
      have lead1: "exits_lead start (n, f) (x, g) (s1 @ [?bake])"
        by (rule exits_lead_snoc [OF first(1)]) (use first(2) carries_similar [OF sim] in \<open>simp add: publish_def\<close>)
      have roles1: "forwardNodeRole g' x = forwardNodeRole g x" if "i \<in> set r" "(x, g') \<in> set (locations w1 i)" for g'
      proof -
        have "i \<notin> set c" using that(1) apart by blast
        then show ?thesis using roles that(2) first(4) unfolding locations_entries [OF w1] locations_entries [OF w] by simp
      qed
      have "carries w1 x g" if "i \<notin> set r" using first(3) unchanged that sets by blast
      then show ?thesis using wave_leads(1) [OF i1' fin two here exit lead1 first(2) roles1] by blast
    next
      case False
      then obtain w2 where "appendWaveStages start final ?changed RolloutWaveFull True [] = Inr (w2, stages)"
        using build' \<open>?changed \<noteq> []\<close> sel by (auto split: option.splits sum.splits if_splits)
      from wave_leads(1) [OF inv fin this here exit exits_lead_Nil both roles unchanged] show ?thesis by blast
    qed
  qed
qed

section \<open>Exits first\<close>

text \<open>C26. Exits first: over all stages of a rollout, both waves included, the stage that brings a relayed forward of the target to any node but its exit, its ingress
  in particular, comes after a stage that has sent it to its exit node, and the exit node still carries it then. A forward that some node carried already
  before the rollout is assumed to have been at its exit too.\<close>

theorem rollout_exit_first:
  assumes "BuildRolloutStages planID strategy current target = Inr (stages, canary)"
    and "start = completeStateMap current target" and "final = completeStateMap target current"
    and "(n, f) \<in> set (locations final i)" and "n \<noteq> fw_ExitNodeID f"
    and "(x, g) \<in> set (locations final i)" and "fw_PathMode g = PathViaExit" and "x = fw_ExitNodeID g"
    and "carries start n f \<longrightarrow> carries start x g"
    and "j < length stages" and "carries (published start stages (Suc j)) n f"
  shows "carries (published start stages j) x g \<and> carries (published start stages (Suc j)) x g"
proof -
  have "exits_lead start (n, f) (x, g) stages"
    by (rule build_leads [OF assms(1-4) _ assms(6)]) (use assms in \<open>simp_all add: is_exit_def\<close>)
  then show ?thesis using assms(10,11) by (simp add: exits_lead_def)
qed

section \<open>A sample\<close>

text \<open>Two nodes without forwards get a direct and a relayed one.\<close>

definition relay_direct :: ForwardSpec where "relay_direct = sample_spec ''f1'' 80 PathDirect [] None []"

definition relay_forward :: ForwardSpec where "relay_forward = sample_spec ''f2'' 81 PathViaExit ''n2'' (Some (Addr4 0x0A4B0001)) ''l1''"

definition relay_target :: states where
  "relay_target = [(''n1'', sample_ingress_state), (''n2'', sample_exit_state)]"

definition relay_empty :: states where
  "relay_empty = [(''n1'', emptyState ''n1''), (''n2'', emptyState ''n2'')]"

definition relay_half :: states where
  "relay_half = [(''n1'', emptyState ''n1''), (''n2'', sample_exit_state)]"

lemma relay_locations:
  "locations relay_target ''f1'' = [(''n1'', relay_direct)]" "locations relay_target ''f2'' = [(''n1'', relay_forward), (''n2'', relay_forward)]"
  "locations relay_empty i = []"
  by (code_simp, code_simp, simp add: locations_def relay_empty_def emptyState_def last_by_def)

lemma relay_roles: "\<not> is_exit (''n1'', relay_direct)" "\<not> is_exit (''n1'', relay_forward)" "is_exit (''n2'', relay_forward)"
  "is_ingress (''n1'', relay_direct)" "is_ingress (''n1'', relay_forward)" "\<not> is_ingress (''n2'', relay_forward)" by code_simp+

lemma relay_resources:
  "withConservativeResources (emptyState ''n2'') sample_exit_state = sample_exit_state\<lparr>ds_Forwards := []\<rparr>"
  "withConservativeResources (emptyState ''n1'') sample_ingress_state = sample_ingress_state\<lparr>ds_Forwards := []\<rparr>"
  "withConservativeResources (sample_ingress_state\<lparr>ds_Forwards := [relay_direct]\<rparr>) sample_ingress_state = sample_ingress_state\<lparr>ds_Forwards := [relay_direct]\<rparr>"
  by code_simp+

lemma relay_stage_states: "canonicalStageState (sample_exit_state\<lparr>ds_Forwards := [relay_forward]\<rparr>) ''n2'' = sample_exit_state"
  "canonicalStageState (sample_ingress_state\<lparr>ds_Forwards := [relay_direct]\<rparr>) ''n1'' = sample_ingress_state\<lparr>ds_Forwards := [relay_direct]\<rparr>"
  "canonicalStageState (sample_ingress_state\<lparr>ds_Forwards := [relay_direct, relay_forward]\<rparr>) ''n1'' = sample_ingress_state"
  by code_simp+

lemma relay_ids: "fw_ID relay_direct = ''f1''" "fw_ID relay_forward = ''f2''" by code_simp+

lemma relay_phases:
  "prepare relay_target [''f1'', ''f2''] relay_empty = relay_half" "promote relay_empty relay_target [''f1'', ''f2''] relay_half = relay_target"
   by (simp add: prepare_def upsert_all_def relay_locations relay_roles,
      simp add: stage_upsert_def Let_def desired_at_def relay_resources relay_stage_states upsertForward_def relay_target_def relay_empty_def relay_half_def)
    (simp add: promote_def remove_all_def upsert_all_def relay_locations relay_roles,
      simp add: stage_upsert_def Let_def desired_at_def relay_resources relay_stage_states upsertForward_def relay_ids relay_target_def relay_half_def)

lemma relay_changes:
  "changedStates relay_empty relay_half = [(''n2'', sample_exit_state)]" "changedStates relay_half relay_target = [(''n1'', sample_ingress_state)]"
  "changedStates relay_target relay_target = []" "changedForwardIDs relay_empty relay_target = [''f1'', ''f2'']"
  "validateFabricTransitions relay_empty relay_target = None" "validateRoleTransitions relay_empty relay_target = None"
  "cloneStateMap relay_empty = relay_empty" "cloneStateMap relay_half = relay_half" "cloneStateMap relay_target = relay_target"
  "completeStateMap [] relay_target = relay_empty" "completeStateMap relay_target [] = relay_target"
  by code_simp+

definition relay_stages :: "RolloutStage list" where
  "relay_stages = [\<lparr>ro_Wave = RolloutWaveFull, ro_Phase = RolloutPhasePrepare, ro_BakeSeconds = 0, ro_Desired = [(''n2'', sample_exit_state)]\<rparr>,
     \<lparr>ro_Wave = RolloutWaveFull, ro_Phase = RolloutPhasePromote, ro_BakeSeconds = 0, ro_Desired = [(''n1'', sample_ingress_state)]\<rparr>]"

lemma relay_rollout: "BuildRolloutStages ''c1'' noRollout [] relay_target = Inr (relay_stages, [])"
  using sample_states_valid
  by (simp add: BuildRolloutStages_def Let_def relay_changes selectCanary_def EffectiveCanaryPercent_def noRollout_def appendWaveStages_def apply_phase_def
      relay_phases List.map_filter_simps relay_stages_def)

theorem rollout_exit_first_witness:
  "BuildRolloutStages ''c1'' noRollout [] relay_target = Inr (relay_stages, []) \<and> carries (published relay_empty relay_stages 2) ''n1'' relay_forward \<and>
     carries (published relay_empty relay_stages 1) ''n2'' relay_forward"
proof -
  have "relay_forward \<in> set (ds_Forwards sample_ingress_state)" by code_simp
  then have here: "carries (published relay_empty relay_stages (Suc 1)) ''n1'' relay_forward" "\<not> carries relay_empty ''n1'' relay_forward"
    by (auto simp: carries_def published_def relay_stages_def publish_def desired_at_def relay_empty_def emptyState_def)
  have at: "(''n1'', relay_forward) \<in> set (locations relay_target ''f2'')" "(''n2'', relay_forward) \<in> set (locations relay_target ''f2'')"
    by (simp_all add: relay_locations)
  have path: "''n1'' \<noteq> fw_ExitNodeID relay_forward" "fw_PathMode relay_forward = PathViaExit" "''n2'' = fw_ExitNodeID relay_forward" by code_simp+
  have two: "1 < length relay_stages" by (simp add: relay_stages_def)
  have "carries (published relay_empty relay_stages 1) ''n2'' relay_forward"
    by (rule rollout_exit_first [OF relay_rollout relay_changes(10,11) [symmetric] at(1) path(1) at(2) path(2,3) _ two here(1), THEN conjunct1])
      (simp add: here(2))
  then show ?thesis using here(1) relay_rollout unfolding numeral_2_eq_2 One_nat_def by blast
qed

end
