(* ===== verification/Go_Effect.thy ===== *)
theory Go_Effect
  imports Flux_Prelude
begin

text \<open>
  Routines with effects: a routine takes the state of the world and returns a result or an error, and
  the world it leaves behind. \<open>andthen\<close> is the sequence whose first error returns early; \<open>attempt\<close>
  hands the outcome of a call to the caller as a value. Contracts of routines are triples, whose
  rules are collected in \<open>triples\<close> and applied along the text of a routine.
\<close>

section \<open>Routines\<close>

type_synonym ('w, 'e, 'a) routine = "'w \<Rightarrow> ('e + 'a) \<times> 'w"

definition return :: "'a \<Rightarrow> ('w, 'e, 'a) routine" where
  "return x w = (Inr x, w)"

definition throw :: "'e \<Rightarrow> ('w, 'e, 'a) routine" where
  "throw e w = (Inl e, w)"

definition andthen :: "('w, 'e, 'a) routine \<Rightarrow> ('a \<Rightarrow> ('w, 'e, 'b) routine) \<Rightarrow> ('w, 'e, 'b) routine" where
  "andthen m f w = (case m w of (Inl e, w') \<Rightarrow> (Inl e, w') | (Inr x, w') \<Rightarrow> f x w')"

definition attempt :: "('w, 'e, 'a) routine \<Rightarrow> ('w, 'f, 'e + 'a) routine" where
  "attempt m w = (case m w of (r, w') \<Rightarrow> (Inr r, w'))"

text \<open>\<open>if err != nil { return wrap(err) }\<close>\<close>

definition failing :: "('e \<Rightarrow> 'f) \<Rightarrow> ('w, 'e, 'a) routine \<Rightarrow> ('w, 'f, 'a) routine" where
  "failing wrap m w = (case m w of (Inl e, w') \<Rightarrow> (Inl (wrap e), w') | (Inr x, w') \<Rightarrow> (Inr x, w'))"

definition guard :: "bool \<Rightarrow> 'e \<Rightarrow> ('w, 'e, unit) routine" where
  "guard c e = (if c then throw e else return ())"

definition unless_error :: "'e + 'a \<Rightarrow> ('w, 'e, 'a) routine" where
  "unless_error r w = (r, w)"

text \<open>\<open>for _, x := range xs { ... }\<close> over a state \<open>a\<close> of local variables.\<close>

primrec loop :: "('x \<Rightarrow> 'a \<Rightarrow> ('w, 'e, 'a) routine) \<Rightarrow> 'x list \<Rightarrow> 'a \<Rightarrow> ('w, 'e, 'a) routine" where
  "loop f [] a = return a"
| "loop f (x # xs) a = andthen (f x a) (loop f xs)"

section \<open>Contracts\<close>

text \<open>\<open>valid P m Q E\<close>: from a world satisfying \<open>P\<close>, a result of \<open>m\<close> satisfies \<open>Q\<close> in the world it leaves,
  and an error satisfies \<open>E\<close> there.\<close>

definition valid :: "('w \<Rightarrow> bool) \<Rightarrow> ('w, 'e, 'a) routine \<Rightarrow> ('a \<Rightarrow> 'w \<Rightarrow> bool) \<Rightarrow> ('e \<Rightarrow> 'w \<Rightarrow> bool) \<Rightarrow> bool" where
  "valid P m Q E \<longleftrightarrow> (\<forall>w. P w \<longrightarrow> (case m w of (Inl e, w') \<Rightarrow> E e w' | (Inr x, w') \<Rightarrow> Q x w'))"

named_theorems triples \<open>rules for contracts of routines\<close>

lemma validI: "(\<And>w. P w \<Longrightarrow> (case m w of (Inl e, w') \<Rightarrow> E e w' | (Inr x, w') \<Rightarrow> Q x w')) \<Longrightarrow> valid P m Q E"
  by (simp add: valid_def)

lemma valid_result: "valid P m Q E \<Longrightarrow> P w \<Longrightarrow> m w = (Inr x, w') \<Longrightarrow> Q x w'"
  by (auto simp: valid_def)

lemma valid_error: "valid P m Q E \<Longrightarrow> P w \<Longrightarrow> m w = (Inl e, w') \<Longrightarrow> E e w'"
  by (auto simp: valid_def)

lemma valid_weaken:
  "valid P' m Q' E' \<Longrightarrow> (\<And>w. P w \<Longrightarrow> P' w) \<Longrightarrow> (\<And>x w. Q' x w \<Longrightarrow> Q x w) \<Longrightarrow> (\<And>e w. E' e w \<Longrightarrow> E e w) \<Longrightarrow> valid P m Q E"
  unfolding valid_def by (fastforce split: prod.splits sum.splits)

lemma valid_return [triples]: "(\<And>w. P w \<Longrightarrow> Q x w) \<Longrightarrow> valid P (return x) Q E"
  by (simp add: valid_def return_def)

lemma valid_throw [triples]: "(\<And>w. P w \<Longrightarrow> E e w) \<Longrightarrow> valid P (throw e) Q E"
  by (simp add: valid_def throw_def)

lemma valid_andthen [triples]: "valid P m R E \<Longrightarrow> (\<And>x. valid (R x) (f x) Q E) \<Longrightarrow> valid P (andthen m f) Q E"
  unfolding valid_def andthen_def by (fastforce split: prod.splits sum.splits)

lemma valid_attempt [triples]:
  assumes "valid P m (\<lambda>x. Q (Inr x)) (\<lambda>e. Q (Inl e))"
  shows "valid P (attempt m) Q E"
proof (rule validI)
  fix w assume "P w"
  then show "case attempt m w of (Inl e, w') \<Rightarrow> E e w' | (Inr x, w') \<Rightarrow> Q x w'"
    using assms by (cases "m w"; cases "fst (m w)") (auto simp: valid_def attempt_def)
qed

lemma valid_failing [triples]: "valid P m Q (\<lambda>e. E (wrap e)) \<Longrightarrow> valid P (failing wrap m) Q E"
  by (auto simp: valid_def failing_def split: prod.splits sum.splits)

lemma valid_guard [triples]:
  "(\<And>w. P w \<Longrightarrow> c \<Longrightarrow> E e w) \<Longrightarrow> (\<And>w. P w \<Longrightarrow> \<not> c \<Longrightarrow> Q () w) \<Longrightarrow> valid P (guard c e) Q E"
  by (simp add: valid_def guard_def throw_def return_def)

lemma valid_unless_error [triples]:
  "(\<And>w e. P w \<Longrightarrow> r = Inl e \<Longrightarrow> E e w) \<Longrightarrow> (\<And>w x. P w \<Longrightarrow> r = Inr x \<Longrightarrow> Q x w) \<Longrightarrow> valid P (unless_error r) Q E"
  by (cases r) (simp_all add: valid_def unless_error_def)

lemma valid_if [triples]: "(c \<Longrightarrow> valid P m Q E) \<Longrightarrow> (\<not> c \<Longrightarrow> valid P n Q E) \<Longrightarrow> valid P (if c then m else n) Q E"
  by simp

lemma valid_Let [triples]: "(\<And>y. y = x \<Longrightarrow> valid P (f y) Q E) \<Longrightarrow> valid P (Let x f) Q E"
  by simp

lemma valid_option [triples]:
  "(x = None \<Longrightarrow> valid P m Q E) \<Longrightarrow> (\<And>y. x = Some y \<Longrightarrow> valid P (f y) Q E) \<Longrightarrow>
   valid P (case x of None \<Rightarrow> m | Some y \<Rightarrow> f y) Q E"
  by (cases x) simp_all

lemma valid_sum [triples]:
  "(\<And>e. x = Inl e \<Longrightarrow> valid P (m e) Q E) \<Longrightarrow> (\<And>y. x = Inr y \<Longrightarrow> valid P (f y) Q E) \<Longrightarrow>
   valid P (case x of Inl e \<Rightarrow> m e | Inr y \<Rightarrow> f y) Q E"
  by (cases x) simp_all

lemma valid_prod [triples]: "(\<And>a b. x = (a, b) \<Longrightarrow> valid P (f a b) Q E) \<Longrightarrow> valid P (case x of (a, b) \<Rightarrow> f a b) Q E"
  by (cases x) simp

lemma valid_loop:
  assumes "\<And>x a. x \<in> set xs \<Longrightarrow> valid (J a) (f x a) J E"
  shows "valid (J a) (loop f xs a) J E"
  using assms
proof (induction xs arbitrary: a)
  case (Cons x xs)
  have "valid (J b) (loop f xs b) J E" for b by (rule Cons.IH) (simp add: Cons.prems)
  moreover have "valid (J a) (f x a) J E" by (rule Cons.prems) simp
  ultimately show ?case unfolding loop.simps by (rule valid_andthen [rotated])
qed (simp add: valid_return)

text \<open>A precondition that does not mention the world is a fact about the routine.\<close>

lemma valid_fact: "(\<And>w. P w \<Longrightarrow> F) \<Longrightarrow> (F \<Longrightarrow> valid P m Q E) \<Longrightarrow> valid P m Q E"
  by (auto simp: valid_def)

section \<open>Outcomes\<close>

lemma andthen_Inr_iff:
  "andthen m f w = (Inr y, w') \<longleftrightarrow> (\<exists>x v. m w = (Inr x, v) \<and> f x v = (Inr y, w'))"
  by (auto simp: andthen_def split: prod.split sum.split)

lemma andthen_Inl_iff:
  "andthen m f w = (Inl e, w') \<longleftrightarrow> m w = (Inl e, w') \<or> (\<exists>x v. m w = (Inr x, v) \<and> f x v = (Inl e, w'))"
  by (auto simp: andthen_def split: prod.split sum.split)

lemma andthen_eq_iff:
  "andthen m f w = (r, w') \<longleftrightarrow> (\<exists>e. m w = (Inl e, w') \<and> r = Inl e) \<or> (\<exists>x v. m w = (Inr x, v) \<and> f x v = (r, w'))"
  by (auto simp: andthen_def split: prod.split sum.split)

lemma failing_same [simp]: "failing (\<lambda>e. e) m = m"
  by (rule ext) (simp add: failing_def split: prod.split sum.split)

section \<open>What a routine leaves alone\<close>

definition steady :: "('w \<Rightarrow> 'v) \<Rightarrow> ('w, 'e, 'a) routine \<Rightarrow> bool" where
  "steady f m \<longleftrightarrow> (\<forall>w. f (snd (m w)) = f w)"

named_theorems steadies \<open>rules for what a routine leaves alone\<close>

lemma steadyD: "steady f m \<Longrightarrow> m w = (r, w') \<Longrightarrow> f w' = f w"
  unfolding steady_def by (metis snd_conv)

lemma steady_return [steadies]: "steady f (return x)"
  by (simp add: steady_def return_def)

lemma steady_throw [steadies]: "steady f (throw e)"
  by (simp add: steady_def throw_def)

lemma steady_andthen [steadies]: "steady f m \<Longrightarrow> (\<And>x. steady f (g x)) \<Longrightarrow> steady f (andthen m g)"
  unfolding steady_def andthen_def by (simp split: prod.split sum.split) (metis snd_conv)

lemma steady_attempt [steadies]: "steady f m \<Longrightarrow> steady f (attempt m)"
  unfolding steady_def attempt_def by (simp split: prod.split) (metis snd_conv)

lemma steady_failing [steadies]: "steady f m \<Longrightarrow> steady f (failing wrap m)"
  unfolding steady_def failing_def by (simp split: prod.split sum.split) (metis snd_conv)

lemma steady_guard [steadies]: "steady f (guard c e)"
  by (simp add: guard_def steady_return steady_throw)

lemma steady_unless_error [steadies]: "steady f (unless_error r)"
  by (simp add: steady_def unless_error_def)

lemma steady_if [steadies]: "(c \<Longrightarrow> steady f m) \<Longrightarrow> (\<not> c \<Longrightarrow> steady f n) \<Longrightarrow> steady f (if c then m else n)"
  by simp

lemma steady_Let [steadies]: "(\<And>y. steady f (g y)) \<Longrightarrow> steady f (Let x g)"
  by simp

lemma steady_option [steadies]:
  "(x = None \<Longrightarrow> steady f m) \<Longrightarrow> (\<And>y. x = Some y \<Longrightarrow> steady f (g y)) \<Longrightarrow> steady f (case x of None \<Rightarrow> m | Some y \<Rightarrow> g y)"
  by (cases x) simp_all

lemma steady_sum [steadies]:
  "(\<And>e. x = Inl e \<Longrightarrow> steady f (m e)) \<Longrightarrow> (\<And>y. x = Inr y \<Longrightarrow> steady f (g y)) \<Longrightarrow>
   steady f (case x of Inl e \<Rightarrow> m e | Inr y \<Rightarrow> g y)"
  by (cases x) simp_all

lemma steady_prod [steadies]: "(\<And>a b. x = (a, b) \<Longrightarrow> steady f (g a b)) \<Longrightarrow> steady f (case x of (a, b) \<Rightarrow> g a b)"
  by (cases x) simp

lemma valid_steady: "steady f m \<Longrightarrow> valid (\<lambda>w. P (f w)) m (\<lambda>x w. P (f w)) (\<lambda>e w. P (f w))"
  unfolding valid_def by (auto dest: steadyD split: prod.split sum.split)

lemma valid_frame:
  "steady f m \<Longrightarrow> (\<And>w. P w \<Longrightarrow> I (f w)) \<Longrightarrow> (\<And>x w. I (f w) \<Longrightarrow> Q x w) \<Longrightarrow> (\<And>e w. I (f w) \<Longrightarrow> E e w) \<Longrightarrow> valid P m Q E"
  by (rule valid_weaken [OF valid_steady [of f m I]]) auto

text \<open>A sequence whose middle assertion does not depend on the value passed on.\<close>

lemma valid_then: "valid P m (\<lambda>_. I) E \<Longrightarrow> (\<And>x. valid I (f x) Q E) \<Longrightarrow> valid P (andthen m f) Q E"
  by (rule valid_andthen [where R = "\<lambda>_. I"])

text \<open>A computed value, whose error returns.\<close>

lemma valid_computed:
  "(\<And>e w. P w \<Longrightarrow> x = Inl e \<Longrightarrow> E (wrap e) w) \<Longrightarrow> (\<And>y. x = Inr y \<Longrightarrow> valid P (f y) Q E) \<Longrightarrow>
   valid P (andthen (failing wrap (unless_error x)) f) Q E"
  by (cases x) (auto simp: valid_def andthen_def failing_def unless_error_def)

lemma steady_loop [steadies]: "(\<And>x a. steady f (g x a)) \<Longrightarrow> steady f (loop g xs a)"
  by (induction xs arbitrary: a) (simp_all add: steady_return steady_andthen)

section \<open>What a routine keeps\<close>

definition keeps :: "('w \<Rightarrow> bool) \<Rightarrow> ('w, 'e, 'a) routine \<Rightarrow> bool" where
  "keeps J m \<longleftrightarrow> (\<forall>w. J w \<longrightarrow> J (snd (m w)))"

named_theorems keepings \<open>rules for what a routine keeps\<close>

lemma keepsI: "(\<And>w. J w \<Longrightarrow> J (snd (m w))) \<Longrightarrow> keeps J m"
  by (simp add: keeps_def)

lemma keepsD: "keeps J m \<Longrightarrow> J w \<Longrightarrow> m w = (r, w') \<Longrightarrow> J w'"
  unfolding keeps_def by (metis snd_conv)

lemma steady_keeps: "steady f m \<Longrightarrow> keeps (\<lambda>w. P (f w)) m"
  by (simp add: steady_def keeps_def)

lemma steady_iff_keeps: "steady f m \<longleftrightarrow> (\<forall>v. keeps (\<lambda>w. f w = v) m)"
  by (simp add: steady_def keeps_def)

lemma keeps_valid: "keeps J m \<longleftrightarrow> valid J m (\<lambda>_. J) (\<lambda>_. J)"
  unfolding keeps_def valid_def by (fastforce split: prod.split sum.split)

lemma keeps_return [keepings]: "keeps J (return x)"
  by (simp add: keeps_def return_def)

lemma keeps_throw [keepings]: "keeps J (throw e)"
  by (simp add: keeps_def throw_def)

lemma keeps_andthen [keepings]: "keeps J m \<Longrightarrow> (\<And>x. keeps J (f x)) \<Longrightarrow> keeps J (andthen m f)"
  unfolding keeps_valid by (rule valid_andthen)

lemma keeps_failing [keepings]: "keeps J m \<Longrightarrow> keeps J (failing wrap m)"
  unfolding keeps_valid by (rule valid_failing)

lemma keeps_attempt [keepings]: "keeps J m \<Longrightarrow> keeps J (attempt m)"
  unfolding keeps_valid by (rule valid_attempt)

lemma keeps_guard [keepings]: "keeps J (guard c e)"
  by (simp add: guard_def keeps_return keeps_throw)

lemma keeps_unless_error [keepings]: "keeps J (unless_error r)"
  by (simp add: keeps_def unless_error_def)

lemma keeps_if [keepings]: "(c \<Longrightarrow> keeps J m) \<Longrightarrow> (\<not> c \<Longrightarrow> keeps J n) \<Longrightarrow> keeps J (if c then m else n)"
  by simp

lemma keeps_Let [keepings]: "(\<And>y. keeps J (f y)) \<Longrightarrow> keeps J (Let x f)"
  by simp

lemma keeps_option [keepings]:
  "(x = None \<Longrightarrow> keeps J m) \<Longrightarrow> (\<And>y. x = Some y \<Longrightarrow> keeps J (f y)) \<Longrightarrow> keeps J (case x of None \<Rightarrow> m | Some y \<Rightarrow> f y)"
  by (cases x) simp_all

lemma keeps_sum [keepings]:
  "(\<And>e. x = Inl e \<Longrightarrow> keeps J (m e)) \<Longrightarrow> (\<And>y. x = Inr y \<Longrightarrow> keeps J (f y)) \<Longrightarrow>
   keeps J (case x of Inl e \<Rightarrow> m e | Inr y \<Rightarrow> f y)"
  by (cases x) simp_all

lemma keeps_prod [keepings]: "(\<And>a b. x = (a, b) \<Longrightarrow> keeps J (f a b)) \<Longrightarrow> keeps J (case x of (a, b) \<Rightarrow> f a b)"
  by (cases x) simp

lemma keeps_loop [keepings]: "(\<And>x a. keeps J (g x a)) \<Longrightarrow> keeps J (loop g xs a)"
  by (induction xs arbitrary: a) (simp_all add: keeps_return keeps_andthen)

end
