(* ===== verification/Fabric_Compiler.thy ===== *)
theory Fabric_Compiler
  imports Spec_Canonical
begin

unbundle bit_operations_syntax

text \<open>
  \<open>internal/dataplane/fabric/compiler.go\<close>: from an accepted desired state to the links, routes and
  policy rules of the node's fabric. The maps \<open>routes\<close> and \<open>rules\<close> are association lists in the order
  of insertion and \<open>allowed\<close> maps a link to the list of its prefixes; each is sorted by a key that
  identifies its elements before it leaves the function, so the order of \<open>range\<close> does not matter.
\<close>

section \<open>Model\<close>

definition fabric_CompilerABI :: string where "fabric_CompilerABI = ''fabric-phase4-v1''"
definition RoutingMarkPrefix :: u32 where "RoutingMarkPrefix = 0x47000000"
definition RoutingMarkMask :: u32 where "RoutingMarkMask = 0xffff0000"
definition RouteTableBase :: u32 where "RouteTableBase = 47000"
definition RulePriorityBase :: u32 where "RulePriorityBase = 20000"
definition RouteProtocol :: u8 where "RouteProtocol = 186"
definition MainRouteTable :: u32 where "MainRouteTable = 254"

text \<open>\<open>checksumPattern\<close>: sixty-four lowercase hexadecimal digits.\<close>

definition checksumPattern :: "string \<Rightarrow> bool" where
  "checksumPattern s \<longleftrightarrow> length s = 64 \<and> list_all (\<lambda>c. is_digit c \<or> 97 \<le> code c \<and> code c \<le> 102) s"

record LinkPlan =
  lp_ID :: string
  lp_PeerNodeID :: string
  lp_Transport :: FabricTransport
  lp_Interface :: string
  lp_LocalAddress :: Prefix
  lp_PeerAddress :: Addr
  lp_MTU :: u16
  lp_RoutingID :: u16
  lp_WireGuard :: "WireGuardPeerSpec option"
  lp_GRE :: "GRESpec option"
  lp_AllowedIPs :: "Prefix list"

record RoutePlan =
  rp_Destination :: Prefix
  rp_Interface :: string
  rp_Gateway :: "Addr option"
  rp_Table :: u32
  rp_Protocol :: u8

record RulePlan =
  ru_Mark :: u32
  ru_Mask :: u32
  ru_Table :: u32
  ru_Priority :: u32

record FabricProgram =
  fp_Active :: bool
  fp_Generation :: u64
  fp_DesiredChecksum :: string
  fp_Checksum :: string
  fp_Links :: "LinkPlan list"
  fp_Routes :: "RoutePlan list"
  fp_Rules :: "RulePlan list"

text \<open>The zero value of the struct, which the reconciler holds where nothing was compiled.\<close>

definition no_FabricProgram :: FabricProgram where
  "no_FabricProgram = \<lparr>fp_Active = False, fp_Generation = 0, fp_DesiredChecksum = [], fp_Checksum = [], fp_Links = [],
     fp_Routes = [], fp_Rules = []\<rparr>"

datatype dataplane_error = CompileInvalid "string list" | CompileError string | CompilePanic string

definition RoutingMark :: "u16 \<Rightarrow> u32" where
  "RoutingMark routingID = RoutingMarkPrefix OR ucast routingID"

definition RouteTable :: "u16 \<Rightarrow> u32" where
  "RouteTable routingID = RouteTableBase + ucast routingID"

definition RulePriority :: "u16 \<Rightarrow> u32" where
  "RulePriority routingID = RulePriorityBase + ucast routingID"

definition fabric_ProgramChecksum :: "string \<Rightarrow> string" where
  "fabric_ProgramChecksum desiredChecksum = hex_EncodeToString (Sum256 (fabric_CompilerABI @ [CHR 0x0A] @ desiredChecksum))"

definition hostPrefix :: "Addr \<Rightarrow> Prefix" where
  "hostPrefix address = PrefixFrom (Unmap address) 32"

definition pad10 :: "string \<Rightarrow> string" where
  "pad10 s = replicate (10 - length s) CHR ''0'' @ s"

definition routeKey :: "RoutePlan \<Rightarrow> string" where
  "routeKey route = pad10 (show_nat (unat (rp_Table route))) @ ''|'' @ Prefix_String (rp_Destination route) @ ''|'' @
     rp_Interface route @ ''|'' @ (case rp_Gateway route of None \<Rightarrow> [] | Some g \<Rightarrow> Addr_String g)"

definition link_plan :: "FabricLinkSpec \<Rightarrow> LinkPlan" where
  "link_plan link = \<lparr>lp_ID = fl_ID link, lp_PeerNodeID = fl_PeerNodeID link, lp_Transport = fl_Transport link,
     lp_Interface = fl_Interface link, lp_LocalAddress = fl_LocalAddress link, lp_PeerAddress = fl_PeerAddress link,
     lp_MTU = fl_MTU link, lp_RoutingID = fl_RoutingID link, lp_WireGuard = fl_WireGuard link, lp_GRE = fl_GRE link,
     lp_AllowedIPs = []\<rparr>"

text \<open>The maps built before the loop over the forwards: the position of a link, and its own prefix.\<close>

definition link_positions :: "FabricLinkSpec list \<Rightarrow> string \<rightharpoonup> nat" where
  "link_positions ls = fold (\<lambda>(i, l) m. m(fl_ID l \<mapsto> i)) (enumerate 0 ls) Map.empty"

definition initial_allowed :: "FabricLinkSpec list \<Rightarrow> string \<rightharpoonup> Prefix list" where
  "initial_allowed ls = fold (\<lambda>l m. m(fl_ID l \<mapsto> [hostPrefix (fl_PeerAddress l)])) ls Map.empty"

record fabric_books =
  fb_allowed :: "string \<rightharpoonup> Prefix list"
  fb_routes :: "(string \<times> RoutePlan) list"
  fb_rules :: "(u16 \<times> RulePlan) list"

definition vip_route :: "LinkPlan \<Rightarrow> Addr \<Rightarrow> RoutePlan" where
  "vip_route link vip = \<lparr>rp_Destination = hostPrefix vip, rp_Interface = lp_Interface link, rp_Gateway = Some (lp_PeerAddress link),
     rp_Table = MainRouteTable, rp_Protocol = RouteProtocol\<rparr>"

definition peer_route :: "LinkPlan \<Rightarrow> RoutePlan" where
  "peer_route link = \<lparr>rp_Destination = hostPrefix (lp_PeerAddress link), rp_Interface = lp_Interface link, rp_Gateway = None,
     rp_Table = RouteTable (lp_RoutingID link), rp_Protocol = RouteProtocol\<rparr>"

definition link_rule :: "LinkPlan \<Rightarrow> RulePlan" where
  "link_rule link = \<lparr>ru_Mark = RoutingMark (lp_RoutingID link), ru_Mask = NOT 0, ru_Table = RouteTable (lp_RoutingID link),
     ru_Priority = RulePriority (lp_RoutingID link)\<rparr>"

text \<open>A round of the loop over the forwards. A missing map entry reads as position 0; an index or a
  nil pointer the code would fault on is the error \<open>CompilePanic\<close>.\<close>

definition fabric_forward_step :: "DesiredState \<Rightarrow> LinkPlan list \<Rightarrow> (string \<rightharpoonup> nat) \<Rightarrow>
    nat \<Rightarrow> ForwardSpec \<Rightarrow> fabric_books \<Rightarrow> dataplane_error + fabric_books" where
  "fabric_forward_step canonical plans positions n forward b =
     (if fw_PathMode forward \<noteq> PathViaExit then Inr b
      else let i = (case positions (fw_FabricLinkID forward) of None \<Rightarrow> 0 | Some i \<Rightarrow> i) in
        if length plans \<le> i then Inl (CompilePanic ''index out of range'')
        else let link = plans ! i in
          if ds_NodeID canonical = fw_IngressNodeID forward then
            (case fw_ServiceVIP forward of None \<Rightarrow> Inl (CompilePanic ''nil pointer dereference'')
             | Some vip \<Rightarrow>
               (case fb_allowed b (lp_ID link) of None \<Rightarrow> Inl (CompilePanic ''assignment to entry in nil map'')
                | Some ps \<Rightarrow> let route = vip_route link vip in
                    Inr (b\<lparr>fb_allowed := (fb_allowed b)(lp_ID link \<mapsto> List.insert (hostPrefix vip) ps),
                           fb_routes := AList.update (routeKey route) route (fb_routes b)\<rparr>)))
          else let route = peer_route link in
            Inr (b\<lparr>fb_routes := AList.update (routeKey route) route (fb_routes b),
                   fb_rules := AList.update (lp_RoutingID link) (link_rule link) (fb_rules b)\<rparr>))"

definition route_less :: "RoutePlan \<Rightarrow> RoutePlan \<Rightarrow> bool" where
  "route_less r s \<longleftrightarrow> routeKey r < routeKey s"

definition rule_less :: "RulePlan \<Rightarrow> RulePlan \<Rightarrow> bool" where
  "rule_less r s \<longleftrightarrow> ru_Priority r < ru_Priority s"

definition with_allowed :: "(string \<rightharpoonup> Prefix list) \<Rightarrow> LinkPlan \<Rightarrow> LinkPlan" where
  "with_allowed allowed link = link\<lparr>lp_AllowedIPs := sort_less prefix_string_less
     (case allowed (lp_ID link) of None \<Rightarrow> [] | Some ps \<Rightarrow> ps)\<rparr>"

text \<open>\<open>marshal\<close> and \<open>marshalPlan\<close> stand for \<open>json.Marshal\<close> of a desired state and of the plan.\<close>

definition fabric_Compile :: "(DesiredState \<Rightarrow> string option) \<Rightarrow> (LinkPlan list \<Rightarrow> RoutePlan list \<Rightarrow> RulePlan list \<Rightarrow> string option) \<Rightarrow>
    DesiredState \<Rightarrow> string \<Rightarrow> dataplane_error + FabricProgram" where
  "fabric_Compile marshal marshalPlan state desiredChecksum =
     (if Validate state \<noteq> [] then Inl (CompileInvalid (Validate state))
      else if \<not> checksumPattern desiredChecksum then Inl (CompileError ''checksum must be a lowercase SHA-256 value'')
      else case Checksum marshal state of None \<Rightarrow> Inl (CompileError ''calculate desired checksum'')
      | Some calculated \<Rightarrow>
        if calculated \<noteq> desiredChecksum then Inl (CompileError ''checksum does not match desired state'')
        else let canonical = Canonical state; plans = map link_plan (ds_FabricLinks canonical) in
          case range_check (fabric_forward_step canonical plans (link_positions (ds_FabricLinks canonical))) 0
              \<lparr>fb_allowed = initial_allowed (ds_FabricLinks canonical), fb_routes = [], fb_rules = []\<rparr> (ds_Forwards canonical) of
            Inl e \<Rightarrow> Inl e
          | Inr b \<Rightarrow>
              let links = map (with_allowed (fb_allowed b)) plans;
                  routes = sort_less route_less (map snd (fb_routes b));
                  rules = sort_less rule_less (map snd (fb_rules b))
              in case marshalPlan links routes rules of None \<Rightarrow> Inl (CompileError ''encode fabric program'')
                | Some material \<Rightarrow>
                    Inr \<lparr>fp_Active = ds_FabricLinks canonical \<noteq> [], fp_Generation = ds_Generation canonical,
                         fp_DesiredChecksum = desiredChecksum,
                         fp_Checksum = hex_EncodeToString (Sum256 (fabric_CompilerABI @ [CHR 0x0A] @ material)),
                         fp_Links = links, fp_Routes = routes, fp_Rules = rules\<rparr>)"

section \<open>Digests\<close>

text \<open>A digest has thirty-two bytes, so its hexadecimal form is what \<open>checksumPattern\<close> asks for.\<close>

lemma sha_round_length: "length st = 8 \<Longrightarrow> length (sha_round kw st) = 8"
  by (auto simp: sha_round_def Let_def split: list.splits)

lemma sha_fold_length: "length st = 8 \<Longrightarrow> length (fold sha_round kws st) = 8"
  by (induction kws arbitrary: st) (auto intro: sha_round_length)

lemma sha_blocks_length: "length h = 8 \<Longrightarrow> length (fold (\<lambda>m h. sha_block h m) ms h) = 8"
  by (induction ms arbitrary: h) (auto simp: sha_block_def sha_fold_length)

lemma Sum256_length: "length (Sum256 s) = 32"
proof -
  have len: "length (fold (\<lambda>m h. sha_block h m) ms sha_init) = 8" for ms
    by (rule sha_blocks_length) (simp add: sha_init_def)
  have "length (concat (map word_bytes ws)) = 4 * length ws" for ws by (induction ws) (simp_all add: word_bytes_def)
  then show ?thesis unfolding Sum256_def by (simp add: len)
qed

lemma Sum256_bytes: "b \<in> set (Sum256 s) \<Longrightarrow> b < 256"
proof -
  assume "b \<in> set (Sum256 s)"
  then obtain w where "b \<in> set (word_bytes w)" unfolding Sum256_def by auto
  then obtain k where "b = unat (drop_bit k w AND 255 :: u32)" unfolding word_bytes_def set_map by blast
  then show ?thesis using octet_le [of k w] by linarith
qed

lemma hex_digit_pattern: "n < 16 \<Longrightarrow> is_digit (hex_digit n) \<or> 97 \<le> code (hex_digit n) \<and> code (hex_digit n) \<le> 102"
  by (auto simp: hex_digit_def is_digit_def code_def)

lemma digest_pattern: "checksumPattern (hex_EncodeToString (Sum256 s))"
proof -
  have "length (hex_EncodeToString bs) = 2 * length bs" for bs by (induction bs) (simp_all add: hex_EncodeToString_def)
  moreover have "is_digit c \<or> 97 \<le> code c \<and> code c \<le> 102" if c: "c \<in> set (hex_EncodeToString (Sum256 s))" for c
  proof -
    obtain b where "b \<in> set (Sum256 s)" "c = hex_digit (b div 16) \<or> c = hex_digit (b mod 16)"
      using c by (auto simp: hex_EncodeToString_def)
    moreover have "b div 16 < 16" using Sum256_bytes [OF \<open>b \<in> set (Sum256 s)\<close>] by simp
    ultimately show ?thesis using hex_digit_pattern [of "b div 16"] hex_digit_pattern [of "b mod 16"] by auto
  qed
  ultimately show ?thesis by (simp add: checksumPattern_def Sum256_length list_all_iff)
qed

lemma Checksum_pattern: "Checksum marshal s = Some c \<Longrightarrow> checksumPattern c"
  by (auto simp: Checksum_def digest_pattern split: option.splits)

section \<open>Keys identify what is stored under them\<close>

lemma hostPrefix_4: "Unmap a = Addr4 w \<Longrightarrow> hostPrefix a = Prefix (Addr4 w) (int 32)"
  by (simp add: hostPrefix_def PrefixFrom_def)

lemma string4_no_bar: "CHR ''|'' \<notin> set (string4 w)"
  using show_nat_digits [of "CHR ''|''"] by (auto simp: string4_def octet4_def)

definition plain_route :: "RoutePlan \<Rightarrow> bool" where
  "plain_route r \<longleftrightarrow> (\<exists>w. rp_Destination r = Prefix (Addr4 w) (int 32)) \<and> CHR ''|'' \<notin> set (rp_Interface r) \<and>
     (\<forall>g. rp_Gateway r = Some g \<longrightarrow> Is4 g) \<and> rp_Protocol r = RouteProtocol"

lemma pad10_inject: "pad10 (show_nat m) = pad10 (show_nat n) \<Longrightarrow> m = n"
proof -
  have "read_nat (replicate k CHR ''0'' @ s) = read_nat s" for k s by (induction k) (simp_all add: read_nat_def)
  then show "pad10 (show_nat m) = pad10 (show_nat n) \<Longrightarrow> m = n" unfolding pad10_def by (metis read_show_nat)
qed

lemma gateway_text:
  assumes "\<forall>g. a = Some g \<longrightarrow> Is4 g" and "\<forall>g. b = Some g \<longrightarrow> Is4 g"
    and "(case a of None \<Rightarrow> [] | Some g \<Rightarrow> Addr_String g) = (case b of None \<Rightarrow> [] | Some g \<Rightarrow> Addr_String g)"
  shows "a = b"
proof -
  have "string4 w \<noteq> []" for w by (simp add: string4_def)
  then have ne: "Is4 g \<Longrightarrow> Addr_String g \<noteq> []" for g by (cases g) auto
  have inj: "Is4 g \<Longrightarrow> Is4 h \<Longrightarrow> Addr_String g = Addr_String h \<Longrightarrow> g = h" for g h
    unfolding Is4_iff using Addr_String_inject by blast
  show ?thesis
  proof (cases a)
    case None
    then show ?thesis using assms(2,3) ne [of "the b"] by (cases b) (auto simp del: Addr_String.simps)
  next
    case (Some g)
    then have "Is4 g" using assms(1) by blast
    then show ?thesis using Some assms(2,3) ne [of g] inj [of g] by (cases b) (simp_all del: Addr_String.simps)
  qed
qed

lemma routeKey_inject:
  assumes "plain_route r" and "plain_route s" and "routeKey r = routeKey s"
  shows "r = s"
proof -
  obtain v w where d: "rp_Destination r = Prefix (Addr4 v) (int 32)" "rp_Destination s = Prefix (Addr4 w) (int 32)"
    and i: "CHR ''|'' \<notin> set (rp_Interface r)" "CHR ''|'' \<notin> set (rp_Interface s)"
    using assms by (auto simp: plain_route_def)
  let ?t = "\<lambda>r. pad10 (show_nat (unat (rp_Table r)))" and ?d = "\<lambda>r. Prefix_String (rp_Destination r)"
  let ?g = "\<lambda>r. case rp_Gateway r of None \<Rightarrow> [] | Some g \<Rightarrow> Addr_String g"
  have "CHR ''|'' \<notin> set (show_nat n)" for n using show_nat_digits [of "CHR ''|''" n] by auto
  then have t: "CHR ''|'' \<notin> set (?t r)" "CHR ''|'' \<notin> set (?t s)" by (auto simp: pad10_def)
  have "CHR ''|'' \<notin> set (Prefix_String (Prefix (Addr4 w) (int 32)))" for w
    using string4_no_bar \<open>\<And>n. CHR ''|'' \<notin> set (show_nat n)\<close> by (simp add: Prefix_String_def Prefix_IsValid_def show_int_def)
  then have p: "CHR ''|'' \<notin> set (?d r)" "CHR ''|'' \<notin> set (?d s)" unfolding d by blast+
  have 1: "?t r = ?t s \<and> ?d r @ CHR ''|'' # rp_Interface r @ CHR ''|'' # ?g r = ?d s @ CHR ''|'' # rp_Interface s @ CHR ''|'' # ?g s"
    using assms(3) t by (intro sep_inject [of _ "CHR ''|''"]) (simp_all add: routeKey_def)
  note 2 = sep_inject [OF conjunct2 [OF 1] p]
  note 3 = sep_inject [OF conjunct2 [OF 2] i]
  have "rp_Table r = rp_Table s" using pad10_inject 1 by (simp add: word_unat_eq_iff)
  moreover have "rp_Destination r = rp_Destination s"
    using 2 prefix_string_inject [of 32 32 v w] unfolding d by simp
  moreover have "rp_Gateway r = rp_Gateway s"
    using assms(1,2) 3 by (intro gateway_text) (simp_all add: plain_route_def)
  moreover have "rp_Protocol r = rp_Protocol s" using assms by (simp add: plain_route_def)
  ultimately show ?thesis using 3 by (intro RoutePlan.equality) simp_all
qed

section \<open>The loop over the forwards\<close>

text \<open>The service addresses reached over a link from this node as ingress, and the links over which
  this node is the exit of some forward.\<close>

definition tunnelled :: "DesiredState \<Rightarrow> ForwardSpec list \<Rightarrow> (FabricLinkSpec \<times> Addr) set" where
  "tunnelled c fs = {(l, v). \<exists>f\<in>set fs. fw_PathMode f = PathViaExit \<and> ds_NodeID c = fw_IngressNodeID f \<and>
     link_map (ds_FabricLinks c) (fw_FabricLinkID f) = Some l \<and> fw_ServiceVIP f = Some v}"

definition terminated :: "DesiredState \<Rightarrow> ForwardSpec list \<Rightarrow> FabricLinkSpec set" where
  "terminated c fs = {l. \<exists>f\<in>set fs. fw_PathMode f = PathViaExit \<and> ds_NodeID c \<noteq> fw_IngressNodeID f \<and>
     link_map (ds_FabricLinks c) (fw_FabricLinkID f) = Some l}"

lemma tunnelled_snoc:
  "tunnelled c (fs @ [f]) = tunnelled c fs \<union> tunnelled c [f]"
  "terminated c (fs @ [f]) = terminated c fs \<union> terminated c [f]"
  by (auto simp: tunnelled_def terminated_def)

definition fabric_routes :: "DesiredState \<Rightarrow> ForwardSpec list \<Rightarrow> RoutePlan set" where
  "fabric_routes c fs = (\<lambda>(l, v). vip_route (link_plan l) v) ` tunnelled c fs \<union> (\<lambda>l. peer_route (link_plan l)) ` terminated c fs"

definition fabric_inv :: "DesiredState \<Rightarrow> ForwardSpec list \<Rightarrow> fabric_books \<Rightarrow> bool" where
  "fabric_inv c fs b \<longleftrightarrow>
     (\<forall>l\<in>set (ds_FabricLinks c). \<exists>ps. fb_allowed b (fl_ID l) = Some ps \<and> distinct ps \<and>
        set ps = insert (hostPrefix (fl_PeerAddress l)) {hostPrefix v | v. (l, v) \<in> tunnelled c fs}) \<and>
     distinct (map fst (fb_routes b)) \<and> set (fb_routes b) = (\<lambda>r. (routeKey r, r)) ` fabric_routes c fs \<and>
     distinct (map fst (fb_rules b)) \<and>
     set (fb_rules b) = (\<lambda>l. (fl_RoutingID l, link_rule (link_plan l))) ` terminated c fs \<and>
     (\<forall>r\<in>fabric_routes c fs. plain_route r)"

definition fabric_forward_ok :: "DesiredState \<Rightarrow> ForwardSpec \<Rightarrow> bool" where
  "fabric_forward_ok c f \<longleftrightarrow> (fw_PathMode f = PathViaExit \<longrightarrow>
     (\<exists>l. link_map (ds_FabricLinks c) (fw_FabricLinkID f) = Some l) \<and>
     (ds_NodeID c = fw_IngressNodeID f \<longrightarrow> (\<exists>v. fw_ServiceVIP f = Some v \<and> Is4 (Unmap v))))"

definition fabric_links_ok :: "FabricLinkSpec list \<Rightarrow> bool" where
  "fabric_links_ok ls \<longleftrightarrow> distinct (map fl_ID ls) \<and>
     (\<forall>l\<in>set ls. Is4 (fl_PeerAddress l) \<and> CHR ''|'' \<notin> set (fl_Interface l))"

lemma positions_fold:
  "k \<notin> fl_ID ` set ls \<Longrightarrow> fold (\<lambda>(i, l) m. m(fl_ID l \<mapsto> i)) (enumerate n ls) m k = m k"
  by (induction ls arbitrary: n m) auto

lemma positions_nth:
  "distinct (map fl_ID ls) \<Longrightarrow> i < length ls \<Longrightarrow>
   fold (\<lambda>(i, l) m. m(fl_ID l \<mapsto> i)) (enumerate n ls) m (fl_ID (ls ! i)) = Some (n + i)"
proof (induction ls arbitrary: n m i)
  case (Cons l ls)
  then show ?case by (cases i) (auto simp: positions_fold fun_upd_same simp del: fun_upd_apply)
qed simp

lemma link_positions_link_map:
  assumes "distinct (map fl_ID ls)" and "link_map ls k = Some l"
  shows "\<exists>i<length ls. link_positions ls k = Some i \<and> ls ! i = l \<and> l \<in> set ls \<and> fl_ID l = k"
proof -
  have "l \<in> set ls" "fl_ID l = k" using assms(2) by (auto simp: link_map_def dest: map_of_SomeD)
  then obtain i where "i < length ls" "ls ! i = l" by (auto simp: in_set_conv_nth)
  then show ?thesis using positions_nth [OF assms(1), of i 0 Map.empty] \<open>l \<in> set ls\<close> \<open>fl_ID l = k\<close>
    by (auto simp: link_positions_def)
qed

lemma initial_allowed_at:
  "distinct (map fl_ID ls) \<Longrightarrow> l \<in> set ls \<Longrightarrow> initial_allowed ls (fl_ID l) = Some [hostPrefix (fl_PeerAddress l)]"
proof -
  have keep: "k \<notin> fl_ID ` set ls \<Longrightarrow> fold (\<lambda>l m. m(fl_ID l \<mapsto> [hostPrefix (fl_PeerAddress l)])) ls m k = m k" for k ls m
    by (induction ls arbitrary: m) auto
  have "distinct (map fl_ID ls) \<Longrightarrow> l \<in> set ls \<Longrightarrow>
      fold (\<lambda>l m. m(fl_ID l \<mapsto> [hostPrefix (fl_PeerAddress l)])) ls m (fl_ID l) = Some [hostPrefix (fl_PeerAddress l)]" for m
    by (induction ls arbitrary: m) (auto simp: keep)
  then show "distinct (map fl_ID ls) \<Longrightarrow> l \<in> set ls \<Longrightarrow> initial_allowed ls (fl_ID l) = Some [hostPrefix (fl_PeerAddress l)]"
    by (simp add: initial_allowed_def)
qed

lemma plain_routes:
  assumes "Is4 (fl_PeerAddress l)" and "CHR ''|'' \<notin> set (fl_Interface l)"
  shows "plain_route (peer_route (link_plan l))" and "Is4 (Unmap v) \<Longrightarrow> plain_route (vip_route (link_plan l) v)"
  using assms by (auto simp: plain_route_def peer_route_def vip_route_def link_plan_def Is4_iff hostPrefix_4)

lemma plan_fields [simp]:
  "lp_ID (link_plan l) = fl_ID l" "lp_RoutingID (link_plan l) = fl_RoutingID l"
  by (simp_all add: link_plan_def)

lemma update_routes:
  assumes "set al = (\<lambda>r. (routeKey r, r)) ` R" and "\<forall>r\<in>R. plain_route r" and "plain_route r"
  shows "set (AList.update (routeKey r) r al) = (\<lambda>r. (routeKey r, r)) ` (insert r R)"
proof -
  have "w = r" if "(routeKey r, w) \<in> set al" for w
    using that assms routeKey_inject [of r w] by auto
  then show ?thesis unfolding assms(1) [symmetric] image_insert by (rule set_update_same)
qed

lemma fabric_step_ingress:
  assumes "fabric_links_ok (ds_FabricLinks c)" and inv: "fabric_inv c fs b" and via: "fw_PathMode f = PathViaExit"
    and link: "link_map (ds_FabricLinks c) (fw_FabricLinkID f) = Some l"
    and node: "ds_NodeID c = fw_IngressNodeID f" and vip: "fw_ServiceVIP f = Some v" "Is4 (Unmap v)"
  shows "\<exists>b'. fabric_forward_step c (map link_plan (ds_FabricLinks c)) (link_positions (ds_FabricLinks c)) i f b = Inr b' \<and>
    fabric_inv c (fs @ [f]) b'"
proof -
  let ?ls = "ds_FabricLinks c"
  have ids: "distinct (map fl_ID ?ls)" using assms(1) by (simp add: fabric_links_ok_def)
  obtain j where j: "j < length ?ls" "link_positions ?ls (fw_FabricLinkID f) = Some j" "?ls ! j = l"
    and l: "l \<in> set ?ls" using link_positions_link_map [OF ids link] by blast
  obtain ps where ps: "fb_allowed b (fl_ID l) = Some ps" "distinct ps"
    "set ps = insert (hostPrefix (fl_PeerAddress l)) {hostPrefix v | v. (l, v) \<in> tunnelled c fs}"
    using inv l unfolding fabric_inv_def by blast
  have one: "tunnelled c [f] = {(l, v)}" "terminated c [f] = {}"
    using via link node vip by (auto simp: tunnelled_def terminated_def)
  define b' where "b' = b\<lparr>fb_allowed := (fb_allowed b)(fl_ID l \<mapsto> List.insert (hostPrefix v) ps),
    fb_routes := AList.update (routeKey (vip_route (link_plan l) v)) (vip_route (link_plan l) v) (fb_routes b)\<rparr>"
  have step: "fabric_forward_step c (map link_plan ?ls) (link_positions ?ls) i f b = Inr b'"
    using via j node vip(1) ps(1) by (simp add: fabric_forward_step_def b'_def Let_def)
  have routes: "fabric_routes c (fs @ [f]) = insert (vip_route (link_plan l) v) (fabric_routes c fs)"
    unfolding fabric_routes_def tunnelled_snoc one by auto
  have "Is4 (fl_PeerAddress l)" "CHR ''|'' \<notin> set (fl_Interface l)" using assms(1) l by (simp_all add: fabric_links_ok_def)
  then have plain: "plain_route (vip_route (link_plan l) v)" "\<forall>r\<in>fabric_routes c fs. plain_route r"
    using plain_routes(2) [OF _ _ vip(2)] inv by (simp_all add: fabric_inv_def)
  have inj: "fl_ID k = fl_ID l \<Longrightarrow> k = l" if "k \<in> set ?ls" for k
    using ids l that by (auto simp: distinct_map inj_on_def)
  have allowed: "\<exists>ps. fb_allowed b' (fl_ID k) = Some ps \<and> distinct ps \<and>
      set ps = insert (hostPrefix (fl_PeerAddress k)) {hostPrefix v | v. (k, v) \<in> tunnelled c (fs @ [f])}"
    if k: "k \<in> set ?ls" for k
  proof (cases "k = l")
    case True
    then have "{hostPrefix w | w. (k, w) \<in> tunnelled c (fs @ [f])} = insert (hostPrefix v) {hostPrefix w | w. (l, w) \<in> tunnelled c fs}"
      unfolding tunnelled_snoc one by auto
    moreover have "fb_allowed b' (fl_ID k) = Some (List.insert (hostPrefix v) ps)" using True by (simp add: b'_def)
    ultimately show ?thesis using True ps by auto
  next
    case False
    then have same: "fb_allowed b' (fl_ID k) = fb_allowed b (fl_ID k)" using inj [OF k] by (auto simp: b'_def)
    have none: "{hostPrefix w | w. (k, w) \<in> tunnelled c (fs @ [f])} = {hostPrefix w | w. (k, w) \<in> tunnelled c fs}"
      using False unfolding tunnelled_snoc one by auto
    show ?thesis using inv k unfolding same none fabric_inv_def by blast
  qed
  have "set (fb_routes b') = (\<lambda>r. (routeKey r, r)) ` fabric_routes c (fs @ [f])"
    unfolding routes using inv update_routes [OF _ plain(2,1), of "fb_routes b"] by (simp add: b'_def fabric_inv_def)
  then have "fabric_inv c (fs @ [f]) b'"
    using inv allowed plain unfolding fabric_inv_def tunnelled_snoc(2) one routes
    by (simp add: b'_def distinct_update)
  with step show ?thesis by blast
qed

lemma fabric_step_exit:
  assumes "fabric_links_ok (ds_FabricLinks c)" and inv: "fabric_inv c fs b" and via: "fw_PathMode f = PathViaExit"
    and link: "link_map (ds_FabricLinks c) (fw_FabricLinkID f) = Some l"
    and node: "ds_NodeID c \<noteq> fw_IngressNodeID f" and routing: "distinct (map fl_RoutingID (ds_FabricLinks c))"
  shows "\<exists>b'. fabric_forward_step c (map link_plan (ds_FabricLinks c)) (link_positions (ds_FabricLinks c)) i f b = Inr b' \<and>
    fabric_inv c (fs @ [f]) b'"
proof -
  let ?ls = "ds_FabricLinks c"
  have ids: "distinct (map fl_ID ?ls)" using assms(1) by (simp add: fabric_links_ok_def)
  obtain j where j: "j < length ?ls" "link_positions ?ls (fw_FabricLinkID f) = Some j" "?ls ! j = l"
    and l: "l \<in> set ?ls" using link_positions_link_map [OF ids link] by blast
  have one: "tunnelled c [f] = {}" "terminated c [f] = {l}"
    using via link node by (auto simp: tunnelled_def terminated_def)
  define b' where "b' = b\<lparr>fb_routes := AList.update (routeKey (peer_route (link_plan l))) (peer_route (link_plan l)) (fb_routes b),
    fb_rules := AList.update (fl_RoutingID l) (link_rule (link_plan l)) (fb_rules b)\<rparr>"
  have step: "fabric_forward_step c (map link_plan ?ls) (link_positions ?ls) i f b = Inr b'"
    using via j node by (simp add: fabric_forward_step_def b'_def Let_def)
  have routes: "fabric_routes c (fs @ [f]) = insert (peer_route (link_plan l)) (fabric_routes c fs)"
    unfolding fabric_routes_def tunnelled_snoc one by auto
  have "Is4 (fl_PeerAddress l)" "CHR ''|'' \<notin> set (fl_Interface l)" using assms(1) l by (simp_all add: fabric_links_ok_def)
  then have plain: "plain_route (peer_route (link_plan l))" "\<forall>r\<in>fabric_routes c fs. plain_route r"
    using plain_routes(1) inv by (simp_all add: fabric_inv_def)
  have "set (fb_routes b') = (\<lambda>r. (routeKey r, r)) ` fabric_routes c (fs @ [f])"
    unfolding routes using inv update_routes [OF _ plain(2,1), of "fb_routes b"] by (simp add: b'_def fabric_inv_def)
  moreover have "terminated c fs \<subseteq> set ?ls"
    by (auto simp: terminated_def link_map_def dest!: map_of_SomeD)
  then have "w = link_rule (link_plan l)" if w: "(fl_RoutingID l, w) \<in> set (fb_rules b)" for w
  proof -
    have "set (fb_rules b) = (\<lambda>l. (fl_RoutingID l, link_rule (link_plan l))) ` terminated c fs"
      using inv by (simp add: fabric_inv_def)
    with w obtain k where k: "k \<in> terminated c fs" "fl_RoutingID k = fl_RoutingID l" "w = link_rule (link_plan k)" by auto
    then have "k = l" using \<open>terminated c fs \<subseteq> set ?ls\<close> routing l unfolding distinct_map inj_on_def by blast
    with k show ?thesis by simp
  qed
  then have "set (AList.update (fl_RoutingID l) (link_rule (link_plan l)) (fb_rules b)) =
      insert (fl_RoutingID l, link_rule (link_plan l)) (set (fb_rules b))" by (rule set_update_same)
  then have "set (fb_rules b') = (\<lambda>l. (fl_RoutingID l, link_rule (link_plan l))) ` terminated c (fs @ [f])"
    using inv unfolding tunnelled_snoc(2) one by (simp add: b'_def fabric_inv_def)
  moreover have "fb_allowed b' = fb_allowed b" by (simp add: b'_def)
  moreover have "tunnelled c (fs @ [f]) = tunnelled c fs" unfolding tunnelled_snoc one by simp
  moreover have "distinct (map fst (fb_routes b'))" "distinct (map fst (fb_rules b'))"
    using inv by (simp_all add: b'_def fabric_inv_def distinct_update)
  moreover have "\<forall>r\<in>fabric_routes c (fs @ [f]). plain_route r" unfolding routes using plain by simp
  ultimately have "fabric_inv c (fs @ [f]) b'" using inv unfolding fabric_inv_def by simp
  with step show ?thesis by blast
qed

interpretation fabric_loop: check_total
  "fabric_forward_step c (map link_plan (ds_FabricLinks c)) (link_positions (ds_FabricLinks c))"
  "\<lambda>f. fabric_forward_ok c f \<and> fabric_links_ok (ds_FabricLinks c) \<and> distinct (map fl_RoutingID (ds_FabricLinks c))"
  "fabric_inv c" for c
proof unfold_locales
  fix seen b f i
  assume inv: "fabric_inv c seen b"
    and ok: "fabric_forward_ok c f \<and> fabric_links_ok (ds_FabricLinks c) \<and> distinct (map fl_RoutingID (ds_FabricLinks c))"
  show "\<exists>b'. fabric_forward_step c (map link_plan (ds_FabricLinks c)) (link_positions (ds_FabricLinks c)) i f b = Inr b' \<and>
      fabric_inv c (seen @ [f]) b'"
  proof (cases "fw_PathMode f = PathViaExit")
    case True
    then obtain l where "link_map (ds_FabricLinks c) (fw_FabricLinkID f) = Some l" using ok by (auto simp: fabric_forward_ok_def)
    then show ?thesis using ok inv True fabric_step_ingress fabric_step_exit unfolding fabric_forward_ok_def by metis
  next
    case False
    then have "tunnelled c [f] = {}" "terminated c [f] = {}" by (auto simp: tunnelled_def terminated_def)
    then have "tunnelled c (seen @ [f]) = tunnelled c seen" "terminated c (seen @ [f]) = terminated c seen"
      unfolding tunnelled_snoc by simp_all
    then have "fabric_inv c (seen @ [f]) b" using inv by (simp add: fabric_inv_def fabric_routes_def)
    then show ?thesis using False by (simp add: fabric_forward_step_def)
  qed
qed

section \<open>The program of an accepted state\<close>

lemma well_formed_fabric:
  assumes "well_formed s"
  shows "fabric_links_ok (ds_FabricLinks (Canonical s))"
    and "distinct (map fl_RoutingID (ds_FabricLinks (Canonical s)))"
    and "\<forall>f\<in>set (ds_Forwards (Canonical s)). fabric_forward_ok (Canonical s) f"
proof -
  let ?c = "Canonical s"
  have wf: "well_formed ?c" using assms by (rule Canonical_well_formed)
  have compat: "sorted_wrt link_compat (ds_FabricLinks ?c)" using wf unfolding well_formed_def by blast
  have "distinct (map fl_ID (ds_FabricLinks ?c))" unfolding distinct_map_sorted_wrt
    by (rule sorted_wrt_mono_rel [OF _ compat]) (simp add: link_compat_def)
  moreover have "Is4 (fl_PeerAddress l) \<and> CHR ''|'' \<notin> set (fl_Interface l)" if l: "l \<in> set (ds_FabricLinks ?c)" for l
  proof -
    obtain k where "l = canonical_link k" using l by (auto simp: Canonical_def)
    then have unmapped: "Unmap (fl_PeerAddress l) = fl_PeerAddress l" by (simp add: canonical_link_def)
    have "link_ok ?c (service_nets ?c) l" using wf l unfolding well_formed_def by blast
    then have "usable4 (fl_PeerAddress l)" "list_all identifier_char (fl_Interface l)" by (simp_all add: link_ok_def interfacePattern_def)
    then show ?thesis using usable4_Is4 [of "fl_PeerAddress l"] unfolding unmapped list_all_iff
      by (auto simp: identifier_char_def is_alnum_def is_digit_def is_lower_def is_upper_def code_def)
  qed
  ultimately show "fabric_links_ok (ds_FabricLinks ?c)" by (simp add: fabric_links_ok_def)
  show "distinct (map fl_RoutingID (ds_FabricLinks ?c))" unfolding distinct_map_sorted_wrt
    by (rule sorted_wrt_mono_rel [OF _ compat]) (simp add: link_compat_def)
  show "\<forall>f\<in>set (ds_Forwards ?c). fabric_forward_ok ?c f"
  proof
    fix f assume "f \<in> set (ds_Forwards ?c)"
    then have "path_ok ?c (service_nets ?c) (link_map (ds_FabricLinks ?c)) f"
      using wf unfolding well_formed_def forward_ok_def by blast
    then show "fabric_forward_ok ?c f" using usable4_Is4 by (auto simp: path_ok_def fabric_forward_ok_def)
  qed
qed

lemma fabric_inv_initial:
  "fabric_links_ok (ds_FabricLinks c) \<Longrightarrow>
   fabric_inv c [] \<lparr>fb_allowed = initial_allowed (ds_FabricLinks c), fb_routes = [], fb_rules = []\<rparr>"
  by (auto simp: fabric_inv_def fabric_links_ok_def initial_allowed_at tunnelled_def terminated_def fabric_routes_def)

lemma unat_ucast16: "unat (ucast (i :: u16) :: u32) = unat i"
proof -
  have "unat i < 2 ^ 16" using unsigned_less [of i, where 'a = nat] by simp
  then show ?thesis by (simp add: unsigned_ucast_eq take_bit_nat_eq_self)
qed

lemma ucast16_inject: "(ucast (i :: u16) :: u32) = ucast j \<longleftrightarrow> i = j"
  by (metis unat_ucast16 word_unat_eq_iff)

lemma RulePriority_inject: "RulePriority i = RulePriority j \<longleftrightarrow> i = j"
  by (simp add: RulePriority_def ucast16_inject)

lemma RoutingMark_owned: "RoutingMark i AND RoutingMarkMask = RoutingMarkPrefix"
proof -
  have "RoutingMarkMask = NOT (mask 16)" by (simp add: RoutingMarkMask_def mask_eq_exp_minus_1)
  moreover have "(ucast i :: u32) AND NOT (mask 16) = 0"
    by (rule bit_eqI) (auto simp: bit_simps dest: bit_imp_le_length)
  ultimately have "(ucast i :: u32) AND RoutingMarkMask = 0" by simp
  then show ?thesis unfolding RoutingMark_def by (simp only: bit.conj_disj_distrib2) (simp add: RoutingMarkPrefix_def RoutingMarkMask_def)
qed

section \<open>Properties\<close>

text \<open>C21. For every accepted state that carries its own checksum the compiler produces a program,
  with one plan per link in the order of the canonical state. A link admits its peer and exactly the
  service addresses this node forwards over it as ingress; the routes are exactly one host route per
  such address through the peer in the main table, and one host route to the peer in the link's own
  table for every link on which this node is an exit; the rules are exactly one per such link, with
  distinct priorities and marks within the range Flux owns. (The hypothesis on \<open>marshalPlan\<close> says
  that the plan, which contains no unsupported type, is encoded without error.)\<close>

theorem fabric_Compile_plan:
  assumes "Validate s = []" and "Checksum marshal s = Some digest" and "\<And>ls rs us. marshalPlan ls rs us \<noteq> None"
  shows "\<exists>p. fabric_Compile marshal marshalPlan s digest = Inr p \<and>
    fp_Generation p = ds_Generation s \<and>
    map lp_ID (fp_Links p) = map fl_ID (ds_FabricLinks (Canonical s)) \<and>
    (\<forall>i<length (fp_Links p). let l = ds_FabricLinks (Canonical s) ! i in
       distinct (lp_AllowedIPs (fp_Links p ! i)) \<and>
       set (lp_AllowedIPs (fp_Links p ! i)) = insert (hostPrefix (fl_PeerAddress l))
         {hostPrefix v | v. (l, v) \<in> tunnelled (Canonical s) (ds_Forwards (Canonical s))}) \<and>
    distinct (fp_Routes p) \<and> set (fp_Routes p) = fabric_routes (Canonical s) (ds_Forwards (Canonical s)) \<and>
    set (fp_Rules p) = (\<lambda>l. link_rule (link_plan l)) ` terminated (Canonical s) (ds_Forwards (Canonical s)) \<and>
    distinct (map ru_Priority (fp_Rules p)) \<and> (\<forall>r\<in>set (fp_Rules p). ru_Mark r AND RoutingMarkMask = RoutingMarkPrefix)"
proof -
  let ?c = "Canonical s" and ?ls = "ds_FabricLinks (Canonical s)"
  have wf: "well_formed s" using assms(1) by (simp add: Validate_well_formed)
  note ok = well_formed_fabric [OF wf]
  obtain b where run: "range_check (fabric_forward_step ?c (map link_plan ?ls) (link_positions ?ls)) 0
      \<lparr>fb_allowed = initial_allowed ?ls, fb_routes = [], fb_rules = []\<rparr> (ds_Forwards ?c) = Inr b"
    and inv: "fabric_inv ?c (ds_Forwards ?c) b"
    using fabric_loop.total_check [OF fabric_inv_initial [OF ok(1)], of "ds_Forwards ?c" 0] ok by auto
  define p where "p = (case fabric_Compile marshal marshalPlan s digest of Inr p \<Rightarrow> p)"
  let ?links = "map (with_allowed (fb_allowed b)) (map link_plan ?ls)"
  let ?routes = "sort_less route_less (map snd (fb_routes b))" and ?rules = "sort_less rule_less (map snd (fb_rules b))"
  have gen: "ds_Generation ?c = ds_Generation s" by (simp add: Canonical_def)
  have made: "fabric_Compile marshal marshalPlan s digest = Inr p" "fp_Links p = ?links" "fp_Routes p = ?routes" "fp_Rules p = ?rules"
    "fp_Generation p = ds_Generation s"
    using assms(3) [of ?links ?routes ?rules] unfolding p_def fabric_Compile_def
    by (auto simp: assms(1,2) Checksum_pattern [OF assms(2)] Let_def run gen simp del: map_map)
  have keys: "distinct (map fst (fb_routes b))" "distinct (map fst (fb_rules b))"
    and books: "set (fb_routes b) = (\<lambda>r. (routeKey r, r)) ` fabric_routes ?c (ds_Forwards ?c)"
      "set (fb_rules b) = (\<lambda>l. (fl_RoutingID l, link_rule (link_plan l))) ` terminated ?c (ds_Forwards ?c)"
    using inv unfolding fabric_inv_def by blast+
  have routes: "set (fp_Routes p) = fabric_routes ?c (ds_Forwards ?c)" unfolding made(3) by (simp add: books image_image)
  have rules: "set (fp_Rules p) = (\<lambda>l. link_rule (link_plan l)) ` terminated ?c (ds_Forwards ?c)"
    unfolding made(4) by (simp add: books image_image)
  have "map routeKey (map snd (fb_routes b)) = map fst (fb_routes b)" using books(1) by auto
  then have "distinct (map snd (fb_routes b))" using keys(1) by (metis distinct_map)
  then have "distinct (fp_Routes p)" unfolding made(3) by simp
  moreover have "distinct (map ru_Priority (fp_Rules p))"
  proof -
    have "map ru_Priority (map snd (fb_rules b)) = map RulePriority (map fst (fb_rules b))"
      using books(2) by (auto simp: link_rule_def)
    moreover have "distinct (map RulePriority (map fst (fb_rules b)))"
      using keys(2) by (subst distinct_map) (simp add: inj_on_def RulePriority_inject)
    ultimately have "distinct (map ru_Priority (map snd (fb_rules b)))" by presburger
    then show ?thesis unfolding made(4) distinct_map_sorted_wrt by (intro sorted_wrt_sort_less) auto
  qed
  moreover have "distinct (lp_AllowedIPs (fp_Links p ! i)) \<and> set (lp_AllowedIPs (fp_Links p ! i)) =
      insert (hostPrefix (fl_PeerAddress (?ls ! i))) {hostPrefix v | v. (?ls ! i, v) \<in> tunnelled ?c (ds_Forwards ?c)}"
    if i: "i < length (fp_Links p)" for i
  proof -
    have "i < length ?ls" using i by (simp add: made(2))
    then have mem: "?ls ! i \<in> set ?ls" by (rule nth_mem)
    obtain ps where ps: "fb_allowed b (fl_ID (?ls ! i)) = Some ps" "distinct ps"
        "set ps = insert (hostPrefix (fl_PeerAddress (?ls ! i))) {hostPrefix v | v. (?ls ! i, v) \<in> tunnelled ?c (ds_Forwards ?c)}"
      using bspec [OF conjunct1 [OF inv [unfolded fabric_inv_def]] mem] by blast
    have "lp_AllowedIPs (fp_Links p ! i) = sort_less prefix_string_less ps"
      using \<open>i < length ?ls\<close> ps(1) by (simp add: made(2) with_allowed_def)
    then show ?thesis using ps(2,3) by simp
  qed
  moreover have "map lp_ID (fp_Links p) = map fl_ID ?ls" by (simp add: made(2) with_allowed_def)
  moreover have "\<forall>r\<in>set (fp_Rules p). ru_Mark r AND RoutingMarkMask = RoutingMarkPrefix"
    unfolding rules by (simp add: link_rule_def RoutingMark_owned)
  ultimately show ?thesis using made(1,5) routes rules unfolding Let_def by blast
qed

theorem fabric_Compile_plan_witness:
  "\<exists>p. fabric_Compile (\<lambda>d. Some (ds_NodeID d)) (\<lambda>_ _ _. Some []) sample_state
      (hex_EncodeToString (Sum256 (ds_NodeID (Canonical sample_state)))) = Inr p \<and> map lp_ID (fp_Links p) = [''link-a'']"
proof -
  have "Checksum (\<lambda>d. Some (ds_NodeID d)) sample_state = Some (hex_EncodeToString (Sum256 (ds_NodeID (Canonical sample_state))))"
    by (simp add: Checksum_def)
  from fabric_Compile_plan [OF sample_valid this, of "\<lambda>_ _ _. Some []"]
  obtain p where "fabric_Compile (\<lambda>d. Some (ds_NodeID d)) (\<lambda>_ _ _. Some []) sample_state
      (hex_EncodeToString (Sum256 (ds_NodeID (Canonical sample_state)))) = Inr p"
    "map lp_ID (fp_Links p) = map fl_ID (ds_FabricLinks (Canonical sample_state))" by auto
  moreover have "map fl_ID (ds_FabricLinks (Canonical sample_state)) = [''link-a'']"
    by (simp add: Canonical_def sample_state_def sample_link_def canonical_link_def)
  ultimately show ?thesis by auto
qed

text \<open>The Linux kernel's rule for the main table has priority 32766. Validation accepts every routing ID
  but 0 and 65535, and from 12766 on the rule of a link is not consulted before that rule.\<close>

lemma RulePriority_behind_main:
  assumes "12766 \<le> routingID"
  shows "32766 \<le> RulePriority routingID"
proof -
  have "unat routingID < 2 ^ 16" using unsigned_less [of routingID, where 'a = nat] by simp
  then have "unat (RulePriority routingID) = 20000 + unat routingID"
    unfolding RulePriority_def RulePriorityBase_def by (subst unat_add_lem [THEN iffD1]) (simp_all add: unat_ucast16)
  then show ?thesis using assms by (simp add: word_le_nat_alt)
qed

end
