(* ===== verification/Agent_Store.thy ===== *)
theory Agent_Store
  imports Go_Effect Fabric_Compiler Usage Meter
begin

text \<open>
  \<open>internal/agent/store.go\<close>: the durable record of an agent, its validity, and the file store that keeps
  it. The file system is a disk with the content of \<open>state.json\<close> and the outcomes of the system calls to
  come; a call that fails leaves the file as it is, and the rename replaces it at once. The JSON codec
  is a parameter over an abstract type of file contents.
\<close>

section \<open>The record\<close>

definition stateRecordVersion :: u32 where "stateRecordVersion = 3"
definition maxStateFileBytes :: nat where "maxStateFileBytes = 64 * 2 ^ 20"
definition MaxUsageOutbox :: nat where "MaxUsageOutbox = 10000"

record Snapshot =
  sn_Desired :: DesiredState
  sn_Checksum :: string
  sn_ProgramChecksum :: string
  sn_TCChecksum :: string
  sn_FabricChecksum :: string
  sn_ForceCleanupComplete :: bool
  sn_PreparedAt :: time

record StateRecord =
  sr_Version :: u32
  sr_Applied :: "Snapshot option"
  sr_Pending :: "Snapshot option"
  sr_Meter :: MeterState
  sr_UsageOutbox :: "UsageBatch list"

definition EmptyStateRecord :: StateRecord where
  "EmptyStateRecord = \<lparr>sr_Version = stateRecordVersion, sr_Applied = None, sr_Pending = None,
     sr_Meter = \<lparr>mt_Epoch = [], mt_Sequence = 0, mt_Values = Map.empty\<rparr>, sr_UsageOutbox = []\<rparr>"

definition validStateChecksum :: "string \<Rightarrow> bool" where
  "validStateChecksum value \<longleftrightarrow> length value = 64 \<and>
     list_all (\<lambda>c. \<not> (c < CHR ''0'' \<or> c > CHR ''9'' \<and> c < CHR ''a'' \<or> c > CHR ''f'')) value"

abbreviation sn_Generation :: "Snapshot \<Rightarrow> u64" where
  "sn_Generation s \<equiv> ds_Generation (sn_Desired s)"

definition validateSnapshot :: "(DesiredState \<Rightarrow> string option) \<Rightarrow> string \<Rightarrow> Snapshot option \<Rightarrow> string option" where
  "validateSnapshot marshal name snapshot =
     (case snapshot of None \<Rightarrow> None
      | Some s \<Rightarrow>
        if Validate (sn_Desired s) \<noteq> [] then Some (name @ '' snapshot'')
        else case Checksum marshal (sn_Desired s) of None \<Rightarrow> Some (name @ '' snapshot checksum'')
        | Some checksum \<Rightarrow>
          if checksum \<noteq> sn_Checksum s then Some (name @ '' snapshot checksum mismatch'')
          else if IsZero (sn_PreparedAt s) then Some (name @ '' snapshot prepared_at must not be zero'')
          else if sn_ProgramChecksum s \<noteq> [] \<and> \<not> validStateChecksum (sn_ProgramChecksum s)
            then Some (name @ '' snapshot program checksum is invalid'')
          else if sn_TCChecksum s \<noteq> [] \<and> \<not> validStateChecksum (sn_TCChecksum s)
            then Some (name @ '' snapshot tc checksum is invalid'')
          else if sn_FabricChecksum s \<noteq> [] \<and> \<not> validStateChecksum (sn_FabricChecksum s)
            then Some (name @ '' snapshot fabric checksum is invalid'')
          else None)"

definition outbox_step :: "nat \<Rightarrow> UsageBatch \<Rightarrow> u64 \<Rightarrow> string + u64" where
  "outbox_step i batch previous =
     (case UsageBatch_Validate batch of Some e \<Rightarrow> Inl (''usage_outbox['' @ show_nat i @ '']: '' @ e)
      | None \<Rightarrow> if i > 0 \<and> ub_Sequence batch \<le> previous then Inl ''usage outbox sequences must increase''
          else Inr (ub_Sequence batch))"

definition snapshots_conflict :: "Snapshot option \<Rightarrow> Snapshot option \<Rightarrow> string option" where
  "snapshots_conflict applied pending =
     (case (applied, pending) of
        (Some a, Some p) \<Rightarrow>
          if sn_Generation p < sn_Generation a then Some ''pending generation is older than applied generation''
          else if ds_NodeID (sn_Desired p) \<noteq> ds_NodeID (sn_Desired a) then Some ''pending and applied snapshots have different node IDs''
          else if sn_Generation p = sn_Generation a \<and> sn_Checksum p \<noteq> sn_Checksum a
            then Some ''pending and applied snapshots conflict at the same generation''
          else None
      | _ \<Rightarrow> None)"

definition StateRecord_Validate :: "(DesiredState \<Rightarrow> string option) \<Rightarrow> StateRecord \<Rightarrow> string option" where
  "StateRecord_Validate marshal r =
     (if sr_Version r < 1 \<or> sr_Version r > stateRecordVersion then Some ''state record version must be between 1 and 3''
      else case validateSnapshot marshal ''applied'' (sr_Applied r) of Some e \<Rightarrow> Some e
      | None \<Rightarrow>
        (case validateSnapshot marshal ''pending'' (sr_Pending r) of Some e \<Rightarrow> Some e
         | None \<Rightarrow>
           (case snapshots_conflict (sr_Applied r) (sr_Pending r) of Some e \<Rightarrow> Some e
            | None \<Rightarrow>
              if length (sr_UsageOutbox r) > MaxUsageOutbox then Some ''usage outbox exceeds 10000 batches''
              else case range_check outbox_step 0 0 (sr_UsageOutbox r) of Inl e \<Rightarrow> Some e | Inr _ \<Rightarrow> None)))"

section \<open>The file store\<close>

record 'b disk =
  dk_file :: "'b option"
  dk_faults :: "bool list"

record 'b codec =
  cd_encode :: "StateRecord \<Rightarrow> 'b option"
  cd_decode :: "'b \<Rightarrow> (StateRecord \<times> bool) option"
  cd_size :: "'b \<Rightarrow> nat"

datatype agent_error =
    ErrStaleGeneration | ErrGenerationConflict | ErrNodeIdentity | ErrForeignTable | ErrKernelAhead
  | ErrTrafficControlUnavailable | ErrUsageUnavailable | ErrUsageOutboxFull | ErrFabricUnavailable
  | InvalidState "string list" | CompileFailed dataplane_error | AgentError string
  | Wrapped string agent_error | Joined "agent_error list" | NilDereference

text \<open>A system call succeeds unless the next outcome says that it fails.\<close>

definition syscall :: "('b disk, agent_error, unit) routine" where
  "syscall d = (case dk_faults d of [] \<Rightarrow> (Inr (), d)
     | fault # rest \<Rightarrow> ((if fault then Inl (AgentError ''system call failed'') else Inr ()), d\<lparr>dk_faults := rest\<rparr>))"

definition put_file :: "'b option \<Rightarrow> ('b disk, agent_error, unit) routine" where
  "put_file content d = (Inr (), d\<lparr>dk_file := content\<rparr>)"

definition call :: "string \<Rightarrow> ('b disk, agent_error, unit) routine" where
  "call operation = failing (Wrapped operation) syscall"

definition current_file :: "('b disk, agent_error, 'b option) routine" where
  "current_file d = (Inr (dk_file d), d)"

text \<open>The decoder's second component says that content follows the first JSON value. Decoding and the
  checks after it are one step, which depends on the content of the file only.\<close>

definition decode_file :: "(DesiredState \<Rightarrow> string option) \<Rightarrow> 'b codec \<Rightarrow> 'b \<Rightarrow> agent_error + StateRecord" where
  "decode_file marshal c b =
     (case cd_decode c b of None \<Rightarrow> Inl (AgentError ''decode agent state'')
      | Some (record, trailing) \<Rightarrow>
        if trailing then Inl (AgentError ''decode agent state: trailing JSON content'')
        else case StateRecord_Validate marshal record of Some e \<Rightarrow> Inl (Wrapped ''validate agent state'' (AgentError e))
        | None \<Rightarrow> Inr (if sr_Version record < stateRecordVersion then record\<lparr>sr_Version := stateRecordVersion\<rparr> else record))"

definition FileStore_load :: "(DesiredState \<Rightarrow> string option) \<Rightarrow> 'b codec \<Rightarrow> ('b disk, agent_error, StateRecord) routine" where
  "FileStore_load marshal c =
     andthen (call ''open agent state'') (\<lambda>_.
     andthen current_file (\<lambda>content.
     case content of None \<Rightarrow> return EmptyStateRecord
     | Some b \<Rightarrow>
       andthen (call ''stat agent state'') (\<lambda>_.
       andthen (guard (cd_size c b > maxStateFileBytes) (AgentError ''agent state exceeds 67108864 bytes'')) (\<lambda>_.
       andthen (call ''decode agent state'') (\<lambda>_.
       unless_error (decode_file marshal c b))))))"

definition FileStore_save :: "(DesiredState \<Rightarrow> string option) \<Rightarrow> 'b codec \<Rightarrow> bool \<Rightarrow> StateRecord \<Rightarrow> ('b disk, agent_error, unit) routine" where
  "FileStore_save marshal c windows record0 =
     (let record = record0\<lparr>sr_Version := stateRecordVersion\<rparr> in
      case StateRecord_Validate marshal record of
        Some e \<Rightarrow> throw (Wrapped ''refuse to persist invalid agent state'' (AgentError e))
      | None \<Rightarrow>
        andthen (call ''create agent state directory'') (\<lambda>_.
        andthen (call ''create temporary agent state'') (\<lambda>_.
        andthen (call ''set temporary agent state permissions'') (\<lambda>_.
        case cd_encode c record of None \<Rightarrow> throw (AgentError ''encode agent state'')
        | Some b \<Rightarrow>
          andthen (call ''encode agent state'') (\<lambda>_.
          andthen (call ''sync temporary agent state'') (\<lambda>_.
          andthen (call ''close temporary agent state'') (\<lambda>_.
          andthen (if windows then
              andthen current_file (\<lambda>old. if old = None then return ()
                else andthen (call ''replace agent state on Windows'') (\<lambda>_. put_file None)) else return ()) (\<lambda>_.
          andthen (call ''commit agent state'') (\<lambda>_.
          andthen (put_file (Some b)) (\<lambda>_.
          if windows then return ()
          else andthen (call ''open agent state directory for sync'') (\<lambda>_.
               call ''sync agent state directory'')))))))))))"

record 'd Store =
  st_Load :: "('d, agent_error, StateRecord) routine"
  st_Save :: "StateRecord \<Rightarrow> ('d, agent_error, unit) routine"

definition NewFileStore :: "(DesiredState \<Rightarrow> string option) \<Rightarrow> 'b codec \<Rightarrow> bool \<Rightarrow> string \<Rightarrow> agent_error + 'b disk Store" where
  "NewFileStore marshal c windows directory =
     (if directory = [] then Inl (AgentError ''state directory must not be empty'')
      else Inr \<lparr>st_Load = FileStore_load marshal c, st_Save = FileStore_save marshal c windows\<rparr>)"

end
