(* ===== verification/Nft_Compiler.thy ===== *)
theory Nft_Compiler
  imports Fabric_Compiler
begin

unbundle bit_operations_syntax

text \<open>
  \<open>internal/dataplane/nft/compiler.go\<close>: from an accepted desired state to the nftables script of the
  node, and the part of \<open>internal/dataplane/nft/executor.go\<close> that reads the metadata of an installed
  table back. The script is the text the code writes; the elements of its sets and maps are collected
  per protocol before, which is where the forwards are translated.
\<close>

section \<open>Constants, checksums and names\<close>

definition TableFamily :: string where "TableFamily = ''inet''"
definition TableName :: string where "TableName = ''flux''"
definition CompilerABI :: string where "CompilerABI = ''nft-phase4-v3''"
definition httpsALPNScanBytes :: nat where "httpsALPNScanBytes = 256"
definition TrafficMarkPrefix :: u32 where "TrafficMarkPrefix = 0x46000000"

definition newline :: string where "newline = [CHR 0x0A]"

definition line :: "string \<Rightarrow> string" where
  "line s = s @ newline"

definition pad_hex :: "nat \<Rightarrow> nat \<Rightarrow> string" where
  "pad_hex width n = (let s = show_hex n in replicate (width - length s) CHR ''0'' @ s)"

definition hex8 :: "u32 \<Rightarrow> string" where
  "hex8 w = ''0x'' @ pad_hex 8 (unat w)"

record CounterBinding =
  cb_Name :: string
  cb_ForwardID :: string
  cb_Protocol :: Protocol
  cb_Direction :: TrafficDirection
  cb_ResourceVersion :: u64

record NftProgram =
  np_Generation :: u64
  np_DesiredChecksum :: string
  np_ProgramChecksum :: string
  np_Script :: string
  np_Counters :: "CounterBinding list"

record protocolElements =
  pe_managed :: "string list"
  pe_paused :: "string list"
  pe_draining :: "string list"
  pe_dnatAddresses :: "string list"
  pe_dnatPorts :: "string list"
  pe_marks :: "string list"
  pe_routeMarks :: "string list"
  pe_masquerade :: "string list"
  pe_snat :: "string list"
  pe_mssClamp :: "string list"
  pe_uploadCounters :: "string list"
  pe_downloadCounters :: "string list"

definition no_elements :: protocolElements where
  "no_elements = \<lparr>pe_managed = [], pe_paused = [], pe_draining = [], pe_dnatAddresses = [], pe_dnatPorts = [], pe_marks = [],
     pe_routeMarks = [], pe_masquerade = [], pe_snat = [], pe_mssClamp = [], pe_uploadCounters = [], pe_downloadCounters = []\<rparr>"

definition TrafficMark :: "u16 \<Rightarrow> u32" where
  "TrafficMark classID = TrafficMarkPrefix OR ucast classID"

definition nft_checksum :: "string \<Rightarrow> string" where
  "nft_checksum value = hex_EncodeToString (Sum256 value)"

definition ProgramChecksum :: "string \<Rightarrow> string" where
  "ProgramChecksum desiredChecksum = nft_checksum (CompilerABI @ newline @ desiredChecksum)"

definition runtimeFingerprint :: "DesiredState \<Rightarrow> time \<Rightarrow> string" where
  "runtimeFingerprint state now = join '';''
     (map (\<lambda>forward. fw_ID forward @ ''='' @ EffectiveLifecycle forward now)
       (filter (\<lambda>forward. \<not> (fw_ExpiresAt forward = None \<and> fw_DrainDeadline forward = None)) (ds_Forwards (Canonical state))))"

definition ProgramChecksumAt :: "DesiredState \<Rightarrow> string \<Rightarrow> time \<Rightarrow> string" where
  "ProgramChecksumAt state desiredChecksum now =
     (let fingerprint = runtimeFingerprint state now in
      if fingerprint = [] then ProgramChecksum desiredChecksum
      else nft_checksum (CompilerABI @ newline @ desiredChecksum @ newline @ fingerprint))"

definition stableCounterName :: "string \<Rightarrow> Protocol \<Rightarrow> TrafficDirection \<Rightarrow> string" where
  "stableCounterName forwardID protocol direction =
     ''c_'' @ hex_EncodeToString (take 12 (Sum256 forwardID)) @ ''_'' @ (if protocol = ProtocolUDP then ''u'' else ''t'') @ ''_'' @
     (if direction = DirectionDownload then ''down'' else ''up'')"

text \<open>\<open>policies[forward.UserID]\<close> of a user without a policy is the zero struct.\<close>

definition no_policy :: UserPolicySpec where
  "no_policy = \<lparr>up_UserID = [], up_TrafficClassID = 0, up_RateLimit = None, up_TrafficQuota = None, up_ResourceVersion = 0\<rparr>"

definition policy_map :: "UserPolicySpec list \<Rightarrow> string \<rightharpoonup> UserPolicySpec" where
  "policy_map ps = fold (\<lambda>p m. m(up_UserID p \<mapsto> p)) ps Map.empty"

definition policy_of :: "UserPolicySpec list \<Rightarrow> string \<Rightarrow> UserPolicySpec" where
  "policy_of ps userID = (case policy_map ps userID of None \<Rightarrow> no_policy | Some p \<Rightarrow> p)"

definition fabric_map :: "FabricLinkSpec list \<Rightarrow> string \<rightharpoonup> FabricLinkSpec" where
  "fabric_map ls = fold (\<lambda>l m. m(fl_ID l \<mapsto> l)) ls Map.empty"

definition ErrUnresolvedClass :: "string \<Rightarrow> dataplane_error" where
  "ErrUnresolvedClass who = CompileError (''rate-limited policy has no allocated traffic class: '' @ who)"

definition forwardingClass :: "ForwardSpec \<Rightarrow> UserPolicySpec \<Rightarrow> dataplane_error + u16" where
  "forwardingClass forward user =
     (if fw_RateLimit forward \<noteq> None then
        (if fw_TrafficClassID forward = 0 then Inl (ErrUnresolvedClass (''forward '' @ fw_ID forward))
         else Inr (fw_TrafficClassID forward))
      else if up_RateLimit user \<noteq> None then
        (if up_TrafficClassID user = 0 then Inl (ErrUnresolvedClass (''user '' @ fw_UserID forward))
         else Inr (up_TrafficClassID user))
      else Inr 0)"

section \<open>Translating the forwards\<close>

record nft_books =
  nb_tcp :: protocolElements
  nb_udp :: protocolElements
  nb_counters :: "CounterBinding list"

definition elements_of :: "nft_books \<Rightarrow> Protocol \<Rightarrow> protocolElements option" where
  "elements_of b protocol = (if protocol = ProtocolTCP then Some (nb_tcp b) else if protocol = ProtocolUDP then Some (nb_udp b) else None)"

definition set_elements :: "Protocol \<Rightarrow> protocolElements \<Rightarrow> nft_books \<Rightarrow> nft_books" where
  "set_elements protocol e b = (if protocol = ProtocolTCP then b\<lparr>nb_tcp := e\<rparr> else b\<lparr>nb_udp := e\<rparr>)"

definition socket :: "Addr \<Rightarrow> u16 \<Rightarrow> string" where
  "socket address port = Addr_String address @ '' . '' @ show_nat (unat port)"

definition quoted :: "string \<Rightarrow> string" where
  "quoted s = [CHR 0x22] @ s @ [CHR 0x22]"

text \<open>What a round of the protocol loop looks up first: the key the kernel matches, the address packets
  are sent to, and the link whose local address is the source on the way to the exit node.\<close>

definition nft_path :: "(string \<rightharpoonup> FabricLinkSpec) \<Rightarrow> bool \<Rightarrow> ForwardSpec \<Rightarrow>
    dataplane_error + ((Addr \<times> u16) \<times> Addr \<times> FabricLinkSpec option)" where
  "nft_path fabrics isIngress forward =
     (let listen = (Unmap (ep_Address (fw_Listen forward)), ep_Port (fw_Listen forward));
          target = Unmap (ep_Address (fw_Target forward)) in
      if fw_PathMode forward \<noteq> PathViaExit then Inr (listen, target, None)
      else case fabrics (fw_FabricLinkID forward) of
        None \<Rightarrow> Inl (CompileError (''desired state uses a capability not implemented by this dataplane: forward '' @ fw_ID forward @
                   '' fabric link is unresolved''))
      | Some link \<Rightarrow>
          (case fw_ServiceVIP forward of None \<Rightarrow> Inl (CompilePanic ''nil pointer dereference'')
           | Some vip \<Rightarrow> if isIngress then Inr (listen, Unmap vip, Some link)
               else Inr ((Unmap vip, ep_Port (fw_Target forward)), target, None)))"

definition nft_protocol_step :: "(string \<rightharpoonup> FabricLinkSpec) \<Rightarrow> bool \<Rightarrow> u16 \<Rightarrow> Lifecycle \<Rightarrow> ForwardSpec \<Rightarrow>
    nat \<Rightarrow> Protocol \<Rightarrow> nft_books \<Rightarrow> dataplane_error + nft_books" where
  "nft_protocol_step fabrics isIngress classID effective forward i protocol b =
     (case nft_path fabrics isIngress forward of Inl err \<Rightarrow> Inl err
      | Inr ((keyAddress, keyPort), targetAddress, transportSNAT) \<Rightarrow>
        case elements_of b protocol of None \<Rightarrow> Inl (CompilePanic ''nil pointer dereference'')
        | Some e \<Rightarrow>
          let key = socket keyAddress keyPort;
              uploadName = stableCounterName (fw_ID forward) protocol DirectionUpload;
              downloadName = stableCounterName (fw_ID forward) protocol DirectionDownload;
              e1 = (if fw_PathMode forward = PathViaExit then e\<lparr>pe_mssClamp := pe_mssClamp e @ [key]\<rparr> else e);
              e2 = e1\<lparr>pe_managed := pe_managed e1 @ [key],
                      pe_dnatAddresses := pe_dnatAddresses e1 @ [key @ '' : '' @ Addr_String targetAddress],
                      pe_dnatPorts := pe_dnatPorts e1 @ [key @ '' : '' @ show_nat (unat (ep_Port (fw_Target forward)))]\<rparr>;
              e3 = (if isIngress then e2\<lparr>pe_uploadCounters := pe_uploadCounters e2 @ [key @ '' : '' @ quoted uploadName],
                                         pe_downloadCounters := pe_downloadCounters e2 @ [key @ '' : '' @ quoted downloadName]\<rparr> else e2);
              e4 = (if isIngress \<and> classID \<noteq> 0
                    then e3\<lparr>pe_marks := pe_marks e3 @ [key @ '' : '' @ hex8 (TrafficMark classID)]\<rparr> else e3);
              e5 = (if \<not> isIngress \<and> fw_PathMode forward = PathViaExit
                    then e4\<lparr>pe_routeMarks := pe_routeMarks e4 @ [key @ '' : '' @
                      hex8 (RoutingMark (case fabrics (fw_FabricLinkID forward) of None \<Rightarrow> 0 | Some link \<Rightarrow> fl_RoutingID link))]\<rparr> else e4) in
          (case (case transportSNAT of
                   Some link \<Rightarrow> Inr (e5\<lparr>pe_snat := pe_snat e5 @ [key @ '' : '' @ Addr_String (Unmap (pfx_Addr (fl_LocalAddress link)))]\<rparr>)
                 | None \<Rightarrow>
                     if snat_Mode (fw_SNAT forward) = SNATStatic then
                       (case snat_Address (fw_SNAT forward) of None \<Rightarrow> Inl (CompilePanic ''nil pointer dereference'')
                        | Some a \<Rightarrow> Inr (e5\<lparr>pe_snat := pe_snat e5 @ [key @ '' : '' @ Addr_String (Unmap a)]\<rparr>))
                     else Inr (e5\<lparr>pe_masquerade := pe_masquerade e5 @ [key]\<rparr>)) of
             Inl err \<Rightarrow> Inl err
           | Inr e6 \<Rightarrow>
               let e7 = (if effective = LifecyclePaused \<or> effective = LifecycleForceDeleting then e6\<lparr>pe_paused := pe_paused e6 @ [key]\<rparr>
                         else if effective = LifecycleDraining then e6\<lparr>pe_draining := pe_draining e6 @ [key]\<rparr> else e6);
                   b' = set_elements protocol e7 b
               in Inr (if isIngress
                       then b'\<lparr>nb_counters := nb_counters b' @
                         [\<lparr>cb_Name = uploadName, cb_ForwardID = fw_ID forward, cb_Protocol = protocol, cb_Direction = DirectionUpload,
                           cb_ResourceVersion = fw_ResourceVersion forward\<rparr>,
                          \<lparr>cb_Name = downloadName, cb_ForwardID = fw_ID forward, cb_Protocol = protocol, cb_Direction = DirectionDownload,
                           cb_ResourceVersion = fw_ResourceVersion forward\<rparr>]\<rparr>
                       else b')))"

definition nft_forward_step :: "DesiredState \<Rightarrow> time \<Rightarrow> nat \<Rightarrow> ForwardSpec \<Rightarrow> nft_books \<Rightarrow> dataplane_error + nft_books" where
  "nft_forward_step canonical now i forward b =
     (let isIngress = (ds_NodeID canonical = fw_IngressNodeID forward) in
      case (if isIngress then forwardingClass forward (policy_of (ds_UserPolicies canonical) (fw_UserID forward)) else Inr 0) of
        Inl e \<Rightarrow> Inl e
      | Inr classID \<Rightarrow>
          range_check (nft_protocol_step (fabric_map (ds_FabricLinks canonical)) isIngress classID (EffectiveLifecycle forward now) forward)
            0 b (fw_Protocols forward))"

definition nft_elements :: "DesiredState \<Rightarrow> time \<Rightarrow> dataplane_error + nft_books" where
  "nft_elements canonical now = range_check (nft_forward_step canonical now) 0
     \<lparr>nb_tcp = no_elements, nb_udp = no_elements, nb_counters = []\<rparr> (ds_Forwards canonical)"

section \<open>The script\<close>

definition writeSet :: "string \<Rightarrow> string list \<Rightarrow> string" where
  "writeSet name elements =
     line (''  set '' @ name @ '' {'') @ line ''    type ipv4_addr . inet_service;'' @
     (if elements = [] then [] else line (''    elements = { '' @ join '', '' elements @ '' };'')) @ line ''  }'' @ newline"

definition writeMap :: "string \<Rightarrow> string \<Rightarrow> string list \<Rightarrow> string" where
  "writeMap name valueType elements =
     line (''  map '' @ name @ '' {'') @ line (''    type ipv4_addr . inet_service : '' @ valueType @ '';'') @
     (if elements = [] then [] else line (''    elements = { '' @ join '', '' elements @ '' };'')) @ line ''  }'' @ newline"

definition counter_line :: "string \<Rightarrow> string" where
  "counter_line name = line (''  counter '' @ name @ '' { packets 0 bytes 0; }'')"

definition metadata_names :: "u64 \<Rightarrow> string \<Rightarrow> string \<Rightarrow> string list" where
  "metadata_names generation desiredChecksum programChecksum =
     [''flux_generation_'' @ show_nat (unat generation), ''flux_desired_'' @ desiredChecksum, ''flux_program_'' @ programChecksum]"

definition writeMetadataCounters :: "u64 \<Rightarrow> string \<Rightarrow> string \<Rightarrow> string" where
  "writeMetadataCounters generation desiredChecksum programChecksum =
     concat (map counter_line (metadata_names generation desiredChecksum programChecksum)) @ newline"

definition chain_prerouting_route :: "string" where
  "chain_prerouting_route =
     line ''  chain prerouting_route {'' @
     line ''    type filter hook prerouting priority mangle; policy accept;'' @
     line ''    ct direction original meta l4proto tcp ct mark set ip daddr . tcp dport map @route_marks_tcp'' @
     line ''    ct direction original meta l4proto udp ct mark set ip daddr . udp dport map @route_marks_udp'' @
     line (''    ct direction reply ct mark & '' @ hex8 RoutingMarkMask @ '' == '' @ hex8 RoutingMarkPrefix @ '' meta mark set ct mark'') @
     line ''  }'' @ newline"

definition chain_prerouting_nat :: "string" where
  "chain_prerouting_nat =
     line ''  chain prerouting_nat {'' @
     line ''    type nat hook prerouting priority dstnat; policy accept;'' @
     line ''    meta l4proto tcp dnat ip to ip daddr . tcp dport map @dnat_addresses_tcp : ip daddr . tcp dport map @dnat_ports_tcp'' @
     line ''    meta l4proto udp dnat ip to ip daddr . udp dport map @dnat_addresses_udp : ip daddr . udp dport map @dnat_ports_udp'' @
     line ''  }'' @ newline"

definition chain_forward_control :: "bool \<Rightarrow> string" where
  "chain_forward_control blocks =
     line ''  chain forward_control {'' @
     line ''    type filter hook forward priority -10; policy accept;'' @
     line ''    meta l4proto tcp ct original ip daddr . ct original proto-dst @paused_tcp drop'' @
     line ''    meta l4proto udp ct original ip daddr . ct original proto-dst @paused_udp drop'' @
     line ''    ct state new meta l4proto tcp ct original ip daddr . ct original proto-dst @draining_tcp drop'' @
     line ''    ct state new meta l4proto udp ct original ip daddr . ct original proto-dst @draining_udp drop'' @
     (if blocks then
       line ''    ct direction original meta l4proto tcp ct original ip daddr . ct original proto-dst @managed_tcp jump protocol_block''
      else []) @
     line ''    meta l4proto tcp ct original ip daddr . ct original proto-dst @mss_clamp_tcp tcp flags & (syn | rst) == syn tcp option maxseg size set rt mtu'' @
     line ''    meta l4proto tcp meta mark set ct original ip daddr . ct original proto-dst map @marks_tcp'' @
     line ''    meta l4proto udp meta mark set ct original ip daddr . ct original proto-dst map @marks_udp'' @
     line ''    ct direction original meta l4proto tcp counter name ct original ip daddr . ct original proto-dst map @upload_counters_tcp'' @
     line ''    ct direction original meta l4proto udp counter name ct original ip daddr . ct original proto-dst map @upload_counters_udp'' @
     line ''    ct direction reply meta l4proto tcp counter name ct original ip daddr . ct original proto-dst map @download_counters_tcp'' @
     line ''    ct direction reply meta l4proto udp counter name ct original ip daddr . ct original proto-dst map @download_counters_udp'' @
     line ''  }'' @ newline"

definition chain_postrouting_nat :: "string" where
  "chain_postrouting_nat =
     line ''  chain postrouting_nat {'' @
     line ''    type nat hook postrouting priority srcnat; policy accept;'' @
     line ''    ct direction original meta l4proto tcp ct original ip daddr . ct original proto-dst @masquerade_tcp masquerade'' @
     line ''    ct direction original meta l4proto udp ct original ip daddr . ct original proto-dst @masquerade_udp masquerade'' @
     line ''    ct direction original meta l4proto tcp snat ip to ct original ip daddr . ct original proto-dst map @snat_tcp'' @
     line ''    ct direction original meta l4proto udp snat ip to ct original ip daddr . ct original proto-dst map @snat_udp'' @
     line ''  }''"

definition writeProtocolBlockChains :: "ProtocolBlockPolicy \<Rightarrow> string" where
  "writeProtocolBlockChains policy =
     line ''  chain protocol_block {'' @
     (if pb_HTTP policy then
     line ''    @ih,0,32 { 0x47455420, 0x50555420, 0x50524920 } drop'' @
     line ''    @ih,0,40 { 0x4845414420, 0x504f535420 } drop'' @
     line ''    @ih,0,48 { 0x504154434820, 0x545241434520 } drop'' @
     line ''    @ih,0,56 0x44454c45544520 drop'' @
     line ''    @ih,0,64 0x4f5054494f4e5320 drop''
      else []) @
     (if pb_SOCKS policy then
     line ''    @ih,0,16 { 0x0401, 0x0402 } @ih,64,8 0x00 drop'' @
     line ''    @ih,0,24 { 0x050100, 0x050102 } drop'' @
     line (''    @ih,0,32 { '' @ join '', '' (concat (map (\<lambda>methods. [''0x05'' @ pad_hex 2 methods @ ''0002'', ''0x05'' @ pad_hex 2 methods @ ''0200''])
        [2..<17])) @ '' } drop'')
      else []) @
     (if pb_HTTPS policy then
     line ''    @ih,0,64 0x434f4e4e45435420 drop''
      else []) @
     (if pb_TLS policy then
     line ''    @ih,0,24 { 0x160301, 0x160302, 0x160303, 0x160304 } @ih,40,8 0x01 drop''
      else if pb_HTTPS policy then
     line ''    @ih,0,24 { 0x160301, 0x160302, 0x160303, 0x160304 } @ih,40,8 0x01 jump https_alpn''
      else []) @
     line ''  }'' @ newline @
     (if \<not> pb_HTTPS policy \<or> pb_TLS policy then []
      else
     line ''  chain https_alpn {'' @
     concat (map (\<lambda>offset. line (''    @ih,'' @ show_nat (offset * 8) @ '',72 0x08687474702f312e31 drop'')) [6..<httpsALPNScanBytes - 8]) @
     concat (map (\<lambda>offset. line (''    @ih,'' @ show_nat (offset * 8) @ '',24 0x026832 drop'')) [6..<httpsALPNScanBytes - 2]) @
     line ''  }'' @ newline)"

definition script_sets :: "protocolElements \<Rightarrow> protocolElements \<Rightarrow> string" where
  "script_sets tcp udp =
     writeSet ''managed_tcp'' (pe_managed tcp) @
     writeSet ''managed_udp'' (pe_managed udp) @
     writeSet ''paused_tcp'' (pe_paused tcp) @
     writeSet ''paused_udp'' (pe_paused udp) @
     writeSet ''draining_tcp'' (pe_draining tcp) @
     writeSet ''draining_udp'' (pe_draining udp) @
     writeMap ''dnat_addresses_tcp'' ''ipv4_addr'' (pe_dnatAddresses tcp) @
     writeMap ''dnat_addresses_udp'' ''ipv4_addr'' (pe_dnatAddresses udp) @
     writeMap ''dnat_ports_tcp'' ''inet_service'' (pe_dnatPorts tcp) @
     writeMap ''dnat_ports_udp'' ''inet_service'' (pe_dnatPorts udp) @
     writeMap ''marks_tcp'' ''mark'' (pe_marks tcp) @
     writeMap ''marks_udp'' ''mark'' (pe_marks udp) @
     writeMap ''route_marks_tcp'' ''mark'' (pe_routeMarks tcp) @
     writeMap ''route_marks_udp'' ''mark'' (pe_routeMarks udp) @
     writeSet ''masquerade_tcp'' (pe_masquerade tcp) @
     writeSet ''masquerade_udp'' (pe_masquerade udp) @
     writeMap ''snat_tcp'' ''ipv4_addr'' (pe_snat tcp) @
     writeMap ''snat_udp'' ''ipv4_addr'' (pe_snat udp) @
     writeSet ''mss_clamp_tcp'' (pe_mssClamp tcp) @
     writeMap ''upload_counters_tcp'' ''counter'' (pe_uploadCounters tcp) @
     writeMap ''upload_counters_udp'' ''counter'' (pe_uploadCounters udp) @
     writeMap ''download_counters_tcp'' ''counter'' (pe_downloadCounters tcp) @
     writeMap ''download_counters_udp'' ''counter'' (pe_downloadCounters udp)"

definition nft_script :: "DesiredState \<Rightarrow> bool \<Rightarrow> u64 \<Rightarrow> string \<Rightarrow> string \<Rightarrow> nft_books \<Rightarrow> string" where
  "nft_script canonical tableExists generation desiredChecksum programChecksum b =
     (let blocks = (case ds_ProtocolBlocks canonical of None \<Rightarrow> False | Some p \<Rightarrow> ProtocolBlockPolicy_Any p) in
      (if tableExists then line ''delete table inet flux'' else []) @ line ''table inet flux {'' @
      writeMetadataCounters generation desiredChecksum programChecksum @
      concat (map (\<lambda>binding. counter_line (cb_Name binding)) (nb_counters b)) @
      (if nb_counters b \<noteq> [] then newline else []) @
      script_sets (nb_tcp b) (nb_udp b) @ chain_prerouting_route @ chain_prerouting_nat @
      (if blocks then writeProtocolBlockChains (the (ds_ProtocolBlocks canonical)) else []) @
      chain_forward_control blocks @ chain_postrouting_nat @ line ''}'')"

definition CompileAt :: "(DesiredState \<Rightarrow> string option) \<Rightarrow> DesiredState \<Rightarrow> string \<Rightarrow> bool \<Rightarrow> time \<Rightarrow> dataplane_error + NftProgram" where
  "CompileAt marshal state desiredChecksum tableExists now =
     (if Validate state \<noteq> [] then Inl (CompileInvalid (Validate state))
      else if \<not> checksumPattern desiredChecksum then Inl (CompileError ''checksum must be a lowercase SHA-256 value'')
      else case Checksum marshal state of None \<Rightarrow> Inl (CompileError ''calculate desired checksum'')
      | Some calculatedChecksum \<Rightarrow>
        if desiredChecksum \<noteq> calculatedChecksum then Inl (CompileError ''checksum does not match desired state'')
        else let canonical = Canonical state; programChecksum = ProgramChecksumAt canonical desiredChecksum now in
          case nft_elements canonical now of Inl e \<Rightarrow> Inl e
          | Inr b \<Rightarrow>
              Inr \<lparr>np_Generation = ds_Generation state, np_DesiredChecksum = desiredChecksum, np_ProgramChecksum = programChecksum,
                   np_Script = nft_script canonical tableExists (ds_Generation state) desiredChecksum programChecksum b,
                   np_Counters = nb_counters b\<rparr>)"

section \<open>What a forward contributes\<close>

text \<open>The translation of a forward, read off the desired state: its key is the socket validation has
  reserved for it (\<open>match_address\<close>), and every other entry is stored under that key.\<close>

definition at_ingress :: "DesiredState \<Rightarrow> ForwardSpec \<Rightarrow> bool" where
  "at_ingress c f \<longleftrightarrow> ds_NodeID c = fw_IngressNodeID f"

definition via_exit :: "ForwardSpec \<Rightarrow> bool" where
  "via_exit f \<longleftrightarrow> fw_PathMode f = PathViaExit"

definition nft_key :: "DesiredState \<Rightarrow> ForwardSpec \<Rightarrow> string" where
  "nft_key c f = socket (fst (match_address c f)) (snd (match_address c f))"

definition nft_entry :: "DesiredState \<Rightarrow> ForwardSpec \<Rightarrow> string \<Rightarrow> string" where
  "nft_entry c f v = nft_key c f @ '' : '' @ v"

definition nft_target :: "DesiredState \<Rightarrow> ForwardSpec \<Rightarrow> Addr" where
  "nft_target c f = Unmap (if via_exit f \<and> at_ingress c f then the (fw_ServiceVIP f) else ep_Address (fw_Target f))"

definition nft_link :: "DesiredState \<Rightarrow> ForwardSpec \<Rightarrow> FabricLinkSpec" where
  "nft_link c f = the (link_map (ds_FabricLinks c) (fw_FabricLinkID f))"

definition nft_source :: "DesiredState \<Rightarrow> ForwardSpec \<Rightarrow> Addr option" where
  "nft_source c f = (if via_exit f \<and> at_ingress c f then Some (fl_local (nft_link c f))
     else if snat_Mode (fw_SNAT f) = SNATStatic then Some (Unmap (the (snat_Address (fw_SNAT f)))) else None)"

definition nft_class :: "DesiredState \<Rightarrow> ForwardSpec \<Rightarrow> u16" where
  "nft_class c f = (let user = policy_of (ds_UserPolicies c) (fw_UserID f) in
     if \<not> at_ingress c f then 0 else if fw_RateLimit f \<noteq> None then fw_TrafficClassID f
     else if up_RateLimit user \<noteq> None then up_TrafficClassID user else 0)"

definition class_resolved :: "DesiredState \<Rightarrow> ForwardSpec \<Rightarrow> bool" where
  "class_resolved c f \<longleftrightarrow> (at_ingress c f \<and>
     (fw_RateLimit f \<noteq> None \<or> up_RateLimit (policy_of (ds_UserPolicies c) (fw_UserID f)) \<noteq> None) \<longrightarrow> nft_class c f \<noteq> 0)"

definition translation :: "DesiredState \<Rightarrow> time \<Rightarrow> Protocol \<Rightarrow> ForwardSpec list \<Rightarrow> protocolElements" where
  "translation c now p fs = \<lparr>
     pe_managed = map (nft_key c) fs,
     pe_paused = map (nft_key c) (filter (\<lambda>f. EffectiveLifecycle f now = LifecyclePaused \<or> EffectiveLifecycle f now = LifecycleForceDeleting) fs),
     pe_draining = map (nft_key c) (filter (\<lambda>f. EffectiveLifecycle f now = LifecycleDraining) fs),
     pe_dnatAddresses = map (\<lambda>f. nft_entry c f (Addr_String (nft_target c f))) fs,
     pe_dnatPorts = map (\<lambda>f. nft_entry c f (show_nat (unat (ep_Port (fw_Target f))))) fs,
     pe_marks = map (\<lambda>f. nft_entry c f (hex8 (TrafficMark (nft_class c f)))) (filter (\<lambda>f. nft_class c f \<noteq> 0) fs),
     pe_routeMarks = map (\<lambda>f. nft_entry c f (hex8 (RoutingMark (fl_RoutingID (nft_link c f))))) (filter (\<lambda>f. \<not> at_ingress c f \<and> via_exit f) fs),
     pe_masquerade = map (nft_key c) (filter (\<lambda>f. nft_source c f = None) fs),
     pe_snat = map (\<lambda>f. nft_entry c f (Addr_String (the (nft_source c f)))) (filter (\<lambda>f. nft_source c f \<noteq> None) fs),
     pe_mssClamp = map (nft_key c) (filter via_exit fs),
     pe_uploadCounters = map (\<lambda>f. nft_entry c f (quoted (stableCounterName (fw_ID f) p DirectionUpload))) (filter (at_ingress c) fs),
     pe_downloadCounters = map (\<lambda>f. nft_entry c f (quoted (stableCounterName (fw_ID f) p DirectionDownload))) (filter (at_ingress c) fs)\<rparr>"

definition nft_bindings :: "ForwardSpec \<Rightarrow> Protocol \<Rightarrow> CounterBinding list" where
  "nft_bindings f p = map (\<lambda>d. \<lparr>cb_Name = stableCounterName (fw_ID f) p d, cb_ForwardID = fw_ID f, cb_Protocol = p, cb_Direction = d,
     cb_ResourceVersion = fw_ResourceVersion f\<rparr>) [DirectionUpload, DirectionDownload]"

definition nft_forward_ok :: "DesiredState \<Rightarrow> ForwardSpec \<Rightarrow> bool" where
  "nft_forward_ok c f \<longleftrightarrow> fw_Protocols f \<noteq> [] \<and> distinct (fw_Protocols f) \<and> set (fw_Protocols f) \<subseteq> {ProtocolTCP, ProtocolUDP} \<and>
     snat_ok (fw_SNAT f) \<and>
     (if via_exit f then (\<exists>v l. fw_ServiceVIP f = Some v \<and> fabric_map (ds_FabricLinks c) (fw_FabricLinkID f) = Some l \<and>
        link_map (ds_FabricLinks c) (fw_FabricLinkID f) = Some l) \<and> (at_ingress c f \<longleftrightarrow> ds_NodeID c \<noteq> fw_ExitNodeID f)
      else fw_ServiceVIP f = None)"

lemma nft_path_ok:
  assumes "nft_forward_ok c f"
  shows "nft_path (fabric_map (ds_FabricLinks c)) (at_ingress c f) f =
    Inr (match_address c f, nft_target c f, if via_exit f \<and> at_ingress c f then Some (nft_link c f) else None)"
  using assms
  by (auto simp: nft_path_def nft_forward_ok_def via_exit_def match_address_def nft_target_def nft_link_def Let_def split: if_splits)

lemma append_if:
  "(if c then e\<lparr>pe_mssClamp := pe_mssClamp e @ [x]\<rparr> else e) = e\<lparr>pe_mssClamp := pe_mssClamp e @ (if c then [x] else [])\<rparr>"
  "(if c then e\<lparr>pe_uploadCounters := pe_uploadCounters e @ [x], pe_downloadCounters := pe_downloadCounters e @ [y]\<rparr> else e) =
     e\<lparr>pe_uploadCounters := pe_uploadCounters e @ (if c then [x] else []), pe_downloadCounters := pe_downloadCounters e @ (if c then [y] else [])\<rparr>"
  "(if c then e\<lparr>pe_marks := pe_marks e @ [x]\<rparr> else e) = e\<lparr>pe_marks := pe_marks e @ (if c then [x] else [])\<rparr>"
  "(if c then e\<lparr>pe_routeMarks := pe_routeMarks e @ [x]\<rparr> else e) = e\<lparr>pe_routeMarks := pe_routeMarks e @ (if c then [x] else [])\<rparr>"
  "(if c then e\<lparr>pe_paused := pe_paused e @ [x]\<rparr> else if d then e\<lparr>pe_draining := pe_draining e @ [x]\<rparr> else e) =
     e\<lparr>pe_paused := pe_paused e @ (if c then [x] else []), pe_draining := pe_draining e @ (if \<not> c \<and> d then [x] else [])\<rparr>"
  "(if c then b\<lparr>nb_counters := nb_counters b @ xs\<rparr> else b) = b\<lparr>nb_counters := nb_counters b @ (if c then xs else [])\<rparr>"
  by simp_all

lemma map_if: "map g (if c then [f] else []) = (if c then [g f] else [])"
  by simp

lemma translation_snoc:
  assumes ok: "nft_forward_ok c f" and e: "elements_of b p = Some (translation c now p fs)"
  shows "nft_protocol_step (fabric_map (ds_FabricLinks c)) (at_ingress c f) (nft_class c f) (EffectiveLifecycle f now) f i p b =
    Inr ((set_elements p (translation c now p (fs @ [f])) b)
      \<lparr>nb_counters := nb_counters b @ (if at_ingress c f then nft_bindings f p else [])\<rparr>)"
proof -
  obtain a q where m: "match_address c f = (a, q)" by (cases "match_address c f")
  have key: "socket a q = nft_key c f" by (simp add: nft_key_def m)
  have class0: "(at_ingress c f \<and> nft_class c f \<noteq> 0) = (nft_class c f \<noteq> 0)" by (auto simp: nft_class_def Let_def)
  have link: "\<not> at_ingress c f \<Longrightarrow> via_exit f \<Longrightarrow> fabric_map (ds_FabricLinks c) (fw_FabricLinkID f) = Some (nft_link c f)"
    using ok by (auto simp: nft_forward_ok_def nft_link_def)
  have life: "(\<not> (EffectiveLifecycle f now = LifecyclePaused \<or> EffectiveLifecycle f now = LifecycleForceDeleting) \<and>
      EffectiveLifecycle f now = LifecycleDraining) = (EffectiveLifecycle f now = LifecycleDraining)" by auto
  have cn: "nb_counters (set_elements p x b) = nb_counters b" for x by (simp add: set_elements_def)
  have snat: "snat_Mode (fw_SNAT f) = SNATStatic \<Longrightarrow> \<exists>x. snat_Address (fw_SNAT f) = Some x"
    using ok by (auto simp: nft_forward_ok_def snat_ok_def)
  note start = nft_protocol_step_def append_if nft_path_ok [OF ok] m e sum.case prod.case option.case via_exit_def [symmetric] key class0 life
  note eval = Let_def cn translation_def nft_bindings_def nft_entry_def map_if link
  show ?thesis
  proof (cases "via_exit f \<and> at_ingress c f")
    case True
    then have "nft_source c f = Some (fl_local (nft_link c f))" by (simp add: nft_source_def)
    with True show ?thesis unfolding start by (simp add: eval cong: if_cong split del: if_split)
  next
    case False
    show ?thesis
    proof (cases "snat_Mode (fw_SNAT f) = SNATStatic")
      case True
      then obtain x where x: "snat_Address (fw_SNAT f) = Some x" using snat by blast
      then have "nft_source c f = Some (Unmap x)" using False True by (auto simp: nft_source_def)
      then show ?thesis unfolding start if_not_P [OF False] using True x
        by (simp add: eval cong: if_cong split del: if_split)
    next
      case masq: False
      then have "nft_source c f = None" using False by (auto simp: nft_source_def)
      then show ?thesis unfolding start if_not_P [OF False] using masq
        by (simp add: eval cong: if_cong split del: if_split)
    qed
  qed
qed

section \<open>The loops\<close>

lemma fold_index:
  assumes "distinct (map key xs)"
  shows "fold (\<lambda>x m. m(key x \<mapsto> x)) xs Map.empty = map_of (map (\<lambda>x. (key x, x)) xs)"
proof -
  have "fold (\<lambda>x m. m(key x \<mapsto> x)) xs m = m ++ map_of (rev (map (\<lambda>x. (key x, x)) xs))" for m
    by (induction xs arbitrary: m) (auto simp: map_add_def fun_eq_iff split: option.splits)
  then have "fold (\<lambda>x m. m(key x \<mapsto> x)) xs Map.empty = map_of (rev (map (\<lambda>x. (key x, x)) xs))" by simp
  also have "\<dots> = map_of (map (\<lambda>x. (key x, x)) xs)"
    using assms by (subst map_of_inject_set) (simp_all add: comp_def rev_map [symmetric])
  finally show ?thesis .
qed

lemma two_protocols:
  assumes "distinct ps" and "set ps \<subseteq> {ProtocolTCP, ProtocolUDP}"
  shows "ps = [] \<or> ps = [ProtocolTCP] \<or> ps = [ProtocolUDP] \<or> ps = [ProtocolTCP, ProtocolUDP] \<or> ps = [ProtocolUDP, ProtocolTCP]"
proof -
  have "length ps \<le> 2" using card_mono [OF _ assms(2)] distinct_card [OF assms(1)] by simp
  then show ?thesis using assms
    by (cases ps; cases "tl ps"; cases "tl (tl ps)") auto
qed

abbreviation speaking :: "Protocol \<Rightarrow> ForwardSpec list \<Rightarrow> ForwardSpec list" where
  "speaking p \<equiv> filter (\<lambda>f. p \<in> set (fw_Protocols f))"

definition nft_inv :: "DesiredState \<Rightarrow> time \<Rightarrow> ForwardSpec list \<Rightarrow> nft_books \<Rightarrow> bool" where
  "nft_inv c now fs b \<longleftrightarrow> nb_tcp b = translation c now ProtocolTCP (speaking ProtocolTCP fs) \<and>
     nb_udp b = translation c now ProtocolUDP (speaking ProtocolUDP fs) \<and>
     nb_counters b = concat (map (\<lambda>f. concat (map (nft_bindings f) (fw_Protocols f))) (filter (at_ingress c) fs))"

lemma nft_protocols:
  assumes ok: "nft_forward_ok c f" and inv: "nft_inv c now fs b"
  shows "\<exists>b'. range_check (nft_protocol_step (fabric_map (ds_FabricLinks c)) (at_ingress c f) (nft_class c f) (EffectiveLifecycle f now) f)
      0 b (fw_Protocols f) = Inr b' \<and> nft_inv c now (fs @ [f]) b'"
proof -
  let ?t = "\<lambda>p. translation c now p (speaking p fs)"
  have e: "elements_of b' ProtocolTCP = Some (?t ProtocolTCP)" if "nb_tcp b' = ?t ProtocolTCP" for b' using that by (simp add: elements_of_def)
  have u: "elements_of b' ProtocolUDP = Some (?t ProtocolUDP)" if "nb_udp b' = ?t ProtocolUDP" for b' using that by (simp add: elements_of_def)
  note tcp = translation_snoc [OF ok e] and udp = translation_snoc [OF ok u]
  have b: "nb_tcp b = ?t ProtocolTCP" "nb_udp b = ?t ProtocolUDP" using inv by (simp_all add: nft_inv_def)
  have "distinct (fw_Protocols f)" "set (fw_Protocols f) \<subseteq> {ProtocolTCP, ProtocolUDP}" "fw_Protocols f \<noteq> []"
    using ok by (simp_all add: nft_forward_ok_def)
  with two_protocols consider "fw_Protocols f = [ProtocolTCP]" | "fw_Protocols f = [ProtocolUDP]"
    | "fw_Protocols f = [ProtocolTCP, ProtocolUDP]" | "fw_Protocols f = [ProtocolUDP, ProtocolTCP]" by blast
  then show ?thesis
    by cases (use inv in \<open>simp_all add: tcp udp b set_elements_def nft_inv_def\<close>)
qed

lemma nft_class_resolved:
  "(if at_ingress c f then forwardingClass f (policy_of (ds_UserPolicies c) (fw_UserID f)) else Inr 0) =
     (if class_resolved c f then Inr (nft_class c f)
      else if at_ingress c f then forwardingClass f (policy_of (ds_UserPolicies c) (fw_UserID f)) else Inr 0)"
  "\<not> class_resolved c f \<Longrightarrow> \<exists>e. forwardingClass f (policy_of (ds_UserPolicies c) (fw_UserID f)) = Inl e"
  by (cases "fw_RateLimit f"; cases "up_RateLimit (policy_of (ds_UserPolicies c) (fw_UserID f))";
      simp add: forwardingClass_def class_resolved_def nft_class_def Let_def)+

interpretation nft_loop: check_total "nft_forward_step c now" "\<lambda>f. nft_forward_ok c f \<and> class_resolved c f" "nft_inv c now" for c now
proof unfold_locales
  fix seen b f i
  assume inv: "nft_inv c now seen b" and ok: "nft_forward_ok c f \<and> class_resolved c f"
  have "(if at_ingress c f then forwardingClass f (policy_of (ds_UserPolicies c) (fw_UserID f)) else Inr 0) = Inr (nft_class c f)"
    using ok by (subst nft_class_resolved(1)) simp
  then show "\<exists>b'. nft_forward_step c now i f b = Inr b' \<and> nft_inv c now (seen @ [f]) b'"
    using nft_protocols [OF conjunct1 [OF ok] inv]
    unfolding nft_forward_step_def Let_def at_ingress_def [symmetric] by (simp only: sum.case)
qed

lemma nft_elements_resolved:
  assumes "nft_elements c now = Inr b" and "f \<in> set (ds_Forwards c)"
  shows "class_resolved c f"
proof (rule ccontr)
  assume bad: "\<not> class_resolved c f"
  then have "at_ingress c f" by (auto simp: class_resolved_def)
  then have "\<exists>e. nft_forward_step c now i f st = Inl e" for i st
    using nft_class_resolved(2) [OF bad] by (auto simp: nft_forward_step_def at_ingress_def)
  then have stops: "nft_forward_step c now i f st \<noteq> Inr st'" for i st st' by (metis sum.distinct(1))
  have "range_check (nft_forward_step c now) i st fs \<noteq> Inr st'" if "f \<in> set fs" for i st fs st'
    using that stops by (induction fs arbitrary: i st) (auto split: sum.splits)
  with assms show False unfolding nft_elements_def by blast
qed

lemma well_formed_nft:
  assumes "well_formed c" and f: "f \<in> set (ds_Forwards c)"
  shows "nft_forward_ok c f"
proof -
  have ok: "forward_ok c (service_nets c) (link_map (ds_FabricLinks c)) (policy_classes c - {0}) f"
    and compat: "sorted_wrt link_compat (ds_FabricLinks c)"
    using assms unfolding well_formed_def by blast+
  have "distinct (map fl_ID (ds_FabricLinks c))" unfolding distinct_map_sorted_wrt
    by (rule sorted_wrt_mono_rel [OF _ compat]) (simp add: link_compat_def)
  then have "fabric_map (ds_FabricLinks c) = link_map (ds_FabricLinks c)" unfolding fabric_map_def link_map_def by (rule fold_index)
  moreover have "path_ok c (service_nets c) (link_map (ds_FabricLinks c)) f" using ok by (simp add: forward_ok_def)
  ultimately have "if via_exit f then (\<exists>v l. fw_ServiceVIP f = Some v \<and> fabric_map (ds_FabricLinks c) (fw_FabricLinkID f) = Some l \<and>
        link_map (ds_FabricLinks c) (fw_FabricLinkID f) = Some l) \<and> (at_ingress c f \<longleftrightarrow> ds_NodeID c \<noteq> fw_ExitNodeID f)
      else fw_ServiceVIP f = None"
    by (auto simp: path_ok_def via_exit_def at_ingress_def)
  then show ?thesis using ok by (simp add: forward_ok_def nft_forward_ok_def)
qed

section \<open>Keys are sockets\<close>

lemma socket_inject: "socket (Addr4 v) p = socket (Addr4 w) q \<Longrightarrow> v = w \<and> p = q"
proof -
  have digit: "CHR '' '' \<notin> set (show_nat n)" for n using show_nat_digits [of "CHR '' ''" n] by auto
  then have no: "CHR '' '' \<notin> set (string4 w)" for w by (auto simp: string4_def octet4_def)
  assume "socket (Addr4 v) p = socket (Addr4 w) q"
  then have "string4 v = string4 w \<and> ''. '' @ show_nat (unat p) = ''. '' @ show_nat (unat q)"
    using no by (intro sep_inject [of _ "CHR '' ''"]) (simp_all add: socket_def)
  then show "v = w \<and> p = q" using Addr_String_inject [of v w] by (simp add: word_unat_eq_iff)
qed

lemma match_address_4:
  assumes "well_formed c" and "f \<in> set (ds_Forwards c)"
  shows "\<exists>w. fst (match_address c f) = Addr4 w"
proof -
  have "forward_ok c (service_nets c) (link_map (ds_FabricLinks c)) (policy_classes c - {0}) f"
    using assms unfolding well_formed_def by blast
  then have "usable4 (ep_Address (fw_Listen f))" "\<And>v. fw_ServiceVIP f = Some v \<Longrightarrow> usable4 v"
    by (auto simp: forward_ok_def endpoint_ok_def path_ok_def)
  then show ?thesis by (auto simp: match_address_def usable4_def split: option.splits)
qed

lemma nft_keys_distinct:
  assumes wf: "well_formed c" and sp: "\<forall>f\<in>set fs. p \<in> set (fw_Protocols f)" and sub: "set fs \<subseteq> set (ds_Forwards c)"
    and compat: "sorted_wrt (forward_compat c) fs"
  shows "distinct (map (nft_key c) fs)"
  unfolding distinct_map_sorted_wrt
proof (rule sorted_wrt_mono_rel [OF _ compat])
  fix f g assume fg: "f \<in> set fs" "g \<in> set fs" and "forward_compat c f g"
  then have "listen_keys c f \<inter> listen_keys c g = {}" by (simp add: forward_compat_def)
  moreover have "(fst (match_address c f), p, snd (match_address c f)) \<in> listen_keys c f"
    "(fst (match_address c g), p, snd (match_address c g)) \<in> listen_keys c g"
    using sp fg by (auto simp: listen_keys_def)
  ultimately have "match_address c f \<noteq> match_address c g" by auto
  moreover obtain v w where "fst (match_address c f) = Addr4 v" "fst (match_address c g) = Addr4 w"
    using match_address_4 [OF wf] fg sub by blast
  ultimately show "nft_key c f \<noteq> nft_key c g"
    unfolding nft_key_def by (metis socket_inject prod.collapse)
qed

section \<open>The whole compiler\<close>

lemma CompileAt_eq:
  assumes "Validate s = []" and "Checksum marshal s = Some digest"
  shows "CompileAt marshal s digest tableExists now = (case nft_elements (Canonical s) now of Inl e \<Rightarrow> Inl e
      | Inr b \<Rightarrow> Inr \<lparr>np_Generation = ds_Generation s, np_DesiredChecksum = digest,
          np_ProgramChecksum = ProgramChecksumAt (Canonical s) digest now,
          np_Script = nft_script (Canonical s) tableExists (ds_Generation s) digest (ProgramChecksumAt (Canonical s) digest now) b,
          np_Counters = nb_counters b\<rparr>)"
  using assms Checksum_pattern [OF assms(2)] by (simp add: CompileAt_def Let_def)

lemma CompileAt_accepts:
  "CompileAt marshal s digest tableExists now = Inr pr \<Longrightarrow> Validate s = [] \<and> Checksum marshal s = Some digest"
  by (auto simp: CompileAt_def Let_def split: if_splits option.splits)

lemma nft_elements_run:
  assumes "well_formed c" and "\<forall>f\<in>set (ds_Forwards c). class_resolved c f"
  shows "\<exists>b. nft_elements c now = Inr b \<and> nft_inv c now (ds_Forwards c) b"
proof -
  have "nft_inv c now [] \<lparr>nb_tcp = no_elements, nb_udp = no_elements, nb_counters = []\<rparr>"
    by (simp add: nft_inv_def translation_def no_elements_def)
  from nft_loop.total_check [OF this, of "ds_Forwards c" 0] show ?thesis
    using assms well_formed_nft [OF assms(1)] by (simp add: nft_elements_def)
qed

lemma CompileAt_iff:
  assumes "Validate s = []" and "Checksum marshal s = Some digest"
  shows "(\<exists>pr. CompileAt marshal s digest tableExists now = Inr pr) \<longleftrightarrow>
      (\<forall>f\<in>set (ds_Forwards (Canonical s)). class_resolved (Canonical s) f)" (is "?made = ?resolved")
proof
  have wf: "well_formed (Canonical s)" using assms(1) by (intro Canonical_well_formed) (simp add: Validate_well_formed)
  show ?resolved if ?made
    using that nft_elements_resolved [of "Canonical s" now] unfolding CompileAt_eq [OF assms]
    by (cases "nft_elements (Canonical s) now") auto
  show ?made if ?resolved
    using nft_elements_run [OF wf that, of now] unfolding CompileAt_eq [OF assms] by auto
qed

lemma CompileAt_books:
  assumes "CompileAt marshal s digest tableExists now = Inr pr"
  shows "\<exists>b. nft_elements (Canonical s) now = Inr b \<and> nft_inv (Canonical s) now (ds_Forwards (Canonical s)) b \<and> np_Counters pr = nb_counters b"
proof -
  have acc: "Validate s = []" "Checksum marshal s = Some digest" using CompileAt_accepts [OF assms] by blast+
  then have wf: "well_formed (Canonical s)" by (intro Canonical_well_formed) (simp add: Validate_well_formed)
  obtain b where b: "nft_elements (Canonical s) now = Inr b" "nft_inv (Canonical s) now (ds_Forwards (Canonical s)) b"
    using nft_elements_run [OF wf] CompileAt_iff [OF acc] assms by blast
  then show ?thesis using assms unfolding CompileAt_eq [OF acc] by auto
qed

lemma CompileAt_keys:
  assumes "well_formed c" and "nft_inv c now (ds_Forwards c) b" and "p \<in> {ProtocolTCP, ProtocolUDP}"
  shows "\<exists>e. elements_of b p = Some e \<and> distinct (pe_managed e) \<and> e = translation c now p (speaking p (ds_Forwards c))"
proof -
  have "sorted_wrt (forward_compat c) (speaking p (ds_Forwards c))"
    using assms(1) unfolding well_formed_def by (auto intro: sorted_wrt_filter)
  then have "distinct (map (nft_key c) (speaking p (ds_Forwards c)))"
    by (intro nft_keys_distinct [OF assms(1), of _ p]) auto
  then show ?thesis using assms(2,3) by (auto simp: nft_inv_def elements_of_def translation_def)
qed

section \<open>Property\<close>

text \<open>C9. For an accepted state that carries its own checksum the compiler succeeds exactly when every
  rate-limited forward entering at this node has a traffic class. Then the sets and maps of each
  protocol are exactly the translation of the forwards that speak it, in the order of their
  identifiers, under pairwise distinct keys: the kernel's maps are functions of the packet's socket,
  no forward is lost, none overrides another, and the script is written from these elements.\<close>

theorem CompileAt_translates:
  assumes "Validate s = []" and "Checksum marshal s = Some digest"
  shows "((\<exists>pr. CompileAt marshal s digest tableExists now = Inr pr) \<longleftrightarrow>
      (\<forall>f\<in>set (ds_Forwards (Canonical s)). class_resolved (Canonical s) f)) \<and>
    (\<forall>pr. CompileAt marshal s digest tableExists now = Inr pr \<longrightarrow>
      (\<exists>b. np_Script pr = nft_script (Canonical s) tableExists (np_Generation pr) (np_DesiredChecksum pr) (np_ProgramChecksum pr) b \<and>
        np_Counters pr = nb_counters b \<and> np_Generation pr = ds_Generation s \<and> np_DesiredChecksum pr = digest \<and>
        np_ProgramChecksum pr = ProgramChecksumAt (Canonical s) digest now \<and>
        (\<forall>p\<in>{ProtocolTCP, ProtocolUDP}. \<exists>e. elements_of b p = Some e \<and> distinct (pe_managed e) \<and>
           e = translation (Canonical s) now p (speaking p (ds_Forwards (Canonical s))))))"
proof (intro conjI CompileAt_iff assms allI impI)
  have wf: "well_formed (Canonical s)" using assms(1) by (intro Canonical_well_formed) (simp add: Validate_well_formed)
  fix pr assume made: "CompileAt marshal s digest tableExists now = Inr pr"
  then obtain b where b: "nft_elements (Canonical s) now = Inr b" "nft_inv (Canonical s) now (ds_Forwards (Canonical s)) b"
    using CompileAt_books by blast
  have pr: "pr = \<lparr>np_Generation = ds_Generation s, np_DesiredChecksum = digest,
      np_ProgramChecksum = ProgramChecksumAt (Canonical s) digest now,
      np_Script = nft_script (Canonical s) tableExists (ds_Generation s) digest (ProgramChecksumAt (Canonical s) digest now) b,
      np_Counters = nb_counters b\<rparr>"
    using made unfolding CompileAt_eq [OF assms] b(1) by simp
  show "\<exists>b. np_Script pr = nft_script (Canonical s) tableExists (np_Generation pr) (np_DesiredChecksum pr) (np_ProgramChecksum pr) b \<and>
        np_Counters pr = nb_counters b \<and> np_Generation pr = ds_Generation s \<and> np_DesiredChecksum pr = digest \<and>
        np_ProgramChecksum pr = ProgramChecksumAt (Canonical s) digest now \<and>
        (\<forall>p\<in>{ProtocolTCP, ProtocolUDP}. \<exists>e. elements_of b p = Some e \<and> distinct (pe_managed e) \<and>
           e = translation (Canonical s) now p (speaking p (ds_Forwards (Canonical s))))"
    unfolding pr by (intro exI [of _ b] conjI ballI CompileAt_keys [OF wf b(2)]) simp_all
qed

text \<open>The sample state has no rate limit of a forward and one of the user, with class 10.\<close>

lemma sample_resolved: "\<forall>f\<in>set (ds_Forwards (Canonical sample_state)). class_resolved (Canonical sample_state) f"
proof -
  have "policy_of (ds_UserPolicies (Canonical sample_state)) ''user-1'' = hd (ds_UserPolicies sample_state)"
    by (simp add: policy_of_def policy_map_def Canonical_def sample_state_def)
  then show ?thesis
    by (auto simp: class_resolved_def nft_class_def Let_def Canonical_def sample_state_def sample_forward_def)
qed

abbreviation sample_marshal :: "DesiredState \<Rightarrow> string option" where
  "sample_marshal \<equiv> \<lambda>d. Some (ds_NodeID d)"

definition sample_digest :: string where
  "sample_digest = hex_EncodeToString (Sum256 (ds_NodeID (Canonical sample_state)))"

lemma sample_checksum: "Checksum sample_marshal sample_state = Some sample_digest"
  by (simp add: Checksum_def sample_digest_def)

theorem CompileAt_translates_witness:
  "\<exists>pr. CompileAt sample_marshal sample_state sample_digest True 0 = Inr pr \<and> np_Generation pr = 1"
proof -
  note compiled = CompileAt_translates [OF sample_valid sample_checksum, of True 0]
  then obtain pr where "CompileAt sample_marshal sample_state sample_digest True 0 = Inr pr" using sample_resolved by blast
  moreover from this have "np_Generation pr = ds_Generation sample_state" using compiled by blast
  ultimately show ?thesis by (simp add: sample_state_def)
qed

end
