(* ===== verification/Nft_Executor.thy ===== *)
theory Nft_Executor
  imports Nft_Compiler
begin

text \<open>
  \<open>internal/dataplane/nft/executor.go\<close>: running \<open>nft\<close> and reading back what is installed. The program
  \<open>nft\<close> itself is the parameter \<open>run\<close>, which acts on the kernel's state \<open>'k\<close> and returns the standard
  output, or the standard error and the error of the command; \<open>json.Unmarshal\<close> is the parameter of the
  functions that decode its listings. A decoded entry without a table or counter is \<open>None\<close>.
\<close>

section \<open>Model\<close>

record RawCounter =
  rc_Name :: string
  rc_Packets :: u64
  rc_Bytes :: u64

record InstalledState =
  is_Exists :: bool
  is_Managed :: bool
  is_Generation :: u64
  is_DesiredChecksum :: string
  is_ProgramChecksum :: string

definition not_installed :: InstalledState where
  "not_installed = \<lparr>is_Exists = False, is_Managed = False, is_Generation = 0, is_DesiredChecksum = [], is_ProgramChecksum = []\<rparr>"

definition trim_prefix :: "string \<Rightarrow> string \<Rightarrow> string option" where
  "trim_prefix pre s = (if take (length pre) s = pre then Some (drop (length pre) s) else None)"

definition generationPrefix :: string where "generationPrefix = ''flux_generation_''"
definition desiredPrefix :: string where "desiredPrefix = ''flux_desired_''"
definition programPrefix :: string where "programPrefix = ''flux_program_''"

type_synonym metadata = "u64 option \<times> string option \<times> string option"

text \<open>A round of \<open>parseMetadataCounters\<close>; the error is the early return of an unmanaged table.\<close>

definition metadata_step :: "nat \<Rightarrow> RawCounter \<Rightarrow> metadata \<Rightarrow> unit + metadata" where
  "metadata_step i counter st = (case st of (generation, desired, program) \<Rightarrow>
     (case trim_prefix generationPrefix (rc_Name counter) of
        Some value \<Rightarrow>
          if generation \<noteq> None then Inl ()
          else (case ParseUint 64 value of None \<Rightarrow> Inl ()
                | Some parsed \<Rightarrow> if parsed = 0 then Inl () else Inr (Some (of_nat parsed), desired, program))
      | None \<Rightarrow>
        (case trim_prefix desiredPrefix (rc_Name counter) of
           Some value \<Rightarrow>
             if desired \<noteq> None then Inl ()
             else if \<not> checksumPattern value then Inl () else Inr (generation, Some value, program)
         | None \<Rightarrow>
           (case trim_prefix programPrefix (rc_Name counter) of
              Some value \<Rightarrow>
                if program \<noteq> None then Inl ()
                else if \<not> checksumPattern value then Inl () else Inr (generation, desired, Some value)
            | None \<Rightarrow> Inr st))))"

definition parseMetadataCounters :: "RawCounter list \<Rightarrow> u64 \<times> string \<times> string \<times> bool" where
  "parseMetadataCounters counters =
     (case range_check metadata_step 0 (None, None, None) counters of
        Inl _ \<Rightarrow> (0, [], [], False)
      | Inr (g, d, p) \<Rightarrow> ((case g of None \<Rightarrow> 0 | Some v \<Rightarrow> v), (case d of None \<Rightarrow> [] | Some v \<Rightarrow> v),
          (case p of None \<Rightarrow> [] | Some v \<Rightarrow> v), g \<noteq> None \<and> d \<noteq> None \<and> p \<noteq> None))"

text \<open>\<open>strings.SplitN(s, sep, 2)\<close>: the parts around the first occurrence of the separator.\<close>

fun split_once :: "string \<Rightarrow> string \<Rightarrow> (string \<times> string) option" where
  "split_once sep [] = (if sep = [] then Some ([], []) else None)"
| "split_once sep (c # s) = (case trim_prefix sep (c # s) of Some r \<Rightarrow> Some ([], r)
     | None \<Rightarrow> map_option (\<lambda>(a, b). (c # a, b)) (split_once sep s))"

definition parseTableComment :: "string \<Rightarrow> u64 \<times> string \<times> string \<times> bool" where
  "parseTableComment comment =
     (case trim_prefix ''managed-by=flux;generation='' comment of None \<Rightarrow> (0, [], [], False)
      | Some remainder \<Rightarrow>
        (case split_once '';desired='' remainder of None \<Rightarrow> (0, [], [], False)
         | Some (generationText, rest) \<Rightarrow>
           (case split_once '';program='' rest of None \<Rightarrow> (0, [], [], False)
            | Some (desired, program) \<Rightarrow>
                if \<not> checksumPattern desired \<or> \<not> checksumPattern program then (0, [], [], False)
                else (case ParseUint 64 generationText of None \<Rightarrow> (0, [], [], False)
                  | Some generation \<Rightarrow> if generation = 0 then (0, [], [], False)
                      else (of_nat generation, desired, program, True)))))"

record TableEntry =
  te_Family :: string
  te_Name :: string
  te_Comment :: string

record CounterEntry =
  ce_Family :: string
  ce_Table :: string
  ce_Counter :: RawCounter

datatype executor_error = CommandError string string string | DecodeError string | WrappedError string executor_error

type_synonym 'k runner = "string list \<Rightarrow> string \<Rightarrow> 'k \<Rightarrow> ((string \<times> string) + string) \<times> 'k"
type_synonym 'e decoder = "string \<Rightarrow> (string + 'e option) list option"

text \<open>The entries are decoded one after the other, so a malformed entry is noticed when it is reached.\<close>

fun counter_entries :: "(string + CounterEntry option) list \<Rightarrow> executor_error + RawCounter list" where
  "counter_entries [] = Inr []"
| "counter_entries (Inl e # rest) = Inl (DecodeError ''decode nft counter entry'')"
| "counter_entries (Inr None # rest) = counter_entries rest"
| "counter_entries (Inr (Some c) # rest) =
     (if ce_Family c \<noteq> TableFamily \<or> ce_Table c \<noteq> TableName then counter_entries rest
      else case counter_entries rest of Inl e \<Rightarrow> Inl e | Inr cs \<Rightarrow> Inr (ce_Counter c # cs))"

definition ReadCounters :: "'k runner \<Rightarrow> CounterEntry decoder \<Rightarrow> 'k \<Rightarrow> (executor_error + RawCounter list) \<times> 'k" where
  "ReadCounters run decode k =
     (case run [''-j'', ''list'', ''counters''] [] k of
        (Inl (stderr, err), k') \<Rightarrow> (Inl (CommandError ''read nft counters'' stderr err), k')
      | (Inr stdout, k') \<Rightarrow>
          (case decode stdout of None \<Rightarrow> (Inl (DecodeError ''decode nft counters''), k')
           | Some entries \<Rightarrow> (counter_entries entries, k')))"

definition installed :: "u64 \<times> string \<times> string \<times> bool \<Rightarrow> InstalledState" where
  "installed r = (case r of (generation, desired, program, managed) \<Rightarrow>
     \<lparr>is_Exists = True, is_Managed = managed, is_Generation = generation, is_DesiredChecksum = desired, is_ProgramChecksum = program\<rparr>)"

fun inspect_entries :: "'k runner \<Rightarrow> CounterEntry decoder \<Rightarrow> (string + TableEntry option) list \<Rightarrow> 'k \<Rightarrow>
    (executor_error + InstalledState) \<times> 'k" where
  "inspect_entries run decode [] k = (Inr not_installed, k)"
| "inspect_entries run decode (Inl e # rest) k = (Inl (DecodeError ''decode nft table entry''), k)"
| "inspect_entries run decode (Inr None # rest) k = inspect_entries run decode rest k"
| "inspect_entries run decode (Inr (Some t) # rest) k =
     (if te_Family t \<noteq> TableFamily \<or> te_Name t \<noteq> TableName then inspect_entries run decode rest k
      else case parseTableComment (te_Comment t) of (generation, desired, program, managed) \<Rightarrow>
        if managed then (Inr (installed (generation, desired, program, managed)), k)
        else case ReadCounters run decode k of
          (Inl e, k') \<Rightarrow> (Inl (WrappedError ''inspect metadata counters'' e), k')
        | (Inr counters, k') \<Rightarrow> (Inr (installed (parseMetadataCounters counters)), k'))"

definition Inspect :: "'k runner \<Rightarrow> TableEntry decoder \<Rightarrow> CounterEntry decoder \<Rightarrow> 'k \<Rightarrow> (executor_error + InstalledState) \<times> 'k" where
  "Inspect run decodeTables decodeCounters k =
     (case run [''-j'', ''list'', ''tables''] [] k of
        (Inl (stderr, err), k') \<Rightarrow> (Inl (CommandError ''inspect tables'' stderr err), k')
      | (Inr stdout, k') \<Rightarrow>
          (case decodeTables stdout of None \<Rightarrow> (Inl (DecodeError ''decode nft table list''), k')
           | Some entries \<Rightarrow> inspect_entries run decodeCounters entries k'))"

definition nft_run :: "string \<Rightarrow> string list \<Rightarrow> 'k runner \<Rightarrow> string \<Rightarrow> 'k \<Rightarrow> executor_error option \<times> 'k" where
  "nft_run operation args run script k =
     (case run args script k of (Inl (stderr, err), k') \<Rightarrow> (Some (CommandError operation stderr err), k') | (Inr _, k') \<Rightarrow> (None, k'))"

definition nft_Check :: "'k runner \<Rightarrow> string \<Rightarrow> 'k \<Rightarrow> executor_error option \<times> 'k" where
  "nft_Check = nft_run ''preflight nft program'' [''-c'', ''-f'', ''-'']"

definition nft_Apply :: "'k runner \<Rightarrow> string \<Rightarrow> 'k \<Rightarrow> executor_error option \<times> 'k" where
  "nft_Apply = nft_run ''apply nft program'' [''-f'', ''-'']"

section \<open>Reading the metadata counters\<close>

definition tagged :: "string \<Rightarrow> RawCounter list \<Rightarrow> string list" where
  "tagged pre cs = List.map_filter (\<lambda>c. trim_prefix pre (rc_Name c)) cs"

definition first :: "'a list \<Rightarrow> 'a option" where
  "first xs = (case xs of [] \<Rightarrow> None | x # _ \<Rightarrow> Some x)"

lemma tagged_snoc: "tagged pre (cs @ [c]) = tagged pre cs @ (case trim_prefix pre (rc_Name c) of None \<Rightarrow> [] | Some v \<Rightarrow> [v])"
  by (simp add: tagged_def List.map_filter_def split: option.splits)

lemma first_snoc [simp]: "first (xs @ ys) = (case first xs of None \<Rightarrow> first ys | Some x \<Rightarrow> Some x)" "first [] = None" "first (x # xs) = Some x"
  by (auto simp: first_def split: list.splits)

lemma trim_prefix_disjoint:
  assumes "trim_prefix a s = Some v" and "i < length a" and "i < length b" and "a ! i \<noteq> b ! i"
  shows "trim_prefix b s = None"
proof (rule ccontr)
  assume "trim_prefix b s \<noteq> None"
  then have "take (length b) s = b" by (auto simp: trim_prefix_def split: if_splits)
  moreover have "take (length a) s = a" using assms(1) by (auto simp: trim_prefix_def split: if_splits)
  ultimately have "s ! i = b ! i" "s ! i = a ! i" using assms(2,3) by (metis nth_take)+
  with assms(4) show False by simp
qed

lemma metadata_exclusive:
  "trim_prefix generationPrefix s = Some v \<Longrightarrow> trim_prefix desiredPrefix s = None"
  "trim_prefix generationPrefix s = Some v \<Longrightarrow> trim_prefix programPrefix s = None"
  "trim_prefix desiredPrefix s = Some v \<Longrightarrow> trim_prefix programPrefix s = None"
  "trim_prefix desiredPrefix s = Some v \<Longrightarrow> trim_prefix generationPrefix s = None"
  "trim_prefix programPrefix s = Some v \<Longrightarrow> trim_prefix generationPrefix s = None"
  "trim_prefix programPrefix s = Some v \<Longrightarrow> trim_prefix desiredPrefix s = None"
  by (erule trim_prefix_disjoint [where i = 5]; simp add: generationPrefix_def desiredPrefix_def programPrefix_def)+

definition metadata_ok :: "RawCounter \<Rightarrow> bool" where
  "metadata_ok c \<longleftrightarrow> (\<forall>v. trim_prefix generationPrefix (rc_Name c) = Some v \<longrightarrow> (\<exists>n. ParseUint 64 v = Some n \<and> n \<noteq> 0)) \<and>
     (\<forall>v. trim_prefix desiredPrefix (rc_Name c) = Some v \<longrightarrow> checksumPattern v) \<and>
     (\<forall>v. trim_prefix programPrefix (rc_Name c) = Some v \<longrightarrow> checksumPattern v)"

definition metadata_compat :: "RawCounter \<Rightarrow> RawCounter \<Rightarrow> bool" where
  "metadata_compat c d \<longleftrightarrow> (\<forall>pre\<in>{generationPrefix, desiredPrefix, programPrefix}.
     trim_prefix pre (rc_Name c) = None \<or> trim_prefix pre (rc_Name d) = None)"

definition metadata_tracks :: "metadata \<Rightarrow> RawCounter list \<Rightarrow> bool" where
  "metadata_tracks st seen \<longleftrightarrow> st = (map_option (\<lambda>v. of_nat (the (ParseUint 64 v))) (first (tagged generationPrefix seen)),
     first (tagged desiredPrefix seen), first (tagged programPrefix seen))"

lemma first_tagged: "first (tagged pre seen) = None \<longleftrightarrow> (\<forall>c\<in>set seen. trim_prefix pre (rc_Name c) = None)"
  by (induction seen) (auto simp: tagged_def List.map_filter_def first_def split: list.splits)

lemma ball_disj_swap: "(\<forall>d\<in>S. \<forall>p\<in>P. A p d \<or> B p) \<longleftrightarrow> (\<forall>p\<in>P. B p \<or> (\<forall>d\<in>S. A p d))"
  by blast

lemma one_of_three:
  assumes "g \<noteq> None \<longrightarrow> d = None \<and> p = None" and "d \<noteq> None \<longrightarrow> p = None"
  obtains v where "g = Some v" "d = None" "p = None" | v where "g = None" "d = Some v" "p = None"
    | v where "g = None" "d = None" "p = Some v" | "g = None" "d = None" "p = None"
  using assms by (cases g; cases d; cases p) auto

interpretation metadata_guard: range_guard metadata_step metadata_ok metadata_compat metadata_tracks
proof unfold_locales
  fix st seen i and c :: RawCounter
  assume "metadata_tracks st seen"
  then have st: "st = (map_option (\<lambda>v. of_nat (the (ParseUint 64 v))) (first (tagged generationPrefix seen)),
     first (tagged desiredPrefix seen), first (tagged programPrefix seen))" by (simp add: metadata_tracks_def)
  have compat: "(\<forall>d\<in>set seen. metadata_compat d c) \<longleftrightarrow> (\<forall>pre\<in>{generationPrefix, desiredPrefix, programPrefix}.
      trim_prefix pre (rc_Name c) = None \<or> first (tagged pre seen) = None)"
    unfolding first_tagged metadata_compat_def by (rule ball_disj_swap)
  let ?g = "trim_prefix generationPrefix (rc_Name c)" and ?d = "trim_prefix desiredPrefix (rc_Name c)"
    and ?p = "trim_prefix programPrefix (rc_Name c)"
  consider v where "?g = Some v" "?d = None" "?p = None" | v where "?g = None" "?d = Some v" "?p = None"
    | v where "?g = None" "?d = None" "?p = Some v" | "?g = None" "?d = None" "?p = None"
  proof (rule one_of_three [of ?g ?d ?p])
    show "?g \<noteq> None \<longrightarrow> ?d = None \<and> ?p = None" "?d \<noteq> None \<longrightarrow> ?p = None" using metadata_exclusive by blast+
  qed
  then have both: "((\<exists>st'. metadata_step i c st = Inr st') \<longleftrightarrow> metadata_ok c \<and> (\<forall>d\<in>set seen. metadata_compat d c)) \<and>
      (\<forall>st'. metadata_step i c st = Inr st' \<longrightarrow> metadata_tracks st' (seen @ [c]))"
    unfolding compat st metadata_tracks_def tagged_snoc metadata_step_def metadata_ok_def
    by cases (auto split: option.splits)
  then show "(\<exists>st'. metadata_step i c st = Inr st') \<longleftrightarrow> metadata_ok c \<and> (\<forall>d\<in>set seen. metadata_compat d c)" by blast
  show "metadata_tracks st' (seen @ [c])" if "metadata_step i c st = Inr st'" for st' using both that by blast
qed

lemma mset_map_filter: "mset xs = mset ys \<Longrightarrow> mset (List.map_filter f xs) = mset (List.map_filter f ys)"
  by (simp add: List.map_filter_def mset_filter)

lemma tagged_names: "tagged pre cs = List.map_filter (trim_prefix pre) (map rc_Name cs)"
  by (induction cs) (simp_all add: tagged_def List.map_filter_def)

lemma tagged_once:
  "tagged pre cs = [v] \<Longrightarrow> sorted_wrt (\<lambda>c d. trim_prefix pre (rc_Name c) = None \<or> trim_prefix pre (rc_Name d) = None) cs"
proof (induction cs)
  case (Cons c cs)
  show ?case
  proof (cases "trim_prefix pre (rc_Name c)")
    case None
    then have "tagged pre cs = [v]" using Cons.prems by (simp add: tagged_def List.map_filter_def)
    with Cons.IH None show ?thesis by simp
  next
    case (Some w)
    then have "tagged pre cs = []" using Cons.prems by (simp add: tagged_def List.map_filter_def)
    then have "\<forall>d\<in>set cs. trim_prefix pre (rc_Name d) = None" using first_tagged [of pre cs] by simp
    moreover from this have "sorted_wrt (\<lambda>c d. trim_prefix pre (rc_Name c) = None \<or> trim_prefix pre (rc_Name d) = None) cs"
      by (induction cs) auto
    ultimately show ?thesis by simp
  qed
qed (simp add: tagged_def List.map_filter_def)

lemma sorted_wrt_conj: "sorted_wrt R xs \<Longrightarrow> sorted_wrt Q xs \<Longrightarrow> sorted_wrt (\<lambda>x y. R x y \<and> Q x y) xs"
  by (induction xs) auto

lemma parseMetadata_once:
  assumes g: "tagged generationPrefix cs = [show_nat (unat generation)]" and d: "tagged desiredPrefix cs = [desired]"
    and p: "tagged programPrefix cs = [program]"
    and ok: "generation \<noteq> 0" "checksumPattern desired" "checksumPattern program"
  shows "parseMetadataCounters cs = (generation, desired, program, True)"
proof -
  have "unat generation < 2 ^ 64" using unsigned_less [of generation, where 'a = nat] by simp
  then have parsed: "ParseUint 64 (show_nat (unat generation)) = Some (unat generation)" by (rule ParseUint_show)
  have only: "trim_prefix pre (rc_Name c) = Some v \<Longrightarrow> v \<in> set (tagged pre cs)" if "c \<in> set cs" for c pre v
    using that by (force simp: tagged_def List.map_filter_def image_iff)
  have fine: "metadata_ok c" if "c \<in> set cs" for c
    using only [OF that, of generationPrefix] only [OF that, of desiredPrefix] only [OF that, of programPrefix] parsed ok
    unfolding metadata_ok_def g d p by (auto simp: unat_gt_0)
  have "sorted_wrt metadata_compat cs"
    using sorted_wrt_conj [OF tagged_once [OF g] sorted_wrt_conj [OF tagged_once [OF d] tagged_once [OF p]]]
    unfolding metadata_compat_def by simp
  moreover have start: "metadata_tracks (None, None, None) []" by (simp add: metadata_tracks_def tagged_def List.map_filter_def)
  ultimately obtain st where st: "range_check metadata_step 0 (None, None, None) cs = Inr st"
    using metadata_guard.guard_passes [OF start, of 0 cs] fine by auto
  moreover have "st = (Some generation, Some desired, Some program)"
    using metadata_guard.guard_tracks [OF start st] by (simp add: metadata_tracks_def g d p parsed)
  ultimately show ?thesis by (simp add: parseMetadataCounters_def)
qed

lemma trim_prefix_append [simp]: "trim_prefix pre (pre @ s) = Some s"
  by (simp add: trim_prefix_def)

lemma metadata_names_prefixed:
  "metadata_names g d p = [generationPrefix @ show_nat (unat g), desiredPrefix @ d, programPrefix @ p]"
  by (simp add: metadata_names_def generationPrefix_def desiredPrefix_def programPrefix_def)

lemma tagged_metadata:
  assumes "mset (map rc_Name cs) = mset (metadata_names g d p @ ns)" and "\<forall>n\<in>set ns. \<exists>r. n = ''c_'' @ r"
  shows "tagged generationPrefix cs = [show_nat (unat g)]" and "tagged desiredPrefix cs = [d]" and "tagged programPrefix cs = [p]"
proof -
  have "trim_prefix pre (''c_'' @ r) = None" if "pre \<in> {generationPrefix, desiredPrefix, programPrefix}" for pre r
    using trim_prefix_disjoint [of "''c_''" "''c_'' @ r" r 0 pre] that
    by (auto simp: generationPrefix_def desiredPrefix_def programPrefix_def trim_prefix_def)
  then have none: "List.map_filter (trim_prefix pre) ns = []" if "pre \<in> {generationPrefix, desiredPrefix, programPrefix}" for pre
    using that assms(2) by (induction ns) (auto simp: List.map_filter_def)
  have read: "mset (tagged pre cs) = mset (List.map_filter (trim_prefix pre) (metadata_names g d p @ ns))" for pre
    unfolding tagged_names by (rule mset_map_filter [OF assms(1)])
  note x = trim_prefix_append [THEN metadata_exclusive(1)] trim_prefix_append [THEN metadata_exclusive(2)]
    trim_prefix_append [THEN metadata_exclusive(3)] trim_prefix_append [THEN metadata_exclusive(4)]
    trim_prefix_append [THEN metadata_exclusive(5)] trim_prefix_append [THEN metadata_exclusive(6)]
  have app: "List.map_filter f (xs @ ys) = List.map_filter f xs @ List.map_filter f ys" for f :: "string \<Rightarrow> string option" and xs ys
    by (simp add: List.map_filter_def)
  show "tagged generationPrefix cs = [show_nat (unat g)]" "tagged desiredPrefix cs = [d]" "tagged programPrefix cs = [p]"
    using read [of generationPrefix] read [of desiredPrefix] read [of programPrefix]
    unfolding app metadata_names_prefixed none [of generationPrefix, simplified] none [of desiredPrefix, simplified] none [of programPrefix, simplified]
    by (simp_all add: List.map_filter_simps x)
qed

section \<open>Property\<close>

text \<open>C22. What the compiler writes into a table is read back: from the counters of the table in any
  order, whatever they have counted since, \<open>parseMetadataCounters\<close> recovers the generation and the two
  checksums of the program, and the counters of the forwards are not mistaken for metadata.\<close>

theorem metadata_roundtrip:
  assumes "CompileAt marshal s digest tableExists now = Inr pr"
    and "mset (map rc_Name counters) =
      mset (metadata_names (np_Generation pr) (np_DesiredChecksum pr) (np_ProgramChecksum pr) @ map cb_Name (np_Counters pr))"
  shows "parseMetadataCounters counters = (np_Generation pr, np_DesiredChecksum pr, np_ProgramChecksum pr, True)"
proof -
  have valid: "Validate s = []" and sum: "Checksum marshal s = Some digest" "checksumPattern digest"
    using assms(1) by (auto simp: CompileAt_def Let_def split: if_splits option.splits)
  have "\<exists>b. nft_elements (Canonical s) now = Inr b \<and> nft_inv (Canonical s) now (ds_Forwards (Canonical s)) b \<and> np_Counters pr = nb_counters b"
    using CompileAt_books [OF assms(1)] .
  then have "\<forall>n\<in>set (map cb_Name (np_Counters pr)). \<exists>r. n = ''c_'' @ r"
    by (auto simp: nft_inv_def nft_bindings_def stableCounterName_def)
  note read = tagged_metadata [OF assms(2) this]
  have made: "np_Generation pr = ds_Generation s" "np_DesiredChecksum pr = digest" "checksumPattern (np_ProgramChecksum pr)"
    using assms(1) valid sum by (auto simp: CompileAt_def Let_def ProgramChecksumAt_def ProgramChecksum_def nft_checksum_def digest_pattern
        split: sum.splits if_splits)
  moreover have "ds_Generation s \<noteq> 0" using valid by (simp add: Validate_well_formed well_formed_def header_ok_def)
  ultimately show ?thesis using sum(2) by (intro parseMetadata_once [OF read]) simp_all
qed

theorem metadata_roundtrip_witness:
  "\<exists>pr. CompileAt sample_marshal sample_state sample_digest True 0 = Inr pr \<and>
     parseMetadataCounters (map (\<lambda>n. \<lparr>rc_Name = n, rc_Packets = 7, rc_Bytes = 900\<rparr>)
       (rev (map cb_Name (np_Counters pr)) @ metadata_names (np_Generation pr) (np_DesiredChecksum pr) (np_ProgramChecksum pr))) =
     (1, sample_digest, np_ProgramChecksum pr, True)"
proof -
  obtain pr where pr: "CompileAt sample_marshal sample_state sample_digest True 0 = Inr pr"
    using CompileAt_iff [OF sample_valid sample_checksum, of True 0] sample_resolved by blast
  then have "np_Generation pr = 1 \<and> np_DesiredChecksum pr = sample_digest"
    using sample_valid sample_checksum by (auto simp: CompileAt_def Let_def sample_state_def split: sum.splits if_splits)
  with metadata_roundtrip [OF pr, of "map (\<lambda>n. \<lparr>rc_Name = n, rc_Packets = 7, rc_Bytes = 900\<rparr>)
       (rev (map cb_Name (np_Counters pr)) @ metadata_names (np_Generation pr) (np_DesiredChecksum pr) (np_ProgramChecksum pr))"] pr
  show ?thesis by (auto simp: comp_def)
qed

end
