(* ===== verification/Tc_Compiler.thy ===== *)
theory Tc_Compiler
  imports Nft_Compiler
begin

text \<open>
  \<open>internal/dataplane/tc/compiler.go\<close>: from an accepted desired state to the batch of \<open>tc\<close> commands that
  shapes the traffic entering at this node: a class per rate-limited user and forward on the public
  interface (downloads) and on the IFB interface (uploads), a filter that maps the mark set by the
  nftables program to the class, and the redirect of uploads to the IFB interface.
\<close>

section \<open>Model\<close>

definition tc_CompilerABI :: string where "tc_CompilerABI = ''tc-phase4-v1''"

definition tc_interfacePattern :: "string \<Rightarrow> bool" where
  "tc_interfacePattern s \<longleftrightarrow> 1 \<le> length s \<and> length s \<le> 15 \<and>
     list_all (\<lambda>c. is_alnum c \<or> c = CHR ''_'' \<or> c = CHR ''.'' \<or> c = CHR '':'' \<or> c = CHR ''-'') s"

record TcConfig =
  tc_PublicInterface :: string
  tc_IFBInterface :: string
  tc_UploadLinkBitsPerSecond :: u64
  tc_DownloadLinkBitsPerSecond :: u64
  tc_AllowReplaceRoot :: bool

record ClassBinding =
  tb_Interface :: string
  tb_ClassID :: u16
  tb_Rate :: u64

record TcProgram =
  tp_Active :: bool
  tp_Checksum :: string
  tp_Config :: TcConfig
  tp_Batch :: string
  tp_ExpectedClasses :: "ClassBinding list"

definition no_TcProgram :: TcProgram where
  "no_TcProgram = \<lparr>tp_Active = False, tp_Checksum = [],
     tp_Config = \<lparr>tc_PublicInterface = [], tc_IFBInterface = [], tc_UploadLinkBitsPerSecond = 0, tc_DownloadLinkBitsPerSecond = 0,
       tc_AllowReplaceRoot = False\<rparr>, tp_Batch = [], tp_ExpectedClasses = []\<rparr>"

definition validateConfig :: "TcConfig \<Rightarrow> string option" where
  "validateConfig config =
     (if \<not> tc_interfacePattern (tc_PublicInterface config) \<or> \<not> tc_interfacePattern (tc_IFBInterface config) \<or>
         tc_PublicInterface config = tc_IFBInterface config
      then Some ''public and IFB interface names are invalid or identical''
      else if tc_UploadLinkBitsPerSecond config = 0 \<or> tc_DownloadLinkBitsPerSecond config = 0
      then Some ''upload and download link capacities must be greater than zero''
      else if \<not> tc_AllowReplaceRoot config then Some ''tc root replacement requires explicit ownership'' else None)"

definition hasRateLimits :: "DesiredState \<Rightarrow> bool" where
  "hasRateLimits state \<longleftrightarrow> list_ex (\<lambda>forward. fw_IngressNodeID forward = ds_NodeID state \<and>
     (fw_RateLimit forward \<noteq> None \<or> up_RateLimit (policy_of (ds_UserPolicies state) (fw_UserID forward)) \<noteq> None)) (ds_Forwards state)"

definition cleanupBatch :: "TcConfig \<Rightarrow> string" where
  "cleanupBatch config = line (''qdisc del dev '' @ tc_PublicInterface config @ '' root'') @
     line (''qdisc del dev '' @ tc_PublicInterface config @ '' clsact'') @ line (''qdisc del dev '' @ tc_IFBInterface config @ '' root'')"

definition bits :: "u64 \<Rightarrow> string" where
  "bits n = show_nat (unat n) @ ''bit''"

definition hex16 :: "u16 \<Rightarrow> string" where
  "hex16 n = show_hex (unat n)"

definition writeRoot :: "string \<Rightarrow> u64 \<Rightarrow> string" where
  "writeRoot device capacity =
     line (''qdisc add dev '' @ device @ '' root handle 1: htb default ffff'') @
     line (''class add dev '' @ device @ '' parent 1: classid 1:1 htb rate '' @ bits capacity @ '' ceil '' @ bits capacity) @
     line (''class add dev '' @ device @ '' parent 1:1 classid 1:ffff htb rate '' @ bits capacity @ '' ceil '' @ bits capacity) @
     line (''qdisc add dev '' @ device @ '' parent 1:ffff fq_codel'')"

definition directionRate :: "RateLimitSpec option \<Rightarrow> TrafficDirection \<Rightarrow> u64 \<times> u64" where
  "directionRate limit direction = (case limit of None \<Rightarrow> (0, 0)
     | Some l \<Rightarrow> if direction = DirectionUpload then (rl_IngressBitsPerSecond l, rl_BurstBytes l)
         else (rl_EgressBitsPerSecond l, rl_BurstBytes l))"

definition effectiveDirectionRate :: "ForwardSpec \<Rightarrow> UserPolicySpec \<Rightarrow> TrafficDirection \<Rightarrow> u64 \<times> u64" where
  "effectiveDirectionRate forward user direction =
     (if fst (directionRate (fw_RateLimit forward) direction) \<noteq> 0 then directionRate (fw_RateLimit forward) direction
      else directionRate (up_RateLimit user) direction)"

definition classForForward :: "ForwardSpec \<Rightarrow> UserPolicySpec \<Rightarrow> u16" where
  "classForForward forward user = (if fw_RateLimit forward \<noteq> None then fw_TrafficClassID forward else up_TrafficClassID user)"

definition writeClass :: "string \<Rightarrow> u16 \<Rightarrow> u16 \<Rightarrow> u64 \<Rightarrow> u64 \<Rightarrow> string" where
  "writeClass device parent classID rate burst =
     (let b = show_nat (unat (if burst = 0 then 64 * 1024 else burst)) in
      line (''class add dev '' @ device @ '' parent 1:'' @ hex16 parent @ '' classid 1:'' @ hex16 classID @ '' htb rate '' @ bits rate @
        '' ceil '' @ bits rate @ '' burst '' @ b @ ''b cburst '' @ b @ ''b'') @
      line (''qdisc add dev '' @ device @ '' parent 1:'' @ hex16 classID @ '' fq_codel''))"

definition capped :: "u64 \<Rightarrow> u64 \<Rightarrow> u64" where
  "capped capacity rate = (if rate > capacity then capacity else rate)"

definition ingress_users :: "DesiredState \<Rightarrow> string set" where
  "ingress_users state = fw_UserID ` set (filter (\<lambda>forward. fw_IngressNodeID forward = ds_NodeID state) (ds_Forwards state))"

text \<open>A class with its parent and burst, as the two loops of \<open>writeDirectionClasses\<close> create them.\<close>

type_synonym class_plan = "u16 \<times> u64 \<times> ClassBinding"

definition user_class :: "DesiredState \<Rightarrow> TrafficDirection \<Rightarrow> string \<Rightarrow> u64 \<Rightarrow> UserPolicySpec \<Rightarrow> class_plan option" where
  "user_class state direction device capacity policy =
     (if up_UserID policy \<notin> ingress_users state then None
      else case directionRate (up_RateLimit policy) direction of (rate, burst) \<Rightarrow>
        if rate = 0 then None
        else Some (1, burst, \<lparr>tb_Interface = device, tb_ClassID = up_TrafficClassID policy, tb_Rate = capped capacity rate\<rparr>))"

definition forward_class :: "DesiredState \<Rightarrow> TrafficDirection \<Rightarrow> string \<Rightarrow> u64 \<Rightarrow> ForwardSpec \<Rightarrow> class_plan option" where
  "forward_class state direction device capacity forward =
     (if fw_IngressNodeID forward \<noteq> ds_NodeID state \<or> fw_RateLimit forward = None then None
      else let user = policy_of (ds_UserPolicies state) (fw_UserID forward);
               (rate0, burst0) = directionRate (fw_RateLimit forward) direction;
               (userRate, userBurst) = directionRate (up_RateLimit user) direction;
               parent = (if userRate \<noteq> 0 then up_TrafficClassID user else 1);
               (rate, burst) = (if userRate \<noteq> 0 \<and> rate0 = 0 then (userRate, userBurst) else (rate0, burst0))
           in if rate = 0 then None
              else Some (parent, burst, \<lparr>tb_Interface = device, tb_ClassID = fw_TrafficClassID forward, tb_Rate = capped capacity rate\<rparr>))"

definition direction_classes :: "DesiredState \<Rightarrow> TrafficDirection \<Rightarrow> string \<Rightarrow> u64 \<Rightarrow> class_plan list" where
  "direction_classes state direction device capacity =
     List.map_filter (user_class state direction device capacity) (ds_UserPolicies state) @
     List.map_filter (forward_class state direction device capacity) (ds_Forwards state)"

text \<open>The classes that get a filter, each once, in the order the forwards first use them.\<close>

fun filter_classes :: "DesiredState \<Rightarrow> TrafficDirection \<Rightarrow> u16 list \<Rightarrow> ForwardSpec list \<Rightarrow> u16 list" where
  "filter_classes state direction seen [] = []"
| "filter_classes state direction seen (forward # rest) =
     (let user = policy_of (ds_UserPolicies state) (fw_UserID forward); classID = classForForward forward user in
      if fw_IngressNodeID forward \<noteq> ds_NodeID state \<or> fst (effectiveDirectionRate forward user direction) = 0 \<or> classID \<in> set seen
      then filter_classes state direction seen rest
      else classID # filter_classes state direction (classID # seen) rest)"

definition filter_line :: "string \<Rightarrow> u16 \<Rightarrow> string" where
  "filter_line device classID = line (''filter add dev '' @ device @ '' parent 1: protocol all pref '' @ show_nat (unat classID) @
     '' handle '' @ hex8 (TrafficMark classID) @ '' fw classid 1:'' @ hex16 classID)"

definition writeDirectionClasses :: "DesiredState \<Rightarrow> TrafficDirection \<Rightarrow> string \<Rightarrow> u64 \<Rightarrow> string" where
  "writeDirectionClasses state direction device capacity =
     concat (map (\<lambda>(parent, burst, binding). writeClass device parent (tb_ClassID binding) (tb_Rate binding) burst)
       (direction_classes state direction device capacity)) @
     concat (map (filter_line device) (filter_classes state direction [] (ds_Forwards state)))"

definition redirect_line :: "TcConfig \<Rightarrow> u32 \<Rightarrow> ForwardSpec \<Rightarrow> u16 \<Rightarrow> Protocol \<Rightarrow> string" where
  "redirect_line config preference forward classID protocol =
     line (''filter add dev '' @ tc_PublicInterface config @ '' ingress protocol ip pref '' @ show_nat (unat preference) @ '' flower dst_ip '' @
       Addr_String (Unmap (ep_Address (fw_Listen forward))) @ '' ip_proto '' @ protocol @ '' dst_port '' @ show_nat (unat (ep_Port (fw_Listen forward))) @
       '' action skbedit mark '' @ hex8 (TrafficMark classID) @ '' action mirred egress redirect dev '' @ tc_IFBInterface config)"

text \<open>Every pair of a shaped forward and one of its protocols is redirected, with the preferences counted
  up from 10 in 32 bits.\<close>

definition redirects :: "DesiredState \<Rightarrow> (ForwardSpec \<times> u16 \<times> Protocol) list" where
  "redirects state = concat (map (\<lambda>forward.
     let user = policy_of (ds_UserPolicies state) (fw_UserID forward) in
     if fw_IngressNodeID forward \<noteq> ds_NodeID state \<or> fst (effectiveDirectionRate forward user DirectionUpload) = 0 then []
     else map (\<lambda>protocol. (forward, classForForward forward user, protocol)) (fw_Protocols forward)) (ds_Forwards state))"

definition writeIngressRedirects :: "DesiredState \<Rightarrow> TcConfig \<Rightarrow> string" where
  "writeIngressRedirects state config =
     concat (map (\<lambda>(i, forward, classID, protocol). redirect_line config (10 + of_nat i) forward classID protocol) (enumerate 0 (redirects state)))"

definition show_bool :: "bool \<Rightarrow> string" where
  "show_bool b = (if b then ''true'' else ''false'')"

definition tc_programChecksum :: "TcConfig \<Rightarrow> bool \<Rightarrow> string \<Rightarrow> string" where
  "tc_programChecksum config active batch = hex_EncodeToString (Sum256 (join newline
     [tc_CompilerABI, tc_PublicInterface config, tc_IFBInterface config, show_nat (unat (tc_UploadLinkBitsPerSecond config)),
      show_nat (unat (tc_DownloadLinkBitsPerSecond config)), show_bool (tc_AllowReplaceRoot config), show_bool active, batch]))"

definition class_less :: "ClassBinding \<Rightarrow> ClassBinding \<Rightarrow> bool" where
  "class_less a b = (if tb_Interface a \<noteq> tb_Interface b then tb_Interface a < tb_Interface b else tb_ClassID a < tb_ClassID b)"

definition unresolved_user :: "DesiredState \<Rightarrow> UserPolicySpec \<Rightarrow> bool" where
  "unresolved_user state policy \<longleftrightarrow> up_UserID policy \<in> ingress_users state \<and> up_RateLimit policy \<noteq> None \<and> up_TrafficClassID policy = 0"

definition unresolved_forward :: "DesiredState \<Rightarrow> ForwardSpec \<Rightarrow> bool" where
  "unresolved_forward state forward \<longleftrightarrow>
     fw_IngressNodeID forward = ds_NodeID state \<and> fw_RateLimit forward \<noteq> None \<and> fw_TrafficClassID forward = 0"

definition tc_batch :: "TcConfig \<Rightarrow> DesiredState \<Rightarrow> string" where
  "tc_batch config canonical =
     cleanupBatch config @ writeRoot (tc_PublicInterface config) (tc_DownloadLinkBitsPerSecond config) @
     writeRoot (tc_IFBInterface config) (tc_UploadLinkBitsPerSecond config) @
     line (''qdisc add dev '' @ tc_PublicInterface config @ '' clsact'') @
     writeDirectionClasses canonical DirectionDownload (tc_PublicInterface config) (tc_DownloadLinkBitsPerSecond config) @
     writeDirectionClasses canonical DirectionUpload (tc_IFBInterface config) (tc_UploadLinkBitsPerSecond config) @
     writeIngressRedirects canonical config"

definition tc_classes :: "TcConfig \<Rightarrow> DesiredState \<Rightarrow> ClassBinding list" where
  "tc_classes config canonical = map (\<lambda>(parent, burst, binding). binding)
     (direction_classes canonical DirectionDownload (tc_PublicInterface config) (tc_DownloadLinkBitsPerSecond config) @
      direction_classes canonical DirectionUpload (tc_IFBInterface config) (tc_UploadLinkBitsPerSecond config))"

definition tc_Compile :: "TcConfig \<Rightarrow> DesiredState \<Rightarrow> string \<Rightarrow> dataplane_error + TcProgram" where
  "tc_Compile config state desiredChecksum =
     (if Validate state \<noteq> [] then Inl (CompileInvalid (Validate state))
      else if \<not> hasRateLimits state then
        let batch = (if tc_PublicInterface config \<noteq> [] \<and> tc_IFBInterface config \<noteq> [] \<and> tc_AllowReplaceRoot config
                     then cleanupBatch config else [])
        in Inr \<lparr>tp_Active = False, tp_Checksum = tc_programChecksum config False batch, tp_Config = config, tp_Batch = batch,
                tp_ExpectedClasses = []\<rparr>
      else case validateConfig config of Some e \<Rightarrow> Inl (CompileError e)
      | None \<Rightarrow>
        let canonical = Canonical state in
        case find (unresolved_user canonical) (ds_UserPolicies canonical) of
          Some policy \<Rightarrow> Inl (ErrUnresolvedClass (''user '' @ up_UserID policy))
        | None \<Rightarrow>
          (case find (unresolved_forward canonical) (ds_Forwards canonical) of
             Some forward \<Rightarrow> Inl (ErrUnresolvedClass (''forward '' @ fw_ID forward))
           | None \<Rightarrow>
               let batch = tc_batch config canonical
               in Inr \<lparr>tp_Active = True, tp_Checksum = tc_programChecksum config True batch, tp_Config = config, tp_Batch = batch,
                       tp_ExpectedClasses = sort_less class_less (tc_classes config canonical)\<rparr>))"

section \<open>Users\<close>

lemma policy_of_cases:
  assumes "distinct (map up_UserID ps)"
  shows "policy_of ps u = no_policy \<or> policy_of ps u \<in> set ps \<and> up_UserID (policy_of ps u) = u"
proof -
  have "policy_map ps = map_of (map (\<lambda>p. (up_UserID p, p)) ps)" unfolding policy_map_def by (rule fold_index [OF assms])
  then show ?thesis by (auto simp: policy_of_def split: option.splits dest: map_of_SomeD)
qed

lemma policy_of_mem:
  assumes "distinct (map up_UserID ps)" and "p \<in> set ps"
  shows "policy_of ps (up_UserID p) = p"
proof -
  have "policy_map ps = map_of (map (\<lambda>p. (up_UserID p, p)) ps)" unfolding policy_map_def by (rule fold_index [OF assms(1)])
  then have "policy_map ps (up_UserID p) = Some p" using assms by (simp add: comp_def)
  then show ?thesis by (simp add: policy_of_def)
qed

lemma well_formed_users: "well_formed c \<Longrightarrow> distinct (map up_UserID (ds_UserPolicies c))"
proof -
  assume "well_formed c"
  then have "sorted_wrt policy_compat (ds_UserPolicies c)" unfolding well_formed_def by blast
  then show ?thesis unfolding distinct_map_sorted_wrt by (rule sorted_wrt_mono_rel [rotated]) (simp add: policy_compat_def)
qed

section \<open>The classes of a direction\<close>

lemma map_filter_keys:
  assumes "\<And>x y. h x = Some y \<Longrightarrow> cls y = k x"
  shows "map cls (List.map_filter h xs) = map k (filter (\<lambda>x. h x \<noteq> None) xs)"
  using assms by (induction xs) (auto simp: List.map_filter_def)

lemma distinct_nonzero:
  assumes "distinct (filter (\<lambda>c. c \<noteq> 0) (map k xs @ map l ys))"
    and "\<forall>x\<in>set xs. P x \<longrightarrow> k x \<noteq> (0 :: u16)" and "\<forall>y\<in>set ys. Q y \<longrightarrow> l y \<noteq> 0"
  shows "distinct (map k (filter P xs) @ map l (filter Q ys))"
proof -
  have part: "distinct (map k (filter P xs))" if "distinct (filter (\<lambda>c. c \<noteq> 0) (map k xs))" "\<forall>x\<in>set xs. P x \<longrightarrow> k x \<noteq> (0 :: u16)"
    for k P and xs :: "'c list" using that by (induction xs) (auto split: if_splits)
  have "set (filter (\<lambda>c. c \<noteq> 0) (map k xs)) \<inter> set (filter (\<lambda>c. c \<noteq> 0) (map l ys)) = {}"
    and both: "distinct (filter (\<lambda>c. c \<noteq> 0) (map k xs))" "distinct (filter (\<lambda>c. c \<noteq> 0) (map l ys))"
    using assms(1) by auto
  moreover have "set (map k (filter P xs)) \<subseteq> set (filter (\<lambda>c. c \<noteq> 0) (map k xs))"
    "set (map l (filter Q ys)) \<subseteq> set (filter (\<lambda>c. c \<noteq> 0) (map l ys))" using assms(2,3) by auto
  ultimately have "set (map k (filter P xs)) \<inter> set (map l (filter Q ys)) = {}" by blast
  then show ?thesis using part [OF both(1) assms(2)] part [OF both(2) assms(3)] by simp
qed

lemma distinct_map_refine:
  "distinct (map f xs) \<Longrightarrow> (\<And>x y. g x = g y \<Longrightarrow> f x = f y) \<Longrightarrow> distinct (map g xs)"
  unfolding distinct_map inj_on_def by blast

definition no_unresolved :: "DesiredState \<Rightarrow> bool" where
  "no_unresolved c \<longleftrightarrow> (\<forall>p\<in>set (ds_UserPolicies c). \<not> unresolved_user c p) \<and> (\<forall>f\<in>set (ds_Forwards c). \<not> unresolved_forward c f)"

lemma user_class_some:
  assumes "user_class c d dev cap p = Some (parent, burst, b)"
  shows "tb_Interface b = dev \<and> tb_ClassID b = up_TrafficClassID p \<and> tb_Rate b = capped cap (fst (directionRate (up_RateLimit p) d)) \<and>
    tb_Rate b \<le> cap \<and> fst (directionRate (up_RateLimit p) d) \<noteq> 0 \<and> up_UserID p \<in> ingress_users c \<and> up_RateLimit p \<noteq> None"
  using assms by (auto simp: user_class_def capped_def directionRate_def not_less split: if_splits prod.splits option.splits)

lemma forward_class_some:
  assumes "forward_class c d dev cap f = Some (parent, burst, b)"
  shows "tb_Interface b = dev \<and> tb_ClassID b = fw_TrafficClassID f \<and>
    tb_Rate b = capped cap (fst (effectiveDirectionRate f (policy_of (ds_UserPolicies c) (fw_UserID f)) d)) \<and> tb_Rate b \<le> cap \<and>
    fst (effectiveDirectionRate f (policy_of (ds_UserPolicies c) (fw_UserID f)) d) \<noteq> 0 \<and>
    fw_IngressNodeID f = ds_NodeID c \<and> fw_RateLimit f \<noteq> None"
  using assms by (auto simp: forward_class_def effectiveDirectionRate_def capped_def not_less Let_def split: if_splits prod.splits)

lemma direction_binding:
  assumes "(parent, burst, b) \<in> set (direction_classes c d dev cap)"
  shows "(\<exists>p\<in>set (ds_UserPolicies c). user_class c d dev cap p = Some (parent, burst, b)) \<or>
    (\<exists>f\<in>set (ds_Forwards c). forward_class c d dev cap f = Some (parent, burst, b))"
  using assms by (force simp: direction_classes_def List.map_filter_def)

text \<open>No class is created twice on a device, and none is one of the reserved classes.\<close>

lemma direction_classes_ids:
  assumes wf: "well_formed c" and res: "no_unresolved c"
  shows "distinct (map (\<lambda>(parent, burst, b). tb_ClassID b) (direction_classes c d dev cap))"
    and "(parent, burst, b) \<in> set (direction_classes c d dev cap) \<Longrightarrow> tb_ClassID b \<notin> {0, 1, 65535}"
proof -
  let ?uc = "user_class c d dev cap" and ?fc = "forward_class c d dev cap" and ?id = "\<lambda>(parent, burst, b). tb_ClassID b"
  note ids = well_formed_classes [OF wf]
  have user: "up_TrafficClassID p \<noteq> 0" if "p \<in> set (ds_UserPolicies c)" "?uc p \<noteq> None" for p
    using that res user_class_some [of c d dev cap p] by (auto simp: no_unresolved_def unresolved_user_def)
  have fwd: "fw_TrafficClassID f \<noteq> 0" if "f \<in> set (ds_Forwards c)" "?fc f \<noteq> None" for f
    using that res forward_class_some [of c d dev cap f] by (auto simp: no_unresolved_def unresolved_forward_def)
  have "map ?id (List.map_filter ?uc (ds_UserPolicies c)) = map up_TrafficClassID (filter (\<lambda>p. ?uc p \<noteq> None) (ds_UserPolicies c))"
    by (rule map_filter_keys) (use user_class_some in \<open>auto split: prod.splits\<close>)
  moreover have "map ?id (List.map_filter ?fc (ds_Forwards c)) = map fw_TrafficClassID (filter (\<lambda>f. ?fc f \<noteq> None) (ds_Forwards c))"
    by (rule map_filter_keys) (use forward_class_some in \<open>auto split: prod.splits\<close>)
  ultimately have "map ?id (direction_classes c d dev cap) =
      map up_TrafficClassID (filter (\<lambda>p. ?uc p \<noteq> None) (ds_UserPolicies c)) @
      map fw_TrafficClassID (filter (\<lambda>f. ?fc f \<noteq> None) (ds_Forwards c))"
    by (simp add: direction_classes_def)
  then show "distinct (map ?id (direction_classes c d dev cap))"
    using distinct_nonzero [OF conjunct1 [OF ids], of "\<lambda>p. ?uc p \<noteq> None" "\<lambda>f. ?fc f \<noteq> None"] user fwd by simp
  show "tb_ClassID b \<notin> {0, 1, 65535}" if b: "(parent, burst, b) \<in> set (direction_classes c d dev cap)"
    using direction_binding [OF b]
  proof (elim disjE bexE)
    fix p assume p: "p \<in> set (ds_UserPolicies c)" "?uc p = Some (parent, burst, b)"
    then show ?thesis using user [of p] ids user_class_some [OF p(2)] by auto
  next
    fix f assume f: "f \<in> set (ds_Forwards c)" "?fc f = Some (parent, burst, b)"
    then show ?thesis using fwd [of f] ids forward_class_some [OF f(2)] by auto
  qed
qed

text \<open>Every forward that is limited in a direction has its class on the device of that direction, with the
  rate capped by the link, and a filter for it.\<close>

lemma shaped_class:
  assumes wf: "well_formed c" and f: "f \<in> set (ds_Forwards c)" "at_ingress c f"
    and rate: "fst (effectiveDirectionRate f (policy_of (ds_UserPolicies c) (fw_UserID f)) d) = rate" "rate \<noteq> 0"
  shows "\<exists>parent burst. (parent, burst, \<lparr>tb_Interface = dev, tb_ClassID = nft_class c f, tb_Rate = capped cap rate\<rparr>)
    \<in> set (direction_classes c d dev cap)"
proof -
  let ?u = "policy_of (ds_UserPolicies c) (fw_UserID f)"
  show ?thesis
  proof (cases "fw_RateLimit f = None")
    case True
    then have lim: "up_RateLimit ?u \<noteq> None" "fst (directionRate (up_RateLimit ?u) d) = rate"
      using rate by (auto simp: effectiveDirectionRate_def directionRate_def split: option.splits)
    then have "?u \<noteq> no_policy" by (auto simp: no_policy_def)
    then have u: "?u \<in> set (ds_UserPolicies c)" "up_UserID ?u = fw_UserID f"
      using policy_of_cases [OF well_formed_users [OF wf], of "fw_UserID f"] by blast+
    have "fw_UserID f \<in> ingress_users c" using f by (auto simp: ingress_users_def at_ingress_def)
    moreover obtain r burst where rb: "directionRate (up_RateLimit ?u) d = (r, burst)" by (cases "directionRate (up_RateLimit ?u) d")
    ultimately have "user_class c d dev cap ?u = Some (1, burst, \<lparr>tb_Interface = dev, tb_ClassID = up_TrafficClassID ?u, tb_Rate = capped cap rate\<rparr>)"
      using u(2) lim(2) rate(2) by (simp add: user_class_def)
    moreover have "nft_class c f = up_TrafficClassID ?u" using True f(2) lim(1) by (simp add: nft_class_def Let_def)
    ultimately show ?thesis using u(1) by (force simp: direction_classes_def List.map_filter_def image_iff)
  next
    case False
    then have "\<exists>parent burst. forward_class c d dev cap f =
        Some (parent, burst, \<lparr>tb_Interface = dev, tb_ClassID = fw_TrafficClassID f, tb_Rate = capped cap rate\<rparr>)"
      using rate f(2) unfolding forward_class_def effectiveDirectionRate_def at_ingress_def
      by (cases "directionRate (fw_RateLimit f) d"; cases "directionRate (up_RateLimit ?u) d") (auto split: if_splits)
    moreover have "nft_class c f = fw_TrafficClassID f" using False f(2) by (simp add: nft_class_def Let_def)
    ultimately show ?thesis using f(1) by (force simp: direction_classes_def List.map_filter_def image_iff)
  qed
qed

lemma filter_classes_covers:
  assumes "f \<in> set fs" and "fw_IngressNodeID f = ds_NodeID c"
    and "fst (effectiveDirectionRate f (policy_of (ds_UserPolicies c) (fw_UserID f)) d) \<noteq> 0"
  shows "classForForward f (policy_of (ds_UserPolicies c) (fw_UserID f)) \<in> set (filter_classes c d seen fs) \<union> set seen"
  using assms(1)
proof (induction fs arbitrary: seen)
  case (Cons g fs)
  let ?g = "classForForward g (policy_of (ds_UserPolicies c) (fw_UserID g))"
  show ?case using Cons assms(2,3) Cons.IH [of seen] Cons.IH [of "?g # seen"] by (cases "g = f") (auto simp: Let_def)
qed simp

lemma filter_classes_distinct: "distinct (filter_classes c d seen fs) \<and> set (filter_classes c d seen fs) \<inter> set seen = {}"
proof (induction fs arbitrary: seen)
  case (Cons g fs)
  let ?g = "classForForward g (policy_of (ds_UserPolicies c) (fw_UserID g))"
  show ?case using Cons.IH [of seen] Cons.IH [of "?g # seen"] by (auto simp: Let_def)
qed simp

section \<open>The two compilers\<close>

lemma policy_of_canonical:
  assumes "distinct (map up_UserID ps)"
  shows "policy_of (sort_less policy_less ps) u = policy_of ps u"
proof -
  have "distinct (map up_UserID (sort_less policy_less ps))"
    using assms unfolding distinct_map_sorted_wrt by (intro sorted_wrt_sort_less) auto
  then have "policy_map (sort_less policy_less ps) = map_of (map (\<lambda>p. (up_UserID p, p)) (sort_less policy_less ps))"
    "policy_map ps = map_of (map (\<lambda>p. (up_UserID p, p)) ps)"
    unfolding policy_map_def using assms by (simp_all add: fold_index)
  moreover have "map_of (map (\<lambda>p. (up_UserID p, p)) (sort_less policy_less ps)) = map_of (map (\<lambda>p. (up_UserID p, p)) ps)"
    using assms \<open>distinct (map up_UserID (sort_less policy_less ps))\<close> by (subst map_of_inject_set) (simp_all add: comp_def)
  ultimately show ?thesis by (simp add: policy_of_def)
qed

definition limited :: "DesiredState \<Rightarrow> ForwardSpec \<Rightarrow> bool" where
  "limited c f \<longleftrightarrow> at_ingress c f \<and> (fw_RateLimit f \<noteq> None \<or> up_RateLimit (policy_of (ds_UserPolicies c) (fw_UserID f)) \<noteq> None)"

lemma hasRateLimits_canonical:
  assumes "well_formed s"
  shows "hasRateLimits s \<longleftrightarrow> (\<exists>f\<in>set (ds_Forwards (Canonical s)). limited (Canonical s) f)"
proof -
  have "policy_of (ds_UserPolicies (Canonical s)) u = policy_of (ds_UserPolicies s) u" for u
    using policy_of_canonical [OF well_formed_users [OF assms]] by (simp add: Canonical_def)
  then have "limited (Canonical s) (canonical_forward f) \<longleftrightarrow> fw_IngressNodeID f = ds_NodeID s \<and>
      (fw_RateLimit f \<noteq> None \<or> up_RateLimit (policy_of (ds_UserPolicies s) (fw_UserID f)) \<noteq> None)" for f
    by (auto simp: limited_def at_ingress_def) (auto simp: Canonical_def)
  moreover have "set (ds_Forwards (Canonical s)) = canonical_forward ` set (ds_Forwards s)" by (simp add: Canonical_def)
  ultimately show ?thesis by (simp add: hasRateLimits_def list_ex_iff)
qed

lemma limited_rate:
  "at_ingress c f \<Longrightarrow> fst (effectiveDirectionRate f (policy_of (ds_UserPolicies c) (fw_UserID f)) d) \<noteq> 0 \<Longrightarrow> limited c f"
  by (auto simp: limited_def effectiveDirectionRate_def directionRate_def split: option.splits)

text \<open>What a successful compilation has checked.\<close>

lemma tc_Compile_made:
  assumes "tc_Compile config s digest = Inr p"
  shows "Validate s = [] \<and>
    (if hasRateLimits s then validateConfig config = None \<and> no_unresolved (Canonical s) \<and>
        tp_ExpectedClasses p = sort_less class_less (tc_classes config (Canonical s)) \<and> tp_Batch p = tc_batch config (Canonical s)
     else tp_ExpectedClasses p = [])"
  using assms by (auto simp: tc_Compile_def Let_def no_unresolved_def find_None_iff split: if_splits option.splits)

lemma no_unresolved_class:
  assumes "no_unresolved c" and "limited c f" and "f \<in> set (ds_Forwards c)" and "well_formed c"
  shows "nft_class c f \<noteq> 0"
proof (cases "fw_RateLimit f = None")
  case True
  let ?u = "policy_of (ds_UserPolicies c) (fw_UserID f)"
  have lim: "up_RateLimit ?u \<noteq> None" using assms(2) True by (simp add: limited_def)
  then have "?u \<noteq> no_policy" by (auto simp: no_policy_def)
  then have u: "?u \<in> set (ds_UserPolicies c)" "up_UserID ?u = fw_UserID f"
    using policy_of_cases [OF well_formed_users [OF assms(4)], of "fw_UserID f"] by blast+
  moreover have "fw_UserID f \<in> ingress_users c" using assms(2,3) by (auto simp: ingress_users_def limited_def at_ingress_def)
  ultimately have "up_TrafficClassID ?u \<noteq> 0" using assms(1) lim unfolding no_unresolved_def unresolved_user_def by metis
  then show ?thesis using True lim assms(2) by (simp add: nft_class_def Let_def limited_def)
next
  case False
  then show ?thesis using assms by (auto simp: no_unresolved_def unresolved_forward_def nft_class_def Let_def limited_def at_ingress_def)
qed

definition direction_device :: "TcConfig \<Rightarrow> TrafficDirection \<Rightarrow> string \<times> u64" where
  "direction_device config d = (if d = DirectionUpload then (tc_IFBInterface config, tc_UploadLinkBitsPerSecond config)
     else (tc_PublicInterface config, tc_DownloadLinkBitsPerSecond config))"

lemma tc_classes_ids:
  assumes wf: "well_formed c" and res: "no_unresolved c" and cfg: "validateConfig config = None"
  shows "distinct (map (\<lambda>b. (tb_Interface b, tb_ClassID b)) (tc_classes config c))"
    and "b \<in> set (tc_classes config c) \<Longrightarrow> tb_ClassID b \<notin> {0, 1, 65535} \<and>
      (\<exists>d\<in>{DirectionUpload, DirectionDownload}. tb_Interface b = fst (direction_device config d) \<and> tb_Rate b \<le> snd (direction_device config d))"
proof -
  let ?dl = "direction_classes c DirectionDownload (tc_PublicInterface config) (tc_DownloadLinkBitsPerSecond config)"
  let ?ul = "direction_classes c DirectionUpload (tc_IFBInterface config) (tc_UploadLinkBitsPerSecond config)"
  let ?key = "\<lambda>(parent :: u16, burst :: u64, b). (tb_Interface b, tb_ClassID b)"
  have dev: "tb_Interface b = dev \<and> tb_Rate b \<le> cap" if "(parent, burst, b) \<in> set (direction_classes c d dev cap)" for parent burst b d dev cap
    using direction_binding [OF that] user_class_some forward_class_some by blast
  have ne: "tc_PublicInterface config \<noteq> tc_IFBInterface config" using cfg by (auto simp: validateConfig_def split: if_splits)
  have part: "distinct (map ?key (direction_classes c d dev cap))" for d dev cap
    using direction_classes_ids(1) [OF wf res, of d dev cap] by (rule distinct_map_refine) auto
  have "set (map ?key ?dl) \<inter> set (map ?key ?ul) = {}" using dev ne by fastforce
  then have "distinct (map ?key (?dl @ ?ul))" using part by simp
  then show "distinct (map (\<lambda>b. (tb_Interface b, tb_ClassID b)) (tc_classes config c))"
    by (simp add: tc_classes_def comp_def case_prod_unfold)
  assume "b \<in> set (tc_classes config c)"
  then obtain parent burst where "(parent, burst, b) \<in> set ?dl \<or> (parent, burst, b) \<in> set ?ul" by (auto simp: tc_classes_def)
  then show "tb_ClassID b \<notin> {0, 1, 65535} \<and>
      (\<exists>d\<in>{DirectionUpload, DirectionDownload}. tb_Interface b = fst (direction_device config d) \<and> tb_Rate b \<le> snd (direction_device config d))"
  proof (elim disjE)
    assume b: "(parent, burst, b) \<in> set ?dl"
    show ?thesis using dev [OF b] direction_classes_ids(2) [OF wf res b] by (simp add: direction_device_def)
  next
    assume b: "(parent, burst, b) \<in> set ?ul"
    show ?thesis using dev [OF b] direction_classes_ids(2) [OF wf res b] by (simp add: direction_device_def)
  qed
qed

section \<open>Property\<close>

text \<open>C39. The traffic-control program and the nftables program of a state fit together. When the
  traffic-control compiler accepts, the nftables compiler accepts too; the expected classes are
  pairwise distinct, are none of the reserved classes, and never exceed the link of their device; and
  every forward that is limited in a direction is marked with a class that exists on the device of
  that direction with its rate (capped by the link), and that has a filter for the mark there.\<close>

theorem tc_shapes_marked:
  assumes "tc_Compile config s digest = Inr p" and "Checksum marshal s = Some digest"
  shows "(\<exists>pr. CompileAt marshal s digest tableExists now = Inr pr) \<and>
    distinct (map (\<lambda>b. (tb_Interface b, tb_ClassID b)) (tp_ExpectedClasses p)) \<and>
    (\<forall>b\<in>set (tp_ExpectedClasses p). tb_ClassID b \<notin> {0, 1, 65535} \<and>
      (\<exists>d\<in>{DirectionUpload, DirectionDownload}. tb_Interface b = fst (direction_device config d) \<and> tb_Rate b \<le> snd (direction_device config d))) \<and>
    (\<forall>f\<in>set (ds_Forwards (Canonical s)). \<forall>d\<in>{DirectionUpload, DirectionDownload}.
      let c = Canonical s; rate = fst (effectiveDirectionRate f (policy_of (ds_UserPolicies c) (fw_UserID f)) d) in
      at_ingress c f \<and> rate \<noteq> 0 \<longrightarrow> nft_class c f \<noteq> 0 \<and> nft_class c f \<in> set (filter_classes c d [] (ds_Forwards c)) \<and>
        \<lparr>tb_Interface = fst (direction_device config d), tb_ClassID = nft_class c f,
          tb_Rate = capped (snd (direction_device config d)) rate\<rparr> \<in> set (tp_ExpectedClasses p))"
proof -
  let ?c = "Canonical s"
  note made = tc_Compile_made [OF assms(1)]
  then have valid: "Validate s = []" by blast
  then have wfs: "well_formed s" and wf: "well_formed ?c" by (simp_all add: Validate_well_formed Canonical_well_formed)
  show ?thesis
  proof (cases "hasRateLimits s")
    case False
    then have none: "\<forall>f\<in>set (ds_Forwards ?c). \<not> limited ?c f" using hasRateLimits_canonical [OF wfs] by blast
    then have "\<forall>f\<in>set (ds_Forwards ?c). class_resolved ?c f" by (auto simp: class_resolved_def limited_def)
    then have "\<exists>pr. CompileAt marshal s digest tableExists now = Inr pr" using CompileAt_iff [OF valid assms(2)] by blast
    moreover have "tp_ExpectedClasses p = []" using made False by simp
    ultimately show ?thesis using none limited_rate unfolding Let_def by (simp, blast)
  next
    case True
    then have cfg: "validateConfig config = None" and res: "no_unresolved ?c"
      and classes: "tp_ExpectedClasses p = sort_less class_less (tc_classes config ?c)" using made by simp_all
    note ids = tc_classes_ids [OF wf res cfg]
    have resolved: "nft_class ?c f \<noteq> 0" if "f \<in> set (ds_Forwards ?c)" "limited ?c f" for f
      by (rule no_unresolved_class [OF res that(2,1) wf])
    then have "\<forall>f\<in>set (ds_Forwards ?c). class_resolved ?c f" by (auto simp: class_resolved_def limited_def)
    then have nft: "\<exists>pr. CompileAt marshal s digest tableExists now = Inr pr" using CompileAt_iff [OF valid assms(2)] by blast
    have distinct: "distinct (map (\<lambda>b. (tb_Interface b, tb_ClassID b)) (tp_ExpectedClasses p))"
      using ids(1) unfolding classes distinct_map_sorted_wrt by (intro sorted_wrt_sort_less) auto
    have shaped: "nft_class ?c f \<noteq> 0 \<and> nft_class ?c f \<in> set (filter_classes ?c d [] (ds_Forwards ?c)) \<and>
        \<lparr>tb_Interface = fst (direction_device config d), tb_ClassID = nft_class ?c f,
          tb_Rate = capped (snd (direction_device config d)) rate\<rparr> \<in> set (tp_ExpectedClasses p)"
      if f: "f \<in> set (ds_Forwards ?c)" and d: "d \<in> {DirectionUpload, DirectionDownload}" and at: "at_ingress ?c f"
        and rate: "fst (effectiveDirectionRate f (policy_of (ds_UserPolicies ?c) (fw_UserID f)) d) = rate" "rate \<noteq> 0" for f d rate
    proof (intro conjI)
      have lim: "limited ?c f" using limited_rate [OF at] rate by blast
      then show "nft_class ?c f \<noteq> 0" by (rule resolved [OF f])
      have "classForForward f (policy_of (ds_UserPolicies ?c) (fw_UserID f)) = nft_class ?c f"
        using lim at by (auto simp: classForForward_def nft_class_def Let_def limited_def)
      moreover have "fw_IngressNodeID f = ds_NodeID ?c" using at by (simp add: at_ingress_def)
      ultimately show "nft_class ?c f \<in> set (filter_classes ?c d [] (ds_Forwards ?c))"
        using filter_classes_covers [OF f, of ?c d "[]"] rate by simp
      obtain parent burst where "(parent, burst, \<lparr>tb_Interface = fst (direction_device config d), tb_ClassID = nft_class ?c f,
          tb_Rate = capped (snd (direction_device config d)) rate\<rparr>)
          \<in> set (direction_classes ?c d (fst (direction_device config d)) (snd (direction_device config d)))"
        using shaped_class [OF wf f at rate] by blast
      then show "\<lparr>tb_Interface = fst (direction_device config d), tb_ClassID = nft_class ?c f,
          tb_Rate = capped (snd (direction_device config d)) rate\<rparr> \<in> set (tp_ExpectedClasses p)"
        using d unfolding classes by (force simp: tc_classes_def direction_device_def image_iff)
    qed
    have "\<forall>b\<in>set (tp_ExpectedClasses p). tb_ClassID b \<notin> {0, 1, 65535} \<and>
      (\<exists>d\<in>{DirectionUpload, DirectionDownload}. tb_Interface b = fst (direction_device config d) \<and> tb_Rate b \<le> snd (direction_device config d))"
      unfolding classes using ids(2) by simp
    with nft distinct shaped show ?thesis unfolding Let_def by blast
  qed
qed

definition sample_tc :: TcConfig where
  "sample_tc = \<lparr>tc_PublicInterface = ''eth0'', tc_IFBInterface = ''ifb0'', tc_UploadLinkBitsPerSecond = 1000000,
     tc_DownloadLinkBitsPerSecond = 1000000, tc_AllowReplaceRoot = True\<rparr>"

lemma sample_tc_made: "\<exists>p. tc_Compile sample_tc sample_state digest = Inr p"
proof -
  have "validateConfig sample_tc = None" by code_simp
  moreover have "\<not> unresolved_user (Canonical sample_state) x" if "x \<in> set (ds_UserPolicies (Canonical sample_state))" for x
    using that by (auto simp: unresolved_user_def Canonical_def sample_state_def)
  moreover have "\<not> unresolved_forward (Canonical sample_state) x" if x: "x \<in> set (ds_Forwards (Canonical sample_state))" for x
  proof -
    obtain f where "f \<in> set (ds_Forwards sample_state)" "x = canonical_forward f" using x by (auto simp: Canonical_def)
    then show ?thesis by (auto simp: unresolved_forward_def sample_state_def sample_forward_def)
  qed
  ultimately have "find (unresolved_user (Canonical sample_state)) (ds_UserPolicies (Canonical sample_state)) = None"
    "find (unresolved_forward (Canonical sample_state)) (ds_Forwards (Canonical sample_state)) = None"
    "validateConfig sample_tc = None" by (auto simp: find_None_iff)
  then show ?thesis by (simp add: tc_Compile_def sample_valid Let_def)
qed

text \<open>The user's upload limit of 8 Mbit/s is capped by the link of 1 Mbit/s.\<close>

theorem tc_shapes_marked_witness:
  "\<exists>p. tc_Compile sample_tc sample_state sample_digest = Inr p \<and>
     \<lparr>tb_Interface = ''ifb0'', tb_ClassID = 10, tb_Rate = 1000000\<rparr> \<in> set (tp_ExpectedClasses p)"
proof -
  let ?c = "Canonical sample_state"
  obtain p where p: "tc_Compile sample_tc sample_state sample_digest = Inr p" using sample_tc_made by blast
  have pol: "policy_of (ds_UserPolicies ?c) ''user-1'' = hd (ds_UserPolicies sample_state)"
    by (simp add: policy_of_def policy_map_def Canonical_def sample_state_def)
  have f: "canonical_forward (hd (ds_Forwards sample_state)) \<in> set (ds_Forwards ?c)"
    by (simp add: Canonical_def) (simp add: sample_state_def)
  have "at_ingress ?c (canonical_forward (hd (ds_Forwards sample_state)))" "nft_class ?c (canonical_forward (hd (ds_Forwards sample_state))) = 10"
    "fst (effectiveDirectionRate (canonical_forward (hd (ds_Forwards sample_state))) (hd (ds_UserPolicies sample_state)) DirectionUpload) = 8000000"
    using pol by (simp_all add: at_ingress_def nft_class_def Let_def effectiveDirectionRate_def directionRate_def)
      (simp_all add: Canonical_def sample_state_def sample_forward_def)
  moreover have "capped (snd (direction_device sample_tc DirectionUpload)) 8000000 = 1000000" "fst (direction_device sample_tc DirectionUpload) = ''ifb0''"
    by (simp_all add: capped_def direction_device_def sample_tc_def)
  moreover have "fw_UserID (canonical_forward (hd (ds_Forwards sample_state))) = ''user-1''" by (simp add: sample_state_def sample_forward_def)
  ultimately have "\<lparr>tb_Interface = ''ifb0'', tb_ClassID = 10, tb_Rate = 1000000\<rparr> \<in> set (tp_ExpectedClasses p)"
    using tc_shapes_marked [OF p sample_checksum, THEN conjunct2, THEN conjunct2, THEN conjunct2, THEN bspec, OF f, THEN bspec, of DirectionUpload] pol
    by (simp add: Let_def)
  with p show ?thesis by blast
qed

end
