(* ===== verification/Agent_Reconciler.thy ===== *)
theory Agent_Reconciler
  imports Agent_Store Nft_Executor Tc_Compiler
begin

text \<open>
  \<open>internal/agent/reconciler.go\<close>: the agent's reconciler, which turns a desired state into the node's
  nftables, traffic-control and fabric configuration and keeps a durable record of what it has applied
  and what it was applying. The interfaces of the source are records of routines: the store acts on the
  disk \<open>'d\<close>, the backends, the conntrack cleaner and the clock act on the kernel \<open>'k\<close>, and each call may
  fail. A nil interface is \<open>None\<close>. Every operation holds the mutex of the reconciler from its first
  to its last call, so operations do not interleave. A routine that returns a result together with an
  error has the pair as its error.
\<close>

section \<open>Interfaces and state\<close>

record 'k Backend =
  be_Inspect :: "('k, agent_error, InstalledState) routine"
  be_Check :: "string \<Rightarrow> ('k, agent_error, unit) routine"
  be_Apply :: "string \<Rightarrow> ('k, agent_error, unit) routine"
  be_ReadCounters :: "('k, agent_error, RawCounter list) routine option"

record 'k TrafficBackend =
  tc_Check :: "TcProgram \<Rightarrow> ('k, agent_error, unit) routine"
  tc_Apply :: "TcProgram \<Rightarrow> ('k, agent_error, unit) routine"
  tc_Verify :: "TcProgram \<Rightarrow> ('k, agent_error, unit) routine"

record 'k FabricBackend =
  fb_Check :: "FabricProgram \<Rightarrow> FabricProgram \<Rightarrow> ('k, agent_error, unit) routine"
  fb_Prepare :: "FabricProgram \<Rightarrow> ('k, agent_error, unit) routine"
  fb_Cleanup :: "FabricProgram \<Rightarrow> FabricProgram \<Rightarrow> ('k, agent_error, unit) routine"
  fb_Verify :: "FabricProgram \<Rightarrow> ('k, agent_error, unit) routine"

type_synonym 'k ConntrackCleaner = "string \<Rightarrow> ForwardSpec list \<Rightarrow> ('k, agent_error, u64) routine"

record Result =
  re_Generation :: u64
  re_Checksum :: string
  re_ProgramChecksum :: string
  re_TCChecksum :: string
  re_FabricChecksum :: string
  re_Changed :: bool
  re_Recovered :: bool
  re_ConntrackDeleted :: u64

definition no_Result :: Result where
  "no_Result = \<lparr>re_Generation = 0, re_Checksum = [], re_ProgramChecksum = [], re_TCChecksum = [], re_FabricChecksum = [],
     re_Changed = False, re_Recovered = False, re_ConntrackDeleted = 0\<rparr>"

text \<open>The standard library's JSON encoders are fields of the reconciler. The fabric compiler is an empty
  struct, so that only its presence is recorded.\<close>

record ('k, 'd) Reconciler =
  rc_marshal :: "DesiredState \<Rightarrow> string option"
  rc_marshalPlan :: "LinkPlan list \<Rightarrow> RoutePlan list \<Rightarrow> RulePlan list \<Rightarrow> string option"
  rc_backend :: "'k Backend"
  rc_store :: "'d Store"
  rc_now :: "'k \<Rightarrow> time \<times> 'k"
  rc_tcCompiler :: "TcConfig option"
  rc_tcBackend :: "'k TrafficBackend option"
  rc_conntrackCleaner :: "'k ConntrackCleaner option"
  rc_fabricCompiler :: bool
  rc_fabricBackend :: "'k FabricBackend option"

datatype 'k Option =
    WithTrafficControl TcConfig "'k TrafficBackend option"
  | WithConntrackCleaner "'k ConntrackCleaner option"
  | WithFabric "'k FabricBackend option"

definition apply_option :: "nat \<Rightarrow> 'k Option \<Rightarrow> ('k, 'd) Reconciler \<Rightarrow> string + ('k, 'd) Reconciler" where
  "apply_option i opt r =
     (case opt of
        WithTrafficControl compiler backend \<Rightarrow>
          if backend = None then Inl ''tc backend must not be nil'' else Inr (r\<lparr>rc_tcCompiler := Some compiler, rc_tcBackend := backend\<rparr>)
      | WithConntrackCleaner cleaner \<Rightarrow>
          if cleaner = None then Inl ''conntrack cleaner must not be nil'' else Inr (r\<lparr>rc_conntrackCleaner := cleaner\<rparr>)
      | WithFabric backend \<Rightarrow>
          if backend = None then Inl ''fabric backend must not be nil'' else Inr (r\<lparr>rc_fabricCompiler := True, rc_fabricBackend := backend\<rparr>))"

definition NewReconciler :: "(DesiredState \<Rightarrow> string option) \<Rightarrow> (LinkPlan list \<Rightarrow> RoutePlan list \<Rightarrow> RulePlan list \<Rightarrow> string option) \<Rightarrow>
    'k Backend option \<Rightarrow> 'd Store option \<Rightarrow> ('k \<Rightarrow> time \<times> 'k) \<Rightarrow> 'k Option list \<Rightarrow> string + ('k, 'd) Reconciler" where
  "NewReconciler marshal marshalPlan backend store now options =
     (case backend of None \<Rightarrow> Inl ''backend must not be nil''
      | Some b \<Rightarrow>
        (case store of None \<Rightarrow> Inl ''store must not be nil''
         | Some s \<Rightarrow> range_check apply_option 0
             \<lparr>rc_marshal = marshal, rc_marshalPlan = marshalPlan, rc_backend = b, rc_store = s, rc_now = now, rc_tcCompiler = None,
              rc_tcBackend = None, rc_conntrackCleaner = None, rc_fabricCompiler = False, rc_fabricBackend = None\<rparr> options))"

record ('k, 'd) world =
  w_kernel :: 'k
  w_disk :: 'd

definition on_kernel :: "('k, 'e, 'a) routine \<Rightarrow> (('k, 'd) world, 'e, 'a) routine" where
  "on_kernel m w = (case m (w_kernel w) of (r, k) \<Rightarrow> (r, w\<lparr>w_kernel := k\<rparr>))"

definition on_disk :: "('d, 'e, 'a) routine \<Rightarrow> (('k, 'd) world, 'e, 'a) routine" where
  "on_disk m w = (case m (w_disk w) of (r, d) \<Rightarrow> (r, w\<lparr>w_disk := d\<rparr>))"

section \<open>Helpers of the source\<close>

definition desiredHasRateLimit :: "DesiredState \<Rightarrow> bool" where
  "desiredHasRateLimit desired \<longleftrightarrow> list_ex (\<lambda>forward. fw_IngressNodeID forward = ds_NodeID desired \<and>
     (fw_RateLimit forward \<noteq> None \<or> up_RateLimit (policy_of (ds_UserPolicies desired) (fw_UserID forward)) \<noteq> None)) (ds_Forwards desired)"

definition desiredHasFabric :: "DesiredState \<Rightarrow> bool" where
  "desiredHasFabric desired \<longleftrightarrow> ds_FabricLinks desired \<noteq> [] \<or> list_ex (\<lambda>forward. fw_PathMode forward = PathViaExit) (ds_Forwards desired)"

definition explicitForceDeletes :: "DesiredState \<Rightarrow> ForwardSpec list" where
  "explicitForceDeletes desired = filter (\<lambda>forward. fw_Lifecycle forward = LifecycleForceDeleting) (ds_Forwards desired)"

definition snapshotCopy :: "Snapshot \<Rightarrow> Snapshot" where
  "snapshotCopy s = s\<lparr>sn_Desired := Canonical (sn_Desired s)\<rparr>"

definition cloneUsageBatches :: "UsageBatch list \<Rightarrow> UsageBatch list" where
  "cloneUsageBatches batches = sort_less (\<lambda>a b. ub_Sequence a < ub_Sequence b) batches"

definition validateIncomingGeneration :: "StateRecord \<Rightarrow> string \<Rightarrow> u64 \<Rightarrow> string \<Rightarrow> agent_error option" where
  "validateIncomingGeneration record nodeID generation checksum =
     (let expectedNodeID = (case sr_Applied record of Some a \<Rightarrow> ds_NodeID (sn_Desired a)
            | None \<Rightarrow> (case sr_Pending record of Some p \<Rightarrow> ds_NodeID (sn_Desired p) | None \<Rightarrow> []));
          check = (\<lambda>s. if generation < sn_Generation s then Some ErrStaleGeneration
            else if generation = sn_Generation s \<and> checksum \<noteq> sn_Checksum s then Some ErrGenerationConflict else None) in
      if expectedNodeID \<noteq> [] \<and> nodeID \<noteq> expectedNodeID then Some ErrNodeIdentity
      else case (case sr_Applied record of None \<Rightarrow> None | Some a \<Rightarrow> check a) of Some e \<Rightarrow> Some e
      | None \<Rightarrow> (case sr_Pending record of None \<Rightarrow> None | Some p \<Rightarrow> check p))"

definition compile_nft :: "('k, 'd) Reconciler \<Rightarrow> DesiredState \<Rightarrow> string \<Rightarrow> bool \<Rightarrow> time \<Rightarrow> agent_error + NftProgram" where
  "compile_nft R desired checksum tableExists now =
     (case CompileAt (rc_marshal R) desired checksum tableExists now of Inl e \<Rightarrow> Inl (CompileFailed e) | Inr p \<Rightarrow> Inr p)"

definition compile_tc :: "TcConfig \<Rightarrow> DesiredState \<Rightarrow> string \<Rightarrow> agent_error + TcProgram" where
  "compile_tc config desired checksum = (case tc_Compile config desired checksum of Inl e \<Rightarrow> Inl (CompileFailed e) | Inr p \<Rightarrow> Inr p)"

definition compile_fabric :: "('k, 'd) Reconciler \<Rightarrow> DesiredState \<Rightarrow> string \<Rightarrow> agent_error + FabricProgram" where
  "compile_fabric R desired checksum =
     (case fabric_Compile (rc_marshal R) (rc_marshalPlan R) desired checksum of Inl e \<Rightarrow> Inl (CompileFailed e) | Inr p \<Rightarrow> Inr p)"

definition Load :: "('k, 'd) Reconciler \<Rightarrow> (('k, 'd) world, agent_error, StateRecord) routine" where
  "Load R = on_disk (st_Load (rc_store R))"

definition Save :: "('k, 'd) Reconciler \<Rightarrow> StateRecord \<Rightarrow> (('k, 'd) world, agent_error, unit) routine" where
  "Save R r = on_disk (st_Save (rc_store R) r)"

definition clock :: "('k, 'd) Reconciler \<Rightarrow> (('k, 'd) world, 'e, time) routine" where
  "clock R w = (case rc_now R (w_kernel w) of (t, k) \<Rightarrow> (Inr t, w\<lparr>w_kernel := k\<rparr>))"

text \<open>\<open>errors.Is\<close>\<close>

fun error_is :: "agent_error \<Rightarrow> agent_error \<Rightarrow> bool" where
  "error_is target (Wrapped what e) = (Wrapped what e = target \<or> error_is target e)"
| "error_is target (Joined es) = (Joined es = target \<or> list_ex (error_is target) es)"
| "error_is target e = (e = target)"

text \<open>A call on an optional backend, made under a condition.\<close>

definition with_backend :: "'b option \<Rightarrow> bool \<Rightarrow> ('b \<Rightarrow> ('k, 'e, unit) routine) \<Rightarrow> (('k, 'd) world, 'e, unit) routine" where
  "with_backend backend c m = (case backend of None \<Rightarrow> return () | Some b \<Rightarrow> if c then on_kernel (m b) else return ())"

abbreviation with_result :: "Result \<Rightarrow> ('w, agent_error, 'a) routine \<Rightarrow> ('w, Result \<times> agent_error, 'a) routine" where
  "with_result res \<equiv> failing (\<lambda>e. (res, e))"

text \<open>A call on the kernel leaves the disk alone, and a call on the disk the kernel.\<close>

lemma steady_on_kernel_disk [steadies]: "steady w_disk (on_kernel m)"
  by (simp add: steady_def on_kernel_def split: prod.split)

lemma steady_on_kernel [steadies]: "steady g m \<Longrightarrow> steady (\<lambda>w. g (w_kernel w)) (on_kernel m)"
  unfolding steady_def on_kernel_def by (auto split: prod.split) (metis snd_conv)

lemma steady_on_disk [steadies]: "steady (\<lambda>w. g (w_kernel w)) (on_disk m)"
  by (simp add: steady_def on_disk_def split: prod.split)

lemma steady_clock_disk [steadies]: "steady w_disk (clock R)"
  by (simp add: steady_def clock_def split: prod.split)

lemma steady_clock [steadies]: "(\<And>k. g (snd (rc_now R k)) = g k) \<Longrightarrow> steady (\<lambda>w. g (w_kernel w)) (clock R)"
  unfolding steady_def clock_def by (auto split: prod.split) (metis snd_conv)

lemma steady_with_backend_disk [steadies]: "steady w_disk (with_backend b c m)"
  unfolding with_backend_def by (intro steadies)

lemma steady_with_backend [steadies]:
  "(\<And>b. backend = Some b \<Longrightarrow> steady g (m b)) \<Longrightarrow> steady (\<lambda>w. g (w_kernel w)) (with_backend backend c m)"
  unfolding with_backend_def by (intro steadies)

section \<open>Rolling back\<close>

text \<open>\<open>collect\<close> runs a step of the rollback, whose error is recorded and does not stop it.\<close>

definition collect :: "string \<Rightarrow> ('k, agent_error, unit) routine \<Rightarrow> (('k, 'd) world, agent_error, agent_error list) routine" where
  "collect what m = andthen (attempt (on_kernel m)) (\<lambda>r. return (case r of Inl e \<Rightarrow> [Wrapped what e] | Inr _ \<Rightarrow> []))"

definition rollback_target :: "('k, 'd) Reconciler \<Rightarrow> StateRecord \<Rightarrow> DesiredState \<Rightarrow> DesiredState \<times> string \<times> agent_error list" where
  "rollback_target R record target =
     (case sr_Applied record of
        Some a \<Rightarrow> (sn_Desired a, sn_Checksum a, [])
      | None \<Rightarrow> let empty = target\<lparr>ds_Forwards := [], ds_UserPolicies := [], ds_FabricLinks := [], ds_ServiceCIDRs := []\<rparr> in
          (case Checksum (rc_marshal R) empty of
             None \<Rightarrow> (empty, [], [AgentError ''checksum empty rollback''])
           | Some checksum \<Rightarrow> (empty, checksum, [])))"

definition rollback_fabric_prepare :: "('k, 'd) Reconciler \<Rightarrow> 'k FabricBackend \<Rightarrow> DesiredState \<Rightarrow> DesiredState \<Rightarrow> string \<Rightarrow>
    (('k, 'd) world, agent_error, FabricProgram \<times> FabricProgram \<times> agent_error list) routine" where
  "rollback_fabric_prepare R backend target rollbackDesired rollbackChecksum =
     (let (targetFabric, errs) =
        (case Checksum (rc_marshal R) target of
           None \<Rightarrow> (no_FabricProgram, [AgentError ''checksum target fabric rollback''])
         | Some targetChecksum \<Rightarrow>
             (case compile_fabric R target targetChecksum of
                Inl e \<Rightarrow> (no_FabricProgram, [Wrapped ''compile target fabric rollback'' e])
              | Inr p \<Rightarrow> (p, []))) in
      case compile_fabric R rollbackDesired rollbackChecksum of
        Inl e \<Rightarrow> return (targetFabric, no_FabricProgram, errs @ [Wrapped ''compile applied fabric rollback'' e])
      | Inr program \<Rightarrow>
          andthen (collect ''prepare fabric rollback'' (fb_Prepare backend program)) (\<lambda>es.
          return (targetFabric, program, errs @ es)))"

definition rollback_nft :: "('k, 'd) Reconciler \<Rightarrow> StateRecord \<Rightarrow> time \<Rightarrow> (('k, 'd) world, agent_error, agent_error list) routine" where
  "rollback_nft R record now =
     (case sr_Applied record of
        Some a \<Rightarrow>
          (case compile_nft R (sn_Desired a) (sn_Checksum a) True now of
             Inl e \<Rightarrow> return [Wrapped ''compile nft rollback'' e]
           | Inr program \<Rightarrow> collect ''apply nft rollback'' (be_Apply (rc_backend R) (np_Script program)))
      | None \<Rightarrow> collect ''remove first-generation nft table'' (be_Apply (rc_backend R) (line ''delete table inet flux'')))"

definition rollback_tc :: "('k, 'd) Reconciler \<Rightarrow> DesiredState \<Rightarrow> string \<Rightarrow> (('k, 'd) world, agent_error, agent_error list) routine" where
  "rollback_tc R rollbackDesired rollbackChecksum =
     (case (rc_tcCompiler R, rc_tcBackend R) of
        (Some config, Some backend) \<Rightarrow>
          if rollbackChecksum = [] then return [AgentError ''tc rollback checksum is unavailable'']
          else (case compile_tc config rollbackDesired rollbackChecksum of
                  Inl e \<Rightarrow> return [Wrapped ''compile tc rollback'' e]
                | Inr program \<Rightarrow> collect ''apply tc rollback'' (tc_Apply backend program))
      | _ \<Rightarrow> return [])"

definition rollbackDataplane :: "('k, 'd) Reconciler \<Rightarrow> StateRecord \<Rightarrow> DesiredState \<Rightarrow> time \<Rightarrow>
    (('k, 'd) world, agent_error, agent_error list) routine" where
  "rollbackDataplane R record target now =
     (case rollback_target R record target of (rollbackDesired, rollbackChecksum, errs0) \<Rightarrow>
      let fabric = (if rc_fabricCompiler R \<and> rollbackChecksum \<noteq> [] then rc_fabricBackend R else None) in
      andthen (case fabric of None \<Rightarrow> return (no_FabricProgram, no_FabricProgram, [])
        | Some backend \<Rightarrow> rollback_fabric_prepare R backend target rollbackDesired rollbackChecksum) (\<lambda>(targetFabric, rollbackFabric, errs1).
      andthen (rollback_nft R record now) (\<lambda>errs2.
      andthen (rollback_tc R rollbackDesired rollbackChecksum) (\<lambda>errs3.
      andthen (case fabric of None \<Rightarrow> return []
        | Some backend \<Rightarrow>
            andthen (collect ''cleanup fabric rollback'' (fb_Cleanup backend targetFabric rollbackFabric)) (\<lambda>es.
            andthen (collect ''verify fabric rollback'' (fb_Verify backend rollbackFabric)) (\<lambda>es'. return (es @ es')))) (\<lambda>errs4.
      return (errs0 @ errs1 @ errs2 @ errs3 @ errs4))))))"

text \<open>\<open>withRollback\<close> returns the error of the operation that failed, joined with those of the rollback.\<close>

definition withRollback :: "('k, 'd) Reconciler \<Rightarrow> StateRecord \<Rightarrow> DesiredState \<Rightarrow> time \<Rightarrow> agent_error \<Rightarrow>
    (('k, 'd) world, agent_error, 'a) routine" where
  "withRollback R record target now applyErr =
     andthen (rollbackDataplane R record target now) (\<lambda>errs.
     throw (if errs = [] then applyErr else Joined [applyErr, Wrapped ''rollback to last-known-good'' (Joined errs)]))"

section \<open>Usage\<close>

definition binding_map :: "CounterBinding list \<Rightarrow> string \<rightharpoonup> CounterBinding" where
  "binding_map bs = foldl (\<lambda>m b. m(cb_Name b \<mapsto> b)) Map.empty bs"

definition meter_samples :: "CounterBinding list \<Rightarrow> RawCounter list \<Rightarrow> Sample list" where
  "meter_samples bindings raw =
     map (\<lambda>c. \<lparr>ms_Name = RawCounter.rc_Name c, ms_Packets = RawCounter.rc_Packets c, ms_Bytes = RawCounter.rc_Bytes c\<rparr>)
       (filter (\<lambda>c. binding_map bindings (RawCounter.rc_Name c) \<noteq> None) raw)"

text \<open>A missing key of the map of bindings yields the zero binding.\<close>

definition usage_delta :: "CounterBinding list \<Rightarrow> MeterDelta \<Rightarrow> UsageDelta" where
  "usage_delta bindings delta =
     (let b = (case binding_map bindings (md_Name delta) of Some b \<Rightarrow> b
           | None \<Rightarrow> \<lparr>cb_Name = [], cb_ForwardID = [], cb_Protocol = [], cb_Direction = [], cb_ResourceVersion = 0\<rparr>) in
      \<lparr>ud_ForwardID = cb_ForwardID b, ud_Protocol = cb_Protocol b, ud_Direction = cb_Direction b,
       ud_ResourceVersion = cb_ResourceVersion b, ud_Packets = md_Packets delta, ud_Bytes = md_Bytes delta, ud_Reset = md_Reset delta\<rparr>)"

text \<open>What the counters contribute: the record to be saved, or \<open>None\<close> when there is nothing to count.\<close>

definition usage_record :: "StateRecord \<Rightarrow> Snapshot \<Rightarrow> NftProgram \<Rightarrow> RawCounter list \<Rightarrow> time \<Rightarrow> agent_error + StateRecord option" where
  "usage_record record applied program raw observedAt =
     (let bindings = np_Counters program; samples = meter_samples bindings raw in
      if bindings = [] then Inr None
      else if samples = [] then Inl (AgentError ''nft returned no counters for the applied program'')
      else case NewTracker (sr_Meter record) of Inl e \<Rightarrow> Inl (AgentError e)
      | Inr tracker \<Rightarrow>
        (case Observe tracker (if sn_ProgramChecksum applied = [] then np_ProgramChecksum program else sn_ProgramChecksum applied) samples of
           (Inl e, _) \<Rightarrow> Inl (AgentError e)
         | (Inr meterBatch, tracker') \<Rightarrow>
             if \<not> list_ex (\<lambda>delta. md_Packets delta \<noteq> 0 \<or> md_Bytes delta \<noteq> 0) (mb_Deltas meterBatch)
             then Inr (Some (record\<lparr>sr_Meter := tracker'\<rparr>))
             else let batch = \<lparr>ub_NodeID = ds_NodeID (sn_Desired applied), ub_Epoch = mb_Epoch meterBatch,
                    ub_Sequence = mb_Sequence meterBatch, ub_Generation = sn_Generation applied, ub_ObservedAt = observedAt,
                    ub_Deltas = map (usage_delta bindings) (mb_Deltas meterBatch)\<rparr> in
               (case UsageBatch_Validate batch of Some e \<Rightarrow> Inl (AgentError e)
                | None \<Rightarrow> Inr (Some (record\<lparr>sr_Meter := tracker', sr_UsageOutbox := sr_UsageOutbox record @ [batch]\<rparr>)))))"

text \<open>The source passes the record by pointer: a failed save returns its error and leaves the new record
  with the caller, so that the result is the error together with the record.\<close>

definition collectUsageLocked :: "('k, 'd) Reconciler \<Rightarrow> StateRecord \<Rightarrow> time \<Rightarrow>
    (('k, 'd) world, agent_error, agent_error option \<times> StateRecord) routine" where
  "collectUsageLocked R record observedAt =
     (case sr_Applied record of None \<Rightarrow> return (None, record)
      | Some applied \<Rightarrow>
        (case be_ReadCounters (rc_backend R) of None \<Rightarrow> return (Some ErrUsageUnavailable, record)
         | Some reader \<Rightarrow>
           if length (sr_UsageOutbox record) \<ge> MaxUsageOutbox then return (Some ErrUsageOutboxFull, record)
           else case compile_nft R (sn_Desired applied) (sn_Checksum applied) True observedAt of
             Inl e \<Rightarrow> return (Some e, record)
           | Inr program \<Rightarrow>
               andthen (attempt (on_kernel reader)) (\<lambda>r. case r of Inl e \<Rightarrow> return (Some e, record)
               | Inr raw \<Rightarrow>
                 (case usage_record record applied program raw observedAt of
                    Inl e \<Rightarrow> return (Some e, record)
                  | Inr None \<Rightarrow> return (None, record)
                  | Inr (Some record') \<Rightarrow>
                      andthen (attempt (Save R record')) (\<lambda>r.
                      return (case r of Inl e \<Rightarrow> Some e | Inr _ \<Rightarrow> None, record'))))))"

definition CollectUsage :: "('k, 'd) Reconciler \<Rightarrow> (('k, 'd) world, agent_error, UsageBatch list) routine" where
  "CollectUsage R =
     andthen (Load R) (\<lambda>record.
     andthen (clock R) (\<lambda>now.
     andthen (collectUsageLocked R record now) (\<lambda>(err, record').
     case err of Some e \<Rightarrow> throw e | None \<Rightarrow> return (cloneUsageBatches (sr_UsageOutbox record')))))"

definition PendingUsage :: "('k, 'd) Reconciler \<Rightarrow> (('k, 'd) world, agent_error, UsageBatch list) routine" where
  "PendingUsage R = andthen (Load R) (\<lambda>record. return (cloneUsageBatches (sr_UsageOutbox record)))"

text \<open>The batches after the first one with the acknowledged epoch and sequence.\<close>

fun after_ack :: "string \<Rightarrow> u64 \<Rightarrow> UsageBatch list \<Rightarrow> UsageBatch list option" where
  "after_ack epoch sequence [] = None"
| "after_ack epoch sequence (b # bs) =
     (if ub_Epoch b = epoch \<and> ub_Sequence b = sequence then Some bs else after_ack epoch sequence bs)"

definition AckUsage :: "('k, 'd) Reconciler \<Rightarrow> string \<Rightarrow> u64 \<Rightarrow> (('k, 'd) world, agent_error, unit) routine" where
  "AckUsage R epoch sequence =
     andthen (Load R) (\<lambda>record.
     case after_ack epoch sequence (sr_UsageOutbox record) of None \<Rightarrow> return ()
     | Some rest \<Rightarrow> Save R (record\<lparr>sr_UsageOutbox := rest\<rparr>))"

section \<open>Converging to a target\<close>

text \<open>The programs of a target: the target with their checksums, the traffic-control and fabric programs,
  and the fabric program of the applied snapshot.\<close>

record plan =
  pl_target :: Snapshot
  pl_tc :: TcProgram
  pl_fabric :: FabricProgram
  pl_previous :: FabricProgram

definition plan_tc :: "('k, 'd) Reconciler \<Rightarrow> Snapshot \<Rightarrow> agent_error + TcProgram \<times> Snapshot" where
  "plan_tc R target =
     (case rc_tcCompiler R of
        Some config \<Rightarrow>
          (case compile_tc config (sn_Desired target) (sn_Checksum target) of Inl e \<Rightarrow> Inl e
           | Inr p \<Rightarrow> Inr (p, target\<lparr>sn_TCChecksum := tp_Checksum p\<rparr>))
      | None \<Rightarrow> if desiredHasRateLimit (sn_Desired target) then Inl ErrTrafficControlUnavailable else Inr (no_TcProgram, target))"

definition plan_fabric :: "('k, 'd) Reconciler \<Rightarrow> StateRecord \<Rightarrow> Snapshot \<Rightarrow> agent_error + FabricProgram \<times> FabricProgram \<times> Snapshot" where
  "plan_fabric R record target =
     (if rc_fabricCompiler R then
        (case compile_fabric R (sn_Desired target) (sn_Checksum target) of Inl e \<Rightarrow> Inl e
         | Inr p \<Rightarrow>
             let target' = target\<lparr>sn_FabricChecksum := fp_Checksum p\<rparr> in
             (case sr_Applied record of None \<Rightarrow> Inr (p, no_FabricProgram, target')
              | Some a \<Rightarrow>
                  (case compile_fabric R (sn_Desired a) (sn_Checksum a) of
                     Inl e \<Rightarrow> Inl (Wrapped ''compile applied fabric program'' e)
                   | Inr previous \<Rightarrow> Inr (p, previous, target'))))
      else if desiredHasFabric (sn_Desired target) \<or>
              (case sr_Applied record of None \<Rightarrow> False | Some a \<Rightarrow> desiredHasFabric (sn_Desired a))
      then Inl ErrFabricUnavailable
      else Inr (no_FabricProgram, no_FabricProgram, target))"

definition plan_target :: "('k, 'd) Reconciler \<Rightarrow> StateRecord \<Rightarrow> Snapshot \<Rightarrow> time \<Rightarrow> agent_error + plan" where
  "plan_target R record target0 now =
     (case compile_nft R (sn_Desired target0) (sn_Checksum target0) False now of Inl e \<Rightarrow> Inl e
      | Inr program \<Rightarrow>
        (case plan_tc R (target0\<lparr>sn_ProgramChecksum := np_ProgramChecksum program\<rparr>) of Inl e \<Rightarrow> Inl e
         | Inr (tcProgram, target1) \<Rightarrow>
           (case plan_fabric R record target1 of Inl e \<Rightarrow> Inl e
            | Inr (fabricProgram, previousFabric, target2) \<Rightarrow>
                Inr \<lparr>pl_target = target2, pl_tc = tcProgram, pl_fabric = fabricProgram, pl_previous = previousFabric\<rparr>)))"

definition target_result :: "Snapshot \<Rightarrow> bool \<Rightarrow> Result" where
  "target_result target recovering = \<lparr>re_Generation = sn_Generation target, re_Checksum = sn_Checksum target,
     re_ProgramChecksum = sn_ProgramChecksum target, re_TCChecksum = sn_TCChecksum target, re_FabricChecksum = sn_FabricChecksum target,
     re_Changed = False, re_Recovered = recovering, re_ConntrackDeleted = 0\<rparr>"

text \<open>The guards on the installed table.\<close>

definition admit :: "StateRecord \<Rightarrow> Snapshot \<Rightarrow> InstalledState \<Rightarrow> bool \<Rightarrow> agent_error option" where
  "admit record target i enforceKernelOrder =
     (if is_Exists i \<and> \<not> is_Managed i then Some ErrForeignTable
      else if is_Managed i \<and> is_Generation i > sn_Generation target then Some ErrKernelAhead
      else if enforceKernelOrder \<and> is_Managed i \<and> is_Generation i = sn_Generation target \<and> is_DesiredChecksum i \<noteq> sn_Checksum target \<and>
              \<not> ((case sr_Applied record of None \<Rightarrow> False | Some a \<Rightarrow> sn_Checksum a = sn_Checksum target) \<or>
                 (case sr_Pending record of None \<Rightarrow> False | Some p \<Rightarrow> sn_Checksum p = sn_Checksum target))
      then Some ErrGenerationConflict else None)"

definition installs :: "InstalledState \<Rightarrow> Snapshot \<Rightarrow> bool" where
  "installs i target \<longleftrightarrow> is_Managed i \<and> is_Generation i = sn_Generation target \<and> is_DesiredChecksum i = sn_Checksum target \<and>
     is_ProgramChecksum i = sn_ProgramChecksum target"

text \<open>\<open>persisted && Verify(program) == nil\<close>, or true without a backend.\<close>

definition verified_current :: "'b option \<Rightarrow> bool \<Rightarrow> ('b \<Rightarrow> ('k, agent_error, unit) routine) \<Rightarrow> (('k, 'd) world, 'e, bool) routine" where
  "verified_current backend persisted verify =
     (case backend of None \<Rightarrow> return True
      | Some b \<Rightarrow> if \<not> persisted then return False
          else andthen (attempt (on_kernel (verify b))) (\<lambda>r. return (case r of Inl _ \<Rightarrow> False | Inr _ \<Rightarrow> True)))"

definition tc_persisted :: "StateRecord \<Rightarrow> Snapshot \<Rightarrow> bool" where
  "tc_persisted record target = (case sr_Applied record of None \<Rightarrow> False
     | Some a \<Rightarrow> sn_Generation a = sn_Generation target \<and> sn_TCChecksum a = sn_TCChecksum target)"

definition fabric_persisted :: "StateRecord \<Rightarrow> Snapshot \<Rightarrow> bool" where
  "fabric_persisted record target = (case sr_Applied record of None \<Rightarrow> False | Some a \<Rightarrow> sn_FabricChecksum a = sn_FabricChecksum target)"

definition settle :: "('k, 'd) Reconciler \<Rightarrow> StateRecord \<Rightarrow> Snapshot \<Rightarrow> Result \<Rightarrow> (('k, 'd) world, Result \<times> agent_error, Result) routine" where
  "settle R record target result =
     (if sr_Pending record \<noteq> None \<or>
         (case sr_Applied record of None \<Rightarrow> True
          | Some a \<Rightarrow> sn_Checksum a \<noteq> sn_Checksum target \<or> sn_ProgramChecksum a \<noteq> sn_ProgramChecksum target \<or>
              sn_TCChecksum a \<noteq> sn_TCChecksum target \<or> sn_FabricChecksum a \<noteq> sn_FabricChecksum target)
      then andthen (with_result result (Save R (record\<lparr>sr_Applied := Some (snapshotCopy target), sr_Pending := None\<rparr>))) (\<lambda>_. return result)
      else return result)"

definition preflight :: "('k, 'd) Reconciler \<Rightarrow> plan \<Rightarrow> bool \<Rightarrow> time \<Rightarrow> bool \<Rightarrow> bool \<Rightarrow> bool \<Rightarrow>
    (('k, 'd) world, agent_error, NftProgram) routine" where
  "preflight R p tableExists now nftCurrent tcCurrent fabricCurrent =
     andthen (unless_error (compile_nft R (sn_Desired (pl_target p)) (sn_Checksum (pl_target p)) tableExists now)) (\<lambda>program.
     andthen (with_backend (Some (rc_backend R)) (\<not> nftCurrent) (\<lambda>b. be_Check b (np_Script program))) (\<lambda>_.
     andthen (with_backend (rc_tcBackend R) (\<not> tcCurrent) (\<lambda>b. tc_Check b (pl_tc p))) (\<lambda>_.
     andthen (with_backend (rc_fabricBackend R) (\<not> fabricCurrent) (\<lambda>b. fb_Check b (pl_previous p) (pl_fabric p))) (\<lambda>_.
     return program))))"

definition collect_before :: "('k, 'd) Reconciler \<Rightarrow> StateRecord \<Rightarrow> Snapshot \<Rightarrow> time \<Rightarrow> (('k, 'd) world, agent_error, StateRecord) routine" where
  "collect_before R record target now =
     (case sr_Applied record of
        Some a \<Rightarrow>
          if sn_ProgramChecksum a \<noteq> sn_ProgramChecksum target
          then andthen (collectUsageLocked R record now) (\<lambda>(err, record').
            case err of None \<Rightarrow> return record'
            | Some e \<Rightarrow> if error_is ErrUsageUnavailable e then return record'
                else throw (Wrapped ''collect counters before dataplane replacement'' e))
          else return record
      | None \<Rightarrow> return record)"

text \<open>A step whose failure rolls the node back.\<close>

definition or_rollback :: "('k, 'd) Reconciler \<Rightarrow> StateRecord \<Rightarrow> DesiredState \<Rightarrow> time \<Rightarrow> string \<Rightarrow> (('k, 'd) world, agent_error, 'a) routine \<Rightarrow>
    (('k, 'd) world, agent_error, 'a) routine" where
  "or_rollback R record target now what m =
     andthen (attempt m) (\<lambda>r. case r of Inl e \<Rightarrow> withRollback R record target now (Wrapped what e) | Inr x \<Rightarrow> return x)"

definition install :: "('k, 'd) Reconciler \<Rightarrow> StateRecord \<Rightarrow> plan \<Rightarrow> NftProgram \<Rightarrow> time \<Rightarrow> bool \<Rightarrow> bool \<Rightarrow> bool \<Rightarrow>
    (('k, 'd) world, agent_error, unit) routine" where
  "install R record p program now nftCurrent tcCurrent fabricCurrent =
     (let step = or_rollback R record (sn_Desired (pl_target p)) now in
      andthen (step ''prepare fabric before nft commit'' (with_backend (rc_fabricBackend R) (\<not> fabricCurrent) (\<lambda>b. fb_Prepare b (pl_fabric p)))) (\<lambda>_.
      andthen (step ''apply nft program after fabric prepare'' (with_backend (Some (rc_backend R)) (\<not> nftCurrent) (\<lambda>b. be_Apply b (np_Script program)))) (\<lambda>_.
      andthen (step ''apply tc program after nft commit'' (with_backend (rc_tcBackend R) (\<not> tcCurrent) (\<lambda>b. tc_Apply b (pl_tc p)))) (\<lambda>_.
      step ''cleanup superseded fabric resources'' (with_backend (rc_fabricBackend R) (\<not> fabricCurrent) (\<lambda>b. fb_Cleanup b (pl_previous p) (pl_fabric p)))))))"

definition verify_install :: "('k, 'd) Reconciler \<Rightarrow> StateRecord \<Rightarrow> plan \<Rightarrow> time \<Rightarrow> (('k, 'd) world, agent_error, unit) routine" where
  "verify_install R record p now =
     (let target = pl_target p; step = or_rollback R record (sn_Desired target) now in
      andthen (or_rollback R record (sn_Desired target) now ''verify applied nft generation'' (on_kernel (be_Inspect (rc_backend R)))) (\<lambda>verified.
      andthen (if \<not> is_Exists verified \<or> \<not> installs verified target
        then withRollback R record (sn_Desired target) now (AgentError ''verify applied nft generation'') else return ()) (\<lambda>_.
      andthen (step ''verify applied tc program'' (with_backend (rc_tcBackend R) True (\<lambda>b. tc_Verify b (pl_tc p)))) (\<lambda>_.
      step ''verify applied fabric program'' (with_backend (rc_fabricBackend R) True (\<lambda>b. fb_Verify b (pl_fabric p)))))))"

definition clean_conntrack :: "('k, 'd) Reconciler \<Rightarrow> Snapshot \<Rightarrow> bool \<Rightarrow> (('k, 'd) world, agent_error, u64) routine" where
  "clean_conntrack R target cleanupNeeded =
     (if \<not> cleanupNeeded then return 0
      else case rc_conntrackCleaner R of None \<Rightarrow> throw (AgentError ''force deletion requested but conntrack cleaner is not configured'')
      | Some cleaner \<Rightarrow> on_kernel (cleaner (ds_NodeID (sn_Desired target)) (explicitForceDeletes (sn_Desired target))))"

text \<open>The part of \<open>converge\<close> from the save of the pending snapshot on.\<close>

definition commit :: "('k, 'd) Reconciler \<Rightarrow> StateRecord \<Rightarrow> plan \<Rightarrow> NftProgram \<Rightarrow> time \<Rightarrow> bool \<Rightarrow> bool \<Rightarrow> bool \<Rightarrow> bool \<Rightarrow> Result \<Rightarrow>
    (('k, 'd) world, Result \<times> agent_error, Result) routine" where
  "commit R record p program now nftCurrent tcCurrent fabricCurrent cleanupNeeded result =
     (let target = pl_target p; record2 = record\<lparr>sr_Pending := Some (snapshotCopy target)\<rparr> in
      andthen (with_result result (Save R record2)) (\<lambda>_.
      andthen (with_result result (install R record2 p program now nftCurrent tcCurrent fabricCurrent)) (\<lambda>_.
      andthen (with_result result (verify_install R record2 p now)) (\<lambda>_.
      andthen (with_result result (clean_conntrack R target cleanupNeeded)) (\<lambda>deleted.
      let result' = result\<lparr>re_ConntrackDeleted := deleted\<rparr>;
          target' = (if cleanupNeeded then target\<lparr>sn_ForceCleanupComplete := True\<rparr> else target) in
      andthen (with_result result' (Save R (record2\<lparr>sr_Applied := Some (snapshotCopy target'), sr_Pending := None\<rparr>))) (\<lambda>_.
      return (result'\<lparr>re_Changed := \<not> nftCurrent \<or> \<not> tcCurrent \<or> \<not> fabricCurrent \<or> cleanupNeeded\<rparr>)))))))"

text \<open>The part of \<open>converge\<close> from the guards on the installed table to the save of the pending snapshot.\<close>

definition converge_installed :: "('k, 'd) Reconciler \<Rightarrow> StateRecord \<Rightarrow> plan \<Rightarrow> time \<Rightarrow> Result \<Rightarrow> bool \<Rightarrow> InstalledState \<Rightarrow>
    (('k, 'd) world, Result \<times> agent_error, Result) routine" where
  "converge_installed R record p now result enforceKernelOrder i =
     (let target = pl_target p in
      case admit record target i enforceKernelOrder of Some e \<Rightarrow> throw (result, e)
      | None \<Rightarrow>
        let nftCurrent = installs i target in
        andthen (verified_current (rc_tcBackend R) (tc_persisted record target) (\<lambda>b. tc_Verify b (pl_tc p))) (\<lambda>tcCurrent.
        andthen (verified_current (rc_fabricBackend R) (fabric_persisted record target) (\<lambda>b. fb_Verify b (pl_fabric p))) (\<lambda>fabricCurrent.
        let cleanupNeeded = (explicitForceDeletes (sn_Desired target) \<noteq> [] \<and> \<not> sn_ForceCleanupComplete target) in
        if nftCurrent \<and> tcCurrent \<and> fabricCurrent \<and> \<not> cleanupNeeded then settle R record target result
        else
          andthen (with_result result (preflight R p (is_Exists i) now nftCurrent tcCurrent fabricCurrent)) (\<lambda>program.
          andthen (with_result result (collect_before R record target now)) (\<lambda>record1.
          commit R record1 p program now nftCurrent tcCurrent fabricCurrent cleanupNeeded result)))))"

definition converge :: "('k, 'd) Reconciler \<Rightarrow> StateRecord \<Rightarrow> Snapshot \<Rightarrow> bool \<Rightarrow> bool \<Rightarrow>
    (('k, 'd) world, Result \<times> agent_error, Result) routine" where
  "converge R record target0 recovering enforceKernelOrder =
     andthen (clock R) (\<lambda>now.
     andthen (with_result no_Result (unless_error (plan_target R record target0 now))) (\<lambda>p.
     let result = target_result (pl_target p) recovering in
     andthen (with_result result (on_kernel (be_Inspect (rc_backend R)))) (\<lambda>installed.
     converge_installed R record p now result enforceKernelOrder installed)))"

section \<open>Operations\<close>

definition option_list :: "'a option \<Rightarrow> 'a list" where
  "option_list x = (case x of None \<Rightarrow> [] | Some y \<Rightarrow> [y])"

text \<open>The stored snapshot of the same desired state, the pending one first, or a new one.\<close>

definition apply_snapshot :: "StateRecord \<Rightarrow> DesiredState \<Rightarrow> string \<Rightarrow> time \<Rightarrow> Snapshot" where
  "apply_snapshot record desired checksum now =
     (let fresh = \<lparr>sn_Desired = desired, sn_Checksum = checksum, sn_ProgramChecksum = [], sn_TCChecksum = [], sn_FabricChecksum = [],
            sn_ForceCleanupComplete = False, sn_PreparedAt = now\<rparr>;
          known = (\<lambda>s. sn_Generation s = ds_Generation desired \<and> sn_Checksum s = checksum) in
      case List.find known (option_list (sr_Pending record) @ option_list (sr_Applied record)) of Some s \<Rightarrow> s | None \<Rightarrow> fresh)"

definition applyLocked :: "('k, 'd) Reconciler \<Rightarrow> DesiredState \<Rightarrow> (('k, 'd) world, Result \<times> agent_error, Result) routine" where
  "applyLocked R desired0 =
     (if Validate desired0 \<noteq> [] then throw (no_Result, InvalidState (Validate desired0))
      else let desired = Canonical desired0 in
        case Checksum (rc_marshal R) desired of None \<Rightarrow> throw (no_Result, AgentError ''calculate desired checksum'')
        | Some checksum \<Rightarrow>
          andthen (with_result no_Result (Load R)) (\<lambda>record.
          case validateIncomingGeneration record (ds_NodeID desired) (ds_Generation desired) checksum of
            Some e \<Rightarrow> throw (no_Result, e)
          | None \<Rightarrow> andthen (clock R) (\<lambda>now. converge R record (apply_snapshot record desired checksum now) False True)))"

definition Apply :: "('k, 'd) Reconciler \<Rightarrow> DesiredState \<Rightarrow> (('k, 'd) world, Result \<times> agent_error, Result) routine" where
  "Apply R desired = applyLocked R desired"

text \<open>\<open>result.Recovered = true\<close> on both outcomes.\<close>

definition recovered :: "(('k, 'd) world, Result \<times> agent_error, Result) routine \<Rightarrow> (('k, 'd) world, Result \<times> agent_error, Result) routine" where
  "recovered m = andthen (failing (\<lambda>(r, e). (r\<lparr>re_Recovered := True\<rparr>, e)) m) (\<lambda>r. return (r\<lparr>re_Recovered := True\<rparr>))"

definition Recover :: "('k, 'd) Reconciler \<Rightarrow> (('k, 'd) world, Result \<times> agent_error, Result) routine" where
  "Recover R =
     andthen (with_result no_Result (Load R)) (\<lambda>record.
     case (case sr_Pending record of Some p \<Rightarrow> Some p | None \<Rightarrow> sr_Applied record) of
       None \<Rightarrow> return (no_Result\<lparr>re_Recovered := True\<rparr>)
     | Some target \<Rightarrow> recovered (converge R record target True False))"

definition Audit :: "('k, 'd) Reconciler \<Rightarrow> (('k, 'd) world, Result \<times> agent_error, Result) routine" where
  "Audit R =
     andthen (with_result no_Result (Load R)) (\<lambda>record.
     case sr_Pending record of Some p \<Rightarrow> converge R record p False False
     | None \<Rightarrow> (case sr_Applied record of Some a \<Rightarrow> converge R record a False False | None \<Rightarrow> return no_Result))"

definition Refresh :: "('k, 'd) Reconciler \<Rightarrow> (('k, 'd) world, Result \<times> agent_error, Result) routine" where
  "Refresh R =
     andthen (with_result no_Result (Load R)) (\<lambda>record.
     case sr_Pending record of Some p \<Rightarrow> converge R record p False False
     | None \<Rightarrow>
       (case sr_Applied record of None \<Rightarrow> return no_Result
        | Some a \<Rightarrow>
            andthen (clock R) (\<lambda>now.
            let expected = ProgramChecksumAt (sn_Desired a) (sn_Checksum a) now in
            if sn_ProgramChecksum a = expected
            then return (no_Result\<lparr>re_Generation := sn_Generation a, re_Checksum := sn_Checksum a, re_ProgramChecksum := expected,
              re_TCChecksum := sn_TCChecksum a, re_FabricChecksum := sn_FabricChecksum a\<rparr>)
            else converge R record a False False)))"

subsection \<open>Purge\<close>

definition purge_state :: "StateRecord \<Rightarrow> string \<Rightarrow> agent_error + DesiredState" where
  "purge_state record nodeID =
     (let clean = \<lparr>ds_SchemaVersion = CurrentSchemaVersion, ds_NodeID = nodeID, ds_Generation = 1, ds_ManagementDomain = [],
            ds_ServiceCIDRs = [], ds_FabricLinks = [], ds_HealthChecks = [], ds_UserPolicies = [], ds_ProtocolBlocks = None, ds_Forwards = []\<rparr> in
      if sr_Pending record \<noteq> None then Inl (AgentError ''cannot purge while a desired state is pending'')
      else case sr_Applied record of None \<Rightarrow> Inr clean
      | Some a \<Rightarrow>
          if ds_Forwards (sn_Desired a) \<noteq> [] then Inl (AgentError ''cannot purge while forwards are still applied'')
          else if ds_NodeID (sn_Desired a) \<noteq> nodeID then Inl ErrNodeIdentity
          else Inr (clean\<lparr>ds_SchemaVersion := ds_SchemaVersion (sn_Desired a), ds_Generation := sn_Generation a\<rparr>))"

definition purge_tc :: "('k, 'd) Reconciler \<Rightarrow> DesiredState \<Rightarrow> string \<Rightarrow> (('k, 'd) world, agent_error, TcProgram) routine" where
  "purge_tc R clean checksum =
     (case rc_tcCompiler R of None \<Rightarrow> return no_TcProgram
      | Some config \<Rightarrow>
          andthen (failing (Wrapped ''compile tc purge program'') (unless_error (compile_tc config clean checksum))) (\<lambda>program.
          case rc_tcBackend R of None \<Rightarrow> throw NilDereference
          | Some backend \<Rightarrow>
              andthen (failing (Wrapped ''preflight tc purge program'') (on_kernel (tc_Check backend program))) (\<lambda>_. return program)))"

definition purge_fabric :: "('k, 'd) Reconciler \<Rightarrow> StateRecord \<Rightarrow> DesiredState \<Rightarrow> string \<Rightarrow>
    (('k, 'd) world, agent_error, FabricProgram \<times> FabricProgram) routine" where
  "purge_fabric R record clean checksum =
     (if \<not> rc_fabricCompiler R then return (no_FabricProgram, no_FabricProgram)
      else andthen (failing (Wrapped ''compile fabric purge program'') (unless_error (compile_fabric R clean checksum))) (\<lambda>cleanFabric.
        andthen (case sr_Applied record of None \<Rightarrow> return no_FabricProgram
          | Some a \<Rightarrow> failing (Wrapped ''compile applied fabric before purge'') (unless_error (compile_fabric R (sn_Desired a) (sn_Checksum a))))
          (\<lambda>previousFabric.
        case rc_fabricBackend R of None \<Rightarrow> throw NilDereference
        | Some backend \<Rightarrow>
            andthen (failing (Wrapped ''preflight fabric purge program'') (on_kernel (fb_Check backend previousFabric cleanFabric))) (\<lambda>_.
            return (cleanFabric, previousFabric)))))"

text \<open>A step of the removal, whose failure restores the last-known-good state once something was changed.\<close>

definition or_restore :: "('k, 'd) Reconciler \<Rightarrow> StateRecord \<Rightarrow> DesiredState \<Rightarrow> bool \<Rightarrow> (('k, 'd) world, agent_error, 'a) routine \<Rightarrow>
    (('k, 'd) world, agent_error, 'a) routine" where
  "or_restore R record clean mutated m =
     andthen (attempt m) (\<lambda>r. case r of Inr x \<Rightarrow> return x
     | Inl cause \<Rightarrow>
         if \<not> mutated then throw cause
         else andthen (clock R) (\<lambda>now.
           andthen (rollbackDataplane R record clean now) (\<lambda>errs.
           throw (if errs = [] then cause
             else Joined [cause, Wrapped ''restore last-known-good after purge failure'' (Joined errs)]))))"

definition purge_remove :: "('k, 'd) Reconciler \<Rightarrow> StateRecord \<Rightarrow> DesiredState \<Rightarrow> InstalledState \<Rightarrow> TcProgram \<Rightarrow> FabricProgram \<Rightarrow>
    FabricProgram \<Rightarrow> (('k, 'd) world, agent_error, unit) routine" where
  "purge_remove R record clean i tcProgram cleanFabric previousFabric =
     (let mutated1 = (rc_fabricBackend R \<noteq> None); mutated2 = (mutated1 \<or> is_Exists i); mutated3 = (mutated2 \<or> rc_tcBackend R \<noteq> None) in
      andthen (failing (Wrapped ''prepare empty fabric before purge'') (with_backend (rc_fabricBackend R) True (\<lambda>b. fb_Prepare b cleanFabric))) (\<lambda>_.
      andthen (or_restore R record clean mutated1 (failing (Wrapped ''remove Flux nft table'')
        (with_backend (Some (rc_backend R)) (is_Exists i) (\<lambda>b. be_Apply b (line ''delete table inet flux''))))) (\<lambda>_.
      andthen (or_restore R record clean mutated2 (failing (Wrapped ''remove Flux tc state'')
        (with_backend (rc_tcBackend R) True (\<lambda>b. tc_Apply b tcProgram)))) (\<lambda>_.
      andthen (or_restore R record clean mutated3 (failing (Wrapped ''remove Flux fabric state'')
        (with_backend (rc_fabricBackend R) True (\<lambda>b. fb_Cleanup b previousFabric cleanFabric)))) (\<lambda>_.
      andthen (or_restore R record clean mutated3 (failing (Wrapped ''verify Flux nft removal'')
        (on_kernel (be_Inspect (rc_backend R))))) (\<lambda>verified.
      andthen (or_restore R record clean mutated3
        (guard (is_Exists verified) (AgentError ''verify Flux nft removal: table inet flux still exists''))) (\<lambda>_.
      andthen (or_restore R record clean mutated3 (failing (Wrapped ''verify Flux tc removal'')
        (with_backend (rc_tcBackend R) True (\<lambda>b. tc_Verify b tcProgram)))) (\<lambda>_.
      or_restore R record clean mutated3 (failing (Wrapped ''verify Flux fabric removal'')
        (with_backend (rc_fabricBackend R) True (\<lambda>b. fb_Verify b cleanFabric)))))))))))"

definition Purge :: "('k, 'd) Reconciler \<Rightarrow> string \<Rightarrow> (('k, 'd) world, agent_error, unit) routine" where
  "Purge R nodeID =
     (case ValidateIdentifier ''node_id'' nodeID of Some e \<Rightarrow> throw (AgentError e)
      | None \<Rightarrow>
        andthen (Load R) (\<lambda>record.
        andthen (unless_error (purge_state record nodeID)) (\<lambda>clean.
        case Checksum (rc_marshal R) clean of None \<Rightarrow> throw (AgentError ''calculate purge checksum'')
        | Some checksum \<Rightarrow>
          andthen (purge_tc R clean checksum) (\<lambda>tcProgram.
          andthen (purge_fabric R record clean checksum) (\<lambda>(cleanFabric, previousFabric).
          andthen (on_kernel (be_Inspect (rc_backend R))) (\<lambda>i.
          andthen (guard (is_Exists i \<and> \<not> is_Managed i) ErrForeignTable) (\<lambda>_.
          purge_remove R record clean i tcProgram cleanFabric previousFabric)))))))"

end
