(* ===== verification/Agent_Durability.thy ===== *)
theory Agent_Durability
  imports Agent_Reconciler
begin

text \<open>
  What the agent's operations do to its durable record. The client is the reconciler over any store
  that keeps the laws of \<open>durable_store\<close>; the provider is the file store of \<open>internal/agent/store.go\<close>.
\<close>

section \<open>The contract of a store\<close>

text \<open>\<open>contents\<close> is the record a reader can obtain, and \<open>written\<close> what a reader obtains of a record that
  was encoded. A save either has no effect or replaces the whole record.\<close>

locale durable_store =
  fixes store :: "'d Store"
    and contents :: "'d \<Rightarrow> StateRecord option"
    and written :: "StateRecord \<Rightarrow> StateRecord option"
    and sound :: "StateRecord \<Rightarrow> bool"
  assumes load_keeps: "st_Load store d = (x, d') \<Longrightarrow> contents d' = contents d"
    and load_reads: "st_Load store d = (Inr r, d') \<Longrightarrow> contents d = Some r"
    and save_whole: "st_Save store r d = (u, d') \<Longrightarrow> contents d' = contents d \<or> contents d' = written r"
    and save_done: "st_Save store r d = (Inr (), d') \<Longrightarrow> contents d' = written r"
    and contents_sound: "contents d = Some r \<Longrightarrow> sound r"

section \<open>The file store\<close>

definition file_record :: "(DesiredState \<Rightarrow> string option) \<Rightarrow> 'b codec \<Rightarrow> 'b option \<Rightarrow> StateRecord option" where
  "file_record marshal c file =
     (case file of None \<Rightarrow> Some EmptyStateRecord
      | Some b \<Rightarrow>
        if cd_size c b > maxStateFileBytes then None
        else case decode_file marshal c b of Inl _ \<Rightarrow> None | Inr r \<Rightarrow> Some r)"

definition file_written :: "(DesiredState \<Rightarrow> string option) \<Rightarrow> 'b codec \<Rightarrow> StateRecord \<Rightarrow> StateRecord option" where
  "file_written marshal c r = (case cd_encode c (r\<lparr>sr_Version := stateRecordVersion\<rparr>) of None \<Rightarrow> None | Some b \<Rightarrow> file_record marshal c (Some b))"

lemma call_file: "call operation d = (x, d') \<Longrightarrow> dk_file d' = dk_file d"
  by (auto simp: call_def failing_def syscall_def split: list.splits prod.splits sum.splits if_splits)

lemma steady_call [steadies]: "steady dk_file (call operation)"
  unfolding steady_def using call_file by (metis prod.collapse)

lemma steady_current_file [steadies]: "steady dk_file current_file"
  by (simp add: steady_def current_file_def)

lemma steady_load: "steady dk_file (FileStore_load marshal c)"
  unfolding FileStore_load_def by (intro steadies)

lemma FileStore_load_reads:
  assumes "FileStore_load marshal c d = (Inr r, d')"
  shows "file_record marshal c (dk_file d) = Some r"
  using assms unfolding FileStore_load_def file_record_def
  by (cases "dk_file d")
    (auto simp: andthen_Inr_iff current_file_def return_def guard_def throw_def unless_error_def dest!: call_file split: if_split_asm)

definition file_replaced :: "'b codec \<Rightarrow> StateRecord \<Rightarrow> 'b option \<Rightarrow> bool" where
  "file_replaced c r file \<longleftrightarrow> (\<exists>b. cd_encode c (r\<lparr>sr_Version := stateRecordVersion\<rparr>) = Some b \<and> file = Some b)"

lemma FileStore_save_whole:
  assumes "FileStore_save marshal c False r d = (u, d')"
  shows "dk_file d' = dk_file d \<or> file_replaced c r (dk_file d')"
  using assms unfolding FileStore_save_def Let_def
  by (auto simp: return_def throw_def put_file_def file_replaced_def andthen_eq_iff split: option.split_asm if_split_asm
     dest!: call_file)

lemma FileStore_save_done:
  assumes "FileStore_save marshal c False r d = (Inr (), d')"
  shows "file_replaced c r (dk_file d')"
  using assms unfolding FileStore_save_def Let_def
  by (auto simp: andthen_Inr_iff return_def throw_def put_file_def file_replaced_def dest!: call_file
      split: option.split_asm if_split_asm)

abbreviation file_store :: "(DesiredState \<Rightarrow> string option) \<Rightarrow> 'b codec \<Rightarrow> 'b disk Store" where
  "file_store marshal c \<equiv> \<lparr>st_Load = FileStore_load marshal c, st_Save = FileStore_save marshal c False\<rparr>"

lemma StateRecord_Validate_iff:
  "StateRecord_Validate marshal r = None \<longleftrightarrow> sr_Version r \<noteq> 0 \<and> sr_Version r \<le> stateRecordVersion \<and>
     validateSnapshot marshal ''applied'' (sr_Applied r) = None \<and> validateSnapshot marshal ''pending'' (sr_Pending r) = None \<and>
     snapshots_conflict (sr_Applied r) (sr_Pending r) = None \<and> length (sr_UsageOutbox r) \<le> MaxUsageOutbox \<and>
     (\<exists>p. range_check outbox_step 0 0 (sr_UsageOutbox r) = Inr p)"
  by (auto simp: StateRecord_Validate_def not_less split: option.splits sum.splits if_splits)

lemma StateRecord_Validate_upgrade:
  "StateRecord_Validate marshal r = None \<Longrightarrow> StateRecord_Validate marshal (r\<lparr>sr_Version := stateRecordVersion\<rparr>) = None"
  by (simp add: StateRecord_Validate_iff stateRecordVersion_def)

lemma EmptyStateRecord_valid: "StateRecord_Validate marshal EmptyStateRecord = None"
  by (simp add: StateRecord_Validate_iff EmptyStateRecord_def stateRecordVersion_def validateSnapshot_def snapshots_conflict_def)

lemma decode_file_sound: "decode_file marshal c b = Inr r \<Longrightarrow> StateRecord_Validate marshal r = None"
  unfolding decode_file_def
  by (auto simp: StateRecord_Validate_upgrade split: option.split_asm if_split_asm prod.split_asm)

lemma file_record_sound: "file_record marshal c file = Some r \<Longrightarrow> StateRecord_Validate marshal r = None"
  unfolding file_record_def
  by (auto simp: EmptyStateRecord_valid dest: decode_file_sound split: option.split_asm if_split_asm sum.split_asm)

interpretation fs: durable_store "file_store marshal c" "\<lambda>d. file_record marshal c (dk_file d)" "file_written marshal c"
  "\<lambda>r. StateRecord_Validate marshal r = None" for marshal c
proof unfold_locales
  fix d d' r
  show "file_record marshal c (dk_file d') = file_record marshal c (dk_file d)"
    if "st_Load (file_store marshal c) d = (x, d')" for x
    using that steadyD [OF steady_load] by fastforce
  show "file_record marshal c (dk_file d) = Some r" if "st_Load (file_store marshal c) d = (Inr r, d')"
    using that FileStore_load_reads by fastforce
  show "file_record marshal c (dk_file d') = file_record marshal c (dk_file d) \<or>
      file_record marshal c (dk_file d') = file_written marshal c r"
    if "st_Save (file_store marshal c) r d = (u, d')" for u
    using that FileStore_save_whole [of marshal c r d u d'] by (auto simp: file_replaced_def file_written_def)
  show "file_record marshal c (dk_file d') = file_written marshal c r"
    if "st_Save (file_store marshal c) r d = (Inr (), d')"
    using that FileStore_save_done [of marshal c r d d'] by (auto simp: file_replaced_def file_written_def)
  show "StateRecord_Validate marshal r = None" if "file_record marshal c (dk_file d) = Some r"
    using that by (rule file_record_sound)
qed

section \<open>What a converging reconciler writes\<close>

text \<open>A record that counted usage: the snapshots are the same, and batches were added to the outbox.\<close>

definition counted :: "StateRecord \<Rightarrow> StateRecord \<Rightarrow> bool" where
  "counted r r' \<longleftrightarrow> sr_Applied r' = sr_Applied r \<and> sr_Pending r' = sr_Pending r \<and> (\<exists>bs. sr_UsageOutbox r' = sr_UsageOutbox r @ bs)"

text \<open>A snapshot of the same desired state.\<close>

definition snapshot_of :: "Snapshot \<Rightarrow> Snapshot \<Rightarrow> bool" where
  "snapshot_of t s \<longleftrightarrow> sn_Desired s = Canonical (sn_Desired t) \<and> sn_Checksum s = sn_Checksum t"

definition pending_write :: "StateRecord \<Rightarrow> Snapshot \<Rightarrow> StateRecord \<Rightarrow> bool" where
  "pending_write r t r' \<longleftrightarrow> (\<exists>r1 s. counted r r1 \<and> snapshot_of t s \<and> r' = r1\<lparr>sr_Pending := Some s\<rparr>)"

definition applied_write :: "StateRecord \<Rightarrow> Snapshot \<Rightarrow> StateRecord \<Rightarrow> bool" where
  "applied_write r t r' \<longleftrightarrow> (\<exists>r1 s. counted r r1 \<and> snapshot_of t s \<and> r' = r1\<lparr>sr_Applied := Some s, sr_Pending := None\<rparr>)"

lemma counted_refl [simp]: "counted r r"
  by (simp add: counted_def)

lemma counted_usage_record: "usage_record r a program raw now = Inr (Some r') \<Longrightarrow> counted r r'"
  unfolding usage_record_def counted_def Let_def
  by (auto split: if_split_asm sum.split_asm prod.split_asm option.split_asm)

lemma plan_target_snapshot:
  assumes "plan_target R r t now = Inr p"
  shows "sn_Desired (pl_target p) = sn_Desired t \<and> sn_Checksum (pl_target p) = sn_Checksum t"
proof -
  have "sn_Desired t' = sn_Desired t \<and> sn_Checksum t' = sn_Checksum t" if "plan_tc R t = Inr (q, t')" for t t' q
    using that unfolding plan_tc_def by (auto split: option.split_asm sum.split_asm if_split_asm)
  moreover have "sn_Desired t' = sn_Desired t \<and> sn_Checksum t' = sn_Checksum t" if "plan_fabric R r t = Inr (q, q', t')" for t t' q q'
    using that unfolding plan_fabric_def Let_def by (auto split: option.split_asm sum.split_asm if_split_asm)
  ultimately show ?thesis using assms unfolding plan_target_def
    by (fastforce split: sum.split_asm prod.split_asm)
qed

lemma snapshot_of_copy [simp]: "snapshot_of t (snapshotCopy s) \<longleftrightarrow> Canonical (sn_Desired s) = Canonical (sn_Desired t) \<and> sn_Checksum s = sn_Checksum t"
  by (auto simp: snapshot_of_def snapshotCopy_def)

subsection \<open>The steps that only reach the kernel\<close>

lemma disk_rollback: "steady w_disk (rollbackDataplane R r t now)"
  unfolding rollbackDataplane_def rollback_fabric_prepare_def rollback_nft_def rollback_tc_def collect_def by (intro steadies)

lemma disk_withRollback: "steady w_disk (withRollback R r t now e)"
  unfolding withRollback_def by (intro steadies disk_rollback)

lemma disk_or_rollback [steadies]: "steady w_disk m \<Longrightarrow> steady w_disk (or_rollback R r t now what m)"
  unfolding or_rollback_def by (intro steadies disk_withRollback)

lemma disk_install: "steady w_disk (install R r p program now a b c)"
  unfolding install_def Let_def by (intro steadies)

lemma disk_verify_install: "steady w_disk (verify_install R r p now)"
  unfolding verify_install_def Let_def by (intro steadies disk_withRollback)

lemma disk_clean_conntrack: "steady w_disk (clean_conntrack R t c)"
  unfolding clean_conntrack_def by (intro steadies)

lemma disk_preflight: "steady w_disk (preflight R p e now a b c)"
  unfolding preflight_def by (intro steadies)

lemma disk_verified_current: "steady w_disk (verified_current b c m)"
  unfolding verified_current_def by (intro steadies)

subsection \<open>Observers\<close>

text \<open>The calls of the interfaces that only observe the node do not change a view of the kernel.\<close>

definition observers :: "('k \<Rightarrow> 'v) \<Rightarrow> ('k, 'd) Reconciler \<Rightarrow> bool" where
  "observers view R \<longleftrightarrow> (\<forall>k. view (snd (rc_now R k)) = view k) \<and>
     steady view (be_Inspect (rc_backend R)) \<and> (\<forall>script. steady view (be_Check (rc_backend R) script)) \<and>
     (\<forall>reader. be_ReadCounters (rc_backend R) = Some reader \<longrightarrow> steady view reader) \<and>
     (\<forall>b. rc_tcBackend R = Some b \<longrightarrow> (\<forall>p. steady view (tc_Check b p) \<and> steady view (tc_Verify b p))) \<and>
     (\<forall>b. rc_fabricBackend R = Some b \<longrightarrow> (\<forall>p q. steady view (fb_Check b q p) \<and> steady view (fb_Verify b p)))"

lemma observers_trivial: "observers (\<lambda>_. ()) R"
  by (simp add: observers_def steady_def)

lemma view_clock: "observers view R \<Longrightarrow> steady (\<lambda>w. view (w_kernel w)) (clock R)"
  by (intro steady_clock) (simp add: observers_def)

lemma view_inspect: "observers view R \<Longrightarrow> steady (\<lambda>w. view (w_kernel w)) (on_kernel (be_Inspect (rc_backend R)))"
  by (intro steadies) (simp add: observers_def)

lemma view_preflight: "observers view R \<Longrightarrow> steady (\<lambda>w. view (w_kernel w)) (preflight R p e now a b c)"
  unfolding preflight_def by (intro steadies) (auto simp: observers_def)

lemma view_verified_current:
  "(\<And>b. backend = Some b \<Longrightarrow> steady view (verify b)) \<Longrightarrow> steady (\<lambda>w. view (w_kernel w)) (verified_current backend c verify)"
  unfolding verified_current_def by (intro steadies) auto

lemma view_verified:
  "observers view R \<Longrightarrow> steady (\<lambda>w. view (w_kernel w)) (verified_current (rc_tcBackend R) c (\<lambda>b. tc_Verify b p))"
  "observers view R \<Longrightarrow> steady (\<lambda>w. view (w_kernel w)) (verified_current (rc_fabricBackend R) c (\<lambda>b. fb_Verify b q))"
  by (intro view_verified_current; simp add: observers_def)+

subsection \<open>Converging, over any durable store\<close>

definition both :: "('w \<Rightarrow> 'u) \<Rightarrow> ('w \<Rightarrow> 'v) \<Rightarrow> 'w \<Rightarrow> 'u \<times> 'v" where
  "both f g w = (f w, g w)"

lemma steady_both: "steady f m \<Longrightarrow> steady g m \<Longrightarrow> steady (both f g) m"
  by (simp add: steady_def both_def)

text \<open>The record on disk before anything of the target is saved, and after.\<close>

definition before :: "(StateRecord \<Rightarrow> StateRecord option) \<Rightarrow> StateRecord \<Rightarrow> StateRecord option \<Rightarrow> bool" where
  "before written r X \<longleftrightarrow> X = Some r \<or> (\<exists>r1. counted r r1 \<and> X = written r1)"

definition named :: "(StateRecord \<Rightarrow> StateRecord option) \<Rightarrow> StateRecord \<Rightarrow> Snapshot \<Rightarrow> StateRecord option \<Rightarrow> bool" where
  "named written r t X \<longleftrightarrow> (\<exists>r'. (pending_write r t r' \<or> applied_write r t r') \<and> X = written r')"

lemma named_pending: "counted r r1 \<Longrightarrow> snapshot_of t s \<Longrightarrow> named written r t (written (r1\<lparr>sr_Pending := Some s\<rparr>))"
  unfolding named_def pending_write_def by blast

lemma named_applied: "counted r r1 \<Longrightarrow> snapshot_of t s \<Longrightarrow> named written r t (written (r1\<lparr>sr_Applied := Some s, sr_Pending := None\<rparr>))"
  unfolding named_def applied_write_def by blast

text \<open>The outcome of a collection: what was counted is on disk when there is no error.\<close>

definition collected :: "(StateRecord \<Rightarrow> StateRecord option) \<Rightarrow> StateRecord \<Rightarrow> agent_error option \<times> StateRecord \<Rightarrow> StateRecord option \<Rightarrow> bool" where
  "collected written r out X \<longleftrightarrow> counted r (snd out) \<and> before written r X \<and> (fst out = None \<longrightarrow> X \<in> {Some (snd out), written (snd out)})"

lemma collected_same: "collected written r (err, r) (Some r)"
  by (simp add: collected_def before_def)

context durable_store
begin

abbreviation on_store :: "('k, 'd) Reconciler \<Rightarrow> bool" where
  "on_store R \<equiv> rc_store R = store"

lemma save_triple:
  assumes "on_store R" and "\<And>w. P w \<Longrightarrow> I (contents (w_disk w)) (w_kernel w)"
    and "\<And>X w. contents (w_disk w) = written r \<Longrightarrow> I X (w_kernel w) \<Longrightarrow> Q () w"
    and "\<And>X e w. I X (w_kernel w) \<Longrightarrow> contents (w_disk w) = X \<or> contents (w_disk w) = written r \<Longrightarrow> E e w"
  shows "valid P (Save R r) Q E"
proof (rule validI)
  fix w assume "P w"
  then have w: "I (contents (w_disk w)) (w_kernel w)" using assms(2) by auto
  obtain u d where save: "st_Save store r (w_disk w) = (u, d)" by fastforce
  then have result: "Save R r w = (u, w\<lparr>w_disk := d\<rparr>)" by (simp add: Save_def on_disk_def assms(1))
  show "case Save R r w of (Inl e, w') \<Rightarrow> E e w' | (Inr x, w') \<Rightarrow> Q x w'"
    unfolding result using save_whole [OF save] save_done [of r "w_disk w" d] save
      assms(3) [of "w\<lparr>w_disk := d\<rparr>" "contents (w_disk w)"] assms(4) [of "contents (w_disk w)" "w\<lparr>w_disk := d\<rparr>"] w
    by (cases u) auto
qed

lemma load_triple:
  assumes "on_store R" and "\<And>w. P w \<Longrightarrow> I (contents (w_disk w)) (w_kernel w)"
    and "\<And>r w. contents (w_disk w) = Some r \<Longrightarrow> I (contents (w_disk w)) (w_kernel w) \<Longrightarrow> Q r w"
    and "\<And>e w. I (contents (w_disk w)) (w_kernel w) \<Longrightarrow> E e w"
  shows "valid P (Load R) Q E"
proof (rule validI)
  fix w assume "P w"
  then have w: "I (contents (w_disk w)) (w_kernel w)" using assms(2) by auto
  obtain u d where load: "st_Load store (w_disk w) = (u, d)" by fastforce
  then have result: "Load R w = (u, w\<lparr>w_disk := d\<rparr>)" by (simp add: Load_def on_disk_def assms(1))
  show "case Load R w of (Inl e, w') \<Rightarrow> E e w' | (Inr x, w') \<Rightarrow> Q x w'"
    unfolding result using load_keeps [OF load] load_reads [of "w_disk w" _ d] load w assms(3,4) by (cases u) auto
qed

text \<open>A step of the kernel between two steps of the disk.\<close>

lemma kernel_then:
  assumes "steady w_disk m" and "\<And>e w. contents (w_disk w) = X \<Longrightarrow> E (wrap e) w"
    and "\<And>x. valid (\<lambda>w. contents (w_disk w) = X) (f x) Q E"
  shows "valid (\<lambda>w. contents (w_disk w) = X) (andthen (failing wrap m) f) Q E"
  by (rule valid_then [where I = "\<lambda>w. contents (w_disk w) = X"],
      rule valid_failing, rule valid_frame [OF assms(1), where I = "\<lambda>d. contents d = X"]) (use assms(2,3) in auto)

abbreviation start :: "StateRecord \<Rightarrow> ('k \<Rightarrow> 'v) \<Rightarrow> 'v \<Rightarrow> ('k, 'd) world \<Rightarrow> bool" where
  "start r view v w \<equiv> contents (w_disk w) = Some r \<and> view (w_kernel w) = v"

abbreviation outcome :: "StateRecord \<Rightarrow> Snapshot \<Rightarrow> ('k \<Rightarrow> 'v) \<Rightarrow> 'v \<Rightarrow> ('k, 'd) world \<Rightarrow> bool" where
  "outcome r t view v w \<equiv> before written r (contents (w_disk w)) \<and> view (w_kernel w) = v \<or> named written r t (contents (w_disk w))"

lemma commit_triple:
  assumes store: "on_store R" and counted: "counted r r1"
    and target: "sn_Desired (pl_target p) = sn_Desired t" "sn_Checksum (pl_target p) = sn_Checksum t"
  shows "valid (\<lambda>w. before written r (contents (w_disk w)) \<and> view (w_kernel w) = v)
     (commit R r1 p program now a b c d result)
     (\<lambda>_ w. named written r t (contents (w_disk w))) (\<lambda>_. outcome r t view v)"
proof -
  define r2 where "r2 = r1\<lparr>sr_Pending := Some (snapshotCopy (pl_target p))\<rparr>"
  have pending: "named written r t (written r2)"
    unfolding r2_def using counted target by (intro named_pending) auto
  have applied: "named written r t (written (r2\<lparr>sr_Applied := Some (snapshotCopy s), sr_Pending := None\<rparr>))"
    if "sn_Desired s = sn_Desired t" "sn_Checksum s = sn_Checksum t" for s
    unfolding r2_def using counted that named_applied [of r r1 t "snapshotCopy s" written] by simp
  show ?thesis unfolding commit_def Let_def r2_def [symmetric]
  proof (rule valid_then [where I = "\<lambda>w. contents (w_disk w) = written r2"])
    show "valid (\<lambda>w. before written r (contents (w_disk w)) \<and> view (w_kernel w) = v) (with_result result (Save R r2))
       (\<lambda>_ w. contents (w_disk w) = written r2)
       (\<lambda>_ w. before written r (contents (w_disk w)) \<and> view (w_kernel w) = v \<or> named written r t (contents (w_disk w)))"
      by (rule valid_failing, rule save_triple [OF store, where I = "\<lambda>X k. before written r X \<and> view k = v"]) (auto simp: pending)
  qed (intro kernel_then [OF disk_install] kernel_then [OF disk_verify_install] kernel_then [OF disk_clean_conntrack]
      valid_then [where I = "\<lambda>w. named written r t (contents (w_disk w))"] valid_failing valid_return save_triple [OF store, where I = "\<lambda>X k. X = written r2"] conjI; auto simp: pending applied target)
qed

lemma settle_triple:
  assumes store: "on_store R" and target: "sn_Desired t' = sn_Desired t \<and> sn_Checksum t' = sn_Checksum t"
  shows "valid (start r view v) (settle R r t' result) (\<lambda>_. outcome r t view v) (\<lambda>_. outcome r t view v)"
proof -
  have applied: "named written r t (written (r\<lparr>sr_Applied := Some (snapshotCopy t'), sr_Pending := None\<rparr>))"
    by (rule named_applied) (auto simp: target)
  show ?thesis unfolding settle_def
    by (intro valid_if valid_then [where I = "\<lambda>w. named written r t (contents (w_disk w))"] valid_failing valid_return
        save_triple [OF store, where I = "\<lambda>X k. X = Some r \<and> view k = v"])
      (auto simp: applied before_def)
qed

lemma collect_save_triple:
  assumes store: "on_store R" and counted: "counted r r1"
  shows "valid (\<lambda>w. contents (w_disk w) = Some r \<and> view (w_kernel w) = v)
     (andthen (attempt (Save R r1)) (\<lambda>x. return (case x of Inl e \<Rightarrow> Some e | Inr _ \<Rightarrow> None, r1)))
     (\<lambda>out w. collected written r out (contents (w_disk w)) \<and> view (w_kernel w) = v) E"
  by (rule valid_andthen [where R = "\<lambda>x w. collected written r (case x of Inl e \<Rightarrow> Some e | Inr _ \<Rightarrow> None, r1) (contents (w_disk w)) \<and>
        view (w_kernel w) = v"], rule valid_attempt,
      rule save_triple [OF store, where I = "\<lambda>X k. X = Some r \<and> view k = v"])
    (use counted in \<open>auto intro!: valid_return simp: collected_def before_def\<close>)

lemma collect_triple:
  assumes store: "on_store R" and obs: "observers view R"
  shows "valid (\<lambda>w. contents (w_disk w) = Some r \<and> view (w_kernel w) = v) (collectUsageLocked R r now)
     (\<lambda>out w. collected written r out (contents (w_disk w)) \<and> view (w_kernel w) = v) E"
proof -
  have reader: "valid (\<lambda>w. contents (w_disk w) = Some r \<and> view (w_kernel w) = v) (attempt (on_kernel reader))
      (\<lambda>_ w. contents (w_disk w) = Some r \<and> view (w_kernel w) = v) E"
    if "be_ReadCounters (rc_backend R) = Some reader" for reader E
    by (rule valid_attempt, rule valid_frame [where f = "both w_disk (\<lambda>w. view (w_kernel w))" and I = "\<lambda>(d, u). contents d = Some r \<and> u = v"],
        intro steady_both steadies) (use obs that in \<open>auto simp: observers_def both_def\<close>)
  show ?thesis unfolding collectUsageLocked_def
    by (intro valid_option valid_if valid_sum valid_then [OF reader] collect_save_triple [OF store])
      (auto intro!: valid_return simp: collected_same dest: counted_usage_record)
qed

lemma collect_before_triple:
  assumes store: "on_store R" and obs: "observers view R"
  shows "valid (\<lambda>w. contents (w_disk w) = Some r \<and> view (w_kernel w) = v) (collect_before R r t now)
     (\<lambda>r1 w. counted r r1 \<and> before written r (contents (w_disk w)) \<and> view (w_kernel w) = v)
     (\<lambda>_ w. before written r (contents (w_disk w)) \<and> view (w_kernel w) = v)"
  unfolding collect_before_def
  by (intro valid_option valid_if valid_return valid_prod valid_throw valid_andthen [OF collect_triple [OF store obs]])
    (auto simp: collected_def before_def)

text \<open>\<open>observing\<close>: a step that leaves the disk and the view alone.\<close>

lemma observing_then:
  assumes "steady w_disk m" "steady (\<lambda>w. view (w_kernel w)) m"
    and "\<And>e w. contents (w_disk w) = X \<Longrightarrow> view (w_kernel w) = v \<Longrightarrow> E e w"
    and "\<And>x. valid (\<lambda>w. contents (w_disk w) = X \<and> view (w_kernel w) = v) (f x) Q E"
  shows "valid (\<lambda>w. contents (w_disk w) = X \<and> view (w_kernel w) = v) (andthen m f) Q E"
  by (rule valid_then [where I = "\<lambda>w. contents (w_disk w) = X \<and> view (w_kernel w) = v"],
      rule valid_frame [OF steady_both [OF assms(1,2)], where I = "\<lambda>(d, u). contents d = X \<and> u = v"])
    (use assms(3,4) in \<open>auto simp: both_def\<close>)

lemma converge_work_triple:
  assumes store: "on_store R" and obs: "observers view R"
    and target: "sn_Desired (pl_target p) = sn_Desired t \<and> sn_Checksum (pl_target p) = sn_Checksum t"
  shows "valid (start r view v)
     (andthen (with_result result (preflight R p ex now a b c)) (\<lambda>program.
      andthen (with_result result (collect_before R r t' now)) (\<lambda>r1. commit R r1 p program now a b c d result)))
     (\<lambda>_. outcome r t view v) (\<lambda>_. outcome r t view v)"
proof (rule observing_then, rule steady_failing [OF disk_preflight], rule steady_failing [OF view_preflight [OF obs]])
  fix program
  have commit: "valid (\<lambda>w. counted r r1 \<and> before written r (contents (w_disk w)) \<and> view (w_kernel w) = v)
      (commit R r1 p program now a b c d result) (\<lambda>_. outcome r t view v) (\<lambda>_. outcome r t view v)" for r1
  proof (rule valid_fact [where F = "counted r r1"])
    assume "counted r r1"
    with target show ?thesis
      by (intro valid_weaken [OF commit_triple [OF store, of r r1 p t]]) auto
  qed simp
  show "valid (start r view v) (andthen (with_result result (collect_before R r t' now))
      (\<lambda>r1. commit R r1 p program now a b c d result)) (\<lambda>_. outcome r t view v) (\<lambda>_. outcome r t view v)"
    by (rule valid_andthen [OF valid_failing [OF valid_weaken [OF collect_before_triple [OF store obs]]] commit]) auto
qed (auto simp: before_def)

lemma converge_installed_triple:
  assumes store: "on_store R" and obs: "observers view R"
    and target: "sn_Desired (pl_target p) = sn_Desired t \<and> sn_Checksum (pl_target p) = sn_Checksum t"
  shows "valid (start r view v) (converge_installed R r p now result enforce i)
     (\<lambda>_. outcome r t view v) (\<lambda>_. outcome r t view v)"
  unfolding converge_installed_def Let_def
  by (intro valid_option valid_if valid_throw settle_triple [OF store target] converge_work_triple [OF store obs target]
      observing_then [OF disk_verified_current view_verified(1) [OF obs]] observing_then [OF disk_verified_current view_verified(2) [OF obs]])
    (auto simp: before_def)

lemma converge_triple:
  assumes store: "on_store R" and obs: "observers view R"
  shows "valid (start r view v) (converge R r t recovering enforce) (\<lambda>_. outcome r t view v) (\<lambda>_. outcome r t view v)"
  unfolding converge_def
  by (intro valid_Let valid_computed observing_then [OF steady_clock_disk view_clock [OF obs]]
      observing_then [OF steady_failing [OF steady_on_kernel_disk] steady_failing [OF view_inspect [OF obs]]]
      converge_installed_triple [OF store obs plan_target_snapshot])
    (auto simp: before_def)

end

end
