(* ===== verification/Agent_Operations.thy ===== *)
theory Agent_Operations
  imports Agent_Durability
begin

text \<open>
  The agent's operations as a system: what each does to the durable record and to the kernel, the steps an
  agent and its surroundings take, and what holds along every run.
\<close>

section \<open>Snapshots that follow one another\<close>

definition newest :: "StateRecord \<Rightarrow> Snapshot option" where
  "newest r = (case sr_Pending r of Some p \<Rightarrow> Some p | None \<Rightarrow> sr_Applied r)"

text \<open>\<open>behind s t\<close>: \<open>t\<close> is of the same node, and of a later generation or the same one with the same checksum.\<close>

definition behind :: "Snapshot \<Rightarrow> Snapshot \<Rightarrow> bool" where
  "behind s t \<longleftrightarrow> ds_NodeID (sn_Desired s) = ds_NodeID (sn_Desired t) \<and>
     (sn_Generation s < sn_Generation t \<or> sn_Generation s = sn_Generation t \<and> sn_Checksum s = sn_Checksum t)"

definition behind_option :: "Snapshot option \<Rightarrow> Snapshot option \<Rightarrow> bool" where
  "behind_option x y \<longleftrightarrow> (\<forall>s. x = Some s \<longrightarrow> (\<exists>t. y = Some t \<and> behind s t))"

definition advances :: "StateRecord \<Rightarrow> StateRecord \<Rightarrow> bool" where
  "advances r r' \<longleftrightarrow> behind_option (sr_Applied r) (sr_Applied r') \<and> behind_option (newest r) (newest r')"

definition follows :: "StateRecord \<Rightarrow> Snapshot \<Rightarrow> bool" where
  "follows r t \<longleftrightarrow> behind_option (sr_Applied r) (Some t) \<and> behind_option (sr_Pending r) (Some t)"

lemma behind_refl [simp]: "behind s s"
  by (simp add: behind_def)

lemma behind_trans: "behind s t \<Longrightarrow> behind t u \<Longrightarrow> behind s u"
  by (auto simp: behind_def)

lemma behind_option_refl [simp]: "behind_option x x"
  by (simp add: behind_option_def)

lemma behind_option_trans: "behind_option x y \<Longrightarrow> behind_option y z \<Longrightarrow> behind_option x z"
  unfolding behind_option_def by (metis behind_trans)

lemma behind_option_None [simp]: "behind_option None y" "behind_option (Some s) None \<longleftrightarrow> False"
  by (simp_all add: behind_option_def)

lemma behind_option_Some [simp]: "behind_option (Some s) (Some t) \<longleftrightarrow> behind s t"
  by (simp add: behind_option_def)

lemma advances_refl [simp]: "advances r r"
  by (simp add: advances_def)

lemma advances_trans: "advances r s \<Longrightarrow> advances s t \<Longrightarrow> advances r t"
  unfolding advances_def by (blast intro: behind_option_trans)

lemma behind_snapshot_of [simp]: "snapshot_of t s \<Longrightarrow> behind x s \<longleftrightarrow> behind x t"
  by (simp add: snapshot_of_def behind_def Canonical_def)

lemma behind_option_snapshot_of: "snapshot_of t s \<Longrightarrow> behind_option x (Some s) \<longleftrightarrow> behind_option x (Some t)"
  by (simp add: behind_option_def)

lemma follows_newest: "follows r t \<Longrightarrow> behind_option (newest r) (Some t)"
  by (auto simp: follows_def newest_def split: option.split)

lemma advances_pending_write: "pending_write r t r' \<Longrightarrow> follows r t \<Longrightarrow> advances r r'"
  unfolding pending_write_def counted_def advances_def
  using follows_newest [of r t] by (auto simp: newest_def behind_option_snapshot_of)

lemma advances_applied_write: "applied_write r t r' \<Longrightarrow> follows r t \<Longrightarrow> advances r r'"
  unfolding applied_write_def counted_def advances_def
  using follows_newest [of r t] by (auto simp: newest_def behind_option_snapshot_of follows_def)

lemma advances_counted: "counted r r' \<Longrightarrow> advances r r'"
  unfolding counted_def advances_def newest_def by (auto split: option.split)

text \<open>The guard of an incoming state, and the validity of the record, give the order.\<close>

lemma snapshots_conflict_None:
  "snapshots_conflict applied pending = None \<Longrightarrow> pending = Some p \<Longrightarrow> behind_option applied (Some p)"
  unfolding snapshots_conflict_def by (auto simp: behind_option_def behind_def split: if_split_asm)

lemma follows_own:
  "snapshots_conflict (sr_Applied r) (sr_Pending r) = None \<Longrightarrow> newest r = Some t \<Longrightarrow> follows r t"
  unfolding newest_def follows_def by (auto dest: snapshots_conflict_None split: option.split_asm)

lemma validateSnapshot_node: "validateSnapshot marshal name (Some s) = None \<Longrightarrow> ds_NodeID (sn_Desired s) \<noteq> []"
  unfolding validateSnapshot_def
  by (auto simp: Validate_well_formed well_formed_def header_ok_def split: if_split_asm)

lemma validateIncomingGeneration_node:
  assumes ok: "validateIncomingGeneration r node generation checksum = None" and valid: "StateRecord_Validate marshal r = None"
  shows "\<forall>s \<in> set_option (sr_Applied r) \<union> set_option (sr_Pending r). ds_NodeID (sn_Desired s) = node"
proof (cases "sr_Applied r")
  case None
  then show ?thesis using ok valid unfolding validateIncomingGeneration_def StateRecord_Validate_iff Let_def
    by (auto dest: validateSnapshot_node split: if_split_asm)
next
  case (Some a)
  have "behind a p" if "sr_Pending r = Some p" for p
    using valid that Some by (auto simp: StateRecord_Validate_iff dest: snapshots_conflict_None)
  moreover have "ds_NodeID (sn_Desired a) = node"
    using ok valid Some unfolding validateIncomingGeneration_def StateRecord_Validate_iff Let_def
    by (auto dest: validateSnapshot_node split: if_split_asm)
  ultimately show ?thesis using Some by (auto simp: behind_def)
qed

lemma validateIncomingGeneration_follows:
  assumes ok: "validateIncomingGeneration r node generation checksum = None"
    and valid: "StateRecord_Validate marshal r = None"
    and t: "ds_NodeID (sn_Desired t) = node" "sn_Generation t = generation" "sn_Checksum t = checksum"
  shows "follows r t"
proof -
  have after: "behind s t" if "ds_NodeID (sn_Desired s) = node"
    "(if generation < sn_Generation s then Some ErrStaleGeneration
      else if generation = sn_Generation s \<and> checksum \<noteq> sn_Checksum s then Some ErrGenerationConflict else None) = None" for s
    using that t by (auto simp: behind_def split: if_split_asm)
  show ?thesis unfolding follows_def behind_option_def
    using ok validateIncomingGeneration_node [OF ok valid] after unfolding validateIncomingGeneration_def Let_def
    by (auto split: option.split_asm if_split_asm)
qed

lemma apply_snapshot_cases:
  obtains (stored) s where "apply_snapshot r desired checksum now = s" "s \<in> set_option (sr_Pending r) \<union> set_option (sr_Applied r)"
      "sn_Generation s = ds_Generation desired" "sn_Checksum s = checksum"
  | (fresh) "sn_Desired (apply_snapshot r desired checksum now) = desired" "sn_Checksum (apply_snapshot r desired checksum now) = checksum"
proof (cases "List.find (\<lambda>s. sn_Generation s = ds_Generation desired \<and> sn_Checksum s = checksum)
    (option_list (sr_Pending r) @ option_list (sr_Applied r))")
  case None
  then show ?thesis by (intro fresh) (simp_all add: apply_snapshot_def Let_def)
next
  case (Some s)
  then have "s \<in> set (option_list (sr_Pending r) @ option_list (sr_Applied r))" "sn_Generation s = ds_Generation desired" "sn_Checksum s = checksum"
    using find_SomeD [OF Some] by simp_all
  moreover have "apply_snapshot r desired checksum now = s" using Some by (simp add: apply_snapshot_def Let_def)
  moreover have "set (option_list x) = set_option x" for x :: "Snapshot option" by (cases x) (simp_all add: option_list_def)
  ultimately show ?thesis using stored [of s] by simp
qed

section \<open>Operations over any durable store\<close>

text \<open>What an operation leaves: nothing changed, or, from the record it has loaded, the outcome of
  converging to an admissible target.\<close>

definition op_post :: "(StateRecord \<Rightarrow> StateRecord option) \<Rightarrow> (StateRecord \<Rightarrow> Snapshot \<Rightarrow> bool) \<Rightarrow> StateRecord option \<Rightarrow> 'v \<Rightarrow>
    StateRecord option \<Rightarrow> 'v \<Rightarrow> bool" where
  "op_post written A X v X' v' \<longleftrightarrow> X' = X \<and> v' = v \<or>
     (\<exists>r t. X = Some r \<and> A r t \<and> (before written r X' \<and> v' = v \<or> named written r t X'))"

definition known_as :: "DesiredState \<Rightarrow> string \<Rightarrow> Snapshot \<Rightarrow> bool" where
  "known_as desired checksum s \<longleftrightarrow> sn_Generation s = ds_Generation desired \<and> sn_Checksum s = checksum"

definition apply_target :: "(DesiredState \<Rightarrow> string option) \<Rightarrow> DesiredState \<Rightarrow> StateRecord \<Rightarrow> Snapshot \<Rightarrow> bool" where
  "apply_target marshal desired r t \<longleftrightarrow> follows r t \<and> sn_Generation t = ds_Generation desired \<and>
     Checksum marshal (Canonical desired) = Some (sn_Checksum t)"

lemma apply_snapshot_target:
  assumes ok: "validateIncomingGeneration r (ds_NodeID (Canonical desired)) (ds_Generation (Canonical desired)) checksum = None"
    and valid: "StateRecord_Validate marshal r = None"
    and checksum: "Checksum marshal (Canonical desired) = Some checksum"
  shows "apply_target marshal desired r (apply_snapshot r (Canonical desired) checksum now)"
proof (rule apply_snapshot_cases [of r "Canonical desired" checksum now])
  fix s
  assume stored: "apply_snapshot r (Canonical desired) checksum now = s" "s \<in> set_option (sr_Pending r) \<union> set_option (sr_Applied r)"
    "sn_Generation s = ds_Generation (Canonical desired)" "sn_Checksum s = checksum"
  have "ds_NodeID (sn_Desired s) = ds_NodeID (Canonical desired)"
    using validateIncomingGeneration_node [OF ok valid] stored(2) by auto
  then show ?thesis using validateIncomingGeneration_follows [OF ok valid, of s] stored checksum
    by (simp add: apply_target_def Canonical_def)
next
  assume "sn_Desired (apply_snapshot r (Canonical desired) checksum now) = Canonical desired"
    "sn_Checksum (apply_snapshot r (Canonical desired) checksum now) = checksum"
  then show ?thesis using validateIncomingGeneration_follows [OF ok valid] checksum
    by (simp add: apply_target_def Canonical_def)
qed

lemma disk_purge:
  "steady w_disk (andthen (unless_error (purge_state r nodeID)) (\<lambda>clean.
     case Checksum m clean of None \<Rightarrow> throw (AgentError ''calculate purge checksum'')
     | Some checksum \<Rightarrow>
       andthen (purge_tc R clean checksum) (\<lambda>tcProgram.
       andthen (purge_fabric R r clean checksum) (\<lambda>(cleanFabric, previousFabric).
       andthen (on_kernel (be_Inspect (rc_backend R))) (\<lambda>i.
       andthen (guard (is_Exists i \<and> \<not> is_Managed i) ErrForeignTable) (\<lambda>_.
       purge_remove R r clean i tcProgram cleanFabric previousFabric))))))"
proof -
  have remove: "steady w_disk (purge_remove R r clean i tcProgram f g)" for R :: "('k, 'd) Reconciler" and r clean i tcProgram f g
    unfolding purge_remove_def Let_def or_restore_def by (intro steadies disk_rollback)
  show ?thesis unfolding purge_tc_def purge_fabric_def by (intro steadies remove)
qed

context durable_store
begin

lemma load_then:
  assumes store: "on_store R" and "\<And>e w. contents (w_disk w) = X \<Longrightarrow> view (w_kernel w) = v \<Longrightarrow> E (wrap e) w"
    and "\<And>r. X = Some r \<Longrightarrow> sound r \<Longrightarrow> valid (start r view v) (f r) Q E"
  shows "valid (\<lambda>w. contents (w_disk w) = X \<and> view (w_kernel w) = v) (andthen (failing wrap (Load R)) f) Q E"
proof (rule valid_andthen [where R = "\<lambda>r w. contents (w_disk w) = Some r \<and> Some r = X \<and> view (w_kernel w) = v"], rule valid_failing,
    rule load_triple [OF store, where I = "\<lambda>Y k. Y = X \<and> view k = v"])
  fix r
  show "valid (\<lambda>w. contents (w_disk w) = Some r \<and> Some r = X \<and> view (w_kernel w) = v) (f r) Q E"
  proof (rule valid_fact [where F = "X = Some r \<and> sound r"])
    assume "X = Some r \<and> sound r"
    then show ?thesis using assms(3) [of r] by (auto intro: valid_weaken)
  qed (auto dest: contents_sound)
qed (use assms(2) in auto)

abbreviation post :: "(StateRecord \<Rightarrow> Snapshot \<Rightarrow> bool) \<Rightarrow> StateRecord option \<Rightarrow> ('k \<Rightarrow> 'v) \<Rightarrow> 'v \<Rightarrow> ('k, 'd) world \<Rightarrow> bool" where
  "post A X view v w \<equiv> op_post written A X v (contents (w_disk w)) (view (w_kernel w))"

lemma converge_post:
  assumes "on_store R" "observers view R" "A r t" "X = Some r"
  shows "valid (start r view v) (converge R r t recovering enforce) (\<lambda>_. post A X view v) (\<lambda>_. post A X view v)"
  by (rule valid_weaken [OF converge_triple [OF assms(1,2), of r v t]]) (use assms(3,4) in \<open>auto simp: op_post_def\<close>)

lemma apply_post:
  assumes store: "on_store R" and obs: "observers view R"
    and sound: "\<And>r. sound r \<Longrightarrow> StateRecord_Validate marshal r = None" and marshal: "rc_marshal R = marshal"
  shows "valid (\<lambda>w. contents (w_disk w) = X \<and> view (w_kernel w) = v) (Apply R desired)
     (\<lambda>_. post (apply_target marshal desired) X view v) (\<lambda>_. post (apply_target marshal desired) X view v)"
  unfolding Apply_def applyLocked_def Let_def
proof (intro valid_if valid_option valid_throw load_then [OF store] observing_then [OF steady_clock_disk view_clock [OF obs]]
    converge_post [OF store obs])
  fix checksum r now
  assume "Checksum (rc_marshal R) (Canonical desired) = Some checksum" "X = Some r" "sound r"
    "validateIncomingGeneration r (ds_NodeID (Canonical desired)) (ds_Generation (Canonical desired)) checksum = None"
  then show "apply_target marshal desired r (apply_snapshot r (Canonical desired) checksum now)"
    using apply_snapshot_target [OF _ sound] marshal by blast
qed (auto simp: op_post_def)

lemma recovered_post: "valid P m (\<lambda>_. Q) (\<lambda>_. Q) \<Longrightarrow> valid P (recovered m) (\<lambda>_. Q) (\<lambda>_. Q)"
  unfolding recovered_def by (intro valid_then [where I = Q] valid_failing valid_return) (auto intro: valid_weaken)

lemma resume_post:
  assumes store: "on_store R" and obs: "observers view R"
  shows "valid (\<lambda>w. contents (w_disk w) = X \<and> view (w_kernel w) = v) (Recover R)
       (\<lambda>_. post (\<lambda>r t. newest r = Some t) X view v) (\<lambda>_. post (\<lambda>r t. newest r = Some t) X view v)"
    and "valid (\<lambda>w. contents (w_disk w) = X \<and> view (w_kernel w) = v) (Audit R)
       (\<lambda>_. post (\<lambda>r t. newest r = Some t) X view v) (\<lambda>_. post (\<lambda>r t. newest r = Some t) X view v)"
    and "valid (\<lambda>w. contents (w_disk w) = X \<and> view (w_kernel w) = v) (Refresh R)
       (\<lambda>_. post (\<lambda>r t. newest r = Some t) X view v) (\<lambda>_. post (\<lambda>r t. newest r = Some t) X view v)"
  unfolding Recover_def Audit_def Refresh_def Let_def
  by (intro valid_if valid_option valid_return recovered_post load_then [OF store] converge_post [OF store obs]
       observing_then [OF steady_clock_disk view_clock [OF obs]];
      auto simp: op_post_def newest_def split: option.split_asm)+

lemmas load_plain = load_then [where wrap = "\<lambda>e. e", unfolded failing_same]

text \<open>\<open>Purge\<close>, the usage collection and the listing change no snapshot.\<close>

lemma purge_post:
  assumes store: "on_store R"
  shows "valid (\<lambda>w. contents (w_disk w) = X) (Purge R nodeID) (\<lambda>_ w. contents (w_disk w) = X) (\<lambda>_ w. contents (w_disk w) = X)"
proof -
  have "valid (\<lambda>w. contents (w_disk w) = X \<and> () = ()) (Purge R nodeID) (\<lambda>_ w. contents (w_disk w) = X) (\<lambda>_ w. contents (w_disk w) = X)"
    unfolding Purge_def
    by (intro valid_option valid_throw load_plain [OF store, where view = "\<lambda>_. ()"] valid_frame [OF disk_purge, where I = "\<lambda>d. contents d = X"])
      auto
  then show ?thesis by simp
qed

abbreviation usage_post :: "StateRecord option \<Rightarrow> ('k \<Rightarrow> 'v) \<Rightarrow> 'v \<Rightarrow> ('k, 'd) world \<Rightarrow> bool" where
  "usage_post X view v w \<equiv> view (w_kernel w) = v \<and> (contents (w_disk w) = X \<or> (\<exists>r. X = Some r \<and> before written r (contents (w_disk w))))"

lemma collect_usage_post:
  assumes store: "on_store R" and obs: "observers view R"
  shows "valid (\<lambda>w. contents (w_disk w) = X \<and> view (w_kernel w) = v) (CollectUsage R) (\<lambda>_. usage_post X view v) (\<lambda>_. usage_post X view v)"
  unfolding CollectUsage_def
  by (intro load_plain [OF store] observing_then [OF steady_clock_disk view_clock [OF obs]]
      valid_andthen [OF collect_triple [OF store obs]] valid_prod valid_option valid_throw valid_return)
    (auto simp: collected_def before_def)

lemma pending_usage_post:
  assumes store: "on_store R"
  shows "valid (\<lambda>w. contents (w_disk w) = X \<and> view (w_kernel w) = v) (PendingUsage R) (\<lambda>_. usage_post X view v) (\<lambda>_. usage_post X view v)"
  unfolding PendingUsage_def by (intro load_plain [OF store] valid_return) auto

abbreviation ack_post :: "string \<Rightarrow> u64 \<Rightarrow> StateRecord option \<Rightarrow> ('k \<Rightarrow> 'v) \<Rightarrow> 'v \<Rightarrow> ('k, 'd) world \<Rightarrow> bool" where
  "ack_post epoch sequence X view v w \<equiv> view (w_kernel w) = v \<and> (contents (w_disk w) = X \<or> (\<exists>r rest. X = Some r \<and>
     after_ack epoch sequence (sr_UsageOutbox r) = Some rest \<and> contents (w_disk w) = written (r\<lparr>sr_UsageOutbox := rest\<rparr>)))"

lemma ack_usage_post:
  assumes store: "on_store R"
  shows "valid (\<lambda>w. contents (w_disk w) = X \<and> view (w_kernel w) = v) (AckUsage R epoch sequence)
    (\<lambda>_. ack_post epoch sequence X view v) (\<lambda>_. ack_post epoch sequence X view v)"
  unfolding AckUsage_def
  by (intro load_plain [OF store] valid_option valid_return save_triple [OF store, where I = "\<lambda>Y k. Y = X \<and> view k = v"]) auto

end

section \<open>The agent on its file store\<close>

abbreviation record_of :: "'b codec \<Rightarrow> ('k, 'b disk) Reconciler \<Rightarrow> ('k, 'b disk) world \<Rightarrow> StateRecord option" where
  "record_of c R w \<equiv> file_record (rc_marshal R) c (dk_file (w_disk w))"

definition on_files :: "'b codec \<Rightarrow> ('k, 'b disk) Reconciler \<Rightarrow> bool" where
  "on_files c R \<longleftrightarrow> rc_store R = file_store (rc_marshal R) c"

text \<open>What the decoder returns of an encoded record is that record.\<close>

definition faithful :: "'b codec \<Rightarrow> bool" where
  "faithful c \<longleftrightarrow> (\<forall>r b r' trailing. cd_encode c r = Some b \<longrightarrow> cd_decode c b = Some (r', trailing) \<longrightarrow> r' = r)"

text \<open>A step is an operation of the agent, with whatever result, or of its surroundings: any change of the
  kernel, and any outcomes of the file system's calls to come.\<close>

inductive agent_step :: "('k, 'b disk) Reconciler \<Rightarrow> ('k, 'b disk) world \<Rightarrow> ('k, 'b disk) world \<Rightarrow> bool" for R where
  Apply_step: "agent_step R w (snd (Apply R desired w))"
| Recover_step: "agent_step R w (snd (Recover R w))"
| Audit_step: "agent_step R w (snd (Audit R w))"
| Refresh_step: "agent_step R w (snd (Refresh R w))"
| Purge_step: "agent_step R w (snd (Purge R nodeID w))"
| CollectUsage_step: "agent_step R w (snd (CollectUsage R w))"
| PendingUsage_step: "agent_step R w (snd (PendingUsage R w))"
| AckUsage_step: "agent_step R w (snd (AckUsage R epoch sequence w))"
| kernel_step: "agent_step R w (w\<lparr>w_kernel := k\<rparr>)"
| fault_step: "agent_step R w (w\<lparr>w_disk := (w_disk w)\<lparr>dk_faults := faults\<rparr>\<rparr>)"

lemma file_written_reads:
  assumes "faithful c" "file_written marshal c r = Some x"
  shows "x = r\<lparr>sr_Version := stateRecordVersion\<rparr>"
  using assms unfolding file_written_def file_record_def decode_file_def faithful_def
  by (fastforce split: option.split_asm if_split_asm sum.split_asm prod.split_asm)

lemma valid_snd: "valid P m (\<lambda>_. Q) (\<lambda>_. Q) \<Longrightarrow> P w \<Longrightarrow> Q (snd (m w))"
  by (cases "m w"; cases "fst (m w)") (auto simp: valid_def)

text \<open>The snapshots advance, and the outbox only grows.\<close>

definition onward :: "StateRecord \<Rightarrow> StateRecord \<Rightarrow> bool" where
  "onward r r' \<longleftrightarrow> advances r r' \<and> (\<exists>bs. sr_UsageOutbox r' = sr_UsageOutbox r @ bs)"

definition moves :: "StateRecord option \<Rightarrow> StateRecord option \<Rightarrow> bool" where
  "moves X X' \<longleftrightarrow> X' = X \<or> (\<exists>r. X = Some r \<and> (\<forall>r'. X' = Some r' \<longrightarrow> onward r r'))"

lemma onward_writes:
  "counted r r' \<Longrightarrow> onward r r'"
  "pending_write r t r' \<Longrightarrow> follows r t \<Longrightarrow> onward r r'"
  "applied_write r t r' \<Longrightarrow> follows r t \<Longrightarrow> onward r r'"
  unfolding onward_def
  by (simp add: advances_counted counted_def, frule (1) advances_pending_write, fastforce simp: pending_write_def counted_def,
      frule (1) advances_applied_write, fastforce simp: applied_write_def counted_def)

lemma onward_version [simp]: "onward r (r'\<lparr>sr_Version := n\<rparr>) \<longleftrightarrow> onward r r'"
  by (simp add: onward_def advances_def newest_def split: option.split)

lemma onward_refl [simp]: "onward r r"
  by (simp add: onward_def)

lemma moves_written: "faithful c \<Longrightarrow> onward r r' \<Longrightarrow> moves (Some r) (file_written m c r')"
  unfolding moves_def using file_written_reads [of c m r'] by auto

lemma moves_before: "faithful c \<Longrightarrow> before (file_written m c) r X' \<Longrightarrow> moves (Some r) X'"
  unfolding before_def using moves_written onward_writes(1) by (elim disjE exE conjE) (simp add: moves_def, blast)

lemma moves_named: "faithful c \<Longrightarrow> named (file_written m c) r t X' \<Longrightarrow> follows r t \<Longrightarrow> moves (Some r) X'"
  unfolding named_def by (auto intro: moves_written onward_writes)

lemma op_post_moves:
  assumes "faithful c" "op_post (file_written m c) A X v X' v'" "\<And>r t. X = Some r \<Longrightarrow> A r t \<Longrightarrow> follows r t"
  shows "moves X X'"
proof (cases "X' = X")
  case True
  then show ?thesis by (simp add: moves_def)
next
  case False
  then obtain r t where "X = Some r" "A r t" "before (file_written m c) r X' \<or> named (file_written m c) r t X'"
    using assms(2) unfolding op_post_def by blast
  then show ?thesis using moves_before [OF assms(1)] moves_named [OF assms(1)] assms(3) by blast
qed

lemma follows_record_of: "record_of c R w = Some r \<Longrightarrow> newest r = Some t \<Longrightarrow> follows r t"
  by (drule file_record_sound) (auto simp: StateRecord_Validate_iff intro: follows_own)

text \<open>An acknowledgement drops the batches up to the acknowledged one.\<close>

lemma after_ack_split: "after_ack e q bs = Some rest \<Longrightarrow> \<exists>pre b. bs = pre @ b # rest \<and> ub_Epoch b = e \<and> ub_Sequence b = q"
  by (induction bs) (auto split: if_split_asm intro: exI [of _ "_ # _"])

lemma agent_step_moves:
  assumes step: "agent_step R w w'" and files: "on_files c R" and faithful: "faithful c"
  shows "moves (record_of c R w) (record_of c R w') \<or>
    (\<exists>r pre b. record_of c R w = Some r \<and> w' = snd (AckUsage R (ub_Epoch b) (ub_Sequence b) w) \<and>
      (\<forall>r'. record_of c R w' = Some r' \<longrightarrow> advances r r' \<and> sr_UsageOutbox r = pre @ b # sr_UsageOutbox r'))"
proof -
  define view where "view = (\<lambda>k :: 'a. ())"
  have obs: "observers view R" unfolding view_def by (rule observers_trivial)
  note files = files [unfolded on_files_def]
  have resume: "moves (record_of c R w) (record_of c R (snd (m w)))"
    if "valid (\<lambda>w'. record_of c R w' = record_of c R w \<and> view (w_kernel w') = ())  m
        (\<lambda>_ w'. op_post (file_written (rc_marshal R) c) (\<lambda>r t. newest r = Some t) (record_of c R w) () (record_of c R w') (view (w_kernel w')))
        (\<lambda>_ w'. op_post (file_written (rc_marshal R) c) (\<lambda>r t. newest r = Some t) (record_of c R w) () (record_of c R w') (view (w_kernel w')))"
    for m :: "(('a, 'b disk) world, Result \<times> agent_error, Result) routine"
    using valid_snd [OF that, of w] by (auto intro!: op_post_moves [OF faithful] intro: follows_record_of)
  have usage: "moves (record_of c R w) (record_of c R w')"
    if "record_of c R w' = record_of c R w \<or> (\<exists>r. record_of c R w = Some r \<and> before (file_written (rc_marshal R) c) r (record_of c R w'))"
    using that moves_before [OF faithful] unfolding moves_def by fastforce
  show ?thesis using step
  proof cases
    case (Apply_step desired)
    show ?thesis using valid_snd [OF fs.apply_post [OF files obs _ refl, of "record_of c R w" "view (w_kernel w)" desired], of w] Apply_step
      by (auto intro!: disjI1 op_post_moves [OF faithful] simp: apply_target_def)
  next
    case Recover_step
    show ?thesis using resume [OF fs.resume_post(1) [OF files obs]] Recover_step by simp
  next
    case Audit_step
    show ?thesis using resume [OF fs.resume_post(2) [OF files obs]] Audit_step by simp
  next
    case Refresh_step
    show ?thesis using resume [OF fs.resume_post(3) [OF files obs]] Refresh_step by simp
  next
    case (Purge_step nodeID)
    show ?thesis using valid_snd [OF fs.purge_post [OF files, of "record_of c R w" nodeID], of w] Purge_step by (simp add: moves_def)
  next
    case CollectUsage_step
    show ?thesis using valid_snd [OF fs.collect_usage_post [OF files obs, of "record_of c R w" "()"], of w] CollectUsage_step
      by - (rule disjI1, rule usage, simp)
  next
    case PendingUsage_step
    show ?thesis using valid_snd [OF fs.pending_usage_post [OF files, of "record_of c R w" view "()"], of w] PendingUsage_step
      by - (rule disjI1, rule usage, simp)
  next
    case (AckUsage_step epoch sequence)
    have "record_of c R w' = record_of c R w \<or> (\<exists>r rest. record_of c R w = Some r \<and>
        after_ack epoch sequence (sr_UsageOutbox r) = Some rest \<and> record_of c R w' = file_written (rc_marshal R) c (r\<lparr>sr_UsageOutbox := rest\<rparr>))"
      using valid_snd [OF fs.ack_usage_post [OF files, of "record_of c R w" view "()" epoch sequence], of w] AckUsage_step by simp
    then show ?thesis
    proof (elim disjE exE conjE)
      fix r rest
      assume r: "record_of c R w = Some r" "after_ack epoch sequence (sr_UsageOutbox r) = Some rest"
        "record_of c R w' = file_written (rc_marshal R) c (r\<lparr>sr_UsageOutbox := rest\<rparr>)"
      obtain pre b where "sr_UsageOutbox r = pre @ b # rest" "ub_Epoch b = epoch" "ub_Sequence b = sequence"
        using after_ack_split [OF r(2)] by blast
      moreover have "advances r (r\<lparr>sr_UsageOutbox := rest, sr_Version := stateRecordVersion\<rparr>)"
        by (simp add: advances_def newest_def split: option.split)
      ultimately show ?thesis using r AckUsage_step file_written_reads [OF faithful, of "rc_marshal R" "r\<lparr>sr_UsageOutbox := rest\<rparr>"]
        by (intro disjI2 exI [of _ r] exI [of _ pre] exI [of _ b]) auto
    qed (simp add: moves_def)
  qed (simp_all add: moves_def)
qed

end
