(* ===== verification/Agent_Success.thy ===== *)
theory Agent_Success
  imports Agent_Operations
begin

text \<open>
  What the agent's operations have reached when they report success: the installed table is the target's,
  and the durable record names the target as applied.
\<close>

section \<open>Reports of the backends\<close>

text \<open>\<open>Inspect\<close> reads the table; the verifications and the conntrack cleaner do not change it.\<close>

definition reports :: "('k \<Rightarrow> InstalledState) \<Rightarrow> ('k, 'd) Reconciler \<Rightarrow> bool" where
  "reports table R \<longleftrightarrow> (\<forall>k i k'. be_Inspect (rc_backend R) k = (Inr i, k') \<longrightarrow> table k' = i) \<and>
     (\<forall>b. rc_tcBackend R = Some b \<longrightarrow> (\<forall>p. steady table (tc_Verify b p))) \<and>
     (\<forall>b. rc_fabricBackend R = Some b \<longrightarrow> (\<forall>p. steady table (fb_Verify b p))) \<and>
     (\<forall>cleaner. rc_conntrackCleaner R = Some cleaner \<longrightarrow> (\<forall>node fs. steady table (cleaner node fs)))"

abbreviation anyway :: "'e \<Rightarrow> 'w \<Rightarrow> bool" where
  "anyway e w \<equiv> True"

lemma valid_failing_anyway: "valid P m Q anyway \<Longrightarrow> valid P (failing wrap m) Q anyway"
  by (rule valid_failing)

lemma valid_anything: "valid P m (\<lambda>_ _. True) anyway"
  by (simp add: valid_def split: prod.split sum.split)

lemma valid_both: "valid P m Q anyway \<Longrightarrow> valid P m Q' anyway \<Longrightarrow> valid P m (\<lambda>x w. Q x w \<and> Q' x w) anyway"
  by (simp add: valid_def split: prod.split_asm sum.split_asm prod.split sum.split)

lemma valid_withRollback: "valid P (withRollback R r t now e) Q anyway"
  unfolding withRollback_def by (rule valid_then [where I = "\<lambda>_. True"]) (simp_all add: valid_def throw_def split: prod.split sum.split)

lemma valid_or_rollback:
  assumes "valid P m Q anyway"
  shows "valid P (or_rollback R r t now what m) Q anyway"
  unfolding or_rollback_def
proof (rule valid_andthen [where R = "\<lambda>x w. case x of Inl _ \<Rightarrow> True | Inr y \<Rightarrow> Q y w"])
  show "valid P (attempt m) (\<lambda>x w. case x of Inl _ \<Rightarrow> True | Inr y \<Rightarrow> Q y w) anyway"
    using assms by (intro valid_attempt) simp
qed (intro valid_sum valid_withRollback valid_return, simp)

lemma valid_inspect:
  "reports table R \<Longrightarrow> valid P (on_kernel (be_Inspect (rc_backend R))) (\<lambda>i w. table (w_kernel w) = i) anyway"
  unfolding valid_def on_kernel_def reports_def by (auto split: prod.split sum.split)

lemma table_steady:
  "reports table R \<Longrightarrow> steady (\<lambda>w. table (w_kernel w)) (with_backend (rc_tcBackend R) c (\<lambda>b. tc_Verify b p))"
  "reports table R \<Longrightarrow> steady (\<lambda>w. table (w_kernel w)) (with_backend (rc_fabricBackend R) c (\<lambda>b. fb_Verify b q))"
  "reports table R \<Longrightarrow> steady (\<lambda>w. table (w_kernel w)) (clean_conntrack R t d)"
  "reports table R \<Longrightarrow> steady (\<lambda>w. table (w_kernel w)) (verified_current (rc_tcBackend R) c (\<lambda>b. tc_Verify b p))"
  "reports table R \<Longrightarrow> steady (\<lambda>w. table (w_kernel w)) (verified_current (rc_fabricBackend R) c (\<lambda>b. fb_Verify b q))"
  unfolding clean_conntrack_def
  by (intro steady_with_backend view_verified_current steadies; simp add: reports_def)+

lemma verify_install_reports:
  assumes "reports table R"
  shows "valid P (verify_install R r p now) (\<lambda>_ w. installs (table (w_kernel w)) (pl_target p)) anyway"
proof -
  have keep: "valid (\<lambda>w. installs (table (w_kernel w)) (pl_target p)) m (\<lambda>_ w. installs (table (w_kernel w)) (pl_target p)) anyway"
    if "steady (\<lambda>w. table (w_kernel w)) m" for m :: "(('a, 'b) world, agent_error, unit) routine"
    by (rule valid_frame [OF that, where I = "\<lambda>i. installs i (pl_target p)"]) auto
  show ?thesis unfolding verify_install_def Let_def
  proof (rule valid_andthen [where R = "\<lambda>i w. table (w_kernel w) = i"], rule valid_or_rollback, rule valid_inspect [OF assms])
    fix i
    show "valid (\<lambda>w. table (w_kernel w) = i)
       (andthen (if \<not> is_Exists i \<or> \<not> installs i (pl_target p)
          then withRollback R r (sn_Desired (pl_target p)) now (AgentError ''verify applied nft generation'') else return ()) (\<lambda>_.
        andthen (or_rollback R r (sn_Desired (pl_target p)) now ''verify applied tc program''
          (with_backend (rc_tcBackend R) True (\<lambda>b. tc_Verify b (pl_tc p)))) (\<lambda>_.
        or_rollback R r (sn_Desired (pl_target p)) now ''verify applied fabric program''
          (with_backend (rc_fabricBackend R) True (\<lambda>b. fb_Verify b (pl_fabric p))))))
       (\<lambda>_ w. installs (table (w_kernel w)) (pl_target p)) anyway"
      by (intro valid_then [where I = "\<lambda>w. installs (table (w_kernel w)) (pl_target p)"] valid_if valid_withRollback valid_return
          valid_or_rollback keep table_steady assms) auto
  qed
qed

section \<open>Success\<close>

definition same_state :: "Snapshot \<Rightarrow> Snapshot \<Rightarrow> bool" where
  "same_state t t' \<longleftrightarrow> sn_Desired t' = sn_Desired t \<and> sn_Checksum t' = sn_Checksum t"

definition names_applied :: "(StateRecord \<Rightarrow> StateRecord option) \<Rightarrow> StateRecord \<Rightarrow> Snapshot \<Rightarrow> StateRecord option \<Rightarrow> bool" where
  "names_applied written r t X \<longleftrightarrow>
     X = Some r \<and> sr_Pending r = None \<and> (\<exists>a. sr_Applied r = Some a \<and> sn_Checksum a = sn_Checksum t \<and> sn_ProgramChecksum a = sn_ProgramChecksum t) \<or>
     (\<exists>r1 s. snapshot_of t s \<and> sn_ProgramChecksum s = sn_ProgramChecksum t \<and> X = written (r1\<lparr>sr_Applied := Some s, sr_Pending := None\<rparr>))"

definition reached :: "(StateRecord \<Rightarrow> StateRecord option) \<Rightarrow> StateRecord \<Rightarrow> Snapshot \<Rightarrow> Result \<Rightarrow> StateRecord option \<Rightarrow> InstalledState \<Rightarrow> bool" where
  "reached written r t res X i \<longleftrightarrow> (\<exists>t'. same_state t t' \<and> installs i t' \<and> names_applied written r t' X \<and>
     re_Generation res = sn_Generation t' \<and> re_Checksum res = sn_Checksum t' \<and> re_ProgramChecksum res = sn_ProgramChecksum t')"

lemma reachedI:
  "same_state t t' \<Longrightarrow> installs i t' \<Longrightarrow> names_applied written r t' X \<Longrightarrow>
     re_Generation res = sn_Generation t' \<Longrightarrow> re_Checksum res = sn_Checksum t' \<Longrightarrow> re_ProgramChecksum res = sn_ProgramChecksum t' \<Longrightarrow>
   reached written r t res X i"
  unfolding reached_def by blast

lemma names_applied_write:
  "sn_Desired s = sn_Desired t \<Longrightarrow> sn_Checksum s = sn_Checksum t \<Longrightarrow> sn_ProgramChecksum s = sn_ProgramChecksum t \<Longrightarrow>
   names_applied written r t (written (r1\<lparr>sr_Applied := Some (snapshotCopy s), sr_Pending := None\<rparr>))"
  unfolding names_applied_def
  by (rule disjI2, rule exI [of _ r1], rule exI [of _ "snapshotCopy s"]) (simp add: snapshotCopy_def snapshot_of_def)

lemma target_result_fields [simp]:
  "re_Generation (target_result t b) = sn_Generation t" "re_Checksum (target_result t b) = sn_Checksum t"
  "re_ProgramChecksum (target_result t b) = sn_ProgramChecksum t"
  by (simp_all add: target_result_def)

context durable_store
begin

abbreviation done_at :: "StateRecord \<Rightarrow> Snapshot \<Rightarrow> ('k \<Rightarrow> InstalledState) \<Rightarrow> Result \<Rightarrow> ('k, 'd) world \<Rightarrow> bool" where
  "done_at r t table res w \<equiv> reached written r t res (contents (w_disk w)) (table (w_kernel w))"

lemma commit_success:
  assumes store: "on_store R" and rep: "reports table R" and target: "same_state t (pl_target p)"
  shows "valid P (commit R r1 p program now a b c d (target_result (pl_target p) e)) (done_at r t table) anyway"
proof -
  let ?I = "\<lambda>w. installs (table (w_kernel w)) (pl_target p)"
  have keep: "valid ?I m (\<lambda>_. ?I) anyway"
    if "steady (\<lambda>w. table (w_kernel w)) m" for m :: "(('a, 'd) world, agent_error, u64) routine"
    by (rule valid_frame [OF that, where I = "\<lambda>i. installs i (pl_target p)"]) auto
  have save: "valid ?I (Save R s) (\<lambda>_ w. installs (table (w_kernel w)) (pl_target p) \<and> contents (w_disk w) = written s) anyway" for s
    by (rule save_triple [OF store, where I = "\<lambda>X k. installs (table k) (pl_target p)"]) auto
  show ?thesis unfolding commit_def Let_def
  proof (rule valid_then [OF valid_anything], rule valid_then [OF valid_anything],
      rule valid_then [OF valid_failing_anyway [OF verify_install_reports [OF rep]]],
      rule valid_then [OF valid_failing_anyway [OF keep [OF table_steady(3) [OF rep]]]], rule valid_then [OF valid_failing_anyway [OF save]])
  qed (auto intro!: valid_return reachedI [OF target] names_applied_write)
qed

lemma settle_success:
  assumes store: "on_store R" and target: "same_state t t'"
  shows "valid (\<lambda>w. contents (w_disk w) = Some r \<and> installs (table (w_kernel w)) t') (settle R r t' (target_result t' e)) (done_at r t table) anyway"
proof -
  have save: "valid (\<lambda>w. contents (w_disk w) = Some r \<and> installs (table (w_kernel w)) t')
      (Save R (r\<lparr>sr_Applied := Some (snapshotCopy t'), sr_Pending := None\<rparr>)) (\<lambda>_. done_at r t table (target_result t' e)) anyway"
    by (rule save_triple [OF store, where I = "\<lambda>X k. installs (table k) t'"]) (auto intro!: reachedI [OF target] names_applied_write)
  have quiet: "reached written r t (target_result t' e) (Some r) i"
    if "installs i t'" "sr_Pending r = None" "sr_Applied r = Some a" "sn_Checksum a = sn_Checksum t'" "sn_ProgramChecksum a = sn_ProgramChecksum t'"
    for a i using that by (intro reachedI [OF target]) (auto simp: names_applied_def)
  show ?thesis unfolding settle_def
    by (intro valid_if valid_then [OF valid_failing_anyway [OF save]])
      (auto intro!: valid_return intro: quiet split: option.split_asm)
qed

lemma converge_installed_success:
  assumes store: "on_store R" and rep: "reports table R" and target: "same_state t (pl_target p)"
  shows "valid (\<lambda>w. contents (w_disk w) = Some r \<and> table (w_kernel w) = i)
    (converge_installed R r p now (target_result (pl_target p) e) enforce i) (done_at r t table) anyway"
proof -
  have work: "valid P (andthen m (\<lambda>program. andthen (g program) (\<lambda>r1. commit R r1 p program now a b c d (target_result (pl_target p) e))))
      (done_at r t table) anyway" for P a b c d and m :: "(('a, 'd) world, Result \<times> agent_error, NftProgram) routine" and g
    by (rule valid_then [OF valid_anything], rule valid_then [OF valid_anything], rule commit_success [OF store rep target])
  show ?thesis unfolding converge_installed_def Let_def
    by (intro valid_option valid_throw valid_if work observing_then [OF disk_verified_current table_steady(4) [OF rep]]
        observing_then [OF disk_verified_current table_steady(5) [OF rep]] valid_weaken [OF settle_success [OF store target]])
      auto
qed

lemma converge_success:
  assumes store: "on_store R" and rep: "reports table R"
  shows "valid (\<lambda>w. contents (w_disk w) = Some r) (converge R r t e enforce) (done_at r t table) anyway"
proof -
  have inspect: "valid (\<lambda>w. contents (w_disk w) = Some r) (on_kernel (be_Inspect (rc_backend R)))
      (\<lambda>i w. contents (w_disk w) = Some r \<and> table (w_kernel w) = i) anyway"
    by (rule valid_both [OF _ valid_inspect [OF rep]], rule valid_frame [OF steady_on_kernel_disk, where I = "\<lambda>d. contents d = Some r"]) auto
  have clock: "valid (\<lambda>w. contents (w_disk w) = Some r) (clock R) (\<lambda>_ w. contents (w_disk w) = Some r) anyway"
    by (rule valid_frame [OF steady_clock_disk, where I = "\<lambda>d. contents d = Some r"]) auto
  show ?thesis unfolding converge_def Let_def
    by (rule valid_then [OF clock], rule valid_computed, simp, rule valid_andthen [OF valid_failing_anyway [OF inspect]],
        rule converge_installed_success [OF store rep]) (auto dest: plan_target_snapshot simp: same_state_def)
qed

lemma apply_success:
  assumes store: "on_store R" and rep: "reports table R"
    and sound: "\<And>r. sound r \<Longrightarrow> StateRecord_Validate (rc_marshal R) r = None"
  shows "valid (\<lambda>w. contents (w_disk w) = X) (Apply R desired)
    (\<lambda>res w. \<exists>r t. apply_target (rc_marshal R) desired r t \<and> done_at r t table res w) anyway"
proof -
  have converge: "valid (start r (\<lambda>_. ()) ()) (converge R r (apply_snapshot r (Canonical desired) checksum now) False True)
      (\<lambda>res w. \<exists>r t. apply_target (rc_marshal R) desired r t \<and> done_at r t table res w) anyway"
    if "Checksum (rc_marshal R) (Canonical desired) = Some checksum" "sound r"
      "validateIncomingGeneration r (ds_NodeID (Canonical desired)) (ds_Generation (Canonical desired)) checksum = None" for r checksum now
    using apply_snapshot_target [OF that(3) sound [OF that(2)] that(1)]
    by (intro valid_weaken [OF converge_success [OF store rep]]) auto
  have "valid (\<lambda>w. contents (w_disk w) = X \<and> () = ()) (Apply R desired)
    (\<lambda>res w. \<exists>r t. apply_target (rc_marshal R) desired r t \<and> done_at r t table res w) anyway"
    unfolding Apply_def applyLocked_def Let_def
    by (intro valid_if valid_throw valid_option load_then [OF store, where view = "\<lambda>_. ()"] converge
        observing_then [OF steady_clock_disk, where view = "\<lambda>_. ()"]) (auto simp: steady_def)
  then show ?thesis by simp
qed

end

lemma names_applied_reads:
  assumes "faithful c" "names_applied (file_written m c) r t (Some r')"
  shows "sr_Pending r' = None \<and> (\<exists>a. sr_Applied r' = Some a \<and> sn_Checksum a = sn_Checksum t \<and> sn_ProgramChecksum a = sn_ProgramChecksum t)"
  using assms(2) unfolding names_applied_def
proof (elim disjE exE conjE)
  fix r1 s assume "snapshot_of t s" "sn_ProgramChecksum s = sn_ProgramChecksum t"
    "Some r' = file_written m c (r1\<lparr>sr_Applied := Some s, sr_Pending := None\<rparr>)"
  then show ?thesis using file_written_reads [OF assms(1), of m _ r'] by (auto simp: snapshot_of_def dest!: sym [of "Some r'"])
qed auto

section \<open>Rolling back\<close>

text \<open>The script and the traffic-control program installed last, as a view of the kernel.\<close>

definition installs_scripts :: "('k \<Rightarrow> string) \<Rightarrow> ('k, 'd) Reconciler \<Rightarrow> bool" where
  "installs_scripts script R \<longleftrightarrow> (\<forall>s k k'. be_Apply (rc_backend R) s k = (Inr (), k') \<longrightarrow> script k' = s) \<and>
     (\<forall>b. rc_tcBackend R = Some b \<longrightarrow> (\<forall>p. steady script (tc_Apply b p))) \<and>
     (\<forall>b. rc_fabricBackend R = Some b \<longrightarrow> (\<forall>p q. steady script (fb_Cleanup b p q) \<and> steady script (fb_Verify b p)))"

lemma collect_clean: "collect what m w = (Inr [], w') \<Longrightarrow> \<exists>k. m (w_kernel w) = (Inr (), k) \<and> w' = w\<lparr>w_kernel := k\<rparr>"
  by (auto simp: collect_def andthen_Inr_iff attempt_def on_kernel_def return_def split: prod.split_asm sum.split_asm)

lemma rollback_nft_clean:
  assumes "rollback_nft R r now w = (Inr [], w')" and "installs_scripts script R"
  shows "case sr_Applied r of None \<Rightarrow> script (w_kernel w') = line ''delete table inet flux''
    | Some a \<Rightarrow> \<exists>program. CompileAt (rc_marshal R) (sn_Desired a) (sn_Checksum a) True now = Inr program \<and> script (w_kernel w') = np_Script program"
  using assms unfolding rollback_nft_def compile_nft_def
  by (auto simp: installs_scripts_def return_def dest!: collect_clean split: option.splits sum.split_asm)

lemma rollback_tc_script: "installs_scripts script R \<Longrightarrow> steady (\<lambda>w. script (w_kernel w)) (rollback_tc R d s)"
  unfolding rollback_tc_def collect_def by (intro steadies) (auto simp: installs_scripts_def)

lemma rollback_cleanup_script:
  assumes "installs_scripts script R"
  shows "steady (\<lambda>w. script (w_kernel w)) (case (if c then rc_fabricBackend R else None) of None \<Rightarrow> return []
        | Some backend \<Rightarrow>
            andthen (collect what (fb_Cleanup backend f g)) (\<lambda>es. andthen (collect what' (fb_Verify backend g)) (\<lambda>es'. return (es @ es'))))"
  unfolding collect_def using assms by (intro steadies) (auto simp: installs_scripts_def split: if_split_asm)

lemma rollback_clean:
  assumes script: "installs_scripts script R" and run: "rollbackDataplane R r target now w = (Inr [], w')"
  shows "\<exists>v v'. rollback_nft R r now v = (Inr [], v') \<and> script (w_kernel w') = script (w_kernel v')"
proof -
  obtain d s e0 where target: "rollback_target R r target = (d, s, e0)" by (cases "rollback_target R r target") auto
  obtain v v1 v2 f g where "rollback_nft R r now v = (Inr [], v1)" and tc: "rollback_tc R d s v1 = (Inr [], v2)"
    and clean: "(case (if rc_fabricCompiler R \<and> s \<noteq> [] then rc_fabricBackend R else None) of None \<Rightarrow> return []
        | Some backend \<Rightarrow>
            andthen (collect ''cleanup fabric rollback'' (fb_Cleanup backend f g)) (\<lambda>es.
            andthen (collect ''verify fabric rollback'' (fb_Verify backend g)) (\<lambda>es'. return (es @ es')))) v2 = (Inr [], w')"
    using run unfolding rollbackDataplane_def target prod.case Let_def andthen_Inr_iff
    by (auto simp: andthen_Inr_iff return_def [of "_ @ _"] split: prod.split_asm)
  moreover have "script (w_kernel w') = script (w_kernel v1)"
    using steadyD [OF rollback_cleanup_script [OF script] clean] steadyD [OF rollback_tc_script [OF script] tc] by simp
  ultimately show ?thesis by blast
qed

end
