(* ===== verification/Agent_Sample.thy ===== *)
theory Agent_Sample
  imports Agent_Success
begin

text \<open>
  An agent on a node without forwards, over a backend that installs one table and a codec that stores the
  record itself. Its first \<open>Apply\<close> is computed here, for the witnesses.
\<close>

lemma checksumPattern_valid: "checksumPattern s \<Longrightarrow> validStateChecksum s"
  unfolding checksumPattern_def validStateChecksum_def list_all_iff
  by (auto simp: is_digit_def less_char_def code_def)

definition idle_state :: DesiredState where
  "idle_state = \<lparr>ds_SchemaVersion = CurrentSchemaVersion, ds_NodeID = ''node-1'', ds_Generation = 7, ds_ManagementDomain = [],
     ds_ServiceCIDRs = [], ds_FabricLinks = [], ds_HealthChecks = [], ds_UserPolicies = [], ds_ProtocolBlocks = None, ds_Forwards = []\<rparr>"

definition idle_digest :: string where "idle_digest = hex_EncodeToString (Sum256 (ds_NodeID idle_state))"

definition idle_program :: "bool \<Rightarrow> NftProgram" where
  "idle_program e = \<lparr>np_Generation = 7, np_DesiredChecksum = idle_digest, np_ProgramChecksum = ProgramChecksum idle_digest,
     np_Script = nft_script idle_state e 7 idle_digest (ProgramChecksum idle_digest) \<lparr>nb_tcp = no_elements, nb_udp = no_elements, nb_counters = []\<rparr>,
     np_Counters = []\<rparr>"

definition idle_installed :: InstalledState where
  "idle_installed = \<lparr>is_Exists = True, is_Managed = True, is_Generation = 7, is_DesiredChecksum = idle_digest,
     is_ProgramChecksum = ProgramChecksum idle_digest\<rparr>"

definition idle_backend :: "(InstalledState \<times> string) Backend" where
  "idle_backend = \<lparr>be_Inspect = (\<lambda>k. (Inr (fst k), k)), be_Check = (\<lambda>s. return ()),
     be_Apply = (\<lambda>s k. (Inr (), (idle_installed, s))), be_ReadCounters = None\<rparr>"

definition idle_codec :: "StateRecord codec" where
  "idle_codec = \<lparr>cd_encode = Some, cd_decode = (\<lambda>r. Some (r, False)), cd_size = (\<lambda>_. 0)\<rparr>"

definition idle_agent :: "(InstalledState \<times> string, StateRecord disk) Reconciler" where
  "idle_agent = \<lparr>rc_marshal = sample_marshal, rc_marshalPlan = (\<lambda>_ _ _. None), rc_backend = idle_backend,
     rc_store = file_store sample_marshal idle_codec, rc_now = (\<lambda>k. (5, k)), rc_tcCompiler = None, rc_tcBackend = None,
     rc_conntrackCleaner = None, rc_fabricCompiler = False, rc_fabricBackend = None\<rparr>"

definition idle_world :: "(InstalledState \<times> string, StateRecord disk) world" where
  "idle_world = \<lparr>w_kernel = (not_installed, []), w_disk = \<lparr>dk_file = None, dk_faults = []\<rparr>\<rparr>"

definition idle_snapshot :: Snapshot where
  "idle_snapshot = \<lparr>sn_Desired = idle_state, sn_Checksum = idle_digest, sn_ProgramChecksum = ProgramChecksum idle_digest, sn_TCChecksum = [],
     sn_FabricChecksum = [], sn_ForceCleanupComplete = False, sn_PreparedAt = 5\<rparr>"

definition idle_result :: Result where
  "idle_result = (target_result idle_snapshot False)\<lparr>re_Changed := True\<rparr>"

definition idle_record :: StateRecord where
  "idle_record = EmptyStateRecord\<lparr>sr_Applied := Some idle_snapshot\<rparr>"

definition idle_after :: "(InstalledState \<times> string, StateRecord disk) world" where
  "idle_after = \<lparr>w_kernel = (idle_installed, np_Script (idle_program False)), w_disk = \<lparr>dk_file = Some idle_record, dk_faults = []\<rparr>\<rparr>"

lemma idle_valid: "Validate idle_state = []"
proof -
  have "header_ok idle_state"
    by (simp add: header_ok_def idle_state_def MaxForwardsPerSnapshot_def MaxFabricLinksPerSnapshot_def MaxServiceCIDRsPerSnapshot_def
      MaxHealthChecksPerSnapshot_def SupportedSchemaVersion_def) code_simp
  moreover have "version_ok idle_state" by (simp add: version_ok_def idle_state_def)
  ultimately show ?thesis unfolding Validate_split by (simp add: idle_state_def)
qed

lemma idle_canonical [simp]: "Canonical idle_state = idle_state"
  by (simp add: Canonical_def idle_state_def)

lemma idle_checksum: "Checksum sample_marshal idle_state = Some idle_digest"
  by (simp add: Checksum_def idle_digest_def)

lemma idle_compile: "compile_nft idle_agent idle_state idle_digest e now = Inr (idle_program e)"
proof -
  have "nft_elements idle_state now = Inr \<lparr>nb_tcp = no_elements, nb_udp = no_elements, nb_counters = []\<rparr>"
    by (simp add: nft_elements_def idle_state_def)
  moreover have "ProgramChecksumAt idle_state idle_digest now = ProgramChecksum idle_digest"
    by (simp add: ProgramChecksumAt_def runtimeFingerprint_def) (simp add: idle_state_def)
  moreover have "ds_Generation idle_state = 7" by (simp add: idle_state_def)
  ultimately show ?thesis
    by (simp add: compile_nft_def idle_agent_def CompileAt_eq [OF idle_valid idle_checksum] idle_program_def)
qed

lemma idle_record_valid:
  assumes "\<And>s. sr_Applied r = Some s \<Longrightarrow> s = idle_snapshot" "\<And>s. sr_Pending r = Some s \<Longrightarrow> s = idle_snapshot"
    "sr_UsageOutbox r = []" "sr_Version r = stateRecordVersion"
  shows "StateRecord_Validate sample_marshal r = None"
proof -
  have "checksumPattern (ProgramChecksum idle_digest)"
    unfolding ProgramChecksum_def nft_checksum_def by (rule digest_pattern)
  then have snapshot: "validateSnapshot sample_marshal name (Some idle_snapshot) = None" for name
    by (simp add: validateSnapshot_def idle_snapshot_def idle_valid idle_checksum IsZero_def checksumPattern_valid)
  have "validateSnapshot sample_marshal name x = None" if "\<And>s. x = Some s \<Longrightarrow> s = idle_snapshot" for name x
    using that snapshot by (cases x) (auto simp: validateSnapshot_def)
  moreover have "snapshots_conflict (sr_Applied r) (sr_Pending r) = None"
    using assms(1,2) by (cases "sr_Applied r"; cases "sr_Pending r") (auto simp: snapshots_conflict_def)
  ultimately show ?thesis using assms by (simp add: StateRecord_Validate_iff stateRecordVersion_def)
qed

lemma idle_save:
  assumes "StateRecord_Validate sample_marshal r = None" "sr_Version r = stateRecordVersion" "dk_faults (w_disk w) = []"
  shows "Save idle_agent r w = (Inr (), w\<lparr>w_disk := \<lparr>dk_file = Some r, dk_faults = []\<rparr>\<rparr>)"
proof -
  have same: "r\<lparr>sr_Version := stateRecordVersion\<rparr> = r" using assms(2) by simp
  show ?thesis using assms(1,3)
    by (cases "w_disk w")
      (simp add: Save_def on_disk_def idle_agent_def FileStore_save_def Let_def same andthen_def call_def syscall_def failing_def put_file_def
        idle_codec_def return_def)
qed

lemma idle_load: "Load idle_agent idle_world = (Inr EmptyStateRecord, idle_world)"
  by (simp add: Load_def on_disk_def idle_agent_def FileStore_load_def andthen_def call_def syscall_def failing_def current_file_def
      idle_world_def return_def)

lemma idle_fields [simp]:
  "rc_marshal idle_agent = sample_marshal" "rc_backend idle_agent = idle_backend" "rc_tcCompiler idle_agent = None"
  "rc_tcBackend idle_agent = None" "rc_conntrackCleaner idle_agent = None" "rc_fabricCompiler idle_agent = False"
  "rc_fabricBackend idle_agent = None" "rc_now idle_agent k = (5, k)"
  by (simp_all add: idle_agent_def)

lemma idle_state_fields [simp]:
  "ds_NodeID idle_state = ''node-1''" "ds_Generation idle_state = 7" "ds_Forwards idle_state = []" "ds_FabricLinks idle_state = []"
  by (simp_all add: idle_state_def)

lemma idle_snapshot_fields [simp]:
  "sn_Desired idle_snapshot = idle_state" "sn_Checksum idle_snapshot = idle_digest" "sn_ProgramChecksum idle_snapshot = ProgramChecksum idle_digest"
  "snapshotCopy idle_snapshot = idle_snapshot"
  by (simp_all add: idle_snapshot_def snapshotCopy_def)

lemma idle_world_fields [simp]:
  "w_kernel idle_world = (not_installed, [])" "idle_world\<lparr>w_kernel := (not_installed, [])\<rparr> = idle_world"
  by (simp_all add: idle_world_def)

lemma idle_plan:
  "plan_target idle_agent EmptyStateRecord (apply_snapshot EmptyStateRecord idle_state idle_digest 5) now =
     Inr \<lparr>pl_target = idle_snapshot, pl_tc = no_TcProgram, pl_fabric = no_FabricProgram, pl_previous = no_FabricProgram\<rparr>"
  by (simp add: apply_snapshot_def option_list_def EmptyStateRecord_def plan_target_def idle_compile plan_tc_def plan_fabric_def
      desiredHasRateLimit_def desiredHasFabric_def idle_program_def idle_snapshot_def)

lemma idle_install:
  "install idle_agent r P (idle_program False) now False True True w =
     (Inr (), w\<lparr>w_kernel := (idle_installed, np_Script (idle_program False))\<rparr>)"
  by (simp add: install_def or_rollback_def with_backend_def andthen_def attempt_def on_kernel_def idle_backend_def return_def)

lemma idle_verify:
  assumes "pl_target P = idle_snapshot" "fst (w_kernel w) = idle_installed"
  shows "verify_install idle_agent r P now w = (Inr (), w)"
  using assms by (simp add: verify_install_def or_rollback_def with_backend_def andthen_def attempt_def on_kernel_def idle_backend_def return_def
      installs_def idle_installed_def Let_def)

lemma idle_commit:
  "commit idle_agent EmptyStateRecord \<lparr>pl_target = idle_snapshot, pl_tc = no_TcProgram, pl_fabric = no_FabricProgram, pl_previous = no_FabricProgram\<rparr>
     (idle_program False) 5 False True True False (target_result idle_snapshot False) idle_world = (Inr idle_result, idle_after)"
proof -
  let ?r = "EmptyStateRecord\<lparr>sr_Pending := Some idle_snapshot\<rparr>"
  let ?w = "idle_world\<lparr>w_disk := \<lparr>dk_file = Some ?r, dk_faults = []\<rparr>\<rparr>"
  have save1: "Save idle_agent ?r idle_world = (Inr (), ?w)"
    by (rule idle_save) (auto intro!: idle_record_valid simp: EmptyStateRecord_def idle_world_def)
  have save2: "Save idle_agent (?r\<lparr>sr_Applied := Some idle_snapshot, sr_Pending := None\<rparr>)
      (?w\<lparr>w_kernel := (idle_installed, np_Script (idle_program False))\<rparr>) = (Inr (), idle_after)"
    by (subst idle_save) (auto intro!: idle_record_valid simp: EmptyStateRecord_def idle_world_def idle_after_def idle_record_def)
  show ?thesis unfolding commit_def Let_def
    by (simp add: andthen_def failing_def save1 save2 [simplified] idle_install idle_verify clean_conntrack_def return_def idle_result_def
        target_result_def)
qed

lemma idle_apply: "Apply idle_agent idle_state idle_world = (Inr idle_result, idle_after)"
proof -
  have node: "validateIncomingGeneration EmptyStateRecord ''node-1'' 7 idle_digest = None"
    by (simp add: validateIncomingGeneration_def EmptyStateRecord_def)
  have pre: "preflight idle_agent P False 5 False True True idle_world = (Inr (idle_program False), idle_world)" if "pl_target P = idle_snapshot" for P
    using that by (simp add: preflight_def andthen_def unless_error_def idle_compile with_backend_def on_kernel_def idle_backend_def return_def idle_world_def)
  have collect: "collect_before idle_agent EmptyStateRecord idle_snapshot 5 idle_world = (Inr EmptyStateRecord, idle_world)"
    by (simp add: collect_before_def EmptyStateRecord_def return_def)
  have installed: "converge_installed idle_agent EmptyStateRecord \<lparr>pl_target = idle_snapshot, pl_tc = no_TcProgram, pl_fabric = no_FabricProgram,
      pl_previous = no_FabricProgram\<rparr> 5 (target_result idle_snapshot False) True not_installed idle_world = (Inr idle_result, idle_after)"
    unfolding converge_installed_def Let_def
    by (simp add: admit_def installs_def not_installed_def verified_current_def explicitForceDeletes_def andthen_def failing_def pre collect
        idle_commit return_def)
  show ?thesis unfolding Apply_def applyLocked_def Let_def idle_canonical
    by (simp add: idle_valid idle_checksum andthen_def failing_def idle_load node clock_def converge_def idle_plan unless_error_def Let_def
        on_kernel_def idle_backend_def installed)
qed

lemma idle_records: "record_of idle_codec idle_agent idle_world = Some EmptyStateRecord" "record_of idle_codec idle_agent idle_after = Some idle_record"
proof -
  have "StateRecord_Validate sample_marshal idle_record = None"
    by (rule idle_record_valid) (auto simp: idle_record_def EmptyStateRecord_def)
  then show "record_of idle_codec idle_agent idle_after = Some idle_record"
    by (simp add: file_record_def idle_after_def idle_codec_def decode_file_def idle_record_def EmptyStateRecord_def)
qed (simp add: file_record_def idle_world_def)

lemma idle_laws:
  "on_files idle_codec idle_agent" "faithful idle_codec" "observers id idle_agent" "reports fst idle_agent" "installs_scripts snd idle_agent"
  by (simp_all add: on_files_def faithful_def observers_def reports_def installs_scripts_def idle_codec_def idle_backend_def steady_def return_def)
    (simp add: idle_agent_def idle_codec_def)

section \<open>An acknowledgement\<close>

definition sample_batch :: UsageBatch where
  "sample_batch = \<lparr>ub_NodeID = ''node-1'', ub_Epoch = replicate 64 CHR ''a'', ub_Sequence = 1, ub_Generation = 3, ub_ObservedAt = 5, ub_Deltas = []\<rparr>"

definition ack_record :: StateRecord where
  "ack_record = EmptyStateRecord\<lparr>sr_UsageOutbox := [sample_batch]\<rparr>"

definition ack_world :: "(InstalledState \<times> string, StateRecord disk) world" where
  "ack_world = \<lparr>w_kernel = (not_installed, []), w_disk = \<lparr>dk_file = Some ack_record, dk_faults = []\<rparr>\<rparr>"

lemma ack_record_valid: "StateRecord_Validate sample_marshal ack_record = None"
proof -
  have "validIdentifier ''node-1''" "validChecksum (replicate 64 CHR ''a'')" by code_simp+
  then have "UsageBatch_Validate sample_batch = None"
    by (simp add: UsageBatch_Validate_def sample_batch_def IsZero_def ValidateIdentifier_def)
  then show ?thesis
    by (simp add: StateRecord_Validate_iff ack_record_def EmptyStateRecord_def stateRecordVersion_def validateSnapshot_def
        snapshots_conflict_def MaxUsageOutbox_def outbox_step_def)
qed

lemma ack_run:
  "snd (AckUsage idle_agent (ub_Epoch sample_batch) (ub_Sequence sample_batch) ack_world) =
     ack_world\<lparr>w_disk := \<lparr>dk_file = Some EmptyStateRecord, dk_faults = []\<rparr>\<rparr>"
proof -
  have load: "Load idle_agent ack_world = (Inr ack_record, ack_world)"
    by (simp add: Load_def on_disk_def idle_agent_def FileStore_load_def andthen_def call_def syscall_def failing_def current_file_def
        ack_world_def return_def guard_def idle_codec_def unless_error_def decode_file_def ack_record_valid)
      (simp add: ack_record_def EmptyStateRecord_def)
  have save: "Save idle_agent EmptyStateRecord ack_world = (Inr (), ack_world\<lparr>w_disk := \<lparr>dk_file = Some EmptyStateRecord, dk_faults = []\<rparr>\<rparr>)"
    by (rule idle_save [OF EmptyStateRecord_valid]) (simp_all add: EmptyStateRecord_def ack_world_def)
  have outbox: "sr_UsageOutbox ack_record = [sample_batch]" "ack_record\<lparr>sr_UsageOutbox := []\<rparr> = EmptyStateRecord"
    by (simp_all add: ack_record_def EmptyStateRecord_def)
  show ?thesis by (simp add: AckUsage_def andthen_def load outbox save)
qed

lemma ack_records: "record_of idle_codec idle_agent ack_world = Some ack_record"
  by (simp add: file_record_def ack_world_def idle_codec_def decode_file_def ack_record_valid) (simp add: ack_record_def EmptyStateRecord_def)

end
