(* ===== verification/Agent_Guarantees.thy ===== *)
theory Agent_Guarantees
  imports Agent_Sample
begin

text \<open>
  The guarantees of the agent: its durable record never goes back, the record is written ahead of the
  kernel, a successful \<open>Apply\<close> has installed and recorded its target, a rollback without errors reinstalls the
  last-known-good script, and usage leaves the outbox by acknowledgement only.
\<close>

section \<open>Along every run\<close>

lemma agent_step_trail:
  assumes "agent_step R w w'" "on_files c R" "faithful c"
  shows "(\<forall>r'. record_of c R w' = Some r' \<longrightarrow> (\<exists>r. record_of c R w = Some r \<and> advances r r'))"
  using agent_step_moves [OF assms] unfolding moves_def onward_def by fastforce

text \<open>C1. The durable record of an agent never goes back: over any run of its operations, whatever they return,
  and any change of the kernel and any outcome of the file system's calls, the record read at the end has an
  applied snapshot, and a newest snapshot, of the same node and of a later generation than the record read at
  the start, or of the same generation and checksum.\<close>

theorem durable_record_advances:
  assumes "(agent_step R)\<^sup>*\<^sup>* w w'" and "on_files c R" and "faithful c"
    and "record_of c R w = Some r" and "record_of c R w' = Some r'"
  shows "advances r r'"
proof -
  have "\<forall>r'. record_of c R w' = Some r' \<longrightarrow> (\<exists>r. record_of c R w = Some r \<and> advances r r')"
    using assms(1)
  proof (induction rule: rtranclp_induct)
    case (step v w')
    then show ?case using agent_step_trail [OF step(2) assms(2,3)] advances_trans by blast
  qed auto
  then show ?thesis using assms(4,5) by auto
qed

theorem durable_record_advances_witness: "advances EmptyStateRecord idle_record"
proof -
  have "agent_step idle_agent idle_world idle_after" using Apply_step [of idle_agent idle_world idle_state] by (simp add: idle_apply)
  from durable_record_advances [OF r_into_rtranclp [of "agent_step idle_agent", OF this] idle_laws(1,2) idle_records] show ?thesis .
qed

section \<open>Ahead of the kernel\<close>

lemma named_reads:
  assumes "faithful c" "named (file_written m c) r t (Some r')"
  shows "\<exists>s. newest r' = Some s \<and> snapshot_of t s"
proof -
  obtain r'' where r'': "pending_write r t r'' \<or> applied_write r t r''" "file_written m c r'' = Some r'"
    using assms(2) unfolding named_def by metis
  then show ?thesis using file_written_reads [OF assms(1) r''(2)]
    by (auto simp: pending_write_def applied_write_def newest_def)
qed

text \<open>C8. The record is written ahead of the kernel: when \<open>Apply\<close> has changed anything of the kernel that its
  observing calls do not change, whatever it returns, the record that can be read from the disk names the
  generation and the checksum of the desired state as its newest snapshot.\<close>

theorem Apply_writes_ahead:
  assumes "observers view R" and "on_files c R" and "faithful c"
    and "view (w_kernel (snd (Apply R desired w))) \<noteq> view (w_kernel w)"
    and "record_of c R (snd (Apply R desired w)) = Some r'"
  shows "\<exists>s. newest r' = Some s \<and> sn_Generation s = ds_Generation desired \<and>
    Checksum (rc_marshal R) (Canonical desired) = Some (sn_Checksum s)"
proof -
  have "op_post (file_written (rc_marshal R) c) (apply_target (rc_marshal R) desired) (record_of c R w) (view (w_kernel w))
      (Some r') (view (w_kernel (snd (Apply R desired w))))"
    using valid_snd [OF fs.apply_post [OF assms(2) [unfolded on_files_def] assms(1) _ refl, of "record_of c R w" "view (w_kernel w)" desired], of w] assms(5) by auto
  then obtain r t where t: "apply_target (rc_marshal R) desired r t" "named (file_written (rc_marshal R) c) r t (Some r')"
    using assms(4) unfolding op_post_def by auto
  from named_reads [OF assms(3) t(2)] obtain s where "newest r' = Some s" "snapshot_of t s" by blast
  with t(1) show ?thesis by (auto simp: apply_target_def snapshot_of_def Canonical_def)
qed

theorem Apply_writes_ahead_witness:
  "\<exists>s. newest idle_record = Some s \<and> sn_Generation s = 7 \<and> Checksum sample_marshal idle_state = Some (sn_Checksum s)"
proof -
  have "id (w_kernel (snd (Apply idle_agent idle_state idle_world))) \<noteq> id (w_kernel idle_world)"
    by (simp add: idle_apply idle_after_def idle_installed_def not_installed_def)
  moreover have "record_of idle_codec idle_agent (snd (Apply idle_agent idle_state idle_world)) = Some idle_record"
    using idle_records(2) by (simp add: idle_apply)
  ultimately show ?thesis using Apply_writes_ahead [OF idle_laws(3,1,2)] by fastforce
qed

section \<open>Success\<close>

text \<open>C5. A successful \<open>Apply\<close> has reached its target: the installed table reports the generation and the checksum
  of the desired state; the record that can be read from the disk has nothing pending, and its applied
  snapshot has that checksum and the program checksum of the installed table; and the result names them.\<close>

theorem Apply_success_reached:
  assumes "reports table R" and "on_files c R" and "faithful c"
    and "Apply R desired w = (Inr result, w')" and "record_of c R w' = Some r'"
  shows "is_Managed (table (w_kernel w')) \<and> is_Generation (table (w_kernel w')) = ds_Generation desired \<and>
    Checksum (rc_marshal R) (Canonical desired) = Some (is_DesiredChecksum (table (w_kernel w'))) \<and>
    sr_Pending r' = None \<and>
    (\<exists>a. sr_Applied r' = Some a \<and> sn_Checksum a = is_DesiredChecksum (table (w_kernel w')) \<and>
       sn_ProgramChecksum a = is_ProgramChecksum (table (w_kernel w'))) \<and>
    re_Generation result = ds_Generation desired \<and> re_Checksum result = is_DesiredChecksum (table (w_kernel w'))"
proof -
  obtain r t where t: "apply_target (rc_marshal R) desired r t"
      and "reached (file_written (rc_marshal R) c) r t result (Some r') (table (w_kernel w'))"
    using valid_result [OF fs.apply_success [OF assms(2) [unfolded on_files_def] assms(1)] refl assms(4)] assms(5) by auto
  then obtain t' where "same_state t t'" "installs (table (w_kernel w')) t'" "names_applied (file_written (rc_marshal R) c) r t' (Some r')"
      "re_Generation result = sn_Generation t'" "re_Checksum result = sn_Checksum t'" unfolding reached_def by blast
  then show ?thesis using t names_applied_reads [OF assms(3), of "rc_marshal R" r t' r']
    by (auto simp: apply_target_def same_state_def installs_def)
qed

theorem Apply_success_reached_witness:
  "is_Managed (fst (w_kernel idle_after)) \<and> is_Generation (fst (w_kernel idle_after)) = 7 \<and> sr_Pending idle_record = None"
  using Apply_success_reached [OF idle_laws(4,1,2) idle_apply idle_records(2)] by simp

section \<open>Rolling back\<close>

text \<open>C25. A rollback that reports no error has reinstalled the last-known-good state: the script installed last is
  the one compiled from the applied snapshot, for a table that exists, or the deletion of the table when
  nothing was ever applied.\<close>

theorem rollback_reinstalls:
  assumes "installs_scripts script R" and "rollbackDataplane R r target now w = (Inr [], w')"
  shows "case sr_Applied r of None \<Rightarrow> script (w_kernel w') = line ''delete table inet flux''
    | Some a \<Rightarrow> \<exists>program. CompileAt (rc_marshal R) (sn_Desired a) (sn_Checksum a) True now = Inr program \<and> script (w_kernel w') = np_Script program"
proof -
  obtain v v' where nft: "rollback_nft R r now v = (Inr [], v')" and script: "script (w_kernel w') = script (w_kernel v')"
    using rollback_clean [OF assms] by blast
  show ?thesis unfolding script using nft assms(1) by (rule rollback_nft_clean)
qed

theorem rollback_reinstalls_witness:
  "\<exists>program. CompileAt sample_marshal idle_state idle_digest True 5 = Inr program \<and>
     snd (w_kernel (snd (rollbackDataplane idle_agent idle_record idle_state 5 idle_after))) = np_Script program"
proof -
  have applied: "sr_Applied idle_record = Some idle_snapshot" by (simp add: idle_record_def)
  have "rollbackDataplane idle_agent idle_record idle_state 5 idle_after =
      (Inr [], idle_after\<lparr>w_kernel := (idle_installed, np_Script (idle_program True))\<rparr>)"
    by (simp add: rollbackDataplane_def rollback_target_def applied andthen_def return_def rollback_nft_def rollback_tc_def idle_compile
        collect_def attempt_def on_kernel_def idle_backend_def)
  with rollback_reinstalls [OF idle_laws(5) this] applied show ?thesis by simp
qed

section \<open>Usage\<close>

text \<open>C15. A batch of usage leaves the outbox only by its acknowledgement: a step of the agent or its surroundings
  either keeps every batch, in order, and adds batches at the end, or it is the acknowledgement of a batch of
  the outbox and drops exactly the batches up to that one.\<close>

theorem outbox_leaves_by_ack:
  assumes "agent_step R w w'" and "on_files c R" and "faithful c"
    and "record_of c R w = Some r" and "record_of c R w' = Some r'"
  shows "(\<exists>bs. sr_UsageOutbox r' = sr_UsageOutbox r @ bs) \<or>
    (\<exists>pre b. sr_UsageOutbox r = pre @ b # sr_UsageOutbox r' \<and> w' = snd (AckUsage R (ub_Epoch b) (ub_Sequence b) w))"
  using agent_step_moves [OF assms(1-3)] assms(4,5) by (fastforce simp: moves_def onward_def)

theorem outbox_leaves_by_ack_witness:
  "\<exists>pre b. sr_UsageOutbox ack_record = pre @ b # sr_UsageOutbox EmptyStateRecord"
proof -
  let ?w = "snd (AckUsage idle_agent (ub_Epoch sample_batch) (ub_Sequence sample_batch) ack_world)"
  have after: "record_of idle_codec idle_agent ?w = Some EmptyStateRecord"
    unfolding ack_run by (simp add: file_record_def idle_codec_def decode_file_def EmptyStateRecord_valid) (simp add: EmptyStateRecord_def)
  from outbox_leaves_by_ack [OF AckUsage_step idle_laws(1,2) ack_records after]
  show ?thesis by (simp add: ack_record_def EmptyStateRecord_def)
qed

end
