(* ===== verification/Control_Capabilities.thy ===== *)
theory Control_Capabilities
  imports Spec_Validate "HOL-Library.AList"
begin

text \<open>
  \<open>internal/control/protocol.go\<close>: the capabilities an agent announces, those a desired state requires, and
  what is missing between the two. A \<open>map[string]uint32\<close> is an association list that keeps a key once;
  the result is sorted by name, as in the source.
\<close>

section \<open>Model\<close>

record Capability =
  cb_Name :: string
  cb_Version :: u32

definition capability :: "string \<Rightarrow> u32 \<Rightarrow> Capability" where
  "capability n v = \<lparr>cb_Name = n, cb_Version = v\<rparr>"

definition DefaultCapabilities :: "Capability list" where
  "DefaultCapabilities = [
     capability ''nft.direct'' 2, capability ''nft.via-exit'' 1, capability ''nft.static-snat'' 1,
     capability ''nft.directional-counters'' 1, capability ''nft.drain'' 1, capability ''nft.force-delete'' 1,
     capability ''policy.local-deadline'' 1, capability ''tc.rate-limit'' 1, capability ''usage.l3'' 1,
     capability ''fabric.policy-routing'' 1, capability ''fabric.wireguard'' 1, capability ''fabric.direct-l3'' 1,
     capability ''fabric.gre'' 1, capability ''fabric.mss-clamp'' 1, capability ''health.tcp-connect'' 1,
     capability ''nft.protocol-block'' 1, capability ''diagnostics.tcp-connect'' 1, capability ''agent.maintenance'' 1]"

type_synonym requirements = "(string \<times> u32) list"

definition require_if :: "bool \<Rightarrow> string \<Rightarrow> u32 \<Rightarrow> requirements \<Rightarrow> requirements" where
  "require_if c name version required = (if c then AList.update name version required else required)"

definition forward_requirements :: "DesiredState \<Rightarrow> ForwardSpec \<Rightarrow> requirements \<Rightarrow> requirements" where
  "forward_requirements desired forward required =
     (let isIngress = fw_IngressNodeID forward = ds_NodeID desired;
          required = require_if (fw_PathMode forward = PathDirect) ''nft.direct''
            (if ds_SchemaVersion desired \<ge> SchemaVersionV2 then 2 else 1) required;
          required = require_if (fw_PathMode forward = PathViaExit) ''nft.via-exit'' 1 required;
          required = require_if (snat_Mode (fw_SNAT forward) = SNATStatic) ''nft.static-snat'' 1 required;
          required = require_if (isIngress \<and> fw_RateLimit forward \<noteq> None) ''tc.rate-limit'' 1 required;
          required = require_if (isIngress \<and> fw_TrafficQuota forward \<noteq> None) ''usage.l3'' 1 required;
          required = require_if (isIngress \<and> fw_TrafficQuota forward \<noteq> None) ''nft.directional-counters'' 1 required;
          required = require_if (fw_ExpiresAt forward \<noteq> None \<or> fw_DrainDeadline forward \<noteq> None) ''policy.local-deadline'' 1 required;
          required = require_if (fw_Lifecycle forward = LifecycleDraining) ''nft.drain'' 1 required
      in require_if (fw_Lifecycle forward = LifecycleForceDeleting) ''nft.force-delete'' 1 required)"

definition policy_requirements :: "string set \<Rightarrow> UserPolicySpec \<Rightarrow> requirements \<Rightarrow> requirements" where
  "policy_requirements ingressUsers policy required =
     (let usedAtIngress = up_UserID policy \<in> ingressUsers;
          required = require_if (usedAtIngress \<and> up_RateLimit policy \<noteq> None) ''tc.rate-limit'' 1 required;
          required = require_if (usedAtIngress \<and> up_TrafficQuota policy \<noteq> None) ''usage.l3'' 1 required
      in require_if (usedAtIngress \<and> up_TrafficQuota policy \<noteq> None) ''nft.directional-counters'' 1 required)"

definition link_requirements :: "FabricLinkSpec \<Rightarrow> requirements \<Rightarrow> requirements" where
  "link_requirements link required =
     (let required = require_if True ''fabric.policy-routing'' 1 required;
          required = require_if True ''fabric.mss-clamp'' 1 required;
          required = require_if (fl_Transport link = FabricWireGuard) ''fabric.wireguard'' 1 required;
          required = require_if (fl_Transport link = FabricDirectL3) ''fabric.direct-l3'' 1 required
      in require_if (fl_Transport link = FabricGRE) ''fabric.gre'' 1 required)"

definition ingress_users :: "DesiredState \<Rightarrow> string set" where
  "ingress_users desired = fw_UserID ` {f \<in> set (ds_Forwards desired). fw_IngressNodeID f = ds_NodeID desired}"

definition requirements_of :: "DesiredState \<Rightarrow> requirements" where
  "requirements_of desired =
     (let required = require_if (case ds_ProtocolBlocks desired of None \<Rightarrow> False | Some b \<Rightarrow> ProtocolBlockPolicy_Any b) ''nft.protocol-block'' 1 [];
          required = fold (forward_requirements desired) (ds_Forwards desired) required;
          required = fold (policy_requirements (ingress_users desired)) (ds_UserPolicies desired) required;
          required = fold link_requirements (ds_FabricLinks desired) required
      in require_if (ds_HealthChecks desired \<noteq> []) ''health.tcp-connect'' 1 required)"

definition RequiredCapabilities :: "DesiredState \<Rightarrow> Capability list" where
  "RequiredCapabilities desired =
     sort_less (\<lambda>a b. cb_Name a < cb_Name b) (map (\<lambda>(n, v). capability n v) (requirements_of desired))"

text \<open>A capability of a message is a pointer, which may be nil.\<close>

definition capability_step :: "nat \<Rightarrow> Capability option \<Rightarrow> string set \<Rightarrow> string + string set" where
  "capability_step i c seen =
     (case c of None \<Rightarrow> Inl ''capability must not be nil''
      | Some c \<Rightarrow>
        (case ValidateIdentifier ''capability.name'' (cb_Name c) of Some e \<Rightarrow> Inl e
         | None \<Rightarrow>
           if cb_Version c = 0 then Inl (''capability '' @ cb_Name c @ '' version must be greater than zero'')
           else if cb_Name c \<in> seen then Inl (''capability '' @ cb_Name c @ '' is duplicated'')
           else Inr (insert (cb_Name c) seen)))"

definition ValidateCapabilities :: "Capability option list \<Rightarrow> string option" where
  "ValidateCapabilities capabilities =
     (case range_check capability_step 0 {} capabilities of Inl e \<Rightarrow> Some e | Inr _ \<Rightarrow> None)"

text \<open>A map that is read returns 0 for a key it does not have.\<close>

definition available :: "Capability option list \<Rightarrow> string \<Rightarrow> u32" where
  "available supported =
     fold (\<lambda>c m. case c of None \<Rightarrow> m | Some c \<Rightarrow> if cb_Version c > m (cb_Name c) then m(cb_Name c := cb_Version c) else m)
       supported (\<lambda>_. 0)"

definition missing_name :: "Capability option \<Rightarrow> string" where
  "missing_name c = (case c of None \<Rightarrow> ''<nil>'' | Some c \<Rightarrow> cb_Name c @ ''@'' @ show_nat (unat (cb_Version c)))"

definition MissingCapabilities :: "Capability option list \<Rightarrow> Capability option list \<Rightarrow> string list" where
  "MissingCapabilities supported required =
     sort_less (<) (map missing_name (filter (\<lambda>c. case c of None \<Rightarrow> True
       | Some c \<Rightarrow> available supported (cb_Name c) < cb_Version c) required))"

section \<open>What a desired state may require\<close>

definition supported_by_default :: "requirements \<Rightarrow> bool" where
  "supported_by_default required \<longleftrightarrow> distinct (map fst required) \<and>
     (\<forall>(n, v)\<in>set required. 0 < v \<and> v \<le> available (map Some DefaultCapabilities) n)"

lemma supported_Nil [simp]: "supported_by_default []"
  by (simp add: supported_by_default_def)

lemma supported_require:
  assumes "supported_by_default required" "0 < v" "v \<le> available (map Some DefaultCapabilities) n"
  shows "supported_by_default (require_if c n v required)"
proof (cases c)
  case True
  have entries: "x = (n, v) \<or> x \<in> set required" if "x \<in> set (AList.update n v required)" for x
    using that by (induction required) (auto split: if_splits)
  have "0 < snd x \<and> snd x \<le> available (map Some DefaultCapabilities) (fst x)" if "x \<in> set (AList.update n v required)" for x
    using entries [OF that] assms by (auto simp: supported_by_default_def)
  then show ?thesis using True assms(1)
    by (auto simp: require_if_def supported_by_default_def distinct_update)
qed (simp add: require_if_def assms)

lemma available_default:
  "available (map Some DefaultCapabilities) ''nft.protocol-block'' = 1"
  "available (map Some DefaultCapabilities) ''nft.direct'' = 2"
  "available (map Some DefaultCapabilities) ''nft.via-exit'' = 1"
  "available (map Some DefaultCapabilities) ''nft.static-snat'' = 1"
  "available (map Some DefaultCapabilities) ''tc.rate-limit'' = 1"
  "available (map Some DefaultCapabilities) ''usage.l3'' = 1"
  "available (map Some DefaultCapabilities) ''nft.directional-counters'' = 1"
  "available (map Some DefaultCapabilities) ''policy.local-deadline'' = 1"
  "available (map Some DefaultCapabilities) ''nft.drain'' = 1"
  "available (map Some DefaultCapabilities) ''nft.force-delete'' = 1"
  "available (map Some DefaultCapabilities) ''fabric.policy-routing'' = 1"
  "available (map Some DefaultCapabilities) ''fabric.mss-clamp'' = 1"
  "available (map Some DefaultCapabilities) ''fabric.wireguard'' = 1"
  "available (map Some DefaultCapabilities) ''fabric.direct-l3'' = 1"
  "available (map Some DefaultCapabilities) ''fabric.gre'' = 1"
  "available (map Some DefaultCapabilities) ''health.tcp-connect'' = 1"
  by (simp_all add: available_def DefaultCapabilities_def capability_def)

lemma supported_fold:
  "(\<And>x r. supported_by_default r \<Longrightarrow> supported_by_default (f x r)) \<Longrightarrow> supported_by_default r \<Longrightarrow> supported_by_default (fold f xs r)"
  by (induction xs arbitrary: r) simp_all

lemma supported_parts:
  "supported_by_default r \<Longrightarrow> supported_by_default (forward_requirements desired forward r)"
  "supported_by_default r \<Longrightarrow> supported_by_default (policy_requirements users policy r)"
  "supported_by_default r \<Longrightarrow> supported_by_default (link_requirements link r)"
  unfolding forward_requirements_def policy_requirements_def link_requirements_def Let_def
  by (intro supported_require; simp add: available_default)+

lemma requirements_supported: "supported_by_default (requirements_of desired)"
  unfolding requirements_of_def Let_def
  by (intro supported_require supported_fold supported_parts; simp add: available_default)

lemma supported_default: "MissingCapabilities (map Some DefaultCapabilities) (map Some (RequiredCapabilities desired)) = []"
proof -
  have "\<forall>c\<in>set (map (\<lambda>(n, v). capability n v) (requirements_of desired)). \<not> available (map Some DefaultCapabilities) (cb_Name c) < cb_Version c"
    using requirements_supported [of desired] by (auto simp: supported_by_default_def capability_def not_less)
  then show ?thesis by (auto simp: MissingCapabilities_def RequiredCapabilities_def filter_empty_conv)
qed

text \<open>The agent built from this source supports every capability that any desired state may require, and what
  a desired state requires is sorted by name, without duplicates.\<close>

theorem RequiredCapabilities_supported:
  "MissingCapabilities (map Some DefaultCapabilities) (map Some (RequiredCapabilities desired)) = [] \<and>
   sorted_wrt (<) (map cb_Name (RequiredCapabilities desired))"
proof
  let ?cs = "map (\<lambda>(n, v). capability n v) (requirements_of desired)"
  have supported: "supported_by_default (requirements_of desired)" by (rule requirements_supported)
  show "MissingCapabilities (map Some DefaultCapabilities) (map Some (RequiredCapabilities desired)) = []" by (rule supported_default)
  have "map cb_Name (RequiredCapabilities desired) = sort_less (<) (map cb_Name ?cs)"
    unfolding RequiredCapabilities_def by (rule map_sort_less) simp
  moreover have "map cb_Name ?cs = map fst (requirements_of desired)" by (auto simp: capability_def)
  moreover have "sorted_wrt (<) (sort_less (<) (map fst (requirements_of desired)))"
    using supported by (intro slice_order.slice_strict [OF slice_order_key [of "\<lambda>x. x"]]) (auto simp: supported_by_default_def)
  ultimately show "sorted_wrt (<) (map cb_Name (RequiredCapabilities desired))" by (simp only:)
qed

end
