(* ===== verification/Store_Tables.thy ===== *)
theory Store_Tables
  imports Go_Effect Control_Capabilities Spec_Canonical Usage Cluster_Rollout
begin

text \<open>
  The database of the controller (\<open>internal/controller/store/migrations/001_sqlite.sql\<close>) and the layer
  through which the store talks to it (\<open>store.go\<close>, \<open>sqlite.go\<close>). A table is the list of its rows in the order
  of insertion. Columns that no statement of the store reads back (\<open>created_at\<close>, \<open>updated_at\<close> and
  \<open>received_at\<close> of most tables, the payload of an outbox event, which repeats two other columns) are left
  out. A session holds the database, the outcomes of the driver's calls to come, and the clock. The
  pool has one connection, so that operations do not interleave.
\<close>

section \<open>Rows\<close>

text \<open>A SQL integer is a Go \<open>int64\<close>; the casts of the source are these.\<close>

definition MaxInt64 :: int where "MaxInt64 = 2 ^ 63 - 1"

definition int64 :: "u64 \<Rightarrow> int" where "int64 w = sint w"

definition uint64 :: "int \<Rightarrow> u64" where "uint64 n = word_of_int n"

record node_row =
  no_id :: string
  no_desired :: int
  no_applied :: int
  no_applied_checksum :: "string option"
  no_applied_program :: "string option"
  no_agent_version :: "string option"
  no_capabilities :: string
  no_wireguard_key :: "string option"
  no_last_seen :: "time option"
  no_policy_checked :: "time option"
  no_revoked :: "time option"

record token_row =
  tk_hash :: "nat list"
  tk_node :: string
  tk_expires :: time
  tk_used :: "time option"
  tk_fingerprint :: "string option"
  tk_public_key :: "string option"

record key_row =
  ky_fingerprint :: string
  ky_node :: string
  ky_public_key :: string
  ky_created :: time
  ky_last_seen :: "time option"
  ky_revoked :: "time option"

record key_event_row =
  ke_node :: string
  ke_previous :: "string option"
  ke_public_key :: string
  ke_observed :: time

record generation_row =
  ge_node :: string
  ge_generation :: int
  ge_schema :: u32
  ge_checksum :: string
  ge_state :: string
  ge_capabilities :: string
  ge_status :: string
  ge_created :: time
  ge_applied_at :: "time option"

record ack_row =
  ak_node :: string
  ak_generation :: int
  ak_checksum :: string
  ak_program :: "string option"
  ak_status :: string
  ak_error_code :: string
  ak_error_message :: string
  ak_observed :: time

text \<open>
  SQLite compares the times of the outbox as texts. \<open>CURRENT_TIMESTAMP\<close> has the form \<open>2006-01-02 15:04:05\<close>,
  and a bound Go time continues the same second with a fraction and a zone, which makes it the larger
  text of that second.
\<close>

datatype stamp = AtSecond int | AtNano time

fun stamp_not_after :: "stamp \<Rightarrow> int \<Rightarrow> bool" where
  "stamp_not_after (AtSecond s) now = (s \<le> now)"
| "stamp_not_after (AtNano t) now = (t div Second < now)"

fun stamp_before :: "stamp \<Rightarrow> int \<Rightarrow> bool" where
  "stamp_before (AtSecond s) now = (s < now)"
| "stamp_before (AtNano t) now = (t div Second < now)"

record outbox_row =
  ob_id :: int
  ob_topic :: string
  ob_aggregate :: string
  ob_generation :: int
  ob_available :: stamp
  ob_leased_by :: "string option"
  ob_leased_until :: "stamp option"
  ob_attempts :: int
  ob_delivered :: "stamp option"
  ob_last_error :: "string option"

record class_row =
  ca_node :: string
  ca_kind :: string
  ca_owner :: string
  ca_class :: int

record vip_row =
  va_vip :: string
  va_forward :: string
  va_user :: string
  va_ingress :: string
  va_exit :: string

record binding_row =
  vb_node :: string
  vb_forward :: string
  vb_vip :: string

record batch_row =
  ba_node :: string
  ba_epoch :: string
  ba_sequence :: int
  ba_generation :: int
  ba_observed :: time

record delta_row =
  de_node :: string
  de_epoch :: string
  de_sequence :: int
  de_forward :: string
  de_user :: string
  de_protocol :: Protocol
  de_direction :: TrafficDirection
  de_version :: int
  de_packets :: int
  de_bytes :: int
  de_reset :: bool

text \<open>SQLite continues an integer addition that leaves 64 bits in floating point.\<close>

datatype quantity = Exact int | Inexact

fun quantity_add :: "quantity \<Rightarrow> int \<Rightarrow> quantity" where
  "quantity_add (Exact a) b = (if a + b \<le> MaxInt64 then Exact (a + b) else Inexact)"
| "quantity_add Inexact b = Inexact"

record rollup_row =
  ru_node :: string
  ru_forward :: string
  ru_user :: string
  ru_protocol :: Protocol
  ru_direction :: TrafficDirection
  ru_packets :: quantity
  ru_bytes :: quantity

record policy_audit_row =
  pa_node :: string
  pa_generation :: int
  pa_action :: string
  pa_subject :: string

record profile_row =
  pr_node :: string
  pr_plan :: string

record plan_row =
  cp_id :: string
  cp_reconcile_after :: time
  cp_last_error :: "string option"
  cp_paused :: "time option"

record revision_row =
  cr_plan_id :: string
  cr_revision :: int
  cr_plan :: string

record placement_row =
  fp_plan :: string
  fp_revision :: int
  fp_placement :: Placement
  fp_vip :: "string option"

record observation_row =
  bo_plan :: string
  bo_key :: HealthKey
  bo_status :: string
  bo_version :: int
  bo_observed :: time

record rollout_row =
  ro_id :: int
  ro_plan :: string
  ro_revision :: int
  ro_status :: string
  ro_detail :: string
  ro_current :: int
  ro_bake_until :: "time option"
  ro_failure :: string
  ro_auto_rollback :: bool
  ro_completed :: "time option"

record stage_row =
  sg_rollout :: int
  sg_order :: int
  sg_wave :: RolloutWave
  sg_phase :: RolloutPhase
  sg_status :: string
  sg_bake_seconds :: int
  sg_started :: "time option"
  sg_completed :: "time option"

record target_row =
  ta_rollout :: int
  ta_stage :: int
  ta_node :: string
  ta_previous :: int
  ta_generation :: "int option"
  ta_checksum :: "string option"
  ta_state :: string
  ta_status :: string
  ta_error :: string
  ta_applied_at :: "time option"

record baseline_row =
  bl_rollout :: int
  bl_node :: string
  bl_state :: string

record cluster_audit_row =
  cu_plan :: "string option"
  cu_revision :: "int option"
  cu_actor :: string
  cu_action :: string
  cu_subject :: string

section \<open>The database\<close>

record database =
  db_nodes :: "node_row list"
  db_tokens :: "token_row list"
  db_keys :: "key_row list"
  db_key_events :: "key_event_row list"
  db_generations :: "generation_row list"
  db_acks :: "ack_row list"
  db_outbox :: "outbox_row list"
  db_next_outbox :: int
  db_classes :: "class_row list"
  db_vips :: "vip_row list"
  db_bindings :: "binding_row list"
  db_batches :: "batch_row list"
  db_deltas :: "delta_row list"
  db_rollups :: "rollup_row list"
  db_policy_audits :: "policy_audit_row list"
  db_profiles :: "profile_row list"
  db_plans :: "plan_row list"
  db_revisions :: "revision_row list"
  db_placements :: "placement_row list"
  db_observations :: "observation_row list"
  db_rollouts :: "rollout_row list"
  db_stages :: "stage_row list"
  db_targets :: "target_row list"
  db_baselines :: "baseline_row list"
  db_cluster_audits :: "cluster_audit_row list"

definition empty_database :: database where
  "empty_database = \<lparr>db_nodes = [], db_tokens = [], db_keys = [], db_key_events = [], db_generations = [], db_acks = [],
     db_outbox = [], db_next_outbox = 1, db_classes = [], db_vips = [], db_bindings = [], db_batches = [], db_deltas = [],
     db_rollups = [], db_policy_audits = [], db_profiles = [], db_plans = [], db_revisions = [], db_placements = [],
     db_observations = [], db_rollouts = [], db_stages = [], db_targets = [], db_baselines = [], db_cluster_audits = []\<rparr>"

section \<open>Statements\<close>

text \<open>\<open>UPDATE ... SET f WHERE p\<close>, \<open>DELETE ... WHERE p\<close>, an \<open>INSERT\<close> that a key of an existing row refuses, and
  the insertion that updates the conflicting row instead.\<close>

definition rewrite :: "('r \<Rightarrow> bool) \<Rightarrow> ('r \<Rightarrow> 'r) \<Rightarrow> 'r list \<Rightarrow> 'r list" where
  "rewrite p f rows = map (\<lambda>r. if p r then f r else r) rows"

definition delete_where :: "('r \<Rightarrow> bool) \<Rightarrow> 'r list \<Rightarrow> 'r list" where
  "delete_where p rows = filter (\<lambda>r. \<not> p r) rows"

definition insert_row :: "('r \<Rightarrow> bool) \<Rightarrow> 'r \<Rightarrow> 'r list \<Rightarrow> 'r list option" where
  "insert_row clash r rows = (if list_ex clash rows then None else Some (rows @ [r]))"

definition upsert :: "('r \<Rightarrow> bool) \<Rightarrow> ('r \<Rightarrow> 'r) \<Rightarrow> 'r \<Rightarrow> 'r list \<Rightarrow> 'r list" where
  "upsert same merge r rows = (if list_ex same rows then rewrite same merge rows else rows @ [r])"

section \<open>Sessions\<close>

record session =
  se_db :: database
  se_answers :: "bool list"
  se_clock :: "nat \<Rightarrow> time"
  se_ticks :: nat

datatype store_error =
    ErrInvalidEnrollment | ErrNodeNotFound | ErrNodeDeletionConflict | ErrNodeAlreadyEnrolled | ErrNodeRevoked
  | ErrCredentialRevoked | ErrGenerationMissing | ErrChecksumMismatch | ErrProgramMismatch | ErrServiceVIPConflict
  | ErrManagementConflict | InvalidState "string list" | DriverError | ConstraintError | NoRows
  | StoreMessage string | StoreWrapped string store_error

type_synonym 'a sql = "(session, store_error, 'a) routine"

text \<open>A call of the driver succeeds unless the next outcome says that it fails.\<close>

definition driver :: "string \<Rightarrow> unit sql" where
  "driver what s = (case se_answers s of [] \<Rightarrow> (Inr (), s)
     | fails # rest \<Rightarrow> ((if fails then Inl (StoreWrapped what DriverError) else Inr ()), s\<lparr>se_answers := rest\<rparr>))"

definition time_Now :: "time sql" where
  "time_Now s = (Inr (se_clock s (se_ticks s)), s\<lparr>se_ticks := Suc (se_ticks s)\<rparr>)"

text \<open>\<open>CURRENT_TIMESTAMP\<close>, in whole seconds.\<close>

definition current_timestamp :: "int sql" where
  "current_timestamp = andthen time_Now (\<lambda>t. return (t div Second))"

definition tables :: "(database \<Rightarrow> 'a) \<Rightarrow> 'a sql" where
  "tables f s = (Inr (f (se_db s)), s)"

definition query :: "string \<Rightarrow> (database \<Rightarrow> 'a) \<Rightarrow> 'a sql" where
  "query what f = andthen (driver what) (\<lambda>_. tables f)"

text \<open>\<open>QueryRow(...).Scan(...)\<close> whose missing row is an error like any other.\<close>

definition query_row :: "string \<Rightarrow> (database \<Rightarrow> 'a option) \<Rightarrow> 'a sql" where
  "query_row what f = andthen (query what f) (\<lambda>r. case r of None \<Rightarrow> throw (StoreWrapped what NoRows) | Some x \<Rightarrow> return x)"

text \<open>A statement that changes the database, with the number of rows it affects; \<open>None\<close> is a violated constraint.\<close>

definition change :: "string \<Rightarrow> (database \<Rightarrow> (database \<times> nat) option) \<Rightarrow> nat sql" where
  "change what f s = (case f (se_db s) of None \<Rightarrow> (Inl (StoreWrapped what ConstraintError), s)
     | Some (db, n) \<Rightarrow> (Inr n, s\<lparr>se_db := db\<rparr>))"

definition exec :: "string \<Rightarrow> (database \<Rightarrow> (database \<times> nat) option) \<Rightarrow> nat sql" where
  "exec what f = andthen (driver what) (\<lambda>_. change what f)"

text \<open>A statement that no constraint refuses.\<close>

definition exec_all :: "string \<Rightarrow> (database \<Rightarrow> database) \<Rightarrow> unit sql" where
  "exec_all what f = andthen (exec what (\<lambda>db. Some (f db, 0))) (\<lambda>_. return ())"

section \<open>Parameters\<close>

text \<open>
  The JSON codecs of the standard library, \<open>json_valid\<close> of SQLite and \<open>json.Valid\<close>. A decoder returns the value
  and whether content follows it.
\<close>

record rollout_detail =
  rd_commit_placements :: bool
  rd_placements :: "Placement list"
  rd_service_vips :: "string \<rightharpoonup> Addr"
  rd_canary_forwards :: "string list"

record codecs =
  cx_marshal :: "DesiredState \<Rightarrow> string option"
  cx_unmarshal :: "string \<Rightarrow> (DesiredState \<times> bool) option"
  cx_capabilities :: "Capability list \<Rightarrow> string option"
  cx_json_valid :: "string \<Rightarrow> bool"
  cx_to_ascii :: "string \<Rightarrow> string option"
  cx_plan :: "string \<Rightarrow> (Plan \<times> bool) option"
  cx_detail :: "string \<Rightarrow> rollout_detail option"

section \<open>Transactions\<close>

text \<open>
  \<open>tx := pool.Begin; defer tx.Rollback; ...; tx.Commit\<close>. The body ends with the commit, whose failure has the
  given text, or returns without one, which rolls its statements back. An error rolls back too.
\<close>

datatype 'a ending = Commit string 'a | Abandon 'a

definition rolled_back :: "database \<Rightarrow> session \<Rightarrow> session" where
  "rolled_back db s = s\<lparr>se_db := db\<rparr>"

definition finish :: "database \<Rightarrow> 'a ending \<Rightarrow> 'a sql" where
  "finish db e s = (case e of Abandon x \<Rightarrow> (Inr x, rolled_back db s)
     | Commit what x \<Rightarrow> (case driver what s of (Inl err, s') \<Rightarrow> (Inl err, rolled_back db s') | (Inr _, s') \<Rightarrow> (Inr x, s')))"

definition transaction :: "string \<Rightarrow> 'a ending sql \<Rightarrow> 'a sql" where
  "transaction what body s = (case andthen (driver what) (\<lambda>_. body) s of
       (Inl err, s') \<Rightarrow> (Inl err, rolled_back (se_db s) s')
     | (Inr e, s') \<Rightarrow> finish (se_db s) e s')"


section \<open>What statements keep\<close>

lemma driver_db [steadies]: "steady (\<lambda>s. f (se_db s)) (driver what)"
  by (auto simp: steady_def driver_def split: list.split)

lemma time_Now_db [steadies]: "steady (\<lambda>s. f (se_db s)) time_Now"
  by (simp add: steady_def time_Now_def)

lemma tables_steady [steadies]: "steady f (tables g)"
  by (simp add: steady_def tables_def)

lemma current_timestamp_db [steadies]: "steady (\<lambda>s. f (se_db s)) current_timestamp"
  unfolding current_timestamp_def by (intro steadies)

lemma query_db [steadies]: "steady (\<lambda>s. f (se_db s)) (query what g)"
  unfolding query_def by (intro steadies)

lemma query_row_db [steadies]: "steady (\<lambda>s. f (se_db s)) (query_row what g)"
  unfolding query_row_def by (intro steadies)

lemma change_steady: "(\<And>db db' n. g db = Some (db', n) \<Longrightarrow> f db' = f db) \<Longrightarrow> steady (\<lambda>s. f (se_db s)) (change what g)"
  by (auto simp: steady_def change_def split: option.split)

lemma exec_steady [steadies]:
  "(\<And>db db' n. g db = Some (db', n) \<Longrightarrow> f db' = f db) \<Longrightarrow> steady (\<lambda>s. f (se_db s)) (exec what g)"
  unfolding exec_def by (intro steadies change_steady) auto

lemma exec_all_steady [steadies]:
  "(\<And>db. f (g db) = f db) \<Longrightarrow> steady (\<lambda>s. f (se_db s)) (exec_all what g)"
  unfolding exec_all_def by (intro steadies) auto

lemma exec_keeps [keepings]:
  "(\<And>db db' n. J db \<Longrightarrow> g db = Some (db', n) \<Longrightarrow> J db') \<Longrightarrow> keeps (\<lambda>s. J (se_db s)) (exec what g)"
  unfolding exec_def by (rule keeps_andthen, rule steady_keeps, rule driver_db)
    (auto simp: keeps_def change_def split: option.split)

lemma exec_all_keeps [keepings]: "(\<And>db. J db \<Longrightarrow> J (g db)) \<Longrightarrow> keeps (\<lambda>s. J (se_db s)) (exec_all what g)"
  unfolding exec_all_def by (intro keepings) auto

lemmas session_keeps [keepings] =
  driver_db [THEN steady_keeps] time_Now_db [THEN steady_keeps] current_timestamp_db [THEN steady_keeps]
  query_db [THEN steady_keeps] query_row_db [THEN steady_keeps] tables_steady [THEN steady_keeps]

section \<open>What a successful routine leaves\<close>

text \<open>
  \<open>yields P m Q\<close>: from a database satisfying \<open>P\<close>, a result of \<open>m\<close> and the database it leaves satisfy \<open>Q\<close>. Errors are
  not constrained, since they roll the transaction back. The rules follow the text of a routine forwards.
\<close>

definition yields :: "(database \<Rightarrow> bool) \<Rightarrow> 'a sql \<Rightarrow> ('a \<Rightarrow> database \<Rightarrow> bool) \<Rightarrow> bool" where
  "yields P m Q \<longleftrightarrow> (\<forall>s x s'. P (se_db s) \<longrightarrow> m s = (Inr x, s') \<longrightarrow> Q x (se_db s'))"

named_theorems forwards \<open>rules for what a successful routine leaves\<close>

lemma yieldsI: "(\<And>s x s'. P (se_db s) \<Longrightarrow> m s = (Inr x, s') \<Longrightarrow> Q x (se_db s')) \<Longrightarrow> yields P m Q"
  by (simp add: yields_def)

lemma yieldsD: "yields P m Q \<Longrightarrow> P (se_db s) \<Longrightarrow> m s = (Inr x, s') \<Longrightarrow> Q x (se_db s')"
  by (simp add: yields_def)

lemma yields_weaken: "yields P' m Q' \<Longrightarrow> (\<And>db. P db \<Longrightarrow> P' db) \<Longrightarrow> (\<And>x db. Q' x db \<Longrightarrow> Q x db) \<Longrightarrow> yields P m Q"
  unfolding yields_def by blast

lemma yields_then: "yields P m R \<Longrightarrow> (\<And>x. yields (R x) (f x) Q) \<Longrightarrow> yields P (andthen m f) Q"
  unfolding yields_def andthen_Inr_iff by blast

lemma yields_return [forwards]: "(\<And>db. P db \<Longrightarrow> Q x db) \<Longrightarrow> yields P (return x) Q"
  by (simp add: yields_def return_def)

lemma yields_throw [forwards]: "yields P (throw e) Q"
  by (simp add: yields_def throw_def)

lemma yields_throw_then [forwards]: "yields P (andthen (throw e) f) Q"
  by (simp add: yields_def throw_def andthen_def)

lemma yields_steady: "steady se_db m \<Longrightarrow> yields P m (\<lambda>_. P)"
  by (auto simp: yields_def dest: steadyD)

lemma yields_quiet: "steady se_db m \<Longrightarrow> (\<And>x. yields P (f x) Q) \<Longrightarrow> yields P (andthen m f) Q"
  by (rule yields_then [OF yields_steady])

lemma driver_Inr: "driver what s = (Inr x, s') \<Longrightarrow> se_db s' = se_db s"
  by (auto simp: driver_def split: list.splits if_splits)

lemma yields_driver [forwards]: "(\<And>x. yields P (f x) Q) \<Longrightarrow> yields P (andthen (driver what) f) Q"
  by (rule yields_quiet) (rule driver_db [of "\<lambda>d. d"])

lemma yields_time [forwards]: "(\<And>x. yields P (f x) Q) \<Longrightarrow> yields P (andthen time_Now f) Q"
  by (rule yields_quiet) (rule time_Now_db [of "\<lambda>d. d"])

lemma yields_timestamp [forwards]: "(\<And>x. yields P (f x) Q) \<Longrightarrow> yields P (andthen current_timestamp f) Q"
  by (rule yields_quiet) (rule current_timestamp_db [of "\<lambda>d. d"])

lemma query_Inr: "query what f s = (Inr x, s') \<Longrightarrow> x = f (se_db s) \<and> se_db s' = se_db s"
  by (auto simp: query_def andthen_Inr_iff tables_def dest: driver_Inr)

lemma yields_query [forwards]:
  "(\<And>x. yields (\<lambda>db. P db \<and> x = g db) (f x) Q) \<Longrightarrow> yields P (andthen (query what g) f) Q"
  by (rule yields_then [where R = "\<lambda>x db. P db \<and> x = g db"], rule yieldsI) (frule query_Inr, simp)

lemma query_row_Inr: "query_row what f s = (Inr x, s') \<Longrightarrow> f (se_db s) = Some x \<and> se_db s' = se_db s"
  unfolding query_row_def andthen_Inr_iff
  by (elim exE conjE, drule query_Inr) (simp add: throw_def return_def split: option.splits)

lemma yields_query_row [forwards]:
  "(\<And>x. yields (\<lambda>db. P db \<and> g db = Some x) (f x) Q) \<Longrightarrow> yields P (andthen (query_row what g) f) Q"
  by (rule yields_then [where R = "\<lambda>x db. P db \<and> g db = Some x"], rule yieldsI) (frule query_row_Inr, simp)

lemma exec_Inr: "exec what g s = (Inr n, s') \<Longrightarrow> g (se_db s) = Some (se_db s', n)"
  by (auto simp: exec_def change_def andthen_Inr_iff split: option.splits dest!: driver_Inr)

lemma yields_exec [forwards]:
  "(\<And>n. yields (\<lambda>db'. \<exists>db. P db \<and> g db = Some (db', n)) (f n) Q) \<Longrightarrow> yields P (andthen (exec what g) f) Q"
  by (rule yields_then [where R = "\<lambda>n db'. \<exists>db. P db \<and> g db = Some (db', n)"], rule yieldsI) (frule exec_Inr, blast)

lemma exec_all_Inr: "exec_all what g s = (Inr u, s') \<Longrightarrow> se_db s' = g (se_db s)"
  by (auto simp: exec_all_def andthen_Inr_iff return_def dest: exec_Inr)

lemma yields_exec_all [forwards]:
  "(\<And>u. yields (\<lambda>db'. \<exists>db. P db \<and> db' = g db) (f u) Q) \<Longrightarrow> yields P (andthen (exec_all what g) f) Q"
  by (rule yields_then [where R = "\<lambda>_ db'. \<exists>db. P db \<and> db' = g db"], rule yieldsI) (frule exec_all_Inr, blast)

lemma yields_exec_all_last: "(\<And>db. P db \<Longrightarrow> Q () (g db)) \<Longrightarrow> yields P (exec_all what g) Q"
  by (rule yieldsI) (frule exec_all_Inr, simp)

lemma yields_guard [forwards]: "(\<not> c \<Longrightarrow> yields P (f ()) Q) \<Longrightarrow> yields P (andthen (guard c e) f) Q"
  by (cases c) (simp_all add: yields_def guard_def throw_def return_def andthen_def)

lemma yields_guard_last [forwards]: "(\<And>db. \<not> c \<Longrightarrow> P db \<Longrightarrow> Q () db) \<Longrightarrow> yields P (guard c e) Q"
  by (cases c) (simp_all add: yields_def guard_def throw_def return_def)

lemma yields_if [forwards]: "(c \<Longrightarrow> yields P m Q) \<Longrightarrow> (\<not> c \<Longrightarrow> yields P n Q) \<Longrightarrow> yields P (if c then m else n) Q"
  by simp

lemma yields_Let [forwards]: "(\<And>y. y = x \<Longrightarrow> yields P (f y) Q) \<Longrightarrow> yields P (Let x f) Q"
  by simp

lemma yields_option [forwards]:
  "(x = None \<Longrightarrow> yields P m Q) \<Longrightarrow> (\<And>y. x = Some y \<Longrightarrow> yields P (f y) Q) \<Longrightarrow> yields P (case x of None \<Rightarrow> m | Some y \<Rightarrow> f y) Q"
  by (cases x) simp_all

lemma yields_sum [forwards]:
  "(\<And>e. x = Inl e \<Longrightarrow> yields P (m e) Q) \<Longrightarrow> (\<And>y. x = Inr y \<Longrightarrow> yields P (f y) Q) \<Longrightarrow> yields P (case x of Inl e \<Rightarrow> m e | Inr y \<Rightarrow> f y) Q"
  by (cases x) simp_all

lemma yields_prod [forwards]: "(\<And>a b. x = (a, b) \<Longrightarrow> yields P (f a b) Q) \<Longrightarrow> yields P (case x of (a, b) \<Rightarrow> f a b) Q"
  by (cases x) simp

lemma yields_unless_error [forwards]:
  "(\<And>y. x = Inr y \<Longrightarrow> yields P (f y) Q) \<Longrightarrow> yields P (andthen (unless_error x) f) Q"
  by (cases x) (simp_all add: yields_def unless_error_def andthen_def)

lemma yields_fact: "(\<And>db. P db \<Longrightarrow> F) \<Longrightarrow> (F \<Longrightarrow> yields P m Q) \<Longrightarrow> yields P m Q"
  unfolding yields_def by blast

lemma yields_both: "yields P m Q \<Longrightarrow> yields P m R \<Longrightarrow> yields P m (\<lambda>x db. Q x db \<and> R x db)"
  by (simp add: yields_def)

text \<open>A routine that does not touch what \<open>P\<close> looks at.\<close>

lemma yields_frame: "steady (\<lambda>s. v (se_db s)) m \<Longrightarrow> (\<And>db db'. v db = v db' \<Longrightarrow> P db = P db') \<Longrightarrow> yields P m (\<lambda>_. P)"
  unfolding yields_def by (blast dest: steadyD)

lemma yields_failing: "yields P m Q \<Longrightarrow> yields P (failing wrap m) Q"
  by (auto simp: yields_def failing_def split: prod.splits sum.splits)

lemma yields_loop:
  assumes "\<And>x a. x \<in> set xs \<Longrightarrow> yields (J a) (f x a) J"
  shows "yields (J a) (loop f xs a) J"
  using assms
proof (induction xs arbitrary: a)
  case (Cons x xs)
  have "yields (J b) (loop f xs b) J" for b by (rule Cons.IH) (simp add: Cons.prems)
  moreover have "yields (J a) (f x a) J" by (rule Cons.prems) simp
  ultimately show ?case unfolding loop.simps by (rule yields_then [rotated])
qed (simp add: yields_return)

lemma yields_loop_rest:
  assumes "\<And>x rest a. yields (J (x # rest) a) (f x a) (J rest)"
  shows "yields (J xs a) (loop f xs a) (J [])"
proof (induction xs arbitrary: a)
  case (Cons x xs)
  show ?case unfolding loop.simps by (rule yields_then [OF assms Cons.IH])
qed (simp add: yields_return)

lemma yields_keeps: "keeps (\<lambda>s. J (se_db s)) m \<Longrightarrow> yields J m (\<lambda>_. J)"
  by (auto simp: yields_def dest: keepsD)

text \<open>A routine that keeps \<open>J\<close> whenever it succeeds.\<close>

definition upholds :: "(database \<Rightarrow> bool) \<Rightarrow> 'a sql \<Rightarrow> bool" where
  "upholds J m \<longleftrightarrow> yields J m (\<lambda>_. J)"

named_theorems upholdings \<open>rules for what a successful routine keeps\<close>

lemma upholds_yields: "yields J m (\<lambda>_. J) \<Longrightarrow> upholds J m"
  by (simp add: upholds_def)

lemma upholds_keeps: "keeps (\<lambda>s. J (se_db s)) m \<Longrightarrow> upholds J m"
  unfolding upholds_def by (rule yields_keeps)

lemma yields_upholds: "upholds J m \<Longrightarrow> (\<And>x. yields J (f x) Q) \<Longrightarrow> yields J (andthen m f) Q"
  unfolding upholds_def by (rule yields_then)

lemma upholds_frame: "steady (\<lambda>s. v (se_db s)) m \<Longrightarrow> upholds (\<lambda>db. P (v db)) m"
  unfolding upholds_def by (erule yields_frame) simp

lemma upholds_andthen [upholdings]: "upholds J m \<Longrightarrow> (\<And>x. upholds J (f x)) \<Longrightarrow> upholds J (andthen m f)"
  unfolding upholds_def by (rule yields_then)

lemma upholds_failing [upholdings]: "upholds J m \<Longrightarrow> upholds J (failing wrap m)"
  unfolding upholds_def by (rule yields_failing)

lemma upholds_if [upholdings]: "(c \<Longrightarrow> upholds J m) \<Longrightarrow> (\<not> c \<Longrightarrow> upholds J n) \<Longrightarrow> upholds J (if c then m else n)"
  by simp

lemma upholds_Let [upholdings]: "(\<And>y. y = x \<Longrightarrow> upholds J (f y)) \<Longrightarrow> upholds J (Let x f)"
  by simp

lemma upholds_option [upholdings]:
  "(x = None \<Longrightarrow> upholds J m) \<Longrightarrow> (\<And>y. x = Some y \<Longrightarrow> upholds J (f y)) \<Longrightarrow> upholds J (case x of None \<Rightarrow> m | Some y \<Rightarrow> f y)"
  by (cases x) simp_all

lemma upholds_prod [upholdings]: "(\<And>a b. x = (a, b) \<Longrightarrow> upholds J (f a b)) \<Longrightarrow> upholds J (case x of (a, b) \<Rightarrow> f a b)"
  by (cases x) simp

lemma upholds_loop [upholdings]: "(\<And>x a. upholds J (g x a)) \<Longrightarrow> upholds J (loop g xs a)"
  unfolding upholds_def by (rule yields_loop [where J = "\<lambda>_. J"])

lemma upholds_same: "steady se_db m \<Longrightarrow> upholds J m"
  by (rule upholds_frame [where v = "\<lambda>db. db"])

lemma upholds_simple [upholdings]:
  "upholds J (return x)" "upholds J (throw e)" "upholds J (guard c e)" "upholds J (unless_error r)" "upholds J (driver what)" "upholds J time_Now"
  "upholds J current_timestamp" "upholds J (query what f)" "upholds J (query_row what' g)"
  using driver_db [of "\<lambda>db. db"] time_Now_db [of "\<lambda>db. db"] current_timestamp_db [of "\<lambda>db. db"] query_db [of "\<lambda>db. db"] query_row_db [of "\<lambda>db. db"]
  by (auto intro: upholds_same steadies)

lemma upholds_exec [upholdings]: "(\<And>db db' n. J db \<Longrightarrow> g db = Some (db', n) \<Longrightarrow> J db') \<Longrightarrow> upholds J (exec what g)"
  by (rule upholds_keeps) (rule exec_keeps)

lemma upholds_exec_all [upholdings]: "(\<And>db. J db \<Longrightarrow> J (g db)) \<Longrightarrow> upholds J (exec_all what g)"
  by (rule upholds_keeps) (rule exec_all_keeps)

section \<open>When the driver does not fail\<close>

named_theorems quiet \<open>routines while the driver does not fail\<close>

lemma quiet_driver [quiet]: "se_answers s = [] \<Longrightarrow> driver what s = (Inr (), s)"
  by (simp add: driver_def)

lemma quiet_query [quiet]: "se_answers s = [] \<Longrightarrow> andthen (query what f) g s = g (f (se_db s)) s"
  by (simp add: query_def andthen_def driver_def tables_def)

lemma quiet_query_row [quiet]:
  "se_answers s = [] \<Longrightarrow> andthen (query_row what f) g s = (case f (se_db s) of None \<Rightarrow> (Inl (StoreWrapped what NoRows), s) | Some x \<Rightarrow> g x s)"
  by (simp add: query_row_def query_def andthen_def driver_def tables_def throw_def return_def split: option.split)

lemma quiet_exec [quiet]:
  "se_answers s = [] \<Longrightarrow> andthen (exec what f) g s = (case f (se_db s) of None \<Rightarrow> (Inl (StoreWrapped what ConstraintError), s)
     | Some (db, n) \<Rightarrow> g n (s\<lparr>se_db := db\<rparr>))"
  by (simp add: exec_def change_def andthen_def driver_def split: option.split)

lemma quiet_exec_all [quiet]: "se_answers s = [] \<Longrightarrow> andthen (exec_all what f) g s = g () (s\<lparr>se_db := f (se_db s)\<rparr>)"
  by (simp add: exec_all_def exec_def change_def andthen_def driver_def return_def)

lemma quiet_exec_all_last [quiet]: "se_answers s = [] \<Longrightarrow> exec_all what f s = (Inr (), s\<lparr>se_db := f (se_db s)\<rparr>)"
  by (simp add: exec_all_def exec_def change_def andthen_def driver_def return_def)

lemma quiet_time [quiet]: "andthen time_Now f s = f (se_clock s (se_ticks s)) (s\<lparr>se_ticks := Suc (se_ticks s)\<rparr>)"
  by (simp add: andthen_def time_Now_def)

lemma quiet_timestamp [quiet]:
  "andthen current_timestamp f s = f (se_clock s (se_ticks s) div Second) (s\<lparr>se_ticks := Suc (se_ticks s)\<rparr>)"
  by (simp add: andthen_def time_Now_def current_timestamp_def return_def)

lemma quiet_guard [quiet]: "andthen (guard c e) f s = (if c then (Inl e, s) else f () s)"
  by (simp add: andthen_def guard_def throw_def return_def)

lemma quiet_guard_last [quiet]: "guard c e s = (if c then (Inl e, s) else (Inr (), s))"
  by (simp add: guard_def throw_def return_def)

lemma quiet_return [quiet]: "andthen (return x) f s = f x s"
  by (simp add: andthen_def return_def)

lemma quiet_return_last [quiet]: "return x s = (Inr x, s)"
  by (simp add: return_def)

lemma quiet_throw [quiet]: "throw e s = (Inl e, s)"
  by (simp add: throw_def)

lemma quiet_assoc [quiet]: "andthen (andthen m f) g s = andthen m (\<lambda>x. andthen (f x) g) s"
  by (simp add: andthen_def split: prod.split sum.split)

lemma quiet_transaction [quiet]:
  "se_answers s = [] \<Longrightarrow> transaction what body s = (case body s of (Inl err, s') \<Rightarrow> (Inl err, rolled_back (se_db s) s') | (Inr e, s') \<Rightarrow> finish (se_db s) e s')"
  by (simp add: transaction_def andthen_def driver_def split: prod.split sum.split)

definition idle_session :: "database \<Rightarrow> session" where
  "idle_session db = \<lparr>se_db = db, se_answers = [], se_clock = (\<lambda>_. 0), se_ticks = 0\<rparr>"

lemma idle_session_simps [simp]:
  "se_db (idle_session db) = db" "se_answers (idle_session db) = []"
  by (simp_all add: idle_session_def)

section \<open>What transactions keep\<close>

lemma finish_cases:
  assumes "finish db e s = (r, s')"
  shows "(\<exists>x. e = Abandon x \<and> r = Inr x \<and> se_db s' = db) \<or> (\<exists>what err. r = Inl err \<and> se_db s' = db) \<or>
    (\<exists>what x. e = Commit what x \<and> r = Inr x \<and> se_db s' = se_db s)"
proof (cases e)
  case (Commit what x)
  have "se_db v = se_db s" if "driver what s = (y, v)" for y v using steadyD [OF driver_db [of "\<lambda>d. d"] that] .
  with Commit show ?thesis using assms by (auto simp: finish_def rolled_back_def split: prod.splits sum.splits)
qed (use assms in \<open>auto simp: finish_def rolled_back_def\<close>)

text \<open>What a transaction leaves is the old database, or the one its body committed.\<close>

lemma transaction_cases:
  assumes "transaction what body s = (r, s')"
  obtains "se_db s' = se_db s"
  | v c x where "andthen (driver what) (\<lambda>_. body) s = (Inr (Commit c x), v)" "r = Inr x" "se_db s' = se_db v"
  using assms finish_cases unfolding transaction_def
  by (fastforce simp: rolled_back_def split: prod.splits sum.splits)

lemma transaction_error:
  assumes "transaction what body s = (Inl e, s')"
  shows "se_db s' = se_db s"
  using assms finish_cases unfolding transaction_def
  by (fastforce simp: rolled_back_def split: prod.splits sum.splits)

lemma transaction_keeps [keepings]:
  assumes "keeps (\<lambda>s. J (se_db s)) body"
  shows "keeps (\<lambda>s. J (se_db s)) (transaction what body)"
proof (rule keepsI)
  fix s :: session assume J: "J (se_db s)"
  have body: "keeps (\<lambda>s. J (se_db s)) (andthen (driver what) (\<lambda>_. body))" by (intro keepings assms)
  obtain r s' where run: "transaction what body s = (r, s')" by fastforce
  then show "J (se_db (snd (transaction what body s)))"
  proof (cases rule: transaction_cases)
    case (2 v c x)
    with keepsD [OF body J] show ?thesis using run by simp
  qed (simp add: run J)
qed

lemma transaction_steady [steadies]:
  assumes "steady (\<lambda>s. f (se_db s)) body"
  shows "steady (\<lambda>s. f (se_db s)) (transaction what body)"
  unfolding steady_iff_keeps by (intro allI transaction_keeps) (use assms in \<open>simp add: steady_iff_keeps\<close>)

text \<open>What the body yields holds of what is committed.\<close>

lemma transaction_yields:
  assumes "yields P body (\<lambda>e db. case e of Commit _ x \<Rightarrow> Q x db | Abandon x \<Rightarrow> R x)"
    and run: "transaction what body s = (Inr x, s')" and "P (se_db s)"
  shows "Q x (se_db s') \<or> R x \<and> se_db s' = se_db s"
proof -
  obtain e v where e: "andthen (driver what) (\<lambda>_. body) s = (Inr e, v)" "finish (se_db s) e v = (Inr x, s')"
    using run unfolding transaction_def by (auto split: prod.splits sum.splits)
  have "case e of Commit _ x \<Rightarrow> Q x (se_db v) | Abandon x \<Rightarrow> R x"
    using yieldsD [OF yields_driver [OF assms(1)] assms(3) e(1)] .
  then show ?thesis using finish_cases [OF e(2)] by auto
qed

lemma transaction_yields_keeps:
  assumes "yields J body (\<lambda>e db. case e of Commit _ x \<Rightarrow> J db | Abandon x \<Rightarrow> True)"
  shows "keeps (\<lambda>s. J (se_db s)) (transaction what body)"
proof (rule keepsI)
  fix s :: session assume J: "J (se_db s)"
  obtain r s' where run: "transaction what body s = (r, s')" by fastforce
  show "J (se_db (snd (transaction what body s)))"
  proof (cases r)
    case (Inl e)
    with run J transaction_error show ?thesis by fastforce
  next
    case (Inr x)
    with transaction_yields [OF assms] run J show ?thesis by fastforce
  qed
qed

lemma transaction_upholds:
  assumes "upholds J body"
  shows "keeps (\<lambda>s. J (se_db s)) (transaction what body)"
  by (rule transaction_yields_keeps, rule yields_weaken [OF assms [unfolded upholds_def]]) (simp_all split: ending.split)

section \<open>Rows of tables\<close>

lemma set_rewrite: "set (rewrite p f rows) = (\<lambda>r. if p r then f r else r) ` set rows"
  by (simp add: rewrite_def)

lemma in_rewrite: "r \<in> set (rewrite p f rows) \<longleftrightarrow> (\<exists>q\<in>set rows. r = (if p q then f q else q))"
  by (auto simp: set_rewrite)

lemma rewrite_hit: "q \<in> set rows \<Longrightarrow> p q \<Longrightarrow> f q \<in> set (rewrite p f rows)"
  by (auto simp: set_rewrite image_iff)

lemma rewrite_miss: "q \<in> set rows \<Longrightarrow> \<not> p q \<Longrightarrow> q \<in> set (rewrite p f rows)"
  by (auto simp: set_rewrite image_iff)

lemma map_rewrite: "(\<And>r. p r \<Longrightarrow> k (f r) = k r) \<Longrightarrow> map k (rewrite p f rows) = map k rows"
  by (simp add: rewrite_def)

lemma length_rewrite [simp]: "length (rewrite p f rows) = length rows"
  by (simp add: rewrite_def)

lemma insert_row_Some: "insert_row clash r rows = Some rows' \<longleftrightarrow> rows' = rows @ [r] \<and> (\<forall>q\<in>set rows. \<not> clash q)"
  by (auto simp: insert_row_def list_ex_iff)

lemma set_delete_where [simp]: "set (delete_where p rows) = {r \<in> set rows. \<not> p r}"
  by (auto simp: delete_where_def)

lemma map_delete_distinct: "distinct (map k rows) \<Longrightarrow> distinct (map k (delete_where p rows))"
  by (simp add: delete_where_def distinct_map_filter)

lemma find_key:
  assumes "distinct (map k rows)" "r \<in> set rows"
  shows "List.find (\<lambda>q. k q = k r) rows = Some r"
  using assms by (induction rows) (auto simp: rev_image_eqI)

end
