(* ===== verification/Store_Nodes.thy ===== *)
theory Store_Nodes
  imports Store_Tables
begin

text \<open>
  Nodes and their identities (\<open>store.go\<close>, \<open>nodes.go\<close>): pending nodes, enrolment tokens, the Noise keys they
  buy, authorisation, hello and heartbeat, revocation. The guarantees: a node has one live key at most, a
  token is spent once, and a revoked node is never authorised again.
\<close>

section \<open>Lookups\<close>

definition node_of :: "database \<Rightarrow> string \<Rightarrow> node_row option" where
  "node_of db nid = List.find (\<lambda>n. no_id n = nid) (db_nodes db)"

definition token_of :: "database \<Rightarrow> nat list \<Rightarrow> token_row option" where
  "token_of db hash = List.find (\<lambda>t. tk_hash t = hash) (db_tokens db)"

definition live_key_of :: "string \<Rightarrow> key_row \<Rightarrow> bool" where
  "live_key_of nid k \<longleftrightarrow> ky_node k = nid \<and> ky_revoked k = None"

definition identifier_error :: "string \<Rightarrow> unit sql" where
  "identifier_error nid = (case ValidateIdentifier ''node_id'' nid of Some e \<Rightarrow> throw (StoreMessage e) | None \<Rightarrow> return ())"

definition write_nodes :: "(node_row \<Rightarrow> bool) \<Rightarrow> (node_row \<Rightarrow> node_row) \<Rightarrow> database \<Rightarrow> (database \<times> nat) option" where
  "write_nodes p f db = Some (db\<lparr>db_nodes := rewrite p f (db_nodes db)\<rparr>, length (filter p (db_nodes db)))"

section \<open>Pending nodes\<close>

definition new_node :: "string \<Rightarrow> node_row" where
  "new_node nid = \<lparr>no_id = nid, no_desired = 0, no_applied = 0, no_applied_checksum = None, no_applied_program = None,
     no_agent_version = None, no_capabilities = ''[]'', no_wireguard_key = None, no_last_seen = None,
     no_policy_checked = None, no_revoked = None\<rparr>"

definition insert_node :: "string \<Rightarrow> database \<Rightarrow> (database \<times> nat) option" where
  "insert_node nid db = Some (if list_ex (\<lambda>n. no_id n = nid) (db_nodes db) then (db, 0)
     else (db\<lparr>db_nodes := db_nodes db @ [new_node nid]\<rparr>, 1))"

definition ensurePendingNodeTx :: "string \<Rightarrow> bool sql" where
  "ensurePendingNodeTx nodeID =
     andthen (exec ''ensure pending node'' (insert_node nodeID)) (\<lambda>affected.
     andthen (query_row ''check pending node status'' (\<lambda>db. map_option (\<lambda>n. no_revoked n \<noteq> None) (node_of db nodeID))) (\<lambda>revoked.
     andthen (guard revoked ErrNodeRevoked) (\<lambda>_. return (affected = 1))))"

definition EnsurePendingNode :: "string \<Rightarrow> bool sql" where
  "EnsurePendingNode nodeID =
     andthen (identifier_error nodeID) (\<lambda>_.
     transaction ''begin pending node transaction''
       (andthen (ensurePendingNodeTx nodeID) (\<lambda>created. return (Commit ''commit pending node transaction'' created))))"

text \<open>\<open>DELETE FROM nodes\<close>: the foreign keys of the tokens, keys, generations, classes, bindings, audits and
  profiles cascade; those of the placements, the targets and the baselines of rollouts restrict.\<close>

definition delete_node :: "string \<Rightarrow> database \<Rightarrow> (database \<times> nat) option" where
  "delete_node nid db =
     (if list_ex (\<lambda>p. pm_IngressID (fp_placement p) = nid \<or> pm_ExitID (fp_placement p) = nid) (db_placements db) \<or>
         list_ex (\<lambda>t. ta_node t = nid) (db_targets db) \<or> list_ex (\<lambda>b. bl_node b = nid) (db_baselines db) then None
      else Some (db\<lparr>db_nodes := delete_where (\<lambda>n. no_id n = nid) (db_nodes db),
        db_tokens := delete_where (\<lambda>t. tk_node t = nid) (db_tokens db),
        db_keys := delete_where (\<lambda>k. ky_node k = nid) (db_keys db),
        db_key_events := delete_where (\<lambda>e. ke_node e = nid) (db_key_events db),
        db_generations := delete_where (\<lambda>g. ge_node g = nid) (db_generations db),
        db_acks := delete_where (\<lambda>a. ak_node a = nid) (db_acks db),
        db_classes := delete_where (\<lambda>c. ca_node c = nid) (db_classes db),
        db_bindings := delete_where (\<lambda>b. vb_node b = nid) (db_bindings db),
        db_rollups := delete_where (\<lambda>r. ru_node r = nid) (db_rollups db),
        db_policy_audits := delete_where (\<lambda>a. pa_node a = nid) (db_policy_audits db),
        db_profiles := delete_where (\<lambda>p. pr_node p = nid) (db_profiles db),
        db_observations := delete_where (\<lambda>b. fst (bo_key b) = nid) (db_observations db)\<rparr>,
       length (filter (\<lambda>n. no_id n = nid) (db_nodes db))))"

definition DeletePendingNode :: "string \<Rightarrow> unit sql" where
  "DeletePendingNode nodeID =
     andthen (identifier_error nodeID) (\<lambda>_.
     transaction ''begin pending node deletion''
       (andthen (query ''read pending node for deletion'' (\<lambda>db. (node_of db nodeID, list_ex (\<lambda>k. ky_node k = nodeID) (db_keys db)))) (\<lambda>(node, hasIdentity).
        case node of None \<Rightarrow> throw ErrNodeNotFound
        | Some n \<Rightarrow>
          andthen (guard (no_desired n \<noteq> 0 \<or> no_applied n \<noteq> 0 \<or> no_last_seen n \<noteq> None \<or> hasIdentity) ErrNodeDeletionConflict) (\<lambda>_.
          andthen (exec ''delete pending node'' (delete_node nodeID)) (\<lambda>affected.
          andthen (guard (affected \<noteq> 1) ErrNodeNotFound) (\<lambda>_.
          return (Commit ''commit pending node deletion'' ())))))))"

section \<open>Enrolment\<close>

definition base64url_char :: "nat \<Rightarrow> char" where
  "base64url_char n = (if n < 26 then char_of (65 + n) else if n < 52 then char_of (71 + n)
     else if n < 62 then char_of (n - 4) else if n = 62 then CHR ''-'' else CHR ''_'')"

fun RawURLEncode :: "nat list \<Rightarrow> string" where
  "RawURLEncode [] = []"
| "RawURLEncode [a] = map base64url_char [a div 4, a mod 4 * 16]"
| "RawURLEncode [a, b] = map base64url_char [a div 4, a mod 4 * 16 + b div 16, b mod 16 * 4]"
| "RawURLEncode (a # b # c # r) =
     map base64url_char [a div 4, a mod 4 * 16 + b div 16, b mod 16 * 4 + c div 64, c mod 64] @ RawURLEncode r"

definition HashEnrollmentToken :: "string \<Rightarrow> nat list" where
  "HashEnrollmentToken token = Sum256 token"

definition insert_token :: "token_row \<Rightarrow> database \<Rightarrow> (database \<times> nat) option" where
  "insert_token t db = map_option (\<lambda>ts. (db\<lparr>db_tokens := ts\<rparr>, 1)) (insert_row (\<lambda>q. tk_hash q = tk_hash t) t (db_tokens db))"

text \<open>The random bytes are an argument, \<open>None\<close> if they cannot be read.\<close>

definition CreateEnrollmentToken :: "nat list option \<Rightarrow> string \<Rightarrow> time \<Rightarrow> (string \<times> time) sql" where
  "CreateEnrollmentToken random nodeID ttl =
     andthen (identifier_error nodeID) (\<lambda>_.
     andthen (guard (ttl < 60 * Second \<or> ttl > 24 * 3600 * Second) (StoreMessage ''enrollment token TTL must be between one minute and 24 hours'')) (\<lambda>_.
     case random of None \<Rightarrow> throw (StoreMessage ''generate enrollment token'')
     | Some raw \<Rightarrow>
       let token = RawURLEncode raw; hash = HashEnrollmentToken token in
       transaction ''begin enrollment token transaction''
         (andthen (ensurePendingNodeTx nodeID) (\<lambda>_.
          andthen (query ''check existing node enrollment'' (\<lambda>db. list_ex (live_key_of nodeID) (db_keys db))) (\<lambda>alreadyEnrolled.
          andthen (guard alreadyEnrolled ErrNodeAlreadyEnrolled) (\<lambda>_.
          andthen time_Now (\<lambda>now.
          let expiresAt = now + ttl in
          andthen (exec ''store enrollment token'' (insert_token \<lparr>tk_hash = hash, tk_node = nodeID, tk_expires = expiresAt,
              tk_used = None, tk_fingerprint = None, tk_public_key = None\<rparr>)) (\<lambda>_.
          return (Commit ''commit enrollment token'' (token, expiresAt))))))))))"

record NodeKeyRecord =
  nk_NodeID :: string
  nk_Fingerprint :: string
  nk_PublicKey :: string
  nk_CreatedAt :: time

definition fingerprint :: "string \<Rightarrow> string" where
  "fingerprint publicKey = hex_EncodeToString (Sum256 publicKey)"

definition consume_token :: "nat list \<Rightarrow> time \<Rightarrow> string \<Rightarrow> database \<Rightarrow> (database \<times> nat) option" where
  "consume_token hash now publicKey db = (let p = (\<lambda>t. tk_hash t = hash \<and> tk_used t = None) in
     Some (db\<lparr>db_tokens := rewrite p (\<lambda>t. t\<lparr>tk_used := Some now, tk_fingerprint := Some (fingerprint publicKey),
       tk_public_key := Some publicKey\<rparr>) (db_tokens db)\<rparr>, length (filter p (db_tokens db))))"

definition insert_key :: "key_row \<Rightarrow> database \<Rightarrow> (database \<times> nat) option" where
  "insert_key k db = map_option (\<lambda>ks. (db\<lparr>db_keys := ks\<rparr>, 1))
     (insert_row (\<lambda>q. ky_fingerprint q = ky_fingerprint k \<or> ky_public_key q = ky_public_key k) k (db_keys db))"

definition CompleteEnrollment :: "string \<Rightarrow> string \<Rightarrow> string \<Rightarrow> NodeKeyRecord sql" where
  "CompleteEnrollment nodeID token publicKey =
     andthen (identifier_error nodeID) (\<lambda>_.
     andthen (guard (length publicKey \<noteq> 32) (StoreMessage ''node Noise public key must be 32 bytes'')) (\<lambda>_.
     let hash = HashEnrollmentToken token;
         record = (\<lambda>createdAt. \<lparr>nk_NodeID = nodeID, nk_Fingerprint = fingerprint publicKey, nk_PublicKey = publicKey, nk_CreatedAt = createdAt\<rparr>) in
     transaction ''begin enrollment transaction''
       (andthen (query ''read enrollment token'' (\<lambda>db. token_of db hash)) (\<lambda>row.
        case row of None \<Rightarrow> throw ErrInvalidEnrollment
        | Some t \<Rightarrow>
          andthen (guard (tk_node t \<noteq> nodeID) ErrInvalidEnrollment) (\<lambda>_.
          if tk_used t \<noteq> None then
            andthen (guard (tk_fingerprint t \<noteq> Some (fingerprint publicKey) \<or> tk_public_key t \<noteq> Some publicKey) ErrInvalidEnrollment) (\<lambda>_.
            andthen (query_row ''read enrolled node key'' (\<lambda>db. map_option ky_created (List.find (\<lambda>k. ky_fingerprint k = fingerprint publicKey) (db_keys db)))) (\<lambda>createdAt.
            return (Abandon (record createdAt))))
          else
            andthen time_Now (\<lambda>now.
            andthen (guard (\<not> Before now (tk_expires t)) ErrInvalidEnrollment) (\<lambda>_.
            andthen (query ''check competing node enrollment'' (\<lambda>db. list_ex (live_key_of nodeID) (db_keys db))) (\<lambda>alreadyEnrolled.
            andthen (guard alreadyEnrolled ErrNodeAlreadyEnrolled) (\<lambda>_.
            andthen current_timestamp (\<lambda>seconds.
            andthen (exec ''consume enrollment token'' (consume_token hash (seconds * Second) publicKey)) (\<lambda>affected.
            andthen (guard (affected \<noteq> 1) ErrInvalidEnrollment) (\<lambda>_.
            andthen time_Now (\<lambda>createdAt.
            andthen (exec ''store node Noise key'' (insert_key \<lparr>ky_fingerprint = fingerprint publicKey, ky_node = nodeID,
                ky_public_key = publicKey, ky_created = createdAt, ky_last_seen = None, ky_revoked = None\<rparr>)) (\<lambda>_.
            return (Commit ''commit enrollment'' (record createdAt))))))))))))))))"

section \<open>Authorisation\<close>

definition authorized_pair :: "database \<Rightarrow> string \<Rightarrow> string \<Rightarrow> (time option \<times> time option \<times> string) option" where
  "authorized_pair db nodeID fp = (case node_of db nodeID of None \<Rightarrow> None
     | Some n \<Rightarrow> map_option (\<lambda>k. (no_revoked n, ky_revoked k, ky_public_key k))
         (List.find (\<lambda>k. ky_node k = nodeID \<and> ky_fingerprint k = fp) (db_keys db)))"

definition AuthorizeNodeKey :: "string \<Rightarrow> string \<Rightarrow> unit sql" where
  "AuthorizeNodeKey nodeID publicKey =
     andthen (guard (length publicKey \<noteq> 32) ErrCredentialRevoked) (\<lambda>_.
     andthen (query ''authorize node'' (\<lambda>db. authorized_pair db nodeID (fingerprint publicKey))) (\<lambda>row.
     case row of None \<Rightarrow> throw ErrCredentialRevoked
     | Some (nodeRevoked, keyRevoked, storedPublicKey) \<Rightarrow>
       andthen (guard (nodeRevoked \<noteq> None) ErrNodeRevoked) (\<lambda>_.
       guard (keyRevoked \<noteq> None \<or> storedPublicKey \<noteq> publicKey) ErrCredentialRevoked)))"

section \<open>Hello, heartbeat, revocation\<close>

record HelloRecord =
  he_NodeID :: string
  he_KeyFingerprint :: string
  he_AgentVersion :: string
  he_Capabilities :: string
  he_WireGuardPublicKey :: string
  he_ObservedAt :: time

definition unrevoked_node :: "database \<Rightarrow> string \<Rightarrow> node_row option" where
  "unrevoked_node db nid = List.find (\<lambda>n. no_id n = nid \<and> no_revoked n = None) (db_nodes db)"

definition RecordHello :: "codecs \<Rightarrow> HelloRecord \<Rightarrow> unit sql" where
  "RecordHello cx hello =
     transaction ''begin agent hello transaction''
       (andthen (query ''lock node hello state'' (\<lambda>db. map_option no_wireguard_key (unrevoked_node db (he_NodeID hello)))) (\<lambda>row.
        case row of None \<Rightarrow> throw ErrNodeNotFound
        | Some previous \<Rightarrow>
          andthen (exec ''record agent hello'' (\<lambda>db. if \<not> cx_json_valid cx (he_Capabilities hello) then None
            else write_nodes (\<lambda>n. no_id n = he_NodeID hello) (\<lambda>n. n\<lparr>no_agent_version := Some (he_AgentVersion hello),
              no_capabilities := he_Capabilities hello, no_last_seen := Some (he_ObservedAt hello),
              no_wireguard_key := (if he_WireGuardPublicKey hello = [] then no_wireguard_key n else Some (he_WireGuardPublicKey hello))\<rparr>) db)) (\<lambda>_.
          andthen (if he_WireGuardPublicKey hello \<noteq> [] \<and> previous \<noteq> Some (he_WireGuardPublicKey hello)
            then exec_all ''audit WireGuard public key change'' (\<lambda>db. db\<lparr>db_key_events := db_key_events db @
              [\<lparr>ke_node = he_NodeID hello, ke_previous = previous, ke_public_key = he_WireGuardPublicKey hello, ke_observed = he_ObservedAt hello\<rparr>]\<rparr>)
            else return ()) (\<lambda>_.
          andthen (exec_all ''record Noise key activity'' (\<lambda>db. db\<lparr>db_keys := rewrite (\<lambda>k. ky_node k = he_NodeID hello \<and>
              ky_fingerprint k = he_KeyFingerprint hello) (\<lambda>k. k\<lparr>ky_last_seen := Some (he_ObservedAt hello)\<rparr>) (db_keys db)\<rparr>)) (\<lambda>_.
          return (Commit ''commit agent hello'' ()))))))"

definition RecordHeartbeat :: "string \<Rightarrow> time \<Rightarrow> unit sql" where
  "RecordHeartbeat nodeID observedAt =
     andthen (exec ''record heartbeat'' (write_nodes (\<lambda>n. no_id n = nodeID \<and> no_revoked n = None) (\<lambda>n. n\<lparr>no_last_seen := Some observedAt\<rparr>))) (\<lambda>affected.
     guard (affected \<noteq> 1) ErrNodeNotFound)"

definition coalesce :: "'a option \<Rightarrow> 'a \<Rightarrow> 'a option" where
  "coalesce x y = (case x of None \<Rightarrow> Some y | Some _ \<Rightarrow> x)"

definition RevokeNode :: "string \<Rightarrow> time \<Rightarrow> unit sql" where
  "RevokeNode nodeID now =
     andthen (identifier_error nodeID) (\<lambda>_.
     andthen (guard (IsZero now) (StoreMessage ''node revocation time is required'')) (\<lambda>_.
     transaction ''begin node revocation''
       (andthen (query ''read node for revocation'' (\<lambda>db. node_of db nodeID \<noteq> None)) (\<lambda>existing.
        andthen (guard (\<not> existing) ErrNodeNotFound) (\<lambda>_.
        andthen (exec ''revoke node'' (write_nodes (\<lambda>n. no_id n = nodeID) (\<lambda>n. n\<lparr>no_revoked := coalesce (no_revoked n) now\<rparr>))) (\<lambda>_.
        andthen (exec_all ''revoke node keys'' (\<lambda>db. db\<lparr>db_keys := rewrite (\<lambda>k. ky_node k = nodeID)
            (\<lambda>k. k\<lparr>ky_revoked := coalesce (ky_revoked k) now\<rparr>) (db_keys db)\<rparr>)) (\<lambda>_.
        andthen (exec_all ''invalidate node enrollment tokens'' (\<lambda>db. db\<lparr>db_tokens :=
            delete_where (\<lambda>t. tk_node t = nodeID \<and> tk_used t = None) (db_tokens db)\<rparr>)) (\<lambda>_.
        return (Commit ''commit node revocation'' ())))))))))"

section \<open>The invariant of identities\<close>

text \<open>What the invariant depends on: which nodes there are and which are revoked, and the keys and tokens
  without their bookkeeping.\<close>

definition identities :: "database \<Rightarrow> (string \<times> time option) list \<times> (string \<times> string \<times> string \<times> time option) list \<times> token_row list" where
  "identities db = (map (\<lambda>n. (no_id n, no_revoked n)) (db_nodes db),
     map (\<lambda>k. (ky_fingerprint k, ky_node k, ky_public_key k, ky_revoked k)) (db_keys db), db_tokens db)"

text \<open>The invariant over that view.\<close>

definition identities_ok :: "(string \<times> time option) list \<times> (string \<times> string \<times> string \<times> time option) list \<times> token_row list \<Rightarrow> bool" where
  "identities_ok v \<longleftrightarrow> (case v of (nodes, keys, tokens) \<Rightarrow>
     distinct (map fst nodes) \<and> distinct (map tk_hash tokens) \<and>
     (\<forall>f n p r. (f, n, p, r) \<in> set keys \<longrightarrow> f = fingerprint p \<and> n \<in> fst ` set nodes) \<and>
     (\<forall>t\<in>set tokens. tk_node t \<in> fst ` set nodes) \<and>
     (\<forall>n when f p r. (n, Some when) \<in> set nodes \<longrightarrow> (f, n, p, r) \<in> set keys \<longrightarrow> r \<noteq> None) \<and>
     (\<forall>t\<in>set tokens. \<forall>when. (tk_node t, Some when) \<in> set nodes \<longrightarrow> tk_used t \<noteq> None) \<and>
     sorted_wrt (\<lambda>(_, n, _, r) (_, m, _, q). \<not> (n = m \<and> r = None \<and> q = None)) keys)"

lemma identities_okI:
  assumes "distinct (map fst N)" "distinct (map tk_hash T)"
    and "\<And>f n p r. (f, n, p, r) \<in> set K \<Longrightarrow> f = fingerprint p \<and> n \<in> fst ` set N"
    and "\<And>t. t \<in> set T \<Longrightarrow> tk_node t \<in> fst ` set N"
    and "\<And>n when f p r. (n, Some when) \<in> set N \<Longrightarrow> (f, n, p, r) \<in> set K \<Longrightarrow> r \<noteq> None"
    and "\<And>t when. t \<in> set T \<Longrightarrow> (tk_node t, Some when) \<in> set N \<Longrightarrow> tk_used t \<noteq> None"
    and "sorted_wrt (\<lambda>(_, n, _, r) (_, m, _, q). \<not> (n = m \<and> r = None \<and> q = None)) K"
  shows "identities_ok (N, K, T)"
  unfolding identities_ok_def prod.case using assms by blast

lemma identities_okD:
  assumes "identities_ok (N, K, T)"
  shows "distinct (map fst N)" "distinct (map tk_hash T)"
    "(f, n, p, r) \<in> set K \<Longrightarrow> f = fingerprint p" "(f, n, p, r) \<in> set K \<Longrightarrow> n \<in> fst ` set N"
    "t \<in> set T \<Longrightarrow> tk_node t \<in> fst ` set N"
    "(n, Some when) \<in> set N \<Longrightarrow> (f, n, p, r) \<in> set K \<Longrightarrow> r \<noteq> None"
    "t \<in> set T \<Longrightarrow> (tk_node t, Some when) \<in> set N \<Longrightarrow> tk_used t \<noteq> None"
    "sorted_wrt (\<lambda>(_, n, _, r) (_, m, _, q). \<not> (n = m \<and> r = None \<and> q = None)) K"
  using assms unfolding identities_ok_def prod.case by blast+

definition identity_ok :: "database \<Rightarrow> bool" where
  "identity_ok db \<longleftrightarrow> identities_ok (identities db)"

lemma identity_steady: "steady (\<lambda>s. identities (se_db s)) m \<Longrightarrow> keeps (\<lambda>s. identity_ok (se_db s)) m"
  unfolding identity_ok_def by (rule steady_keeps)

text \<open>Each change of the three tables.\<close>

lemma unique_fst: "distinct (map fst xs) \<Longrightarrow> (a, b) \<in> set xs \<Longrightarrow> (a, c) \<in> set xs \<Longrightarrow> b = c"
  by (meson eq_key_imp_eq_value)

lemma ok_new_node:
  assumes ok: "identities_ok (N, K, T)" and "nid \<notin> fst ` set N"
  shows "identities_ok (N @ [(nid, None)], K, T)"
  by (rule identities_okI) (use assms(2) identities_okD [OF ok] in \<open>auto simp: rev_image_eqI\<close>)

lemma unrevoked_once:
  assumes "identities_ok (N, K, T)" "(nid, None) \<in> set N"
  shows "(nid, Some when) \<notin> set N"
  using identities_okD(1) [OF assms(1)] assms(2) unique_fst by fastforce

lemma ok_new_token:
  assumes ok: "identities_ok (N, K, T)" and node: "(tk_node t, None) \<in> set N" and "\<forall>q\<in>set T. tk_hash q \<noteq> tk_hash t"
  shows "identities_ok (N, K, T @ [t])"
  by (rule identities_okI) (use assms(2,3) identities_okD [OF ok] unrevoked_once [OF ok node] in \<open>auto simp: rev_image_eqI\<close>)

lemma ok_spend:
  assumes ok: "identities_ok (N, K, T)"
  shows "identities_ok (N, K, rewrite p (\<lambda>t. t\<lparr>tk_used := Some now, tk_fingerprint := x, tk_public_key := y\<rparr>) T)"
proof (rule identities_okI)
  have "map tk_hash (rewrite p (\<lambda>t. t\<lparr>tk_used := Some now, tk_fingerprint := x, tk_public_key := y\<rparr>) T) = map tk_hash T"
    by (rule map_rewrite) simp
  then show "distinct (map tk_hash (rewrite p (\<lambda>t. t\<lparr>tk_used := Some now, tk_fingerprint := x, tk_public_key := y\<rparr>) T))"
    using identities_okD(2) [OF ok] by simp
qed (use identities_okD [OF ok] in \<open>auto simp: in_rewrite\<close>)

lemma ok_new_key:
  assumes ok: "identities_ok (N, K, T)" and free: "\<And>f p r. (f, nid, p, r) \<in> set K \<Longrightarrow> r \<noteq> None" and node: "(nid, None) \<in> set N"
  shows "identities_ok (N, K @ [(fingerprint p, nid, p, None)], T)"
proof (rule identities_okI)
  show "sorted_wrt (\<lambda>(_, n, _, r) (_, m, _, q). \<not> (n = m \<and> r = None \<and> q = None)) (K @ [(fingerprint p, nid, p, None)])"
    using identities_okD(8) [OF ok] free by (fastforce simp: sorted_wrt_append)
qed (use identities_okD(1-7) [OF ok] unrevoked_once [OF ok node] node in \<open>auto simp: rev_image_eqI\<close>)

lemma coalesce_some [simp]: "\<exists>t. coalesce r now = Some t" "coalesce r now \<noteq> None" "None \<noteq> coalesce r now"
  by (simp_all add: coalesce_def split: option.split)

lemma ok_revoke:
  assumes ok: "identities_ok (N, K, T)"
  shows "identities_ok (map (\<lambda>(i, r). (i, if i = nid then coalesce r now else r)) N,
    map (\<lambda>(f, n, p, r). (f, n, p, if n = nid then coalesce r now else r)) K, delete_where (\<lambda>t. tk_node t = nid \<and> tk_used t = None) T)"
    (is "identities_ok (?N, ?K, ?T)")
proof (rule identities_okI)
  have ids: "map fst ?N = map fst N" by (auto simp: comp_def)
  then have fsts: "fst ` set ?N = fst ` set N" by (metis set_map)
  show "distinct (map fst ?N)" unfolding ids by (rule identities_okD(1) [OF ok])
  show "distinct (map tk_hash ?T)" by (rule map_delete_distinct) (rule identities_okD(2) [OF ok])
  show "f = fingerprint p \<and> n \<in> fst ` set ?N" if "(f, n, p, r) \<in> set ?K" for f n p r
    unfolding fsts using that identities_okD(3,4) [OF ok] by auto
  show "tk_node t \<in> fst ` set ?N" if "t \<in> set ?T" for t unfolding fsts using that identities_okD(5) [OF ok] by auto
  show "r \<noteq> None" if "(n, Some when) \<in> set ?N" "(f, n, p, r) \<in> set ?K" for n "when" f p r
    using that identities_okD(6) [OF ok] by (auto split: if_splits)
  show "tk_used t \<noteq> None" if "t \<in> set ?T" "(tk_node t, Some when) \<in> set ?N" for t "when"
    using that identities_okD(7) [OF ok] by (auto split: if_splits)
  show "sorted_wrt (\<lambda>(_, n, _, r) (_, m, _, q). \<not> (n = m \<and> r = None \<and> q = None)) ?K"
    unfolding sorted_wrt_map by (rule sorted_wrt_mono_rel [OF _ identities_okD(8) [OF ok]]) (auto split: if_splits)
qed

lemma ok_drop:
  assumes ok: "identities_ok (N, K, T)" and unused: "\<And>f p r. (f, nid, p, r) \<notin> set K"
  shows "identities_ok (filter (\<lambda>(i, r). i \<noteq> nid) N, K, delete_where (\<lambda>t. tk_node t = nid) T)"
    (is "identities_ok (?N, K, ?T)")
proof (rule identities_okI)
  have fsts: "fst ` set ?N = fst ` set N - {nid}" by force
  show "f = fingerprint p \<and> n \<in> fst ` set ?N" if "(f, n, p, r) \<in> set K" for f n p r
    unfolding fsts using that unused identities_okD(3,4) [OF ok] by blast
  show "tk_node t \<in> fst ` set ?N" if "t \<in> set ?T" for t unfolding fsts using that identities_okD(5) [OF ok] by simp
qed (use identities_okD [OF ok] in \<open>auto simp: map_delete_distinct distinct_map_filter\<close>)

section \<open>The operations keep the invariant\<close>

lemma identities_nodes:
  assumes "\<And>n. p n \<Longrightarrow> no_id (f n) = no_id n \<and> no_revoked (f n) = no_revoked n" "write_nodes p f db = Some (db', k)"
  shows "identities db' = identities db"
proof -
  have "map (\<lambda>n. (no_id n, no_revoked n)) (rewrite p f (db_nodes db)) = map (\<lambda>n. (no_id n, no_revoked n)) (db_nodes db)"
    by (rule map_rewrite) (simp add: assms(1))
  with assms(2) show ?thesis by (auto simp: write_nodes_def identities_def)
qed

definition unrevoked :: "string \<Rightarrow> database \<Rightarrow> bool" where
  "unrevoked nid db \<longleftrightarrow> (nid, None) \<in> set (fst (identities db))"

lemma node_of_Some: "node_of db nid = Some n \<Longrightarrow> n \<in> set (db_nodes db) \<and> no_id n = nid"
  unfolding node_of_def by (rule find_SomeD)

lemma identity_okE:
  assumes "identity_ok db"
  shows "identities_ok (map (\<lambda>n. (no_id n, no_revoked n)) (db_nodes db),
     map (\<lambda>k. (ky_fingerprint k, ky_node k, ky_public_key k, ky_revoked k)) (db_keys db), db_tokens db)"
  using assms by (simp add: identity_ok_def identities_def)

lemma insert_node_ok:
  assumes "identity_ok db" "insert_node nid db = Some (db', k)"
  shows "identity_ok db'"
proof (cases "list_ex (\<lambda>n. no_id n = nid) (db_nodes db)")
  case False
  then have "nid \<notin> fst ` set (map (\<lambda>n. (no_id n, no_revoked n)) (db_nodes db))" by (auto simp: list_ex_iff)
  from ok_new_node [OF identity_okE [OF assms(1)] this] False assms(2) show ?thesis
    by (auto simp: insert_node_def identity_ok_def identities_def new_node_def)
qed (use assms in \<open>auto simp: insert_node_def\<close>)

lemma unrevokedI: "node_of db nid = Some n \<Longrightarrow> no_revoked n = None \<Longrightarrow> unrevoked nid db"
  by (force simp: unrevoked_def identities_def dest: node_of_Some)

lemma ensurePendingNodeTx_ok:
  "yields identity_ok (ensurePendingNodeTx nodeID) (\<lambda>_ db. identity_ok db \<and> unrevoked nodeID db)"
  unfolding ensurePendingNodeTx_def by (intro forwards) (auto intro: insert_node_ok unrevokedI)

lemma identifier_keeps [keepings]: "keeps J (identifier_error nodeID)"
  unfolding identifier_error_def by (intro keepings)

lemma identifier_steady [steadies]: "steady f (identifier_error nodeID)"
  unfolding identifier_error_def by (intro steadies)

lemma EnsurePendingNode_ok: "keeps (\<lambda>s. identity_ok (se_db s)) (EnsurePendingNode nodeID)"
  unfolding EnsurePendingNode_def
  by (rule keeps_andthen, rule identifier_keeps, rule transaction_yields_keeps, rule yields_then [OF ensurePendingNodeTx_ok])
    (intro forwards, simp)

lemma delete_node_ok:
  assumes ok: "identity_ok db" and "\<not> list_ex (\<lambda>k. ky_node k = nid) (db_keys db)" "delete_node nid db = Some (db', k)"
  shows "identity_ok db'"
proof -
  have keys: "delete_where (\<lambda>k. ky_node k = nid) (db_keys db) = db_keys db" using assms(2) by (auto simp: delete_where_def filter_id_conv list_ex_iff)
  have nodes: "map (\<lambda>n. (no_id n, no_revoked n)) (delete_where (\<lambda>n. no_id n = nid) (db_nodes db)) =
      filter (\<lambda>(i, r). i \<noteq> nid) (map (\<lambda>n. (no_id n, no_revoked n)) (db_nodes db))"
    by (simp add: delete_where_def filter_map comp_def)
  have "(f, nid, p, r) \<notin> set (map (\<lambda>k. (ky_fingerprint k, ky_node k, ky_public_key k, ky_revoked k)) (db_keys db))" for f p r
    using assms(2) by (auto simp: list_ex_iff)
  from ok_drop [OF identity_okE [OF ok] this] assms(3) show ?thesis
    by (auto simp: delete_node_def identity_ok_def identities_def keys nodes split: if_splits)
qed

lemma DeletePendingNode_ok: "keeps (\<lambda>s. identity_ok (se_db s)) (DeletePendingNode nodeID)"
  unfolding DeletePendingNode_def
  by (rule keeps_andthen, rule identifier_keeps, rule transaction_yields_keeps, intro forwards)
    (auto intro: delete_node_ok)

lemma insert_token_ok:
  assumes "identity_ok db" "unrevoked (tk_node t) db" "insert_token t db = Some (db', k)"
  shows "identity_ok db'"
  using ok_new_token [OF identity_okE [OF assms(1)], of t] assms(2,3)
  by (auto simp: insert_token_def insert_row_Some unrevoked_def identity_ok_def identities_def)

lemma CreateEnrollmentToken_ok: "keeps (\<lambda>s. identity_ok (se_db s)) (CreateEnrollmentToken random nodeID ttl)"
  unfolding CreateEnrollmentToken_def Let_def
  by (rule keeps_andthen, rule identifier_keeps, rule keeps_andthen, rule keeps_guard, rule keeps_option, rule keeps_throw,
      rule transaction_yields_keeps, rule yields_then [OF ensurePendingNodeTx_ok], intro forwards)
    (auto elim!: insert_token_ok [rotated 2])

lemma consume_token_ok:
  assumes "identity_ok db" "consume_token hash now publicKey db = Some (db', k)"
  shows "identity_ok db'"
  using ok_spend [OF identity_okE [OF assms(1)]] assms(2)
  by (auto simp: consume_token_def identity_ok_def identities_def Let_def)

lemma consume_token_same: "consume_token hash now publicKey db = Some (db', k) \<Longrightarrow> db_nodes db' = db_nodes db \<and> db_keys db' = db_keys db"
  by (auto simp: consume_token_def Let_def)

lemma insert_key_ok:
  assumes ok: "identity_ok db" and "unrevoked (ky_node k) db" "\<not> list_ex (live_key_of (ky_node k)) (db_keys db)"
    "ky_fingerprint k = fingerprint (ky_public_key k)" "ky_revoked k = None" "insert_key k db = Some (db', n)"
  shows "identity_ok db'"
proof -
  have "r \<noteq> None" if "(f, ky_node k, p, r) \<in> set (map (\<lambda>k. (ky_fingerprint k, ky_node k, ky_public_key k, ky_revoked k)) (db_keys db))" for f p r
    using that assms(3) by (auto simp: list_ex_iff live_key_of_def)
  moreover have "(ky_node k, None) \<in> set (map (\<lambda>n. (no_id n, no_revoked n)) (db_nodes db))"
    using assms(2) by (simp add: unrevoked_def identities_def)
  ultimately have "identities_ok (map (\<lambda>n. (no_id n, no_revoked n)) (db_nodes db),
      map (\<lambda>k. (ky_fingerprint k, ky_node k, ky_public_key k, ky_revoked k)) (db_keys db) @ [(fingerprint (ky_public_key k), ky_node k, ky_public_key k, None)], db_tokens db)"
    by (rule ok_new_key [OF identity_okE [OF ok]])
  with assms(4-6) show ?thesis by (auto simp: insert_key_def insert_row_Some identity_ok_def identities_def)
qed

text \<open>An unspent token belongs to a node that is not revoked.\<close>

lemma unspent_unrevoked:
  assumes ok: "identity_ok db" and t: "token_of db hash = Some t" "tk_used t = None"
  shows "unrevoked (tk_node t) db"
proof -
  have t': "t \<in> set (db_tokens db)" using t(1) unfolding token_of_def by (blast dest: find_SomeD)
  then obtain r where "(tk_node t, r) \<in> set (map (\<lambda>n. (no_id n, no_revoked n)) (db_nodes db))"
    using identities_okD(5) [OF identity_okE [OF ok]] by fastforce
  moreover have "r = None" if "(tk_node t, r) \<in> set (map (\<lambda>n. (no_id n, no_revoked n)) (db_nodes db))" for r
    using identities_okD(7) [OF identity_okE [OF ok] t'] that t(2) by (cases r) auto
  ultimately show ?thesis unfolding unrevoked_def identities_def fst_conv by metis
qed

lemma unrevoked_cong: "db_nodes db' = db_nodes db \<Longrightarrow> unrevoked nid db' = unrevoked nid db"
  by (simp add: unrevoked_def identities_def)

lemma enrolled_ok:
  assumes ok: "identity_ok db" and t: "Some t = token_of db hash" "\<not> tk_node t \<noteq> nodeID" "\<not> tk_used t \<noteq> None"
    and free: "False = list_ex (live_key_of nodeID) (db_keys db)"
    and consumed: "consume_token hash now publicKey db = Some (db1, n)"
    and inserted: "insert_key \<lparr>ky_fingerprint = fingerprint publicKey, ky_node = nodeID, ky_public_key = publicKey,
        ky_created = c, ky_last_seen = None, ky_revoked = None\<rparr> db1 = Some (db2, m)"
  shows "identity_ok db2"
proof -
  have "unrevoked (tk_node t) db" by (rule unspent_unrevoked [OF ok t(1) [symmetric]]) (use t(3) in blast)
  then have "unrevoked nodeID db" using t(2) by metis
  then have "unrevoked nodeID db1" using unrevoked_cong [of db1 db nodeID] consume_token_same [OF consumed] by simp
  moreover have "\<not> list_ex (live_key_of nodeID) (db_keys db1)" using free consume_token_same [OF consumed] by simp
  ultimately show ?thesis by (intro insert_key_ok [OF consume_token_ok [OF ok consumed] _ _ _ _ inserted]) simp_all
qed

lemma CompleteEnrollment_ok: "keeps (\<lambda>s. identity_ok (se_db s)) (CompleteEnrollment nodeID token publicKey)"
  unfolding CompleteEnrollment_def Let_def
  by (rule keeps_andthen, rule identifier_keeps, rule keeps_andthen, rule keeps_guard, rule transaction_yields_keeps, intro forwards)
    (simp only: ending.case, simp only: ending.case, elim exE conjE, erule (6) enrolled_ok)

lemma AuthorizeNodeKey_steady [steadies]: "steady (\<lambda>s. f (se_db s)) (AuthorizeNodeKey nodeID publicKey)"
  unfolding AuthorizeNodeKey_def by (intro steadies)

lemma identities_active: "identities (db\<lparr>db_keys := rewrite p (\<lambda>k. k\<lparr>ky_last_seen := t\<rparr>) (db_keys db)\<rparr>) = identities db"
  by (simp add: identities_def map_rewrite)

lemma RecordHello_steady: "steady (\<lambda>s. identities (se_db s)) (RecordHello cx hello)"
  unfolding RecordHello_def
  by (intro steadies) (simp_all add: identities_active split: if_splits, erule identities_nodes [rotated], simp, simp add: identities_def)

lemma RecordHeartbeat_steady: "steady (\<lambda>s. identities (se_db s)) (RecordHeartbeat nodeID observedAt)"
  unfolding RecordHeartbeat_def by (intro steadies) (erule identities_nodes [rotated], simp)

lemma RevokeNode_ok: "keeps (\<lambda>s. identity_ok (se_db s)) (RevokeNode nodeID now)"
proof -
  have nodes: "map (\<lambda>n. (no_id n, no_revoked n)) (rewrite (\<lambda>n. no_id n = nodeID) (\<lambda>n. n\<lparr>no_revoked := coalesce (no_revoked n) now\<rparr>) ns) =
      map (\<lambda>(i, r). (i, if i = nodeID then coalesce r now else r)) (map (\<lambda>n. (no_id n, no_revoked n)) ns)" for ns
    by (simp add: rewrite_def)
  have keys: "map (\<lambda>k. (ky_fingerprint k, ky_node k, ky_public_key k, ky_revoked k))
      (rewrite (\<lambda>k. ky_node k = nodeID) (\<lambda>k. k\<lparr>ky_revoked := coalesce (ky_revoked k) now\<rparr>) ks) =
      map (\<lambda>(f, n, p, r). (f, n, p, if n = nodeID then coalesce r now else r))
        (map (\<lambda>k. (ky_fingerprint k, ky_node k, ky_public_key k, ky_revoked k)) ks)" for ks
    by (simp add: rewrite_def)
  have revoked: "identity_ok (db\<lparr>db_nodes := rewrite (\<lambda>n. no_id n = nodeID) (\<lambda>n. n\<lparr>no_revoked := coalesce (no_revoked n) now\<rparr>) (db_nodes db),
      db_keys := rewrite (\<lambda>k. ky_node k = nodeID) (\<lambda>k. k\<lparr>ky_revoked := coalesce (ky_revoked k) now\<rparr>) (db_keys db),
      db_tokens := delete_where (\<lambda>t. tk_node t = nodeID \<and> tk_used t = None) (db_tokens db)\<rparr>)" if "identity_ok db" for db
    using ok_revoke [OF identity_okE [OF that]] by (simp add: identity_ok_def identities_def nodes keys del: map_map)
  show ?thesis unfolding RevokeNode_def write_nodes_def
    by (rule keeps_andthen, rule identifier_keeps, rule keeps_andthen, rule keeps_guard, rule transaction_yields_keeps, intro forwards)
      (auto dest: revoked)
qed

end
