(* ===== verification/Store_Publish.thy ===== *)
theory Store_Publish
  imports Store_Nodes
begin

text \<open>
  Publication of desired states (\<open>store.go\<close>, \<open>internal/spec/json.go\<close>): the JSON form of a state, the allocation of
  traffic classes and service addresses, the ledger of generations with its outbox event, and the snapshot
  an agent is sent. The \<open>CHECK\<close> constraints that call \<open>json_valid\<close> on text the same transaction has just
  marshalled are not repeated.
\<close>

section \<open>JSON\<close>

definition MaxDesiredJSONBytes :: nat where "MaxDesiredJSONBytes = 64 * 2 ^ 20"

definition DecodeDesiredJSON :: "codecs \<Rightarrow> string \<Rightarrow> store_error + DesiredState" where
  "DecodeDesiredJSON cx encoded =
     (if length encoded > MaxDesiredJSONBytes then Inl (StoreMessage ''desired state exceeds 67108864 bytes'')
      else case cx_unmarshal cx encoded of None \<Rightarrow> Inl (StoreMessage ''decode desired state'')
      | Some (desired, follows) \<Rightarrow>
        if follows then Inl (StoreMessage ''decode desired state: trailing JSON content'')
        else if Validate desired \<noteq> [] then Inl (InvalidState (Validate desired))
        else Inr (Canonical desired))"

definition EncodeDesiredJSON :: "codecs \<Rightarrow> DesiredState \<Rightarrow> store_error + string" where
  "EncodeDesiredJSON cx desired =
     (if Validate desired \<noteq> [] then Inl (InvalidState (Validate desired))
      else case cx_marshal cx (Canonical desired) of None \<Rightarrow> Inl (StoreMessage ''encode desired state'')
      | Some encoded \<Rightarrow> Inr encoded)"

section \<open>Traffic classes\<close>

fun first_free :: "int \<Rightarrow> int list \<Rightarrow> int" where
  "first_free free [] = free"
| "first_free free (allocated # rest) =
     (if allocated < free then first_free free rest
      else if allocated = free then first_free (free + 1) rest
      else free)"

definition class_of :: "database \<Rightarrow> string \<Rightarrow> string \<Rightarrow> string \<Rightarrow> int option" where
  "class_of db nodeID kind owner = map_option ca_class
     (List.find (\<lambda>c. ca_node c = nodeID \<and> ca_kind c = kind \<and> ca_owner c = owner) (db_classes db))"

definition node_classes :: "database \<Rightarrow> string \<Rightarrow> int list" where
  "node_classes db nodeID = sort (map ca_class (filter (\<lambda>c. ca_node c = nodeID) (db_classes db)))"

definition insert_class :: "class_row \<Rightarrow> database \<Rightarrow> (database \<times> nat) option" where
  "insert_class c db =
     (if ca_kind c \<notin> {''user'', ''forward''} \<or> ca_class c < 2 \<or> ca_class c > 65534 then None
      else map_option (\<lambda>cs. (db\<lparr>db_classes := cs\<rparr>, 1))
        (insert_row (\<lambda>q. ca_node q = ca_node c \<and> (ca_kind q = ca_kind c \<and> ca_owner q = ca_owner c \<or> ca_class q = ca_class c)) c (db_classes db)))"

definition allocateTrafficClass :: "string \<Rightarrow> string \<Rightarrow> string \<Rightarrow> u16 sql" where
  "allocateTrafficClass nodeID ownerKind ownerID =
     andthen (query ''read traffic class allocation'' (\<lambda>db. class_of db nodeID ownerKind ownerID)) (\<lambda>existing.
     case existing of Some c \<Rightarrow> return (word_of_int c)
     | None \<Rightarrow>
       andthen (query ''allocate traffic class'' (\<lambda>db. node_classes db nodeID)) (\<lambda>allocated.
       let candidate = first_free 2 allocated in
       andthen (guard (candidate > 65534) (StoreMessage ''node traffic class space is exhausted'')) (\<lambda>_.
       andthen (exec ''store traffic class allocation'' (insert_class \<lparr>ca_node = nodeID, ca_kind = ownerKind, ca_owner = ownerID, ca_class = candidate\<rparr>)) (\<lambda>_.
       return (word_of_int candidate)))))"

definition resolve_policy :: "string \<Rightarrow> string set \<Rightarrow> UserPolicySpec \<Rightarrow> UserPolicySpec list \<Rightarrow> UserPolicySpec list sql" where
  "resolve_policy nodeID ingressUsers policy resolved =
     (if up_UserID policy \<notin> ingressUsers \<or> up_RateLimit policy = None then return (resolved @ [policy\<lparr>up_TrafficClassID := 0\<rparr>])
      else andthen (allocateTrafficClass nodeID ''user'' (up_UserID policy)) (\<lambda>classID.
           return (resolved @ [policy\<lparr>up_TrafficClassID := classID\<rparr>])))"

definition resolve_forward :: "string \<Rightarrow> string \<Rightarrow> ForwardSpec \<Rightarrow> ForwardSpec list \<Rightarrow> ForwardSpec list sql" where
  "resolve_forward nodeID stateNode forward resolved =
     (if fw_IngressNodeID forward \<noteq> stateNode \<or> fw_RateLimit forward = None then return (resolved @ [forward\<lparr>fw_TrafficClassID := 0\<rparr>])
      else andthen (allocateTrafficClass nodeID ''forward'' (fw_ID forward)) (\<lambda>classID.
           return (resolved @ [forward\<lparr>fw_TrafficClassID := classID\<rparr>])))"

definition resolveTrafficClasses :: "string \<Rightarrow> DesiredState \<Rightarrow> DesiredState sql" where
  "resolveTrafficClasses nodeID desired =
     andthen (loop (resolve_policy nodeID (ingress_users desired)) (ds_UserPolicies desired) []) (\<lambda>policies.
     andthen (loop (resolve_forward nodeID (ds_NodeID desired)) (ds_Forwards desired) []) (\<lambda>forwards.
     return (desired\<lparr>ds_UserPolicies := policies, ds_Forwards := forwards\<rparr>)))"

section \<open>Service addresses\<close>

text \<open>The upsert on \<open>service_vip\<close> returns no row when the address belongs to another forward or user; a forward
  that has another address violates the uniqueness of \<open>forward_id\<close>.\<close>

definition allocate_vip :: "string \<Rightarrow> ForwardSpec \<Rightarrow> database \<Rightarrow> (database \<times> nat) option" where
  "allocate_vip vip forward db =
     (if list_ex (\<lambda>a. va_vip a = vip) (db_vips db) then
        (if \<not> list_ex (\<lambda>a. va_vip a = vip \<and> va_forward a = fw_ID forward \<and> va_user a = fw_UserID forward) (db_vips db) then Some (db, 0)
         else if fw_IngressNodeID forward = fw_ExitNodeID forward then None
         else Some (db\<lparr>db_vips := rewrite (\<lambda>a. va_vip a = vip) (\<lambda>a. a\<lparr>va_ingress := fw_IngressNodeID forward, va_exit := fw_ExitNodeID forward\<rparr>) (db_vips db)\<rparr>, 1))
      else if fw_IngressNodeID forward = fw_ExitNodeID forward then None
      else map_option (\<lambda>as. (db\<lparr>db_vips := as\<rparr>, 1))
        (insert_row (\<lambda>a. va_forward a = fw_ID forward) \<lparr>va_vip = vip, va_forward = fw_ID forward, va_user = fw_UserID forward,
           va_ingress = fw_IngressNodeID forward, va_exit = fw_ExitNodeID forward\<rparr> (db_vips db)))"

definition bind_vip :: "string \<Rightarrow> string \<Rightarrow> string \<Rightarrow> database \<Rightarrow> (database \<times> nat) option" where
  "bind_vip nodeID forwardID vip db =
     (if list_ex (\<lambda>b. vb_node b = nodeID \<and> vb_vip b = vip \<and> vb_forward b \<noteq> forwardID) (db_bindings db) then None
      else Some (db\<lparr>db_bindings := upsert (\<lambda>b. vb_node b = nodeID \<and> vb_forward b = forwardID) (\<lambda>b. b\<lparr>vb_vip := vip\<rparr>)
        \<lparr>vb_node = nodeID, vb_forward = forwardID, vb_vip = vip\<rparr> (db_bindings db)\<rparr>, 1))"

definition bind_forward :: "string \<Rightarrow> ForwardSpec \<Rightarrow> string list \<Rightarrow> string list sql" where
  "bind_forward nodeID forward forwardIDs =
     (if fw_PathMode forward \<noteq> PathViaExit then return forwardIDs
      else case fw_ServiceVIP forward of None \<Rightarrow> throw (StoreMessage ''nil service VIP'')
      | Some address \<Rightarrow>
        let vip = Addr_String address in
        andthen (exec ''allocate service VIP'' (allocate_vip vip forward)) (\<lambda>returned.
        andthen (guard (returned = 0) (StoreWrapped vip ErrServiceVIPConflict)) (\<lambda>_.
        andthen (exec ''bind service VIP'' (bind_vip nodeID (fw_ID forward) vip)) (\<lambda>_.
        return (forwardIDs @ [fw_ID forward])))))"

definition drop_stale_bindings :: "string \<Rightarrow> string list \<Rightarrow> database \<Rightarrow> database" where
  "drop_stale_bindings nodeID forwardIDs db =
     db\<lparr>db_bindings := delete_where (\<lambda>b. vb_node b = nodeID \<and> vb_forward b \<notin> set forwardIDs) (db_bindings db)\<rparr>"

definition drop_orphaned_vips :: "database \<Rightarrow> database" where
  "drop_orphaned_vips db = db\<lparr>db_vips := delete_where (\<lambda>a. \<not> list_ex (\<lambda>b. vb_vip b = va_vip a) (db_bindings db)) (db_vips db)\<rparr>"

definition syncServiceVIPBindings :: "DesiredState \<Rightarrow> unit sql" where
  "syncServiceVIPBindings desired =
     andthen (loop (bind_forward (ds_NodeID desired)) (ds_Forwards desired) []) (\<lambda>forwardIDs.
     andthen (exec_all ''remove stale service VIP bindings'' (drop_stale_bindings (ds_NodeID desired) forwardIDs)) (\<lambda>_.
     exec_all ''remove orphaned service VIP allocations'' drop_orphaned_vips))"

section \<open>Generations\<close>

record SnapshotRecord =
  sp_NodeID :: string
  sp_Generation :: u64
  sp_SchemaVersion :: u32
  sp_DesiredChecksum :: string
  sp_DesiredStateJSON :: string
  sp_RequiredCapabilities :: string
  sp_CreatedAt :: time

definition insert_generation :: "generation_row \<Rightarrow> database \<Rightarrow> (database \<times> nat) option" where
  "insert_generation g db =
     (if ge_generation g \<le> 0 \<or> ge_schema g = 0 then None
      else map_option (\<lambda>gs. (db\<lparr>db_generations := gs\<rparr>, 1))
        (insert_row (\<lambda>q. ge_node q = ge_node g \<and> ge_generation q = ge_generation g) g (db_generations db)))"

definition insert_event :: "string \<Rightarrow> string \<Rightarrow> int \<Rightarrow> int \<Rightarrow> database \<Rightarrow> database" where
  "insert_event topic aggregate generation now db = db\<lparr>db_outbox := db_outbox db @
     [\<lparr>ob_id = db_next_outbox db, ob_topic = topic, ob_aggregate = aggregate, ob_generation = generation, ob_available = AtSecond now,
       ob_leased_by = None, ob_leased_until = None, ob_attempts = 0, ob_delivered = None, ob_last_error = None\<rparr>],
     db_next_outbox := db_next_outbox db + 1\<rparr>"

definition stamped :: "string \<Rightarrow> int \<Rightarrow> DesiredState \<Rightarrow> DesiredState" where
  "stamped nodeID current desired = desired\<lparr>ds_NodeID := nodeID, ds_Generation := uint64 (current + 1),
     ds_SchemaVersion := (if ds_SchemaVersion desired = 0 then CurrentSchemaVersion else ds_SchemaVersion desired)\<rparr>"

definition or_message :: "string \<Rightarrow> 'a option \<Rightarrow> 'a sql" where
  "or_message what x = (case x of None \<Rightarrow> throw (StoreMessage what) | Some y \<Rightarrow> return y)"

definition store_generation :: "codecs \<Rightarrow> string \<Rightarrow> DesiredState \<Rightarrow> SnapshotRecord sql" where
  "store_generation cx nodeID desired =
     andthen (or_message ''encode required capabilities'' (cx_capabilities cx (RequiredCapabilities desired))) (\<lambda>capabilities.
     andthen (unless_error (EncodeDesiredJSON cx desired)) (\<lambda>encoded.
     andthen (or_message ''calculate desired checksum'' (Checksum (cx_marshal cx) desired)) (\<lambda>checksum.
     andthen time_Now (\<lambda>createdAt.
     andthen (exec ''insert node generation'' (insert_generation \<lparr>ge_node = nodeID, ge_generation = int64 (ds_Generation desired),
         ge_schema = ds_SchemaVersion desired, ge_checksum = checksum, ge_state = encoded, ge_capabilities = capabilities,
         ge_status = ''pending'', ge_created = createdAt, ge_applied_at = None\<rparr>)) (\<lambda>_.
     andthen current_timestamp (\<lambda>now.
     andthen (exec_all ''insert generation outbox event'' (insert_event ''node.snapshot.ready'' nodeID (int64 (ds_Generation desired)) now)) (\<lambda>_.
     andthen (exec ''advance desired generation'' (write_nodes (\<lambda>n. no_id n = nodeID) (\<lambda>n. n\<lparr>no_desired := int64 (ds_Generation desired)\<rparr>))) (\<lambda>_.
     return \<lparr>sp_NodeID = nodeID, sp_Generation = ds_Generation desired, sp_SchemaVersion = ds_SchemaVersion desired,
       sp_DesiredChecksum = checksum, sp_DesiredStateJSON = encoded, sp_RequiredCapabilities = capabilities, sp_CreatedAt = createdAt\<rparr>))))))))"

definition publishDesiredTx :: "codecs \<Rightarrow> string \<Rightarrow> int \<Rightarrow> DesiredState \<Rightarrow> SnapshotRecord sql" where
  "publishDesiredTx cx nodeID current desired0 =
     andthen (guard (current = MaxInt64) (StoreMessage ''node generation exhausted'')) (\<lambda>_.
     let desired1 = stamped nodeID current desired0 in
     andthen (if ds_SchemaVersion desired1 \<ge> SchemaVersionV2 then resolveTrafficClasses nodeID desired1 else return desired1) (\<lambda>desired.
     andthen (guard (Validate desired \<noteq> []) (InvalidState (Validate desired))) (\<lambda>_.
     andthen (syncServiceVIPBindings desired) (\<lambda>_.
     store_generation cx nodeID desired))))"

definition generation_of :: "database \<Rightarrow> string \<Rightarrow> int \<Rightarrow> generation_row option" where
  "generation_of db nodeID generation = List.find (\<lambda>g. ge_node g = nodeID \<and> ge_generation g = generation) (db_generations db)"

definition cluster_owned :: "DesiredState \<Rightarrow> bool" where
  "cluster_owned desired \<longleftrightarrow> take 8 (ds_ManagementDomain desired) = ''cluster:''"

text \<open>The state of a stored generation, with the text of the two errors.\<close>

definition read_state :: "codecs \<Rightarrow> string \<Rightarrow> string \<Rightarrow> string \<Rightarrow> int \<Rightarrow> DesiredState sql" where
  "read_state cx reading decoding nodeID generation =
     andthen (query_row reading (\<lambda>db. map_option ge_state (generation_of db nodeID generation))) (\<lambda>encoded.
     failing (StoreWrapped decoding) (unless_error (DecodeDesiredJSON cx encoded)))"

definition PublishDesired :: "codecs \<Rightarrow> string \<Rightarrow> DesiredState \<Rightarrow> string \<Rightarrow> SnapshotRecord sql" where
  "PublishDesired cx nodeID desired requiredCapabilities =
     andthen (identifier_error nodeID) (\<lambda>_.
     andthen (guard (requiredCapabilities \<noteq> [] \<and> \<not> cx_json_valid cx requiredCapabilities) (StoreMessage ''required capabilities must be valid JSON'')) (\<lambda>_.
     andthen (guard (cluster_owned desired) (StoreMessage ''cluster-owned desired state must be published through a cluster plan'')) (\<lambda>_.
     transaction ''begin publish transaction''
       (andthen (query ''lock node generation'' (\<lambda>db. map_option no_desired (unrevoked_node db nodeID))) (\<lambda>row.
        case row of None \<Rightarrow> throw ErrNodeNotFound
        | Some current \<Rightarrow>
          andthen (query ''read node scheduling ownership'' (\<lambda>db. List.find (\<lambda>p. pr_node p = nodeID) (db_profiles db))) (\<lambda>profile.
          andthen (guard (profile \<noteq> None) (StoreWrapped ''node is assigned to cluster plan'' ErrManagementConflict)) (\<lambda>_.
          andthen (if current > 0 then
              andthen (read_state cx ''read current management domain'' ''decode current management domain'' nodeID current) (\<lambda>currentDesired.
              guard (cluster_owned currentDesired) ErrManagementConflict)
            else return ()) (\<lambda>_.
          andthen (publishDesiredTx cx nodeID current desired) (\<lambda>snapshot.
          return (Commit ''commit desired generation'' snapshot))))))))))"

definition newest_generation :: "database \<Rightarrow> string \<Rightarrow> generation_row option" where
  "newest_generation db nodeID =
     (case sort_less (\<lambda>a b. ge_generation a > ge_generation b) (filter (\<lambda>g. ge_node g = nodeID) (db_generations db)) of [] \<Rightarrow> None | g # _ \<Rightarrow> Some g)"

definition LatestSnapshot :: "string \<Rightarrow> SnapshotRecord option sql" where
  "LatestSnapshot nodeID =
     andthen (query ''read latest node snapshot'' (\<lambda>db. newest_generation db nodeID)) (\<lambda>row.
     return (map_option (\<lambda>g. \<lparr>sp_NodeID = ge_node g, sp_Generation = uint64 (ge_generation g), sp_SchemaVersion = ge_schema g,
       sp_DesiredChecksum = ge_checksum g, sp_DesiredStateJSON = ge_state g, sp_RequiredCapabilities = ge_capabilities g,
       sp_CreatedAt = ge_created g\<rparr>) row))"

section \<open>Traffic classes are the least free ones\<close>

definition classes_ok :: "database \<Rightarrow> bool" where
  "classes_ok db \<longleftrightarrow> (\<forall>c\<in>set (db_classes db). 2 \<le> ca_class c \<and> ca_class c \<le> 65534) \<and>
     distinct (map (\<lambda>c. (ca_node c, ca_kind c, ca_owner c)) (db_classes db)) \<and>
     distinct (map (\<lambda>c. (ca_node c, ca_class c)) (db_classes db))"

lemma first_free_least:
  assumes "sorted taken" "\<And>c. l \<le> c \<Longrightarrow> c < free \<Longrightarrow> c \<in> S" "\<And>c. free \<le> c \<Longrightarrow> c \<in> S \<longleftrightarrow> c \<in> set taken" "l \<le> free"
  shows "first_free free taken \<notin> S \<and> l \<le> first_free free taken \<and> (\<forall>c. l \<le> c \<longrightarrow> c < first_free free taken \<longrightarrow> c \<in> S)"
  using assms
proof (induction free taken rule: first_free.induct)
  case (1 free)
  then show ?case by auto
next
  case (2 free a rest)
  consider "a < free" | "a = free" | "free < a" by linarith
  then show ?case
  proof cases
    case 1
    have "first_free free rest \<notin> S \<and> l \<le> first_free free rest \<and> (\<forall>c. l \<le> c \<longrightarrow> c < first_free free rest \<longrightarrow> c \<in> S)"
      by (rule 2(1) [OF 1]) (use 1 "2.prems" in auto)
    with 1 show ?thesis by simp
  next
    case 2
    have "first_free (free + 1) rest \<notin> S \<and> l \<le> first_free (free + 1) rest \<and> (\<forall>c. l \<le> c \<longrightarrow> c < first_free (free + 1) rest \<longrightarrow> c \<in> S)"
    proof (rule "2.IH"(2))
      show "c \<in> S" if "l \<le> c" "c < free + 1" for c
        using that "2.prems"(2) [of c] "2.prems"(3) [of free] 2 by (cases "c = free") auto
    qed (use 2 "2.prems" in auto)
    with 2 show ?thesis by simp
  next
    case 3
    have "free \<notin> set (a # rest)" using 3 "2.prems"(1) by auto
    with 3 "2.prems" show ?thesis by auto
  qed
qed

lemma class_of_None: "class_of db nodeID kind owner = None \<longleftrightarrow>
    (\<forall>c\<in>set (db_classes db). \<not> (ca_node c = nodeID \<and> ca_kind c = kind \<and> ca_owner c = owner))"
  by (auto simp: class_of_def find_None_iff)

definition with_class :: "string \<Rightarrow> string \<Rightarrow> string \<Rightarrow> int \<Rightarrow> session \<Rightarrow> session" where
  "with_class nodeID kind owner c s = s\<lparr>se_db := (se_db s)\<lparr>db_classes := db_classes (se_db s) @
     [\<lparr>ca_node = nodeID, ca_kind = kind, ca_owner = owner, ca_class = c\<rparr>]\<rparr>\<rparr>"

text \<open>C40. Allocation of traffic classes: an owner keeps the class it has; a new owner gets the least class from 2 on that
  no owner of the node has, and the refusal of the database is never met; the allocation fails only when the
  node has given out every class up to 65534.\<close>

theorem allocateTrafficClass_least:
  assumes "classes_ok (se_db s)" and "se_answers s = []" and "kind \<in> {''user'', ''forward''}"
  shows "case class_of (se_db s) nodeID kind owner of
      Some c \<Rightarrow> allocateTrafficClass nodeID kind owner s = (Inr (word_of_int c), s)
    | None \<Rightarrow> \<exists>free\<ge>2. (\<forall>r\<in>set (db_classes (se_db s)). ca_node r = nodeID \<longrightarrow> ca_class r \<noteq> free) \<and>
        (\<forall>c. 2 \<le> c \<and> c < free \<longrightarrow> (\<exists>r\<in>set (db_classes (se_db s)). ca_node r = nodeID \<and> ca_class r = c)) \<and>
        allocateTrafficClass nodeID kind owner s =
          (if free > 65534 then (Inl (StoreMessage ''node traffic class space is exhausted''), s)
           else (Inr (word_of_int free), with_class nodeID kind owner free s))"
proof (cases "class_of (se_db s) nodeID kind owner")
  case (Some c)
  then show ?thesis using assms(2) by (simp add: allocateTrafficClass_def quiet)
next
  case None
  let ?S = "ca_class ` {r \<in> set (db_classes (se_db s)). ca_node r = nodeID}"
  define free where "free = first_free 2 (node_classes (se_db s) nodeID)"
  have "free \<notin> ?S \<and> 2 \<le> free \<and> (\<forall>c. 2 \<le> c \<longrightarrow> c < free \<longrightarrow> c \<in> ?S)"
    unfolding free_def by (rule first_free_least) (auto simp: node_classes_def)
  then have free: "2 \<le> free" "\<forall>r\<in>set (db_classes (se_db s)). ca_node r = nodeID \<longrightarrow> ca_class r \<noteq> free"
    "\<forall>c. 2 \<le> c \<and> c < free \<longrightarrow> (\<exists>r\<in>set (db_classes (se_db s)). ca_node r = nodeID \<and> ca_class r = c)" by blast+
  have run: "allocateTrafficClass nodeID kind owner s =
      (if free > 65534 then (Inl (StoreMessage ''node traffic class space is exhausted''), s)
       else (Inr (word_of_int free), with_class nodeID kind owner free s))"
    using None assms(2,3) free(1,2) class_of_None [THEN iffD1, OF None]
    by (simp add: allocateTrafficClass_def quiet free_def [symmetric] Let_def insert_class_def insert_row_def list_ex_iff with_class_def) blast
  show ?thesis unfolding None option.case by (rule exI [of _ free]) (use free run in blast)
qed

theorem allocateTrafficClass_least_witness:
  "allocateTrafficClass ''n'' ''user'' ''u'' (idle_session empty_database) =
     (Inr 2, with_class ''n'' ''user'' ''u'' 2 (idle_session empty_database))"
proof -
  let ?s = "idle_session empty_database"
  have classes: "db_classes empty_database = []" by (simp add: empty_database_def)
  have "\<exists>free\<ge>2. (\<forall>c. \<not> (2 \<le> c \<and> c < free)) \<and> allocateTrafficClass ''n'' ''user'' ''u'' ?s =
      (if free > 65534 then (Inl (StoreMessage ''node traffic class space is exhausted''), ?s)
       else (Inr (word_of_int free), with_class ''n'' ''user'' ''u'' free ?s))"
    using allocateTrafficClass_least [of ?s "''user''" "''n''" "''u''"] by (simp add: classes_ok_def class_of_def classes)
  then obtain free :: int where "2 \<le> free" "\<not> 2 < free" "allocateTrafficClass ''n'' ''user'' ''u'' ?s =
      (if free > 65534 then (Inl (StoreMessage ''node traffic class space is exhausted''), ?s)
       else (Inr (word_of_int free), with_class ''n'' ''user'' ''u'' free ?s))" by force
  moreover then have "free = 2" by linarith
  ultimately show ?thesis by simp
qed

section \<open>What publication leaves alone\<close>

lemma insert_class_same: "insert_class c db = Some (db', n) \<Longrightarrow> \<exists>cs. db' = db\<lparr>db_classes := cs\<rparr>"
  by (auto simp: insert_class_def split: if_splits)

lemma allocateTrafficClass_steady:
  assumes "\<And>db cs. f (db\<lparr>db_classes := cs\<rparr>) = f db"
  shows "steady (\<lambda>s. f (se_db s)) (allocateTrafficClass nodeID kind owner)"
  unfolding allocateTrafficClass_def by (intro steadies) (auto dest!: insert_class_same simp: assms)

lemma resolveTrafficClasses_steady:
  assumes "\<And>db cs. f (db\<lparr>db_classes := cs\<rparr>) = f db"
  shows "steady (\<lambda>s. f (se_db s)) (resolveTrafficClasses nodeID desired)"
  unfolding resolveTrafficClasses_def resolve_policy_def resolve_forward_def
  by (intro steadies allocateTrafficClass_steady assms)

lemma allocate_vip_same:
  assumes "allocate_vip vip forward db = Some (db', n)"
  shows "\<exists>vs. db' = db\<lparr>db_vips := vs\<rparr>"
proof (cases "db' = db")
  case True
  then have "db' = db\<lparr>db_vips := db_vips db\<rparr>" by simp
  then show ?thesis by blast
qed (use assms in \<open>auto simp: allocate_vip_def split: if_splits\<close>)

lemma bind_vip_same: "bind_vip nodeID forwardID vip db = Some (db', n) \<Longrightarrow> \<exists>bs. db' = db\<lparr>db_bindings := bs\<rparr>"
  by (auto simp: bind_vip_def split: if_splits)

lemmas vip_same = allocate_vip_same bind_vip_same

lemma syncServiceVIPBindings_steady:
  assumes "\<And>db vs. f (db\<lparr>db_vips := vs\<rparr>) = f db" "\<And>db bs. f (db\<lparr>db_bindings := bs\<rparr>) = f db"
  shows "steady (\<lambda>s. f (se_db s)) (syncServiceVIPBindings desired)"
  unfolding syncServiceVIPBindings_def bind_forward_def
  by (intro steadies) (auto dest!: vip_same simp: assms drop_stale_bindings_def drop_orphaned_vips_def)

lemma or_message_steady [steadies]: "steady f (or_message what x)"
  unfolding or_message_def by (intro steadies)

lemma yields_or_message [forwards]:
  "(\<And>y. x = Some y \<Longrightarrow> yields P (f y) Q) \<Longrightarrow> yields P (andthen (or_message what x) f) Q"
  by (cases x) (simp_all add: yields_def or_message_def andthen_def throw_def return_def)

lemma insert_generation_Some: "insert_generation g db = Some (db', n) \<longleftrightarrow>
    db' = db\<lparr>db_generations := db_generations db @ [g]\<rparr> \<and> n = 1 \<and> 0 < ge_generation g \<and> ge_schema g \<noteq> 0 \<and>
    (\<forall>q\<in>set (db_generations db). \<not> (ge_node q = ge_node g \<and> ge_generation q = ge_generation g))"
  by (auto simp: insert_generation_def insert_row_Some not_le)

lemma publishDesiredTx_steady:
  assumes "\<And>db cs. f (db\<lparr>db_classes := cs\<rparr>) = f db" "\<And>db vs. f (db\<lparr>db_vips := vs\<rparr>) = f db" "\<And>db bs. f (db\<lparr>db_bindings := bs\<rparr>) = f db"
    "\<And>db gs. f (db\<lparr>db_generations := gs\<rparr>) = f db" "\<And>db es. f (db\<lparr>db_outbox := es\<rparr>) = f db" "\<And>db n. f (db\<lparr>db_next_outbox := n\<rparr>) = f db"
    "\<And>db g. f (db\<lparr>db_nodes := rewrite (\<lambda>n. no_id n = nodeID) (\<lambda>n. n\<lparr>no_desired := g\<rparr>) (db_nodes db)\<rparr>) = f db"
  shows "steady (\<lambda>s. f (se_db s)) (publishDesiredTx cx nodeID current desired)"
  unfolding publishDesiredTx_def store_generation_def
  by (intro steadies resolveTrafficClasses_steady syncServiceVIPBindings_steady)
    (auto simp: assms insert_generation_Some insert_event_def write_nodes_def)

lemma read_state_steady [steadies]: "steady (\<lambda>s. f (se_db s)) (read_state cx reading decoding nodeID generation)"
  unfolding read_state_def by (intro steadies)

lemma read_state_upholds [upholdings]: "upholds J (read_state cx reading decoding nodeID generation)"
  by (rule upholds_same) (rule read_state_steady [of "\<lambda>db. db"])

lemma or_message_upholds [upholdings]: "upholds J (or_message what x)"
  unfolding or_message_def by (intro upholdings)

lemma LatestSnapshot_steady [steadies]: "steady (\<lambda>s. f (se_db s)) (LatestSnapshot nodeID)"
  unfolding LatestSnapshot_def by (intro steadies)

end
