(* ===== verification/Store_Ledger.thy ===== *)
theory Store_Ledger
  imports Store_Publish
begin

text \<open>
  The ledger of generations: the generations of a node are numbered from 1 to its desired generation without
  a gap, each stores a valid state with its checksum and the capabilities it requires, and the applied
  generation is one of them, acknowledged with its checksum. The invariant is stated over the columns it
  depends on, and kept by publication.
\<close>

section \<open>The invariant\<close>

type_synonym ledger_view = "(string \<times> int \<times> int \<times> string option) list \<times> generation_row list"

definition ledger :: "database \<Rightarrow> ledger_view" where
  "ledger db = (map (\<lambda>n. (no_id n, no_desired n, no_applied n, no_applied_checksum n)) (db_nodes db), db_generations db)"

definition stores :: "codecs \<Rightarrow> generation_row \<Rightarrow> DesiredState \<Rightarrow> bool" where
  "stores cx g d \<longleftrightarrow> Validate d = [] \<and> ds_NodeID d = ge_node g \<and> int64 (ds_Generation d) = ge_generation g \<and>
     ds_SchemaVersion d = ge_schema g \<and> cx_marshal cx (Canonical d) = Some (ge_state g) \<and>
     Checksum (cx_marshal cx) d = Some (ge_checksum g) \<and> cx_capabilities cx (RequiredCapabilities d) = Some (ge_capabilities g)"

definition acknowledged :: "generation_row list \<Rightarrow> string \<Rightarrow> int \<Rightarrow> string option \<Rightarrow> bool" where
  "acknowledged G nid applied checksum \<longleftrightarrow>
     (\<exists>g\<in>set G. ge_node g = nid \<and> ge_generation g = applied \<and> checksum = Some (ge_checksum g) \<and> ge_status g = ''applied'')"

definition ledger_view_ok :: "codecs \<Rightarrow> ledger_view \<Rightarrow> bool" where
  "ledger_view_ok cx v \<longleftrightarrow> (case v of (N, G) \<Rightarrow>
     distinct (map fst N) \<and> distinct (map (\<lambda>g. (ge_node g, ge_generation g)) G) \<and>
     (\<forall>g\<in>set G. (\<exists>d. stores cx g d) \<and> (\<exists>d a c. (ge_node g, d, a, c) \<in> set N \<and> 1 \<le> ge_generation g \<and> ge_generation g \<le> d)) \<and>
     (\<forall>i d a c. (i, d, a, c) \<in> set N \<longrightarrow> 0 \<le> a \<and> a \<le> d \<and> d \<le> MaxInt64 \<and>
        (\<forall>k. 1 \<le> k \<and> k \<le> d \<longrightarrow> (\<exists>g\<in>set G. ge_node g = i \<and> ge_generation g = k)) \<and>
        (0 < a \<longrightarrow> acknowledged G i a c)))"

definition ledger_ok :: "codecs \<Rightarrow> database \<Rightarrow> bool" where
  "ledger_ok cx db \<longleftrightarrow> ledger_view_ok cx (ledger db)"

lemma ledger_view_okI:
  assumes "distinct (map fst N)" "distinct (map (\<lambda>g. (ge_node g, ge_generation g)) G)"
    and "\<And>g. g \<in> set G \<Longrightarrow> \<exists>d. stores cx g d"
    and "\<And>g. g \<in> set G \<Longrightarrow> \<exists>d a c. (ge_node g, d, a, c) \<in> set N \<and> 1 \<le> ge_generation g \<and> ge_generation g \<le> d"
    and "\<And>i d a c. (i, d, a, c) \<in> set N \<Longrightarrow> 0 \<le> a \<and> a \<le> d \<and> d \<le> MaxInt64"
    and "\<And>i d a c k. (i, d, a, c) \<in> set N \<Longrightarrow> 1 \<le> k \<Longrightarrow> k \<le> d \<Longrightarrow> \<exists>g\<in>set G. ge_node g = i \<and> ge_generation g = k"
    and "\<And>i d a c. (i, d, a, c) \<in> set N \<Longrightarrow> 0 < a \<Longrightarrow> acknowledged G i a c"
  shows "ledger_view_ok cx (N, G)"
  unfolding ledger_view_ok_def prod.case using assms by blast

lemma ledger_view_okD:
  assumes "ledger_view_ok cx (N, G)"
  shows "distinct (map fst N)" "distinct (map (\<lambda>g. (ge_node g, ge_generation g)) G)"
    "g \<in> set G \<Longrightarrow> \<exists>d. stores cx g d"
    "g \<in> set G \<Longrightarrow> \<exists>d a c. (ge_node g, d, a, c) \<in> set N \<and> 1 \<le> ge_generation g \<and> ge_generation g \<le> d"
    "(i, d, a, c) \<in> set N \<Longrightarrow> 0 \<le> a \<and> a \<le> d \<and> d \<le> MaxInt64"
    "(i, d, a, c) \<in> set N \<Longrightarrow> 1 \<le> k \<Longrightarrow> k \<le> d \<Longrightarrow> \<exists>g\<in>set G. ge_node g = i \<and> ge_generation g = k"
    "(i, d, a, c) \<in> set N \<Longrightarrow> 0 < a \<Longrightarrow> acknowledged G i a c"
  using assms unfolding ledger_view_ok_def prod.case by blast+

lemma ledger_okE:
  assumes "ledger_ok cx db"
  shows "ledger_view_ok cx (map (\<lambda>n. (no_id n, no_desired n, no_applied n, no_applied_checksum n)) (db_nodes db), db_generations db)"
  using assms by (simp add: ledger_ok_def ledger_def)

lemma ledger_steady: "steady (\<lambda>s. ledger (se_db s)) m \<Longrightarrow> keeps (\<lambda>s. ledger_ok cx (se_db s)) m"
  unfolding ledger_ok_def by (rule steady_keeps)

section \<open>Changes of the ledger\<close>

lemma unique_row: "distinct (map fst N) \<Longrightarrow> (i, x) \<in> set N \<Longrightarrow> (i, y) \<in> set N \<Longrightarrow> x = y"
  by (rule unique_fst)

lemma lg_new_node:
  assumes ok: "ledger_view_ok cx (N, G)" and "nid \<notin> fst ` set N"
  shows "ledger_view_ok cx (N @ [(nid, 0, 0, c)], G)"
proof (rule ledger_view_okI)
  show "\<exists>d a c'. (ge_node g, d, a, c') \<in> set (N @ [(nid, 0, 0, c)]) \<and> 1 \<le> ge_generation g \<and> ge_generation g \<le> d" if "g \<in> set G" for g
    using ledger_view_okD(4) [OF ok that] by fastforce
qed (use assms(2) ledger_view_okD [OF ok] in \<open>auto simp: MaxInt64_def rev_image_eqI\<close>)

lemma lg_drop_node:
  assumes ok: "ledger_view_ok cx (N, G)" and unused: "\<And>d a c. (nid, d, a, c) \<in> set N \<Longrightarrow> d = 0"
  shows "ledger_view_ok cx (filter (\<lambda>r. fst r \<noteq> nid) N, delete_where (\<lambda>g. ge_node g = nid) G)"
proof -
  have same: "delete_where (\<lambda>g. ge_node g = nid) G = G"
    using ledger_view_okD(4) [OF ok] unused by (fastforce simp: delete_where_def filter_id_conv)
  have away: "ge_node g \<noteq> nid" if "g \<in> set G" for g using ledger_view_okD(4) [OF ok that] unused by fastforce
  show ?thesis unfolding same
  proof (rule ledger_view_okI)
    show "\<exists>d a c. (ge_node g, d, a, c) \<in> set (filter (\<lambda>r. fst r \<noteq> nid) N) \<and> 1 \<le> ge_generation g \<and> ge_generation g \<le> d" if "g \<in> set G" for g
      using ledger_view_okD(4) [OF ok that] away [OF that] by auto
  qed (use ledger_view_okD(1-3,5-7) [OF ok] in \<open>auto simp: distinct_map_filter\<close>)
qed

lemma acknowledged_mono: "acknowledged G i a c \<Longrightarrow> acknowledged (G @ H) i a c"
  by (auto simp: acknowledged_def)

lemma lg_publish:
  assumes ok: "ledger_view_ok cx (N, G)" and row: "(ge_node g, d, a, c) \<in> set N" and "d < MaxInt64"
    and g: "ge_generation g = d + 1" "stores cx g state"
  shows "ledger_view_ok cx (map (\<lambda>(i, d', x). (i, if i = ge_node g then d + 1 else d', x)) N, G @ [g])" (is "ledger_view_ok cx (?N, _)")
proof (rule ledger_view_okI)
  have here: "d' = d \<and> a' = a \<and> c' = c" if "(ge_node g, d', a', c') \<in> set N" for d' a' c'
    using unique_row [OF ledger_view_okD(1) [OF ok] row that] by simp
  have mem: "(i, d', a', c') \<in> set ?N \<longleftrightarrow> (if i = ge_node g then d' = d + 1 \<and> a' = a \<and> c' = c else (i, d', a', c') \<in> set N)" for i d' a' c'
  proof -
    have "(i, d', a', c') \<in> set ?N \<longleftrightarrow> (\<exists>e. (i, e, a', c') \<in> set N \<and> d' = (if i = ge_node g then d + 1 else e))"
      unfolding set_map image_iff by (rule iffI) (erule bexE, fastforce, force)
    moreover have "(\<exists>e. (ge_node g, e, a', c') \<in> set N \<and> d' = d + 1) \<longleftrightarrow> d' = d + 1 \<and> a' = a \<and> c' = c" using row here by metis
    ultimately show ?thesis by (cases "i = ge_node g") simp_all
  qed
  have "map fst ?N = map fst N" by (auto simp: comp_def)
  then show "distinct (map fst ?N)" using ledger_view_okD(1) [OF ok] by (simp only:)
  have "(ge_node g, ge_generation g) \<noteq> (ge_node q, ge_generation q)" if "q \<in> set G" for q
    using ledger_view_okD(4) [OF ok that] here g(1) by fastforce
  then show "distinct (map (\<lambda>g. (ge_node g, ge_generation g)) (G @ [g]))" using ledger_view_okD(2) [OF ok] by auto
  show "\<exists>d. stores cx q d" if "q \<in> set (G @ [g])" for q using that ledger_view_okD(3) [OF ok] g(2) by auto
  have bounds: "0 \<le> a" "a \<le> d" using ledger_view_okD(5) [OF ok row] by auto
  show "\<exists>d a c. (ge_node q, d, a, c) \<in> set ?N \<and> 1 \<le> ge_generation q \<and> ge_generation q \<le> d" if "q \<in> set (G @ [g])" for q
    unfolding mem using that ledger_view_okD(4) [OF ok, of q] here [of _ _ _] g(1) bounds by (cases "ge_node q = ge_node g") fastforce+
  show "0 \<le> a' \<and> a' \<le> d' \<and> d' \<le> MaxInt64" if "(i, d', a', c') \<in> set ?N" for i d' a' c'
    using that ledger_view_okD(5) [OF ok] bounds assms(3) unfolding mem by (fastforce split: if_splits)
  show "\<exists>q\<in>set (G @ [g]). ge_node q = i \<and> ge_generation q = k" if "(i, d', a', c') \<in> set ?N" "1 \<le> k" "k \<le> d'" for i d' a' c' k
    using that ledger_view_okD(6) [OF ok, of i d' a' c' k] ledger_view_okD(6) [OF ok row, of k] g(1) unfolding mem
    by (cases "k = d + 1") (auto split: if_splits)
  show "acknowledged (G @ [g]) i a' c'" if "(i, d', a', c') \<in> set ?N" "0 < a'" for i d' a' c'
    using that ledger_view_okD(7) [OF ok, of i d' a' c'] ledger_view_okD(7) [OF ok row] unfolding mem by (auto intro: acknowledged_mono split: if_splits)
qed

section \<open>Publication\<close>

definition advance_row :: "string \<Rightarrow> int \<Rightarrow> (string \<times> int \<times> int \<times> string option) list \<Rightarrow> (string \<times> int \<times> int \<times> string option) list" where
  "advance_row nid d N = map (\<lambda>(i, d', x). (i, if i = nid then d else d', x)) N"

lemma in_advance_row: "(i, d', x) \<in> set (advance_row nid d N) \<longleftrightarrow> (\<exists>e. (i, e, x) \<in> set N \<and> d' = (if i = nid then d else e))"
  unfolding advance_row_def set_map image_iff by (rule iffI) (erule bexE, fastforce, force)

lemma int64_uint64: "- MaxInt64 \<le> n \<Longrightarrow> n \<le> MaxInt64 \<Longrightarrow> int64 (uint64 n) = n"
  by (simp add: int64_def uint64_def MaxInt64_def sint_sbintrunc' signed_take_bit_int_eq_self)

text \<open>A state up to the traffic classes that the controller assigns.\<close>

definition unclassed :: "DesiredState \<Rightarrow> DesiredState" where
  "unclassed d = d\<lparr>ds_UserPolicies := map (\<lambda>p. p\<lparr>up_TrafficClassID := 0\<rparr>) (ds_UserPolicies d),
     ds_Forwards := map (\<lambda>f. f\<lparr>fw_TrafficClassID := 0\<rparr>) (ds_Forwards d)\<rparr>"

lemma resolve_policy_same:
  "yields (\<lambda>_. map (\<lambda>p. p\<lparr>up_TrafficClassID := 0\<rparr>) (prev @ policy # rest) = ps) (resolve_policy nodeID users policy prev)
     (\<lambda>prev _. map (\<lambda>p. p\<lparr>up_TrafficClassID := 0\<rparr>) (prev @ rest) = ps)"
  unfolding resolve_policy_def
  by (rule yields_if, rule yields_return, simp, rule yields_then [where R = "\<lambda>_ _. map (\<lambda>p. p\<lparr>up_TrafficClassID := 0\<rparr>) (prev @ policy # rest) = ps"])
    (auto simp: yields_def return_def)

lemma resolve_forward_same:
  "yields (\<lambda>_. map (\<lambda>f. f\<lparr>fw_TrafficClassID := 0\<rparr>) (prev @ forward # rest) = fs) (resolve_forward nodeID node forward prev)
     (\<lambda>prev _. map (\<lambda>f. f\<lparr>fw_TrafficClassID := 0\<rparr>) (prev @ rest) = fs)"
  unfolding resolve_forward_def
  by (rule yields_if, rule yields_return, simp, rule yields_then [where R = "\<lambda>_ _. map (\<lambda>f. f\<lparr>fw_TrafficClassID := 0\<rparr>) (prev @ forward # rest) = fs"])
    (auto simp: yields_def return_def)

lemma resolve_unclassed: "yields P (resolveTrafficClasses nodeID desired) (\<lambda>d _. unclassed d = unclassed desired)"
proof -
  let ?p = "map (\<lambda>p. p\<lparr>up_TrafficClassID := 0\<rparr>)" and ?f = "map (\<lambda>f. f\<lparr>fw_TrafficClassID := 0\<rparr>)"
  have policies: "yields P (loop (resolve_policy nodeID users) (ds_UserPolicies desired) []) (\<lambda>ps _. ?p ps = ?p (ds_UserPolicies desired))" for users
    by (rule yields_weaken [OF yields_loop_rest [where J = "\<lambda>rest prev _. ?p (prev @ rest) = ?p (ds_UserPolicies desired)"]])
      (rule resolve_policy_same, simp_all)
  have forwards: "yields Q (loop (resolve_forward nodeID node) (ds_Forwards desired) []) (\<lambda>fs _. ?f fs = ?f (ds_Forwards desired))" for node Q
    by (rule yields_weaken [OF yields_loop_rest [where J = "\<lambda>rest prev _. ?f (prev @ rest) = ?f (ds_Forwards desired)"]])
      (rule resolve_forward_same, simp_all)
  show ?thesis unfolding resolveTrafficClasses_def
  proof (rule yields_then [OF policies], rule yields_fact, assumption, rule yields_then [OF forwards], rule yields_return)
    fix ps fs assume "?p ps = ?p (ds_UserPolicies desired)" "?f fs = ?f (ds_Forwards desired)"
    then show "unclassed (desired\<lparr>ds_UserPolicies := ps, ds_Forwards := fs\<rparr>) = unclassed desired" by (simp add: unclassed_def)
  qed
qed

lemma unclassed_ids:
  assumes "unclassed d = unclassed e"
  shows "ds_NodeID d = ds_NodeID e" "ds_Generation d = ds_Generation e" "ds_SchemaVersion d = ds_SchemaVersion e"
  using arg_cong [OF assms, of ds_NodeID] arg_cong [OF assms, of ds_Generation] arg_cong [OF assms, of ds_SchemaVersion] by (simp_all add: unclassed_def)

definition new_generation :: "codecs \<Rightarrow> string \<Rightarrow> int \<Rightarrow> SnapshotRecord \<Rightarrow> DesiredState \<Rightarrow> generation_row \<Rightarrow> bool" where
  "new_generation cx nodeID generation snapshot d g \<longleftrightarrow> stores cx g d \<and> ge_node g = nodeID \<and> ge_generation g = generation \<and>
     ge_status g = ''pending'' \<and> sp_NodeID snapshot = nodeID \<and> sp_Generation snapshot = uint64 generation \<and>
     sp_DesiredChecksum snapshot = ge_checksum g \<and> sp_DesiredStateJSON snapshot = ge_state g"

text \<open>What a publication leaves of the ledger \<open>(N, G)\<close>: one more generation of the node, which stores the state.\<close>

definition issued :: "codecs \<Rightarrow> string \<Rightarrow> int \<Rightarrow> DesiredState \<Rightarrow> ledger_view \<Rightarrow> SnapshotRecord \<Rightarrow> database \<Rightarrow> bool" where
  "issued cx nodeID current desired v snapshot db \<longleftrightarrow> current < MaxInt64 \<and>
     (\<exists>d g. new_generation cx nodeID (current + 1) snapshot d g \<and> unclassed d = unclassed desired \<and>
        ledger db = (advance_row nodeID (current + 1) (fst v), snd v @ [g]))"

lemma issued_ok:
  assumes ok: "ledger_view_ok cx v" and row: "(nodeID, current, a, c) \<in> set (fst v)" and "issued cx nodeID current desired v snapshot db"
  shows "ledger_ok cx db"
proof -
  obtain d g where dg: "current < MaxInt64" "new_generation cx nodeID (current + 1) snapshot d g"
      "ledger db = (advance_row nodeID (current + 1) (fst v), snd v @ [g])" using assms(3) by (auto simp: issued_def)
  then have g: "ge_node g = nodeID" "ge_generation g = current + 1" "stores cx g d" by (simp_all add: new_generation_def)
  show ?thesis unfolding ledger_ok_def dg(3) advance_row_def g(1) [symmetric]
    by (rule lg_publish [OF _ _ dg(1) g(2,3)]) (use ok row g(1) in simp_all)
qed

lemma ledger_advance:
  assumes "ledger db = v" "insert_generation g db = Some (db1, n)"
    "write_nodes (\<lambda>n. no_id n = nodeID) (\<lambda>n. n\<lparr>no_desired := d\<rparr>) (insert_event topic nodeID k now db1) = Some (db', m)"
  shows "ledger db' = (advance_row nodeID d (fst v), snd v @ [g])"
  using assms by (auto simp: insert_generation_Some write_nodes_def insert_event_def ledger_def rewrite_def advance_row_def)

lemma store_generation_ledger:
  assumes ok: "ledger_view_ok cx v" and row: "(nodeID, current, a, c) \<in> set (fst v)"
    and d: "\<not> Validate d \<noteq> []" "unclassed d = unclassed desired" and current: "\<not> current = MaxInt64"
    and ids: "ds_NodeID desired = nodeID" "ds_Generation desired = uint64 (current + 1)"
  shows "yields (\<lambda>db. ledger db = v) (store_generation cx nodeID d) (issued cx nodeID current desired v)"
  unfolding store_generation_def
proof (intro forwards, elim exE conjE)
  fix caps encoded checksum createdAt n x now u m db db1 db2 db3
  let ?g = "\<lparr>ge_node = nodeID, ge_generation = int64 (ds_Generation d), ge_schema = ds_SchemaVersion d, ge_checksum = checksum,
      ge_state = encoded, ge_capabilities = caps, ge_status = ''pending'', ge_created = createdAt, ge_applied_at = None\<rparr>"
  let ?s = "\<lparr>sp_NodeID = nodeID, sp_Generation = ds_Generation d, sp_SchemaVersion = ds_SchemaVersion d, sp_DesiredChecksum = checksum,
      sp_DesiredStateJSON = encoded, sp_RequiredCapabilities = caps, sp_CreatedAt = createdAt\<rparr>"
  assume parts: "cx_capabilities cx (RequiredCapabilities d) = Some caps" "EncodeDesiredJSON cx d = Inr encoded" "Checksum (cx_marshal cx) d = Some checksum"
    and steps: "ledger db3 = v" "insert_generation ?g db3 = Some (db2, n)" "db1 = insert_event ''node.snapshot.ready'' nodeID (int64 (ds_Generation d)) now db2"
      "write_nodes (\<lambda>n. no_id n = nodeID) (\<lambda>n. n\<lparr>no_desired := int64 (ds_Generation d)\<rparr>) db1 = Some (db, m)"
  note same = unclassed_ids [OF d(2)]
  have "0 \<le> current" "current < MaxInt64" using ledger_view_okD(5) [of cx "fst v" "snd v"] ok row current by fastforce+
  moreover from this have gen: "int64 (ds_Generation d) = current + 1" unfolding same ids by (intro int64_uint64) (auto simp: MaxInt64_def)
  moreover have "stores cx ?g d" using parts d(1) ids same by (auto simp: stores_def EncodeDesiredJSON_def split: option.splits)
  ultimately have "new_generation cx nodeID (current + 1) ?s d ?g" using same ids by (simp add: new_generation_def)
  moreover have "ledger db = (advance_row nodeID (current + 1) (fst v), snd v @ [?g])"
    using ledger_advance [OF steps(1,2) steps(4) [unfolded steps(3)]] by (simp only: gen)
  ultimately show "issued cx nodeID current desired v ?s db" unfolding issued_def using d(2) \<open>current < MaxInt64\<close> by blast
qed

lemma publishDesiredTx_ledger:
  assumes ok: "ledger_view_ok cx v" and row: "(nodeID, current, a, c) \<in> set (fst v)"
  shows "yields (\<lambda>db. ledger db = v) (publishDesiredTx cx nodeID current desired) (issued cx nodeID current (stamped nodeID current desired) v)"
    (is "yields ?P _ ?Q")
proof -
  let ?D = "stamped nodeID current desired"
  have resolved: "yields ?P (if b then resolveTrafficClasses nodeID ?D else return ?D) (\<lambda>d db. ?P db \<and> unclassed d = unclassed ?D)" for b
  proof (rule yields_if)
    have "steady (\<lambda>s. ledger (se_db s)) (resolveTrafficClasses nodeID ?D)" by (rule resolveTrafficClasses_steady) (simp add: ledger_def)
    then have "yields ?P (resolveTrafficClasses nodeID ?D) (\<lambda>_. ?P)" by (rule yields_frame) simp
    then show "yields ?P (resolveTrafficClasses nodeID ?D) (\<lambda>d db. ?P db \<and> unclassed d = unclassed ?D)" by (rule yields_both) (rule resolve_unclassed)
  qed (intro forwards, simp)
  have synced: "yields ?P (syncServiceVIPBindings d) (\<lambda>_. ?P)" for d
    by (rule yields_frame [OF syncServiceVIPBindings_steady [of ledger]]) (simp_all add: ledger_def)
  show ?thesis unfolding publishDesiredTx_def Let_def
  proof (rule yields_guard, rule yields_then [OF resolved], rule yields_fact, erule conjunct2, rule yields_guard)
    fix d assume d: "unclassed d = unclassed ?D" "\<not> Validate d \<noteq> []" and current: "\<not> current = MaxInt64"
    have "yields (\<lambda>db. ?P db \<and> unclassed d = unclassed ?D) (syncServiceVIPBindings d) (\<lambda>_. ?P)" by (rule yields_weaken [OF synced]) auto
    then show "yields (\<lambda>db. ?P db \<and> unclassed d = unclassed ?D) (andthen (syncServiceVIPBindings d) (\<lambda>_. store_generation cx nodeID d)) ?Q"
      by (rule yields_then) (rule store_generation_ledger [OF ok row d(2,1) current], simp_all add: stamped_def)
  qed
qed

end
