(* ===== verification/Store_Rollout.thy ===== *)
theory Store_Rollout
  imports Store_Ledger
begin

text \<open>
  The engine of cluster rollouts (\<open>cluster.go\<close>): a rollout is a sequence of stages; a stage publishes its targets
  and waits for their acknowledgements, or bakes for a while; the last stage commits the placements; a failure
  appends a compensation stage with the states the nodes had before. Constraints on the columns of audits, plans
  and rollouts that the values written here satisfy are not repeated, and the count that \<open>AdvanceClusterRollouts\<close>
  returns beside an error is left out.
\<close>

section \<open>Rows\<close>

definition active_rollout :: "rollout_row \<Rightarrow> bool" where
  "active_rollout r \<longleftrightarrow> ro_status r \<in> {''publishing'', ''awaiting_ack'', ''baking'', ''rollback_pending'', ''rolling_back''}"

definition rollout_of :: "database \<Rightarrow> int \<Rightarrow> rollout_row option" where
  "rollout_of db rolloutID = List.find (\<lambda>r. ro_id r = rolloutID) (db_rollouts db)"

definition at_stage :: "int \<Rightarrow> int \<Rightarrow> stage_row \<Rightarrow> bool" where
  "at_stage rolloutID stageOrder s \<longleftrightarrow> sg_rollout s = rolloutID \<and> sg_order s = stageOrder"

definition stage_of :: "database \<Rightarrow> int \<Rightarrow> int \<Rightarrow> stage_row option" where
  "stage_of db rolloutID stageOrder = List.find (at_stage rolloutID stageOrder) (db_stages db)"

definition stage_targets :: "database \<Rightarrow> int \<Rightarrow> int \<Rightarrow> target_row list" where
  "stage_targets db rolloutID stageOrder = filter (\<lambda>t. ta_rollout t = rolloutID \<and> ta_stage t = stageOrder) (db_targets db)"

definition write_stage :: "int \<Rightarrow> int \<Rightarrow> (stage_row \<Rightarrow> stage_row) \<Rightarrow> database \<Rightarrow> database" where
  "write_stage rolloutID stageOrder f db = db\<lparr>db_stages := rewrite (at_stage rolloutID stageOrder) f (db_stages db)\<rparr>"

definition write_rollout :: "int \<Rightarrow> (rollout_row \<Rightarrow> rollout_row) \<Rightarrow> database \<Rightarrow> database" where
  "write_rollout rolloutID f db = db\<lparr>db_rollouts := rewrite (\<lambda>r. ro_id r = rolloutID) f (db_rollouts db)\<rparr>"

definition write_plan :: "string \<Rightarrow> (plan_row \<Rightarrow> plan_row) \<Rightarrow> database \<Rightarrow> database" where
  "write_plan planID f db = db\<lparr>db_plans := rewrite (\<lambda>p. cp_id p = planID) f (db_plans db)\<rparr>"

definition truncateClusterError :: "string \<Rightarrow> string" where
  "truncateClusterError message = take 2048 (filter (\<lambda>c. code c \<noteq> 0) message)"

definition insertClusterAudit :: "string \<Rightarrow> u64 \<Rightarrow> string \<Rightarrow> string \<Rightarrow> string \<Rightarrow> unit sql" where
  "insertClusterAudit planID revision actor action subject =
     exec_all ''insert cluster audit'' (\<lambda>db. db\<lparr>db_cluster_audits := db_cluster_audits db @
       [\<lparr>cu_plan = (if planID = [] then None else Some planID), cu_revision = (if revision = 0 then None else Some (int64 revision)),
         cu_actor = actor, cu_action = action, cu_subject = subject\<rparr>]\<rparr>)"

definition show_rollout :: "int \<Rightarrow> string" where
  "show_rollout rolloutID = show_int rolloutID"

section \<open>Publication of a stage\<close>

definition publish_target :: "codecs \<Rightarrow> int \<Rightarrow> int \<Rightarrow> target_row \<Rightarrow> SnapshotRecord list \<Rightarrow> SnapshotRecord list sql" where
  "publish_target cx rolloutID stageOrder target records =
     andthen (query_row ''lock node for rollout stage'' (\<lambda>db. map_option no_desired (node_of db (ta_node target)))) (\<lambda>current.
     andthen (failing (StoreWrapped ''decode rollout stage target'') (unless_error (DecodeDesiredJSON cx (ta_state target)))) (\<lambda>desired.
     andthen (failing (StoreWrapped ''publish rollout stage target'') (publishDesiredTx cx (ta_node target) current desired)) (\<lambda>record.
     andthen (exec_all ''record rollout stage publication'' (\<lambda>db. db\<lparr>db_targets := rewrite
         (\<lambda>t. ta_rollout t = rolloutID \<and> ta_stage t = stageOrder \<and> ta_node t = ta_node target)
         (\<lambda>t. t\<lparr>ta_previous := current, ta_generation := Some (int64 (sp_Generation record)), ta_checksum := Some (sp_DesiredChecksum record),
           ta_status := ''pending'', ta_error := [], ta_applied_at := None, ta_state := sp_DesiredStateJSON record\<rparr>) (db_targets db)\<rparr>)) (\<lambda>_.
     return (records @ [record])))))"

definition publishClusterStageTx :: "codecs \<Rightarrow> int \<Rightarrow> int \<Rightarrow> time \<Rightarrow> SnapshotRecord list sql" where
  "publishClusterStageTx cx rolloutID stageOrder now =
     andthen (query_row ''lock cluster rollout stage'' (\<lambda>db. stage_of db rolloutID stageOrder)) (\<lambda>stage.
     if sg_status stage \<in> {''completed'', ''awaiting_ack'', ''baking''} then return []
     else if sg_status stage \<noteq> ''pending'' then throw (StoreMessage (''cluster rollout stage cannot publish from status '' @ sg_status stage))
     else if sg_phase stage = RolloutPhaseBake then
       andthen (exec_all ''start cluster rollout bake stage'' (write_stage rolloutID stageOrder (\<lambda>s. s\<lparr>sg_status := ''baking'', sg_started := Some now\<rparr>))) (\<lambda>_.
       andthen (exec_all ''mark cluster rollout baking'' (write_rollout rolloutID (\<lambda>r. r\<lparr>ro_status := ''baking'', ro_current := stageOrder,
           ro_bake_until := Some (now + sg_bake_seconds stage * Second)\<rparr>))) (\<lambda>_.
       return []))
     else
       andthen (query ''read cluster rollout stage targets'' (\<lambda>db. sort_less (\<lambda>a b. ta_node a < ta_node b)
           (filter (\<lambda>t. ta_status t = ''queued'') (stage_targets db rolloutID stageOrder)))) (\<lambda>targets.
       andthen (loop (publish_target cx rolloutID stageOrder) targets []) (\<lambda>records.
       if targets = [] then
         andthen (exec_all ''complete empty cluster rollout stage'' (write_stage rolloutID stageOrder
             (\<lambda>s. s\<lparr>sg_status := ''completed'', sg_started := Some now, sg_completed := Some now\<rparr>))) (\<lambda>_. return records)
       else
         andthen (exec_all ''mark cluster rollout stage awaiting ACK'' (write_stage rolloutID stageOrder
             (\<lambda>s. s\<lparr>sg_status := ''awaiting_ack'', sg_started := Some now\<rparr>))) (\<lambda>_.
         andthen (exec_all ''mark cluster rollout awaiting ACK'' (write_rollout rolloutID (\<lambda>r. r\<lparr>ro_status := ''awaiting_ack'',
             ro_current := stageOrder, ro_bake_until := None\<rparr>))) (\<lambda>_.
         return records)))))"

section \<open>Completion\<close>

definition DecodePlanJSON :: "codecs \<Rightarrow> string \<Rightarrow> store_error + Plan" where
  "DecodePlanJSON cx encoded =
     (if length encoded > 64 * 2 ^ 20 then Inl (StoreMessage ''cluster plan exceeds 67108864 bytes'')
      else case cx_plan cx encoded of None \<Rightarrow> Inl (StoreMessage ''decode cluster plan'')
      | Some (plan, follows) \<Rightarrow>
        if follows then Inl (StoreMessage ''decode cluster plan: trailing JSON content'')
        else if Plan_Validate (cx_to_ascii cx) plan \<noteq> [] then Inl (InvalidState (Plan_Validate (cx_to_ascii cx) plan))
        else Inr plan)"

definition put_placement :: "Plan \<Rightarrow> (string \<rightharpoonup> Addr) \<Rightarrow> Placement \<Rightarrow> database \<Rightarrow> (database \<times> nat) option" where
  "put_placement plan vips placement db =
     (let row = \<lparr>fp_plan = pl_ID plan, fp_revision = int64 (pl_Revision plan), fp_placement = placement,
            fp_vip = (if pm_ExitID placement = [] then None
              else Some (Addr_String (case vips (pm_ForwardID placement) of None \<Rightarrow> NoAddr | Some a \<Rightarrow> a)))\<rparr> in
      if ep_Port (pm_Target placement) = 0 \<or> node_of db (pm_IngressID placement) = None \<or>
         pm_ExitID placement \<noteq> [] \<and> node_of db (pm_ExitID placement) = None then None
      else Some (db\<lparr>db_placements := upsert (\<lambda>p. fp_plan p = pl_ID plan \<and> pm_ForwardID (fp_placement p) = pm_ForwardID placement)
        (\<lambda>_. row) row (db_placements db)\<rparr>, 1))"

definition replacePlacements :: "Plan \<Rightarrow> Placement list \<Rightarrow> (string \<rightharpoonup> Addr) \<Rightarrow> unit sql" where
  "replacePlacements plan placements vips =
     andthen (loop (\<lambda>placement ids. andthen (exec ''store cluster placement'' (put_placement plan vips placement)) (\<lambda>_.
         return (ids @ [pm_ForwardID placement]))) placements []) (\<lambda>ids.
     exec_all ''remove stale cluster placements'' (\<lambda>db. db\<lparr>db_placements :=
       delete_where (\<lambda>p. fp_plan p = pl_ID plan \<and> pm_ForwardID (fp_placement p) \<notin> set ids) (db_placements db)\<rparr>))"

definition removeRetiredNodeProfiles :: "Plan \<Rightarrow> unit sql" where
  "removeRetiredNodeProfiles plan =
     exec_all ''remove retired scheduling profiles'' (\<lambda>db. db\<lparr>db_profiles :=
       delete_where (\<lambda>p. pr_plan p = pl_ID plan \<and> pr_node p \<notin> nd_ID ` set (pl_Nodes plan)) (db_profiles db)\<rparr>)"

definition plan_of :: "database \<Rightarrow> string \<Rightarrow> u64 \<Rightarrow> string option" where
  "plan_of db planID revision = map_option cr_plan (List.find (\<lambda>r. cr_plan_id r = planID \<and> cr_revision r = int64 revision) (db_revisions db))"

definition read_plan :: "codecs \<Rightarrow> string \<Rightarrow> string \<Rightarrow> string \<Rightarrow> u64 \<Rightarrow> Plan sql" where
  "read_plan cx reading decoding planID revision =
     andthen (query_row reading (\<lambda>db. plan_of db planID revision)) (\<lambda>encoded.
     failing (StoreWrapped decoding) (unless_error (DecodePlanJSON cx encoded)))"

text \<open>An empty detail is the zero value.\<close>

definition no_detail :: rollout_detail where
  "no_detail = \<lparr>rd_commit_placements = False, rd_placements = [], rd_service_vips = Map.empty, rd_canary_forwards = []\<rparr>"

definition next_stage :: "database \<Rightarrow> int \<Rightarrow> int \<Rightarrow> int option" where
  "next_stage db rolloutID stageOrder =
     (case sort (map sg_order (filter (\<lambda>s. sg_rollout s = rolloutID \<and> sg_order s > stageOrder \<and> sg_status s = ''pending'') (db_stages db))) of
        [] \<Rightarrow> None | k # _ \<Rightarrow> Some k)"

definition commit_rollout :: "codecs \<Rightarrow> int \<Rightarrow> string \<Rightarrow> u64 \<Rightarrow> string \<Rightarrow> time \<Rightarrow> string \<Rightarrow> unit sql" where
  "commit_rollout cx rolloutID planID revision detailJSON now actor =
     andthen (if detailJSON = [] then return no_detail else or_message ''decode cluster rollout completion detail'' (cx_detail cx detailJSON)) (\<lambda>detail.
     andthen (if rd_commit_placements detail then
         andthen (read_plan cx ''read completed cluster rollout plan'' ''decode completed cluster rollout plan'' planID revision) (\<lambda>plan.
         andthen (replacePlacements plan (rd_placements detail) (rd_service_vips detail)) (\<lambda>_.
         removeRetiredNodeProfiles plan)) else return ()) (\<lambda>_.
     andthen (exec_all ''complete cluster rollout'' (write_rollout rolloutID (\<lambda>r. r\<lparr>ro_status := ''completed'', ro_completed := Some now, ro_bake_until := None\<rparr>))) (\<lambda>_.
     andthen (exec_all ''wake completed cluster plan'' (write_plan planID (\<lambda>p. p\<lparr>cp_last_error := None, cp_reconcile_after := now\<rparr>))) (\<lambda>_.
     insertClusterAudit planID revision actor ''cluster_rollout_applied'' (show_rollout rolloutID)))))"

definition completeClusterStageTx :: "codecs \<Rightarrow> int \<Rightarrow> string \<Rightarrow> u64 \<Rightarrow> int \<Rightarrow> string \<Rightarrow> string \<Rightarrow> time \<Rightarrow> string \<Rightarrow> unit sql" where
  "completeClusterStageTx cx rolloutID planID revision stageOrder phase detailJSON now actor =
     andthen (exec_all ''complete cluster rollout stage'' (write_stage rolloutID stageOrder (\<lambda>s. s\<lparr>sg_status := ''completed'', sg_completed := Some now\<rparr>))) (\<lambda>_.
     if phase = RolloutPhaseCompensate then
       andthen (exec_all ''complete cluster rollout compensation'' (write_rollout rolloutID (\<lambda>r. r\<lparr>ro_status := ''rolled_back'', ro_completed := Some now, ro_bake_until := None\<rparr>))) (\<lambda>_.
       insertClusterAudit planID revision actor ''cluster_rollout_compensated'' (show_rollout rolloutID))
     else
       andthen (query ''read next cluster rollout stage'' (\<lambda>db. next_stage db rolloutID stageOrder)) (\<lambda>next.
       case next of
         Some nextStage \<Rightarrow>
           andthen (exec_all ''advance cluster rollout stage pointer'' (write_rollout rolloutID (\<lambda>r. r\<lparr>ro_status := ''publishing'', ro_current := nextStage, ro_bake_until := None\<rparr>))) (\<lambda>_.
           andthen (publishClusterStageTx cx rolloutID nextStage now) (\<lambda>_. return ()))
       | None \<Rightarrow> commit_rollout cx rolloutID planID revision detailJSON now actor))"

section \<open>Failure\<close>

definition requestClusterRollbackTx :: "int \<Rightarrow> string \<Rightarrow> u64 \<Rightarrow> int \<Rightarrow> string \<Rightarrow> bool \<Rightarrow> string \<Rightarrow> string \<Rightarrow> time \<Rightarrow> unit sql" where
  "requestClusterRollbackTx rolloutID planID revision stageOrder phase autoRollback message0 actor now =
     (let message = truncateClusterError message0; terminal = (phase = RolloutPhaseCompensate \<or> \<not> autoRollback) in
      andthen (exec_all ''fail cluster rollout stage'' (write_stage rolloutID stageOrder (\<lambda>s. s\<lparr>sg_status := ''failed'', sg_completed := Some now\<rparr>))) (\<lambda>_.
      andthen (exec_all ''record cluster rollout failure'' (write_rollout rolloutID (\<lambda>r. r\<lparr>ro_status := (if terminal then ''failed'' else ''rollback_pending''),
          ro_failure := message, ro_completed := (if terminal then Some now else None), ro_bake_until := None\<rparr>))) (\<lambda>_.
      andthen (exec_all ''pause failed cluster plan'' (write_plan planID (\<lambda>p. p\<lparr>cp_paused := coalesce (cp_paused p) now, cp_last_error := Some message\<rparr>))) (\<lambda>_.
      insertClusterAudit planID revision actor (if terminal then ''cluster_rollout_failed'' else ''cluster_rollout_compensation_requested'') (show_rollout rolloutID)))))"

definition compensation_stage :: "database \<Rightarrow> int \<Rightarrow> int option" where
  "compensation_stage db rolloutID =
     (case sort (map sg_order (filter (\<lambda>s. sg_rollout s = rolloutID \<and> sg_phase s = RolloutPhaseCompensate) (db_stages db))) of
        [] \<Rightarrow> None | orders \<Rightarrow> Some (last orders))"

definition last_stage :: "database \<Rightarrow> int \<Rightarrow> int" where
  "last_stage db rolloutID = (case sort (map sg_order (filter (\<lambda>s. sg_rollout s = rolloutID) (db_stages db))) of [] \<Rightarrow> 0 | orders \<Rightarrow> last orders)"

definition insert_stage :: "stage_row \<Rightarrow> database \<Rightarrow> (database \<times> nat) option" where
  "insert_stage stage db = map_option (\<lambda>ss. (db\<lparr>db_stages := ss\<rparr>, 1)) (insert_row (at_stage (sg_rollout stage) (sg_order stage)) stage (db_stages db))"

definition compensation_targets :: "int \<Rightarrow> int \<Rightarrow> database \<Rightarrow> target_row list" where
  "compensation_targets rolloutID stageOrder db =
     map (\<lambda>b. \<lparr>ta_rollout = rolloutID, ta_stage = stageOrder, ta_node = bl_node b, ta_previous = 0, ta_generation = None, ta_checksum = None,
       ta_state = bl_state b, ta_status = ''queued'', ta_error = [], ta_applied_at = None\<rparr>)
       (sort_less (\<lambda>a b. bl_node a < bl_node b) (filter (\<lambda>b. bl_rollout b = rolloutID \<and>
         list_ex (\<lambda>t. ta_rollout t = rolloutID \<and> ta_node t = bl_node b \<and> ta_generation t \<noteq> None) (db_targets db)) (db_baselines db)))"

definition rolling_back :: "int \<Rightarrow> int \<Rightarrow> database \<Rightarrow> database" where
  "rolling_back rolloutID stageOrder = write_rollout rolloutID (\<lambda>r. r\<lparr>ro_status := ''rolling_back'', ro_current := stageOrder, ro_bake_until := None\<rparr>)"

definition ensureCompensationStage :: "int \<Rightarrow> int sql" where
  "ensureCompensationStage rolloutID =
     andthen (query ''read cluster compensation stage'' (\<lambda>db. compensation_stage db rolloutID)) (\<lambda>row.
     case row of
       Some existing \<Rightarrow> andthen (exec_all ''resume cluster compensation stage'' (rolling_back rolloutID existing)) (\<lambda>_. return existing)
     | None \<Rightarrow>
       andthen (query ''allocate cluster compensation stage'' (\<lambda>db. last_stage db rolloutID + 1)) (\<lambda>stageOrder.
       andthen (exec ''create cluster compensation stage'' (insert_stage \<lparr>sg_rollout = rolloutID, sg_order = stageOrder, sg_wave = RolloutWaveCompensation,
           sg_phase = RolloutPhaseCompensate, sg_status = ''pending'', sg_bake_seconds = 0, sg_started = None, sg_completed = None\<rparr>)) (\<lambda>_.
       andthen (exec_all ''create cluster compensation targets'' (\<lambda>db. db\<lparr>db_targets := db_targets db @ compensation_targets rolloutID stageOrder db\<rparr>)) (\<lambda>_.
       andthen (exec_all ''start cluster compensation'' (rolling_back rolloutID stageOrder)) (\<lambda>_.
       return stageOrder)))))"

section \<open>The canary\<close>

definition loadHealthObservations :: "string \<Rightarrow> (HealthKey \<rightharpoonup> HealthObservation) sql" where
  "loadHealthObservations planID =
     query ''read backend health observations'' (\<lambda>db. map_of (map (\<lambda>b. (bo_key b,
       \<lparr>ho_Status = bo_status b, ho_ResourceVersion = uint64 (bo_version b), ho_ObservedAt = bo_observed b\<rparr>))
       (rev (filter (\<lambda>b. bo_plan b = planID) (db_observations db)))))"

definition backendPoolExplicitlyUnhealthy :: "BackendPool \<Rightarrow> string \<Rightarrow> (HealthKey \<rightharpoonup> HealthObservation) \<Rightarrow> time \<Rightarrow> bool" where
  "backendPoolExplicitlyUnhealthy pool probeNode observations now =
     (case bp_Health pool of None \<Rightarrow> False
      | Some health \<Rightarrow>
        bp_Backends pool \<noteq> [] \<and>
        list_all (\<lambda>backend. case observations (probeNode, bp_ID pool, be_ID backend) of None \<Rightarrow> False
          | Some o' \<Rightarrow> ho_ResourceVersion o' = be_ResourceVersion backend \<and> \<not> ho_ObservedAt o' > now + 5 * 60 * Second \<and>
              now - ho_ObservedAt o' \<le> int (unat (hp_StaleAfterSeconds health)) * Second \<and> ho_Status o' = StatusUnhealthy) (bp_Backends pool))"

text \<open>The last entry of a list with a key, as a map built in its order has it.\<close>

definition by_key :: "('a \<Rightarrow> string) \<Rightarrow> 'a list \<Rightarrow> string \<rightharpoonup> 'a" where
  "by_key key xs = map_of (map (\<lambda>x. (key x, x)) (rev xs))"

definition canary_fails :: "Plan \<Rightarrow> rollout_detail \<Rightarrow> (HealthKey \<rightharpoonup> HealthObservation) \<Rightarrow> time \<Rightarrow> string \<Rightarrow> bool" where
  "canary_fails plan detail observations now forwardID =
     (case by_key cf_ID (pl_Forwards plan) forwardID of None \<Rightarrow> False
      | Some forward \<Rightarrow>
        (case by_key bp_ID (pl_BackendPools plan) (cf_BackendPoolID forward) of None \<Rightarrow> False
         | Some pool \<Rightarrow>
           (let probeNode = (case by_key pm_ForwardID (rd_placements detail) forwardID of None \<Rightarrow> []
                | Some placement \<Rightarrow> if pm_PathMode placement = PathViaExit then pm_ExitID placement else pm_IngressID placement)
            in backendPoolExplicitlyUnhealthy pool probeNode observations now)))"

definition canaryBakeFailure :: "codecs \<Rightarrow> string \<Rightarrow> u64 \<Rightarrow> string \<Rightarrow> time \<Rightarrow> string sql" where
  "canaryBakeFailure cx planID revision detailJSON now =
     andthen (or_message ''decode canary rollout detail'' (cx_detail cx detailJSON)) (\<lambda>detail.
     if rd_canary_forwards detail = [] then return []
     else
       andthen (read_plan cx ''read canary cluster plan'' ''decode canary cluster plan'' planID revision) (\<lambda>plan.
       andthen (loadHealthObservations planID) (\<lambda>observations.
       return (case List.find (canary_fails plan detail observations now) (rd_canary_forwards detail) of None \<Rightarrow> [] | Some forwardID \<Rightarrow> forwardID))))"

section \<open>Advance\<close>

definition clusterRolloutACKTimeout :: duration where "clusterRolloutACKTimeout = 10 * 60 * Second"

definition advance_acks :: "codecs \<Rightarrow> rollout_row \<Rightarrow> stage_row \<Rightarrow> time \<Rightarrow> string \<Rightarrow> bool sql" where
  "advance_acks cx r stage now actor =
     andthen (query ''count pending cluster rollout stage ACKs'' (\<lambda>db. length (filter (\<lambda>t. ta_status t \<noteq> ''applied'') (stage_targets db (ro_id r) (ro_current r))))) (\<lambda>pending.
     if pending = 0 then
       andthen (completeClusterStageTx cx (ro_id r) (ro_plan r) (uint64 (ro_revision r)) (ro_current r) (sg_phase stage) (ro_detail r) now actor) (\<lambda>_. return True)
     else case sg_started stage of
       Some startedAt \<Rightarrow>
         if now - startedAt \<ge> clusterRolloutACKTimeout then
           andthen (requestClusterRollbackTx (ro_id r) (ro_plan r) (uint64 (ro_revision r)) (ro_current r) (sg_phase stage) (ro_auto_rollback r)
             (''rollout '' @ show_rollout (ro_id r) @ '' stage '' @ show_rollout (ro_current r) @ '' did not receive all Agent ACKs within 10m0s'') actor now) (\<lambda>_. return True)
         else return False
     | None \<Rightarrow> return False)"

definition advance_bake :: "codecs \<Rightarrow> rollout_row \<Rightarrow> stage_row \<Rightarrow> time \<Rightarrow> string \<Rightarrow> bool sql" where
  "advance_bake cx r stage now actor =
     andthen (canaryBakeFailure cx (ro_plan r) (uint64 (ro_revision r)) (ro_detail r) now) (\<lambda>failedForward.
     if failedForward \<noteq> [] then
       andthen (requestClusterRollbackTx (ro_id r) (ro_plan r) (uint64 (ro_revision r)) (ro_current r) (sg_phase stage) (ro_auto_rollback r)
         (''canary forward '' @ failedForward @ '' has no fresh healthy backend during bake'') actor now) (\<lambda>_. return True)
     else if (case ro_bake_until r of None \<Rightarrow> False | Some bakeUntil \<Rightarrow> Before now bakeUntil) then return False
     else andthen (completeClusterStageTx cx (ro_id r) (ro_plan r) (uint64 (ro_revision r)) (ro_current r) (sg_phase stage) (ro_detail r) now actor) (\<lambda>_. return True))"

definition advanceClusterRolloutTx :: "codecs \<Rightarrow> int \<Rightarrow> time \<Rightarrow> string \<Rightarrow> bool sql" where
  "advanceClusterRolloutTx cx rolloutID now actor =
     andthen (query_row ''read active cluster rollout'' (\<lambda>db. rollout_of db rolloutID)) (\<lambda>r.
     if ro_status r = ''rollback_pending'' then
       andthen (ensureCompensationStage rolloutID) (\<lambda>stageOrder.
       andthen (publishClusterStageTx cx rolloutID stageOrder now) (\<lambda>_. return True))
     else
       andthen (query_row ''read current cluster rollout stage'' (\<lambda>db. stage_of db rolloutID (ro_current r))) (\<lambda>stage.
       if ro_status r = ''publishing'' \<or> ro_status r = ''rolling_back'' then
         (if sg_status stage = ''completed'' then
            andthen (completeClusterStageTx cx rolloutID (ro_plan r) (uint64 (ro_revision r)) (ro_current r) (sg_phase stage) (ro_detail r) now actor) (\<lambda>_. return True)
          else andthen (publishClusterStageTx cx rolloutID (ro_current r) now) (\<lambda>_. return True))
       else if ro_status r = ''awaiting_ack'' then advance_acks cx r stage now actor
       else if ro_status r = ''baking'' then advance_bake cx r stage now actor
       else throw (StoreMessage (''cluster rollout has unsupported active status '' @ ro_status r))))"

definition active_plans :: "database \<Rightarrow> string list" where
  "active_plans db = sort (map cp_id (filter (\<lambda>p. list_ex (\<lambda>r. ro_plan r = cp_id p \<and> active_rollout r) (db_rollouts db)) (db_plans db)))"

definition first_active :: "database \<Rightarrow> string \<Rightarrow> int option" where
  "first_active db planID = (case sort (map ro_id (filter (\<lambda>r. ro_plan r = planID \<and> active_rollout r) (db_rollouts db))) of [] \<Rightarrow> None | k # _ \<Rightarrow> Some k)"

definition advance_plan :: "codecs \<Rightarrow> string \<Rightarrow> time \<Rightarrow> string \<Rightarrow> nat \<Rightarrow> nat sql" where
  "advance_plan cx actor now planID advanced =
     andthen (query ''lock active cluster rollout'' (\<lambda>db. first_active db planID)) (\<lambda>row.
     case row of None \<Rightarrow> return advanced
     | Some rolloutID \<Rightarrow>
       andthen (advanceClusterRolloutTx cx rolloutID now actor) (\<lambda>changed.
       return (if changed then Suc advanced else advanced)))"

definition AdvanceClusterRollouts :: "codecs \<Rightarrow> string \<Rightarrow> int \<Rightarrow> time \<Rightarrow> nat sql" where
  "AdvanceClusterRollouts cx owner limit now =
     andthen (guard (owner = [] \<or> limit < 1 \<or> limit > 100) (StoreMessage ''invalid cluster rollout advancer arguments'')) (\<lambda>_.
     let actor = take 256 (''system:'' @ owner) in
     transaction ''begin cluster rollout advancement''
       (andthen (query ''claim active cluster rollout plans'' (\<lambda>db. take (nat limit) (active_plans db))) (\<lambda>planIDs.
        andthen (loop (advance_plan cx actor now) planIDs 0) (\<lambda>advanced.
        return (Commit ''commit cluster rollout advancement'' advanced)))))"

section \<open>Acknowledgements\<close>

record ApplyRecord =
  ar_NodeID :: string
  ar_Generation :: u64
  ar_DesiredChecksum :: string
  ar_ProgramChecksum :: string
  ar_Status :: string
  ar_ErrorCode :: string
  ar_ErrorMessage :: string
  ar_ObservedAt :: time

definition acked_target :: "ApplyRecord \<Rightarrow> target_row \<Rightarrow> bool" where
  "acked_target record t \<longleftrightarrow> ta_node t = ar_NodeID record \<and> ta_generation t = Some (int64 (ar_Generation record)) \<and>
     (ta_status t \<noteq> ''applied'' \<or> ar_Status record = ''applied'')"

definition ack_target :: "ApplyRecord \<Rightarrow> target_row \<Rightarrow> target_row" where
  "ack_target record t = t\<lparr>
     ta_status := (if ta_status t = ''applied'' \<and> ar_Status record \<noteq> ''applied'' then ta_status t else ar_Status record),
     ta_error := (if ta_status t = ''applied'' \<and> ar_Status record \<noteq> ''applied'' then ta_error t else truncateClusterError (ar_ErrorMessage record)),
     ta_applied_at := (if ar_Status record = ''applied'' then Some (ar_ObservedAt record) else ta_applied_at t)\<rparr>"

definition ack_match :: "ApplyRecord \<Rightarrow> int \<times> int \<Rightarrow> unit \<Rightarrow> unit sql" where
  "ack_match record match _ =
     (case match of (rolloutID, stageOrder) \<Rightarrow>
       andthen (query_row ''lock cluster rollout ACK'' (\<lambda>db. rollout_of db rolloutID)) (\<lambda>r.
       if ro_status r \<in> {''completed'', ''rolled_back'', ''failed''} then return ()
       else if ar_Status record = ''permanent_error'' then
         andthen (query_row ''read failed cluster rollout stage'' (\<lambda>db. map_option sg_phase (stage_of db rolloutID stageOrder))) (\<lambda>phase.
         requestClusterRollbackTx rolloutID (ro_plan r) (uint64 (ro_revision r)) stageOrder phase (ro_auto_rollback r)
           (''node '' @ ar_NodeID record @ '' generation '' @ show_nat (unat (ar_Generation record)) @ '': '' @ ar_ErrorMessage record)
           ''system:controller'' (ar_ObservedAt record))
       else return ()))"

definition recordClusterRolloutACKTx :: "ApplyRecord \<Rightarrow> unit sql" where
  "recordClusterRolloutACKTx record =
     andthen (query ''update cluster rollout ACK'' (\<lambda>db. map (\<lambda>t. (ta_rollout t, ta_stage t)) (filter (acked_target record) (db_targets db)))) (\<lambda>matches.
     andthen (exec_all ''update cluster rollout ACK'' (\<lambda>db. db\<lparr>db_targets := rewrite (acked_target record) (ack_target record) (db_targets db)\<rparr>)) (\<lambda>_.
     loop (ack_match record) matches ()))"

end
