(* ===== verification/Store_Policies.thy ===== *)
theory Store_Policies
  imports Store_Rollout
begin

text \<open>
  What agents report and what the controller does about it (\<open>store.go\<close>): acknowledgements of generations, batches
  of usage with the quotas they exhaust, and the policies that time enforces. Each may publish the next
  generation of the node in the same transaction. The JSON detail of a policy audit repeats values of the
  state and is left out.
\<close>

section \<open>Acknowledgements\<close>

definition ack_statuses :: "string set" where
  "ack_statuses = {''applied'', ''retryable_error'', ''permanent_error''}"

definition insert_ack :: "ApplyRecord \<Rightarrow> database \<Rightarrow> (database \<times> nat) option" where
  "insert_ack record db = (if ar_Status record \<notin> ack_statuses then None
     else Some (db\<lparr>db_acks := db_acks db @ [\<lparr>ak_node = ar_NodeID record, ak_generation = int64 (ar_Generation record),
       ak_checksum = ar_DesiredChecksum record, ak_program = (if ar_ProgramChecksum record = [] then None else Some (ar_ProgramChecksum record)),
       ak_status = ar_Status record, ak_error_code = ar_ErrorCode record, ak_error_message = ar_ErrorMessage record, ak_observed = ar_ObservedAt record\<rparr>]\<rparr>, 1))"

definition ack_generation :: "ApplyRecord \<Rightarrow> database \<Rightarrow> database" where
  "ack_generation record db = db\<lparr>db_generations := rewrite
     (\<lambda>g. ge_node g = ar_NodeID record \<and> ge_generation g = int64 (ar_Generation record))
     (\<lambda>g. g\<lparr>ge_status := (if ge_status g = ''applied'' \<and> ar_Status record \<noteq> ''applied'' then ge_status g else ar_Status record),
       ge_applied_at := (if ar_Status record = ''applied'' then Some (ar_ObservedAt record) else ge_applied_at g)\<rparr>) (db_generations db)\<rparr>"

definition ack_node :: "ApplyRecord \<Rightarrow> database \<Rightarrow> (database \<times> nat) option" where
  "ack_node record = write_nodes (\<lambda>n. no_id n = ar_NodeID record \<and> no_applied n \<le> int64 (ar_Generation record))
     (\<lambda>n. n\<lparr>no_applied := int64 (ar_Generation record), no_applied_checksum := Some (ar_DesiredChecksum record),
       no_applied_program := Some (ar_ProgramChecksum record), no_last_seen := Some (ar_ObservedAt record)\<rparr>)"

definition policy_audit :: "string \<Rightarrow> u64 \<Rightarrow> string \<Rightarrow> string \<Rightarrow> unit sql" where
  "policy_audit nodeID generation action subject = exec_all ''record policy audit'' (\<lambda>db. db\<lparr>db_policy_audits := db_policy_audits db @
     [\<lparr>pa_node = nodeID, pa_generation = int64 generation, pa_action = action, pa_subject = subject\<rparr>]\<rparr>)"

definition force_removed :: "ForwardSpec \<Rightarrow> bool" where
  "force_removed forward \<longleftrightarrow> fw_Lifecycle forward = LifecycleForceDeleting"

definition after_force :: "codecs \<Rightarrow> ApplyRecord \<Rightarrow> int \<Rightarrow> unit sql" where
  "after_force cx record current =
     andthen (read_state cx ''read applied desired state'' ''decode applied desired state'' (ar_NodeID record) (int64 (ar_Generation record))) (\<lambda>desired.
     if filter force_removed (ds_Forwards desired) = [] then return ()
     else
       andthen (failing (StoreWrapped ''publish post-force cleanup generation'') (publishDesiredTx cx (ar_NodeID record) current
           (desired\<lparr>ds_Forwards := filter (\<lambda>f. \<not> force_removed f) (ds_Forwards desired)\<rparr>))) (\<lambda>next.
       loop (\<lambda>forward _. policy_audit (ar_NodeID record) (sp_Generation next) ''force_remove'' (fw_ID forward))
         (filter force_removed (ds_Forwards desired)) ()))"

definition RecordApplyResult :: "codecs \<Rightarrow> ApplyRecord \<Rightarrow> unit sql" where
  "RecordApplyResult cx record =
     transaction ''begin ACK transaction''
       (andthen (query ''read ACK generation'' (\<lambda>db. map_option ge_checksum (generation_of db (ar_NodeID record) (int64 (ar_Generation record))))) (\<lambda>row.
        case row of None \<Rightarrow> throw ErrGenerationMissing
        | Some expected \<Rightarrow>
          andthen (guard (expected \<noteq> ar_DesiredChecksum record) ErrChecksumMismatch) (\<lambda>_.
          andthen (query_row ''lock node ACK state'' (\<lambda>db. node_of db (ar_NodeID record))) (\<lambda>node.
          andthen (guard (ar_Status record = ''applied'' \<and> no_applied node = int64 (ar_Generation record) \<and>
              no_applied_checksum node \<noteq> Some (ar_DesiredChecksum record)) ErrProgramMismatch) (\<lambda>_.
          andthen (exec ''insert ACK event'' (insert_ack record)) (\<lambda>_.
          andthen (exec_all ''update generation ACK status'' (ack_generation record)) (\<lambda>_.
          andthen (if ar_Status record \<noteq> ''applied'' then return ()
            else andthen (exec ''update node applied generation'' (ack_node record)) (\<lambda>_.
                 if no_desired node = int64 (ar_Generation record) then after_force cx record (no_desired node) else return ())) (\<lambda>_.
          andthen (recordClusterRolloutACKTx record) (\<lambda>_.
          return (Commit ''commit ACK'' ()))))))))))"

section \<open>Usage\<close>

definition insert_batch :: "UsageBatch \<Rightarrow> database \<Rightarrow> (database \<times> nat) option" where
  "insert_batch batch db =
     (if list_ex (\<lambda>b. ba_node b = ub_NodeID batch \<and> ba_epoch b = ub_Epoch batch \<and> ba_sequence b = int64 (ub_Sequence batch)) (db_batches db) then Some (db, 0)
      else Some (db\<lparr>db_batches := db_batches db @ [\<lparr>ba_node = ub_NodeID batch, ba_epoch = ub_Epoch batch, ba_sequence = int64 (ub_Sequence batch),
        ba_generation = int64 (ub_Generation batch), ba_observed = ub_ObservedAt batch\<rparr>]\<rparr>, 1))"

definition delta_of :: "UsageBatch \<Rightarrow> string \<Rightarrow> UsageDelta \<Rightarrow> delta_row" where
  "delta_of batch user delta = \<lparr>de_node = ub_NodeID batch, de_epoch = ub_Epoch batch, de_sequence = int64 (ub_Sequence batch),
     de_forward = ud_ForwardID delta, de_user = user, de_protocol = ud_Protocol delta, de_direction = ud_Direction delta,
     de_version = int64 (ud_ResourceVersion delta), de_packets = int64 (ud_Packets delta), de_bytes = int64 (ud_Bytes delta), de_reset = ud_Reset delta\<rparr>"

definition same_delta :: "delta_row \<Rightarrow> delta_row \<Rightarrow> bool" where
  "same_delta d e \<longleftrightarrow> de_node d = de_node e \<and> de_epoch d = de_epoch e \<and> de_sequence d = de_sequence e \<and> de_forward d = de_forward e \<and>
     de_protocol d = de_protocol e \<and> de_direction d = de_direction e \<and> de_version d = de_version e"

definition insert_delta :: "delta_row \<Rightarrow> database \<Rightarrow> (database \<times> nat) option" where
  "insert_delta d db =
     (if de_version d \<le> 0 \<or> de_packets d < 0 \<or> de_bytes d < 0 then None
      else map_option (\<lambda>ds. (db\<lparr>db_deltas := ds\<rparr>, 1)) (insert_row (same_delta d) d (db_deltas db)))"

definition rolls_up :: "delta_row \<Rightarrow> rollup_row \<Rightarrow> bool" where
  "rolls_up d r \<longleftrightarrow> ru_node r = de_node d \<and> ru_forward r = de_forward d \<and> ru_protocol r = de_protocol d \<and> ru_direction r = de_direction d"

definition add_rollup :: "delta_row \<Rightarrow> database \<Rightarrow> database" where
  "add_rollup d db = db\<lparr>db_rollups := upsert (rolls_up d)
     (\<lambda>r. r\<lparr>ru_user := de_user d, ru_packets := quantity_add (ru_packets r) (de_packets d), ru_bytes := quantity_add (ru_bytes r) (de_bytes d)\<rparr>)
     \<lparr>ru_node = de_node d, ru_forward = de_forward d, ru_user = de_user d, ru_protocol = de_protocol d, ru_direction = de_direction d,
       ru_packets = Exact (de_packets d), ru_bytes = Exact (de_bytes d)\<rparr> (db_rollups db)\<rparr>"

definition forwardHasProtocol :: "ForwardSpec \<Rightarrow> Protocol \<Rightarrow> bool" where
  "forwardHasProtocol forward protocol \<longleftrightarrow> protocol \<in> set (fw_Protocols forward)"

definition record_delta :: "UsageBatch \<Rightarrow> (string \<rightharpoonup> ForwardSpec) \<Rightarrow> UsageDelta \<Rightarrow> unit \<Rightarrow> unit sql" where
  "record_delta batch forwards delta _ =
     andthen (guard (unat (ud_Packets delta) > nat MaxInt64 \<or> unat (ud_Bytes delta) > nat MaxInt64) (StoreMessage ''usage delta exceeds controller range'')) (\<lambda>_.
     case forwards (ud_ForwardID delta) of None \<Rightarrow> throw (StoreMessage ''usage binding is not present in generation'')
     | Some forward \<Rightarrow>
       andthen (guard (fw_ResourceVersion forward \<noteq> ud_ResourceVersion delta \<or> \<not> forwardHasProtocol forward (ud_Protocol delta))
         (StoreMessage ''usage binding is not present in generation'')) (\<lambda>_.
       andthen (exec ''insert usage delta'' (insert_delta (delta_of batch (fw_UserID forward) delta))) (\<lambda>_.
       exec_all ''aggregate usage delta'' (add_rollup (delta_of batch (fw_UserID forward) delta)))))"

text \<open>\<open>SELECT CAST(COALESCE(SUM(bytes),0) AS TEXT)\<close>: the sum of exact values fails when it leaves 64 bits, and one inexact
  value makes the text that of a floating-point number, which \<open>SetString\<close> refuses.\<close>

fun exact_sum :: "quantity list \<Rightarrow> int option" where
  "exact_sum [] = Some 0"
| "exact_sum (Exact a # qs) = map_option (\<lambda>b. a + b) (exact_sum qs)"
| "exact_sum (Inexact # qs) = None"

definition quotaExceeded :: "(rollup_row \<Rightarrow> bool) \<Rightarrow> u64 \<Rightarrow> bool sql" where
  "quotaExceeded p quota =
     andthen (query ''read usage quota total'' (\<lambda>db. exact_sum (map ru_bytes (filter p (db_rollups db))))) (\<lambda>total.
     case total of None \<Rightarrow> throw (StoreMessage ''usage quota total is invalid'')
     | Some value \<Rightarrow>
       andthen (guard (value > MaxInt64) (StoreWrapped ''read usage quota total'' DriverError)) (\<lambda>_.
       return (value \<ge> uint quota)))"

definition paused :: "ForwardSpec \<Rightarrow> ForwardSpec" where
  "paused forward = forward\<lparr>fw_Lifecycle := LifecyclePaused, fw_DrainDeadline := None, fw_ResourceVersion := fw_ResourceVersion forward + 1\<rparr>"

definition quota_user :: "string \<Rightarrow> UserPolicySpec \<Rightarrow> string set \<times> (string \<times> string) list \<Rightarrow> (string set \<times> (string \<times> string) list) sql" where
  "quota_user nodeID policy st =
     (case (up_TrafficQuota policy, st) of
        (None, _) \<Rightarrow> return st
      | (Some quota, pausedUsers, audits) \<Rightarrow>
        andthen (quotaExceeded (\<lambda>r. ru_node r = nodeID \<and> ru_user r = up_UserID policy) (tq_Bytes quota)) (\<lambda>exceeded.
        return (if exceeded then (insert (up_UserID policy) pausedUsers, audits @ [(''user_quota_pause'', up_UserID policy)]) else st)))"

definition quota_action :: "string \<Rightarrow> string set \<Rightarrow> ForwardSpec \<Rightarrow> string sql" where
  "quota_action nodeID pausedUsers forward =
     (if fw_Lifecycle forward = LifecyclePaused \<or> fw_Lifecycle forward = LifecycleForceDeleting then return []
      else if fw_UserID forward \<in> pausedUsers then return ''user_quota_pause''
      else case fw_TrafficQuota forward of None \<Rightarrow> return []
      | Some quota \<Rightarrow>
        andthen (quotaExceeded (\<lambda>r. ru_node r = nodeID \<and> ru_forward r = fw_ID forward) (tq_Bytes quota)) (\<lambda>exceeded.
        return (if exceeded then ''forward_quota_pause'' else [])))"

type_synonym quota_state = "ForwardSpec list \<times> bool \<times> (string \<times> string) list"

definition quota_forward :: "string \<Rightarrow> string set \<Rightarrow> ForwardSpec \<Rightarrow> quota_state \<Rightarrow> quota_state sql" where
  "quota_forward nodeID pausedUsers forward st =
     (case st of (forwards, changed, audits) \<Rightarrow>
       andthen (quota_action nodeID pausedUsers forward) (\<lambda>action.
       return (if action \<noteq> [] then (forwards @ [paused forward], True, audits @ [(action, fw_ID forward)])
         else (forwards @ [forward], changed, audits))))"

definition evaluateQuotas :: "string \<Rightarrow> DesiredState \<Rightarrow> (DesiredState \<times> bool \<times> (string \<times> string) list) sql" where
  "evaluateQuotas nodeID desired =
     andthen (loop (quota_user nodeID) (ds_UserPolicies desired) ({}, [])) (\<lambda>(pausedUsers, audits).
     andthen (loop (quota_forward nodeID pausedUsers) (ds_Forwards desired) ([], False, audits)) (\<lambda>(forwards, changed, audits).
     return (desired\<lparr>ds_Forwards := forwards\<rparr>, changed, audits)))"

definition insertPolicyAudits :: "string \<Rightarrow> u64 \<Rightarrow> (string \<times> string) list \<Rightarrow> unit sql" where
  "insertPolicyAudits nodeID generation audits =
     loop (\<lambda>(action, subject) _. policy_audit nodeID generation action subject) audits ()"

definition enforce_quotas :: "codecs \<Rightarrow> string \<Rightarrow> unit sql" where
  "enforce_quotas cx nodeID =
     andthen (query_row ''lock node for quota evaluation'' (\<lambda>db. map_option no_desired (unrevoked_node db nodeID))) (\<lambda>current.
     if current > 0 then
       andthen (read_state cx ''read current state for quota evaluation'' ''decode current state for quota evaluation'' nodeID current) (\<lambda>currentDesired.
       andthen (evaluateQuotas nodeID currentDesired) (\<lambda>(nextDesired, changed, audits).
       if changed then
         andthen (failing (StoreWrapped ''publish quota policy generation'') (publishDesiredTx cx nodeID current nextDesired)) (\<lambda>next.
         insertPolicyAudits nodeID (sp_Generation next) audits)
       else return ()))
     else return ())"

definition RecordUsageBatch :: "codecs \<Rightarrow> UsageBatch \<Rightarrow> unit sql" where
  "RecordUsageBatch cx batch =
     (case UsageBatch_Validate batch of Some e \<Rightarrow> throw (StoreMessage e)
      | None \<Rightarrow>
        andthen (guard (unat (ub_Sequence batch) > nat MaxInt64 \<or> unat (ub_Generation batch) > nat MaxInt64)
          (StoreMessage ''usage sequence or generation exceeds controller range'')) (\<lambda>_.
        transaction ''begin usage transaction''
          (andthen (query ''read usage generation'' (\<lambda>db. map_option ge_state (generation_of db (ub_NodeID batch) (int64 (ub_Generation batch))))) (\<lambda>row.
           case row of None \<Rightarrow> throw ErrGenerationMissing
           | Some desiredJSON \<Rightarrow>
             andthen (exec ''insert usage batch'' (insert_batch batch)) (\<lambda>affected.
             if affected = 0 then return (Commit ''commit duplicate usage batch'' ())
             else
               andthen (failing (StoreWrapped ''decode usage generation'') (unless_error (DecodeDesiredJSON cx desiredJSON))) (\<lambda>desired.
               andthen (loop (record_delta batch (by_key fw_ID (ds_Forwards desired))) (ub_Deltas batch) ()) (\<lambda>_.
               andthen (enforce_quotas cx (ub_NodeID batch)) (\<lambda>_.
               return (Commit ''commit usage batch'' ())))))))))"

section \<open>Policies of time\<close>

definition due_action :: "time \<Rightarrow> ForwardSpec \<Rightarrow> (ForwardSpec \<times> string) option" where
  "due_action now forward =
     (if (case fw_ExpiresAt forward of None \<Rightarrow> False | Some e \<Rightarrow> \<not> Before now e) \<and>
         fw_Lifecycle forward \<noteq> LifecyclePaused \<and> fw_Lifecycle forward \<noteq> LifecycleForceDeleting
      then Some (paused forward, ''expiry_pause'')
      else if fw_Lifecycle forward = LifecycleDraining \<and> (case fw_DrainDeadline forward of None \<Rightarrow> False | Some d \<Rightarrow> \<not> Before now d)
      then Some ((paused forward)\<lparr>fw_Lifecycle := LifecycleForceDeleting\<rparr>, ''drain_force'')
      else None)"

definition due_forwards :: "time \<Rightarrow> DesiredState \<Rightarrow> DesiredState" where
  "due_forwards now desired = desired\<lparr>ds_Forwards := map (\<lambda>f. case due_action now f of None \<Rightarrow> f | Some (f', _) \<Rightarrow> f') (ds_Forwards desired)\<rparr>"

definition due_audits :: "time \<Rightarrow> DesiredState \<Rightarrow> (string \<times> string) list" where
  "due_audits now desired = concat (map (\<lambda>f. case due_action now f of None \<Rightarrow> [] | Some (_, action) \<Rightarrow> [(action, fw_ID f)]) (ds_Forwards desired))"

definition in_rollout :: "database \<Rightarrow> string \<Rightarrow> bool" where
  "in_rollout db nodeID \<longleftrightarrow> list_ex (\<lambda>t. ta_node t = nodeID \<and> list_ex (\<lambda>r. ro_id r = ta_rollout t \<and> active_rollout r) (db_rollouts db)) (db_targets db)"

text \<open>\<open>ORDER BY n.policy_checked_at NULLS FIRST, n.id\<close>\<close>

definition scan_before :: "node_row \<Rightarrow> node_row \<Rightarrow> bool" where
  "scan_before a b \<longleftrightarrow> (case (no_policy_checked a, no_policy_checked b) of
      (None, None) \<Rightarrow> no_id a < no_id b | (None, Some _) \<Rightarrow> True | (Some _, None) \<Rightarrow> False
    | (Some s, Some t) \<Rightarrow> s < t \<or> s = t \<and> no_id a < no_id b)"

definition policy_nodes :: "database \<Rightarrow> (string \<times> int) list" where
  "policy_nodes db = map (\<lambda>n. (no_id n, no_desired n)) (sort_less scan_before
     (filter (\<lambda>n. no_revoked n = None \<and> no_desired n > 0 \<and> \<not> in_rollout db (no_id n)) (db_nodes db)))"

definition enforce_node :: "codecs \<Rightarrow> time \<Rightarrow> string \<times> int \<Rightarrow> nat \<Rightarrow> nat sql" where
  "enforce_node cx now node published =
     (case node of (nodeID, generation) \<Rightarrow>
       andthen (query ''recheck node rollout ownership'' (\<lambda>db. in_rollout db nodeID)) (\<lambda>rolloutActive.
       if rolloutActive then return published
       else
         andthen (exec ''advance policy scan cursor'' (write_nodes (\<lambda>n. no_id n = nodeID) (\<lambda>n. n\<lparr>no_policy_checked := Some now\<rparr>))) (\<lambda>_.
         andthen (read_state cx ''read policy desired state'' ''decode policy desired state'' nodeID generation) (\<lambda>desired.
         if due_audits now desired = [] then return published
         else
           andthen (failing (StoreWrapped ''publish time policy generation'') (publishDesiredTx cx nodeID generation (due_forwards now desired))) (\<lambda>next.
           andthen (insertPolicyAudits nodeID (sp_Generation next) (due_audits now desired)) (\<lambda>_.
           return (Suc published)))))))"

definition EnforcePolicies :: "codecs \<Rightarrow> int \<Rightarrow> time \<Rightarrow> nat sql" where
  "EnforcePolicies cx limit now =
     andthen (guard (limit < 1 \<or> limit > 1000) (StoreMessage ''policy scan limit must be between 1 and 1000'')) (\<lambda>_.
     transaction ''begin policy transaction''
       (andthen (query ''claim policy nodes'' (\<lambda>db. take (nat limit) (policy_nodes db))) (\<lambda>nodes.
        andthen (loop (enforce_node cx now) nodes 0) (\<lambda>published.
        return (Commit ''commit policy transaction'' published)))))"

end
