(* ===== verification/Store_Outbox.thy ===== *)
theory Store_Outbox
  imports Store_Policies
begin

text \<open>
  The transactional outbox (\<open>store.go\<close>): workers claim the events that are ready for a lease, mark them delivered
  or release them. The guarantee: a claimed event is not handed out again before its lease has passed or its
  owner has released it, and a delivered event never is.
\<close>

section \<open>Model\<close>

record OutboxEvent =
  oe_ID :: int
  oe_Topic :: string
  oe_AggregateID :: string
  oe_Generation :: u64

definition ready :: "int \<Rightarrow> outbox_row \<Rightarrow> bool" where
  "ready now e \<longleftrightarrow> ob_delivered e = None \<and> stamp_not_after (ob_available e) now \<and>
     (case ob_leased_until e of None \<Rightarrow> True | Some t \<Rightarrow> stamp_before t now)"

definition ready_events :: "int \<Rightarrow> int \<Rightarrow> database \<Rightarrow> OutboxEvent list" where
  "ready_events now limit db = map (\<lambda>e. \<lparr>oe_ID = ob_id e, oe_Topic = ob_topic e, oe_AggregateID = ob_aggregate e, oe_Generation = uint64 (ob_generation e)\<rparr>)
     (take (nat limit) (sort_less (\<lambda>a b. ob_id a < ob_id b) (filter (ready now) (db_outbox db))))"

definition write_events :: "(outbox_row \<Rightarrow> bool) \<Rightarrow> (outbox_row \<Rightarrow> outbox_row) \<Rightarrow> database \<Rightarrow> (database \<times> nat) option" where
  "write_events p f db = Some (db\<lparr>db_outbox := rewrite p f (db_outbox db)\<rparr>, length (filter p (db_outbox db)))"

definition lease_event :: "string \<Rightarrow> time \<Rightarrow> OutboxEvent \<Rightarrow> unit \<Rightarrow> unit sql" where
  "lease_event owner leasedUntil event _ =
     andthen (exec ''lease outbox event'' (write_events (\<lambda>e. ob_id e = oe_ID event \<and> ob_delivered e = None)
       (\<lambda>e. e\<lparr>ob_leased_by := Some owner, ob_leased_until := Some (AtNano leasedUntil), ob_attempts := ob_attempts e + 1\<rparr>))) (\<lambda>_. return ())"

definition ClaimOutbox :: "string \<Rightarrow> int \<Rightarrow> duration \<Rightarrow> OutboxEvent list sql" where
  "ClaimOutbox owner limit lease =
     andthen (guard (owner = [] \<or> limit < 1 \<or> limit > 1000 \<or> lease < Second) (StoreMessage ''invalid outbox claim arguments'')) (\<lambda>_.
     transaction ''begin outbox claim''
       (andthen current_timestamp (\<lambda>now.
        andthen (query ''select outbox events'' (ready_events now limit)) (\<lambda>events.
        andthen time_Now (\<lambda>t.
        andthen (loop (lease_event owner (t + lease)) events ()) (\<lambda>_.
        return (Commit ''commit outbox claim'' events)))))))"

definition MarkOutboxDelivered :: "string \<Rightarrow> int \<Rightarrow> unit sql" where
  "MarkOutboxDelivered owner eventID =
     andthen current_timestamp (\<lambda>now.
     andthen (exec ''mark outbox event delivered'' (write_events (\<lambda>e. ob_id e = eventID \<and> ob_leased_by e = Some owner \<and> ob_delivered e = None)
       (\<lambda>e. e\<lparr>ob_delivered := Some (AtSecond now), ob_leased_by := None, ob_leased_until := None\<rparr>))) (\<lambda>affected.
     guard (affected \<noteq> 1) (StoreMessage ''outbox lease was lost'')))"

definition ReleaseOutbox :: "string \<Rightarrow> int \<Rightarrow> string \<Rightarrow> unit sql" where
  "ReleaseOutbox owner eventID reason =
     andthen time_Now (\<lambda>t.
     andthen (exec ''release outbox event'' (write_events (\<lambda>e. ob_id e = eventID \<and> ob_leased_by e = Some owner \<and> ob_delivered e = None)
       (\<lambda>e. e\<lparr>ob_leased_by := None, ob_leased_until := None, ob_available := AtNano (t + 2 * Second), ob_last_error := Some (take 2048 reason)\<rparr>))) (\<lambda>_.
     return ()))"

end
