(* ===== verification/Store_Frame.thy ===== *)
theory Store_Frame
  imports Store_Outbox
begin

text \<open>
  What publication, rollouts, acknowledgements, policies and the outbox do not touch. A \<open>bystander\<close> is a view of the database that does
  not depend on the tables these operations write, nor on the columns of a node other than its name and its revocation; such a
  view is the same after each of them, whatever the outcome.
\<close>

lemmas rollout_writes = write_stage_def write_rollout_def write_plan_def

lemma evaluateQuotas_steady [steadies]: "steady (\<lambda>s. f (se_db s)) (evaluateQuotas nodeID desired)"
  unfolding evaluateQuotas_def quota_user_def quota_forward_def quota_action_def quotaExceeded_def by (intro steadies)

lemma insertPolicyAudits_steady:
  assumes "\<And>db ps. f (db\<lparr>db_policy_audits := ps\<rparr>) = f db"
  shows "steady (\<lambda>s. f (se_db s)) (insertPolicyAudits nodeID generation audits)"
  unfolding insertPolicyAudits_def
proof (rule steady_loop)
  fix x and u :: unit
  show "steady (\<lambda>s. f (se_db s)) ((case x of (action, subject) \<Rightarrow> \<lambda>_. policy_audit nodeID generation action subject) u)"
    by (cases x) (simp add: policy_audit_def, rule exec_all_steady, rule assms)
qed

locale bystander =
  fixes f :: "database \<Rightarrow> 'v"
  assumes other_tables [simp]:
    "f (db\<lparr>db_generations := gs\<rparr>) = f db" "f (db\<lparr>db_acks := as\<rparr>) = f db" "f (db\<lparr>db_outbox := es\<rparr>) = f db" "f (db\<lparr>db_next_outbox := k\<rparr>) = f db"
    "f (db\<lparr>db_classes := cs\<rparr>) = f db" "f (db\<lparr>db_vips := vs\<rparr>) = f db" "f (db\<lparr>db_bindings := bs\<rparr>) = f db" "f (db\<lparr>db_policy_audits := ps\<rparr>) = f db"
    "f (db\<lparr>db_profiles := fs\<rparr>) = f db" "f (db\<lparr>db_plans := pl\<rparr>) = f db" "f (db\<lparr>db_placements := pm\<rparr>) = f db" "f (db\<lparr>db_rollouts := ro\<rparr>) = f db"
    "f (db\<lparr>db_stages := sg\<rparr>) = f db" "f (db\<lparr>db_targets := ta\<rparr>) = f db" "f (db\<lparr>db_cluster_audits := ca\<rparr>) = f db"
    and other_columns: "(\<And>n. p n \<Longrightarrow> no_id (g n) = no_id n \<and> no_revoked (g n) = no_revoked n) \<Longrightarrow> f (db\<lparr>db_nodes := rewrite p g (db_nodes db)\<rparr>) = f db"
begin

lemma write_nodes_same: "write_nodes p g db = Some (db', n) \<Longrightarrow> (\<And>n. p n \<Longrightarrow> no_id (g n) = no_id n \<and> no_revoked (g n) = no_revoked n) \<Longrightarrow> f db' = f db"
  by (auto simp: write_nodes_def other_columns)

lemma publishDesiredTx_same [steadies]: "steady (\<lambda>s. f (se_db s)) (publishDesiredTx cx nodeID current desired)"
  by (rule publishDesiredTx_steady [of f]) (simp_all add: other_columns)

lemma PublishDesired_same: "steady (\<lambda>s. f (se_db s)) (PublishDesired cx nodeID desired caps)"
  unfolding PublishDesired_def by (intro steadies)

lemma insertClusterAudit_same [steadies]: "steady (\<lambda>s. f (se_db s)) (insertClusterAudit planID revision actor action subject)"
  unfolding insertClusterAudit_def by (intro steadies) simp

lemma requestClusterRollbackTx_same [steadies]:
  "steady (\<lambda>s. f (se_db s)) (requestClusterRollbackTx rolloutID planID revision stageOrder phase autoRollback message actor now)"
  unfolding requestClusterRollbackTx_def by (intro steadies) (simp_all add: rollout_writes)

lemma publishClusterStageTx_same [steadies]: "steady (\<lambda>s. f (se_db s)) (publishClusterStageTx cx rolloutID stageOrder now)"
  unfolding publishClusterStageTx_def publish_target_def by (intro steadies) (simp_all add: rollout_writes)

lemma put_placement_same: "put_placement plan vips placement db = Some (db', n) \<Longrightarrow> f db' = f db"
  by (auto simp: put_placement_def Let_def split: if_splits)

lemma completeClusterStageTx_same [steadies]:
  "steady (\<lambda>s. f (se_db s)) (completeClusterStageTx cx rolloutID planID revision stageOrder phase detailJSON now actor)"
  unfolding completeClusterStageTx_def commit_rollout_def read_plan_def replacePlacements_def removeRetiredNodeProfiles_def
  by (intro steadies) (simp_all add: rollout_writes put_placement_same)

lemma ensureCompensationStage_same [steadies]: "steady (\<lambda>s. f (se_db s)) (ensureCompensationStage rolloutID)"
  unfolding ensureCompensationStage_def rolling_back_def by (intro steadies) (auto simp: rollout_writes insert_stage_def)

lemma AdvanceClusterRollouts_same: "steady (\<lambda>s. f (se_db s)) (AdvanceClusterRollouts cx owner limit now)"
  unfolding AdvanceClusterRollouts_def advance_plan_def advanceClusterRolloutTx_def advance_acks_def advance_bake_def canaryBakeFailure_def
    read_plan_def loadHealthObservations_def by (intro steadies)

lemma policy_audit_same [steadies]: "steady (\<lambda>s. f (se_db s)) (policy_audit nodeID generation action subject)"
  unfolding policy_audit_def by (intro steadies) simp

lemma insertPolicyAudits_same [steadies]: "steady (\<lambda>s. f (se_db s)) (insertPolicyAudits nodeID generation audits)"
  by (rule insertPolicyAudits_steady) simp

lemma ack_node_same: "ack_node ack db = Some (db', n) \<Longrightarrow> f db' = f db"
  unfolding ack_node_def by (erule write_nodes_same) simp

lemma RecordApplyResult_same: "steady (\<lambda>s. f (se_db s)) (RecordApplyResult cx ack)"
  unfolding RecordApplyResult_def after_force_def recordClusterRolloutACKTx_def ack_match_def
  by (intro steadies) (auto simp: ack_generation_def insert_ack_def ack_node_same split: if_splits)

lemma enforce_quotas_same [steadies]: "steady (\<lambda>s. f (se_db s)) (enforce_quotas cx nodeID)"
  unfolding enforce_quotas_def by (intro steadies)

lemma EnforcePolicies_same: "steady (\<lambda>s. f (se_db s)) (EnforcePolicies cx limit now)"
  unfolding EnforcePolicies_def enforce_node_def by (intro steadies) (erule write_nodes_same, simp)

lemma outbox_same:
  "steady (\<lambda>s. f (se_db s)) (ClaimOutbox owner limit lease)"
  "steady (\<lambda>s. f (se_db s)) (MarkOutboxDelivered owner eventID)"
  "steady (\<lambda>s. f (se_db s)) (ReleaseOutbox owner eventID reason)"
  unfolding ClaimOutbox_def MarkOutboxDelivered_def ReleaseOutbox_def lease_event_def by (intro steadies; auto simp: write_events_def)+

lemmas all_same = PublishDesired_same RecordApplyResult_same EnforcePolicies_same AdvanceClusterRollouts_same outbox_same

end

interpretation identity_view: bystander identities
proof unfold_locales
  fix p :: "node_row \<Rightarrow> bool" and g :: "node_row \<Rightarrow> node_row" and db :: database
  assume "\<And>n. p n \<Longrightarrow> no_id (g n) = no_id n \<and> no_revoked (g n) = no_revoked n"
  then show "identities (db\<lparr>db_nodes := rewrite p g (db_nodes db)\<rparr>) = identities db" by (simp add: identities_def map_rewrite)
qed (simp_all add: identities_def)

lemma RecordUsageBatch_identities: "steady (\<lambda>s. identities (se_db s)) (RecordUsageBatch cx batch)"
  unfolding RecordUsageBatch_def record_delta_def
  by (intro steadies identity_view.enforce_quotas_same)
    (auto simp: identities_def insert_batch_def insert_delta_def add_rollup_def split: if_splits)

text \<open>The tables of usage.\<close>

definition usage_tables :: "database \<Rightarrow> batch_row list \<times> delta_row list \<times> rollup_row list" where
  "usage_tables db = (db_batches db, db_deltas db, db_rollups db)"

interpretation usage_view: bystander usage_tables
  by unfold_locales (simp_all add: usage_tables_def)

end
