(* ===== verification/Store_Growth.thy ===== *)
theory Store_Growth
  imports Store_Frame
begin

text \<open>
  The ledger only grows. \<open>continues v v'\<close> says that \<open>v'\<close> has every generation of \<open>v\<close> with the same content, that an applied
  generation stays applied, and that the desired and applied generations of a node do not go back. Each operation of the
  store takes a correct ledger to a correct one that continues it.
\<close>

section \<open>Growth\<close>

definition same_content :: "generation_row \<Rightarrow> generation_row \<Rightarrow> bool" where
  "same_content g g' \<longleftrightarrow> g' = g\<lparr>ge_status := ge_status g', ge_applied_at := ge_applied_at g'\<rparr> \<and> (ge_status g = ''applied'' \<longrightarrow> ge_status g' = ''applied'')"

definition continues :: "ledger_view \<Rightarrow> ledger_view \<Rightarrow> bool" where
  "continues v v' \<longleftrightarrow>
     (\<forall>i d a c. (i, d, a, c) \<in> set (fst v) \<longrightarrow> 0 < d \<longrightarrow> (\<exists>d' a' c'. (i, d', a', c') \<in> set (fst v') \<and> d \<le> d' \<and> a \<le> a')) \<and>
     (\<forall>g\<in>set (snd v). \<exists>g'\<in>set (snd v'). same_content g g')"

lemma same_content_refl [simp]: "same_content g g"
  by (simp add: same_content_def)

lemma same_content_trans: "same_content f g \<Longrightarrow> same_content g h \<Longrightarrow> same_content f h"
  by (cases f, cases g, cases h) (simp add: same_content_def)

lemma continues_refl: "continues v v"
  unfolding continues_def by (meson order_refl same_content_refl)

lemma continues_trans:
  assumes "continues u v" "continues v w"
  shows "continues u w"
  unfolding continues_def
proof (intro conjI allI impI ballI)
  fix i d a c assume "(i, d, a, c) \<in> set (fst u)" "0 < d"
  then obtain d' a' c' where v: "(i, d', a', c') \<in> set (fst v)" "d \<le> d'" "a \<le> a'" using assms(1) unfolding continues_def by blast
  then have "0 < d'" using \<open>0 < d\<close> by simp
  then obtain d'' a'' c'' where "(i, d'', a'', c'') \<in> set (fst w)" "d' \<le> d''" "a' \<le> a''" using assms(2) v(1) unfolding continues_def by blast
  with v show "\<exists>d' a' c'. (i, d', a', c') \<in> set (fst w) \<and> d \<le> d' \<and> a \<le> a'" by (meson order_trans)
next
  fix g assume "g \<in> set (snd u)"
  then show "\<exists>g'\<in>set (snd w). same_content g g'" using assms unfolding continues_def by (meson same_content_trans)
qed

lemma continues_subset: "set (fst v) \<subseteq> set (fst v') \<Longrightarrow> set (snd v) \<subseteq> set (snd v') \<Longrightarrow> continues v v'"
  unfolding continues_def by (meson order_refl same_content_refl subsetD)

definition grown :: "codecs \<Rightarrow> ledger_view \<Rightarrow> database \<Rightarrow> bool" where
  "grown cx v db \<longleftrightarrow> ledger_view_ok cx (ledger db) \<and> continues v (ledger db)"

lemma grown_ledger_ok: "grown cx v db \<Longrightarrow> ledger_ok cx db"
  by (simp add: grown_def ledger_ok_def)

lemma grown_step: "grown cx v db \<Longrightarrow> ledger_view_ok cx (ledger db') \<Longrightarrow> continues (ledger db) (ledger db') \<Longrightarrow> grown cx v db'"
  unfolding grown_def by (blast intro: continues_trans)

lemma grown_steady: "steady (\<lambda>s. ledger (se_db s)) m \<Longrightarrow> keeps (\<lambda>s. grown cx v (se_db s)) m"
  unfolding grown_def by (rule steady_keeps)

lemma ledger_nodes:
  assumes "\<And>n. p n \<Longrightarrow> no_id (f n) = no_id n \<and> no_desired (f n) = no_desired n \<and> no_applied (f n) = no_applied n \<and> no_applied_checksum (f n) = no_applied_checksum n"
    and "write_nodes p f db = Some (db', k)"
  shows "ledger db' = ledger db"
proof -
  have "map (\<lambda>n. (no_id n, no_desired n, no_applied n, no_applied_checksum n)) (rewrite p f (db_nodes db)) =
      map (\<lambda>n. (no_id n, no_desired n, no_applied n, no_applied_checksum n)) (db_nodes db)"
    by (rule map_rewrite) (simp add: assms(1))
  with assms(2) show ?thesis by (auto simp: write_nodes_def ledger_def)
qed

section \<open>Changes that continue the ledger\<close>

lemma grown_view: "grown cx v db \<Longrightarrow> ledger db = (N, G) \<Longrightarrow> ledger_view_ok cx (N, G)"
  by (simp add: grown_def)

lemma grown_insert_node:
  assumes "grown cx v db" "insert_node nid db = Some (db', k)"
  shows "grown cx v db'"
proof (cases "list_ex (\<lambda>n. no_id n = nid) (db_nodes db)")
  case False
  obtain N G where view: "ledger db = (N, G)" by fastforce
  have new: "nid \<notin> fst ` set N" using False view by (auto simp: list_ex_iff ledger_def)
  have view': "ledger db' = (N @ [(nid, 0, 0, None)], G)" using False assms(2) view by (auto simp: insert_node_def ledger_def new_node_def)
  show ?thesis
  proof (rule grown_step [OF assms(1)])
    show "ledger_view_ok cx (ledger db')" unfolding view' by (rule lg_new_node [OF grown_view [OF assms(1) view] new])
    show "continues (ledger db) (ledger db')" unfolding view view' by (rule continues_subset) auto
  qed
qed (use assms in \<open>auto simp: insert_node_def\<close>)

lemma grown_delete_node:
  assumes "grown cx v db" "node_of db nid = Some n" "no_desired n = 0" "delete_node nid db = Some (db', k)"
  shows "grown cx v db'"
proof -
  obtain N G where view: "ledger db = (N, G)" by fastforce
  note ok = grown_view [OF assms(1) view]
  have "(nid, 0, no_applied n, no_applied_checksum n) \<in> set N" using node_of_Some [OF assms(2)] assms(3) view by (force simp: ledger_def)
  then have unused: "d = 0" if "(nid, d, a, c) \<in> set N" for d a c using unique_row [OF ledger_view_okD(1) [OF ok] that] by fastforce
  have away: "ge_node g \<noteq> nid" if "g \<in> set G" for g using ledger_view_okD(4) [OF ok that] unused by fastforce
  have view': "ledger db' = (filter (\<lambda>r. fst r \<noteq> nid) N, delete_where (\<lambda>g. ge_node g = nid) G)"
    using assms(4) view by (auto simp: delete_node_def ledger_def delete_where_def filter_map comp_def split: if_splits)
  show ?thesis
  proof (rule grown_step [OF assms(1)])
    show "ledger_view_ok cx (ledger db')" unfolding view' by (rule lg_drop_node [OF ok unused])
    have "\<exists>d' a' c'. (i, d', a', c') \<in> set (filter (\<lambda>r. fst r \<noteq> nid) N) \<and> d \<le> d' \<and> a \<le> a'" if "(i, d, a, c) \<in> set N" "0 < d" for i d a c
      using that unused [of d a c] by (intro exI [of _ d] exI [of _ a] exI [of _ c]) auto
    moreover have "\<exists>g'\<in>set (delete_where (\<lambda>g. ge_node g = nid) G). same_content g g'" if "g \<in> set G" for g
      using that away by (intro bexI [of _ g]) simp_all
    ultimately show "continues (ledger db) (ledger db')" unfolding view view' continues_def fst_conv snd_conv by blast
  qed
qed

section \<open>Publication\<close>

definition desires :: "ledger_view \<Rightarrow> string \<Rightarrow> int \<Rightarrow> bool" where
  "desires v nid d \<longleftrightarrow> (\<exists>a c. (nid, d, a, c) \<in> set (fst v))"

lemma desires_node: "node_of db nid = Some n \<Longrightarrow> desires (ledger db) nid (no_desired n)"
  by (force simp: desires_def ledger_def dest: node_of_Some)

lemma unrevoked_node_Some: "unrevoked_node db nid = Some n \<Longrightarrow> n \<in> set (db_nodes db) \<and> no_id n = nid \<and> no_revoked n = None"
  unfolding unrevoked_node_def by (blast dest: find_SomeD)

lemma desires_unrevoked: "unrevoked_node db nid = Some n \<Longrightarrow> desires (ledger db) nid (no_desired n)"
  by (force simp: desires_def ledger_def dest: unrevoked_node_Some)

lemma desires_lookup:
  "Some d = map_option no_desired (node_of db nid) \<Longrightarrow> desires (ledger db) nid d"
  "Some d = map_option no_desired (unrevoked_node db nid) \<Longrightarrow> desires (ledger db) nid d"
  using desires_node [of db nid] desires_unrevoked [of db nid] by (auto split: option.splits dest!: sym [of "Some d"])

lemma continues_advance:
  assumes "ledger_view_ok cx v" "desires v nid d"
  shows "continues v (advance_row nid (d + 1) (fst v), snd v @ [g])"
proof -
  have "\<exists>d'' a' c'. (i, d'', a', c') \<in> set (advance_row nid (d + 1) (fst v)) \<and> d' \<le> d'' \<and> a \<le> a'" if row: "(i, d', a, c) \<in> set (fst v)" for i d' a c
  proof -
    have "distinct (map fst (fst v))" using ledger_view_okD(1) [of cx "fst v" "snd v"] assms(1) by simp
    then have "d' = d" if "i = nid" using assms(2) row that unique_row unfolding desires_def by fastforce
    then show ?thesis using row by (intro exI [of _ "if i = nid then d + 1 else d'"] exI [of _ a] exI [of _ c]) (auto simp: in_advance_row)
  qed
  then show ?thesis unfolding continues_def by (simp, meson UnI1 same_content_refl)
qed

lemma publishDesiredTx_grown:
  "yields (\<lambda>db. grown cx v db \<and> desires (ledger db) nodeID current \<and> P (ledger db)) (publishDesiredTx cx nodeID current desired)
     (\<lambda>snapshot db. grown cx v db \<and> (\<exists>v'. P v' \<and> issued cx nodeID current (stamped nodeID current desired) v' snapshot db))"
proof (rule yieldsI, elim conjE)
  fix s s' :: session and snapshot
  let ?v = "ledger (se_db s)"
  assume pre: "grown cx v (se_db s)" "desires ?v nodeID current" "P ?v" and run: "publishDesiredTx cx nodeID current desired s = (Inr snapshot, s')"
  obtain a c where row: "(nodeID, current, a, c) \<in> set (fst ?v)" using pre(2) by (auto simp: desires_def)
  have ok: "ledger_view_ok cx ?v" using pre(1) by (simp add: grown_def)
  have issue: "issued cx nodeID current (stamped nodeID current desired) ?v snapshot (se_db s')"
    by (rule yieldsD [OF publishDesiredTx_ledger [OF ok row] refl run])
  then obtain g where "ledger (se_db s') = (advance_row nodeID (current + 1) (fst ?v), snd ?v @ [g])" by (auto simp: issued_def)
  then have "continues ?v (ledger (se_db s'))" using continues_advance [OF ok pre(2)] by (simp only:)
  then have "grown cx v (se_db s')" using grown_step [OF pre(1)] issued_ok [OF ok row issue] by (simp add: ledger_ok_def)
  with issue pre(3) show "grown cx v (se_db s') \<and> (\<exists>v'. P v' \<and> issued cx nodeID current (stamped nodeID current desired) v' snapshot (se_db s'))" by blast
qed

text \<open>The form in which most callers use it.\<close>

lemma publishes:
  assumes "\<And>db. Q db \<Longrightarrow> grown cx v db \<and> desires (ledger db) nodeID current"
  shows "yields Q (publishDesiredTx cx nodeID current desired) (\<lambda>_. grown cx v)"
  by (rule yields_weaken [OF publishDesiredTx_grown [where P = "\<lambda>_. True"]]) (use assms in auto)

section \<open>Nodes\<close>

lemma ensurePendingNodeTx_grown [keepings]: "keeps (\<lambda>s. grown cx v (se_db s)) (ensurePendingNodeTx nodeID)"
  unfolding ensurePendingNodeTx_def by (intro keepings) (rule grown_insert_node)

lemma EnsurePendingNode_grown: "keeps (\<lambda>s. grown cx v (se_db s)) (EnsurePendingNode nodeID)"
  unfolding EnsurePendingNode_def by (intro keepings)

lemma DeletePendingNode_grown: "keeps (\<lambda>s. grown cx v (se_db s)) (DeletePendingNode nodeID)"
  unfolding DeletePendingNode_def
  by (rule keeps_andthen, rule identifier_keeps, rule transaction_yields_keeps, intro forwards) (auto dest: grown_delete_node [OF _ sym])

lemma ledger_other_tables [simp]:
  "ledger (db\<lparr>db_tokens := ts\<rparr>) = ledger db" "ledger (db\<lparr>db_keys := ks\<rparr>) = ledger db" "ledger (db\<lparr>db_key_events := es\<rparr>) = ledger db"
  "ledger (db\<lparr>db_acks := as\<rparr>) = ledger db" "ledger (db\<lparr>db_outbox := os\<rparr>) = ledger db" "ledger (db\<lparr>db_batches := bs\<rparr>) = ledger db"
  "ledger (db\<lparr>db_deltas := ds\<rparr>) = ledger db" "ledger (db\<lparr>db_rollups := rs\<rparr>) = ledger db" "ledger (db\<lparr>db_policy_audits := ps\<rparr>) = ledger db"
  "ledger (db\<lparr>db_profiles := fs\<rparr>) = ledger db" "ledger (db\<lparr>db_plans := pl\<rparr>) = ledger db" "ledger (db\<lparr>db_placements := pm\<rparr>) = ledger db"
  "ledger (db\<lparr>db_rollouts := ro\<rparr>) = ledger db" "ledger (db\<lparr>db_stages := sg\<rparr>) = ledger db" "ledger (db\<lparr>db_targets := ta\<rparr>) = ledger db"
  "ledger (db\<lparr>db_cluster_audits := ca\<rparr>) = ledger db"
  by (simp_all add: ledger_def)

lemma grown_same: "grown cx v db \<Longrightarrow> ledger db' = ledger db \<Longrightarrow> grown cx v db'"
  by (simp add: grown_def)

lemma CreateEnrollmentToken_grown: "keeps (\<lambda>s. grown cx v (se_db s)) (CreateEnrollmentToken random nodeID ttl)"
  unfolding CreateEnrollmentToken_def Let_def by (intro keepings) (erule grown_same, auto simp: insert_token_def)

lemma CompleteEnrollment_grown: "keeps (\<lambda>s. grown cx v (se_db s)) (CompleteEnrollment nodeID token publicKey)"
  unfolding CompleteEnrollment_def Let_def
  by (intro grown_steady steadies) (auto simp: consume_token_def insert_key_def Let_def)

lemma RecordHello_grown: "keeps (\<lambda>s. grown cx v (se_db s)) (RecordHello cx' hello)"
  unfolding RecordHello_def
  by (intro grown_steady steadies) (simp_all split: if_splits, erule ledger_nodes [rotated], simp)

lemma RecordHeartbeat_grown: "keeps (\<lambda>s. grown cx v (se_db s)) (RecordHeartbeat nodeID observedAt)"
  unfolding RecordHeartbeat_def by (intro grown_steady steadies) (erule ledger_nodes [rotated], simp)

lemma RevokeNode_grown: "keeps (\<lambda>s. grown cx v (se_db s)) (RevokeNode nodeID now)"
  unfolding RevokeNode_def by (intro grown_steady steadies) (simp_all, erule ledger_nodes [rotated], simp)

lemma PublishDesired_grown: "keeps (\<lambda>s. grown cx v (se_db s)) (PublishDesired cx nodeID desired caps)"
proof -
  let ?J = "\<lambda>current db. grown cx v db \<and> desires (ledger db) nodeID current"
  let ?body = "\<lambda>current. andthen (query ''read node scheduling ownership'' (\<lambda>db. List.find (\<lambda>p. pr_node p = nodeID) (db_profiles db))) (\<lambda>profile.
          andthen (guard (profile \<noteq> None) (StoreWrapped ''node is assigned to cluster plan'' ErrManagementConflict)) (\<lambda>_.
          andthen (if current > 0 then
              andthen (read_state cx ''read current management domain'' ''decode current management domain'' nodeID current) (\<lambda>currentDesired.
              guard (cluster_owned currentDesired) ErrManagementConflict)
            else return ()) (\<lambda>_.
          andthen (publishDesiredTx cx nodeID current desired) (\<lambda>snapshot.
          return (Commit ''commit desired generation'' snapshot)))))"
  have body: "yields (?J current) (?body current) (\<lambda>_. grown cx v)" for current
    by (rule yields_upholds, intro upholdings, rule yields_guard, rule yields_upholds, intro upholdings, rule yields_then [OF publishes])
      (assumption, intro forwards)
  have opened: "yields (\<lambda>db. grown cx v db \<and> Some current = map_option no_desired (unrevoked_node db nodeID)) (?body current)
      (\<lambda>e db. case e of Commit _ x \<Rightarrow> grown cx v db | Abandon x \<Rightarrow> True)" for current
    by (rule yields_weaken [OF body]) (auto intro: desires_lookup split: ending.split)
  show ?thesis unfolding PublishDesired_def
    by (rule keeps_andthen, intro identifier_keeps, rule keeps_andthen, rule keeps_guard, rule keeps_andthen, rule keeps_guard)
      (rule transaction_yields_keeps, rule yields_query, rule yields_option, rule yields_throw, simp only: opened)
qed

section \<open>Rollouts\<close>

text \<open>A publication follows a lookup of the generation that it continues.\<close>

lemma publish_after_lookup:
  assumes "\<And>current. yields (\<lambda>db. grown cx v db \<and> desires (ledger db) nid current) (f current) (\<lambda>_. grown cx v)"
    and "lookup = node_of \<or> lookup = unrevoked_node"
  shows "upholds (grown cx v) (andthen (query_row what (\<lambda>db. map_option no_desired (lookup db nid))) f)"
proof -
  have "desires (ledger db) nid d" if "map_option no_desired (lookup db nid) = Some d" for db d
    using assms(2) that desires_lookup by metis
  then show ?thesis by (intro upholds_yields yields_query_row, intro yields_weaken [OF assms(1)]) auto
qed

lemma publish_target_grown [upholdings]: "upholds (grown cx v) (publish_target cx rolloutID stageOrder target records)"
  unfolding publish_target_def
  by (rule publish_after_lookup [where lookup = node_of], rule yields_upholds, intro upholdings, rule yields_then [OF yields_failing [OF publishes]], assumption, intro forwards)
    (auto intro: grown_same)

lemma publishClusterStageTx_grown [upholdings]: "upholds (grown cx v) (publishClusterStageTx cx rolloutID stageOrder now)"
  unfolding publishClusterStageTx_def by (intro upholdings) (erule grown_same, simp add: rollout_writes)+

lemma insertClusterAudit_grown [upholdings]: "upholds (grown cx v) (insertClusterAudit planID revision actor action subject)"
  unfolding insertClusterAudit_def by (intro upholdings) (erule grown_same, simp)

lemma put_placement_grown: "grown cx v db \<Longrightarrow> put_placement plan vips placement db = Some (db', n) \<Longrightarrow> grown cx v db'"
  by (erule grown_same) (auto simp: put_placement_def Let_def split: if_splits)

lemma commit_rollout_grown [upholdings]: "upholds (grown cx v) (commit_rollout cx rolloutID planID revision detailJSON now actor)"
  unfolding commit_rollout_def read_plan_def replacePlacements_def removeRetiredNodeProfiles_def
  by (intro upholdings) (erule (1) put_placement_grown | erule grown_same, simp add: rollout_writes)+

lemma completeClusterStageTx_grown [upholdings]:
  "upholds (grown cx v) (completeClusterStageTx cx rolloutID planID revision stageOrder phase detailJSON now actor)"
  unfolding completeClusterStageTx_def by (intro upholdings) (erule grown_same, simp add: rollout_writes)+

lemma requestClusterRollbackTx_grown [upholdings]:
  "upholds (grown cx v) (requestClusterRollbackTx rolloutID planID revision stageOrder phase autoRollback message actor now)"
  unfolding requestClusterRollbackTx_def by (intro upholdings) (erule grown_same, simp add: rollout_writes)+

lemma ensureCompensationStage_grown [upholdings]: "upholds (grown cx v) (ensureCompensationStage rolloutID)"
  unfolding ensureCompensationStage_def rolling_back_def
  by (intro upholdings) (erule grown_same, auto simp: rollout_writes insert_stage_def)+

lemma advanceClusterRolloutTx_grown [upholdings]: "upholds (grown cx v) (advanceClusterRolloutTx cx rolloutID now actor)"
  unfolding advanceClusterRolloutTx_def advance_acks_def advance_bake_def canaryBakeFailure_def read_plan_def loadHealthObservations_def
  by (intro upholdings)

lemma AdvanceClusterRollouts_grown: "keeps (\<lambda>s. grown cx v (se_db s)) (AdvanceClusterRollouts cx owner limit now)"
  unfolding AdvanceClusterRollouts_def advance_plan_def Let_def by (intro keeps_andthen keeps_guard transaction_upholds upholdings)

lemma recordClusterRolloutACKTx_grown [upholdings]: "upholds (grown cx v) (recordClusterRolloutACKTx ack)"
  unfolding recordClusterRolloutACKTx_def ack_match_def by (intro upholdings) (erule grown_same, simp)

end
