(* ===== verification/Store_Reports.thy ===== *)
theory Store_Reports
  imports Store_Growth
begin

text \<open>
  The reports of agents and the policies of time continue the ledger: an acknowledgement marks a generation applied and
  moves the node's applied generation forward, a usage batch may publish a pause, and so may the clock.
\<close>

section \<open>Acknowledgements\<close>

lemma same_content_fields:
  assumes "same_content g g'"
  shows "ge_node g' = ge_node g" "ge_generation g' = ge_generation g" "ge_checksum g' = ge_checksum g" "stores cx g' d = stores cx g d"
    "ge_status g = ''applied'' \<Longrightarrow> ge_status g' = ''applied''"
  using assms by (cases g; cases g'; simp add: same_content_def stores_def)+

lemma lg_status:
  assumes ok: "ledger_view_ok cx (N, G)" and same: "\<And>g. p g \<Longrightarrow> same_content g (f g)"
  shows "ledger_view_ok cx (N, rewrite p f G)" "continues (N, G) (N, rewrite p f G)"
proof -
  have same': "same_content g (if p g then f g else g)" for g using same by simp
  note fields = same_content_fields [OF same']
  have origin: "\<exists>g\<in>set G. same_content g q" if "q \<in> set (rewrite p f G)" for q using that same' by (auto simp: in_rewrite)
  have there: "\<exists>q\<in>set (rewrite p f G). same_content g q" if "g \<in> set G" for g
    by (rule bexI [of _ "if p g then f g else g"], rule same') (use that in \<open>auto simp: in_rewrite\<close>)
  show "continues (N, G) (N, rewrite p f G)" unfolding continues_def using there by auto
  show "ledger_view_ok cx (N, rewrite p f G)"
  proof (rule ledger_view_okI)
    have "map (\<lambda>g. (ge_node g, ge_generation g)) (rewrite p f G) = map (\<lambda>g. (ge_node g, ge_generation g)) G"
      by (rule map_rewrite) (use same_content_fields [OF same] in simp)
    then show "distinct (map (\<lambda>g. (ge_node g, ge_generation g)) (rewrite p f G))" using ledger_view_okD(2) [OF ok] by (simp only:)
    show "\<exists>d. stores cx q d" if "q \<in> set (rewrite p f G)" for q
      using origin [OF that] ledger_view_okD(3) [OF ok] same_content_fields(4) by blast
    show "\<exists>d a c. (ge_node q, d, a, c) \<in> set N \<and> 1 \<le> ge_generation q \<and> ge_generation q \<le> d" if q: "q \<in> set (rewrite p f G)" for q
    proof -
      obtain g where "g \<in> set G" "same_content g q" using origin [OF q] by blast
      then show ?thesis using ledger_view_okD(4) [OF ok, of g] by (simp add: same_content_fields)
    qed
    show "\<exists>q\<in>set (rewrite p f G). ge_node q = i \<and> ge_generation q = k" if row: "(i, d, a, c) \<in> set N" "1 \<le> k" "k \<le> d" for i d a c k
    proof -
      obtain g where g: "g \<in> set G" "ge_node g = i" "ge_generation g = k" using ledger_view_okD(6) [OF ok row] by blast
      then show ?thesis using there [OF g(1)] by (auto dest: same_content_fields(1,2))
    qed
    show "acknowledged (rewrite p f G) i a c" if row: "(i, d, a, c) \<in> set N" "0 < a" for i d a c
    proof -
      obtain g where g: "g \<in> set G" "ge_node g = i" "ge_generation g = a" "c = Some (ge_checksum g)" "ge_status g = ''applied''"
        using ledger_view_okD(7) [OF ok row] by (auto simp: acknowledged_def)
      obtain q where "q \<in> set (rewrite p f G)" "same_content g q" using there [OF g(1)] by blast
      then show ?thesis unfolding acknowledged_def using g by (intro bexI [of _ q]) (simp_all add: same_content_fields)
    qed
  qed (use ledger_view_okD(1,5) [OF ok] in auto)
qed

definition ack_row_to :: "string \<Rightarrow> int \<Rightarrow> string \<Rightarrow> string \<times> int \<times> int \<times> string option \<Rightarrow> string \<times> int \<times> int \<times> string option" where
  "ack_row_to nid k checksum r = (case r of (i, d, a, c) \<Rightarrow> if i = nid \<and> a \<le> k then (i, d, k, Some checksum) else r)"

lemma lg_applied:
  assumes ok: "ledger_view_ok cx (N, G)" and ack: "acknowledged G nid k (Some c)"
  shows "ledger_view_ok cx (map (ack_row_to nid k c) N, G)" "continues (N, G) (map (ack_row_to nid k c) N, G)"
proof -
  have there: "\<exists>a' c'. (i, d, a', c') \<in> set (map (ack_row_to nid k c) N) \<and> a \<le> a'" if "(i, d, a, c') \<in> set N" for i d a c'
  proof -
    have "ack_row_to nid k c (i, d, a, c') \<in> set (map (ack_row_to nid k c) N)" using that by simp
    then show ?thesis by (cases "i = nid \<and> a \<le> k") (simp add: ack_row_to_def, blast)+
  qed
  have origin: "(i, d, a, c') \<in> set N \<or> i = nid \<and> a = k \<and> c' = Some c \<and> (\<exists>a c. (i, d, a, c) \<in> set N)"
    if row: "(i, d, a, c') \<in> set (map (ack_row_to nid k c) N)" for i d a c'
  proof -
    obtain i' d' a' e' where r: "(i', d', a', e') \<in> set N" "(i, d, a, c') = ack_row_to nid k c (i', d', a', e')" using row by (auto simp: image_iff)
    then show ?thesis by (cases "i' = nid \<and> a' \<le> k") (auto simp: ack_row_to_def)
  qed
  show "continues (N, G) (map (ack_row_to nid k c) N, G)" unfolding continues_def fst_conv snd_conv
    using there by (meson order_refl same_content_refl)
  obtain d where d: "\<exists>a c. (nid, d, a, c) \<in> set N" "1 \<le> k" "k \<le> d"
    using ack ledger_view_okD(4) [OF ok] unfolding acknowledged_def by blast
  show "ledger_view_ok cx (map (ack_row_to nid k c) N, G)"
  proof (rule ledger_view_okI)
    have "map fst (map (ack_row_to nid k c) N) = map fst N" by (auto simp: ack_row_to_def split: prod.split)
    then show "distinct (map fst (map (ack_row_to nid k c) N))" using ledger_view_okD(1) [OF ok] by (simp only:)
    show "\<exists>d a c'. (ge_node g, d, a, c') \<in> set (map (ack_row_to nid k c) N) \<and> 1 \<le> ge_generation g \<and> ge_generation g \<le> d" if "g \<in> set G" for g
      using ledger_view_okD(4) [OF ok that] there by blast
    show "0 \<le> a \<and> a \<le> e \<and> e \<le> MaxInt64" if "(i, e, a, c') \<in> set (map (ack_row_to nid k c) N)" for i e a c'
      using origin [OF that]
    proof
      assume here: "i = nid \<and> a = k \<and> c' = Some c \<and> (\<exists>a c. (i, e, a, c) \<in> set N)"
      then have "e = d" using d(1) unique_row [OF ledger_view_okD(1) [OF ok]] by fastforce
      with here d(2,3) show ?thesis using ledger_view_okD(5) [OF ok] by force
    qed (rule ledger_view_okD(5) [OF ok])
    show "\<exists>g\<in>set G. ge_node g = i \<and> ge_generation g = j" if "(i, e, a, c') \<in> set (map (ack_row_to nid k c) N)" "1 \<le> j" "j \<le> e" for i e a c' j
      using origin [OF that(1)] ledger_view_okD(6) [OF ok _ that(2,3)] by blast
    show "acknowledged G i a c'" if "(i, e, a, c') \<in> set (map (ack_row_to nid k c) N)" "0 < a" for i e a c'
      using origin [OF that(1)] ledger_view_okD(7) [OF ok _ that(2)] ack by blast
  qed (use ledger_view_okD(2,3) [OF ok] in auto)
qed

text \<open>A generation of the node with the checksum the agent reports.\<close>

definition lists :: "ApplyRecord \<Rightarrow> ledger_view \<Rightarrow> bool" where
  "lists ack v \<longleftrightarrow> (\<exists>g\<in>set (snd v). ge_node g = ar_NodeID ack \<and> ge_generation g = int64 (ar_Generation ack) \<and> ge_checksum g = ar_DesiredChecksum ack)"

definition confirmed :: "ApplyRecord \<Rightarrow> ledger_view \<Rightarrow> bool" where
  "confirmed ack v \<longleftrightarrow> (ar_Status ack = ''applied'' \<longrightarrow>
     acknowledged (snd v) (ar_NodeID ack) (int64 (ar_Generation ack)) (Some (ar_DesiredChecksum ack)))"

lemma generation_of_Some: "generation_of db nid k = Some g \<Longrightarrow> g \<in> set (db_generations db) \<and> ge_node g = nid \<and> ge_generation g = k"
  unfolding generation_of_def by (blast dest: find_SomeD)

lemma lists_lookup: "Some (ar_DesiredChecksum ack) = map_option ge_checksum (generation_of db (ar_NodeID ack) (int64 (ar_Generation ack))) \<Longrightarrow> lists ack (ledger db)"
  by (auto simp: lists_def ledger_def dest!: sym [of "Some _"] generation_of_Some)

lemma ack_generation_grown:
  assumes "grown cx v db" "lists ack (ledger db)" "desires (ledger db) nid d"
  shows "grown cx v (ack_generation ack db) \<and> confirmed ack (ledger (ack_generation ack db)) \<and> desires (ledger (ack_generation ack db)) nid d"
proof -
  obtain N G where view: "ledger db = (N, G)" by fastforce
  let ?p = "\<lambda>g. ge_node g = ar_NodeID ack \<and> ge_generation g = int64 (ar_Generation ack)"
  let ?f = "\<lambda>g. g\<lparr>ge_status := (if ge_status g = ''applied'' \<and> ar_Status ack \<noteq> ''applied'' then ge_status g else ar_Status ack),
       ge_applied_at := (if ar_Status ack = ''applied'' then Some (ar_ObservedAt ack) else ge_applied_at g)\<rparr>"
  have view': "ledger (ack_generation ack db) = (N, rewrite ?p ?f G)" using view by (simp add: ack_generation_def ledger_def)
  have same: "same_content g (?f g)" for g by (auto simp: same_content_def)
  have "grown cx v (ack_generation ack db)"
    by (rule grown_step [OF assms(1)]) (use lg_status [OF grown_view [OF assms(1) view] same, of ?p] view view' in simp_all)
  moreover have "confirmed ack (ledger (ack_generation ack db))"
  proof -
    obtain g where g: "g \<in> set G" "?p g" "ge_checksum g = ar_DesiredChecksum ack" using assms(2) view by (auto simp: lists_def)
    from rewrite_hit [of g G ?p ?f, OF g(1,2)] show ?thesis unfolding confirmed_def acknowledged_def view' snd_conv
      by (intro impI bexI [of _ "?f g"]) (simp_all add: g)
  qed
  moreover have "desires (ledger (ack_generation ack db)) nid d" using assms(3) view view' by (simp add: desires_def)
  ultimately show ?thesis by blast
qed

lemma ack_node_grown:
  assumes "grown cx v db" "confirmed ack (ledger db)" "ar_Status ack = ''applied''" "desires (ledger db) nid d" "ack_node ack db = Some (db', n)"
  shows "grown cx v db' \<and> desires (ledger db') nid d"
proof -
  obtain N G where view: "ledger db = (N, G)" by fastforce
  let ?r = "ack_row_to (ar_NodeID ack) (int64 (ar_Generation ack)) (ar_DesiredChecksum ack)"
  have view': "ledger db' = (map ?r N, G)"
    using view assms(5) by (auto simp: ack_node_def write_nodes_def ledger_def rewrite_def ack_row_to_def)
  have "acknowledged G (ar_NodeID ack) (int64 (ar_Generation ack)) (Some (ar_DesiredChecksum ack))" using assms(2,3) view by (simp add: confirmed_def)
  note lg = lg_applied [OF grown_view [OF assms(1) view] this]
  have "grown cx v db'" by (rule grown_step [OF assms(1)]) (use lg view view' in simp_all)
  moreover obtain a c where "(nid, d, a, c) \<in> set N" using assms(4) view by (auto simp: desires_def)
  then have "?r (nid, d, a, c) \<in> set (map ?r N)" by simp
  then have "desires (ledger db') nid d" unfolding view' desires_def fst_conv by (simp add: ack_row_to_def split: if_splits) blast+
  ultimately show ?thesis by blast
qed

lemma after_force_grown:
  "yields (\<lambda>db. grown cx v db \<and> desires (ledger db) (ar_NodeID ack) current) (after_force cx ack current) (\<lambda>_. grown cx v)"
  unfolding after_force_def policy_audit_def
  by (rule yields_upholds, intro upholdings, rule yields_if, intro forwards, blast, rule yields_then [OF yields_failing [OF publishes]], assumption)
    (rule upholds_def [THEN iffD1], intro upholdings, erule grown_same, simp)

lemma insert_ack_same: "insert_ack ack db = Some (db', n) \<Longrightarrow> ledger db' = ledger db"
  by (auto simp: insert_ack_def split: if_splits)

lemma RecordApplyResult_grown: "keeps (\<lambda>s. grown cx v (se_db s)) (RecordApplyResult cx ack)"
proof -
  let ?J = "\<lambda>node db. grown cx v db \<and> lists ack (ledger db) \<and> desires (ledger db) (ar_NodeID ack) (no_desired node)"
  let ?K = "\<lambda>node db. grown cx v db \<and> confirmed ack (ledger db) \<and> desires (ledger db) (ar_NodeID ack) (no_desired node)"
  have tail: "yields (?J node) (andthen (guard g e) (\<lambda>_.
          andthen (exec ''insert ACK event'' (insert_ack ack)) (\<lambda>_.
          andthen (exec_all ''update generation ACK status'' (ack_generation ack)) (\<lambda>_.
          andthen (if ar_Status ack \<noteq> ''applied'' then return ()
            else andthen (exec ''update node applied generation'' (ack_node ack)) (\<lambda>_.
                 if no_desired node = int64 (ar_Generation ack) then after_force cx ack (no_desired node) else return ())) (\<lambda>_.
          andthen (recordClusterRolloutACKTx ack) (\<lambda>_.
          return (Commit ''commit ACK'' ()))))))) (\<lambda>_. grown cx v)" for node g e
  proof (rule yields_guard, rule yields_upholds, rule upholds_exec)
    show "?J node db'" if "?J node db" "insert_ack ack db = Some (db', n)" for db db' n
      using that insert_ack_same [OF that(2)] by (simp add: grown_def)
    have acked: "yields (?J node) (exec_all ''update generation ACK status'' (ack_generation ack)) (\<lambda>_. ?K node)"
      by (rule yields_exec_all_last) (use ack_generation_grown in blast)
    have noded: "yields (?K node) (exec ''update node applied generation'' (ack_node ack))
        (\<lambda>_ db. grown cx v db \<and> desires (ledger db) (ar_NodeID ack) (no_desired node))" if "ar_Status ack = ''applied''"
      by (rule yieldsI) (use ack_node_grown [OF _ _ that] in \<open>blast dest: exec_Inr\<close>)
    show "yields (?J node) (andthen (exec_all ''update generation ACK status'' (ack_generation ack)) (\<lambda>_.
          andthen (if ar_Status ack \<noteq> ''applied'' then return ()
            else andthen (exec ''update node applied generation'' (ack_node ack)) (\<lambda>_.
                 if no_desired node = int64 (ar_Generation ack) then after_force cx ack (no_desired node) else return ())) (\<lambda>_.
          andthen (recordClusterRolloutACKTx ack) (\<lambda>_.
          return (Commit ''commit ACK'' ()))))) (\<lambda>_. grown cx v)"
      apply (rule yields_then [OF acked], rule yields_then [where R = "\<lambda>_. grown cx v"], rule yields_if)
      apply (rule yields_return, blast)
      apply (rule yields_then [OF noded], blast, rule yields_if)
      apply (rule after_force_grown)
      apply (rule yields_return, blast)
      apply (rule upholds_def [THEN iffD1], intro upholdings)
      done
  qed
  show ?thesis unfolding RecordApplyResult_def
    apply (rule transaction_yields_keeps, rule yields_query, rule yields_option, rule yields_throw, rule yields_guard, rule yields_query_row)
    apply (rule yields_weaken [OF tail])
     apply (auto intro: lists_lookup desires_node split: ending.split)
    done
qed

section \<open>Usage\<close>

lemma evaluateQuotas_upholds [upholdings]: "upholds J (evaluateQuotas nodeID desired)"
  by (rule upholds_same) (rule evaluateQuotas_steady [of "\<lambda>db. db"])

lemma insertPolicyAudits_upholds:
  assumes "\<And>db as. J db \<Longrightarrow> J (db\<lparr>db_policy_audits := as\<rparr>)"
  shows "upholds J (insertPolicyAudits nodeID generation audits)"
  unfolding insertPolicyAudits_def
proof (rule upholds_loop)
  fix x and u :: unit
  show "upholds J ((case x of (action, subject) \<Rightarrow> \<lambda>_. policy_audit nodeID generation action subject) u)"
    by (cases x) (simp add: policy_audit_def upholds_exec_all assms)
qed

lemma insertPolicyAudits_grown [upholdings]: "upholds (grown cx v) (insertPolicyAudits nodeID generation audits)"
  by (rule insertPolicyAudits_upholds) (erule grown_same, simp)

lemma enforce_quotas_grown [upholdings]: "upholds (grown cx v) (enforce_quotas cx nodeID)"
  unfolding enforce_quotas_def
proof (rule publish_after_lookup [where lookup = unrevoked_node])
  fix current
  let ?J = "\<lambda>db. grown cx v db \<and> desires (ledger db) nodeID current"
  have issue: "yields ?J (andthen (failing w (publishDesiredTx cx nodeID current d)) (\<lambda>next. insertPolicyAudits nodeID (sp_Generation next) audits)) (\<lambda>_. grown cx v)" for d w audits
    by (rule yields_then [OF yields_failing [OF publishes]], assumption) (rule upholds_def [THEN iffD1], intro upholdings)
  show "yields ?J (if current > 0 then
       andthen (read_state cx ''read current state for quota evaluation'' ''decode current state for quota evaluation'' nodeID current) (\<lambda>currentDesired.
       andthen (evaluateQuotas nodeID currentDesired) (\<lambda>(nextDesired, changed, audits).
       if changed then
         andthen (failing (StoreWrapped ''publish quota policy generation'') (publishDesiredTx cx nodeID current nextDesired)) (\<lambda>next.
         insertPolicyAudits nodeID (sp_Generation next) audits)
       else return ()))
     else return ()) (\<lambda>_. grown cx v)"
    by (rule yields_if, rule yields_upholds, intro upholdings, rule yields_upholds, intro upholdings, rule yields_prod, rule yields_prod, rule yields_if)
      (rule issue, intro forwards, blast, intro forwards, blast)
qed simp

lemma usage_grown: "insert_batch batch db = Some (db', n) \<Longrightarrow> ledger db' = ledger db" "insert_delta d db = Some (db', n) \<Longrightarrow> ledger db' = ledger db"
  "ledger (add_rollup d db) = ledger db"
  by (auto simp: insert_batch_def insert_delta_def add_rollup_def split: if_splits)

lemma RecordUsageBatch_grown: "keeps (\<lambda>s. grown cx v (se_db s)) (RecordUsageBatch cx batch)"
  unfolding RecordUsageBatch_def record_delta_def
  by (rule keeps_option, rule keeps_andthen, rule keeps_guard, rule transaction_upholds, intro upholdings)
    (auto simp: usage_grown(3) keeps_throw elim!: grown_same dest: usage_grown(1,2))

section \<open>Policies of time\<close>

lemma enforce_node_grown:
  assumes "\<forall>(m, d)\<in>set rest. m \<noteq> nodeID"
  shows "yields (\<lambda>db. grown cx v db \<and> desires (ledger db) nodeID generation \<and> (\<forall>(m, d)\<in>set rest. desires (ledger db) m d))
    (enforce_node cx now (nodeID, generation) n) (\<lambda>_ db. grown cx v db \<and> (\<forall>(m, d)\<in>set rest. desires (ledger db) m d))"
    (is "yields ?P _ (\<lambda>_. ?Q)")
proof -
  have cursor: "upholds ?P (exec what (write_nodes (\<lambda>n. no_id n = nodeID) (\<lambda>n. n\<lparr>no_policy_checked := Some now\<rparr>)))" for what
  proof (rule upholds_exec)
    fix db db' k assume "?P db" "write_nodes (\<lambda>n. no_id n = nodeID) (\<lambda>n. n\<lparr>no_policy_checked := Some now\<rparr>) db = Some (db', k)"
    moreover then have "ledger db' = ledger db" by (intro ledger_nodes) simp_all
    ultimately show "?P db'" by (simp add: grown_def)
  qed
  have others: "\<forall>(m, d)\<in>set rest. desires (ledger db) m d"
    if "\<forall>(m, d)\<in>set rest. desires v' m d" "issued cx nodeID generation x v' snapshot db" for v' x snapshot db
    using that assms by (fastforce simp: issued_def desires_def in_advance_row)
  have issue: "yields ?P (failing w (publishDesiredTx cx nodeID generation d)) (\<lambda>_. ?Q)" for d w
    by (rule yields_failing, rule yields_weaken [OF publishDesiredTx_grown [where P = "\<lambda>v'. \<forall>(m, d)\<in>set rest. desires v' m d"]]) (use others in blast)+
  have audits: "upholds ?Q (insertPolicyAudits nodeID k as)" for k as
    by (rule insertPolicyAudits_upholds) (simp add: grown_def)
  show ?thesis unfolding enforce_node_def prod.case
    by (rule yields_upholds, intro upholdings, rule yields_if, intro forwards, blast, rule yields_upholds, rule cursor, rule yields_upholds, intro upholdings,
        rule yields_if, intro forwards, blast, rule yields_then [OF issue], rule yields_upholds [OF audits], intro forwards)
qed

lemma policy_nodes_distinct:
  assumes "distinct (map no_id (db_nodes db))"
  shows "distinct (map fst (take k (policy_nodes db)))"
proof -
  let ?ns = "filter (\<lambda>n. no_revoked n = None \<and> no_desired n > 0 \<and> \<not> in_rollout db (no_id n)) (db_nodes db)"
  have "distinct (map no_id (sort_less scan_before ?ns))" using distinct_map_filter [OF assms] by (simp add: distinct_map)
  then show ?thesis by (simp add: policy_nodes_def take_map comp_def distinct_take flip: take_map)
qed

lemma EnforcePolicies_grown: "keeps (\<lambda>s. grown cx v (se_db s)) (EnforcePolicies cx limit now)"
proof -
  let ?J = "\<lambda>rest _ db. distinct (map fst rest) \<and> grown cx v db \<and> (\<forall>(m, d)\<in>set rest. desires (ledger db) m d)"
  have step: "yields (?J (node # rest) a) (enforce_node cx now node a) (?J rest)" for node rest a
  proof (rule yields_fact [where F = "distinct (map fst rest) \<and> (\<forall>(m, d)\<in>set rest. m \<noteq> fst node)"], force)
    assume F: "distinct (map fst rest) \<and> (\<forall>(m, d)\<in>set rest. m \<noteq> fst node)"
    show ?thesis by (rule yields_weaken [OF enforce_node_grown [of rest "fst node" cx v "snd node" now a, unfolded prod.collapse]]) (use F in auto)
  qed
  have start: "?J (take k (policy_nodes db)) a db" if "grown cx v db" for db k a
  proof -
    have "distinct (map no_id (db_nodes db))" using ledger_view_okD(1) [OF grown_view [OF that]] by (simp add: ledger_def comp_def)
    moreover have "desires (ledger db) (no_id n) (no_desired n)" if "n \<in> set (db_nodes db)" for n using that by (force simp: desires_def ledger_def)
    then have "\<forall>(m, d)\<in>set (policy_nodes db). desires (ledger db) m d" by (auto simp: policy_nodes_def)
    ultimately show ?thesis using that policy_nodes_distinct by (blast dest: in_set_takeD)
  qed
  show ?thesis unfolding EnforcePolicies_def
    apply (rule keeps_andthen, rule keeps_guard, rule transaction_yields_keeps, rule yields_query)
    apply (rule yields_then, rule yields_weaken [OF yields_loop_rest [where J = ?J, OF step]])
      apply (use start in blast, assumption)
    apply (intro forwards, simp)
    done
qed

section \<open>The outbox\<close>

lemma outbox_grown:
  "keeps (\<lambda>s. grown cx v (se_db s)) (ClaimOutbox owner limit lease)"
  "keeps (\<lambda>s. grown cx v (se_db s)) (MarkOutboxDelivered owner eventID)"
  "keeps (\<lambda>s. grown cx v (se_db s)) (ReleaseOutbox owner eventID reason)"
  unfolding ClaimOutbox_def MarkOutboxDelivered_def ReleaseOutbox_def lease_event_def
  by (intro grown_steady steadies; auto simp: write_events_def)+

end
