(* ===== verification/Store_System.thy ===== *)
theory Store_System
  imports Store_Reports Store_Frame
begin

text \<open>
  The store as a system: a step is a call of one of its operations, with any arguments, any failures of the driver and any
  clock, and with any outcome. The locale \<open>store_invariant\<close> states what a property has to satisfy to hold along every run,
  and is interpreted on the growth of the ledger, on the invariant of identities and on the exclusion of a revoked node.
\<close>

section \<open>Steps\<close>

text \<open>\<open>store_call cx failed db db'\<close>: some operation takes the database \<open>db\<close> to \<open>db'\<close>, and has returned an error or not.\<close>

inductive store_call :: "codecs \<Rightarrow> bool \<Rightarrow> database \<Rightarrow> database \<Rightarrow> bool" for cx where
  ensure_pending: "EnsurePendingNode nodeID s = (r, s') \<Longrightarrow> store_call cx (isl r) (se_db s) (se_db s')"
| delete_pending: "DeletePendingNode nodeID s = (r, s') \<Longrightarrow> store_call cx (isl r) (se_db s) (se_db s')"
| create_token: "CreateEnrollmentToken random nodeID ttl s = (r, s') \<Longrightarrow> store_call cx (isl r) (se_db s) (se_db s')"
| enrol: "CompleteEnrollment nodeID token publicKey s = (r, s') \<Longrightarrow> store_call cx (isl r) (se_db s) (se_db s')"
| hello: "RecordHello cx hello s = (r, s') \<Longrightarrow> store_call cx (isl r) (se_db s) (se_db s')"
| heartbeat: "RecordHeartbeat nodeID observedAt s = (r, s') \<Longrightarrow> store_call cx (isl r) (se_db s) (se_db s')"
| revoke: "RevokeNode nodeID now s = (r, s') \<Longrightarrow> store_call cx (isl r) (se_db s) (se_db s')"
| publish: "PublishDesired cx nodeID desired caps s = (r, s') \<Longrightarrow> store_call cx (isl r) (se_db s) (se_db s')"
| apply_result: "RecordApplyResult cx ack s = (r, s') \<Longrightarrow> store_call cx (isl r) (se_db s) (se_db s')"
| usage_batch: "RecordUsageBatch cx batch s = (r, s') \<Longrightarrow> store_call cx (isl r) (se_db s) (se_db s')"
| policies: "EnforcePolicies cx limit now s = (r, s') \<Longrightarrow> store_call cx (isl r) (se_db s) (se_db s')"
| rollouts: "AdvanceClusterRollouts cx owner limit now s = (r, s') \<Longrightarrow> store_call cx (isl r) (se_db s) (se_db s')"
| claim: "ClaimOutbox owner limit lease s = (r, s') \<Longrightarrow> store_call cx (isl r) (se_db s) (se_db s')"
| deliver: "MarkOutboxDelivered owner eventID s = (r, s') \<Longrightarrow> store_call cx (isl r) (se_db s) (se_db s')"
| release: "ReleaseOutbox owner eventID reason s = (r, s') \<Longrightarrow> store_call cx (isl r) (se_db s) (se_db s')"

definition store_step :: "codecs \<Rightarrow> database \<Rightarrow> database \<Rightarrow> bool" where
  "store_step cx db db' \<longleftrightarrow> (\<exists>failed. store_call cx failed db db')"

locale store_invariant =
  fixes cx :: codecs and J :: "database \<Rightarrow> bool"
  assumes ensure_pending: "keeps (\<lambda>s. J (se_db s)) (EnsurePendingNode nodeID)"
    and delete_pending: "keeps (\<lambda>s. J (se_db s)) (DeletePendingNode nodeID)"
    and create_token: "keeps (\<lambda>s. J (se_db s)) (CreateEnrollmentToken random nodeID ttl)"
    and enrol: "keeps (\<lambda>s. J (se_db s)) (CompleteEnrollment nodeID token publicKey)"
    and hello: "keeps (\<lambda>s. J (se_db s)) (RecordHello cx hello)"
    and heartbeat: "keeps (\<lambda>s. J (se_db s)) (RecordHeartbeat nodeID observedAt)"
    and revoke: "keeps (\<lambda>s. J (se_db s)) (RevokeNode nodeID now)"
    and publish: "keeps (\<lambda>s. J (se_db s)) (PublishDesired cx nodeID desired caps)"
    and apply_result: "keeps (\<lambda>s. J (se_db s)) (RecordApplyResult cx ack)"
    and usage_batch: "keeps (\<lambda>s. J (se_db s)) (RecordUsageBatch cx batch)"
    and policies: "keeps (\<lambda>s. J (se_db s)) (EnforcePolicies cx limit now)"
    and rollouts: "keeps (\<lambda>s. J (se_db s)) (AdvanceClusterRollouts cx owner limit now)"
    and claim: "keeps (\<lambda>s. J (se_db s)) (ClaimOutbox owner limit lease)"
    and deliver: "keeps (\<lambda>s. J (se_db s)) (MarkOutboxDelivered owner eventID)"
    and release: "keeps (\<lambda>s. J (se_db s)) (ReleaseOutbox owner eventID reason)"
begin

lemma call: "store_call cx b db db' \<Longrightarrow> J db \<Longrightarrow> J db'"
  by (induction rule: store_call.induct)
    (erule (1) keepsD [OF ensure_pending, rotated] keepsD [OF delete_pending, rotated] keepsD [OF create_token, rotated] keepsD [OF enrol, rotated]
      keepsD [OF hello, rotated] keepsD [OF heartbeat, rotated] keepsD [OF revoke, rotated] keepsD [OF publish, rotated]
      keepsD [OF apply_result, rotated] keepsD [OF usage_batch, rotated] keepsD [OF policies, rotated] keepsD [OF rollouts, rotated]
      keepsD [OF claim, rotated] keepsD [OF deliver, rotated] keepsD [OF release, rotated])+

lemma step: "store_step cx db db' \<Longrightarrow> J db \<Longrightarrow> J db'"
  unfolding store_step_def by (blast intro: call)

lemma run: "(store_step cx)\<^sup>*\<^sup>* db db' \<Longrightarrow> J db \<Longrightarrow> J db'"
  by (induction rule: rtranclp_induct) (auto intro: step)

end

interpretation growth: store_invariant cx "grown cx v" for cx v
  by unfold_locales (rule EnsurePendingNode_grown DeletePendingNode_grown CreateEnrollmentToken_grown CompleteEnrollment_grown RecordHello_grown
    RecordHeartbeat_grown RevokeNode_grown PublishDesired_grown RecordApplyResult_grown RecordUsageBatch_grown EnforcePolicies_grown
    AdvanceClusterRollouts_grown outbox_grown)+

section \<open>Identities\<close>

lemmas identities_kept = RecordHello_steady RecordHeartbeat_steady RecordUsageBatch_identities identity_view.all_same

interpretation identity: store_invariant cx identity_ok for cx
  by unfold_locales (rule EnsurePendingNode_ok DeletePendingNode_ok CreateEnrollmentToken_ok CompleteEnrollment_ok RevokeNode_ok identity_steady
    | rule identities_kept)+

section \<open>Exclusion of a revoked node\<close>

text \<open>An enrolled node that is revoked, by the columns of the identities.\<close>

definition barred :: "string \<Rightarrow> database \<Rightarrow> bool" where
  "barred nid db \<longleftrightarrow> (\<exists>t. (nid, Some t) \<in> set (fst (identities db))) \<and> (\<exists>f p r. (f, nid, p, r) \<in> set (fst (snd (identities db))))"

lemma barred_iff: "barred nid db \<longleftrightarrow> (\<exists>n\<in>set (db_nodes db). no_id n = nid \<and> no_revoked n \<noteq> None) \<and> (\<exists>k\<in>set (db_keys db). ky_node k = nid)"
proof -
  have "(\<exists>t. (nid, Some t) \<in> set (fst (identities db))) \<longleftrightarrow> (\<exists>n\<in>set (db_nodes db). no_id n = nid \<and> no_revoked n \<noteq> None)"
    unfolding identities_def fst_conv set_map image_iff prod.inject not_None_eq by metis
  moreover have "(\<exists>f p r. (f, nid, p, r) \<in> set (fst (snd (identities db)))) \<longleftrightarrow> (\<exists>k\<in>set (db_keys db). ky_node k = nid)"
    unfolding identities_def fst_conv snd_conv set_map image_iff by auto
  ultimately show ?thesis unfolding barred_def by simp
qed

lemma barred_more: "barred nid db \<Longrightarrow> set (db_nodes db) \<subseteq> set (db_nodes db') \<Longrightarrow> set (db_keys db) \<subseteq> set (db_keys db') \<Longrightarrow> barred nid db'"
  unfolding barred_iff by blast

lemma barred_steady: "steady (\<lambda>s. identities (se_db s)) m \<Longrightarrow> keeps (\<lambda>s. barred nid (se_db s)) m"
  unfolding barred_def by (rule steady_keeps [where P = "\<lambda>v. (\<exists>t. (nid, Some t) \<in> set (fst v)) \<and> (\<exists>f p r. (f, nid, p, r) \<in> set (fst (snd v)))"])

lemma ensurePendingNodeTx_barred [keepings]: "keeps (\<lambda>s. barred nid (se_db s)) (ensurePendingNodeTx nodeID)"
  unfolding ensurePendingNodeTx_def by (intro keepings) (erule barred_more, auto simp: insert_node_def split: if_splits)

lemma EnsurePendingNode_barred: "keeps (\<lambda>s. barred nid (se_db s)) (EnsurePendingNode nodeID)"
  unfolding EnsurePendingNode_def by (intro keepings)

lemma DeletePendingNode_barred: "keeps (\<lambda>s. barred nid (se_db s)) (DeletePendingNode nodeID)"
proof -
  have deleted: "barred nid db'" if "barred nid db" "\<not> list_ex (\<lambda>k. ky_node k = nodeID) (db_keys db)" "delete_node nodeID db = Some (db', n)" for db db' n
  proof -
    have "nid \<noteq> nodeID" using that(1,2) by (auto simp: barred_iff list_ex_iff)
    with that(1,3) show ?thesis by (auto simp: barred_iff delete_node_def split: if_splits)
  qed
  show ?thesis unfolding DeletePendingNode_def
    by (rule keeps_andthen, rule identifier_keeps, rule transaction_yields_keeps, intro forwards) (auto dest: deleted)
qed

lemma CreateEnrollmentToken_barred: "keeps (\<lambda>s. barred nid (se_db s)) (CreateEnrollmentToken random nodeID ttl)"
  unfolding CreateEnrollmentToken_def Let_def by (intro keepings) (erule barred_more, auto simp: insert_token_def)

lemma CompleteEnrollment_barred: "keeps (\<lambda>s. barred nid (se_db s)) (CompleteEnrollment nodeID token publicKey)"
  unfolding CompleteEnrollment_def Let_def
  by (intro keepings) (erule barred_more, auto simp: consume_token_def insert_key_def insert_row_Some Let_def)+

lemma RevokeNode_barred: "keeps (\<lambda>s. barred nid (se_db s)) (RevokeNode nodeID now)"
proof -
  have nodes: "barred nid db'" if old: "barred nid db" and "write_nodes (\<lambda>n. no_id n = nodeID) (\<lambda>n. n\<lparr>no_revoked := coalesce (no_revoked n) now\<rparr>) db = Some (db', k)" for db db' k
  proof -
    obtain n where n: "n \<in> set (db_nodes db)" "no_id n = nid" "no_revoked n \<noteq> None" using old unfolding barred_iff by blast
    have nodes': "db_nodes db' = rewrite (\<lambda>n. no_id n = nodeID) (\<lambda>n. n\<lparr>no_revoked := coalesce (no_revoked n) now\<rparr>) (db_nodes db)" "db_keys db' = db_keys db"
      using that by (auto simp: write_nodes_def)
    have "\<exists>m\<in>set (db_nodes db'). no_id m = nid \<and> no_revoked m \<noteq> None" unfolding nodes'(1) set_rewrite
      by (rule bexI [OF _ imageI [OF n(1)]]) (use n in simp)
    with old nodes'(2) show ?thesis unfolding barred_iff by simp
  qed
  have keys: "barred nid (db\<lparr>db_keys := rewrite p (\<lambda>k. k\<lparr>ky_revoked := coalesce (ky_revoked k) now\<rparr>) (db_keys db)\<rparr>)" if "barred nid db" for db p
  proof -
    obtain k where k: "k \<in> set (db_keys db)" "ky_node k = nid" using \<open>barred nid db\<close> unfolding barred_iff by blast
    have "\<exists>k\<in>set (rewrite p (\<lambda>k. k\<lparr>ky_revoked := coalesce (ky_revoked k) now\<rparr>) (db_keys db)). ky_node k = nid" unfolding set_rewrite
      by (rule bexI [OF _ imageI [OF k(1)]]) (use k(2) in simp)
    with \<open>barred nid db\<close> show ?thesis unfolding barred_iff by simp
  qed
  show ?thesis unfolding RevokeNode_def by (intro keepings) (erule (1) nodes | erule keys | simp add: barred_iff)+
qed

interpretation exclusion: store_invariant cx "barred nid" for cx nid
  by unfold_locales (rule EnsurePendingNode_barred DeletePendingNode_barred CreateEnrollmentToken_barred CompleteEnrollment_barred RevokeNode_barred barred_steady
    | rule identities_kept)+

section \<open>What holds along every run\<close>

lemma empty_ledger_ok: "ledger_ok cx empty_database"
  by (simp add: ledger_ok_def ledger_def empty_database_def ledger_view_ok_def)

lemma empty_identity_ok: "identity_ok empty_database"
  by (simp add: identity_ok_def identities_def empty_database_def identities_ok_def)

text \<open>C2. The ledger of generations over every sequence of calls of the operations modelled here, whatever their arguments, failures and outcomes: the generations of a
  node stay numbered without a gap from 1 to its desired generation, each with a valid state and its checksum, the
  applied generation is one that an agent has acknowledged with the right checksum; and the ledger only grows: no generation
  disappears or changes its content, none that is applied becomes unapplied, and the desired and applied
  generations of a node never go back.\<close>

theorem ledger_continues:
  assumes "ledger_ok cx db" and "(store_step cx)\<^sup>*\<^sup>* db db'"
  shows "ledger_ok cx db' \<and> continues (ledger db) (ledger db')"
proof -
  have "grown cx (ledger db) db" using assms(1) continues_refl by (simp add: grown_def ledger_ok_def)
  from growth.run [OF assms(2) this] show ?thesis by (simp add: grown_def ledger_ok_def)
qed

lemma ensure_pending_run: "(store_step cx)\<^sup>*\<^sup>* (se_db s) (se_db (snd (EnsurePendingNode nodeID s)))"
  unfolding store_step_def
  by (rule r_into_rtranclp, rule exI, rule store_call.ensure_pending [of nodeID s "fst (EnsurePendingNode nodeID s)"]) simp

theorem ledger_continues_witness:
  "\<forall>cx. ledger_ok cx (se_db (snd (EnsurePendingNode ''n'' (idle_session empty_database)))) \<and>
     continues (ledger empty_database) (ledger (se_db (snd (EnsurePendingNode ''n'' (idle_session empty_database)))))"
proof
  fix cx
  have "(store_step cx)\<^sup>*\<^sup>* empty_database (se_db (snd (EnsurePendingNode ''n'' (idle_session empty_database))))"
    using ensure_pending_run [of cx "idle_session empty_database" "''n''"] by simp
  with ledger_continues [OF empty_ledger_ok] show "ledger_ok cx (se_db (snd (EnsurePendingNode ''n'' (idle_session empty_database)))) \<and>
     continues (ledger empty_database) (ledger (se_db (snd (EnsurePendingNode ''n'' (idle_session empty_database)))))" .
qed

lemma node_of_unique:
  assumes "identity_ok db" "n \<in> set (db_nodes db)"
  shows "node_of db (no_id n) = Some n"
  unfolding node_of_def by (rule find_key [OF _ assms(2)]) (use identities_okD(1) [OF identity_okE [OF assms(1)]] in \<open>simp add: comp_def\<close>)

lemma yields_refuses: "yields P m (\<lambda>_ _. False) \<Longrightarrow> P (se_db s) \<Longrightarrow> \<exists>e. fst (m s) = Inl e"
  by (cases "m s"; cases "fst (m s)") (auto dest: yieldsD)

lemma yields_transaction:
  assumes "yields P body (\<lambda>e db. case e of Commit _ x \<Rightarrow> Q x db | Abandon x \<Rightarrow> False)"
  shows "yields P (transaction what body) Q"
  by (rule yieldsI) (use transaction_yields [of P body Q "\<lambda>_. False", OF assms] in blast)

lemma AuthorizeNodeKey_barred: "yields (\<lambda>db. identity_ok db \<and> barred nid db) (AuthorizeNodeKey nid key) (\<lambda>_ _. False)"
proof -
  have revoked: "x \<noteq> None" if "identity_ok db" and barred: "barred nid db" and "authorized_pair db nid fp = Some (x, y, z)" for db fp x y z
  proof -
    obtain n where n: "n \<in> set (db_nodes db)" "no_id n = nid" "no_revoked n \<noteq> None" using barred unfolding barred_iff by blast
    have "x = no_revoked n" using node_of_unique [OF that(1) n(1)] that(3) n(2) by (auto simp: authorized_pair_def)
    with n(3) show ?thesis by simp
  qed
  show ?thesis unfolding AuthorizeNodeKey_def by (intro forwards) (auto dest: revoked [OF _ _ sym] revoked)
qed

lemma RevokeNode_bars: "yields (\<lambda>db. \<exists>k\<in>set (db_keys db). ky_node k = nid) (RevokeNode nid now) (\<lambda>_. barred nid)"
proof -
  have bars: "barred nid (db'\<lparr>db_keys := rewrite p (\<lambda>k. k\<lparr>ky_revoked := coalesce (ky_revoked k) now\<rparr>) (db_keys db'), db_tokens := ts\<rparr>)"
    if k: "k \<in> set (db_keys db)" "ky_node k = nid" and n: "node_of db nid = Some n"
      and wrote: "write_nodes (\<lambda>n. no_id n = nid) (\<lambda>n. n\<lparr>no_revoked := coalesce (no_revoked n) now\<rparr>) db = Some (db', m)" for k n db db' m p ts
  proof -
    have db': "db' = db\<lparr>db_nodes := rewrite (\<lambda>n. no_id n = nid) (\<lambda>n. n\<lparr>no_revoked := coalesce (no_revoked n) now\<rparr>) (db_nodes db)\<rparr>"
      using wrote by (simp add: write_nodes_def)
    have node: "n \<in> set (db_nodes db)" "no_id n = nid" using node_of_Some [OF n] by auto
    have "\<exists>n\<in>set (rewrite (\<lambda>n. no_id n = nid) (\<lambda>n. n\<lparr>no_revoked := coalesce (no_revoked n) now\<rparr>) (db_nodes db)). no_id n = nid \<and> no_revoked n \<noteq> None"
      unfolding set_rewrite by (rule bexI [OF _ imageI [OF node(1)]]) (use node(2) in simp)
    moreover have "\<exists>k\<in>set (rewrite p (\<lambda>k. k\<lparr>ky_revoked := coalesce (ky_revoked k) now\<rparr>) (db_keys db)). ky_node k = nid"
      unfolding set_rewrite by (rule bexI [OF _ imageI [OF k(1)]]) (use k(2) in simp)
    ultimately show ?thesis unfolding barred_iff db' by simp
  qed
  show ?thesis unfolding RevokeNode_def
    by (rule yields_upholds, rule upholds_same, rule identifier_steady, rule yields_guard, rule yields_transaction, intro forwards)
      (auto dest: bars)
qed

text \<open>C11. Revocation is final: once an enrolled node is revoked, no sequence of calls of the operations modelled here lets any key be authorised
  for it again.\<close>

theorem revoked_stays_out:
  assumes "identity_ok (se_db s)" and "k \<in> set (db_keys (se_db s))" and "ky_node k = nid" and "RevokeNode nid now s = (Inr (), s')"
    and "(store_step cx)\<^sup>*\<^sup>* (se_db s') (se_db t)"
  shows "\<exists>e. fst (AuthorizeNodeKey nid key t) = Inl e"
proof (rule yields_refuses [OF AuthorizeNodeKey_barred], rule conjI)
  have "identity_ok (se_db s')" using keepsD [OF RevokeNode_ok assms(1) assms(4)] .
  then show "identity_ok (se_db t)" by (rule identity.run [OF assms(5)])
  have "barred nid (se_db s')" by (rule yieldsD [OF RevokeNode_bars _ assms(4)]) (use assms(2,3) in blast)
  then show "barred nid (se_db t)" by (rule exclusion.run [OF assms(5)])
qed

definition sample_enrolled :: database where
  "sample_enrolled = empty_database\<lparr>db_nodes := [new_node ''n''], db_keys := [\<lparr>ky_fingerprint = fingerprint ''key'', ky_node = ''n'',
     ky_public_key = ''key'', ky_created = 1, ky_last_seen = None, ky_revoked = None\<rparr>]\<rparr>"

lemma sample_enrolled_ok: "identity_ok sample_enrolled"
  by (simp add: identity_ok_def identities_def sample_enrolled_def empty_database_def identities_ok_def new_node_def)

theorem revoked_stays_out_witness:
  "\<exists>s'. RevokeNode ''n'' 1 (idle_session sample_enrolled) = (Inr (), s') \<and> (\<forall>key. \<exists>e. fst (AuthorizeNodeKey ''n'' key s') = Inl e)"
proof -
  let ?s = "idle_session sample_enrolled"
  have "validIdentifier ''n''" by code_simp
  then have "\<exists>s'. RevokeNode ''n'' 1 ?s = (Inr (), s')"
    by (simp add: RevokeNode_def identifier_error_def ValidateIdentifier_def IsZero_def quiet sample_enrolled_def node_of_def new_node_def
        write_nodes_def finish_def)
  then obtain s' where run: "RevokeNode ''n'' 1 ?s = (Inr (), s')" by blast
  obtain k where "k \<in> set (db_keys (se_db ?s))" "ky_node k = ''n''" by (simp add: sample_enrolled_def)
  then have "\<exists>e. fst (AuthorizeNodeKey ''n'' key s') = Inl e" for key
    by (rule revoked_stays_out [of ?s, OF _ _ _ run rtranclp.rtrancl_refl [of "store_step undefined"], rotated]) (simp add: sample_enrolled_ok)
  with run show ?thesis by blast
qed

section \<open>Well-formed identities\<close>

lemma at_most_one: "sorted_wrt (\<lambda>a b. \<not> (P a \<and> P b)) xs \<Longrightarrow> length (filter P xs) \<le> 1"
  by (induction xs) (auto simp: filter_empty_conv)

lemma one_active_key:
  assumes "identity_ok db"
  shows "length (filter (\<lambda>k. ky_node k = nid \<and> ky_revoked k = None) (db_keys db)) \<le> 1"
proof (rule at_most_one)
  have "sorted_wrt (\<lambda>(_, n, _, r) (_, m, _, q). \<not> (n = m \<and> r = None \<and> q = None)) (map (\<lambda>k. (ky_fingerprint k, ky_node k, ky_public_key k, ky_revoked k)) (db_keys db))"
    using assms by (simp add: identity_ok_def identities_ok_def identities_def)
  then show "sorted_wrt (\<lambda>a b. \<not> ((ky_node a = nid \<and> ky_revoked a = None) \<and> ky_node b = nid \<and> ky_revoked b = None)) (db_keys db)"
    unfolding sorted_wrt_map by (rule sorted_wrt_mono_rel [rotated]) simp
qed

text \<open>C18. The tables of identities stay well formed over every sequence of calls: names of nodes and hashes of tokens are unique, every key belongs to a
  node there is and is stored under its own fingerprint, no node has two active keys, and a revoked node has neither an active key nor an unused
  token.\<close>

theorem identities_well_formed:
  assumes "identity_ok db0" and "(store_step cx)\<^sup>*\<^sup>* db0 db"
  shows "distinct (map no_id (db_nodes db)) \<and> distinct (map tk_hash (db_tokens db)) \<and>
    (\<forall>k\<in>set (db_keys db). ky_fingerprint k = fingerprint (ky_public_key k) \<and> ky_node k \<in> no_id ` set (db_nodes db)) \<and>
    (\<forall>t\<in>set (db_tokens db). tk_node t \<in> no_id ` set (db_nodes db)) \<and>
    (\<forall>nid. length (filter (\<lambda>k. ky_node k = nid \<and> ky_revoked k = None) (db_keys db)) \<le> 1) \<and>
    (\<forall>n\<in>set (db_nodes db). no_revoked n \<noteq> None \<longrightarrow>
       (\<forall>k\<in>set (db_keys db). ky_node k = no_id n \<longrightarrow> ky_revoked k \<noteq> None) \<and> (\<forall>t\<in>set (db_tokens db). tk_node t = no_id n \<longrightarrow> tk_used t \<noteq> None))"
proof -
  have ok: "identity_ok db" by (rule identity.run [OF assms(2,1)])
  note D = identities_okD [OF ok [unfolded identity_ok_def identities_def]]
  have "distinct (map no_id (db_nodes db))" "distinct (map tk_hash (db_tokens db))" using D(1,2) by (simp_all add: comp_def)
  moreover have "ky_fingerprint k = fingerprint (ky_public_key k) \<and> ky_node k \<in> no_id ` set (db_nodes db)" if "k \<in> set (db_keys db)" for k
  proof -
    have "(ky_fingerprint k, ky_node k, ky_public_key k, ky_revoked k) \<in> set (map (\<lambda>k. (ky_fingerprint k, ky_node k, ky_public_key k, ky_revoked k)) (db_keys db))"
      using that by simp
    from D(3,4) [OF this] show ?thesis by (simp add: image_image)
  qed
  moreover have "tk_node t \<in> no_id ` set (db_nodes db)" if "t \<in> set (db_tokens db)" for t using D(5) [OF that] by (simp add: image_image)
  moreover have "ky_revoked k \<noteq> None" if "n \<in> set (db_nodes db)" "no_revoked n \<noteq> None" "k \<in> set (db_keys db)" "ky_node k = no_id n" for n k
    using D(6) [of "no_id n" "the (no_revoked n)" "ky_fingerprint k" "ky_public_key k" "ky_revoked k"] that by force
  moreover have "tk_used t \<noteq> None" if "n \<in> set (db_nodes db)" "no_revoked n \<noteq> None" "t \<in> set (db_tokens db)" "tk_node t = no_id n" for n t
    using D(7) [OF that(3), of "the (no_revoked n)"] that by force
  ultimately show ?thesis using one_active_key [OF ok] by blast
qed

theorem identities_well_formed_witness:
  "\<forall>cx. (store_step cx)\<^sup>*\<^sup>* sample_enrolled (se_db (snd (EnsurePendingNode ''m'' (idle_session sample_enrolled)))) \<and>
     distinct (map no_id (db_nodes (se_db (snd (EnsurePendingNode ''m'' (idle_session sample_enrolled))))))"
proof
  fix cx
  have run: "(store_step cx)\<^sup>*\<^sup>* sample_enrolled (se_db (snd (EnsurePendingNode ''m'' (idle_session sample_enrolled))))"
    using ensure_pending_run [of cx "idle_session sample_enrolled" "''m''"] by simp
  with identities_well_formed [OF sample_enrolled_ok run] show "(store_step cx)\<^sup>*\<^sup>* sample_enrolled (se_db (snd (EnsurePendingNode ''m'' (idle_session sample_enrolled)))) \<and>
     distinct (map no_id (db_nodes (se_db (snd (EnsurePendingNode ''m'' (idle_session sample_enrolled))))))" by blast
qed

section \<open>Failures\<close>

definition clean_failure :: "'a sql \<Rightarrow> session \<Rightarrow> bool" where
  "clean_failure m s \<longleftrightarrow> (\<forall>e s'. m s = (Inl e, s') \<longrightarrow> se_db s' = se_db s)"

lemma clean_transaction: "clean_failure (transaction what body) s"
  by (auto simp: clean_failure_def dest: transaction_error)

lemma clean_steady: "steady se_db m \<Longrightarrow> clean_failure m s"
  by (auto simp: clean_failure_def dest: steadyD)

lemma clean_after: "steady se_db m \<Longrightarrow> (\<And>x s'. se_db s' = se_db s \<Longrightarrow> clean_failure (f x) s') \<Longrightarrow> clean_failure (andthen m f) s"
  unfolding clean_failure_def andthen_Inl_iff by (metis steadyD)

lemma clean_then: "steady se_db m \<Longrightarrow> (\<And>x s. clean_failure (f x) s) \<Longrightarrow> clean_failure (andthen m f) s"
  by (rule clean_after)

lemma clean_guard: "(\<And>s. clean_failure (f ()) s) \<Longrightarrow> clean_failure (andthen (guard c e) f) s"
  by (rule clean_then) (simp_all add: steady_guard)

lemma clean_identifier: "(\<And>x s. clean_failure (f x) s) \<Longrightarrow> clean_failure (andthen (identifier_error nodeID) f) s"
  by (rule clean_then) (simp_all add: identifier_steady)

lemma clean_throw: "clean_failure (throw e) s"
  by (simp add: clean_failure_def throw_def)

lemma clean_option: "(\<And>s. clean_failure m s) \<Longrightarrow> (\<And>y s. clean_failure (f y) s) \<Longrightarrow> clean_failure (case x of None \<Rightarrow> m | Some y \<Rightarrow> f y) s"
  by (cases x) simp_all

lemma clean_Let: "(\<And>y. clean_failure (f y) s) \<Longrightarrow> clean_failure (Let x f) s"
  by simp

lemmas clean = clean_transaction clean_guard clean_identifier clean_throw clean_option clean_Let

lemma clean_operations:
  "clean_failure (EnsurePendingNode nodeID) s" "clean_failure (DeletePendingNode nodeID) s" "clean_failure (CreateEnrollmentToken random nodeID ttl) s"
  "clean_failure (CompleteEnrollment nodeID token publicKey) s" "clean_failure (RecordHello cx hello) s" "clean_failure (RevokeNode nodeID now) s"
  "clean_failure (PublishDesired cx nodeID desired caps) s" "clean_failure (RecordApplyResult cx ack) s" "clean_failure (RecordUsageBatch cx batch) s"
  "clean_failure (EnforcePolicies cx limit now) s" "clean_failure (AdvanceClusterRollouts cx owner limit now) s" "clean_failure (ClaimOutbox owner limit lease) s"
  unfolding EnsurePendingNode_def DeletePendingNode_def CreateEnrollmentToken_def CompleteEnrollment_def RecordHello_def RevokeNode_def PublishDesired_def
    RecordApplyResult_def RecordUsageBatch_def EnforcePolicies_def AdvanceClusterRollouts_def ClaimOutbox_def
  by (intro clean)+

text \<open>A single statement that is to change exactly one row: with a unique key it changes none otherwise.\<close>

lemma rewrite_none:
  assumes "length (filter p rows) \<le> Suc 0" "length (filter p rows) \<noteq> Suc 0"
  shows "rewrite p f rows = rows"
proof -
  have "filter p rows = []" using assms by (cases "filter p rows") auto
  then show ?thesis by (auto simp: rewrite_def filter_empty_conv intro: map_idI)
qed

lemma one_row:
  assumes "distinct (map k rows)"
  shows "length (filter (\<lambda>r. k r = x \<and> q r) rows) \<le> 1"
  using assms by (induction rows) (auto simp: filter_empty_conv rev_image_eqI)

lemma exec_Inl: "exec what g s = (Inl e, s') \<Longrightarrow> se_db s' = se_db s"
  by (auto simp: exec_def change_def andthen_Inl_iff driver_def split: option.splits list.splits if_splits)

lemma clean_single:
  assumes "\<And>db' n. g (se_db s) = Some (db', n) \<Longrightarrow> n \<noteq> 1 \<Longrightarrow> db' = se_db s"
  shows "clean_failure (andthen (exec what g) (\<lambda>n. guard (n \<noteq> 1) e)) s"
  unfolding clean_failure_def andthen_Inl_iff
  by (auto simp: guard_def throw_def return_def split: if_splits dest: exec_Inl dest!: exec_Inr assms)

lemma clean_RecordHeartbeat:
  assumes "distinct (map no_id (db_nodes (se_db s)))"
  shows "clean_failure (RecordHeartbeat nodeID observedAt) s"
  unfolding RecordHeartbeat_def
proof (rule clean_single)
  fix db' n assume "write_nodes (\<lambda>n. no_id n = nodeID \<and> no_revoked n = None) (\<lambda>n. n\<lparr>no_last_seen := Some observedAt\<rparr>) (se_db s) = Some (db', n)" "n \<noteq> 1"
  moreover have "length (filter (\<lambda>n. no_id n = nodeID \<and> no_revoked n = None) (db_nodes (se_db s))) \<le> 1" by (rule one_row [OF assms])
  ultimately show "db' = se_db s" by (auto simp: write_nodes_def rewrite_none)
qed

lemma clean_MarkOutboxDelivered:
  assumes "distinct (map ob_id (db_outbox (se_db s)))"
  shows "clean_failure (MarkOutboxDelivered owner eventID) s"
  unfolding MarkOutboxDelivered_def
proof (rule clean_after, rule current_timestamp_db [of "\<lambda>db. db"], rule clean_single)
  fix now s' db' n
  assume same: "se_db s' = se_db s" and "write_events (\<lambda>e. ob_id e = eventID \<and> ob_leased_by e = Some owner \<and> ob_delivered e = None)
    (\<lambda>e. e\<lparr>ob_delivered := Some (AtSecond now), ob_leased_by := None, ob_leased_until := None\<rparr>) (se_db s') = Some (db', n)" "n \<noteq> 1"
  moreover have "length (filter (\<lambda>e. ob_id e = eventID \<and> ob_leased_by e = Some owner \<and> ob_delivered e = None) (db_outbox (se_db s))) \<le> 1"
    by (rule one_row [OF assms])
  ultimately show "db' = se_db s'" by (auto simp: write_events_def rewrite_none)
qed

lemma clean_ReleaseOutbox: "clean_failure (ReleaseOutbox owner eventID reason) s"
  unfolding ReleaseOutbox_def
  by (rule clean_after, rule time_Now_db [of "\<lambda>db. db"])
    (auto simp: clean_failure_def andthen_Inl_iff return_def dest: exec_Inl)

lemma isl_clean: "clean_failure m s \<Longrightarrow> m s = (r, s') \<Longrightarrow> isl r \<Longrightarrow> se_db s' = se_db s"
  by (cases r) (auto simp: clean_failure_def)

text \<open>C19. A call of one of the operations modelled here that returns an error has not changed the database: each takes effect as a whole or not at all, wherever in it
  the driver fails and whatever it was asked, when the names of nodes and the numbers of events are unique, which the primary keys of their tables see to.
  Operations that consist of several transactions, such as the enforcement of quotas on the cluster's plans, are not among them.\<close>

theorem failed_call_changes_nothing:
  assumes "store_call cx True db db'" and "distinct (map no_id (db_nodes db))" and "distinct (map ob_id (db_outbox db))"
  shows "db' = db"
  using assms(1)
  by (cases rule: store_call.cases)
    (use assms(2,3) in \<open>auto dest!: isl_clean [rotated] simp: clean_operations clean_RecordHeartbeat clean_MarkOutboxDelivered clean_ReleaseOutbox\<close>)

theorem failed_call_changes_nothing_witness:
  "\<forall>cx. store_call cx True empty_database (se_db (snd (RecordHeartbeat ''n'' 1 (idle_session empty_database)))) \<and>
     se_db (snd (RecordHeartbeat ''n'' 1 (idle_session empty_database))) = empty_database"
proof
  fix cx
  let ?s = "idle_session empty_database"
  have "isl (fst (RecordHeartbeat ''n'' 1 ?s))" by (simp add: RecordHeartbeat_def quiet write_nodes_def empty_database_def)
  then have call: "store_call cx True empty_database (se_db (snd (RecordHeartbeat ''n'' 1 ?s)))"
    using store_call.heartbeat [of "''n''" 1 ?s "fst (RecordHeartbeat ''n'' 1 ?s)" "snd (RecordHeartbeat ''n'' 1 ?s)" cx] by simp
  then show "store_call cx True empty_database (se_db (snd (RecordHeartbeat ''n'' 1 ?s))) \<and> se_db (snd (RecordHeartbeat ''n'' 1 ?s)) = empty_database"
    using failed_call_changes_nothing [OF call] by (simp add: empty_database_def)
qed

end
