(* ===== verification/Store_Snapshot.thy ===== *)
theory Store_Snapshot
  imports Store_System
begin

text \<open>
  What an agent is sent: the newest generation of its node, whose text decodes to the valid canonical state that was
  published, with its checksum, and which the agent is capable of.
\<close>

section \<open>Stored states decode\<close>

text \<open>Decoding inverts the encoding of a canonical state.\<close>

definition faithful_json :: "codecs \<Rightarrow> bool" where
  "faithful_json cx \<longleftrightarrow> (\<forall>d t. Validate d = [] \<longrightarrow> cx_marshal cx (Canonical d) = Some t \<longrightarrow> cx_unmarshal cx t = Some (Canonical d, False))"

definition within_limit :: "database \<Rightarrow> bool" where
  "within_limit db \<longleftrightarrow> (\<forall>g\<in>set (db_generations db). length (ge_state g) \<le> MaxDesiredJSONBytes)"

lemma Canonical_accepted: "Validate d = [] \<Longrightarrow> Validate (Canonical d) = []"
  using Canonical_well_formed by (simp add: Validate_well_formed)

lemma stored_decodes:
  assumes "faithful_json cx" "stores cx g d" "length (ge_state g) \<le> MaxDesiredJSONBytes"
  shows "DecodeDesiredJSON cx (ge_state g) = Inr (Canonical d)"
proof -
  have "Validate d = []" "cx_marshal cx (Canonical d) = Some (ge_state g)" using assms(2) by (simp_all add: stores_def)
  then have "cx_unmarshal cx (ge_state g) = Some (Canonical d, False)" using assms(1) by (simp add: faithful_json_def)
  with assms(3) \<open>Validate d = []\<close> show ?thesis by (simp add: DecodeDesiredJSON_def Canonical_accepted Canonical_fixed)
qed

lemma Canonical_head: "ds_NodeID (Canonical d) = ds_NodeID d" "ds_Generation (Canonical d) = ds_Generation d" "ds_SchemaVersion (Canonical d) = ds_SchemaVersion d"
  by (simp_all add: Canonical_def)

section \<open>The newest generation\<close>

lemma newest_order: "slice_order (\<lambda>a b. ge_generation a > ge_generation b)"
  by unfold_locales auto

lemma newest_generation_desired:
  assumes ok: "ledger_ok cx db" and row: "(nid, d, a, c) \<in> set (fst (ledger db))" and "0 < d"
  shows "\<exists>g\<in>set (db_generations db). newest_generation db nid = Some g \<and> ge_node g = nid \<and> ge_generation g = d"
proof -
  let ?gs = "filter (\<lambda>g. ge_node g = nid) (db_generations db)" and ?sort = "sort_less (\<lambda>a b. ge_generation a > ge_generation b)"
  have view: "ledger_view_ok cx (fst (ledger db), db_generations db)" using ok by (simp add: ledger_ok_def ledger_def)
  obtain q where q: "q \<in> set ?gs" "ge_generation q = d" using ledger_view_okD(6) [OF view row, of d] assms(3) by auto
  then have "?sort ?gs \<noteq> []" by (metis empty_iff empty_set sort_less_Nil)
  then obtain g rest where sorted: "?sort ?gs = g # rest" by (cases "?sort ?gs") auto
  then have "g \<in> set (?sort ?gs)" by simp
  then have g: "g \<in> set ?gs" by simp
  have "\<not> ge_generation q > ge_generation g" using slice_order.hd_slice_least [OF newest_order q(1)] sorted by simp
  moreover obtain d' a' c' where d': "(ge_node g, d', a', c') \<in> set (fst (ledger db))" "ge_generation g \<le> d'"
    using ledger_view_okD(4) [OF view, of g] g by auto
  moreover have "d' = d" using unique_row [OF ledger_view_okD(1) [OF view] row, of "(d', a', c')"] d'(1) g by simp
  ultimately have "ge_generation g = d" using q(2) by simp
  with g sorted show ?thesis by (auto simp: newest_generation_def)
qed

text \<open>C7. What an agent receives: for a node with a desired generation, the latest snapshot is that generation; its text decodes,
  without error, to a valid state of this node with this generation, whose checksum is the snapshot's, and which an
  agent of this version can apply. The JSON library is assumed to decode what it encoded, and the stored texts to be within the
  decoder's limit.\<close>

theorem snapshot_delivers:
  assumes "ledger_ok cx (se_db s)" and "faithful_json cx" and "within_limit (se_db s)" and "se_answers s = []"
    and "n \<in> set (db_nodes (se_db s))" and "0 < no_desired n"
  shows "\<exists>snapshot state. LatestSnapshot (no_id n) s = (Inr (Some snapshot), s) \<and>
    sp_NodeID snapshot = no_id n \<and> sp_Generation snapshot = uint64 (no_desired n) \<and>
    DecodeDesiredJSON cx (sp_DesiredStateJSON snapshot) = Inr state \<and> Validate state = [] \<and>
    ds_NodeID state = no_id n \<and> int64 (ds_Generation state) = no_desired n \<and> ds_SchemaVersion state = sp_SchemaVersion snapshot \<and>
    Checksum (cx_marshal cx) state = Some (sp_DesiredChecksum snapshot) \<and>
    MissingCapabilities (map Some DefaultCapabilities) (map Some (RequiredCapabilities state)) = []"
proof -
  have row: "(no_id n, no_desired n, no_applied n, no_applied_checksum n) \<in> set (fst (ledger (se_db s)))" using assms(5) by (auto simp: ledger_def)
  obtain g where g: "g \<in> set (db_generations (se_db s))" "newest_generation (se_db s) (no_id n) = Some g" "ge_node g = no_id n" "ge_generation g = no_desired n"
    using newest_generation_desired [OF assms(1) row assms(6)] by blast
  obtain d where d: "stores cx g d" using ledger_view_okD(3) [OF ledger_okE [OF assms(1)] g(1)] by blast
  let ?snapshot = "\<lparr>sp_NodeID = ge_node g, sp_Generation = uint64 (ge_generation g), sp_SchemaVersion = ge_schema g,
       sp_DesiredChecksum = ge_checksum g, sp_DesiredStateJSON = ge_state g, sp_RequiredCapabilities = ge_capabilities g, sp_CreatedAt = ge_created g\<rparr>"
  have "DecodeDesiredJSON cx (ge_state g) = Inr (Canonical d)" using stored_decodes [OF assms(2) d] assms(3) g(1) by (simp add: within_limit_def)
  moreover have "Checksum (cx_marshal cx) (Canonical d) = Some (ge_checksum g)" using d by (auto simp: stores_def Checksum_def Canonical_fixed)
  moreover have "Validate (Canonical d) = []" using d by (simp add: stores_def Canonical_accepted)
  moreover have "LatestSnapshot (no_id n) s = (Inr (Some ?snapshot), s)"
    using assms(4) g(2) by (simp add: LatestSnapshot_def quiet)
  ultimately show ?thesis using d g(3,4) supported_default [of "Canonical d"]
    by (intro exI [of _ ?snapshot] exI [of _ "Canonical d"]) (simp_all add: stores_def Canonical_head)
qed

section \<open>A sample\<close>

text \<open>One node with one generation, over a codec that knows its state.\<close>

definition sample_codecs :: codecs where
  "sample_codecs = \<lparr>cx_marshal = (\<lambda>d. if d = Canonical sample_state then Some ''state'' else None),
     cx_unmarshal = (\<lambda>t. if t = ''state'' then Some (Canonical sample_state, False) else None), cx_capabilities = (\<lambda>_. Some ''[]''),
     cx_json_valid = (\<lambda>_. True), cx_to_ascii = Some, cx_plan = (\<lambda>_. None), cx_detail = (\<lambda>_. None)\<rparr>"

definition sample_generation :: generation_row where
  "sample_generation = \<lparr>ge_node = ''ingress-1'', ge_generation = 1, ge_schema = SchemaVersionV5, ge_checksum = hex_EncodeToString (Sum256 ''state''),
     ge_state = ''state'', ge_capabilities = ''[]'', ge_status = ''pending'', ge_created = 1, ge_applied_at = None\<rparr>"

definition sample_published :: database where
  "sample_published = empty_database\<lparr>db_nodes := [(new_node ''ingress-1'')\<lparr>no_desired := 1\<rparr>], db_generations := [sample_generation]\<rparr>"

lemma sample_faithful: "faithful_json sample_codecs"
  by (simp add: faithful_json_def sample_codecs_def)

lemma sample_stores: "stores sample_codecs sample_generation sample_state"
  using sample_valid by (simp add: stores_def sample_codecs_def sample_generation_def Checksum_def) (simp add: sample_state_def int64_def)

lemma sample_ledger_ok: "ledger_ok sample_codecs sample_published"
proof -
  have "ge_node sample_generation = ''ingress-1''" "ge_generation sample_generation = 1" by (simp_all add: sample_generation_def)
  then show ?thesis unfolding ledger_ok_def ledger_def sample_published_def
    using sample_stores by (simp add: new_node_def empty_database_def, intro ledger_view_okI) (auto simp: MaxInt64_def)
qed

lemma sample_within: "within_limit sample_published"
  by (simp add: within_limit_def sample_published_def sample_generation_def MaxDesiredJSONBytes_def)

theorem snapshot_delivers_witness:
  "\<exists>snapshot state. LatestSnapshot ''ingress-1'' (idle_session sample_published) = (Inr (Some snapshot), idle_session sample_published) \<and>
     sp_Generation snapshot = 1 \<and> DecodeDesiredJSON sample_codecs (sp_DesiredStateJSON snapshot) = Inr state \<and> ds_NodeID state = ''ingress-1''"
  using snapshot_delivers [of sample_codecs "idle_session sample_published" "(new_node ''ingress-1'')\<lparr>no_desired := 1\<rparr>"]
    sample_ledger_ok sample_faithful sample_within
  by (simp add: sample_published_def new_node_def uint64_def) blast

end
