(* ===== verification/Store_Usage.thy ===== *)
theory Store_Usage
  imports Store_Snapshot
begin

text \<open>
  Usage is charged exactly once: a rollup is the sum of the deltas that were accepted for it, up to the range of SQLite's exact
  integers, along every run of the store; and a batch that is reported again, whenever, is not counted again.
\<close>

section \<open>Accounts\<close>

definition exact_total :: "int list \<Rightarrow> quantity" where
  "exact_total xs = (if sum_list xs \<le> MaxInt64 then Exact (sum_list xs) else Inexact)"

lemma quantity_add_total: "\<forall>x\<in>set xs. 0 \<le> x \<Longrightarrow> 0 \<le> b \<Longrightarrow> quantity_add (exact_total xs) b = exact_total (xs @ [b])"
  using sum_list_nonneg [of xs] by (auto simp: exact_total_def)

definition accounted :: "database \<Rightarrow> bool" where
  "accounted db \<longleftrightarrow>
     (\<forall>d\<in>set (db_deltas db). 0 \<le> de_bytes d \<and> 0 \<le> de_packets d \<and> (\<exists>r\<in>set (db_rollups db). rolls_up d r)) \<and>
     (\<forall>r\<in>set (db_rollups db). ru_bytes r = exact_total (map de_bytes (filter (\<lambda>d. rolls_up d r) (db_deltas db))) \<and>
        ru_packets r = exact_total (map de_packets (filter (\<lambda>d. rolls_up d r) (db_deltas db))))"

definition billed :: "codecs \<Rightarrow> database \<Rightarrow> bool" where
  "billed cx db \<longleftrightarrow> ledger_ok cx db \<and> accounted db \<and> (\<forall>r\<in>set (db_rollups db). \<exists>g\<in>set (db_generations db). ge_node g = ru_node r)"

text \<open>One delta.\<close>

lemma rolls_up_key: "rolls_up d r \<Longrightarrow> rolls_up e r \<Longrightarrow> rolls_up d q = rolls_up e q"
  by (auto simp: rolls_up_def)

lemma add_delta_accounted:
  assumes ok: "accounted db" and d: "0 \<le> de_bytes d" "0 \<le> de_packets d" "de_bytes d \<le> MaxInt64" "de_packets d \<le> MaxInt64"
  shows "accounted (add_rollup d (db\<lparr>db_deltas := db_deltas db @ [d]\<rparr>))"
proof -
  let ?bump = "\<lambda>r. r\<lparr>ru_user := de_user d, ru_packets := quantity_add (ru_packets r) (de_packets d), ru_bytes := quantity_add (ru_bytes r) (de_bytes d)\<rparr>"
  let ?new = "\<lparr>ru_node = de_node d, ru_forward = de_forward d, ru_user = de_user d, ru_protocol = de_protocol d, ru_direction = de_direction d,
       ru_packets = Exact (de_packets d), ru_bytes = Exact (de_bytes d)\<rparr>"
  have key: "rolls_up e (r\<lparr>ru_user := u, ru_packets := p, ru_bytes := b\<rparr>) = rolls_up e r" for e r u p b by (simp add: rolls_up_def)
  have self: "rolls_up d ?new" by (simp add: rolls_up_def)
  have nonneg: "\<forall>x\<in>set (map de_bytes (filter (\<lambda>d. rolls_up d r) (db_deltas db))). 0 \<le> x" "\<forall>x\<in>set (map de_packets (filter (\<lambda>d. rolls_up d r) (db_deltas db))). 0 \<le> x" for r
    using ok by (auto simp: accounted_def)
  have sums: "ru_bytes r = exact_total (map de_bytes (filter (\<lambda>d. rolls_up d r) (db_deltas db)))" "ru_packets r = exact_total (map de_packets (filter (\<lambda>d. rolls_up d r) (db_deltas db)))"
    if "r \<in> set (db_rollups db)" for r using ok that by (auto simp: accounted_def)
  have rolled: "\<exists>r\<in>set (db_rollups db). rolls_up e r" "0 \<le> de_bytes e" "0 \<le> de_packets e" if "e \<in> set (db_deltas db)" for e using ok that by (auto simp: accounted_def)
  have deltas: "db_deltas (add_rollup d (db\<lparr>db_deltas := db_deltas db @ [d]\<rparr>)) = db_deltas db @ [d]" by (simp add: add_rollup_def)
  have positive: "0 \<le> de_bytes e \<and> 0 \<le> de_packets e" if "e \<in> set (db_deltas db @ [d])" for e using that rolled d by auto
  show ?thesis
  proof (cases "list_ex (rolls_up d) (db_rollups db)")
    case True
    then obtain q where q: "q \<in> set (db_rollups db)" "rolls_up d q" by (auto simp: list_ex_iff)
    have rows: "db_rollups (add_rollup d (db\<lparr>db_deltas := db_deltas db @ [d]\<rparr>)) = rewrite (rolls_up d) ?bump (db_rollups db)"
      using True by (simp add: add_rollup_def upsert_def)
    have "\<exists>r\<in>set (rewrite (rolls_up d) ?bump (db_rollups db)). rolls_up e r" if e: "e \<in> set (db_deltas db @ [d])" for e
    proof -
      obtain r where "r \<in> set (db_rollups db)" "rolls_up e r" using e rolled(1) [of e] q by (cases "e = d") auto
      then show ?thesis by (intro bexI [of _ "if rolls_up d r then ?bump r else r"]) (auto simp: key in_rewrite)
    qed
    moreover have "ru_bytes r = exact_total (map de_bytes (filter (\<lambda>d. rolls_up d r) (db_deltas db @ [d]))) \<and>
        ru_packets r = exact_total (map de_packets (filter (\<lambda>d. rolls_up d r) (db_deltas db @ [d])))" if r: "r \<in> set (rewrite (rolls_up d) ?bump (db_rollups db))" for r
    proof -
      obtain q where "q \<in> set (db_rollups db)" "r = (if rolls_up d q then ?bump q else q)" using r by (auto simp: in_rewrite)
      then show ?thesis using sums quantity_add_total [OF nonneg(1) d(1)] quantity_add_total [OF nonneg(2) d(2)] by (simp add: key)
    qed
    ultimately show ?thesis unfolding accounted_def rows deltas using positive by blast
  next
    case False
    have rows: "db_rollups (add_rollup d (db\<lparr>db_deltas := db_deltas db @ [d]\<rparr>)) = db_rollups db @ [?new]" using False by (simp add: add_rollup_def upsert_def)
    have fresh: "\<not> rolls_up e ?new" if e: "e \<in> set (db_deltas db)" for e
    proof
      assume "rolls_up e ?new"
      moreover obtain r where "r \<in> set (db_rollups db)" "rolls_up e r" using rolled [OF e] by blast
      ultimately show False using False rolls_up_key [OF self, of e r] by (auto simp: list_ex_iff)
    qed
    then have "filter (\<lambda>e. rolls_up e ?new) (db_deltas db) = []" by (simp add: filter_empty_conv)
    then have "ru_bytes r = exact_total (map de_bytes (filter (\<lambda>d. rolls_up d r) (db_deltas db @ [d]))) \<and>
        ru_packets r = exact_total (map de_packets (filter (\<lambda>d. rolls_up d r) (db_deltas db @ [d])))" if "r \<in> set (db_rollups db @ [?new])" for r
      using that sums [of r] False d(3,4) self by (auto simp: exact_total_def list_ex_iff)
    moreover have "\<exists>r\<in>set (db_rollups db @ [?new]). rolls_up e r" if "e \<in> set (db_deltas db @ [d])" for e
      using that rolled(1) [of e] self by auto
    ultimately show ?thesis unfolding accounted_def rows deltas using positive by blast
  qed
qed

section \<open>Operations that do not charge\<close>

lemma billed_frame:
  assumes "billed cx db" "grown cx (ledger db) db'" "usage_tables db' = usage_tables db"
  shows "billed cx db'"
proof -
  have "\<exists>g'\<in>set (db_generations db'). ge_node g' = ge_node g" if g: "g \<in> set (db_generations db)" for g
  proof -
    have "continues (ledger db) (ledger db')" using assms(2) by (simp add: grown_def)
    then obtain g' where "g' \<in> set (db_generations db')" "same_content g g'" using g unfolding continues_def ledger_def snd_conv by blast
    then show ?thesis using same_content_fields(1) by blast
  qed
  moreover have "db_rollups db' = db_rollups db" "db_deltas db' = db_deltas db" using assms(3) by (simp_all add: usage_tables_def)
  moreover have "ledger_ok cx db'" using assms(2) by (rule grown_ledger_ok)
  ultimately show ?thesis using assms(1) unfolding billed_def accounted_def by (simp, metis)
qed

lemma billed_grown: "billed cx db \<Longrightarrow> grown cx (ledger db) db"
  by (simp add: billed_def ledger_ok_def grown_def continues_refl)

lemma billed_keeps:
  fixes m :: "'a sql"
  assumes "\<And>v. keeps (\<lambda>s. grown cx v (se_db s)) m" "steady (\<lambda>s. usage_tables (se_db s)) m"
  shows "keeps (\<lambda>s. billed cx (se_db s)) m"
proof (rule keepsI)
  fix s :: session assume "billed cx (se_db s)"
  moreover from this have "grown cx (ledger (se_db s)) (se_db (snd (m s)))" using assms(1) billed_grown by (simp add: keeps_def)
  ultimately show "billed cx (se_db (snd (m s)))" using assms(2) by (auto intro: billed_frame simp: steady_def)
qed

lemma billed_upholds:
  assumes "\<And>v. upholds (grown cx v) m" "steady (\<lambda>s. usage_tables (se_db s)) m"
  shows "upholds (billed cx) m"
  unfolding upholds_def
proof (rule yieldsI)
  fix s s' :: session and x assume run: "billed cx (se_db s)" "m s = (Inr x, s')"
  moreover from this have "grown cx (ledger (se_db s)) (se_db s')" using yieldsD [OF assms(1) [unfolded upholds_def] billed_grown] by blast
  ultimately show "billed cx (se_db s')" using steadyD [OF assms(2)] billed_frame by blast
qed

lemma usage_other_tables [simp]:
  "usage_tables (db\<lparr>db_nodes := ns\<rparr>) = usage_tables db" "usage_tables (db\<lparr>db_tokens := ts\<rparr>) = usage_tables db" "usage_tables (db\<lparr>db_keys := ks\<rparr>) = usage_tables db"
  "usage_tables (db\<lparr>db_key_events := es\<rparr>) = usage_tables db"
  by (simp_all add: usage_tables_def)

lemma ensurePendingNodeTx_usage [steadies]: "steady (\<lambda>s. usage_tables (se_db s)) (ensurePendingNodeTx nodeID)"
  unfolding ensurePendingNodeTx_def by (intro steadies) (auto simp: insert_node_def split: if_splits)

lemma node_usage:
  "steady (\<lambda>s. usage_tables (se_db s)) (EnsurePendingNode nodeID)" "steady (\<lambda>s. usage_tables (se_db s)) (CreateEnrollmentToken random nodeID ttl)"
  "steady (\<lambda>s. usage_tables (se_db s)) (CompleteEnrollment nodeID token publicKey)" "steady (\<lambda>s. usage_tables (se_db s)) (RecordHello cx hello)"
  "steady (\<lambda>s. usage_tables (se_db s)) (RecordHeartbeat nodeID observedAt)" "steady (\<lambda>s. usage_tables (se_db s)) (RevokeNode nodeID now)"
  unfolding EnsurePendingNode_def CreateEnrollmentToken_def CompleteEnrollment_def RecordHello_def RecordHeartbeat_def RevokeNode_def Let_def
  by (intro steadies; auto simp: insert_token_def consume_token_def insert_key_def write_nodes_def Let_def split: if_splits)+

lemma DeletePendingNode_billed: "keeps (\<lambda>s. billed cx (se_db s)) (DeletePendingNode nodeID)"
proof -
  have deleted: "billed cx db'" if billed: "billed cx db" and n: "node_of db nodeID = Some n" "no_desired n = 0" and del: "delete_node nodeID db = Some (db', k)" for db n db' k
  proof (rule billed_frame [OF billed grown_delete_node [OF billed_grown [OF billed] n del]])
    have row: "(nodeID, 0, no_applied n, no_applied_checksum n) \<in> set (fst (ledger db))" using node_of_Some [OF n(1)] n(2) by (force simp: ledger_def)
    have ok: "ledger_view_ok cx (fst (ledger db), db_generations db)" using billed by (simp add: billed_def ledger_ok_def ledger_def)
    have "ge_node g \<noteq> nodeID" if "g \<in> set (db_generations db)" for g
      using ledger_view_okD(4) [OF ok that] unique_row [OF ledger_view_okD(1) [OF ok] row] by fastforce
    then have "ru_node r \<noteq> nodeID" if "r \<in> set (db_rollups db)" for r using billed that by (auto simp: billed_def)
    then have "delete_where (\<lambda>r. ru_node r = nodeID) (db_rollups db) = db_rollups db" by (auto simp: delete_where_def filter_id_conv)
    then show "usage_tables db' = usage_tables db" using del by (auto simp: delete_node_def usage_tables_def split: if_splits)
  qed
  show ?thesis unfolding DeletePendingNode_def
    by (rule keeps_andthen, rule identifier_keeps, rule transaction_yields_keeps, intro forwards) (auto dest: deleted [OF _ sym])
qed

section \<open>Batches\<close>

lemma int64_bounds: "int64 w \<le> MaxInt64"
  using sint_lt [of w] by (simp add: int64_def MaxInt64_def)

lemma record_delta_billed:
  "yields (\<lambda>db. billed cx db \<and> (\<exists>g\<in>set (db_generations db). ge_node g = ub_NodeID batch)) (record_delta batch forwards delta u)
     (\<lambda>_ db. billed cx db \<and> (\<exists>g\<in>set (db_generations db). ge_node g = ub_NodeID batch))"
proof -
  have added: "billed cx (add_rollup d db')" if billed: "billed cx db" and g: "\<exists>g\<in>set (db_generations db). ge_node g = de_node d"
      and bounds: "de_bytes d \<le> MaxInt64" "de_packets d \<le> MaxInt64" and ins: "insert_delta d db = Some (db', n)" for d db db' n
  proof -
    have db': "db' = db\<lparr>db_deltas := db_deltas db @ [d]\<rparr>" "0 \<le> de_bytes d" "0 \<le> de_packets d" using ins by (auto simp: insert_delta_def insert_row_Some split: if_splits)
    have "accounted (add_rollup d db')" unfolding db'(1) using billed db'(2,3) bounds by (intro add_delta_accounted) (simp_all add: billed_def)
    moreover have "ledger_ok cx (add_rollup d db')" using billed db'(1) by (simp add: billed_def ledger_ok_def usage_grown(3))
    moreover have "\<exists>g\<in>set (db_generations db). ge_node g = ru_node r" if "r \<in> set (db_rollups (add_rollup d db'))" for r
      using that billed g db'(1) by (auto simp: billed_def add_rollup_def upsert_def in_rewrite split: if_splits)
    moreover have "db_generations (add_rollup d db') = db_generations db" using db'(1) by (simp add: add_rollup_def)
    ultimately show ?thesis by (simp add: billed_def)
  qed
  have same: "db_generations (add_rollup d db') = db_generations db" if "insert_delta d db = Some (db', n)" for d db db' n
    using that by (auto simp: insert_delta_def add_rollup_def split: if_splits)
  show ?thesis unfolding record_delta_def
    apply (rule yields_guard, rule yields_option, rule yields_throw, rule yields_guard, rule yields_exec, rule yields_exec_all_last)
    apply (elim exE conjE)
    apply (rule conjI)
     apply (erule (1) added [rotated -1])
    apply (simp_all add: delta_of_def int64_bounds)
    apply (simp add: same)
    done
qed

lemma insert_batch_same: "insert_batch batch db = Some (db', n) \<Longrightarrow> db_deltas db' = db_deltas db \<and> db_rollups db' = db_rollups db \<and> db_generations db' = db_generations db \<and> ledger db' = ledger db"
  by (auto simp: insert_batch_def split: if_splits)

lemma RecordUsageBatch_billed: "keeps (\<lambda>s. billed cx (se_db s)) (RecordUsageBatch cx batch)"
proof -
  let ?P = "\<lambda>db. billed cx db \<and> (\<exists>g\<in>set (db_generations db). ge_node g = ub_NodeID batch)"
  have batch: "upholds ?P (exec what (insert_batch batch))" for what
    by (rule upholds_exec) (auto dest!: insert_batch_same simp: billed_def ledger_ok_def accounted_def)
  have deltas: "yields ?P (loop (record_delta batch forwards) ds ()) (\<lambda>_. ?P)" for forwards ds
    by (rule yields_loop [where J = "\<lambda>_. ?P"]) (rule record_delta_billed)
  have quotas: "upholds (billed cx) (enforce_quotas cx (ub_NodeID batch))"
    by (rule billed_upholds [OF enforce_quotas_grown usage_view.enforce_quotas_same])
  have body: "yields ?P (andthen (exec ''insert usage batch'' (insert_batch batch)) (\<lambda>affected.
      if affected = 0 then return (Commit ''commit duplicate usage batch'' ())
      else andthen (failing (StoreWrapped ''decode usage generation'') (unless_error (DecodeDesiredJSON cx desiredJSON))) (\<lambda>desired.
           andthen (loop (record_delta batch (by_key fw_ID (ds_Forwards desired))) (ub_Deltas batch) ()) (\<lambda>_.
           andthen (enforce_quotas cx (ub_NodeID batch)) (\<lambda>_.
           return (Commit ''commit usage batch'' ())))))) (\<lambda>_. billed cx)" for desiredJSON
    by (rule yields_upholds [OF batch], rule yields_if, rule yields_return, blast, rule yields_upholds, intro upholdings, rule yields_then [OF deltas],
        rule yields_then [OF yields_weaken [OF quotas [unfolded upholds_def]]], blast, assumption, rule yields_return)
  show ?thesis unfolding RecordUsageBatch_def
    by (rule keeps_option, rule keeps_andthen, rule keeps_guard, rule transaction_yields_keeps, rule yields_query, rule yields_option, rule yields_throw)
      (rule yields_weaken [OF body], auto dest: generation_of_Some intro: keeps_throw split: ending.split)
qed

interpretation accounts: store_invariant cx "billed cx" for cx
  by unfold_locales (rule DeletePendingNode_billed RecordUsageBatch_billed
    | rule billed_keeps [OF EnsurePendingNode_grown node_usage(1)] billed_keeps [OF CreateEnrollmentToken_grown node_usage(2)]
        billed_keeps [OF CompleteEnrollment_grown node_usage(3)] billed_keeps [OF RecordHello_grown node_usage(4)]
        billed_keeps [OF RecordHeartbeat_grown node_usage(5)] billed_keeps [OF RevokeNode_grown node_usage(6)]
        billed_keeps [OF PublishDesired_grown usage_view.PublishDesired_same] billed_keeps [OF RecordApplyResult_grown usage_view.RecordApplyResult_same]
        billed_keeps [OF EnforcePolicies_grown usage_view.EnforcePolicies_same] billed_keeps [OF AdvanceClusterRollouts_grown usage_view.AdvanceClusterRollouts_same]
        billed_keeps [OF outbox_grown(1) usage_view.outbox_same(1)] billed_keeps [OF outbox_grown(2) usage_view.outbox_same(2)]
        billed_keeps [OF outbox_grown(3) usage_view.outbox_same(3)])+

lemma empty_billed: "billed cx empty_database"
  using empty_ledger_ok by (simp add: billed_def accounted_def empty_database_def)

text \<open>C10. Usage is charged exactly: after any sequence of calls, from an empty database or any with correct accounts, the rollup of a node, forward,
  protocol and direction is the sum of the bytes of the deltas accepted for them, exactly as long as the sum is within 64 bits, and so
  for packets; and every accepted delta is in a rollup. The quotas are decided on these sums.\<close>

theorem usage_exact:
  assumes "billed cx db0" and "(store_step cx)\<^sup>*\<^sup>* db0 db"
  shows "(\<forall>r\<in>set (db_rollups db). \<forall>bytes packets. sum_list (map de_bytes (filter (\<lambda>d. rolls_up d r) (db_deltas db))) = bytes \<longrightarrow>
      sum_list (map de_packets (filter (\<lambda>d. rolls_up d r) (db_deltas db))) = packets \<longrightarrow>
      ru_bytes r = (if bytes \<le> MaxInt64 then Exact bytes else Inexact) \<and> ru_packets r = (if packets \<le> MaxInt64 then Exact packets else Inexact)) \<and>
    (\<forall>d\<in>set (db_deltas db). 0 \<le> de_bytes d \<and> 0 \<le> de_packets d \<and> (\<exists>r\<in>set (db_rollups db). rolls_up d r))"
  using accounts.run [OF assms(2,1)] by (auto simp: billed_def accounted_def exact_total_def)

definition sample_delta :: delta_row where
  "sample_delta = \<lparr>de_node = ''ingress-1'', de_epoch = ''e'', de_sequence = 1, de_forward = ''forward-a'', de_user = ''user-1'', de_protocol = ProtocolTCP,
     de_direction = ''upload'', de_version = 1, de_packets = 1, de_bytes = 5, de_reset = False\<rparr>"

definition sample_rollup :: rollup_row where
  "sample_rollup = \<lparr>ru_node = ''ingress-1'', ru_forward = ''forward-a'', ru_user = ''user-1'', ru_protocol = ProtocolTCP, ru_direction = ''upload'',
     ru_packets = Exact 1, ru_bytes = Exact 5\<rparr>"

definition sample_billed :: database where
  "sample_billed = sample_published\<lparr>db_deltas := [sample_delta], db_rollups := [sample_rollup]\<rparr>"

lemma sample_billed_ok: "billed sample_codecs sample_billed"
  using sample_ledger_ok
  by (simp add: billed_def accounted_def sample_billed_def sample_rollup_def sample_delta_def rolls_up_def exact_total_def MaxInt64_def ledger_ok_def)
    (simp add: sample_published_def sample_generation_def ledger_def)

theorem usage_exact_witness:
  "\<exists>db. (store_step sample_codecs)\<^sup>*\<^sup>* sample_billed db \<and> db_rollups db = [sample_rollup] \<and> ru_bytes sample_rollup = Exact 5"
proof -
  let ?db = "se_db (snd (EnsurePendingNode ''n'' (idle_session sample_billed)))"
  have run: "(store_step sample_codecs)\<^sup>*\<^sup>* sample_billed ?db" using ensure_pending_run [of sample_codecs "idle_session sample_billed" "''n''"] by simp
  have "usage_tables ?db = usage_tables sample_billed" using node_usage(1) [of "''n''"] by (simp add: steady_def)
  then have tables: "db_rollups ?db = [sample_rollup]" "db_deltas ?db = [sample_delta]" by (simp_all add: usage_tables_def sample_billed_def)
  have "sum_list (map de_bytes (filter (\<lambda>d. rolls_up d sample_rollup) (db_deltas ?db))) = 5"
    using tables by (simp add: rolls_up_def sample_rollup_def sample_delta_def)
  then have "ru_bytes sample_rollup = Exact 5" using usage_exact [OF sample_billed_ok run] tables by (auto simp: MaxInt64_def)
  with run tables show ?thesis by blast
qed

section \<open>A batch counts once\<close>

definition recorded :: "UsageBatch \<Rightarrow> database \<Rightarrow> bool" where
  "recorded batch db \<longleftrightarrow> (\<exists>b\<in>set (db_batches db). ba_node b = ub_NodeID batch \<and> ba_epoch b = ub_Epoch batch \<and> ba_sequence b = int64 (ub_Sequence batch))"

lemma recorded_steady:
  assumes "steady (\<lambda>s. usage_tables (se_db s)) m"
  shows "keeps (\<lambda>s. recorded batch (se_db s)) m"
proof -
  have view: "recorded batch db = (\<exists>b\<in>set (fst (usage_tables db)). ba_node b = ub_NodeID batch \<and> ba_epoch b = ub_Epoch batch \<and> ba_sequence b = int64 (ub_Sequence batch))" for db
    by (simp add: recorded_def usage_tables_def)
  show ?thesis unfolding view by (rule steady_keeps [OF assms])
qed

lemma recorded_more: "recorded batch db \<Longrightarrow> set (db_batches db) \<subseteq> set (db_batches db') \<Longrightarrow> recorded batch db'"
  by (auto simp: recorded_def)

lemma batches_kept: "db_batches (add_rollup d db) = db_batches db" "insert_delta d db = Some (db', n) \<Longrightarrow> db_batches db' = db_batches db"
  "insert_batch b db = Some (db', n) \<Longrightarrow> set (db_batches db) \<subseteq> set (db_batches db')"
  by (auto simp: add_rollup_def insert_delta_def insert_batch_def split: if_splits)

lemma enforce_quotas_recorded [keepings]: "keeps (\<lambda>s. recorded b (se_db s)) (enforce_quotas cx nodeID)"
  by (rule recorded_steady [OF usage_view.enforce_quotas_same])

lemma RecordUsageBatch_recorded: "keeps (\<lambda>s. recorded b (se_db s)) (RecordUsageBatch cx batch)"
  unfolding RecordUsageBatch_def record_delta_def
  by (intro keepings) (erule recorded_more, auto dest: batches_kept(2,3) simp: batches_kept(1))+

lemma DeletePendingNode_recorded: "keeps (\<lambda>s. recorded b (se_db s)) (DeletePendingNode nodeID)"
  unfolding DeletePendingNode_def by (intro keepings) (erule recorded_more, auto simp: delete_node_def split: if_splits)

interpretation once: store_invariant cx "recorded b" for cx b
  by unfold_locales (rule DeletePendingNode_recorded RecordUsageBatch_recorded recorded_steady | rule node_usage usage_view.all_same)+

lemma insert_batch_recorded:
  "insert_batch batch db = Some (db', n) \<Longrightarrow> recorded batch db'" "recorded batch db \<Longrightarrow> insert_batch batch db = Some (db', n) \<Longrightarrow> n = 0 \<and> db' = db"
  by (auto simp: insert_batch_def recorded_def list_ex_iff split: if_splits)

lemma RecordUsageBatch_records: "yields (\<lambda>_. True) (RecordUsageBatch cx batch) (\<lambda>_. recorded batch)"
proof -
  have deltas: "upholds (recorded batch) (loop (record_delta batch forwards) ds ())" for forwards ds
    unfolding record_delta_def by (rule upholds_keeps, intro keepings) (erule recorded_more, auto dest: batches_kept(2,3) simp: batches_kept(1))+
  have inserted: "yields P (exec what (insert_batch batch)) (\<lambda>_. recorded batch)" for what P
    by (rule yieldsI) (use insert_batch_recorded(1) in \<open>blast dest: exec_Inr\<close>)
  show ?thesis unfolding RecordUsageBatch_def
    by (rule yields_option, rule yields_guard, rule yields_transaction, rule yields_query, rule yields_option, rule yields_throw,
        rule yields_then [OF inserted], rule yields_if, rule yields_return, simp, rule yields_upholds, intro upholdings, rule yields_upholds [OF deltas],
        rule yields_upholds [OF upholds_keeps [OF enforce_quotas_recorded]], rule yields_return, simp, rule yields_throw)
qed

lemma recorded_no_change:
  "yields (\<lambda>db. recorded batch db \<and> db = D) (andthen (exec what (insert_batch batch)) (\<lambda>n. if n = 0 then return (Commit c ()) else m))
     (\<lambda>e db. case e of Commit _ x \<Rightarrow> db = D | Abandon x \<Rightarrow> False)"
proof (rule yieldsI, elim conjE)
  fix s s' :: session and e
  assume pre: "recorded batch (se_db s)" "se_db s = D" and run: "andthen (exec what (insert_batch batch)) (\<lambda>n. if n = 0 then return (Commit c ()) else m) s = (Inr e, s')"
  obtain n v where n: "exec what (insert_batch batch) s = (Inr n, v)" "(if n = 0 then return (Commit c ()) else m) v = (Inr e, s')"
    using run unfolding andthen_Inr_iff by blast
  have "n = 0" "se_db v = se_db s" using insert_batch_recorded(2) [OF pre(1) exec_Inr [OF n(1)]] by simp_all
  with n(2) pre(2) show "case e of Commit _ x \<Rightarrow> se_db s' = D | Abandon x \<Rightarrow> False" by (auto simp: return_def)
qed

text \<open>C16. A batch counts once: after a batch has been recorded, reporting it again, after whatever calls in between, changes nothing at all.\<close>

theorem usage_batch_once:
  assumes "RecordUsageBatch cx batch s = (Inr (), s')" and "(store_step cx)\<^sup>*\<^sup>* (se_db s') (se_db t)" and "RecordUsageBatch cx batch t = (r, t')"
  shows "se_db t' = se_db t"
proof (cases r)
  case (Inl e)
  then show ?thesis using isl_clean [OF clean_operations(9) assms(3)] by simp
next
  case (Inr u)
  have "recorded batch (se_db s')" using yieldsD [OF RecordUsageBatch_records _ assms(1)] by simp
  then have was: "recorded batch (se_db t)" by (rule once.run [OF assms(2)])
  have same: "yields (\<lambda>db. recorded batch db \<and> db = se_db t) (RecordUsageBatch cx batch) (\<lambda>_ db. db = se_db t)"
    unfolding RecordUsageBatch_def
    by (rule yields_option, rule yields_guard, rule yields_transaction, rule yields_query, rule yields_option, rule yields_throw,
        rule yields_weaken [OF recorded_no_change], erule conjunct1, assumption, rule yields_throw)
  show ?thesis by (rule yieldsD [OF same _ assms(3) [unfolded Inr]]) (simp add: was)
qed

definition sample_usage_batch :: UsageBatch where
  "sample_usage_batch = \<lparr>ub_NodeID = ''ingress-1'', ub_Epoch = replicate 64 CHR ''a'', ub_Sequence = 1, ub_Generation = 1, ub_ObservedAt = 5, ub_Deltas = []\<rparr>"

text \<open>Without quotas nothing is paused.\<close>

lemma no_user_quota: "\<forall>p\<in>set ps. up_TrafficQuota p = None \<Longrightarrow> loop (quota_user nodeID) ps st s = (Inr st, s)"
  by (induction ps) (simp_all add: quota_user_def return_def andthen_def)

lemma no_forward_quota:
  "\<forall>f\<in>set fs. fw_TrafficQuota f = None \<Longrightarrow> loop (quota_forward nodeID {}) fs (kept, changed, audits) s = (Inr (kept @ fs, changed, audits), s)"
  by (induction fs arbitrary: kept) (simp_all add: quota_forward_def quota_action_def return_def andthen_def)

lemma no_quota:
  assumes "\<forall>p\<in>set (ds_UserPolicies d). up_TrafficQuota p = None" "\<forall>f\<in>set (ds_Forwards d). fw_TrafficQuota f = None"
  shows "evaluateQuotas nodeID d s = (Inr (d, False, []), s)"
  using no_user_quota [OF assms(1)] no_forward_quota [OF assms(2)] by (simp add: evaluateQuotas_def andthen_def return_def)

lemma sample_no_quota: "andthen (evaluateQuotas nodeID (Canonical sample_state)) g s = g (Canonical sample_state, False, []) s"
proof -
  have "evaluateQuotas nodeID (Canonical sample_state) s = (Inr (Canonical sample_state, False, []), s)"
    by (rule no_quota) (simp_all add: Canonical_def sample_state_def sample_forward_def)
  then show ?thesis by (simp add: andthen_def)
qed

lemma quiet_computed [quiet]: "andthen (failing w (unless_error x)) f s = (case x of Inl e \<Rightarrow> (Inl (w e), s) | Inr y \<Rightarrow> f y s)"
  by (cases x) (simp_all add: andthen_def failing_def unless_error_def)

lemma sample_usage_batch_runs: "\<exists>s'. RecordUsageBatch sample_codecs sample_usage_batch (idle_session sample_published) = (Inr (), s') \<and> db_generations (se_db s') = [sample_generation]"
proof -
  have "ValidateIdentifier ''usage.node_id'' ''ingress-1'' = None" "validChecksum (replicate 64 CHR ''a'')" by code_simp+
  then have "UsageBatch_Validate sample_usage_batch = None" by (simp add: UsageBatch_Validate_def sample_usage_batch_def IsZero_def del: ValidateIdentifier_None)
  moreover have "DecodeDesiredJSON sample_codecs ''state'' = Inr (Canonical sample_state)"
    using stored_decodes [OF sample_faithful sample_stores] by (simp add: sample_generation_def MaxDesiredJSONBytes_def)
  ultimately show ?thesis
    by (simp add: RecordUsageBatch_def quiet sample_usage_batch_def sample_published_def generation_of_def sample_generation_def int64_def MaxInt64_def insert_batch_def
        empty_database_def enforce_quotas_def unrevoked_node_def new_node_def read_state_def sample_no_quota finish_def)
qed

theorem usage_batch_once_witness:
  "\<exists>s' r t'. RecordUsageBatch sample_codecs sample_usage_batch (idle_session sample_published) = (Inr (), s') \<and>
     RecordUsageBatch sample_codecs sample_usage_batch s' = (r, t') \<and> se_db t' = se_db s'"
proof -
  obtain s' where first: "RecordUsageBatch sample_codecs sample_usage_batch (idle_session sample_published) = (Inr (), s')" using sample_usage_batch_runs by blast
  obtain r t' where again: "RecordUsageBatch sample_codecs sample_usage_batch s' = (r, t')" by fastforce
  have "se_db t' = se_db s'" by (rule usage_batch_once [OF first rtranclp.rtrancl_refl again])
  with first again show ?thesis by blast
qed

end
