(* ===== verification/Store_Sample.thy ===== *)
theory Store_Sample
  imports Store_Usage
begin

text \<open>
  The node on which the witnesses of quotas and policies run: one forward with a quota of 10 bytes that expires at time 3, and the
  generation that pauses it. The codec knows the two states.
\<close>

definition limited_forward :: "Lifecycle \<Rightarrow> u64 \<Rightarrow> ForwardSpec" where
  "limited_forward lifecycle version = \<lparr>fw_ID = ''f'', fw_UserID = ''u'', fw_Protocols = [ProtocolTCP], fw_IngressNodeID = ''n'', fw_ExitNodeID = [],
     fw_Listen = \<lparr>ep_Address = Addr4 0x0A000001, ep_Hostname = [], ep_Port = 80\<rparr>, fw_Target = \<lparr>ep_Address = Addr4 0xC6336401, ep_Hostname = [], ep_Port = 443\<rparr>,
     fw_ServiceVIP = None, fw_FabricLinkID = [], fw_PathMode = PathDirect, fw_SNAT = \<lparr>snat_Mode = SNATMasquerade, snat_Address = None\<rparr>,
     fw_TrafficClassID = 0, fw_RateLimit = None, fw_TrafficQuota = Some \<lparr>tq_Bytes = 10, tq_Policy = QuotaPolicyPause\<rparr>, fw_ExpiresAt = Some 3, fw_DrainDeadline = None,
     fw_Lifecycle = lifecycle, fw_ResourceVersion = version\<rparr>"

definition limited_state :: "u64 \<Rightarrow> ForwardSpec \<Rightarrow> DesiredState" where
  "limited_state generation forward = \<lparr>ds_SchemaVersion = SchemaVersionV5, ds_NodeID = ''n'', ds_Generation = generation, ds_ManagementDomain = [],
     ds_ServiceCIDRs = [], ds_FabricLinks = [], ds_HealthChecks = [], ds_UserPolicies = [], ds_ProtocolBlocks = None, ds_Forwards = [forward]\<rparr>"

definition limited_active :: DesiredState where
  "limited_active = limited_state 1 (limited_forward LifecycleActive 1)"

definition limited_paused :: DesiredState where
  "limited_paused = limited_state 2 (limited_forward LifecyclePaused 2)"

lemma limited_valid: "Validate limited_active = []" "Validate limited_paused = []"
  unfolding Validate_split
   by (intro conjI; (simp add: header_ok_def version_ok_def limited_active_def limited_paused_def limited_state_def MaxForwardsPerSnapshot_def MaxFabricLinksPerSnapshot_def
      MaxServiceCIDRsPerSnapshot_def MaxHealthChecksPerSnapshot_def SupportedSchemaVersion_def limited_forward_def)?; code_simp)+

lemma limited_canonical: "Canonical limited_active = limited_active" "Canonical limited_paused = limited_paused"
  by code_simp+

definition limited_codecs :: codecs where
  "limited_codecs = \<lparr>cx_marshal = (\<lambda>d. if d = limited_active then Some ''active'' else if d = limited_paused then Some ''paused'' else None),
     cx_unmarshal = (\<lambda>t. if t = ''active'' then Some (limited_active, False) else if t = ''paused'' then Some (limited_paused, False) else None),
     cx_capabilities = (\<lambda>_. Some ''[]''), cx_json_valid = (\<lambda>_. True), cx_to_ascii = Some, cx_plan = (\<lambda>_. None), cx_detail = (\<lambda>_. None)\<rparr>"

lemma limited_distinct: "limited_active \<noteq> limited_paused"
  by (simp add: limited_active_def limited_paused_def limited_state_def)

lemma limited_faithful: "faithful_json limited_codecs"
  by (auto simp: faithful_json_def limited_codecs_def limited_distinct split: if_splits)

lemma limited_decodes: "DecodeDesiredJSON limited_codecs ''active'' = Inr limited_active"
  by (simp add: DecodeDesiredJSON_def limited_codecs_def limited_valid limited_canonical MaxDesiredJSONBytes_def)

definition limited_generation :: generation_row where
  "limited_generation = \<lparr>ge_node = ''n'', ge_generation = 1, ge_schema = SchemaVersionV5, ge_checksum = hex_EncodeToString (Sum256 ''active''),
     ge_state = ''active'', ge_capabilities = ''[]'', ge_status = ''pending'', ge_created = 1, ge_applied_at = None\<rparr>"

definition limited_node :: node_row where
  "limited_node = (new_node ''n'')\<lparr>no_desired := 1\<rparr>"

definition limited_published :: database where
  "limited_published = empty_database\<lparr>db_nodes := [limited_node], db_generations := [limited_generation]\<rparr>"

lemma limited_stores: "stores limited_codecs limited_generation limited_active"
  using limited_valid limited_canonical
  by (simp add: stores_def limited_codecs_def limited_generation_def Checksum_def) (simp add: limited_active_def limited_state_def int64_def)

lemma limited_ledger_ok: "ledger_ok limited_codecs limited_published"
proof -
  have "ge_node limited_generation = ''n''" "ge_generation limited_generation = 1" by (simp_all add: limited_generation_def)
  then show ?thesis unfolding ledger_ok_def ledger_def limited_published_def limited_node_def
    using limited_stores by (simp add: new_node_def empty_database_def, intro ledger_view_okI) (auto simp: MaxInt64_def)
qed

definition pausing_generation :: "time \<Rightarrow> generation_row" where
  "pausing_generation t = \<lparr>ge_node = ''n'', ge_generation = 2, ge_schema = SchemaVersionV5, ge_checksum = hex_EncodeToString (Sum256 ''paused''),
     ge_state = ''paused'', ge_capabilities = ''[]'', ge_status = ''pending'', ge_created = t, ge_applied_at = None\<rparr>"

lemma quiet_results [quiet]:
  "andthen (unless_error x) f s = (case x of Inl e \<Rightarrow> (Inl e, s) | Inr y \<Rightarrow> f y s)"
  "andthen (or_message what z) f s = (case z of None \<Rightarrow> (Inl (StoreMessage what), s) | Some y \<Rightarrow> f y s)"
  by (auto simp: unless_error_def or_message_def andthen_def throw_def return_def split: sum.split option.split)

text \<open>The publication of the pause.\<close>

lemma limited_publish:
  assumes "se_answers s = []" "db_generations (se_db s) = [limited_generation]"
  shows "\<exists>snapshot s'. publishDesiredTx limited_codecs ''n'' 1 (limited_active\<lparr>ds_Forwards := [limited_forward LifecyclePaused 2]\<rparr>) s = (Inr snapshot, s') \<and>
    se_answers s' = [] \<and> db_generations (se_db s') = [limited_generation, pausing_generation (se_clock s (se_ticks s))] \<and>
    db_nodes (se_db s') = rewrite (\<lambda>n. no_id n = ''n'') (\<lambda>n. n\<lparr>no_desired := 2\<rparr>) (db_nodes (se_db s)) \<and>
    db_rollouts (se_db s') = db_rollouts (se_db s) \<and> db_targets (se_db s') = db_targets (se_db s)"
proof -
  have stamp: "stamped ''n'' 1 (limited_active\<lparr>ds_Forwards := [limited_forward LifecyclePaused 2]\<rparr>) = limited_paused"
    by (simp add: stamped_def limited_active_def limited_paused_def limited_state_def uint64_def)
  have shape: "ds_SchemaVersion limited_paused = SchemaVersionV5" "ds_NodeID limited_paused = ''n''" "ds_UserPolicies limited_paused = []"
    "ds_Forwards limited_paused = [limited_forward LifecyclePaused 2]" "int64 (ds_Generation limited_paused) = 2"
    by (simp_all add: limited_paused_def limited_state_def int64_def)
  have "limited_paused\<lparr>ds_UserPolicies := [], ds_Forwards := [(limited_forward LifecyclePaused 2)\<lparr>fw_TrafficClassID := 0\<rparr>]\<rparr> = limited_paused"
    by (simp add: limited_paused_def limited_state_def limited_forward_def)
  then have classes: "resolveTrafficClasses ''n'' limited_paused s = (Inr limited_paused, s)" for s
    by (simp add: resolveTrafficClasses_def shape resolve_forward_def quiet) (simp add: limited_forward_def quiet)
  have path: "fw_PathMode (limited_forward LifecyclePaused 2) = PathDirect" by (simp add: limited_forward_def)
  have coded: "EncodeDesiredJSON limited_codecs limited_paused = Inr ''paused''" "Checksum (cx_marshal limited_codecs) limited_paused = Some (hex_EncodeToString (Sum256 ''paused''))"
    "cx_capabilities limited_codecs caps = Some ''[]''" for caps
    using limited_distinct by (simp_all add: EncodeDesiredJSON_def Checksum_def limited_valid limited_canonical limited_codecs_def)
  have "ge_node limited_generation = ''n''" "ge_generation limited_generation = 1" by (simp_all add: limited_generation_def)
  then show ?thesis
    using assms limited_valid
    by (simp add: publishDesiredTx_def Let_def stamp shape MaxInt64_def quiet classes andthen_def [of "resolveTrafficClasses n d" for n d] syncServiceVIPBindings_def bind_forward_def path
        store_generation_def coded insert_generation_def insert_row_def insert_event_def write_nodes_def drop_stale_bindings_def drop_orphaned_vips_def
        pausing_generation_def)
qed

end
