(* ===== verification/Store_Quotas.thy ===== *)
theory Store_Quotas
  imports Store_Sample
begin

text \<open>
  Quotas are enforced node by node: when a batch of usage of a node has been recorded, the newest state of the node forwards nothing whose quota, or whose
  user's quota, is used up by the usage on that node. The quota over all nodes is enforced on the plans (\<open>quota_enforcement.go\<close>), which is not modelled.
\<close>

section \<open>Specification\<close>

definition within_quota :: "rollup_row list \<Rightarrow> (rollup_row \<Rightarrow> bool) \<Rightarrow> TrafficQuotaSpec \<Rightarrow> bool" where
  "within_quota R p q \<longleftrightarrow> (\<exists>used. exact_sum (map ru_bytes (filter p R)) = Some used \<and> used < uint (tq_Bytes q))"

definition forwarding :: "ForwardSpec \<Rightarrow> bool" where
  "forwarding f \<longleftrightarrow> fw_Lifecycle f \<noteq> LifecyclePaused \<and> fw_Lifecycle f \<noteq> LifecycleForceDeleting"

definition user_within :: "string \<Rightarrow> rollup_row list \<Rightarrow> UserPolicySpec \<Rightarrow> bool" where
  "user_within nid R p \<longleftrightarrow> (\<forall>q. up_TrafficQuota p = Some q \<longrightarrow> within_quota R (\<lambda>r. ru_node r = nid \<and> ru_user r = up_UserID p) q)"

definition forward_within :: "string \<Rightarrow> rollup_row list \<Rightarrow> ForwardSpec \<Rightarrow> bool" where
  "forward_within nid R f \<longleftrightarrow> (\<forall>q. fw_TrafficQuota f = Some q \<longrightarrow> within_quota R (\<lambda>r. ru_node r = nid \<and> ru_forward r = fw_ID f) q)"

definition node_quotas_respected :: "string \<Rightarrow> rollup_row list \<Rightarrow> DesiredState \<Rightarrow> bool" where
  "node_quotas_respected nid R d \<longleftrightarrow> (\<forall>f\<in>set (ds_Forwards d). forwarding f \<longrightarrow>
     forward_within nid R f \<and> (\<forall>p\<in>set (ds_UserPolicies d). up_UserID p = fw_UserID f \<longrightarrow> user_within nid R p))"

text \<open>It depends neither on the traffic classes nor on the canonical form, nor on the header.\<close>

lemma respected_unclassed: "node_quotas_respected nid R (unclassed d) = node_quotas_respected nid R d"
  by (simp add: node_quotas_respected_def unclassed_def forwarding_def forward_within_def user_within_def)

lemma respected_same: "unclassed d = unclassed e \<Longrightarrow> node_quotas_respected nid R d = node_quotas_respected nid R e"
  by (metis respected_unclassed)

lemma respected_Canonical: "node_quotas_respected nid R (Canonical d) = node_quotas_respected nid R d"
  by (simp add: node_quotas_respected_def Canonical_def forwarding_def forward_within_def user_within_def)

lemma respected_stamped: "node_quotas_respected nid R (stamped nodeID current d) = node_quotas_respected nid R d"
  by (simp add: node_quotas_respected_def stamped_def)

section \<open>Evaluation\<close>

lemma quotaExceeded_yields:
  "yields (\<lambda>db. db_rollups db = R) (quotaExceeded p (tq_Bytes q)) (\<lambda>exceeded db. db_rollups db = R \<and> (exceeded \<or> within_quota R p q))"
  unfolding quotaExceeded_def by (intro forwards) (auto simp: within_quota_def)

lemma quota_users_yield:
  "yields (\<lambda>db. db_rollups db = R) (loop (quota_user nid) ps ({}, []))
     (\<lambda>(paused, audits) db. db_rollups db = R \<and> (\<forall>p\<in>set ps. user_within nid R p \<or> up_UserID p \<in> paused))"
proof -
  let ?J = "\<lambda>rest st db. db_rollups db = R \<and> (\<forall>p\<in>set ps. p \<in> set rest \<or> user_within nid R p \<or> up_UserID p \<in> fst st)"
  have step: "yields (?J (p # rest) st) (quota_user nid p st) (?J rest)" for p rest st
  proof (cases "up_TrafficQuota p")
    case None
    then have "?J (p # rest) st db \<Longrightarrow> ?J rest st db" for db by (auto simp: user_within_def)
    then show ?thesis using None by (intro yieldsI) (simp add: quota_user_def return_def, blast)
  next
    case (Some q)
    obtain users audits where st: "st = (users, audits)" by fastforce
    show ?thesis
    proof (rule yieldsI)
      fix s s' :: session and st' assume pre: "?J (p # rest) st (se_db s)" and run: "quota_user nid p st s = (Inr st', s')"
      obtain exceeded v where q: "quotaExceeded (\<lambda>r. ru_node r = nid \<and> ru_user r = up_UserID p) (tq_Bytes q) s = (Inr exceeded, v)"
        and st': "st' = (if exceeded then (insert (up_UserID p) users, audits @ [(''user_quota_pause'', up_UserID p)]) else st)" "s' = v"
        using run Some st by (auto simp: quota_user_def andthen_Inr_iff return_def)
      have "db_rollups (se_db s') = R \<and> (exceeded \<or> within_quota R (\<lambda>r. ru_node r = nid \<and> ru_user r = up_UserID p) q)"
        using yieldsD [OF quotaExceeded_yields _ q, of R] pre st'(2) by blast
      with pre st st' Some show "?J rest st' (se_db s')" by (auto simp: user_within_def)
    qed
  qed
  show ?thesis by (rule yields_weaken [OF yields_loop_rest [where J = ?J, OF step]]) auto
qed

lemma quota_action_yields:
  "yields (\<lambda>db. db_rollups db = R) (quota_action nid users f)
     (\<lambda>action db. db_rollups db = R \<and> (action = [] \<longrightarrow> forwarding f \<longrightarrow> fw_UserID f \<notin> users \<and> forward_within nid R f))"
proof (rule yieldsI)
  fix s s' :: session and action
  assume pre: "db_rollups (se_db s) = R" and run: "quota_action nid users f s = (Inr action, s')"
  show "db_rollups (se_db s') = R \<and> (action = [] \<longrightarrow> forwarding f \<longrightarrow> fw_UserID f \<notin> users \<and> forward_within nid R f)"
  proof (cases "forwarding f \<and> fw_UserID f \<notin> users \<and> fw_TrafficQuota f \<noteq> None")
    case True
    then obtain q where q: "fw_TrafficQuota f = Some q" by blast
    obtain exceeded v where e: "quotaExceeded (\<lambda>r. ru_node r = nid \<and> ru_forward r = fw_ID f) (tq_Bytes q) s = (Inr exceeded, v)"
        "action = (if exceeded then ''forward_quota_pause'' else [])" "s' = v"
      using run True q by (auto simp: quota_action_def forwarding_def andthen_Inr_iff return_def)
    from yieldsD [OF quotaExceeded_yields pre e(1)] e(2,3) True q show ?thesis by (auto simp: forward_within_def)
  next
    case False
    with pre run show ?thesis by (auto simp: quota_action_def forwarding_def forward_within_def return_def split: if_splits option.splits)
  qed
qed

lemma quota_forwards_yield:
  "yields (\<lambda>db. db_rollups db = R) (loop (quota_forward nid users) fs ([], False, audits))
     (\<lambda>(fs', changed, audits) db. db_rollups db = R \<and> (\<forall>f\<in>set fs'. forwarding f \<longrightarrow> fw_UserID f \<notin> users \<and> forward_within nid R f) \<and> (\<not> changed \<longrightarrow> fs' = fs))"
proof -
  let ?J = "\<lambda>rest st db. db_rollups db = R \<and> (\<forall>f\<in>set (fst st). forwarding f \<longrightarrow> fw_UserID f \<notin> users \<and> forward_within nid R f) \<and> (\<not> fst (snd st) \<longrightarrow> fst st @ rest = fs)"
  have step: "yields (?J (f # rest) st) (quota_forward nid users f st) (?J rest)" for f rest st
  proof (rule yieldsI)
    fix s s' :: session and st' assume pre: "?J (f # rest) st (se_db s)" and run: "quota_forward nid users f st s = (Inr st', s')"
    obtain kept changed audits where st: "st = (kept, changed, audits)" by (cases st) auto
    obtain action v where a: "quota_action nid users f s = (Inr action, v)"
      and st': "st' = (if action \<noteq> [] then (kept @ [paused f], True, audits @ [(action, fw_ID f)]) else (kept @ [f], changed, audits))" "s' = v"
      using run st by (auto simp: quota_forward_def andthen_Inr_iff return_def)
    have "db_rollups (se_db s') = R \<and> (action = [] \<longrightarrow> forwarding f \<longrightarrow> fw_UserID f \<notin> users \<and> forward_within nid R f)"
      using yieldsD [OF quota_action_yields _ a, of R] pre st'(2) by blast
    with pre st st' show "?J rest st' (se_db s')" by (auto simp: forwarding_def paused_def)
  qed
  show ?thesis by (rule yields_weaken [OF yields_loop_rest [where J = ?J, OF step]]) auto
qed

lemma evaluateQuotas_yields:
  "yields (\<lambda>db. db_rollups db = R) (evaluateQuotas nid d)
     (\<lambda>(d', changed, audits) db. db_rollups db = R \<and> node_quotas_respected nid R d' \<and> (\<not> changed \<longrightarrow> d' = d))"
proof (rule yieldsI)
  fix s s' :: session and x assume pre: "db_rollups (se_db s) = R" and run: "evaluateQuotas nid d s = (Inr x, s')"
  obtain users audits v fs' changed audits' where u: "loop (quota_user nid) (ds_UserPolicies d) ({}, []) s = (Inr (users, audits), v)"
    and f: "loop (quota_forward nid users) (ds_Forwards d) ([], False, audits) v = (Inr (fs', changed, audits'), s')"
    and x: "x = (d\<lparr>ds_Forwards := fs'\<rparr>, changed, audits')"
    using run by (auto simp: evaluateQuotas_def andthen_Inr_iff return_def)
  have us: "db_rollups (se_db v) = R" "\<forall>p\<in>set (ds_UserPolicies d). user_within nid R p \<or> up_UserID p \<in> users"
    using yieldsD [OF quota_users_yield pre u] by auto
  have "db_rollups (se_db s') = R" "\<forall>f\<in>set fs'. forwarding f \<longrightarrow> fw_UserID f \<notin> users \<and> forward_within nid R f" "\<not> changed \<Longrightarrow> fs' = ds_Forwards d"
    using yieldsD [OF quota_forwards_yield us(1) f] by auto
  with us(2) x show "(\<lambda>(d', changed, audits) db. db_rollups db = R \<and> node_quotas_respected nid R d' \<and> (\<not> changed \<longrightarrow> d' = d)) x (se_db s')"
    by (fastforce simp: node_quotas_respected_def)
qed

section \<open>Enforcement\<close>

text \<open>The newest generation of the node decodes to a state that respects the quotas.\<close>

definition enforced :: "codecs \<Rightarrow> string \<Rightarrow> rollup_row list \<Rightarrow> database \<Rightarrow> bool" where
  "enforced cx nid R db \<longleftrightarrow> (\<forall>g d. newest_generation db nid = Some g \<longrightarrow> DecodeDesiredJSON cx (ge_state g) = Inr d \<longrightarrow> node_quotas_respected nid R d)"

lemma enforced_ledger: "ledger db = ledger db' \<Longrightarrow> enforced cx nid R db = enforced cx nid R db'"
  by (simp add: enforced_def newest_generation_def ledger_def)

lemma newest_current:
  assumes "ledger_ok cx db" "desires (ledger db) nid current" "0 < current" "generation_of db nid current = Some g'" "newest_generation db nid = Some g"
  shows "g = g'"
proof -
  obtain a c where "(nid, current, a, c) \<in> set (fst (ledger db))" using assms(2) by (auto simp: desires_def)
  then have "g \<in> set (db_generations db)" "ge_node g = nid" "ge_generation g = current" using newest_generation_desired [OF assms(1) _ assms(3)] assms(5) by fastforce+
  moreover note generation_of_Some [OF assms(4)]
  moreover have "distinct (map (\<lambda>g. (ge_node g, ge_generation g)) (db_generations db))" using ledger_view_okD(2) [OF ledger_okE [OF assms(1)]] .
  ultimately show ?thesis by (auto simp: distinct_map dest: inj_onD)
qed

text \<open>After a publication the newest generation decodes to the published state, up to its traffic classes and order.\<close>

lemma issued_newest:
  assumes faithful: "faithful_json cx" and ok: "ledger_view_ok cx v" and row: "desires v nid current" "0 < current"
    and issue: "issued cx nid current (stamped nid current d) v snapshot db" and limit: "within_limit db"
    and newest: "newest_generation db nid = Some q" and decoded: "DecodeDesiredJSON cx (ge_state q) = Inr x"
  shows "\<exists>e. x = Canonical e \<and> unclassed e = unclassed (stamped nid current d)"
proof -
  obtain e g where e: "new_generation cx nid (current + 1) snapshot e g" "unclassed e = unclassed (stamped nid current d)"
    and view: "ledger db = (advance_row nid (current + 1) (fst v), snd v @ [g])" using issue by (auto simp: issued_def)
  obtain a c where "(nid, current, a, c) \<in> set (fst v)" using row by (auto simp: desires_def)
  then have db_ok: "ledger_ok cx db" and "desires (ledger db) nid (current + 1)" using issued_ok [OF ok _ issue] view by (auto simp: desires_def in_advance_row)
  moreover have "generation_of db nid (current + 1) = Some g"
  proof -
    have "g \<in> set (db_generations db)" using view by (simp add: ledger_def)
    then show ?thesis using find_key [of "\<lambda>g. (ge_node g, ge_generation g)" "db_generations db" g] ledger_view_okD(2) [OF ledger_okE [OF db_ok]] e(1)
      by (simp add: generation_of_def new_generation_def)
  qed
  ultimately have "q = g" using newest_current [OF _ _ _ _ newest] row(2) by simp
  moreover have "length (ge_state g) \<le> MaxDesiredJSONBytes" using limit view by (simp add: within_limit_def ledger_def)
  then have "DecodeDesiredJSON cx (ge_state g) = Inr (Canonical e)" using stored_decodes [OF faithful] e(1) by (simp add: new_generation_def)
  ultimately show ?thesis using decoded e(2) by auto
qed

lemma issued_enforced:
  assumes "faithful_json cx" "ledger_view_ok cx v" "desires v nid current" "0 < current"
    "issued cx nid current (stamped nid current d) v snapshot db" "within_limit db" and respected: "node_quotas_respected nid R d"
  shows "enforced cx nid R db"
  unfolding enforced_def
proof (intro allI impI)
  fix g x assume "newest_generation db nid = Some g" "DecodeDesiredJSON cx (ge_state g) = Inr x"
  from issued_newest [OF assms(1-6) this] obtain e where "x = Canonical e" "unclassed e = unclassed (stamped nid current d)" by blast
  then show "node_quotas_respected nid R x" using respected respected_same [of e] by (simp add: respected_Canonical respected_stamped)
qed

lemma read_state_Inr:
  assumes "read_state cx reading decoding nid k s = (Inr d, s')"
  shows "\<exists>g. generation_of (se_db s) nid k = Some g \<and> DecodeDesiredJSON cx (ge_state g) = Inr d \<and> se_db s' = se_db s"
proof -
  obtain json v where t: "query_row reading (\<lambda>db. map_option ge_state (generation_of db nid k)) s = (Inr json, v)"
    "failing (StoreWrapped decoding) (unless_error (DecodeDesiredJSON cx json)) v = (Inr d, s')"
    using assms unfolding read_state_def andthen_Inr_iff by blast
  from t(2) have "DecodeDesiredJSON cx json = Inr d" "s' = v" by (auto simp: failing_def unless_error_def split: sum.splits)
  with query_row_Inr [OF t(1)] show ?thesis by auto
qed

lemma no_generation:
  assumes "ledger_ok cx db" "desires (ledger db) nid 0"
  shows "newest_generation db nid = None"
proof -
  obtain a c where row: "(nid, 0, a, c) \<in> set (fst (ledger db))" using assms(2) by (auto simp: desires_def)
  have view: "ledger_view_ok cx (fst (ledger db), db_generations db)" using assms(1) by (simp add: ledger_ok_def ledger_def)
  have "ge_node g \<noteq> nid" if "g \<in> set (db_generations db)" for g
    using ledger_view_okD(4) [OF view that] unique_row [OF ledger_view_okD(1) [OF view] row] by fastforce
  then have "filter (\<lambda>g. ge_node g = nid) (db_generations db) = []" by (simp add: filter_empty_conv)
  then show ?thesis by (simp add: newest_generation_def)
qed

lemma within_limit_ledger: "ledger db = ledger db' \<Longrightarrow> within_limit db = within_limit db'"
  by (simp add: within_limit_def ledger_def)

lemma policy_audits_ledger: "steady (\<lambda>s. ledger (se_db s)) (insertPolicyAudits nid k audits)"
  by (rule insertPolicyAudits_steady) (simp add: ledger_def)

lemma enforce_quotas_enforces:
  assumes faithful: "faithful_json cx"
  shows "yields (\<lambda>db. ledger_ok cx db \<and> db_rollups db = R) (enforce_quotas cx nid) (\<lambda>_ db. db_rollups db = R \<and> (within_limit db \<longrightarrow> enforced cx nid R db))"
proof (rule yieldsI, elim conjE)
  fix s s' :: session and u assume ok: "ledger_ok cx (se_db s)" and R: "db_rollups (se_db s) = R" and run: "enforce_quotas cx nid s = (Inr u, s')"
  have rollups: "db_rollups (se_db s') = R" using steadyD [OF usage_view.enforce_quotas_same run] R by (simp add: usage_tables_def)
  obtain current v where row: "map_option no_desired (unrevoked_node (se_db s) nid) = Some current" "se_db v = se_db s"
    and rest: "(if current > 0 then
       andthen (read_state cx ''read current state for quota evaluation'' ''decode current state for quota evaluation'' nid current) (\<lambda>currentDesired.
       andthen (evaluateQuotas nid currentDesired) (\<lambda>(nextDesired, changed, audits).
       if changed then
         andthen (failing (StoreWrapped ''publish quota policy generation'') (publishDesiredTx cx nid current nextDesired)) (\<lambda>next.
         insertPolicyAudits nid (sp_Generation next) audits)
       else return ()))
     else return ()) v = (Inr u, s')"
    using run unfolding enforce_quotas_def andthen_Inr_iff by (elim exE conjE) (frule query_row_Inr, blast)
  have desires: "desires (ledger (se_db s)) nid current" by (rule desires_lookup(2) [OF row(1) [symmetric]])
  have view: "ledger_view_ok cx (ledger (se_db s))" using ok by (simp add: ledger_ok_def)
  show "db_rollups (se_db s') = R \<and> (within_limit (se_db s') \<longrightarrow> enforced cx nid R (se_db s'))"
  proof (cases "current > 0")
    case False
    then have "current = 0" using ledger_view_okD(5) [of cx "fst (ledger (se_db s))" "snd (ledger (se_db s))"] view desires by (fastforce simp: desires_def)
    moreover have "s' = v" using rest False by (simp add: return_def)
    ultimately show ?thesis using no_generation [OF ok] desires rollups row(2) by (simp add: enforced_def)
  next
    case True
    obtain now w nextDesired changed audits x where r: "read_state cx ''read current state for quota evaluation'' ''decode current state for quota evaluation'' nid current v = (Inr now, w)"
      and q: "evaluateQuotas nid now w = (Inr (nextDesired, changed, audits), x)"
      and last: "(if changed then andthen (failing (StoreWrapped ''publish quota policy generation'') (publishDesiredTx cx nid current nextDesired)) (\<lambda>next.
         insertPolicyAudits nid (sp_Generation next) audits) else return ()) x = (Inr u, s')"
      using rest True by (auto simp: andthen_Inr_iff)
    obtain g where g: "generation_of (se_db s) nid current = Some g" "DecodeDesiredJSON cx (ge_state g) = Inr now" "se_db w = se_db s"
      using read_state_Inr [OF r] row(2) by auto
    have x: "se_db x = se_db s" using steadyD [OF evaluateQuotas_steady [of "\<lambda>db. db"] q] g(3) by simp
    have respected: "node_quotas_respected nid R nextDesired" "\<not> changed \<Longrightarrow> nextDesired = now" using yieldsD [OF evaluateQuotas_yields _ q] g(3) R by auto
    show ?thesis
    proof (cases changed)
      case False
      then have "s' = x" using last by (simp add: return_def)
      then have "enforced cx nid R (se_db s')" using newest_current [OF ok desires True g(1)] g(2) respected False x by (auto simp: enforced_def)
      with rollups show ?thesis by blast
    next
      case True
      obtain snapshot y where p: "publishDesiredTx cx nid current nextDesired x = (Inr snapshot, y)" "insertPolicyAudits nid (sp_Generation snapshot) audits y = (Inr u, s')"
        using last True by (auto simp: andthen_Inr_iff failing_def split: prod.splits sum.splits)
      obtain a c where "(nid, current, a, c) \<in> set (fst (ledger (se_db s)))" using desires by (auto simp: desires_def)
      from yieldsD [OF publishDesiredTx_ledger [OF view this] _ p(1)] x
      have issue: "issued cx nid current (stamped nid current nextDesired) (ledger (se_db s)) snapshot (se_db y)" by simp
      have same: "ledger (se_db s') = ledger (se_db y)" by (rule steadyD [OF policy_audits_ledger p(2)])
      have "within_limit (se_db s') \<longrightarrow> enforced cx nid R (se_db s')"
        using issued_enforced [OF faithful view desires \<open>current > 0\<close> issue _ respected(1)] within_limit_ledger [OF same] enforced_ledger [OF same] by simp
      with rollups show ?thesis by blast
    qed
  qed
qed

lemma yields_rollups: "(\<And>R. yields (\<lambda>db. P db \<and> db_rollups db = R) m Q) \<Longrightarrow> yields P m Q"
  unfolding yields_def by blast

lemma record_delta_ledger: "steady (\<lambda>s. ledger (se_db s)) (record_delta batch forwards delta u)"
  unfolding record_delta_def by (intro steadies) (auto simp: usage_grown)

lemma insert_batch_new: "\<not> recorded batch db \<Longrightarrow> insert_batch batch db = Some (db', n) \<Longrightarrow> n = 1"
  by (auto simp: insert_batch_def recorded_def list_ex_iff split: if_splits)

lemma RecordUsageBatch_generation:
  "yields (\<lambda>db. generation_of db (ub_NodeID batch) (int64 (ub_Generation batch)) = None) (RecordUsageBatch cx batch) (\<lambda>_ _. False)"
  unfolding RecordUsageBatch_def
  by (rule yields_option, rule yields_guard, rule yields_transaction, rule yields_query, rule yields_option, rule yields_throw,
      rule yields_fact [where F = False], simp, erule FalseE, rule yields_throw)

lemma RecordUsageBatch_enforces:
  assumes faithful: "faithful_json cx"
  shows "yields (\<lambda>db. ledger_ok cx db \<and> \<not> recorded batch db) (RecordUsageBatch cx batch)
    (\<lambda>_ db. within_limit db \<longrightarrow> enforced cx (ub_NodeID batch) (db_rollups db) db)"
proof -
  have inserted: "yields (\<lambda>db. (ledger_ok cx db \<and> \<not> recorded batch db) \<and> P db) (exec what (insert_batch batch)) (\<lambda>n db. ledger_ok cx db \<and> n \<noteq> 0)" for what P
  proof (rule yieldsI, elim conjE)
    fix s s' :: session and n assume "ledger_ok cx (se_db s)" "\<not> recorded batch (se_db s)" "exec what (insert_batch batch) s = (Inr n, s')"
    moreover from this have "insert_batch batch (se_db s) = Some (se_db s', n)" by (blast dest: exec_Inr)
    ultimately show "ledger_ok cx (se_db s') \<and> n \<noteq> 0"
      using insert_batch_same [of batch "se_db s" "se_db s'" n] insert_batch_new [of batch "se_db s" "se_db s'" n] by (simp add: ledger_ok_def)
  qed
  have deltas: "upholds (ledger_ok cx) (loop (record_delta batch forwards) ds ())" for forwards ds
    unfolding ledger_ok_def by (rule upholds_frame [where v = ledger]) (intro steady_loop record_delta_ledger)
  have quotas: "yields (ledger_ok cx) (enforce_quotas cx (ub_NodeID batch)) (\<lambda>_ db. within_limit db \<longrightarrow> enforced cx (ub_NodeID batch) (db_rollups db) db)"
    by (rule yields_rollups, rule yields_weaken [OF enforce_quotas_enforces [OF faithful]]) auto
  have tail: "yields (ledger_ok cx) (andthen (failing (StoreWrapped ''decode usage generation'') (unless_error (DecodeDesiredJSON cx desiredJSON))) (\<lambda>desired.
      andthen (loop (record_delta batch (by_key fw_ID (ds_Forwards desired))) (ub_Deltas batch) ()) (\<lambda>_.
      andthen (enforce_quotas cx (ub_NodeID batch)) (\<lambda>_. return (Commit ''commit usage batch'' ())))))
      (\<lambda>e db. case e of Commit _ x \<Rightarrow> within_limit db \<longrightarrow> enforced cx (ub_NodeID batch) (db_rollups db) db | Abandon x \<Rightarrow> False)" for desiredJSON
    by (rule yields_upholds, intro upholdings, rule yields_upholds [OF deltas], rule yields_then [OF quotas], rule yields_return, simp)
  show ?thesis unfolding RecordUsageBatch_def
    by (rule yields_option, rule yields_guard, rule yields_transaction, rule yields_query, rule yields_option, rule yields_throw,
        rule yields_then [OF inserted], rule yields_if, rule yields_fact [where F = False], blast, erule FalseE,
        rule yields_weaken [OF tail], blast, assumption, rule yields_throw)
qed

text \<open>C4. Quotas are enforced node by node: when a new batch of usage of a node has been recorded, the newest state of the node decodes to one in which no forward
  that is neither paused nor being deleted has used up its quota, or its user's quota, by the usage recorded on this node so far. Usage on other nodes does not count
  here; it is for the enforcement on the cluster's plans, which is not modelled. The JSON library is assumed to decode what it encoded, and the
  stored texts to be within the decoder's limit.\<close>

theorem node_quotas_enforced:
  assumes "ledger_ok cx (se_db s)" and "faithful_json cx" and "\<not> recorded batch (se_db s)"
    and "RecordUsageBatch cx batch s = (Inr (), s')" and "within_limit (se_db s')"
  shows "\<exists>g d. newest_generation (se_db s') (ub_NodeID batch) = Some g \<and> DecodeDesiredJSON cx (ge_state g) = Inr d \<and>
    node_quotas_respected (ub_NodeID batch) (db_rollups (se_db s')) d"
proof -
  have "grown cx (ledger (se_db s)) (se_db s)" using assms(1) by (simp add: grown_def ledger_ok_def continues_refl)
  note grown = keepsD [OF RecordUsageBatch_grown this assms(4)]
  then have ok: "ledger_ok cx (se_db s')" by (rule grown_ledger_ok)
  obtain q where "generation_of (se_db s) (ub_NodeID batch) (int64 (ub_Generation batch)) = Some q"
    using yieldsD [OF RecordUsageBatch_generation _ assms(4)] by (cases "generation_of (se_db s) (ub_NodeID batch) (int64 (ub_Generation batch))") auto
  then have q: "q \<in> set (snd (ledger (se_db s)))" "ge_node q = ub_NodeID batch" using generation_of_Some by (auto simp: ledger_def)
  then have "\<exists>g\<in>set (db_generations (se_db s')). ge_node g = ub_NodeID batch"
    using grown same_content_fields(1) unfolding grown_def continues_def by (fastforce simp: ledger_def)
  then obtain h where h: "h \<in> set (db_generations (se_db s'))" "ge_node h = ub_NodeID batch" by blast
  obtain k a c where row: "(ub_NodeID batch, k, a, c) \<in> set (fst (ledger (se_db s')))" "1 \<le> ge_generation h" "ge_generation h \<le> k"
    using ledger_view_okD(4) [OF ledger_okE [OF ok] h(1)] h(2) by (auto simp: ledger_def)
  obtain g where g: "g \<in> set (db_generations (se_db s'))" "newest_generation (se_db s') (ub_NodeID batch) = Some g"
    using newest_generation_desired [OF ok row(1)] row(2,3) by auto
  obtain d where "stores cx g d" using ledger_view_okD(3) [OF ledger_okE [OF ok] g(1)] by blast
  from stored_decodes [OF assms(2) this] have "DecodeDesiredJSON cx (ge_state g) = Inr (Canonical d)" using assms(5) g(1) by (simp add: within_limit_def)
  moreover have "enforced cx (ub_NodeID batch) (db_rollups (se_db s')) (se_db s')"
    using yieldsD [OF RecordUsageBatch_enforces [OF assms(2)] _ assms(4)] assms(1,3,5) by blast
  ultimately show ?thesis using g(2) by (auto simp: enforced_def)
qed

definition limited_batch :: UsageBatch where
  "limited_batch = \<lparr>ub_NodeID = ''n'', ub_Epoch = replicate 64 CHR ''a'', ub_Sequence = 1, ub_Generation = 1, ub_ObservedAt = 5,
     ub_Deltas = [\<lparr>ud_ForwardID = ''f'', ud_Protocol = ProtocolTCP, ud_Direction = DirectionUpload, ud_ResourceVersion = 1, ud_Packets = 1, ud_Bytes = 12,
       ud_Reset = False\<rparr>]\<rparr>"

definition limited_rollup :: rollup_row where
  "limited_rollup = \<lparr>ru_node = ''n'', ru_forward = ''f'', ru_user = ''u'', ru_protocol = ProtocolTCP, ru_direction = DirectionUpload,
     ru_packets = Exact 1, ru_bytes = Exact 12\<rparr>"

lemma limited_batch_valid: "UsageBatch_Validate limited_batch = None"
proof -
  have "ValidateIdentifier ''usage.node_id'' ''n'' = None" "validChecksum (replicate 64 CHR ''a'')" "ValidateIdentifier ''usage.forward_id'' ''f'' = None" by code_simp+
  then show ?thesis by (simp add: UsageBatch_Validate_def limited_batch_def IsZero_def usage_delta_step_def del: ValidateIdentifier_None)
qed

text \<open>The quota is used up by the batch, and the forward is paused.\<close>

lemma limited_evaluation:
  assumes "se_answers s = []" "db_rollups (se_db s) = [limited_rollup]"
  shows "evaluateQuotas ''n'' limited_active s = (Inr (limited_active\<lparr>ds_Forwards := [limited_forward LifecyclePaused 2]\<rparr>, True, [(''forward_quota_pause'', ''f'')]), s)"
  using assms
  by (simp add: evaluateQuotas_def limited_active_def limited_state_def quiet quota_forward_def quota_action_def limited_forward_def quotaExceeded_def limited_rollup_def
      MaxInt64_def paused_def)

lemma limited_enforcement:
  assumes "se_answers s = []" "db_nodes (se_db s) = [limited_node]" "db_generations (se_db s) = [limited_generation]" "db_rollups (se_db s) = [limited_rollup]"
  shows "\<exists>s'. enforce_quotas limited_codecs ''n'' s = (Inr (), s') \<and> se_answers s' = [] \<and>
    db_generations (se_db s') = [limited_generation, pausing_generation (se_clock s (se_ticks s))] \<and> db_rollups (se_db s') = [limited_rollup]"
proof -
  obtain snapshot s1 where p: "publishDesiredTx limited_codecs ''n'' 1 (limited_active\<lparr>ds_Forwards := [limited_forward LifecyclePaused 2]\<rparr>) s = (Inr snapshot, s1)"
    "se_answers s1 = []" "db_generations (se_db s1) = [limited_generation, pausing_generation (se_clock s (se_ticks s))]"
    using limited_publish [OF assms(1,3)] by blast
  have g: "ge_node limited_generation = ''n''" "ge_generation limited_generation = 1" "ge_state limited_generation = ''active''" by (simp_all add: limited_generation_def)
  have n: "no_id limited_node = ''n''" "no_revoked limited_node = None" "no_desired limited_node = 1" by (simp_all add: limited_node_def new_node_def)
  have "\<exists>s'. enforce_quotas limited_codecs ''n'' s = (Inr (), s') \<and> se_answers s' = [] \<and> db_generations (se_db s') = db_generations (se_db s1)"
    using p(1,2) assms
    by (simp add: enforce_quotas_def quiet unrevoked_node_def n read_state_def generation_of_def g limited_decodes
        andthen_def [of "evaluateQuotas m d" for m d] limited_evaluation andthen_def [of "failing w (publishDesiredTx c n k d)" for w c n k d]
        failing_def [of w "publishDesiredTx c n k d" for w c n k d] insertPolicyAudits_def policy_audit_def)
  then obtain s' where run: "enforce_quotas limited_codecs ''n'' s = (Inr (), s')" "se_answers s' = []" "db_generations (se_db s') = db_generations (se_db s1)" by blast
  moreover have "db_rollups (se_db s') = [limited_rollup]" using steadyD [OF usage_view.enforce_quotas_same run(1)] assms(4) by (simp add: usage_tables_def)
  ultimately show ?thesis using p(3) by simp
qed

lemma limited_batch_runs:
  "\<exists>s'. RecordUsageBatch limited_codecs limited_batch (idle_session limited_published) = (Inr (), s') \<and>
     db_generations (se_db s') = [limited_generation, pausing_generation 0] \<and> db_rollups (se_db s') = [limited_rollup]"
proof -
  let ?delta = "delta_of limited_batch ''u'' (hd (ub_Deltas limited_batch))"
  let ?batches = "[\<lparr>ba_node = ''n'', ba_epoch = replicate 64 CHR ''a'', ba_sequence = 1, ba_generation = 1, ba_observed = 5\<rparr>]"
  let ?db = "limited_published\<lparr>db_batches := ?batches, db_deltas := [?delta], db_rollups := [limited_rollup]\<rparr>"
  let ?s = "(idle_session limited_published)\<lparr>se_db := ?db\<rparr>"
  obtain s' where e: "enforce_quotas limited_codecs ''n'' ?s = (Inr (), s')" "se_answers s' = []"
    "db_generations (se_db s') = [limited_generation, pausing_generation 0]" "db_rollups (se_db s') = [limited_rollup]"
    using limited_enforcement [of ?s] by (auto simp: limited_published_def idle_session_def)
  have g: "generation_of limited_published ''n'' 1 = Some limited_generation" "ge_state limited_generation = ''active''"
    by (simp_all add: generation_of_def limited_published_def limited_generation_def)
  have inserted: "insert_batch limited_batch limited_published = Some (limited_published\<lparr>db_batches := ?batches\<rparr>, 1)"
    by (simp add: insert_batch_def limited_published_def empty_database_def limited_batch_def int64_def)
  have recorded: "andthen (loop (record_delta limited_batch (by_key fw_ID (ds_Forwards limited_active))) (ub_Deltas limited_batch) ()) f
      ((idle_session limited_published)\<lparr>se_db := limited_published\<lparr>db_batches := ?batches\<rparr>\<rparr>) = f () ?s" for f
    by (simp add: limited_batch_def record_delta_def quiet by_key_def limited_active_def limited_state_def limited_forward_def forwardHasProtocol_def MaxInt64_def
        insert_delta_def delta_of_def insert_row_def add_rollup_def upsert_def limited_published_def empty_database_def limited_rollup_def int64_def)
  have range: "ub_NodeID limited_batch = ''n''" "int64 (ub_Generation limited_batch) = 1" "\<not> nat MaxInt64 < unat (ub_Sequence limited_batch)"
    "\<not> nat MaxInt64 < unat (ub_Generation limited_batch)" by (simp_all add: limited_batch_def int64_def MaxInt64_def)
  show ?thesis
    using e limited_batch_valid
    by (simp add: RecordUsageBatch_def quiet range g inserted limited_decodes recorded andthen_def [of "enforce_quotas c m" for c m] finish_def)
qed

theorem node_quotas_enforced_witness:
  "\<exists>s' g d. RecordUsageBatch limited_codecs limited_batch (idle_session limited_published) = (Inr (), s') \<and> db_rollups (se_db s') = [limited_rollup] \<and>
     newest_generation (se_db s') ''n'' = Some g \<and> DecodeDesiredJSON limited_codecs (ge_state g) = Inr d \<and>
     node_quotas_respected ''n'' (db_rollups (se_db s')) d"
proof -
  obtain s' where run: "RecordUsageBatch limited_codecs limited_batch (idle_session limited_published) = (Inr (), s')"
    "db_generations (se_db s') = [limited_generation, pausing_generation 0]" "db_rollups (se_db s') = [limited_rollup]"
    using limited_batch_runs by blast
  then have "within_limit (se_db s')" by (simp add: within_limit_def limited_generation_def pausing_generation_def MaxDesiredJSONBytes_def)
  moreover have "\<not> recorded limited_batch limited_published" by (simp add: recorded_def limited_published_def empty_database_def)
  ultimately show ?thesis
    using node_quotas_enforced [of limited_codecs "idle_session limited_published" limited_batch s'] run(1,3) limited_ledger_ok limited_faithful
    by (auto simp: limited_batch_def)
qed

end
