(* ===== verification/Store_Timely.thy ===== *)
theory Store_Timely
  imports Store_Quotas
begin

text \<open>
  The policies of time take effect at once: after a round of enforcement the newest state of each visited node forwards nothing that has expired and
  drains nothing past its deadline, and when all nodes that are neither revoked nor in an active rollout were visited, a second round at the same time publishes nothing.
\<close>

section \<open>Specification\<close>

definition settled :: "time \<Rightarrow> DesiredState \<Rightarrow> bool" where
  "settled now d \<longleftrightarrow> (\<forall>f\<in>set (ds_Forwards d).
     (forwarding f \<longrightarrow> (\<forall>e. fw_ExpiresAt f = Some e \<longrightarrow> now < e)) \<and>
     (fw_Lifecycle f = LifecycleDraining \<longrightarrow> (\<forall>e. fw_DrainDeadline f = Some e \<longrightarrow> now < e)))"

definition timely :: "codecs \<Rightarrow> time \<Rightarrow> string \<Rightarrow> database \<Rightarrow> bool" where
  "timely cx now nid db \<longleftrightarrow> (\<forall>g d. newest_generation db nid = Some g \<longrightarrow> DecodeDesiredJSON cx (ge_state g) = Inr d \<longrightarrow> settled now d)"

lemma not_due: "due_action now f = None \<longleftrightarrow>
    (forwarding f \<longrightarrow> (\<forall>e. fw_ExpiresAt f = Some e \<longrightarrow> now < e)) \<and>
    (fw_Lifecycle f = LifecycleDraining \<longrightarrow> (\<forall>e. fw_DrainDeadline f = Some e \<longrightarrow> now < e))"
  by (auto simp: due_action_def forwarding_def Before_def split: option.splits)

lemma settled_audits: "settled now d \<longleftrightarrow> due_audits now d = []"
proof -
  have "(case x of None \<Rightarrow> [] | Some (_, action) \<Rightarrow> [(action, i)]) = [] \<longleftrightarrow> x = None" for x :: "(ForwardSpec \<times> string) option" and i :: string
    by (auto split: option.split)
  then show ?thesis by (simp add: settled_def due_audits_def not_due)
qed

lemma due_action_last: "due_action now f = Some (f', action) \<Longrightarrow> due_action now f' = None"
  by (auto simp: due_action_def paused_def split: if_splits)

text \<open>One round is enough.\<close>

lemma settled_due_forwards: "settled now (due_forwards now d)"
  unfolding settled_audits by (auto simp: due_audits_def due_forwards_def split: option.splits prod.splits dest: due_action_last)

lemma settled_unclassed: "settled now (unclassed d) = settled now d"
  by (simp add: settled_def unclassed_def forwarding_def)

lemma settled_same: "unclassed d = unclassed e \<Longrightarrow> settled now d = settled now e"
  by (metis settled_unclassed)

lemma settled_Canonical: "settled now (Canonical d) = settled now d"
  by (simp add: settled_def Canonical_def forwarding_def canonical_forward_def)

lemma settled_stamped: "settled now (stamped nodeID current d) = settled now d"
  by (simp add: settled_def stamped_def)

lemma issued_timely:
  assumes "faithful_json cx" "ledger_view_ok cx v" "desires v nid current" "0 < current"
    "issued cx nid current (stamped nid current (due_forwards now d)) v snapshot db" "within_limit db"
  shows "timely cx now nid db"
  unfolding timely_def
proof (intro allI impI)
  fix g x assume "newest_generation db nid = Some g" "DecodeDesiredJSON cx (ge_state g) = Inr x"
  from issued_newest [OF assms this] obtain e where "x = Canonical e" "unclassed e = unclassed (stamped nid current (due_forwards now d))" by blast
  then show "settled now x" using settled_same [of e] by (simp add: settled_Canonical settled_stamped settled_due_forwards)
qed

section \<open>One node\<close>

definition rollout_tables :: "database \<Rightarrow> rollout_row list \<times> target_row list" where
  "rollout_tables db = (db_rollouts db, db_targets db)"

lemma in_rollout_tables: "rollout_tables db = rollout_tables db' \<Longrightarrow> in_rollout db nid = in_rollout db' nid"
  by (simp add: rollout_tables_def in_rollout_def)

lemma enforce_node_rollouts: "steady (\<lambda>s. rollout_tables (se_db s)) (enforce_node cx now node n)"
proof -
  have [steadies]: "steady (\<lambda>s. rollout_tables (se_db s)) (publishDesiredTx cx nodeID current desired)" for nodeID current desired
    by (rule publishDesiredTx_steady [of rollout_tables]) (simp_all add: rollout_tables_def)
  have [steadies]: "steady (\<lambda>s. rollout_tables (se_db s)) (insertPolicyAudits nodeID k audits)" for nodeID k audits
    by (rule insertPolicyAudits_steady) (simp add: rollout_tables_def)
  show ?thesis unfolding enforce_node_def by (intro steadies) (auto simp: write_nodes_def rollout_tables_def)
qed

text \<open>The ledger after a node's turn: as it was, with the newest state settled, or with one more generation of this node.\<close>

lemma enforce_node_cases:
  assumes ok: "ledger_ok cx (se_db s)" and row: "desires (ledger (se_db s)) nid k" "0 < k" and free: "\<not> in_rollout (se_db s) nid"
    and run: "enforce_node cx now (nid, k) n s = (Inr m, s')"
  shows "ledger (se_db s') = ledger (se_db s) \<and> timely cx now nid (se_db s') \<and> m = n \<or>
    (\<exists>d snapshot db. \<not> timely cx now nid (se_db s) \<and> ledger (se_db s') = ledger db \<and>
       issued cx nid k (stamped nid k (due_forwards now d)) (ledger (se_db s)) snapshot db)"
proof -
  let ?turn = "\<lambda>d. if due_audits now d = [] then return n
     else andthen (failing (StoreWrapped ''publish time policy generation'') (publishDesiredTx cx nid k (due_forwards now d))) (\<lambda>next.
       andthen (insertPolicyAudits nid (sp_Generation next) (due_audits now d)) (\<lambda>_. return (Suc n)))"
  obtain busy u where busy: "query ''recheck node rollout ownership'' (\<lambda>db. in_rollout db nid) s = (Inr busy, u)"
    and rest: "(if busy then return n else
      andthen (exec ''advance policy scan cursor'' (write_nodes (\<lambda>n. no_id n = nid) (\<lambda>n. n\<lparr>no_policy_checked := Some now\<rparr>))) (\<lambda>_.
      andthen (read_state cx ''read policy desired state'' ''decode policy desired state'' nid k) ?turn)) u = (Inr m, s')"
    using run unfolding enforce_node_def prod.case andthen_Inr_iff by blast
  have u: "\<not> busy" "se_db u = se_db s" using query_Inr [OF busy] free by simp_all
  obtain affected v d w where c: "exec ''advance policy scan cursor'' (write_nodes (\<lambda>n. no_id n = nid) (\<lambda>n. n\<lparr>no_policy_checked := Some now\<rparr>)) u = (Inr affected, v)"
    and r: "read_state cx ''read policy desired state'' ''decode policy desired state'' nid k v = (Inr d, w)" and t: "?turn d w = (Inr m, s')"
    using rest u(1) by (auto simp: andthen_Inr_iff)
  have v: "ledger (se_db v) = ledger (se_db s)" using ledger_nodes [OF _ exec_Inr [OF c]] u(2) by simp
  obtain g where g: "generation_of (se_db v) nid k = Some g" "DecodeDesiredJSON cx (ge_state g) = Inr d" "se_db w = se_db v" using read_state_Inr [OF r] by blast
  have timely: "timely cx now nid db \<longleftrightarrow> settled now d" if "ledger db = ledger (se_db s)" for db
  proof -
    have "ledger_ok cx db" "desires (ledger db) nid k" "generation_of db nid k = Some g" using that ok row g(1) v by (simp_all add: ledger_ok_def generation_of_def ledger_def)
    then show ?thesis using newest_generation_desired newest_current g(2) row(2) unfolding timely_def desires_def by (metis sum.inject(2) option.inject)
  qed
  show ?thesis
  proof (cases "due_audits now d = []")
    case True
    then show ?thesis using t g(3) v timely by (simp add: return_def settled_audits)
  next
    case False
    obtain snapshot x y where p: "publishDesiredTx cx nid k (due_forwards now d) w = (Inr snapshot, x)"
      "insertPolicyAudits nid (sp_Generation snapshot) (due_audits now d) x = (Inr y, s')"
      using t False by (auto simp: andthen_Inr_iff failing_def return_def split: prod.splits sum.splits)
    obtain a c where "(nid, k, a, c) \<in> set (fst (ledger (se_db s)))" using row by (auto simp: desires_def)
    from yieldsD [OF publishDesiredTx_ledger [OF ok [unfolded ledger_ok_def] this] _ p(1)] g(3) v
    have "issued cx nid k (stamped nid k (due_forwards now d)) (ledger (se_db s)) snapshot (se_db x)" by simp
    moreover have "ledger (se_db s') = ledger (se_db x)" by (rule steadyD [OF policy_audits_ledger p(2)])
    moreover have "\<not> timely cx now nid (se_db s)" using timely [OF refl] False by (simp add: settled_audits)
    ultimately show ?thesis by blast
  qed
qed

lemma issued_others:
  assumes "issued cx nid k x (ledger db0) snapshot db"
  shows "m \<noteq> nid \<Longrightarrow> desires (ledger db) m d \<longleftrightarrow> desires (ledger db0) m d" and "m \<noteq> nid \<Longrightarrow> timely cx now m db \<longleftrightarrow> timely cx now m db0"
    and "within_limit db \<Longrightarrow> within_limit db0"
proof -
  obtain g where g: "ledger db = (advance_row nid (k + 1) (fst (ledger db0)), snd (ledger db0) @ [g])" "ge_node g = nid"
    using assms by (auto simp: issued_def new_generation_def)
  then have rows: "db_generations db = db_generations db0 @ [g]" by (simp add: ledger_def)
  show "desires (ledger db) m d \<longleftrightarrow> desires (ledger db0) m d" if "m \<noteq> nid" using that g(1) by (auto simp: desires_def in_advance_row)
  show "timely cx now m db \<longleftrightarrow> timely cx now m db0" if "m \<noteq> nid" using that g(2) rows by (simp add: timely_def newest_generation_def)
  show "within_limit db \<Longrightarrow> within_limit db0" using rows by (simp add: within_limit_def)
qed

lemma timely_ledger: "ledger db = ledger db' \<Longrightarrow> timely cx now m db = timely cx now m db'"
  by (simp add: timely_def newest_generation_def ledger_def)

section \<open>A round\<close>

text \<open>The nodes still to be visited are as at the start of the transaction, those visited are settled, and no other has changed.\<close>

definition midway :: "codecs \<Rightarrow> time \<Rightarrow> database \<Rightarrow> (string \<times> int) list \<Rightarrow> (string \<times> int) list \<Rightarrow> database \<Rightarrow> bool" where
  "midway cx now db0 nodes rest db \<longleftrightarrow> ledger_ok cx db \<and> rollout_tables db = rollout_tables db0 \<and> distinct (map fst rest) \<and> set rest \<subseteq> set nodes \<and>
     (\<forall>(m, d)\<in>set rest. desires (ledger db) m d \<and> 0 < d \<and> \<not> in_rollout db0 m) \<and>
     (\<forall>m d. m \<notin> fst ` set nodes \<longrightarrow> desires (ledger db) m d = desires (ledger db0) m d) \<and>
     (\<forall>m\<in>fst ` set nodes. m \<in> fst ` set rest \<or> (within_limit db \<longrightarrow> timely cx now m db))"

lemma midway_step:
  assumes faithful: "faithful_json cx"
  shows "yields (midway cx now db0 nodes (node # rest)) (enforce_node cx now node n) (\<lambda>_. midway cx now db0 nodes rest)"
proof (rule yieldsI)
  fix s s' :: session and m assume pre: "midway cx now db0 nodes (node # rest) (se_db s)" and run: "enforce_node cx now node n s = (Inr m, s')"
  obtain nid k where node: "node = (nid, k)" by fastforce
  have tables: "rollout_tables (se_db s') = rollout_tables (se_db s)" by (rule steadyD [OF enforce_node_rollouts run])
  have here: "ledger_ok cx (se_db s)" "desires (ledger (se_db s)) nid k" "0 < k" "\<not> in_rollout (se_db s) nid" "rollout_tables (se_db s) = rollout_tables db0"
    and at: "(nid, k) \<in> set nodes" "nid \<notin> set (map fst rest)"
    using pre node in_rollout_tables [of "se_db s" db0] unfolding midway_def by simp_all
  have ids: "nid \<in> fst ` set nodes" "nid \<notin> fst ` set rest" using at(2) image_eqI [OF _ at(1), of nid fst] by simp_all
  show "midway cx now db0 nodes rest (se_db s')"
    using enforce_node_cases [OF here(1-4) run [unfolded node]]
  proof (elim disjE exE conjE)
    assume same: "ledger (se_db s') = ledger (se_db s)" and now: "timely cx now nid (se_db s')"
    have "i \<in> fst ` set rest \<or> (within_limit (se_db s') \<longrightarrow> timely cx now i (se_db s'))" if "i \<in> fst ` set nodes" for i
      using that now pre node within_limit_ledger [OF same] timely_ledger [OF same] by (cases "i = nid") (auto simp: midway_def)
    then show ?thesis using pre tables by (simp add: midway_def ledger_ok_def same)
  next
    fix d snapshot db assume same: "ledger (se_db s') = ledger db"
      and issue: "issued cx nid k (stamped nid k (due_forwards now d)) (ledger (se_db s)) snapshot db"
    obtain a c where "(nid, k, a, c) \<in> set (fst (ledger (se_db s)))" using here(2) by (auto simp: desires_def)
    then have ok: "ledger_ok cx (se_db s')" using issued_ok [OF here(1) [unfolded ledger_ok_def] _ issue] same by (simp add: ledger_ok_def)
    have now: "timely cx now nid (se_db s')" if "within_limit (se_db s')"
      using issued_timely [OF faithful here(1) [unfolded ledger_ok_def] here(2,3) issue] that within_limit_ledger [OF same] timely_ledger [OF same] by simp
    have others: "i \<noteq> nid \<Longrightarrow> desires (ledger (se_db s')) i e = desires (ledger (se_db s)) i e" "i \<noteq> nid \<Longrightarrow> timely cx now i (se_db s') = timely cx now i (se_db s)"
      "within_limit (se_db s') \<Longrightarrow> within_limit (se_db s)" for i e
      using issued_others [OF issue] same within_limit_ledger [OF same] timely_ledger [OF same] by simp_all
    have "desires (ledger (se_db s')) i e \<and> 0 < e \<and> \<not> in_rollout db0 i" if "(i, e) \<in> set rest" for i e
    proof -
      have "i \<noteq> nid" using ids(2) that by force
      then show ?thesis using others(1) that pre by (auto simp: midway_def)
    qed
    moreover have "desires (ledger (se_db s')) i e = desires (ledger db0) i e" if "i \<notin> fst ` set nodes" for i e
      using others(1) [of i e] that ids(1) pre by (auto simp: midway_def)
    moreover have "i \<in> fst ` set rest \<or> (within_limit (se_db s') \<longrightarrow> timely cx now i (se_db s'))" if "i \<in> fst ` set nodes" for i
      using that now others(2) [of i] others(3) pre node by (cases "i = nid") (auto simp: midway_def)
    ultimately show ?thesis using ok tables here(5) pre by (auto simp: midway_def)
  qed
qed

lemma midway_start:
  assumes "ledger_ok cx db"
  shows "midway cx now db (take k (policy_nodes db)) (take k (policy_nodes db)) db"
proof -
  have "distinct (map fst (take k (policy_nodes db)))"
    by (rule policy_nodes_distinct) (use ledger_view_okD(1) [OF ledger_okE [OF assms]] in \<open>simp add: ledger_def comp_def\<close>)
  moreover have "desires (ledger db) m d \<and> 0 < d \<and> \<not> in_rollout db m" if "(m, d) \<in> set (policy_nodes db)" for m d
    using that by (force simp: policy_nodes_def desires_def ledger_def)
  ultimately show ?thesis using assms by (auto simp: midway_def dest: in_set_takeD)
qed

lemma EnforcePolicies_round:
  assumes "faithful_json cx" and "ledger_ok cx (se_db s)" and run: "EnforcePolicies cx limit now s = (Inr n, s')"
  shows "midway cx now (se_db s) (take (nat limit) (policy_nodes (se_db s))) [] (se_db s')"
proof -
  let ?nodes = "\<lambda>db. take (nat limit) (policy_nodes db)"
  have "yields (\<lambda>db. ledger_ok cx db \<and> db = se_db s) (EnforcePolicies cx limit now) (\<lambda>_ db. midway cx now (se_db s) (?nodes (se_db s)) [] db)"
    unfolding EnforcePolicies_def
    apply (rule yields_guard, rule yields_transaction, rule yields_query)
    apply (rule yields_then [where R = "\<lambda>_. midway cx now (se_db s) (?nodes (se_db s)) []"], rule yields_weaken [OF yields_loop_rest [where J = "\<lambda>rest _. midway cx now (se_db s) (?nodes (se_db s)) rest"]])
       apply (rule midway_step [OF assms(1)])
      apply (use midway_start in blast, assumption)
    apply (intro forwards, simp)
    done
  from yieldsD [OF this _ run] assms(2) show ?thesis by simp
qed

text \<open>Where all that is due has been done, a round leaves the ledger as it is.\<close>

lemma idle_round:
  assumes "ledger_ok cx (se_db s)" and timely: "\<forall>(m, d)\<in>set (policy_nodes (se_db s)). timely cx now m (se_db s)"
    and run: "EnforcePolicies cx limit now s = (Inr n, s')"
  shows "n = 0 \<and> ledger (se_db s') = ledger (se_db s)"
proof -
  let ?J = "\<lambda>rest a db. a = 0 \<and> ledger db = ledger (se_db s) \<and> rollout_tables db = rollout_tables (se_db s) \<and> set rest \<subseteq> set (policy_nodes (se_db s))"
  have step: "yields (?J (node # rest) a) (enforce_node cx now node a) (?J rest)" for node rest a
  proof (rule yieldsI, elim conjE)
    fix t t' :: session and m assume a: "a = 0" and v: "ledger (se_db t) = ledger (se_db s)" and T: "rollout_tables (se_db t) = rollout_tables (se_db s)"
      and sub: "set (node # rest) \<subseteq> set (policy_nodes (se_db s))" and turn: "enforce_node cx now node a t = (Inr m, t')"
    obtain nid k where node: "node = (nid, k)" by fastforce
    then have "(nid, k) \<in> set (policy_nodes (se_db s))" using sub by simp
    then have "desires (ledger (se_db s)) nid k" "0 < k" "\<not> in_rollout (se_db s) nid" "timely cx now nid (se_db s)"
      using timely by (auto simp: policy_nodes_def desires_def ledger_def)
    with assms(1) have "ledger_ok cx (se_db t)" "desires (ledger (se_db t)) nid k" "0 < k" "\<not> in_rollout (se_db t) nid" "timely cx now nid (se_db t)"
      using in_rollout_tables [OF T] timely_ledger [OF v] v by (simp_all add: ledger_ok_def)
    with enforce_node_cases [OF this(1-4) turn [unfolded node]] have "ledger (se_db t') = ledger (se_db t) \<and> m = a" by blast
    then show "?J rest m (se_db t')" using a v T sub steadyD [OF enforce_node_rollouts turn] by simp
  qed
  have "yields (\<lambda>db. db = se_db s) (EnforcePolicies cx limit now) (\<lambda>n db. n = 0 \<and> ledger db = ledger (se_db s))"
    unfolding EnforcePolicies_def
    apply (rule yields_guard, rule yields_transaction, rule yields_query)
    apply (rule yields_then [where R = "?J []"], rule yields_weaken [OF yields_loop_rest [where J = ?J, OF step]])
      apply (use in_set_takeD in force, assumption)
    apply (intro forwards, simp)
    done
  from yieldsD [OF this _ run] show ?thesis by simp
qed

lemma still_policy_node:
  assumes ok: "ledger_ok cx db" and same: "identities db' = identities db" "rollout_tables db' = rollout_tables db"
    and kept: "\<And>m d. m \<notin> fst ` set (policy_nodes db) \<Longrightarrow> desires (ledger db') m d = desires (ledger db) m d" and "(m, d) \<in> set (policy_nodes db')"
  shows "m \<in> fst ` set (policy_nodes db)"
proof (rule ccontr)
  assume out: "m \<notin> fst ` set (policy_nodes db)"
  obtain n' where n': "n' \<in> set (db_nodes db')" "m = no_id n'" "d = no_desired n'" "no_revoked n' = None" "0 < d" "\<not> in_rollout db' m"
    using assms(5) by (auto simp: policy_nodes_def)
  then have "desires (ledger db') m d" by (force simp: desires_def ledger_def)
  then have "desires (ledger db) m d" using kept [OF out] by simp
  then obtain n where n: "n \<in> set (db_nodes db)" "no_id n = m" "no_desired n = d" by (auto simp: desires_def ledger_def)
  have "(m, no_revoked n) \<in> set (fst (identities db))" using n by (force simp: identities_def)
  moreover have "(m, None) \<in> set (fst (identities db))" using n' unfolding same(1) [symmetric] by (force simp: identities_def)
  moreover have "distinct (map fst (fst (identities db)))"
    using ledger_view_okD(1) [OF ledger_okE [OF ok]] by (simp add: ledger_def identities_def comp_def)
  ultimately have "no_revoked n = None" by (auto dest: eq_key_imp_eq_value)
  moreover have "\<not> in_rollout db m" using n'(6) in_rollout_tables [OF same(2)] by simp
  ultimately have "(m, d) \<in> set (policy_nodes db)" using n n'(5) by (force simp: policy_nodes_def)
  with out show False by force
qed

text \<open>C14. The policies of time settle in one round that visits all nodes: when the limit of a successful round is at least the number of nodes it may visit (those with a
  generation that are neither revoked nor in an active rollout), then afterwards the newest state of each such node forwards nothing that has expired and
  drains nothing past its deadline, and any further round at that time publishes nothing and leaves the ledger as it is. The JSON library is assumed to
  decode what it encoded, and the stored texts to be within the decoder's limit.\<close>

theorem policies_settle:
  assumes "ledger_ok cx (se_db s)" and "faithful_json cx" and "length (policy_nodes (se_db s)) \<le> nat limit"
    and "EnforcePolicies cx limit now s = (Inr n, s')" and "within_limit (se_db s')"
  shows "(\<forall>(m, d)\<in>set (policy_nodes (se_db s')). timely cx now m (se_db s')) \<and>
    (\<forall>t limit' k t'. se_db t = se_db s' \<longrightarrow> EnforcePolicies cx limit' now t = (Inr k, t') \<longrightarrow> k = 0 \<and> ledger (se_db t') = ledger (se_db t))"
proof -
  have visited: "midway cx now (se_db s) (policy_nodes (se_db s)) [] (se_db s')" using EnforcePolicies_round [OF assms(2,1,4)] assms(3) by simp
  have "identities (se_db s') = identities (se_db s)" by (rule steadyD [OF identity_view.EnforcePolicies_same assms(4)])
  then have "m \<in> fst ` set (policy_nodes (se_db s))" if "(m, d) \<in> set (policy_nodes (se_db s'))" for m d
    using still_policy_node [OF assms(1) _ _ _ that] visited by (simp add: midway_def)
  moreover have "\<forall>m\<in>fst ` set (policy_nodes (se_db s)). timely cx now m (se_db s')" using visited assms(5) by (simp add: midway_def)
  ultimately have timely: "\<forall>(m, d)\<in>set (policy_nodes (se_db s')). timely cx now m (se_db s')" by blast
  have "k = 0 \<and> ledger (se_db t') = ledger (se_db t)" if "se_db t = se_db s'" "EnforcePolicies cx limit' now t = (Inr k, t')" for t limit' k t'
    by (rule idle_round [OF _ _ that(2)]) (use visited timely that(1) in \<open>simp_all add: midway_def\<close>)
  with timely show ?thesis by blast
qed

text \<open>A round at time 5 pauses the forward of the sample, which expired at time 3.\<close>

lemma limited_due: "due_audits 5 limited_active = [(''expiry_pause'', ''f'')]" "due_forwards 5 limited_active = limited_active\<lparr>ds_Forwards := [limited_forward LifecyclePaused 2]\<rparr>"
  by (simp_all add: due_audits_def due_forwards_def limited_active_def limited_state_def due_action_def limited_forward_def Before_def paused_def)

lemma limited_round:
  "\<exists>s'. EnforcePolicies limited_codecs 10 5 (idle_session limited_published) = (Inr 1, s') \<and>
     db_generations (se_db s') = [limited_generation, pausing_generation 0] \<and> policy_nodes (se_db s') = [(''n'', 2)]"
proof -
  let ?s = "(idle_session limited_published)\<lparr>se_db := limited_published\<lparr>db_nodes := [limited_node\<lparr>no_policy_checked := Some 5\<rparr>]\<rparr>\<rparr>"
  obtain snapshot s1 where p: "publishDesiredTx limited_codecs ''n'' 1 (limited_active\<lparr>ds_Forwards := [limited_forward LifecyclePaused 2]\<rparr>) ?s = (Inr snapshot, s1)"
    "se_answers s1 = []" "db_generations (se_db s1) = [limited_generation, pausing_generation 0]"
    "db_nodes (se_db s1) = [limited_node\<lparr>no_policy_checked := Some 5, no_desired := 2\<rparr>]" "db_targets (se_db s1) = []"
    using limited_publish [of ?s] by (auto simp: limited_published_def idle_session_def rewrite_def limited_node_def new_node_def empty_database_def)
  have n: "no_id limited_node = ''n''" "no_revoked limited_node = None" "no_desired limited_node = 1" by (simp_all add: limited_node_def new_node_def)
  have scan: "policy_nodes limited_published = [(''n'', 1)]" "\<not> in_rollout limited_published ''n''"
    by (simp_all add: policy_nodes_def in_rollout_def limited_published_def empty_database_def n)
  have mark: "write_nodes (\<lambda>n. no_id n = ''n'') (\<lambda>n. n\<lparr>no_policy_checked := Some 5\<rparr>) limited_published = Some (se_db ?s, 1)"
    by (simp add: write_nodes_def limited_published_def n rewrite_def)
  have last: "policy_nodes ((se_db s1)\<lparr>db_policy_audits := audits\<rparr>) = [(''n'', 2)]" for audits
    by (simp add: policy_nodes_def in_rollout_def p(4,5) n)
  have g: "generation_of (limited_published\<lparr>db_nodes := ns\<rparr>) ''n'' 1 = Some limited_generation" "ge_state limited_generation = ''active''" for ns
    by (simp_all add: generation_of_def limited_published_def limited_generation_def)
  show ?thesis
    using p
    by (simp add: EnforcePolicies_def quiet scan enforce_node_def mark read_state_def g limited_decodes limited_due
        andthen_def [of "failing w (publishDesiredTx c n k d)" for w c n k d] failing_def [of w "publishDesiredTx c n k d" for w c n k d]
        insertPolicyAudits_def policy_audit_def finish_def last)
qed

theorem policies_settle_witness:
  "\<exists>s'. EnforcePolicies limited_codecs 10 5 (idle_session limited_published) = (Inr 1, s') \<and> timely limited_codecs 5 ''n'' (se_db s')"
proof -
  obtain s' where run: "EnforcePolicies limited_codecs 10 5 (idle_session limited_published) = (Inr 1, s')"
      "db_generations (se_db s') = [limited_generation, pausing_generation 0]" "policy_nodes (se_db s') = [(''n'', 2)]"
    using limited_round by blast
  then have "within_limit (se_db s')" by (simp add: within_limit_def limited_generation_def pausing_generation_def MaxDesiredJSONBytes_def)
  moreover have "length (policy_nodes limited_published) \<le> nat 10" by (simp add: policy_nodes_def limited_published_def)
  ultimately show ?thesis
    using policies_settle [of limited_codecs "idle_session limited_published" 10 5 1 s'] run(1,3) limited_ledger_ok limited_faithful by auto
qed

end
