(* ===== verification/Store_Leases.thy ===== *)
theory Store_Leases
  imports Store_Outbox
begin

text \<open>What a worker gets when it claims events of the outbox, and what it keeps other workers from getting.\<close>

section \<open>A claim\<close>

definition leased :: "string \<Rightarrow> time \<Rightarrow> outbox_row \<Rightarrow> outbox_row" where
  "leased owner until e = e\<lparr>ob_leased_by := Some owner, ob_leased_until := Some (AtNano until), ob_attempts := ob_attempts e + 1\<rparr>"

definition event_of :: "outbox_row \<Rightarrow> OutboxEvent" where
  "event_of e = \<lparr>oe_ID = ob_id e, oe_Topic = ob_topic e, oe_AggregateID = ob_aggregate e, oe_Generation = uint64 (ob_generation e)\<rparr>"

interpretation by_id: slice_order "\<lambda>a b. ob_id a < ob_id b"
  by unfold_locales auto

lemma fold_rewrite:
  assumes "distinct (map oe_ID events)"
  shows "fold (\<lambda>event. rewrite (\<lambda>e. ob_id e = oe_ID event \<and> ob_delivered e = None) (leased owner until)) events rows =
    map (\<lambda>e. if ob_id e \<in> oe_ID ` set events \<and> ob_delivered e = None then leased owner until e else e) rows"
  using assms
proof (induction events arbitrary: rows)
  case (Cons event events)
  then have new: "oe_ID event \<notin> oe_ID ` set events" by simp
  show ?case using Cons new by (auto simp: rewrite_def leased_def)
qed simp

lemma lease_loop:
  assumes "se_answers s = []"
  shows "loop (lease_event owner until) events () s = (Inr (), s\<lparr>se_db := (se_db s)\<lparr>db_outbox :=
    fold (\<lambda>event. rewrite (\<lambda>e. ob_id e = oe_ID event \<and> ob_delivered e = None) (leased owner until)) events (db_outbox (se_db s))\<rparr>\<rparr>)"
  using assms
proof (induction events arbitrary: s)
  case (Cons event events)
  show ?case using Cons by (simp add: lease_event_def quiet write_events_def leased_def)
qed (simp add: return_def)

lemma ready_events_IDs:
  assumes "distinct (map ob_id (db_outbox db))"
  shows "distinct (map oe_ID (ready_events now limit db))"
    "x \<in> oe_ID ` set (ready_events now limit db) \<Longrightarrow> \<exists>e\<in>set (db_outbox db). ob_id e = x \<and> ready now e"
proof -
  let ?es = "sort_less (\<lambda>a b. ob_id a < ob_id b) (filter (ready now) (db_outbox db))"
  have ids: "map oe_ID (ready_events now limit db) = take (nat limit) (map ob_id ?es)" by (simp add: ready_events_def take_map comp_def)
  have "distinct (map ob_id ?es)" using distinct_map_filter [OF assms] by (simp add: distinct_map)
  then show "distinct (map oe_ID (ready_events now limit db))" unfolding ids by (rule distinct_take)
  show "\<exists>e\<in>set (db_outbox db). ob_id e = x \<and> ready now e" if "x \<in> oe_ID ` set (ready_events now limit db)"
  proof -
    have "x \<in> set (take (nat limit) (map ob_id ?es))" using that ids by (metis set_map)
    from in_set_takeD [OF this] show ?thesis by auto
  qed
qed

lemma leased_not_ready: "later \<le> until div Second \<Longrightarrow> \<not> ready later (leased owner until e)"
  by (simp add: ready_def leased_def)

lemma ready_events_rows:
  assumes "distinct (map ob_id (db_outbox db))"
  shows "sorted_wrt (<) (map oe_ID (ready_events now limit db))"
    and "event \<in> set (ready_events now limit db) \<Longrightarrow> \<exists>e\<in>set (db_outbox db). ready now e \<and> event = event_of e"
    and "e \<in> set (db_outbox db) \<Longrightarrow> ready now e \<Longrightarrow> ob_id e \<notin> oe_ID ` set (ready_events now limit db) \<Longrightarrow>
      event \<in> set (ready_events now limit db) \<Longrightarrow> oe_ID event < ob_id e"
proof -
  let ?rows = "filter (ready now) (db_outbox db)" and ?lt = "\<lambda>a b. ob_id a < ob_id b"
  let ?es = "sort_less ?lt ?rows"
  have events: "ready_events now limit db = map event_of (take (nat limit) ?es)" by (simp add: ready_events_def event_of_def)
  have rows: "distinct (map ob_id ?rows)" by (rule distinct_map_filter [OF assms])
  have sorted: "sorted_wrt ?lt ?es"
  proof (rule by_id.slice_strict)
    show "distinct ?rows" using rows by (simp add: distinct_map)
    show "?lt a b \<or> ?lt b a" if "a \<in> set ?rows" "b \<in> set ?rows" "a \<noteq> b" for a b
      using inj_onD [OF distinct_map [THEN iffD1, OF rows, THEN conjunct2] _ that(1,2)] that(3) by (meson linorder_neqE)
  qed
  then have "sorted_wrt ?lt (take (nat limit) ?es @ drop (nat limit) ?es)" unfolding append_take_drop_id .
  then have first: "sorted_wrt ?lt (take (nat limit) ?es)" and older: "\<forall>a\<in>set (take (nat limit) ?es). \<forall>b\<in>set (drop (nat limit) ?es). ?lt a b"
    unfolding sorted_wrt_append by blast+
  have ids: "map oe_ID (ready_events now limit db) = map ob_id (take (nat limit) ?es)" unfolding events by (simp add: event_of_def)
  show "sorted_wrt (<) (map oe_ID (ready_events now limit db))" unfolding ids sorted_wrt_map by (rule first)
  show "\<exists>e\<in>set (db_outbox db). ready now e \<and> event = event_of e" if "event \<in> set (ready_events now limit db)"
    using that unfolding events by (auto dest!: in_set_takeD)
  assume e: "e \<in> set (db_outbox db)" "ready now e" "ob_id e \<notin> oe_ID ` set (ready_events now limit db)" and ev: "event \<in> set (ready_events now limit db)"
  have claimed: "oe_ID ` set (ready_events now limit db) = ob_id ` set (take (nat limit) ?es)" using arg_cong [OF ids, of set] by simp
  have "e \<in> set ?es" using e(1,2) by simp
  then have "e \<in> set (take (nat limit) ?es) \<union> set (drop (nat limit) ?es)" unfolding set_append [symmetric] append_take_drop_id .
  moreover have "e \<notin> set (take (nat limit) ?es)" using e(3) unfolding claimed by blast
  ultimately have later: "e \<in> set (drop (nat limit) ?es)" by blast
  obtain a where a: "a \<in> set (take (nat limit) ?es)" "oe_ID event = ob_id a" using imageI [OF ev, of oe_ID] unfolding claimed by blast
  show "oe_ID event < ob_id e" unfolding a(2) by (rule bspec [OF bspec [OF older a(1)] later])
qed

text \<open>C20. A claim takes the oldest events that are ready, as many as asked for: each returned event is a ready row, in the order of their numbers, and every ready row that is
  not returned has a greater number than all that are. It leases exactly those to the worker: each has one attempt more, no other event changes, and
  until the lease is over no worker can claim one of them again.\<close>

theorem ClaimOutbox_leases:
  assumes "se_answers s = []" and "distinct (map ob_id (db_outbox (se_db s)))"
    and "owner \<noteq> []" and "1 \<le> limit" and "limit \<le> 1000" and "Second \<le> lease"
    and "now = se_clock s (se_ticks s) div Second" and "until = se_clock s (Suc (se_ticks s)) + lease"
  shows "\<exists>events s'. ClaimOutbox owner limit lease s = (Inr events, s') \<and>
    length events = min (nat limit) (length (filter (ready now) (db_outbox (se_db s)))) \<and>
    sorted_wrt (<) (map oe_ID events) \<and>
    (\<forall>event\<in>set events. \<exists>e\<in>set (db_outbox (se_db s)). ready now e \<and> event = event_of e) \<and>
    (\<forall>e\<in>set (db_outbox (se_db s)). ready now e \<and> ob_id e \<notin> oe_ID ` set events \<longrightarrow> (\<forall>event\<in>set events. oe_ID event < ob_id e)) \<and>
    db_outbox (se_db s') = map (\<lambda>e. if ob_id e \<in> oe_ID ` set events then leased owner until e else e) (db_outbox (se_db s)) \<and>
    (\<forall>e later. later \<le> until div Second \<longrightarrow> \<not> ready later (leased owner until e))"
proof -
  let ?events = "ready_events now limit (se_db s)"
  let ?claimed = "oe_ID ` set ?events"
  have undelivered: "ob_delivered e = None" if e: "e \<in> set (db_outbox (se_db s))" "ob_id e \<in> ?claimed" for e
  proof -
    obtain e' where "e' \<in> set (db_outbox (se_db s))" "ob_id e' = ob_id e" "ready now e'" using ready_events_IDs(2) [OF assms(2) e(2)] by blast
    moreover then have "e' = e" using assms(2) e(1) by (auto simp: distinct_map dest: inj_onD)
    ultimately show ?thesis by (simp add: ready_def)
  qed
  have rows: "fold (\<lambda>event. rewrite (\<lambda>e. ob_id e = oe_ID event \<and> ob_delivered e = None) (leased owner until)) ?events (db_outbox (se_db s)) =
      map (\<lambda>e. if ob_id e \<in> ?claimed then leased owner until e else e) (db_outbox (se_db s))"
    unfolding fold_rewrite [OF ready_events_IDs(1) [OF assms(2)]] using undelivered by auto
  have run: "ClaimOutbox owner limit lease s = (Inr ?events, s\<lparr>se_ticks := Suc (Suc (se_ticks s)), se_db := (se_db s)\<lparr>db_outbox :=
      map (\<lambda>e. if ob_id e \<in> ?claimed then leased owner until e else e) (db_outbox (se_db s))\<rparr>\<rparr>)"
    unfolding ClaimOutbox_def using assms(1,3-6)
    by (simp add: quiet assms(7) [symmetric] assms(8) [symmetric] andthen_def [of "loop f xs a" for f xs a] lease_loop rows finish_def return_def)
  have size: "length ?events = min (nat limit) (length (filter (ready now) (db_outbox (se_db s))))" by (simp add: ready_events_def)
  show ?thesis
    by (intro exI conjI, rule run, rule size, rule ready_events_rows(1) [OF assms(2)])
      (use ready_events_rows(2,3) [OF assms(2)] leased_not_ready in \<open>blast+, simp, blast\<close>)
qed

definition sample_event :: "int \<Rightarrow> outbox_row" where
  "sample_event i = \<lparr>ob_id = i, ob_topic = ''node.snapshot.ready'', ob_aggregate = ''n'', ob_generation = 1, ob_available = AtSecond 0,
     ob_leased_by = None, ob_leased_until = None, ob_attempts = 0, ob_delivered = None, ob_last_error = None\<rparr>"

theorem ClaimOutbox_leases_witness:
  "\<exists>events s'. ClaimOutbox ''worker'' 1 Second (idle_session (empty_database\<lparr>db_outbox := [sample_event 2, sample_event 1]\<rparr>)) = (Inr events, s') \<and>
     events = [event_of (sample_event 1)] \<and> db_outbox (se_db s') = [sample_event 2, leased ''worker'' Second (sample_event 1)]"
proof -
  let ?s = "idle_session (empty_database\<lparr>db_outbox := [sample_event 2, sample_event 1]\<rparr>)"
  have row: "ready 0 (sample_event i)" "ob_id (sample_event i) = i" "oe_ID (event_of (sample_event i)) = i" for i
    by (simp_all add: ready_def sample_event_def event_of_def)
  have clock: "se_clock ?s k = 0" for k by (simp add: idle_session_def)
  obtain events s' where run: "ClaimOutbox ''worker'' 1 Second ?s = (Inr events, s')" and "length events = 1"
    and rows: "\<forall>event\<in>set events. \<exists>e\<in>{sample_event 2, sample_event 1}. event = event_of e"
    and oldest: "\<forall>e\<in>{sample_event 2, sample_event 1}. ob_id e \<notin> oe_ID ` set events \<longrightarrow> (\<forall>event\<in>set events. oe_ID event < ob_id e)"
    and leases: "db_outbox (se_db s') = map (\<lambda>e. if ob_id e \<in> oe_ID ` set events then leased ''worker'' Second e else e) [sample_event 2, sample_event 1]"
    using ClaimOutbox_leases [of ?s "''worker''" 1 Second 0 Second] clock row by auto
  then obtain event where e: "events = [event]" by (cases events) auto
  have "event = event_of (sample_event 1)" using rows oldest row e by (auto simp: event_of_def)
  with e run leases row show ?thesis by simp
qed

end
