(* ===== verification/Store_Stranded.thy ===== *)
theory Store_Stranded
  imports Store_Rollout
begin

text \<open>
  How a rollout waits and how it can strand: while a stage awaits acknowledgements, nothing of the rollout moves until the
  last target has applied its generation or the time is over; and a late error of an earlier stage, once the compensation has been
  published, leaves the rollout in a state that no advance leaves again.
\<close>

section \<open>Lookups after writes\<close>

lemma find_rewrite:
  assumes "\<And>q. p (f q) = p q"
  shows "List.find p (rewrite w f rows) = map_option (\<lambda>r. if w r then f r else r) (List.find p rows)"
  using assms by (induction rows) (simp_all add: rewrite_def)

lemma lookups_other [simp]:
  "rollout_of (write_stage rid k f db) = rollout_of db" "rollout_of (write_plan pid g db) = rollout_of db"
  "stage_of (write_rollout rid h db) = stage_of db" "stage_of (write_plan pid g db) = stage_of db"
  "rollout_of (db\<lparr>db_plans := ps\<rparr>) = rollout_of db" "stage_of (db\<lparr>db_plans := ps\<rparr>) = stage_of db"
  "rollout_of (db\<lparr>db_cluster_audits := as\<rparr>) = rollout_of db" "stage_of (db\<lparr>db_cluster_audits := as\<rparr>) = stage_of db"
  "rollout_of (db\<lparr>db_targets := ts\<rparr>) = rollout_of db" "stage_of (db\<lparr>db_targets := ts\<rparr>) = stage_of db"
  by (simp_all add: rollout_of_def stage_of_def write_stage_def write_rollout_def write_plan_def fun_eq_iff)

lemma writes_elsewhere [simp]:
  "db_generations (write_stage rid k f db) = db_generations db" "db_generations (write_rollout rid h db) = db_generations db"
  "db_generations (write_plan pid g db) = db_generations db" "db_targets (write_stage rid k f db) = db_targets db"
  "db_targets (write_rollout rid h db) = db_targets db" "db_targets (write_plan pid g db) = db_targets db"
  "db_stages (write_rollout rid h db) = db_stages db" "db_stages (write_plan pid g db) = db_stages db"
  by (simp_all add: write_stage_def write_rollout_def write_plan_def)

lemma rollout_of_write:
  assumes "\<And>r. ro_id (f r) = ro_id r"
  shows "rollout_of (write_rollout rid f db) k = map_option (\<lambda>r. if ro_id r = rid then f r else r) (rollout_of db k)"
  unfolding rollout_of_def write_rollout_def by (simp add: find_rewrite assms)

lemma stage_of_write:
  assumes "\<And>s. sg_rollout (f s) = sg_rollout s \<and> sg_order (f s) = sg_order s"
  shows "stage_of (write_stage rid k f db) rid' k' = map_option (\<lambda>s. if at_stage rid k s then f s else s) (stage_of db rid' k')"
  unfolding stage_of_def write_stage_def by (simp add: find_rewrite assms at_stage_def)

lemma rollout_of_id: "rollout_of db rid = Some r \<Longrightarrow> ro_id r = rid"
  unfolding rollout_of_def by (blast dest: find_SomeD)

lemma stage_of_at: "stage_of db rid k = Some s \<Longrightarrow> at_stage rid k s"
  unfolding stage_of_def by (blast dest: find_SomeD)

definition rollback_requested :: "int \<Rightarrow> int \<Rightarrow> string \<Rightarrow> bool \<Rightarrow> string \<Rightarrow> time \<Rightarrow> database \<Rightarrow> database" where
  "rollback_requested rid k phase auto message now db = (let terminal = (phase = RolloutPhaseCompensate \<or> \<not> auto) in
     write_rollout rid (\<lambda>r. r\<lparr>ro_status := (if terminal then ''failed'' else ''rollback_pending''), ro_failure := truncateClusterError message,
       ro_completed := (if terminal then Some now else None), ro_bake_until := None\<rparr>)
     (write_stage rid k (\<lambda>s. s\<lparr>sg_status := ''failed'', sg_completed := Some now\<rparr>) db))"

text \<open>Without driver failures the rollback is requested, up to the plan and the audit log.\<close>

lemma quiet_rollback:
  assumes "se_answers s = []"
  shows "\<exists>ps as. requestClusterRollbackTx rid planID revision k phase auto message actor now s =
    (Inr (), s\<lparr>se_db := (rollback_requested rid k phase auto message now (se_db s))\<lparr>db_plans := ps, db_cluster_audits := as\<rparr>\<rparr>)"
  using assms
  by (simp add: requestClusterRollbackTx_def insertClusterAudit_def rollback_requested_def quiet Let_def write_plan_def split del: if_split) blast

lemma rollback_lookups:
  assumes "rollout_of db rid = Some r" "stage_of db rid k = Some stage" "db' = (rollback_requested rid k phase auto message now db)\<lparr>db_plans := ps, db_cluster_audits := as\<rparr>"
  shows "\<exists>r'. rollout_of db' rid = Some r' \<and> ro_status r' = (if phase = RolloutPhaseCompensate \<or> \<not> auto then ''failed'' else ''rollback_pending'')"
    "map_option sg_status (stage_of db' rid k) = Some ''failed''"
    "k' \<noteq> k \<Longrightarrow> stage_of db' rid k' = stage_of db rid k'"
    "db_generations db' = db_generations db" "db_targets db' = db_targets db"
proof -
  have other: "map_option (\<lambda>s. if at_stage rid k s then f s else s) (stage_of db rid k') = stage_of db rid k'" if "k' \<noteq> k" for f
    using that by (cases "stage_of db rid k'") (auto dest: stage_of_at simp: at_stage_def)
  show "k' \<noteq> k \<Longrightarrow> stage_of db' rid k' = stage_of db rid k'" using other unfolding assms(3) by (simp add: rollback_requested_def Let_def stage_of_write)
qed (use assms(1,2) rollout_of_id [OF assms(1)] stage_of_at [OF assms(2)] in
    \<open>simp_all add: assms(3) rollback_requested_def Let_def rollout_of_write stage_of_write\<close>)

section \<open>Waiting\<close>

text \<open>C23. A stage that awaits acknowledgements gates the rollout: as long as a target has not applied its generation and the
  time for acknowledgements is not over, an advance changes nothing; when it is over, no generation is published either, the
  stage fails, and the rollout is to be rolled back or, without automatic rollback or during compensation, has failed.\<close>

theorem advance_waits_for_acks:
  assumes "se_answers s = []" and "rollout_of (se_db s) rid = Some r" and "ro_status r = ''awaiting_ack''"
    and "stage_of (se_db s) rid (ro_current r) = Some stage" and "sg_started stage = Some started"
    and "t \<in> set (stage_targets (se_db s) rid (ro_current r))" and "ta_status t \<noteq> ''applied''"
  shows "(now - started < clusterRolloutACKTimeout \<longrightarrow> advanceClusterRolloutTx cx rid now actor s = (Inr False, s)) \<and>
    (clusterRolloutACKTimeout \<le> now - started \<longrightarrow> (\<exists>s'. advanceClusterRolloutTx cx rid now actor s = (Inr True, s') \<and>
       db_generations (se_db s') = db_generations (se_db s) \<and> db_targets (se_db s') = db_targets (se_db s) \<and>
       map_option sg_status (stage_of (se_db s') rid (ro_current r)) = Some ''failed'' \<and>
       map_option ro_status (rollout_of (se_db s') rid) =
         Some (if sg_phase stage = RolloutPhaseCompensate \<or> \<not> ro_auto_rollback r then ''failed'' else ''rollback_pending'')))"
proof -
  have pending: "length (filter (\<lambda>t. ta_status t \<noteq> ''applied'') (stage_targets (se_db s) rid (ro_current r))) \<noteq> 0"
    using assms(6,7) by (auto simp: filter_empty_conv)
  note id = rollout_of_id [OF assms(2)]
  have gate: "advanceClusterRolloutTx cx rid now actor s = (if now - started \<ge> clusterRolloutACKTimeout then
      andthen (requestClusterRollbackTx rid (ro_plan r) (uint64 (ro_revision r)) (ro_current r) (sg_phase stage) (ro_auto_rollback r)
        (''rollout '' @ show_rollout rid @ '' stage '' @ show_rollout (ro_current r) @ '' did not receive all Agent ACKs within 10m0s'') actor now) (\<lambda>_. return True) s
      else (Inr False, s))"
    using assms(1-5) pending by (simp add: advanceClusterRolloutTx_def advance_acks_def quiet id)
  let ?message = "''rollout '' @ show_rollout rid @ '' stage '' @ show_rollout (ro_current r) @ '' did not receive all Agent ACKs within 10m0s''"
  obtain ps as where run: "requestClusterRollbackTx rid (ro_plan r) (uint64 (ro_revision r)) (ro_current r) (sg_phase stage) (ro_auto_rollback r) ?message actor now s =
      (Inr (), s\<lparr>se_db := (rollback_requested rid (ro_current r) (sg_phase stage) (ro_auto_rollback r) ?message now (se_db s))\<lparr>db_plans := ps, db_cluster_audits := as\<rparr>\<rparr>)"
    using quiet_rollback [OF assms(1)] by blast
  from gate show ?thesis using rollback_lookups [OF assms(2,4) refl] by (auto simp: andthen_def run return_def simp del: append.simps)
qed

section \<open>Stranding\<close>

lemma rolling_back_stuck:
  assumes "se_answers s = []" "rollout_of (se_db s) rid = Some r" "ro_status r = ''rolling_back''" "stage_of (se_db s) rid (ro_current r) = Some c" "sg_status c = ''awaiting_ack''"
  shows "advanceClusterRolloutTx cx rid now actor s = (Inr True, s)"
  using assms by (simp add: advanceClusterRolloutTx_def publishClusterStageTx_def quiet)

lemma resume_compensation:
  assumes "se_answers s = []" "rollout_of (se_db s) rid = Some r" "ro_status r = ''rollback_pending''" "compensation_stage (se_db s) rid = Some k"
    "stage_of (se_db s) rid k = Some c" "sg_status c = ''awaiting_ack''"
  shows "advanceClusterRolloutTx cx rid now actor s = (Inr True, s\<lparr>se_db := rolling_back rid k (se_db s)\<rparr>)"
  using assms by (simp add: advanceClusterRolloutTx_def ensureCompensationStage_def publishClusterStageTx_def rolling_back_def quiet)

lemma map_filter_rewrite:
  assumes "\<And>r. p (f r) = p r" "\<And>r. k (f r) = k r"
  shows "map k (filter p (rewrite w f rows)) = map k (filter p rows)"
  using assms by (induction rows) (simp_all add: rewrite_def)

lemma compensation_stage_rollback:
  "compensation_stage ((rollback_requested rid k phase auto message now db)\<lparr>db_plans := ps, db_cluster_audits := as\<rparr>) rid' = compensation_stage db rid'"
  by (simp add: compensation_stage_def rollback_requested_def Let_def write_stage_def map_filter_rewrite)

text \<open>C24. A late error strands a rollout. While the compensation stage awaits its acknowledgements, the arrival of a permanent error of an
  earlier stage sends the rollout back to \<open>rollback_pending\<close>; the next advance finds the compensation published already, sets the
  rollout to \<open>rolling_back\<close>, and from then on every advance reports progress and changes nothing, even when all targets of the compensation
  have applied it: the rollout is never completed and keeps its nodes out of the policies and further plans.\<close>

theorem late_error_strands_rollout:
  assumes "se_answers s = []" and "rollout_of (se_db s) rid = Some r" and "ro_status r = ''awaiting_ack''" and "ro_auto_rollback r"
    and "compensation_stage (se_db s) rid = Some m" and "stage_of (se_db s) rid m = Some c" and "sg_status c = ''awaiting_ack''"
    and "stage_of (se_db s) rid k = Some earlier" and "k \<noteq> m" and "sg_phase earlier \<noteq> RolloutPhaseCompensate" and "ar_Status ack = ''permanent_error''"
  shows "\<exists>s1 s2. ack_match ack (rid, k) () s = (Inr (), s1) \<and> advanceClusterRolloutTx cx rid now actor s1 = (Inr True, s2) \<and>
    map_option ro_status (rollout_of (se_db s2) rid) = Some ''rolling_back'' \<and>
    (\<forall>targets now' actor'. let s3 = s2\<lparr>se_db := (se_db s2)\<lparr>db_targets := targets\<rparr>\<rparr> in advanceClusterRolloutTx cx rid now' actor' s3 = (Inr True, s3))"
proof -
  let ?message = "''node '' @ ar_NodeID ack @ '' generation '' @ show_nat (unat (ar_Generation ack)) @ '': '' @ ar_ErrorMessage ack"
  obtain ps as where run: "requestClusterRollbackTx rid (ro_plan r) (uint64 (ro_revision r)) k (sg_phase earlier) (ro_auto_rollback r) ?message ''system:controller'' (ar_ObservedAt ack) s =
      (Inr (), s\<lparr>se_db := (rollback_requested rid k (sg_phase earlier) (ro_auto_rollback r) ?message (ar_ObservedAt ack) (se_db s))\<lparr>db_plans := ps, db_cluster_audits := as\<rparr>\<rparr>)"
    (is "_ = (Inr (), ?s1)") using quiet_rollback [OF assms(1)] by blast
  have ack: "ack_match ack (rid, k) () s = (Inr (), ?s1)" using assms(1,2,3,8,11) run by (simp add: ack_match_def quiet del: append.simps)
  note after = rollback_lookups [OF assms(2,8) refl]
  obtain r' where r': "rollout_of (se_db ?s1) rid = Some r'" "ro_status r' = ''rollback_pending''" using after(1) [where phase = "sg_phase earlier" and auto = "ro_auto_rollback r" and message = ?message and now = "ar_ObservedAt ack" and ps = ps and as = as] assms(4,10)
    by (auto simp del: append.simps)
  have c: "stage_of (se_db ?s1) rid m = Some c" using after(3) assms(6,9) by simp
  have m: "compensation_stage (se_db ?s1) rid = Some m" using assms(5) compensation_stage_rollback by simp
  let ?s2 = "?s1\<lparr>se_db := rolling_back rid m (se_db ?s1)\<rparr>"
  have resumed: "advanceClusterRolloutTx cx rid now actor ?s1 = (Inr True, ?s2)" by (rule resume_compensation [OF _ r' m c assms(7)]) (simp add: assms(1))
  have r2: "rollout_of (se_db ?s2) rid = Some (r'\<lparr>ro_status := ''rolling_back'', ro_current := m, ro_bake_until := None\<rparr>)"
    using r'(1) rollout_of_id [OF r'(1)] by (simp add: rolling_back_def rollout_of_write)
  have c2: "stage_of (se_db ?s2) rid m = Some c" using c by (simp add: rolling_back_def)
  have stuck: "advanceClusterRolloutTx cx rid now' actor' (?s2\<lparr>se_db := (se_db ?s2)\<lparr>db_targets := targets\<rparr>\<rparr>) = (Inr True, ?s2\<lparr>se_db := (se_db ?s2)\<lparr>db_targets := targets\<rparr>\<rparr>)"
    for targets now' actor'
    by (rule rolling_back_stuck [of _ rid "r'\<lparr>ro_status := ''rolling_back'', ro_current := m, ro_bake_until := None\<rparr>" c])
      (use r2 c2 assms(1,7) in simp_all)
  show ?thesis by (intro exI [of _ ?s1] exI [of _ ?s2] conjI ack resumed) (use r2 stuck in \<open>simp_all add: Let_def\<close>)
qed

section \<open>A sample\<close>

text \<open>A rollout whose first stage failed and whose compensation stage awaits acknowledgements.\<close>

definition sample_rollout :: rollout_row where
  "sample_rollout = \<lparr>ro_id = 7, ro_plan = ''p'', ro_revision = 1, ro_status = ''awaiting_ack'', ro_detail = [], ro_current = 2, ro_bake_until = None,
     ro_failure = [], ro_auto_rollback = True, ro_completed = None\<rparr>"

definition sample_stage :: "int \<Rightarrow> string \<Rightarrow> string \<Rightarrow> stage_row" where
  "sample_stage k phase status = \<lparr>sg_rollout = 7, sg_order = k, sg_wave = RolloutWaveCompensation, sg_phase = phase, sg_status = status,
     sg_bake_seconds = 0, sg_started = Some 0, sg_completed = None\<rparr>"

definition sample_compensated :: target_row where
  "sample_compensated = \<lparr>ta_rollout = 7, ta_stage = 2, ta_node = ''n'', ta_previous = 1, ta_generation = Some 2, ta_checksum = None, ta_state = [],
     ta_status = ''pending'', ta_error = [], ta_applied_at = None\<rparr>"

definition sample_compensation :: database where
  "sample_compensation = empty_database\<lparr>db_rollouts := [sample_rollout], db_stages := [sample_stage 1 RolloutPhasePrepare ''failed'',
     sample_stage 2 RolloutPhaseCompensate ''awaiting_ack''], db_targets := [sample_compensated]\<rparr>"

definition sample_late_error :: ApplyRecord where
  "sample_late_error = \<lparr>ar_NodeID = ''n'', ar_Generation = 1, ar_DesiredChecksum = [], ar_ProgramChecksum = [], ar_Status = ''permanent_error'',
     ar_ErrorCode = [], ar_ErrorMessage = [], ar_ObservedAt = 5\<rparr>"

lemma sample_lookups:
  "rollout_of sample_compensation 7 = Some sample_rollout"
  "stage_of sample_compensation 7 1 = Some (sample_stage 1 RolloutPhasePrepare ''failed'')"
  "stage_of sample_compensation 7 2 = Some (sample_stage 2 RolloutPhaseCompensate ''awaiting_ack'')"
  "compensation_stage sample_compensation 7 = Some 2"
  by (simp_all add: rollout_of_def stage_of_def at_stage_def compensation_stage_def sample_compensation_def sample_rollout_def sample_stage_def)

theorem late_error_strands_rollout_witness:
  "\<forall>cx now actor. \<exists>s1 s2. ack_match sample_late_error (7, 1) () (idle_session sample_compensation) = (Inr (), s1) \<and>
     advanceClusterRolloutTx cx 7 now actor s1 = (Inr True, s2) \<and> advanceClusterRolloutTx cx 7 now actor s2 = (Inr True, s2)"
proof (intro allI)
  fix cx now actor
  obtain s1 s2 where steps: "ack_match sample_late_error (7, 1) () (idle_session sample_compensation) = (Inr (), s1)"
      "advanceClusterRolloutTx cx 7 now actor s1 = (Inr True, s2)"
    and stuck: "\<And>targets. let s3 = s2\<lparr>se_db := (se_db s2)\<lparr>db_targets := targets\<rparr>\<rparr> in advanceClusterRolloutTx cx 7 now actor s3 = (Inr True, s3)"
    using late_error_strands_rollout [of "idle_session sample_compensation" 7 sample_rollout 2 "sample_stage 2 RolloutPhaseCompensate ''awaiting_ack''" 1
        "sample_stage 1 RolloutPhasePrepare ''failed''" sample_late_error cx now actor] sample_lookups
    by (auto simp: sample_rollout_def sample_stage_def sample_late_error_def)
  have "advanceClusterRolloutTx cx 7 now actor s2 = (Inr True, s2)" using stuck [of "db_targets (se_db s2)"] by (simp add: Let_def)
  with steps show "\<exists>s1 s2. ack_match sample_late_error (7, 1) () (idle_session sample_compensation) = (Inr (), s1) \<and>
     advanceClusterRolloutTx cx 7 now actor s1 = (Inr True, s2) \<and> advanceClusterRolloutTx cx 7 now actor s2 = (Inr True, s2)" by blast
qed

theorem advance_waits_for_acks_witness:
  "\<forall>cx actor. advanceClusterRolloutTx cx 7 (Second) actor (idle_session sample_compensation) = (Inr False, idle_session sample_compensation)"
proof (intro allI)
  fix cx actor
  have "Second - 0 < clusterRolloutACKTimeout" by (simp add: Second_def clusterRolloutACKTimeout_def)
  then show "advanceClusterRolloutTx cx 7 Second actor (idle_session sample_compensation) = (Inr False, idle_session sample_compensation)"
    using advance_waits_for_acks [of "idle_session sample_compensation" 7 sample_rollout "sample_stage 2 RolloutPhaseCompensate ''awaiting_ack''" 0 sample_compensated Second cx actor]
      sample_lookups by (simp add: sample_rollout_def sample_stage_def sample_compensated_def stage_targets_def sample_compensation_def)
qed

end
