(* ===== verification/Spec2Isabelle.thy ===== *)
theory Spec2Isabelle
  imports Spec_Canonical Spec_Hostname Meter Usage Health IAM Cluster_Exits Agent_Guarantees Store_Timely Store_Leases Store_Stranded
begin

text \<open>
  Flux forwards transport-layer traffic across a fleet of Linux nodes. A controller keeps the fleet's state in a
  database and publishes to each node a desired state with a generation; an agent on the node compiles
  that state into an nftables table, a traffic-control batch and the links of a fabric, installs them,
  reports usage and health, and acknowledges the generation. A cluster plan describes forwards without naming
  nodes; the controller schedules it and rolls the result out in stages. This development models that logic
  in HOL and proves what makes it correct. Paths below are relative to \<^verbatim>\<open>src/internal/\<close>.

  \<^bold>\<open>How Go is read.\<close> A Go string is a HOL string of bytes; \<open>uintN\<close> is an N-bit word, and conversions are written
  out; SQL integers and durations are \<open>int\<close> with the \<open>int64\<close> conversions written out; a pointer or nullable column is an
  option; a struct is a record whose fields carry a short prefix and the name of the source; a map is a partial
  function, or an association list where its order is used. \<open>sort.Slice\<close> is a stable insertion sort by the
  comparator, and where the source's order could matter it is shown not to. An error is the left part
  of a sum. Code with effects is a routine (\<open>Go_Effect\<close>): a function from the state of the world to a
  result or error and the next world; \<open>andthen\<close> returns early on an error and \<open>loop\<close> is the range loop of a
  routine. Mutexes and the single database connection make operations atomic. Loops are structural
  recursion over the list they range over, so that no definition needs fuel and all are total. The
  JSON codecs, the kernel's backends, the file system, the probes of the health engine, \<open>idna\<close> and the clock are
  parameters, and a theorem that relies on their documented behaviour names it as a hypothesis.

  \<^bold>\<open>Standard library.\<close> \<open>Flux_Prelude\<close> has the shared types, sorting and formatting, with the interface \<open>slice_order\<close> of
  the comparators; \<open>Go_Netip\<close>, \<open>Go_Std\<close> and \<open>Go_Text\<close> have addresses and prefixes, parsing, printing, base64,
  SHA-256, and the round trips between the textual forms.

  \<^bold>\<open>Desired states\<close> (\<open>spec/types.go\<close>, \<open>spec/validate.go\<close>, \<open>spec/canonical.go\<close>, \<open>spec/hostname.go\<close>, \<open>spec/json.go\<close>).
  \<open>Spec_Types\<close> has the structs, \<open>Spec_Validate\<close> every check with its message, \<open>Spec_WellFormed\<close> the declarative meaning of
  an accepted state, and \<open>Spec_Guarantees\<close> shows that \<open>Validate\<close> decides it and what a node may rely on (disjoint
  networks, distinct listeners and classes, a link for each relayed forward). \<open>Spec_Canonical\<close> shows that the canonical
  form is a fixed point, keeps validity, and makes the checksum independent of the order of the lists.

  \<^bold>\<open>Data plane\<close> (\<open>dataplane/nft\<close>, \<open>dataplane/tc\<close>, \<open>dataplane/fabric\<close>). \<open>Nft_Compiler\<close>, \<open>Tc_Compiler\<close> and \<open>Fabric_Compiler\<close>
  translate an accepted state into the scripts and plans of the kernel's tools: what the nftables rules do to a packet is
  what the forwards say, marked traffic is shaped at its rate, links get distinct tables and rules. \<open>Nft_Executor\<close> reads
  the metadata of an installed table back.

  \<^bold>\<open>Agent\<close> (\<open>agent/store.go\<close>, \<open>agent/reconciler.go\<close>, \<open>meter\<close>, \<open>usage\<close>, \<open>health\<close>). \<open>Agent_Store\<close> is the durable record and its file,
  \<open>Agent_Reconciler\<close> the operations, over backends of the kernel given as records of routines. \<open>Agent_Durability\<close> states
  the contract of a store as the locale \<open>durable_store\<close>, proves what the operations keep inside it, and interprets it
  on the file store; \<open>Agent_Operations\<close> has the steps of an agent and its surroundings; \<open>Agent_Success\<close> and
  \<open>Agent_Guarantees\<close> show that the record never goes back, is written ahead of the kernel, that a successful \<open>Apply\<close> has
  installed its target, and that usage leaves the outbox only by acknowledgement; \<open>Agent_Sample\<close> is the agent the
  witnesses run. \<open>Meter\<close> turns counters into deltas that conserve bytes, \<open>Usage\<close> checks the batches, \<open>Health\<close> is the
  engine of health checks with its hysteresis.

  \<^bold>\<open>Cluster\<close> (\<open>cluster\<close>). \<open>Cluster_Types\<close>, \<open>Cluster_Validate\<close> and \<open>Cluster_Plan\<close> have the plan, its checks and what they
  guarantee; \<open>Cluster_Scheduler\<close> and \<open>Cluster_Placement\<close> the scheduler, which never overbooks a node; \<open>Cluster_Compile\<close> the
  desired states of a placement, both ends of each relayed forward among them; \<open>Cluster_Rollout\<close> the stages, which
  pass through valid states only and end at the target; \<open>Cluster_Exits\<close> shows over all stages of both waves that a relayed forward reaches its exit
  before any other node.

  \<^bold>\<open>Controller\<close> (\<open>controller/iam\<close>, \<open>control/protocol.go\<close>, \<open>controller/store\<close>). \<open>IAM\<close> decides whether a tenant may create a
  forward; \<open>Control_Capabilities\<close> computes the capabilities a state requires. \<open>Store_Tables\<close> models the database as
  lists of rows, the driver as a source of failures, and transactions with their rollback; its rules \<open>steadies\<close>, \<open>keepings\<close>,
  \<open>forwards\<close> and \<open>upholdings\<close> carry the proofs about the operations, and \<open>quiet\<close> computes them when the driver does not fail.
  \<open>Store_Nodes\<close> has enrolment, authorisation and revocation; \<open>Store_Publish\<close> publication with traffic classes and service
  addresses; \<open>Store_Ledger\<close> the invariant of the generations; \<open>Store_Rollout\<close> the engine that advances and
  compensates rollouts; \<open>Store_Policies\<close> acknowledgements, usage, quotas and the policies of time; \<open>Store_Outbox\<close> the leases
  of the outbox.

  \<^bold>\<open>The store as a system.\<close> \<open>Store_Frame\<close> states, as the locale \<open>bystander\<close>, what publication, rollouts, reports and
  policies leave alone, and \<open>Store_Growth\<close> and \<open>Store_Reports\<close> that each operation only lets the ledger grow. \<open>Store_System\<close> is the
  step relation of the operations modelled, with any arguments and any failures of the driver; the locale \<open>store_invariant\<close> lifts
  what every operation keeps to all runs, and is interpreted on the ledger, the identities, the exclusion of a revoked node, and
  in \<open>Store_Usage\<close> on the accounts of usage. \<open>Store_Snapshot\<close> shows that what an agent is sent decodes to the desired
  state, \<open>Store_Usage\<close> that usage is summed exactly and a batch counts once, \<open>Store_Quotas\<close> that quotas used up by the traffic of a node stop
  their forwards on this node, \<open>Store_Timely\<close> that the policies of time settle in one round that visits all nodes (\<open>Store_Sample\<close> is the node the
  witnesses of both run on), \<open>Store_Leases\<close> that a lease keeps other workers
  away, and \<open>Store_Stranded\<close> that a stage waits for its acknowledgements, and how a late error strands a rollout. Two
  hypotheses are about the codec and its texts: \<open>faithful_json\<close>, that \<open>encoding/json\<close> decodes what it encoded, and \<open>within_limit\<close>, that the stored texts are
  within the decoder's limit, which the encoder does not check.

  \<^bold>\<open>Not modelled.\<close> The gRPC and HTTP handlers, the agent's control loop, enrolment over the network, installers, archives,
  the Noise transport and the main programs are I/O around the operations above. The executors of traffic control,
  of the fabric and the conntrack cleaner talk to netlink; the reconciler sees them through its backends. Password
  hashing calls Argon2 and the DNS cache the system's resolver. Of the store, the preparation and scheduling of a
  plan into a rollout (and with it the operations that apply plans: reconciliation, rollback, deletion, and the enforcement of quotas over all nodes and
  of tenant policies), the observations of health, the accounts and sessions, and the listings for the management API are left out, so that
  a rollout enters the model through its tables. Generated protobuf code has no logic of its own.
\<close>

end
